(* ===== verification/Gapura_Prelude.thy ===== *)
theory Gapura_Prelude
  imports
    Main
    "HOL-Library.Word"
    "HOL-Library.Char_ord"
    "HOL-Library.List_Lexorder"
    "HOL-Library.Product_Lexorder"
    "HOL-Library.Sublist"
    "HOL-Library.Code_Target_Nat"
begin

text \<open>
  The shared layer of the development: the names of the machine types, the result and panic
  types, the arithmetic of Rust's fixed-width integers, the descending sort key
  \<open>Reverse\<close>, first-match and last-maximum search in a list, and finite maps kept as
  association lists. Every component theory imports it, directly or through another one.
\<close>

section \<open>Collections of rules\<close>

named_theorems rust_defs \<open>definitions of standard-library operations, for evaluation\<close>
named_theorems wf_intros \<open>operations preserve the well-formedness of their component\<close>

section \<open>Machine types, results and panics\<close>

text \<open>
  Rust's \<open>usize\<close> is only ever a length or an index here and is a \<^typ>\<open>nat\<close>; every
  integer whose overflow the code has to deal with keeps its width.
\<close>

type_synonym u8 = "8 word"
type_synonym u16 = "16 word"
type_synonym u32 = "32 word"
type_synonym u64 = "64 word"
type_synonym u128 = "128 word"

text \<open>\<open>Result<T, E>\<close> is \<open>'e + 'a\<close>: \<open>Err\<close> on the left.\<close>

abbreviation Ok :: "'a \<Rightarrow> 'e + 'a" where "Ok \<equiv> Inr"
abbreviation Err :: "'e \<Rightarrow> 'e + 'a" where "Err \<equiv> Inl"

text \<open>A call that may panic: \<open>unreachable!\<close>, \<open>expect\<close>, an index out of range.\<close>

datatype 'a run = Returns 'a | Panics

section \<open>Fixed-width arithmetic\<close>

definition saturating_add :: "'l::len word \<Rightarrow> 'l word \<Rightarrow> 'l word" where
  "saturating_add a b = (if unat a + unat b < 2 ^ LENGTH('l) then a + b else - 1)"

definition saturating_sub :: "'l::len word \<Rightarrow> 'l word \<Rightarrow> 'l word" where
  "saturating_sub a b = (if a < b then 0 else a - b)"

definition saturating_mul :: "'l::len word \<Rightarrow> 'l word \<Rightarrow> 'l word" where
  "saturating_mul a b = (if unat a * unat b < 2 ^ LENGTH('l) then a * b else - 1)"

definition checked_add :: "'l::len word \<Rightarrow> 'l word \<Rightarrow> 'l word option" where
  "checked_add a b = (if unat a + unat b < 2 ^ LENGTH('l) then Some (a + b) else None)"

definition checked_mul :: "'l::len word \<Rightarrow> 'l word \<Rightarrow> 'l word option" where
  "checked_mul a b = (if unat a * unat b < 2 ^ LENGTH('l) then Some (a * b) else None)"

lemmas [rust_defs] =
  saturating_add_def saturating_sub_def saturating_mul_def checked_add_def checked_mul_def

lemma unat_max_word: "unat (- 1 :: 'l::len word) = 2 ^ LENGTH('l) - 1"
  by (simp add: unsigned_minus_1_eq_mask mask_eq_exp_minus_1)

lemma unat_of_nat_small: "n < 2 ^ LENGTH('l) \<Longrightarrow> unat (of_nat n :: 'l::len word) = n"
  by (simp add: unsigned_of_nat take_bit_nat_eq_self)

lemma unat_ucast_up: "LENGTH('a) \<le> LENGTH('b) \<Longrightarrow> unat (ucast (w :: 'a::len word) :: 'b::len word) = unat w"
proof -
  assume le: "LENGTH('a) \<le> LENGTH('b)"
  have "unat w < 2 ^ LENGTH('a)" by simp
  also have "\<dots> \<le> 2 ^ LENGTH('b)" using le by simp
  finally show ?thesis by (simp add: unsigned_ucast_eq take_bit_nat_eq_self)
qed

lemma unat_plus_1: "a \<noteq> - 1 \<Longrightarrow> unat (a + 1) = unat a + 1" for a :: "'l::len word"
proof -
  assume "a \<noteq> - 1"
  then have "a + 1 \<noteq> 0" by (metis eq_neg_iff_add_eq_0)
  then show ?thesis by (metis Suc_eq_plus1 unatSuc add.commute)
qed

lemma unat_saturating_add:
  "unat (saturating_add a b) = min (unat a + unat b) (2 ^ LENGTH('l) - 1)"
  for a b :: "'l::len word"
proof (cases "unat a + unat b < 2 ^ LENGTH('l)")
  case True
  then have "unat (a + b) = unat a + unat b"
    by (simp add: unat_word_ariths)
  with True show ?thesis by (simp add: saturating_add_def)
next
  case False
  then show ?thesis by (simp add: saturating_add_def unat_max_word)
qed

lemma unat_saturating_mul:
  "unat (saturating_mul a b) = min (unat a * unat b) (2 ^ LENGTH('l) - 1)"
  for a b :: "'l::len word"
proof (cases "unat a * unat b < 2 ^ LENGTH('l)")
  case True
  then have "unat (a * b) = unat a * unat b"
    by (simp add: unat_word_ariths)
  with True show ?thesis by (simp add: saturating_mul_def)
next
  case False
  then show ?thesis by (simp add: saturating_mul_def unat_max_word)
qed

lemma unat_saturating_sub: "unat (saturating_sub a b) = unat a - unat b"
  by (auto simp: saturating_sub_def word_less_nat_alt word_le_nat_alt unat_sub_if')

lemma saturating_add_ge: "a \<le> saturating_add a b"
  by (simp add: word_le_nat_alt unat_saturating_add) (metis nat_less_le unsigned_less Suc_pred
      less_Suc_eq_le zero_less_numeral zero_less_power)

lemma checked_add_Some_unat:
  "checked_add a b = Some c \<longleftrightarrow> unat c = unat a + unat b"
  for a b c :: "'l::len word"
proof
  assume "checked_add a b = Some c"
  then show "unat c = unat a + unat b"
    by (auto simp: checked_add_def unat_word_ariths split: if_splits)
next
  assume *: "unat c = unat a + unat b"
  then have "unat a + unat b < 2 ^ LENGTH('l)"
    by (metis unsigned_less)
  with * show "checked_add a b = Some c"
    by (simp add: checked_add_def word_unat_eq_iff unat_word_ariths)
qed

lemma checked_mul_Some_unat:
  "checked_mul a b = Some c \<longleftrightarrow> unat c = unat a * unat b"
  for a b c :: "'l::len word"
proof
  assume "checked_mul a b = Some c"
  then show "unat c = unat a * unat b"
    by (auto simp: checked_mul_def unat_word_ariths split: if_splits)
next
  assume *: "unat c = unat a * unat b"
  then have "unat a * unat b < 2 ^ LENGTH('l)"
    by (metis unsigned_less)
  with * show "checked_mul a b = Some c"
    by (simp add: checked_mul_def word_unat_eq_iff unat_word_ariths)
qed

section \<open>Descending sort keys\<close>

text \<open>\<open>std::cmp::Reverse\<close>: the order of the wrapped value, turned round.\<close>

datatype 'a reverse_key = Reverse (reversed: 'a)

instantiation reverse_key :: (linorder) linorder
begin

definition less_eq_reverse_key :: "'a reverse_key \<Rightarrow> 'a reverse_key \<Rightarrow> bool" where
  "less_eq_reverse_key a b \<longleftrightarrow> reversed b \<le> reversed a"

definition less_reverse_key :: "'a reverse_key \<Rightarrow> 'a reverse_key \<Rightarrow> bool" where
  "less_reverse_key a b \<longleftrightarrow> reversed b < reversed a"

instance
  by standard (auto simp: less_eq_reverse_key_def less_reverse_key_def intro: reverse_key.expand)

end

lemma Reverse_le [simp]: "Reverse a \<le> Reverse b \<longleftrightarrow> b \<le> a"
  by (simp add: less_eq_reverse_key_def)

lemma Reverse_less [simp]: "Reverse a < Reverse b \<longleftrightarrow> b < a"
  by (simp add: less_reverse_key_def)

section \<open>Searching a list\<close>

lemma find_append: "find P (xs @ ys) = (case find P xs of None \<Rightarrow> find P ys | Some x \<Rightarrow> Some x)"
  by (induction xs) auto

lemma find_SomeD: "find P xs = Some x \<Longrightarrow> P x \<and> x \<in> set xs"
  by (induction xs) (auto split: if_splits)

lemma find_Some_split:
  "find P xs = Some x \<longleftrightarrow> (\<exists>us vs. xs = us @ x # vs \<and> P x \<and> (\<forall>u \<in> set us. \<not> P u))"
proof
  show "find P xs = Some x \<Longrightarrow> \<exists>us vs. xs = us @ x # vs \<and> P x \<and> (\<forall>u \<in> set us. \<not> P u)"
  proof (induction xs)
    case (Cons y ys)
    show ?case
    proof (cases "P y")
      case True
      with Cons.prems show ?thesis by (intro exI [of _ "[]"] exI [of _ ys]) simp
    next
      case False
      with Cons obtain us vs where "ys = us @ x # vs" "P x" "\<forall>u \<in> set us. \<not> P u" by auto
      with False show ?thesis by (intro exI [of _ "y # us"] exI [of _ vs]) simp
    qed
  qed simp
next
  assume "\<exists>us vs. xs = us @ x # vs \<and> P x \<and> (\<forall>u \<in> set us. \<not> P u)"
  then obtain us vs where "xs = us @ x # vs" "P x" "\<forall>u \<in> set us. \<not> P u" by blast
  moreover from this(3) have "find P us = None" by (induction us) auto
  ultimately show "find P xs = Some x" by (simp add: find_append)
qed

lemma find_None: "find P xs = None \<longleftrightarrow> (\<forall>x \<in> set xs. \<not> P x)"
  by (induction xs) auto

text \<open>The first match of a list sorted by a key has the least key among the matches.\<close>

lemma find_sorted_least:
  assumes "sorted (map k xs)" and "find P xs = Some x" and "y \<in> set xs" and "P y"
  shows "k x \<le> k y"
proof -
  from assms(2) obtain us vs where xs: "xs = us @ x # vs" and "\<forall>u \<in> set us. \<not> P u"
    by (auto simp: find_Some_split)
  with assms(3,4) have "y \<in> set (x # vs)" by auto
  with assms(1) show ?thesis by (auto simp: xs sorted_append)
qed

text \<open>\<open>Iterator::max_by_key\<close>: of several maximal elements, the last.\<close>

fun max_by_key :: "('a \<Rightarrow> 'k::linorder) \<Rightarrow> 'a list \<Rightarrow> 'a option" where
  "max_by_key k [] = None"
| "max_by_key k (x # xs) = Some (fold (\<lambda>y best. if k best \<le> k y then y else best) xs x)"

lemma fold_max_by_key:
  fixes k :: "'a \<Rightarrow> 'k::linorder"
  defines "f \<equiv> \<lambda>y best. if k best \<le> k y then y else best"
  shows "fold f xs x \<in> insert x (set xs)" and "z \<in> insert x (set xs) \<Longrightarrow> k z \<le> k (fold f xs x)"
proof (induction xs arbitrary: x z)
  case Nil
  {
    case 1
    show ?case by simp
  next
    case 2
    then show ?case by simp
  }
next
  case (Cons y ys)
  {
    case 1
    have "fold f ys (f y x) \<in> insert (f y x) (set ys)" by (rule Cons.IH)
    then show ?case by (auto simp: f_def)
  next
    case 2
    have le: "k (f y x) \<le> k (fold f ys (f y x))" by (rule Cons.IH) simp
    have "k x \<le> k (f y x)" and "k y \<le> k (f y x)" by (auto simp: f_def)
    with le 2 Cons.IH(2) [of z "f y x"] show ?case by auto
  }
qed

lemma max_by_key_None: "max_by_key k xs = None \<longleftrightarrow> xs = []"
  by (cases xs) auto

lemma max_by_key_Some:
  assumes "max_by_key k xs = Some x"
  shows "x \<in> set xs" and "y \<in> set xs \<Longrightarrow> k y \<le> k x"
  using assms fold_max_by_key(1) [of k _ _] fold_max_by_key(2) [of y _ _ k]
  by (cases xs; fastforce)+

section \<open>Finite maps as association lists\<close>

text \<open>
  A \<open>HashMap\<close> or \<open>BTreeMap\<close> whose size or whose keys the code reads is an
  association list with distinct keys; \<open>map_of\<close> is the lookup.
\<close>

fun aput :: "'k \<Rightarrow> 'v \<Rightarrow> ('k \<times> 'v) list \<Rightarrow> ('k \<times> 'v) list" where
  "aput k v [] = [(k, v)]"
| "aput k v ((k', v') # m) = (if k = k' then (k, v) # m else (k', v') # aput k v m)"

abbreviation keys_of :: "('k \<times> 'v) list \<Rightarrow> 'k list" where
  "keys_of m \<equiv> map fst m"

lemma map_of_aput [simp]: "map_of (aput k v m) = (map_of m)(k \<mapsto> v)"
  by (induction m) (auto simp: fun_eq_iff)

lemma set_keys_aput [simp]: "fst ` set (aput k v m) = insert k (fst ` set m)"
  by (induction k v m rule: aput.induct) (simp_all add: insert_commute)

lemma distinct_aput [simp]: "distinct (keys_of m) \<Longrightarrow> distinct (keys_of (aput k v m))"
  by (induction m) auto

lemma keys_aput: "keys_of (aput k v m) = (if k \<in> fst ` set m then keys_of m else keys_of m @ [k])"
  by (induction k v m rule: aput.induct) (simp_all add: insert_commute)

lemma map_of_filter_snd:
  "distinct (keys_of m) \<Longrightarrow>
   map_of (filter (\<lambda>(k, v). P k v) m) k = (case map_of m k of None \<Rightarrow> None
      | Some v \<Rightarrow> if P k v then Some v else None)"
  by (induction m) (auto split: option.splits simp: map_of_eq_None_iff image_iff)

lemma distinct_keys_filter [simp]: "distinct (keys_of m) \<Longrightarrow> distinct (keys_of (filter P m))"
  by (simp add: distinct_map_filter)

lemma map_of_in_keys: "map_of m k \<noteq> None \<longleftrightarrow> k \<in> fst ` set m"
  by (auto simp: map_of_eq_None_iff)

end
