(* ===== verification/Rust_Str.thy ===== *)
theory Rust_Str
  imports Gapura_Prelude
begin

text \<open>
  The part of Rust's \<open>str\<close> and \<open>u8\<close> API the gateway uses. A \<open>str\<close> is its list of
  UTF-8 bytes, a \<^typ>\<open>char\<close> being one byte: lengths, indices and comparisons are the byte
  ones, as they are in Rust. Holds the ASCII classes and case folding, prefix, suffix and
  delimiter splitting, trimming of Unicode white space on the bytes that encode it, decimal and
  hexadecimal numbers, and UTF-8 well-formedness with character boundaries.
\<close>

section \<open>Bytes and ASCII classes\<close>

definition byte :: "char \<Rightarrow> nat" where
  "byte c = of_char c"

lemma byte_less [simp]: "byte c < 256"
  by (simp add: byte_def)

lemma byte_inj [simp]: "byte c = byte d \<longleftrightarrow> c = d"
  by (simp add: byte_def)

lemma byte_char_of [simp]: "byte (char_of n) = n mod 256"
  by (simp add: byte_def)

definition is_ascii_digit :: "char \<Rightarrow> bool" where
  "is_ascii_digit c \<longleftrightarrow> 48 \<le> byte c \<and> byte c \<le> 57"

definition is_ascii_uppercase :: "char \<Rightarrow> bool" where
  "is_ascii_uppercase c \<longleftrightarrow> 65 \<le> byte c \<and> byte c \<le> 90"

definition is_ascii_lowercase :: "char \<Rightarrow> bool" where
  "is_ascii_lowercase c \<longleftrightarrow> 97 \<le> byte c \<and> byte c \<le> 122"

definition is_ascii_alphanumeric :: "char \<Rightarrow> bool" where
  "is_ascii_alphanumeric c \<longleftrightarrow> is_ascii_digit c \<or> is_ascii_uppercase c \<or> is_ascii_lowercase c"

definition is_ascii_hexdigit :: "char \<Rightarrow> bool" where
  "is_ascii_hexdigit c \<longleftrightarrow>
     is_ascii_digit c \<or> (65 \<le> byte c \<and> byte c \<le> 70) \<or> (97 \<le> byte c \<and> byte c \<le> 102)"

lemmas ascii_class_defs =
  is_ascii_digit_def is_ascii_uppercase_def is_ascii_lowercase_def is_ascii_alphanumeric_def
  is_ascii_hexdigit_def

definition ascii_lower :: "char \<Rightarrow> char" where
  "ascii_lower c = (if is_ascii_uppercase c then char_of (byte c + 32) else c)"

definition ascii_upper :: "char \<Rightarrow> char" where
  "ascii_upper c = (if is_ascii_lowercase c then char_of (byte c - 32) else c)"

abbreviation to_ascii_lowercase :: "string \<Rightarrow> string" where
  "to_ascii_lowercase s \<equiv> map ascii_lower s"

abbreviation to_ascii_uppercase :: "string \<Rightarrow> string" where
  "to_ascii_uppercase s \<equiv> map ascii_upper s"

definition eq_ignore_ascii_case :: "string \<Rightarrow> string \<Rightarrow> bool" where
  "eq_ignore_ascii_case a b \<longleftrightarrow> to_ascii_lowercase a = to_ascii_lowercase b"

lemma byte_ascii_lower: "byte (ascii_lower c) = (if is_ascii_uppercase c then byte c + 32 else byte c)"
  by (simp add: ascii_lower_def is_ascii_uppercase_def)

lemma byte_ascii_upper: "byte (ascii_upper c) = (if is_ascii_lowercase c then byte c - 32 else byte c)"
  using byte_less [of c] by (auto simp: ascii_upper_def is_ascii_lowercase_def)

lemma ascii_lower_idem [simp]: "ascii_lower (ascii_lower c) = ascii_lower c"
  by (auto simp: ascii_lower_def is_ascii_uppercase_def)

lemma ascii_upper_idem [simp]: "ascii_upper (ascii_upper c) = ascii_upper c"
  by (auto simp: ascii_upper_def is_ascii_lowercase_def)

lemma to_ascii_lowercase_idem [simp]: "to_ascii_lowercase (to_ascii_lowercase s) = to_ascii_lowercase s"
  by (simp add: comp_def)

lemma ascii_lower_fixed:
  "\<not> is_ascii_uppercase d \<Longrightarrow> \<not> is_ascii_lowercase d \<Longrightarrow> ascii_lower c = d \<longleftrightarrow> c = d"
proof -
  assume "\<not> is_ascii_uppercase d" and "\<not> is_ascii_lowercase d"
  then have "byte (ascii_lower c) = byte d \<longleftrightarrow> byte c = byte d"
    by (auto simp: byte_ascii_lower is_ascii_uppercase_def is_ascii_lowercase_def)
  then show ?thesis by simp
qed

lemma ascii_lower_dot [simp]: "ascii_lower c = CHR ''.'' \<longleftrightarrow> c = CHR ''.''"
  by (rule ascii_lower_fixed) (simp_all add: ascii_class_defs byte_def)

lemma ascii_lower_of_dot [simp]: "ascii_lower CHR ''.'' = CHR ''.''" "CHR ''.'' = ascii_lower c \<longleftrightarrow> c = CHR ''.''"
  using ascii_lower_dot [of c] ascii_lower_dot [of "CHR ''.''"] by (auto simp del: ascii_lower_dot)

lemma ascii_lower_star [simp]: "ascii_lower c = CHR ''*'' \<longleftrightarrow> c = CHR ''*''"
  by (rule ascii_lower_fixed) (simp_all add: ascii_class_defs byte_def)

lemma ascii_lower_of_star [simp]: "ascii_lower CHR ''*'' = CHR ''*''" "CHR ''*'' = ascii_lower c \<longleftrightarrow> c = CHR ''*''"
  using ascii_lower_star [of c] ascii_lower_star [of "CHR ''*''"] by (auto simp del: ascii_lower_star)

lemma eq_ignore_ascii_case_refl [simp]: "eq_ignore_ascii_case a a"
  by (simp add: eq_ignore_ascii_case_def)

lemma eq_ignore_ascii_case_sym: "eq_ignore_ascii_case a b \<longleftrightarrow> eq_ignore_ascii_case b a"
  by (auto simp: eq_ignore_ascii_case_def)

lemma eq_ignore_ascii_case_length: "eq_ignore_ascii_case a b \<Longrightarrow> length a = length b"
  by (auto simp: eq_ignore_ascii_case_def dest: map_eq_imp_length_eq)

lemmas [rust_defs] = ascii_class_defs ascii_lower_def ascii_upper_def byte_def
  eq_ignore_ascii_case_def

section \<open>Prefixes, suffixes and delimiters\<close>

definition strip_prefix :: "string \<Rightarrow> string \<Rightarrow> string option" where
  "strip_prefix p s = (if prefix p s then Some (drop (length p) s) else None)"

definition strip_suffix :: "string \<Rightarrow> string \<Rightarrow> string option" where
  "strip_suffix p s = (if suffix p s then Some (take (length s - length p) s) else None)"

lemma strip_prefix_Some [simp]: "strip_prefix p s = Some r \<longleftrightarrow> s = p @ r"
  by (auto simp: strip_prefix_def prefix_def)

lemma strip_prefix_None: "strip_prefix p s = None \<longleftrightarrow> \<not> prefix p s"
  by (simp add: strip_prefix_def)

lemma strip_suffix_Some [simp]: "strip_suffix p s = Some r \<longleftrightarrow> s = r @ p"
  by (auto simp: strip_suffix_def suffix_def)

text \<open>\<open>str::split_once\<close> with a one-byte delimiter, from the left and from the right.\<close>

fun split_once :: "char \<Rightarrow> string \<Rightarrow> (string \<times> string) option" where
  "split_once d [] = None"
| "split_once d (c # s) =
     (if c = d then Some ([], s) else map_option (\<lambda>(a, b). (c # a, b)) (split_once d s))"

definition rsplit_once :: "char \<Rightarrow> string \<Rightarrow> (string \<times> string) option" where
  "rsplit_once d s = map_option (\<lambda>(a, b). (rev b, rev a)) (split_once d (rev s))"

lemma split_once_None [simp]: "split_once d s = None \<longleftrightarrow> d \<notin> set s"
  by (induction s) auto

lemma split_once_append [simp]: "d \<notin> set a \<Longrightarrow> split_once d (a @ d # b) = Some (a, b)"
  by (induction a) auto

lemma split_once_SomeD: "split_once d s = Some (a, b) \<Longrightarrow> s = a @ d # b \<and> d \<notin> set a"
  by (induction s arbitrary: a) (auto split: if_splits)

lemma split_once_Some: "split_once d s = Some (a, b) \<longleftrightarrow> s = a @ d # b \<and> d \<notin> set a"
  using split_once_SomeD split_once_append by blast

lemma rsplit_once_Some: "rsplit_once d s = Some (a, b) \<longleftrightarrow> s = a @ d # b \<and> d \<notin> set b"
proof -
  have "rsplit_once d s = Some (a, b) \<longleftrightarrow> split_once d (rev s) = Some (rev b, rev a)"
    unfolding rsplit_once_def by (cases "split_once d (rev s)") (auto simp: rev_swap)
  also have "\<dots> \<longleftrightarrow> rev s = rev b @ d # rev a \<and> d \<notin> set b"
    by (simp add: split_once_Some)
  also have "rev s = rev b @ d # rev a \<longleftrightarrow> s = a @ d # b"
    by (simp add: rev_swap)
  finally show ?thesis .
qed

lemma rsplit_once_None: "rsplit_once d s = None \<longleftrightarrow> d \<notin> set s"
  by (auto simp: rsplit_once_def)

text \<open>\<open>str::split_once\<close> with a text as delimiter: at its first occurrence.\<close>

primrec split_once_str :: "string \<Rightarrow> string \<Rightarrow> (string \<times> string) option" where
  "split_once_str p [] = (if p = [] then Some ([], []) else None)"
| "split_once_str p (c # s) =
     (if prefix p (c # s) then Some ([], drop (length p) (c # s))
      else map_option (\<lambda>(a, b). (c # a, b)) (split_once_str p s))"

lemma split_once_str_SomeD: "split_once_str p s = Some (a, b) \<Longrightarrow> s = a @ p @ b"
  by (induction s arbitrary: a) (auto split: if_splits simp: prefix_def)

lemma split_once_str_None: "split_once_str p s = None \<longleftrightarrow> \<not> sublist p s"
  by (induction s) (auto simp: sublist_Cons_right)

lemma split_once_str_Some:
  assumes "p \<noteq> []"
  shows "split_once_str p s = Some (a, b) \<longleftrightarrow> s = a @ p @ b \<and> \<not> sublist p (a @ butlast p)"
proof (induction s arbitrary: a)
  case Nil
  with assms show ?case by simp
next
  case (Cons c s)
  have short: "\<not> sublist p (butlast p)"
    using assms sublist_length_le [of p "butlast p"] by (cases p rule: rev_cases) auto
  show ?case
  proof (cases a)
    case Nil
    then show ?thesis using short by (auto simp: prefix_def)
  next
    case (Cons c' a')
    have same: "prefix p (c # s) \<longleftrightarrow> prefix p (c # a' @ butlast p)" if "s = a' @ p @ b"
    proof -
      have "c # s = (c # a' @ butlast p) @ [last p] @ b" using that assms by simp
      moreover have "length p \<le> length (c # a' @ butlast p)" by simp
      ultimately show ?thesis by (metis prefix_append prefix_length_prefix prefix_order.trans prefixI)
    qed
    show ?thesis using Cons.IH [of a'] same unfolding Cons
      by (auto simp: sublist_Cons_right)
  qed
qed

text \<open>\<open>str::split\<close> on one byte: never empty, and empty pieces are kept.\<close>

fun split_on :: "char \<Rightarrow> string \<Rightarrow> string list" where
  "split_on d [] = [[]]"
| "split_on d (c # s) =
     (if c = d then [] # split_on d s
      else case split_on d s of [] \<Rightarrow> [[c]] | w # ws \<Rightarrow> (c # w) # ws)"

fun join :: "string \<Rightarrow> string list \<Rightarrow> string" where
  "join sep [] = []"
| "join sep [w] = w"
| "join sep (w # v # ws) = w @ sep @ join sep (v # ws)"

lemma split_on_nonempty [simp]: "split_on d s \<noteq> []"
  by (induction s) (auto split: list.splits)

lemma split_on_no_delim: "d \<notin> set s \<Longrightarrow> split_on d s = [s]"
  by (induction s) auto

lemma split_on_append: "split_on d (a @ d # b) = split_on d a @ split_on d b"
  by (induction a) (auto split: list.splits)

lemma split_on_pieces: "w \<in> set (split_on d s) \<Longrightarrow> d \<notin> set w"
  by (induction s arbitrary: w) (auto split: list.splits if_splits)

lemma split_on_subset: "w \<in> set (split_on d s) \<Longrightarrow> set w \<subseteq> set s"
  by (induction s arbitrary: w) (fastforce split: list.splits if_splits)+

lemma join_Cons: "ws \<noteq> [] \<Longrightarrow> join sep (w # ws) = w @ sep @ join sep ws"
  by (cases ws) auto

lemma join_append:
  "vs \<noteq> [] \<Longrightarrow> ws \<noteq> [] \<Longrightarrow> join sep (vs @ ws) = join sep vs @ sep @ join sep ws"
  by (induction vs rule: induct_list012) (auto simp: join_Cons)

lemma join_split_on [simp]: "join [d] (split_on d s) = s"
proof (induction s)
  case (Cons c s)
  then show ?case
  proof (cases "split_on d s")
    case (Cons w ws)
    with Cons.IH show ?thesis by (cases ws) (auto simp: join_Cons)
  qed simp
qed simp

lemma split_on_join:
  "ws \<noteq> [] \<Longrightarrow> \<forall>w \<in> set ws. d \<notin> set w \<Longrightarrow> split_on d (join [d] ws) = ws"
proof (induction ws rule: induct_list012)
  case (3 w v ws)
  then show ?case by (simp add: split_on_append split_on_no_delim)
qed (simp_all add: split_on_no_delim)

section \<open>White space\<close>

text \<open>
  The length of the white-space character (Unicode \<open>White_Space\<close>, which \<open>str::trim\<close>
  uses) that starts a byte list, and of the one whose reversed bytes start it: 0 for none.
\<close>

definition ws1 :: "char \<Rightarrow> bool" where
  "ws1 a \<longleftrightarrow> (9 \<le> byte a \<and> byte a \<le> 13) \<or> byte a = 32"

definition ws2 :: "char \<Rightarrow> char \<Rightarrow> bool" where
  "ws2 a b \<longleftrightarrow> byte a = 0xC2 \<and> (byte b = 0x85 \<or> byte b = 0xA0)"

definition ws3 :: "char \<Rightarrow> char \<Rightarrow> char \<Rightarrow> bool" where
  "ws3 a b c \<longleftrightarrow>
     byte a = 0xE1 \<and> byte b = 0x9A \<and> byte c = 0x80 \<or>
     byte a = 0xE2 \<and> byte b = 0x80 \<and>
       (0x80 \<le> byte c \<and> byte c \<le> 0x8A \<or> byte c = 0xA8 \<or> byte c = 0xA9 \<or> byte c = 0xAF) \<or>
     byte a = 0xE2 \<and> byte b = 0x81 \<and> byte c = 0x9F \<or>
     byte a = 0xE3 \<and> byte b = 0x80 \<and> byte c = 0x80"

fun trim_start :: "string \<Rightarrow> string" where
  "trim_start [] = []"
| "trim_start [a] = (if ws1 a then [] else [a])"
| "trim_start [a, b] =
     (if ws1 a then trim_start [b] else if ws2 a b then [] else [a, b])"
| "trim_start (a # b # c # s) =
     (if ws1 a then trim_start (b # c # s) else if ws2 a b then trim_start (c # s)
      else if ws3 a b c then trim_start s else a # b # c # s)"

fun trim_start_rev :: "string \<Rightarrow> string" where
  "trim_start_rev [] = []"
| "trim_start_rev [a] = (if ws1 a then [] else [a])"
| "trim_start_rev [a, b] =
     (if ws1 a then trim_start_rev [b] else if ws2 b a then [] else [a, b])"
| "trim_start_rev (a # b # c # s) =
     (if ws1 a then trim_start_rev (b # c # s) else if ws2 b a then trim_start_rev (c # s)
      else if ws3 c b a then trim_start_rev s else a # b # c # s)"

definition trim :: "string \<Rightarrow> string" where
  "trim s = rev (trim_start_rev (rev (trim_start s)))"

lemmas [rust_defs] = strip_prefix_def strip_suffix_def rsplit_once_def ws1_def ws2_def ws3_def
  trim_def

text \<open>A byte that is neither white space nor part of a longer white-space character.\<close>

definition plain_byte :: "char \<Rightarrow> bool" where
  "plain_byte c \<longleftrightarrow> 32 < byte c \<and> byte c < 128"

lemma trim_start_plain: "plain_byte a \<Longrightarrow> trim_start (a # s) = a # s"
  by (cases s rule: trim_start.cases) (auto simp: plain_byte_def ws1_def ws2_def ws3_def)

lemma trim_start_rev_plain: "plain_byte a \<Longrightarrow> trim_start_rev (a # s) = a # s"
  by (cases s rule: trim_start_rev.cases) (auto simp: plain_byte_def ws1_def ws2_def ws3_def)

lemma trim_plain:
  assumes "s \<noteq> []" and "plain_byte (hd s)" and "plain_byte (last s)"
  shows "trim s = s"
proof -
  obtain a t where "s = a # t" using assms(1) by (cases s) auto
  with assms(2) have start: "trim_start s = s" by (simp add: trim_start_plain)
  have eq: "rev s = last s # rev (butlast s)"
    using assms(1) by (cases s rule: rev_cases) simp_all
  have "trim_start_rev (rev s) = rev s"
    by (simp only: eq trim_start_rev_plain [OF assms(3)])
  with start show ?thesis by (simp add: trim_def)
qed

lemma trim_Nil [simp]: "trim [] = []"
  by (simp add: trim_def)

end
