(* ===== verification/Rust_Num.thy ===== *)
theory Rust_Num
  imports Rust_Str
begin

text \<open>
  Numbers as text (\<open>to_string\<close> and \<open>str::parse\<close> of the unsigned integers, hexadecimal
  digits) and UTF-8: well-formedness (\<open>str::from_utf8\<close>), character boundaries and the
  checked slice \<open>str::get(i..j)\<close>.
\<close>

section \<open>Digits\<close>

definition digit_char :: "nat \<Rightarrow> char" where
  "digit_char n = char_of (48 + n)"

definition digit_val :: "char \<Rightarrow> nat" where
  "digit_val c = byte c - 48"

lemma digit_char [simp]:
  "n < 10 \<Longrightarrow> is_ascii_digit (digit_char n)" "n < 10 \<Longrightarrow> digit_val (digit_char n) = n"
  by (simp_all add: is_ascii_digit_def digit_char_def digit_val_def)

fun show_nat :: "nat \<Rightarrow> string" where
  "show_nat n = (if n < 10 then [digit_char n] else show_nat (n div 10) @ [digit_char (n mod 10)])"

declare show_nat.simps [simp del]

fun digits_from :: "nat \<Rightarrow> string \<Rightarrow> nat" where
  "digits_from acc [] = acc"
| "digits_from acc (c # s) = digits_from (10 * acc + digit_val c) s"

definition digits_val :: "string \<Rightarrow> nat" where
  "digits_val s = digits_from 0 s"

lemma digits_from_append: "digits_from acc (s @ t) = digits_from (digits_from acc s) t"
  by (induction s arbitrary: acc) auto

lemma show_nat_nonempty [simp]: "show_nat n \<noteq> []"
  by (subst show_nat.simps) simp

lemma show_nat_digits: "c \<in> set (show_nat n) \<Longrightarrow> is_ascii_digit c"
proof (induction n rule: show_nat.induct)
  case (1 n)
  then show ?case
    by (cases "n < 10") (auto simp: show_nat.simps [of n])
qed

lemma digits_val_show_nat [simp]: "digits_val (show_nat n) = n"
  unfolding digits_val_def
proof (induction n rule: show_nat.induct)
  case (1 n)
  then show ?case
    by (cases "n < 10") (auto simp: show_nat.simps [of n] digits_from_append)
qed

lemma digits_from_bound:
  "\<forall>c \<in> set s. is_ascii_digit c \<Longrightarrow> digits_from acc s < (acc + 1) * 10 ^ length s"
proof (induction s arbitrary: acc)
  case (Cons c s)
  then have "digit_val c \<le> 9" by (auto simp: digit_val_def is_ascii_digit_def)
  then have "10 * acc + digit_val c + 1 \<le> 10 * (acc + 1)" by simp
  then have "(10 * acc + digit_val c + 1) * 10 ^ length s \<le> 10 * (acc + 1) * 10 ^ length s"
    by (rule mult_right_mono) simp
  moreover from Cons.prems have "digits_from (10 * acc + digit_val c) s
      < (10 * acc + digit_val c + 1) * 10 ^ length s"
    by (intro Cons.IH) simp
  ultimately have "digits_from (10 * acc + digit_val c) s < 10 * (acc + 1) * 10 ^ length s"
    by (rule order.strict_trans2 [rotated])
  then show ?case by (simp add: algebra_simps)
qed simp

lemma digits_val_bound:
  "\<forall>c \<in> set s. is_ascii_digit c \<Longrightarrow> digits_val s < 10 ^ length s"
  using digits_from_bound [of s 0] by (simp add: digits_val_def)

text \<open>
  \<open>str::parse\<close> of an unsigned integer of \<open>LENGTH('l)\<close> bits: one leading \<open>+\<close> is
  taken, then at least one ASCII digit and nothing else, and the value must fit.
\<close>

definition parse_uint :: "string \<Rightarrow> 'l::len word option" where
  "parse_uint s =
     (let t = (case s of [] \<Rightarrow> [] | c # r \<Rightarrow> if c = CHR ''+'' then r else s)
      in if t \<noteq> [] \<and> list_all is_ascii_digit t \<and> digits_val t < 2 ^ LENGTH('l)
         then Some (of_nat (digits_val t)) else None)"

lemma parse_uint_digits:
  fixes s :: string
  assumes "s \<noteq> []" and "\<forall>c \<in> set s. is_ascii_digit c"
  shows "(parse_uint s :: 'l::len word option) =
    (if digits_val s < 2 ^ LENGTH('l) then Some (of_nat (digits_val s)) else None)"
proof -
  have "\<not> is_ascii_digit CHR ''+''" by (simp add: is_ascii_digit_def byte_def)
  with assms show ?thesis
    by (auto simp: parse_uint_def list_all_iff Let_def split: list.splits)
qed

lemma parse_uint_show [simp]:
  "(parse_uint (show_nat (unat w)) :: 'l::len word option) = Some w" for w :: "'l::len word"
  using show_nat_digits by (subst parse_uint_digits) auto

section \<open>Hexadecimal\<close>

definition hex_val :: "char \<Rightarrow> nat" where
  "hex_val c = (if is_ascii_digit c then byte c - 48
     else if 97 \<le> byte c then byte c - 87 else byte c - 55)"

fun hex_from :: "nat \<Rightarrow> string \<Rightarrow> nat" where
  "hex_from acc [] = acc"
| "hex_from acc (c # s) = hex_from (16 * acc + hex_val c) s"

definition hex_char :: "nat \<Rightarrow> char" where
  "hex_char n = (if n < 10 then char_of (48 + n) else char_of (87 + n))"

lemma hex_val_less: "is_ascii_hexdigit c \<Longrightarrow> hex_val c < 16"
  by (auto simp: hex_val_def is_ascii_hexdigit_def is_ascii_digit_def)

lemma hex_val_upper: "is_ascii_hexdigit c \<Longrightarrow> hex_val (ascii_upper c) = hex_val c"
  by (auto simp: hex_val_def byte_ascii_upper is_ascii_hexdigit_def is_ascii_digit_def
      is_ascii_lowercase_def)

lemma hexdigit_upper: "is_ascii_hexdigit c \<Longrightarrow> is_ascii_hexdigit (ascii_upper c)"
  by (auto simp: byte_ascii_upper is_ascii_hexdigit_def is_ascii_digit_def is_ascii_lowercase_def)

lemma hex_char [simp]: "n < 16 \<Longrightarrow> is_ascii_hexdigit (hex_char n)" "n < 16 \<Longrightarrow> hex_val (hex_char n) = n"
  by (auto simp: hex_char_def is_ascii_hexdigit_def is_ascii_digit_def hex_val_def)

section \<open>UTF-8\<close>

definition is_continuation :: "char \<Rightarrow> bool" where
  "is_continuation c \<longleftrightarrow> 128 \<le> byte c \<and> byte c < 192"

text \<open>
  The multi-byte characters \<open>str::from_utf8\<close> accepts, by their bytes: no overlong form, no
  surrogate, nothing above U+10FFFF.
\<close>

definition utf8_two :: "char \<Rightarrow> char \<Rightarrow> bool" where
  "utf8_two a b \<longleftrightarrow> 0xC2 \<le> byte a \<and> byte a \<le> 0xDF \<and> is_continuation b"

definition utf8_three :: "char \<Rightarrow> char \<Rightarrow> char \<Rightarrow> bool" where
  "utf8_three a b c \<longleftrightarrow>
     0xE0 \<le> byte a \<and> byte a \<le> 0xEF \<and> is_continuation b \<and> is_continuation c \<and>
     (byte a = 0xE0 \<longrightarrow> 0xA0 \<le> byte b) \<and> (byte a = 0xED \<longrightarrow> byte b \<le> 0x9F)"

definition utf8_four :: "char \<Rightarrow> char \<Rightarrow> char \<Rightarrow> char \<Rightarrow> bool" where
  "utf8_four a b c d \<longleftrightarrow>
     0xF0 \<le> byte a \<and> byte a \<le> 0xF4 \<and> is_continuation b \<and> is_continuation c \<and>
     is_continuation d \<and>
     (byte a = 0xF0 \<longrightarrow> 0x90 \<le> byte b) \<and> (byte a = 0xF4 \<longrightarrow> byte b \<le> 0x8F)"

text \<open>The length of the well-formed character at the front of a byte list; 0 for none.\<close>

definition utf8_head :: "string \<Rightarrow> nat" where
  "utf8_head s =
     (case s of
        [] \<Rightarrow> 0
      | a # s1 \<Rightarrow> if byte a < 0x80 then 1 else
          (case s1 of
             [] \<Rightarrow> 0
           | b # s2 \<Rightarrow> if utf8_two a b then 2 else
               (case s2 of
                  [] \<Rightarrow> 0
                | c # s3 \<Rightarrow> if utf8_three a b c then 3 else
                    (case s3 of
                       [] \<Rightarrow> 0
                     | d # _ \<Rightarrow> if utf8_four a b c d then 4 else 0))))"

function valid_utf8 :: "string \<Rightarrow> bool" where
  "valid_utf8 s =
     (if s = [] then True else if utf8_head s = 0 then False
      else valid_utf8 (drop (utf8_head s) s))"
  by pat_completeness auto
termination
  by (relation "measure length") auto

declare valid_utf8.simps [simp del]

lemma valid_utf8_Nil [simp]: "valid_utf8 []"
  by (simp add: valid_utf8.simps)

lemma valid_utf8_ascii [simp]: "byte a < 128 \<Longrightarrow> valid_utf8 (a # s) \<longleftrightarrow> valid_utf8 s"
  by (subst valid_utf8.simps) (simp add: utf8_head_def)

text \<open>The bytes of one multi-byte character.\<close>

definition utf8_multi :: "string \<Rightarrow> bool" where
  "utf8_multi m \<longleftrightarrow> (\<exists>a b. m = [a, b] \<and> utf8_two a b) \<or> (\<exists>a b c. m = [a, b, c] \<and> utf8_three a b c) \<or>
     (\<exists>a b c d. m = [a, b, c, d] \<and> utf8_four a b c d)"

lemma utf8_multi_high: "utf8_multi m \<Longrightarrow> c \<in> set m \<Longrightarrow> 128 \<le> byte c"
  by (auto simp: utf8_multi_def utf8_two_def utf8_three_def utf8_four_def is_continuation_def)

lemma utf8_multi_nonempty: "utf8_multi m \<Longrightarrow> m \<noteq> []"
  by (auto simp: utf8_multi_def)

lemma utf8_head_multi: "utf8_multi m \<Longrightarrow> utf8_head (m @ s) = length m"
  by (auto simp: utf8_multi_def utf8_head_def utf8_two_def utf8_three_def utf8_four_def)

lemma valid_utf8_multi: "utf8_multi m \<Longrightarrow> valid_utf8 (m @ s) \<longleftrightarrow> valid_utf8 s"
proof -
  assume m: "utf8_multi m"
  then have "m \<noteq> []" by (auto simp: utf8_multi_def)
  with m show ?thesis by (subst valid_utf8.simps) (simp add: utf8_head_multi)
qed

lemma utf8_head_cases:
  assumes "utf8_head s \<noteq> 0"
  obtains a t where "s = a # t" "byte a < 128" "utf8_head s = 1"
    | m t where "s = m @ t" "utf8_multi m" "utf8_head s = length m"
proof -
  let ?m = "take (utf8_head s) s"
  have "(s \<noteq> [] \<and> byte (hd s) < 128 \<and> utf8_head s = 1) \<or> (utf8_multi ?m \<and> utf8_head s \<le> length s)"
    using assms unfolding utf8_head_def utf8_multi_def
    by (auto split: list.splits if_splits)
  then show thesis
  proof
    assume "s \<noteq> [] \<and> byte (hd s) < 128 \<and> utf8_head s = 1"
    with that(1) [of "hd s" "tl s"] show thesis by simp
  next
    assume "utf8_multi ?m \<and> utf8_head s \<le> length s"
    with that(2) [of ?m "drop (utf8_head s) s"] show thesis by simp
  qed
qed

lemma valid_utf8_induct [consumes 1, case_names Nil ascii multi]:
  assumes "valid_utf8 s" and "P []"
    and "\<And>a s. byte a < 128 \<Longrightarrow> valid_utf8 s \<Longrightarrow> P s \<Longrightarrow> P (a # s)"
    and "\<And>m s. utf8_multi m \<Longrightarrow> valid_utf8 s \<Longrightarrow> P s \<Longrightarrow> P (m @ s)"
  shows "P s"
  using assms(1)
proof (induction s rule: valid_utf8.induct)
  case (1 s)
  show ?case
  proof (cases "s = []")
    case False
    with 1(2) have head: "utf8_head s \<noteq> 0" and valid: "valid_utf8 (drop (utf8_head s) s)"
      by (subst (asm) valid_utf8.simps, auto split: if_splits)+
    from 1(1) [OF False head valid] have P: "P (drop (utf8_head s) s)" .
    from head show ?thesis
      by (cases s rule: utf8_head_cases) (use P valid assms(3,4) in auto)
  qed (simp add: assms(2))
qed

definition is_char_boundary :: "string \<Rightarrow> nat \<Rightarrow> bool" where
  "is_char_boundary s i \<longleftrightarrow>
     i = 0 \<or> i = length s \<or> i < length s \<and> \<not> is_continuation (s ! i)"

definition str_get :: "string \<Rightarrow> nat \<Rightarrow> nat \<Rightarrow> string option" where
  "str_get s i j =
     (if i \<le> j \<and> j \<le> length s \<and> is_char_boundary s i \<and> is_char_boundary s j
      then Some (take (j - i) (drop i s)) else None)"

lemmas [rust_defs] = digit_char_def digit_val_def digits_val_def parse_uint_def hex_val_def
  hex_char_def is_continuation_def is_char_boundary_def str_get_def show_nat.simps Let_def

end
