(* ===== verification/Duration.thy ===== *)
theory Duration
  imports Rust_Num
begin

text \<open>
  \<^verbatim>\<open>gapura-core/src/duration.rs\<close>: the parser of the Gateway API Duration format (GEP-2257).
  \<open>parse_millis\<close> is the source's loop over the rest of the input, its running total and
  its count of parts. Against it stands the grammar as data: a list of one to four
  \<open>dpart\<close>s, each one to five digits and a unit, and the text and the value of such a list.
\<close>

section \<open>The parser\<close>

text \<open>The unit at the front of the rest, with its multiplier; \<open>ms\<close> is tried before \<open>m\<close>.\<close>

definition unit_of :: "string \<Rightarrow> (u64 \<times> nat) option" where
  "unit_of rest =
     (if prefix ''ms'' rest then Some (1, 2)
      else if prefix ''h'' rest then Some (3600000, 1)
      else if prefix ''m'' rest then Some (60000, 1)
      else if prefix ''s'' rest then Some (1000, 1)
      else None)"

lemma unit_of_shrinks:
  assumes "unit_of (dropWhile p rest) = Some (multiplier, unit_len)"
  shows "length (drop unit_len (dropWhile p rest)) < length rest"
proof -
  have "unit_of r = Some (m, l) \<Longrightarrow> 0 < l \<and> r \<noteq> []" for r m l
    by (auto simp: unit_of_def split: if_splits)
  with assms have "0 < unit_len" and "dropWhile p rest \<noteq> []" by blast+
  then have "length (drop unit_len (dropWhile p rest)) < length (dropWhile p rest)" by simp
  also have "\<dots> \<le> length rest" by (rule length_dropWhile_le)
  finally show ?thesis .
qed

text \<open>
  One iteration of the source's loop per call. The digits are those before the first byte that
  is not one, so \<open>n\<close> is read with the ordinary integer parser, whose overflow is a \<open>None\<close>
  of its own, as are those of the checked product and sum.
\<close>

function parse_parts :: "string \<Rightarrow> u64 \<Rightarrow> nat \<Rightarrow> u64 option" where
  "parse_parts rest tot parts =
     (if rest = [] then Some tot
      else let digits = takeWhile is_ascii_digit rest; rest1 = dropWhile is_ascii_digit rest
        in if digits = [] \<or> length digits > 5 then None
           else case parse_uint digits of
             None \<Rightarrow> None
           | Some n \<Rightarrow> (case unit_of rest1 of
               None \<Rightarrow> None
             | Some (multiplier, unit_len) \<Rightarrow> (case checked_mul n multiplier of
                 None \<Rightarrow> None
               | Some ms \<Rightarrow> (case checked_add tot ms of
                   None \<Rightarrow> None
                 | Some tot' \<Rightarrow>
                     if parts + 1 > 4 then None
                     else parse_parts (drop unit_len rest1) tot' (parts + 1)))))"
  by pat_completeness auto
termination
  by (relation "measure (\<lambda>(rest, tot, parts). length rest)")
    (auto dest: unit_of_shrinks simp del: length_drop)

declare parse_parts.simps [simp del]

definition parse_millis :: "string \<Rightarrow> u64 option" where
  "parse_millis s = (if s = [] then None else parse_parts s 0 0)"

section \<open>The grammar\<close>

datatype dunit = H | M | S | Ms

fun unit_text :: "dunit \<Rightarrow> string" where
  "unit_text H = ''h''"
| "unit_text M = ''m''"
| "unit_text S = ''s''"
| "unit_text Ms = ''ms''"

fun unit_millis :: "dunit \<Rightarrow> nat" where
  "unit_millis H = 3600000"
| "unit_millis M = 60000"
| "unit_millis S = 1000"
| "unit_millis Ms = 1"

type_synonym dpart = "string \<times> dunit"

definition part_wf :: "dpart \<Rightarrow> bool" where
  "part_wf p \<longleftrightarrow> 1 \<le> length (fst p) \<and> length (fst p) \<le> 5 \<and> list_all is_ascii_digit (fst p)"

definition part_text :: "dpart \<Rightarrow> string" where
  "part_text p = fst p @ unit_text (snd p)"

definition part_value :: "dpart \<Rightarrow> nat" where
  "part_value p = digits_val (fst p) * unit_millis (snd p)"

lemma part_value_bound: "part_wf p \<Longrightarrow> part_value p \<le> 99999 * 3600000"
proof -
  assume "part_wf p"
  then have "digits_val (fst p) < 10 ^ length (fst p)" and "length (fst p) \<le> 5"
    by (auto simp: part_wf_def list_all_iff intro!: digits_val_bound)
  moreover from this(2) have "(10::nat) ^ length (fst p) \<le> 10 ^ 5"
    by (intro power_increasing) auto
  ultimately have "digits_val (fst p) \<le> 99999" by simp
  moreover have "unit_millis (snd p) \<le> 3600000" by (cases "snd p") auto
  ultimately show ?thesis unfolding part_value_def by (rule mult_le_mono)
qed

lemma unit_of_text:
  assumes "t = [] \<or> is_ascii_digit (hd t)"
  shows "unit_of (unit_text u @ t) = Some (of_nat (unit_millis u), length (unit_text u))"
proof -
  have "\<not> is_ascii_digit CHR ''s''" by (simp add: is_ascii_digit_def byte_def)
  with assms have "\<not> prefix ''s'' t" by (auto simp: prefix_def)
  then show ?thesis by (cases u) (auto simp: unit_of_def)
qed

lemma unit_of_SomeD:
  assumes "unit_of r = Some (m, l)"
  obtains u where "r = unit_text u @ drop l r" and "unat m = unit_millis u"
proof -
  have "unit_text Ms = ''ms''" "unit_text H = ''h''" "unit_text M = ''m''" "unit_text S = ''s''"
    by simp_all
  with assms have "\<exists>u. r = unit_text u @ drop l r \<and> unat m = unit_millis u"
    by (auto simp: unit_of_def prefix_def split: if_splits
        intro: exI [of _ Ms] exI [of _ H] exI [of _ M] exI [of _ S])
  with that show ?thesis by blast
qed

lemma takeWhile_digits_part:
  assumes "list_all is_ascii_digit ds"
  shows "takeWhile is_ascii_digit (ds @ unit_text u @ t) = ds"
    and "dropWhile is_ascii_digit (ds @ unit_text u @ t) = unit_text u @ t"
proof -
  obtain c r where r: "unit_text u @ t = c # r" and "\<not> is_ascii_digit c"
    by (cases u) (auto simp: is_ascii_digit_def byte_def)
  with assms show "takeWhile is_ascii_digit (ds @ unit_text u @ t) = ds"
    and "dropWhile is_ascii_digit (ds @ unit_text u @ t) = unit_text u @ t"
    by (simp_all add: r list_all_iff)
qed

section \<open>The parser recognises the grammar\<close>

lemma parse_parts_step:
  assumes "part_wf p" and "t = [] \<or> is_ascii_digit (hd t)"
    and "parts < 4" and "unat tot \<le> parts * (99999 * 3600000)"
  shows "\<exists>tot'. unat tot' = unat tot + part_value p \<and>
    parse_parts (part_text p @ t) tot parts = parse_parts t tot' (parts + 1)"
proof -
  obtain ds u where p: "p = (ds, u)" by force
  with assms(1) have ds: "list_all is_ascii_digit ds" "ds \<noteq> []" "length ds \<le> 5"
    by (auto simp: part_wf_def)
  have "digits_val ds < 10 ^ length ds" using ds by (intro digits_val_bound) (simp add: list_all_iff)
  moreover have "(10::nat) ^ length ds \<le> 10 ^ 5" using ds by (intro power_increasing) auto
  ultimately have small: "digits_val ds < 100000" by simp
  define n :: u64 where "n = of_nat (digits_val ds)"
  have n: "unat n = digits_val ds" "parse_uint ds = Some n"
    using small ds by (simp_all add: n_def unat_of_nat parse_uint_digits list_all_iff)
  have "unit_millis u \<le> 3600000" by (cases u) auto
  then have mult: "unat (of_nat (unit_millis u) :: u64) = unit_millis u" by (simp add: unat_of_nat)
  have pv: "digits_val ds * unit_millis u \<le> 99999 * 3600000"
    using part_value_bound [OF assms(1)] by (simp add: part_value_def p)
  define ms :: u64 where "ms = of_nat (digits_val ds * unit_millis u)"
  have ms: "unat ms = digits_val ds * unit_millis u" using pv by (simp add: ms_def unat_of_nat del: of_nat_mult)
  then have mul: "checked_mul n (of_nat (unit_millis u)) = Some ms"
    by (simp add: checked_mul_Some_unat n mult)
  have bound: "unat tot + unat ms < 2 ^ 64" using assms(3,4) pv ms by simp
  define tot' where "tot' = tot + ms"
  have "unat tot' = unat tot + unat ms"
    using bound by (simp add: tot'_def unat_word_ariths)
  then have add: "checked_add tot ms = Some tot'" by (simp add: checked_add_Some_unat)
  have "parse_parts (part_text p @ t) tot parts = parse_parts t tot' (parts + 1)"
    using ds assms(3)
    by (subst parse_parts.simps)
      (simp add: p part_text_def takeWhile_digits_part unit_of_text [OF assms(2)] n mul add Let_def)
  with \<open>unat tot' = unat tot + unat ms\<close> ms show ?thesis by (auto simp: p part_value_def)
qed

lemma hd_part_text: "part_wf p \<Longrightarrow> is_ascii_digit (hd (part_text p @ t))"
  by (cases "fst p") (auto simp: part_wf_def part_text_def)

lemma parse_parts_complete:
  assumes "list_all part_wf ps" and "parts + length ps \<le> 4"
    and "unat tot \<le> parts * (99999 * 3600000)"
  shows "\<exists>v. parse_parts (concat (map part_text ps)) tot parts = Some v \<and>
    unat v = unat tot + sum_list (map part_value ps)"
  using assms
proof (induction ps arbitrary: tot parts)
  case Nil
  then show ?case by (simp add: parse_parts.simps)
next
  case (Cons p ps)
  let ?t = "concat (map part_text ps)"
  have "?t = [] \<or> is_ascii_digit (hd ?t)"
    using Cons.prems(1) by (cases ps) (auto simp: hd_part_text)
  then obtain tot' where tot': "unat tot' = unat tot + part_value p"
      and step: "parse_parts (part_text p @ ?t) tot parts = parse_parts ?t tot' (parts + 1)"
    using parse_parts_step [of p ?t parts tot] Cons.prems by auto
  have "unat tot' \<le> (parts + 1) * (99999 * 3600000)"
    using tot' Cons.prems part_value_bound [of p] by simp
  then show ?case
    using Cons.IH [of "parts + 1" tot'] Cons.prems step tot' by (simp add: add.assoc)
qed

lemma parse_parts_sound:
  assumes "parse_parts rest tot parts = Some v" and "parts \<le> 4"
  shows "\<exists>ps. list_all part_wf ps \<and> parts + length ps \<le> 4 \<and> rest = concat (map part_text ps) \<and>
    unat v = unat tot + sum_list (map part_value ps)"
  using assms
proof (induction rest tot parts rule: parse_parts.induct)
  case (1 rest tot parts)
  let ?ds = "takeWhile is_ascii_digit rest" and ?r = "dropWhile is_ascii_digit rest"
  show ?case
  proof (cases "rest = []")
    case True
    with 1 show ?thesis by (intro exI [of _ "[]"]) (simp add: parse_parts.simps)
  next
    case False
    from 1(2) False obtain n m l ms tot' where
      ds: "?ds \<noteq> []" "length ?ds \<le> 5" and n: "parse_uint ?ds = Some n" and
      u: "unit_of ?r = Some (m, l)" and ms: "checked_mul n m = Some ms" and
      tot': "checked_add tot ms = Some tot'" and parts: "parts + 1 \<le> 4" and
      rec: "parse_parts (drop l ?r) tot' (parts + 1) = Some v"
      by (subst (asm) parse_parts.simps)
        (auto simp: Let_def not_less split: if_splits option.splits prod.splits)
    from 1(1) [OF False refl refl _ n u refl ms tot' _ rec] ds parts
    obtain ps where ps: "list_all part_wf ps" "parts + 1 + length ps \<le> 4"
        "drop l ?r = concat (map part_text ps)" "unat v = unat tot' + sum_list (map part_value ps)"
      by auto
    obtain u' where u': "?r = unit_text u' @ drop l ?r" "unat m = unit_millis u'"
      using unit_of_SomeD [OF u] .
    have digits: "list_all is_ascii_digit ?ds" by (auto simp: list_all_iff dest: set_takeWhileD)
    then have "unat n = digits_val ?ds"
      using n ds by (auto simp: parse_uint_digits list_all_iff unat_of_nat split: if_splits)
    with ms tot' u' have v: "unat tot' = unat tot + part_value (?ds, u')"
      by (simp add: checked_mul_Some_unat checked_add_Some_unat part_value_def)
    have "rest = ?ds @ ?r" by simp
    with u' ps have "rest = concat (map part_text ((?ds, u') # ps))"
      by (simp add: part_text_def)
    moreover have "part_wf (?ds, u')" using digits ds by (simp add: part_wf_def Suc_le_eq)
    ultimately show ?thesis
      using v ps by (intro exI [of _ "(?ds, u') # ps"]) simp
  qed
qed

text \<open>
  A text parses to \<open>v\<close> milliseconds exactly when it is one to four parts of one to five
  digits and a unit, and \<open>v\<close> is the sum of the parts. In particular no text of the grammar
  is lost to an overflow of the 64-bit total.
\<close>

theorem parse_millis_grammar:
  "parse_millis s = Some v \<longleftrightarrow>
     (\<exists>ps. list_all part_wf ps \<and> 1 \<le> length ps \<and> length ps \<le> 4 \<and>
        s = concat (map part_text ps) \<and> unat v = sum_list (map part_value ps))"
proof
  assume "parse_millis s = Some v"
  then have "s \<noteq> []" and "parse_parts s 0 0 = Some v"
    by (auto simp: parse_millis_def split: if_splits)
  with parse_parts_sound [of s 0 0 v] show "\<exists>ps. list_all part_wf ps \<and> 1 \<le> length ps \<and>
      length ps \<le> 4 \<and> s = concat (map part_text ps) \<and> unat v = sum_list (map part_value ps)"
    by (auto simp: Suc_le_eq)
next
  assume "\<exists>ps. list_all part_wf ps \<and> 1 \<le> length ps \<and> length ps \<le> 4 \<and>
    s = concat (map part_text ps) \<and> unat v = sum_list (map part_value ps)"
  then obtain ps where ps: "list_all part_wf ps" "1 \<le> length ps" "length ps \<le> 4"
      "s = concat (map part_text ps)" "unat v = sum_list (map part_value ps)" by blast
  with parse_parts_complete [of ps 0 0] have "parse_parts s 0 0 = Some v"
    by (auto simp: word_unat_eq_iff)
  moreover from ps have "s \<noteq> []" by (cases ps) (auto simp: part_text_def part_wf_def)
  ultimately show "parse_millis s = Some v" by (simp add: parse_millis_def)
qed

end
