(* ===== verification/Rust_Net.thy ===== *)
theory Rust_Net
  imports Rust_Num
begin

text \<open>
  \<open>std::net::IpAddr\<close> as the gateway uses it: the two address kinds as words, IPv4-mapped
  addresses and canonicalisation, the textual form (\<open>Display\<close>) and the parser
  (\<open>FromStr\<close>), which reads an IPv4 address first and then an IPv6 one and has to consume the
  whole text. The parser functions take the rest of the input and return what they left.
\<close>

unbundle bit_operations_syntax

section \<open>Addresses\<close>

datatype ip_addr = V4 u32 | V6 u128

fun is_ipv4 :: "ip_addr \<Rightarrow> bool" where
  "is_ipv4 (V4 _) = True"
| "is_ipv4 (V6 _) = False"

definition to_ipv6_mapped :: "u32 \<Rightarrow> u128" where
  "to_ipv6_mapped a = push_bit 32 0xFFFF OR ucast a"

definition to_ipv4_mapped :: "u128 \<Rightarrow> u32 option" where
  "to_ipv4_mapped a = (if drop_bit 32 a = 0xFFFF then Some (ucast a) else None)"

fun to_canonical :: "ip_addr \<Rightarrow> ip_addr" where
  "to_canonical (V4 a) = V4 a"
| "to_canonical (V6 a) = (case to_ipv4_mapped a of Some b \<Rightarrow> V4 b | None \<Rightarrow> V6 a)"

lemma bit_ffff: "bit (0xFFFF :: 'a::len word) n \<longleftrightarrow> n < LENGTH('a) \<and> n < 16"
proof -
  have "(0xFFFF :: 'a word) = mask 16" by (simp add: mask_eq_exp_minus_1)
  then show ?thesis by (simp only: bit_mask_iff) (auto simp: bit_simps)
qed

lemma bit_to_ipv6_mapped:
  "bit (to_ipv6_mapped a) n \<longleftrightarrow> (n < 32 \<and> bit a n) \<or> (32 \<le> n \<and> n < 48)"
proof -
  have "bit (to_ipv6_mapped a) n \<longleftrightarrow>
      (32 \<le> n \<and> n < LENGTH(128) \<and> bit (0xFFFF :: u128) (n - 32)) \<or> (n < LENGTH(128) \<and> bit a n)"
    by (simp only: to_ipv6_mapped_def bit_or_iff bit_push_bit_iff bit_ucast_iff possible_bit_word)
  then show ?thesis unfolding bit_ffff by (auto dest: bit_imp_le_length)
qed

lemma to_ipv4_mapped_mapped [simp]: "to_ipv4_mapped (to_ipv6_mapped a) = Some a"
proof -
  have "drop_bit 32 (to_ipv6_mapped a) = 0xFFFF"
    by (rule bit_word_eqI, unfold bit_drop_bit_eq comp_def bit_to_ipv6_mapped bit_ffff) auto
  moreover have "ucast (to_ipv6_mapped a) = a"
    by (rule bit_word_eqI) (simp add: bit_ucast_iff bit_to_ipv6_mapped)
  ultimately show ?thesis by (simp add: to_ipv4_mapped_def)
qed

lemma to_ipv4_mapped_Some: "to_ipv4_mapped a = Some b \<Longrightarrow> a = to_ipv6_mapped b"
proof -
  assume "to_ipv4_mapped a = Some b"
  then have hi: "drop_bit 32 a = 0xFFFF" and b: "b = ucast a"
    by (auto simp: to_ipv4_mapped_def split: if_splits)
  show "a = to_ipv6_mapped b"
  proof (rule bit_word_eqI)
    fix n assume n: "n < LENGTH(128)"
    show "bit a n \<longleftrightarrow> bit (to_ipv6_mapped b) n"
    proof (cases "n < 32")
      case True
      then show ?thesis by (simp add: bit_to_ipv6_mapped bit_ucast_iff b)
    next
      case False
      then have "bit a n \<longleftrightarrow> bit (drop_bit 32 a) (n - 32)" by (simp add: bit_drop_bit_eq)
      with False n show ?thesis unfolding bit_to_ipv6_mapped hi bit_ffff by auto
    qed
  qed
qed

lemma to_canonical_idem [simp]: "to_canonical (to_canonical ip) = to_canonical ip"
  by (cases ip) (auto split: option.splits)

lemma to_canonical_mapped [simp]: "to_canonical (V6 (to_ipv6_mapped a)) = V4 a"
  by simp

section \<open>The parser\<close>

text \<open>One decimal octet: one to three digits, no leading zero, below 256.\<close>

definition read_octet :: "string \<Rightarrow> (nat \<times> string) option" where
  "read_octet s =
     (let ds = takeWhile is_ascii_digit s in
      if ds = [] \<or> 3 < length ds \<or> (hd ds = CHR ''0'' \<and> 1 < length ds) \<or> 256 \<le> digits_val ds
      then None else Some (digits_val ds, dropWhile is_ascii_digit s))"

text \<open>One group of an IPv6 address: one to four hexadecimal digits.\<close>

definition read_group :: "string \<Rightarrow> (nat \<times> string) option" where
  "read_group s =
     (let hs = takeWhile is_ascii_hexdigit s in
      if hs = [] \<or> 4 < length hs then None
      else Some (hex_from 0 hs, dropWhile is_ascii_hexdigit s))"

text \<open>The separator before every element but the first.\<close>

definition read_separator :: "char \<Rightarrow> nat \<Rightarrow> (string \<Rightarrow> ('a \<times> string) option) \<Rightarrow> string \<Rightarrow> ('a \<times> string) option" where
  "read_separator sep index inner s =
     (if index = 0 then inner s
      else case s of [] \<Rightarrow> None | c # r \<Rightarrow> if c = sep then inner r else None)"

definition read_ipv4 :: "string \<Rightarrow> (nat list \<times> string) option" where
  "read_ipv4 s =
     (case read_separator CHR ''.'' 0 read_octet s of None \<Rightarrow> None | Some (a, s1) \<Rightarrow>
      (case read_separator CHR ''.'' 1 read_octet s1 of None \<Rightarrow> None | Some (b, s2) \<Rightarrow>
       (case read_separator CHR ''.'' 2 read_octet s2 of None \<Rightarrow> None | Some (c, s3) \<Rightarrow>
        (case read_separator CHR ''.'' 3 read_octet s3 of None \<Rightarrow> None | Some (d, s4) \<Rightarrow>
           Some ([a, b, c, d], s4)))))"

text \<open>
  Up to \<open>n\<close> colon-separated groups from index \<open>i\<close> on, with an embedded IPv4 address
  where two or more slots are left; says whether one was read.
\<close>

fun read_groups :: "nat \<Rightarrow> nat \<Rightarrow> string \<Rightarrow> nat list \<times> bool \<times> string" where
  "read_groups i 0 s = ([], False, s)"
| "read_groups i (Suc n) s =
     (case (if 0 < n then read_separator CHR '':'' i read_ipv4 s else None) of
        Some (os, r) \<Rightarrow> ([256 * os ! 0 + os ! 1, 256 * os ! 2 + os ! 3], True, r)
      | None \<Rightarrow>
          (case read_separator CHR '':'' i read_group s of
             None \<Rightarrow> ([], False, s)
           | Some (g, r) \<Rightarrow> (case read_groups (i + 1) n r of (gs, v4, r') \<Rightarrow> (g # gs, v4, r'))))"

definition read_ipv6 :: "string \<Rightarrow> (nat list \<times> string) option" where
  "read_ipv6 s =
     (case read_groups 0 8 s of (head, v4, r) \<Rightarrow>
        if length head = 8 then Some (head, r)
        else if v4 then None
        else case strip_prefix ''::'' r of
          None \<Rightarrow> None
        | Some r2 \<Rightarrow>
            (case read_groups 0 (8 - (length head + 1)) r2 of (tail, _, r3) \<Rightarrow>
               Some (head @ replicate (8 - length head - length tail) 0 @ tail, r3)))"

definition octets_to_u32 :: "nat list \<Rightarrow> u32" where
  "octets_to_u32 os = of_nat (foldl (\<lambda>n b. 256 * n + b) 0 os)"

definition groups_to_u128 :: "nat list \<Rightarrow> u128" where
  "groups_to_u128 gs = of_nat (foldl (\<lambda>n g. 65536 * n + g) 0 gs)"

definition parse_ip :: "string \<Rightarrow> ip_addr option" where
  "parse_ip s =
     (case read_ipv4 s of
        Some (os, r) \<Rightarrow> if r = [] then Some (V4 (octets_to_u32 os)) else None
      | None \<Rightarrow>
          (case read_ipv6 s of
             Some (gs, r) \<Rightarrow> if r = [] then Some (V6 (groups_to_u128 gs)) else None
           | None \<Rightarrow> None))"

definition parse_ipv6 :: "string \<Rightarrow> u128 option" where
  "parse_ipv6 s =
     (case read_ipv6 s of
        Some (gs, r) \<Rightarrow> if r = [] then Some (groups_to_u128 gs) else None
      | None \<Rightarrow> None)"

section \<open>Display\<close>

definition octet_of :: "u32 \<Rightarrow> nat \<Rightarrow> nat" where
  "octet_of a i = unat a div 256 ^ (3 - i) mod 256"

definition show_ipv4 :: "u32 \<Rightarrow> string" where
  "show_ipv4 a = join ''.'' (map (\<lambda>i. show_nat (octet_of a i)) [0, 1, 2, 3])"

fun show_hex :: "nat \<Rightarrow> string" where
  "show_hex n = (if n < 16 then [hex_char n] else show_hex (n div 16) @ [hex_char (n mod 16)])"

declare show_hex.simps [simp del]

definition segments_of :: "u128 \<Rightarrow> nat list" where
  "segments_of a = map (\<lambda>i. unat a div 65536 ^ (7 - i) mod 65536) [0, 1, 2, 3, 4, 5, 6, 7]"

text \<open>The first longest run of zero segments, as start and length.\<close>

fun longest_zeros :: "nat \<Rightarrow> nat list \<Rightarrow> nat \<times> nat \<Rightarrow> nat \<times> nat \<Rightarrow> nat \<times> nat" where
  "longest_zeros i [] cur best = best"
| "longest_zeros i (g # gs) cur best =
     (if g = 0 then
        (let cur' = (if snd cur = 0 then i else fst cur, snd cur + 1)
         in longest_zeros (i + 1) gs cur' (if snd best < snd cur' then cur' else best))
      else longest_zeros (i + 1) gs (0, 0) best)"

definition show_ipv6 :: "u128 \<Rightarrow> string" where
  "show_ipv6 a =
     (case to_ipv4_mapped a of
        Some b \<Rightarrow> ''::ffff:'' @ show_ipv4 b
      | None \<Rightarrow>
          (let gs = segments_of a; (start, len) = longest_zeros 0 gs (0, 0) (0, 0);
               fmt = (\<lambda>xs. join '':'' (map show_hex xs))
           in if 1 < len then fmt (take start gs) @ ''::'' @ fmt (drop (start + len) gs) else fmt gs))"

fun show_ip :: "ip_addr \<Rightarrow> string" where
  "show_ip (V4 a) = show_ipv4 a"
| "show_ip (V6 a) = show_ipv6 a"

section \<open>An IPv4 address is read back from its text\<close>

lemma octet_of_less [simp]: "octet_of a i < 256"
  by (simp add: octet_of_def)

lemma octets_to_u32_octet_of: "octets_to_u32 (map (octet_of a) [0, 1, 2, 3]) = a"
proof -
  define x where "x = unat a"
  have "x < 256 * (256 * (256 * 256))" using unsigned_less [of a] by (simp add: x_def)
  then have top: "x div 256 div 256 div 256 < 256"
    by (simp add: less_mult_imp_div_less)
  have "x div 65536 = x div 256 div 256" and "x div 16777216 = x div 256 div 256 div 256"
    by (simp_all add: div_mult2_eq [symmetric])
  then have "foldl (\<lambda>n b. 256 * n + b) 0 (map (octet_of a) [0, 1, 2, 3]) =
      256 * (256 * (256 * (x div 256 div 256 div 256) + x div 256 div 256 mod 256)
        + x div 256 mod 256) + x mod 256"
    using top by (simp add: octet_of_def x_def [symmetric])
  also have "\<dots> = x" by (simp only: mult_div_mod_eq)
  finally show ?thesis by (simp only: octets_to_u32_def x_def) simp
qed

lemma show_nat_leading_zero: "show_nat n = CHR ''0'' # s \<Longrightarrow> n = 0 \<and> s = []"
proof (induction n arbitrary: s rule: show_nat.induct)
  case (1 n)
  have digit: "m < 10 \<Longrightarrow> digit_char m = CHR ''0'' \<Longrightarrow> m = 0" for m
  proof -
    assume "m < 10" and "digit_char m = CHR ''0''"
    then have "m = digit_val CHR ''0''" by (metis digit_char(2))
    then show "m = 0" by (simp add: digit_val_def byte_def)
  qed
  show ?case
  proof (cases "n < 10")
    case True
    with 1(2) digit [of n] show ?thesis by (simp add: show_nat.simps [of n])
  next
    case False
    then obtain t where "show_nat (n div 10) = CHR ''0'' # t"
      using 1(2) by (cases "show_nat (n div 10)") (auto simp: show_nat.simps [of n])
    with 1(1) [OF False] have "n div 10 = 0" by blast
    with False show ?thesis by simp
  qed
qed

lemma length_show_nat: "n < 10 ^ Suc k \<Longrightarrow> length (show_nat n) \<le> Suc k"
proof (induction n arbitrary: k rule: show_nat.induct)
  case (1 n)
  show ?case
  proof (cases "n < 10")
    case True
    then show ?thesis by (simp add: show_nat.simps [of n])
  next
    case False
    then obtain k' where k': "k = Suc k'" using 1(2) by (cases k) auto
    with 1(2) have "n div 10 < 10 ^ Suc k'" by (simp add: less_mult_imp_div_less)
    with 1(1) [OF False, of k'] False show ?thesis by (simp add: show_nat.simps [of n] k')
  qed
qed

lemma read_octet_show:
  assumes "n < 256" and "t = [] \<or> \<not> is_ascii_digit (hd t)"
  shows "read_octet (show_nat n @ t) = Some (n, t)"
proof -
  have "\<forall>c \<in> set (show_nat n). is_ascii_digit c" by (simp add: show_nat_digits)
  with assms(2) have "takeWhile is_ascii_digit (show_nat n @ t) = show_nat n"
    and "dropWhile is_ascii_digit (show_nat n @ t) = t"
    by (cases t; simp)+
  moreover have "length (show_nat n) \<le> 3" using length_show_nat [of n 2] assms(1) by simp
  moreover have "hd (show_nat n) = CHR ''0'' \<Longrightarrow> length (show_nat n) \<le> 1"
    using show_nat_leading_zero [of n "tl (show_nat n)"] by (cases "show_nat n") auto
  ultimately show ?thesis using assms(1) by (auto simp: read_octet_def Let_def)
qed

lemma parse_ip_show_ipv4: "parse_ip (show_ipv4 a) = Some (V4 a)"
proof -
  have "\<not> is_ascii_digit CHR ''.''" by (simp add: is_ascii_digit_def byte_def)
  then have "read_ipv4 (show_ipv4 a) = Some (map (octet_of a) [0, 1, 2, 3], [])"
    using read_octet_show [of "octet_of a 3" "[]"]
    by (simp add: read_ipv4_def show_ipv4_def read_separator_def read_octet_show)
  then have "parse_ip (show_ipv4 a) = Some (V4 (octets_to_u32 (map (octet_of a) [0, 1, 2, 3])))"
    by (simp add: parse_ip_def)
  then show ?thesis by (simp only: octets_to_u32_octet_of)
qed

end
