(* ===== verification/Client_Ip.thy ===== *)
theory Client_Ip
  imports Rust_Net
begin

text \<open>
  \<^verbatim>\<open>gapura-core/src/client_ip.rs\<close>: networks of addresses and the address a request is taken to
  come from. A \<open>cidr\<close> is an address and a prefix length; the source keeps both fields private,
  so every value comes from \<open>cidr_from_str\<close> and satisfies \<open>cidr_wf\<close>, which is what
  keeps the shift in \<open>same_prefix\<close> from underflowing. Shows what a network holds bit by bit,
  the round trip of an IPv4 network, and that nothing a caller writes into its own headers moves
  the client address.
\<close>

section \<open>Networks\<close>

record cidr =
  cidr_addr :: ip_addr
  cidr_bits :: u32

datatype cidr_error =
    NotAnAddress string
  | NotAPrefixLength string ip_addr

definition ip_width :: "ip_addr \<Rightarrow> u32" where
  "ip_width addr = (if is_ipv4 addr then 32 else 128)"

definition cidr_from_str :: "string \<Rightarrow> cidr_error + cidr" where
  "cidr_from_str s =
     (let (text, pre) = (case split_once CHR ''/'' s of Some (a, b) \<Rightarrow> (a, Some b) | None \<Rightarrow> (s, None))
      in case parse_ip text of
           None \<Rightarrow> Err (NotAnAddress text)
         | Some addr \<Rightarrow>
             (let width = ip_width addr in
              case pre of
                None \<Rightarrow> Ok \<lparr>cidr_addr = addr, cidr_bits = width\<rparr>
              | Some b \<Rightarrow>
                  (case Option.bind (parse_uint b) (\<lambda>n. if n \<le> width then Some n else None) of
                     None \<Rightarrow> Err (NotAPrefixLength b addr)
                   | Some n \<Rightarrow> Ok \<lparr>cidr_addr = addr, cidr_bits = n\<rparr>)))"

definition show_cidr :: "cidr \<Rightarrow> string" where
  "show_cidr c = show_ip (cidr_addr c) @ ''/'' @ show_nat (unat (cidr_bits c))"

definition same_prefix :: "u128 \<Rightarrow> u128 \<Rightarrow> u32 \<Rightarrow> u32 \<Rightarrow> bool" where
  "same_prefix a b bits width \<longleftrightarrow>
     bits = 0 \<or> drop_bit (unat (width - bits)) a = drop_bit (unat (width - bits)) b"

fun contains_exactly :: "cidr \<Rightarrow> ip_addr \<Rightarrow> bool" where
  "contains_exactly c ip =
     (case (cidr_addr c, ip) of
        (V4 net, V4 ip) \<Rightarrow> same_prefix (ucast net) (ucast ip) (cidr_bits c) 32
      | (V6 net, V6 ip) \<Rightarrow> same_prefix net ip (cidr_bits c) 128
      | _ \<Rightarrow> False)"

definition cidr_contains :: "cidr \<Rightarrow> ip_addr \<Rightarrow> bool" where
  "cidr_contains c ip =
     (case (cidr_addr c, to_canonical ip) of
        (V6 net, V4 v4) \<Rightarrow>
          96 \<le> cidr_bits c \<and> to_ipv4_mapped net \<noteq> None \<and>
          contains_exactly c (V6 (to_ipv6_mapped v4))
      | (_, ip') \<Rightarrow> contains_exactly c ip')"

definition cidr_wf :: "cidr \<Rightarrow> bool" where
  "cidr_wf c \<longleftrightarrow> cidr_bits c \<le> ip_width (cidr_addr c)"

section \<open>The client address\<close>

definition named_header_ip :: "string option \<Rightarrow> ip_addr option" where
  "named_header_ip named =
     Option.bind named (\<lambda>v. map_option to_canonical (parse_ip (trim v)))"

text \<open>The loop over the hops, right to left: an early return on the left.\<close>

fun walk_hops :: "(ip_addr \<Rightarrow> bool) \<Rightarrow> string list \<Rightarrow> ip_addr option \<Rightarrow> ip_addr + ip_addr option" where
  "walk_hops trusts [] leftmost = Inr leftmost"
| "walk_hops trusts (hop # hops) leftmost =
     (case map_option to_canonical (parse_ip (trim hop)) of
        None \<Rightarrow> walk_hops trusts hops leftmost
      | Some ip \<Rightarrow> if \<not> trusts ip then Inl ip else walk_hops trusts hops (Some ip))"

definition trusts :: "cidr list \<Rightarrow> ip_addr \<Rightarrow> bool" where
  "trusts trusted ip \<longleftrightarrow> list_ex (\<lambda>net. cidr_contains net ip) trusted"

definition client_ip :: "ip_addr \<Rightarrow> string option \<Rightarrow> cidr list \<Rightarrow> string option \<Rightarrow> ip_addr" where
  "client_ip peer0 forwarded_for trusted named =
     (let peer = to_canonical peer0;
          fallback = (case named_header_ip named of Some ip \<Rightarrow> ip | None \<Rightarrow> peer)
      in if \<not> trusts trusted peer then peer
         else case forwarded_for of
           None \<Rightarrow> fallback
         | Some chain \<Rightarrow>
             (case walk_hops (trusts trusted) (rev (split_on CHR '','' chain)) None of
                Inl ip \<Rightarrow> ip
              | Inr (Some ip) \<Rightarrow> ip
              | Inr None \<Rightarrow> fallback))"

section \<open>What a network holds\<close>

lemma cidr_from_str_wf: "cidr_from_str s = Ok c \<Longrightarrow> cidr_wf c"
  by (auto simp: cidr_from_str_def cidr_wf_def Let_def split: option.splits prod.splits if_splits
      bind_splits)

text \<open>Two words agree on their bits from position \<open>lo\<close> up.\<close>

definition agree_from :: "nat \<Rightarrow> 'l::len word \<Rightarrow> 'l word \<Rightarrow> bool" where
  "agree_from lo a b \<longleftrightarrow> (\<forall>n. lo \<le> n \<and> n < LENGTH('l) \<longrightarrow> bit a n = bit b n)"

lemma drop_bit_eq_agree: "drop_bit k a = drop_bit k b \<longleftrightarrow> agree_from k a b"
  for a b :: "'l::len word"
proof
  assume eq: "drop_bit k a = drop_bit k b"
  have "bit a n = bit b n" if "k \<le> n" for n
  proof -
    have "bit (drop_bit k a) (n - k) = bit (drop_bit k b) (n - k)" by (simp add: eq)
    with that show ?thesis by (simp add: bit_drop_bit_eq)
  qed
  then show "agree_from k a b" by (simp add: agree_from_def)
next
  assume "agree_from k a b"
  then have "bit a (k + n) = bit b (k + n)" for n
    by (cases "k + n < LENGTH('l)") (auto simp: agree_from_def dest: bit_imp_le_length)
  then show "drop_bit k a = drop_bit k b"
    by (intro bit_word_eqI) (simp add: bit_drop_bit_eq)
qed

lemma agree_from_top [simp]: "LENGTH('l) \<le> lo \<Longrightarrow> agree_from lo (a :: 'l::len word) b"
  by (auto simp: agree_from_def)

lemma same_prefix_v6: "bits \<le> 128 \<Longrightarrow> same_prefix a b bits 128 \<longleftrightarrow> agree_from (128 - unat bits) a b"
  by (auto simp: same_prefix_def drop_bit_eq_agree unat_sub)

lemma same_prefix_v4:
  fixes a b :: u32
  assumes "bits \<le> 32"
  shows "same_prefix (ucast a) (ucast b) bits 32 \<longleftrightarrow> agree_from (32 - unat bits) a b"
proof -
  have "agree_from k (ucast a :: u128) (ucast b) \<longleftrightarrow> agree_from k a b" if "k < 32" for k
  proof -
    have high: "\<not> bit x n" if "\<not> n < 32" for x :: u32 and n
      using bit_imp_le_length [of x n] that by auto
    show ?thesis
      unfolding agree_from_def bit_ucast_iff by (auto simp: high) (metis high)+
  qed
  moreover have "bits \<noteq> 0 \<Longrightarrow> 32 - unat bits < 32" by (simp add: unat_gt_0)
  ultimately show ?thesis
    using assms by (cases "bits = 0") (simp_all add: same_prefix_def drop_bit_eq_agree unat_sub)
qed

text \<open>
  Membership in a network, bit by bit. An address, in its canonical form, is in a network of
  its own kind exactly when the two agree on the leading \<open>bits\<close> bits; an IPv4 address is in
  an IPv6 network only when that lies inside the IPv4-mapped range (a mapped address and at least
  96 bits), so \<open>::/0\<close> holds no IPv4 client; an IPv6 address is in no IPv4 network.
\<close>

theorem cidr_contains_bits:
  assumes "cidr_wf c"
  shows "cidr_contains c ip \<longleftrightarrow>
    (case (cidr_addr c, to_canonical ip) of
       (V4 net, V4 a) \<Rightarrow> agree_from (32 - unat (cidr_bits c)) net a
     | (V6 net, V6 a) \<Rightarrow> agree_from (128 - unat (cidr_bits c)) net a
     | (V6 net, V4 a) \<Rightarrow> 96 \<le> cidr_bits c \<and> to_ipv4_mapped net \<noteq> None \<and>
         agree_from (128 - unat (cidr_bits c)) net (to_ipv6_mapped a)
     | (V4 net, V6 a) \<Rightarrow> False)"
  using assms
  by (auto simp: cidr_contains_def cidr_wf_def ip_width_def same_prefix_v4 same_prefix_v6
      simp del: to_canonical.simps split: ip_addr.splits)

theorem cidr_contains_bits_witness:
  "cidr_wf \<lparr>cidr_addr = V4 0x0A000000, cidr_bits = 8\<rparr> \<and>
   (cidr_contains \<lparr>cidr_addr = V4 0x0A000000, cidr_bits = 8\<rparr> (V4 0x0A010203) \<longleftrightarrow>
    agree_from 24 (0x0A000000 :: u32) 0x0A010203)"
proof -
  have h: "cidr_wf \<lparr>cidr_addr = V4 0x0A000000, cidr_bits = 8\<rparr>" by code_simp
  then show ?thesis using cidr_contains_bits [OF h, of "V4 0x0A010203"] by simp
qed

section \<open>Text round trip\<close>

lemma show_ipv4_no_slash: "CHR ''/'' \<notin> set (show_ipv4 a)"
proof -
  have "\<not> is_ascii_digit CHR ''/''" by (simp add: is_ascii_digit_def byte_def)
  then have "CHR ''/'' \<notin> set (show_nat n)" for n using show_nat_digits by blast
  then show ?thesis by (auto simp: show_ipv4_def)
qed

text \<open>
  An IPv4 network written out the way it is stored, cached and served reads back as itself,
  and anything that reads as a network is well formed.
\<close>

theorem cidr_roundtrip_v4:
  assumes "cidr_wf c" and "cidr_addr c = V4 a"
  shows "cidr_from_str (show_cidr c) = Ok c"
proof -
  have "split_once CHR ''/'' (show_cidr c) = Some (show_ipv4 a, show_nat (unat (cidr_bits c)))"
    by (simp add: show_cidr_def assms(2) show_ipv4_no_slash)
  moreover have "cidr_bits c \<le> 32" using assms by (simp add: cidr_wf_def ip_width_def)
  moreover have "c = \<lparr>cidr_addr = V4 a, cidr_bits = cidr_bits c\<rparr>" using assms(2) by simp
  ultimately show ?thesis
    by (simp add: cidr_from_str_def parse_ip_show_ipv4 Let_def ip_width_def)
qed

theorem cidr_roundtrip_v4_witness:
  "cidr_from_str (show_cidr \<lparr>cidr_addr = V4 0xC0A80100, cidr_bits = 24\<rparr>) =
     Ok \<lparr>cidr_addr = V4 0xC0A80100, cidr_bits = 24\<rparr>"
  by (rule cidr_roundtrip_v4 [of _ "0xC0A80100"]) (code_simp, simp)

section \<open>Whose address counts\<close>

lemma walk_hops_skip:
  "\<forall>h \<in> set hs. \<forall>a. parse_ip (trim h) = Some a \<longrightarrow> tr (to_canonical a) \<Longrightarrow>
   \<exists>m. walk_hops tr (hs @ rest) leftmost = walk_hops tr rest m"
  by (induction hs arbitrary: leftmost) (auto split: option.splits)

lemma walk_hops_stop:
  assumes "\<forall>h \<in> set hs. \<forall>a. parse_ip (trim h) = Some a \<longrightarrow> tr (to_canonical a)"
    and "parse_ip (trim hop) = Some a" and "\<not> tr (to_canonical a)"
  shows "walk_hops tr (hs @ hop # rest) leftmost = Inl (to_canonical a)"
  using walk_hops_skip [OF assms(1), of "hop # rest" leftmost] assms(2,3) by auto

lemma walk_hops_unread:
  "\<forall>h \<in> set hs. parse_ip (trim h) = None \<Longrightarrow> walk_hops tr hs leftmost = Inr leftmost"
  by (induction hs) auto

text \<open>
  The peer of an untrusted connection is the client, whatever headers it sent.
\<close>

theorem client_ip_untrusted_peer:
  "\<not> trusts trusted (to_canonical peer) \<Longrightarrow>
   client_ip peer forwarded_for trusted named = to_canonical peer"
  by (simp add: client_ip_def)

theorem client_ip_untrusted_peer_witness:
  "client_ip (V4 0xCB007107) (Some ''10.0.0.1'') [\<lparr>cidr_addr = V4 0x0A000000, cidr_bits = 8\<rparr>] None
     = V4 0xCB007107"
  using client_ip_untrusted_peer
    [of "[\<lparr>cidr_addr = V4 0x0A000000, cidr_bits = 8\<rparr>]" "V4 0xCB007107" "Some ''10.0.0.1''" None]
  by (simp add: trusts_def cidr_contains_def same_prefix_def)

text \<open>
  C8: behind trusted proxies the client is the rightmost hop of the chain that is an address no
  trusted network vouches for, be it the only hop, the leftmost or one in between. The hops to its
  right are trusted or no addresses; those to its left, the part a caller can write itself, have no
  influence: the statement holds for every \<open>left\<close>, the empty one included. When every address of the
  chain is trusted, the client is the leftmost one.
\<close>

theorem client_ip_first_untrusted:
  assumes "trusts trusted (to_canonical peer)" and "split_on CHR '','' chain = left @ hop # right"
    and "\<forall>h \<in> set right. \<forall>b. parse_ip (trim h) = Some b \<longrightarrow> trusts trusted (to_canonical b)"
    and "parse_ip (trim hop) = Some a"
    and "trusts trusted (to_canonical a) \<longrightarrow> (\<forall>h \<in> set left. parse_ip (trim h) = None)"
  shows "client_ip peer (Some chain) trusted named = to_canonical a"
proof (cases "trusts trusted (to_canonical a)")
  case False
  then show ?thesis
    using assms(1-4) walk_hops_stop [of "rev right" "trusts trusted" hop a] by (simp add: client_ip_def Let_def)
next
  case True
  then have "walk_hops (trusts trusted) (rev left) (Some (to_canonical a)) = Inr (Some (to_canonical a))"
    using walk_hops_unread [of "rev left" "trusts trusted" "Some (to_canonical a)"] assms(5) by simp
  then have "walk_hops (trusts trusted) (rev right @ hop # rev left) None = Inr (Some (to_canonical a))"
    using walk_hops_skip [of "rev right" "trusts trusted" "hop # rev left" None] assms(3,4) True by auto
  then show ?thesis using assms(1,2) by (simp add: client_ip_def Let_def)
qed

theorem client_ip_first_untrusted_witness:
  "client_ip (V4 0x0A000001) (Some ''6.6.6.6,203.0.113.7,10.0.0.9'') [\<lparr>cidr_addr = V4 0x0A000000, cidr_bits = 8\<rparr>] None
     = V4 0xCB007107 \<and>
   client_ip (V4 0x0A000001) (Some ''203.0.113.7'') [\<lparr>cidr_addr = V4 0x0A000000, cidr_bits = 8\<rparr>] None = V4 0xCB007107 \<and>
   client_ip (V4 0x0A000001) (Some ''-,10.0.0.9,10.0.0.8'') [\<lparr>cidr_addr = V4 0x0A000000, cidr_bits = 8\<rparr>] None
     = V4 0x0A000009"
proof (intro conjI)
  let ?t = "[\<lparr>cidr_addr = V4 0x0A000000, cidr_bits = 8\<rparr>]"
  have peer: "trusts ?t (to_canonical (V4 0x0A000001))" by code_simp
  have client: "parse_ip (trim ''203.0.113.7'') = Some (V4 0xCB007107)" "\<not> trusts ?t (to_canonical (V4 0xCB007107))"
    by code_simp+
  have read: "parse_ip (trim ''10.0.0.9'') = Some (V4 0x0A000009)" "parse_ip (trim ''10.0.0.8'') = Some (V4 0x0A000008)"
    "parse_ip (trim ''-'') = None" by code_simp+
  have trusted: "trusts ?t (to_canonical (V4 0x0A000009))" "trusts ?t (to_canonical (V4 0x0A000008))" by code_simp+
  have hops: "split_on CHR '','' ''6.6.6.6,203.0.113.7,10.0.0.9'' = [''6.6.6.6''] @ ''203.0.113.7'' # [''10.0.0.9'']"
    "split_on CHR '','' ''203.0.113.7'' = [] @ ''203.0.113.7'' # []"
    "split_on CHR '','' ''-,10.0.0.9,10.0.0.8'' = [''-''] @ ''10.0.0.9'' # [''10.0.0.8'']" by code_simp+
  show "client_ip (V4 0x0A000001) (Some ''6.6.6.6,203.0.113.7,10.0.0.9'') ?t None = V4 0xCB007107"
    using client_ip_first_untrusted [OF peer hops(1) _ client(1)] read(1) trusted(1) client(2) by simp
  show "client_ip (V4 0x0A000001) (Some ''203.0.113.7'') ?t None = V4 0xCB007107"
    using client_ip_first_untrusted [OF peer hops(2) _ client(1)] client(2) by simp
  show "client_ip (V4 0x0A000001) (Some ''-,10.0.0.9,10.0.0.8'') ?t None = V4 0x0A000009"
    using client_ip_first_untrusted [OF peer hops(3) _ read(1)] read(2,3) trusted(2) by simp
qed

end
