(* ===== verification/Config.thy ===== *)
theory Config
  imports Client_Ip
begin

text \<open>
  \<^verbatim>\<open>gapura-core/src/config.rs\<close>: the configuration the data plane runs on, one record per struct and
  one datatype per enum, and the operations the structs carry. A \<open>BTreeMap\<close> is the
  association list of its entries in key order; \<open>map_of\<close> is its lookup.
\<close>

section \<open>Rules: matching, filters, backends\<close>

datatype path_match = Exact string | Prefix string | Regex string

record kv_match =
  kv_name :: string
  kv_value :: string

record route_match =
  rm_path :: path_match
  rm_headers :: "kv_match list"
  rm_query :: "kv_match list"
  rm_method :: "string option"

record header_ops =
  ho_set :: "(string \<times> string) list"
  ho_add :: "(string \<times> string) list"
  ho_remove :: "string list"

datatype path_rewrite = ReplaceFullPath string | ReplacePrefixMatch string

record redirect =
  rd_scheme :: "string option"
  rd_hostname :: "string option"
  rd_port :: "u16 option"
  rd_status :: u16
  rd_path :: "path_rewrite option"

record rewrite =
  rw_hostname :: "string option"
  rw_path :: "path_rewrite option"

record mirror =
  mi_cluster :: string

record filters =
  request_headers :: header_ops
  response_headers :: header_ops
  f_redirect :: "redirect option"
  f_rewrite :: "rewrite option"
  f_mirror :: "mirror option"

record weighted_backend =
  wb_cluster :: "string option"
  wb_weight :: u32

record timeouts =
  request_ms :: "u64 option"
  backend_request_ms :: "u64 option"
  connect_ms :: "u64 option"

section \<open>Request limits\<close>

datatype limit_by = ByIp | ByConsumer | ByHeader string

fun is_ip :: "limit_by \<Rightarrow> bool" where
  "is_ip ByIp = True"
| "is_ip _ = False"

record rate_limit =
  rl_limit :: u32
  rl_window_ms :: u64
  rl_by :: limit_by

record consumer_rate_limits =
  crl_routes :: "(string \<times> rate_limit) list"
  crl_any :: "rate_limit option"

section \<open>Policies\<close>

record key_auth_policy =
  ka_header :: string
  ka_workspace :: "string option"

definition default_key_auth :: key_auth_policy where
  "default_key_auth = \<lparr>ka_header = ''x-api-key'', ka_workspace = None\<rparr>"

record jwt_policy =
  jp_issuer :: "string option"
  jp_audience :: "string option"
  jp_jwks :: string
  jp_jwks_uri :: "string option"
  jp_jwks_ca_pem :: "string option"
  jp_consumer_claim :: "string option"
  jp_workspace :: "string option"

record ip_restriction_policy =
  ir_allow :: "cidr list"
  ir_deny :: "cidr list"

record auth_policy =
  au_anonymous :: "string option"
  au_workspace :: "string option"

record acl_policy =
  acl_allow :: "string list"
  acl_deny :: "string list"

record request_size_limit_policy =
  max_bytes :: u64

record header_edits =
  he_remove :: "string list"
  he_rename :: "(string \<times> string) list"
  he_replace :: "(string \<times> string) list"
  he_add :: "(string \<times> string) list"
  he_append :: "(string \<times> string) list"

record request_transformer_policy =
  rq_headers :: header_edits
  rq_query :: header_edits

record response_transformer_policy =
  rs_headers :: header_edits

record cors_policy =
  co_origins :: "string list"
  co_methods :: "string list"
  co_headers :: "string list"
  co_expose_headers :: "string list"
  co_credentials :: bool
  co_max_age :: "u32 option"
  co_preflight_continue :: bool

datatype plugin =
    Jwt jwt_policy
  | KeyAuth key_auth_policy
  | IpRestriction ip_restriction_policy
  | RequestSizeLimit request_size_limit_policy
  | RequestTransformer request_transformer_policy
  | ResponseTransformer response_transformer_policy
  | Cors cors_policy
  | Auth auth_policy
  | Acl acl_policy

datatype phase = Access | UpstreamRequest | RequestBody | Response | Terminate

datatype body = NoBody | Stream | Buffered nat

fun plugin_kind :: "plugin \<Rightarrow> string" where
  "plugin_kind (Jwt _) = ''jwt''"
| "plugin_kind (KeyAuth _) = ''key_auth''"
| "plugin_kind (IpRestriction _) = ''ip_restriction''"
| "plugin_kind (RequestSizeLimit _) = ''request_size_limit''"
| "plugin_kind (RequestTransformer _) = ''request_transformer''"
| "plugin_kind (ResponseTransformer _) = ''response_transformer''"
| "plugin_kind (Cors _) = ''cors''"
| "plugin_kind (Auth _) = ''auth''"
| "plugin_kind (Acl _) = ''acl''"

fun plugin_phases :: "plugin \<Rightarrow> phase list" where
  "plugin_phases (Jwt _) = [Access]"
| "plugin_phases (IpRestriction _) = [Access]"
| "plugin_phases (Acl _) = [Access]"
| "plugin_phases (KeyAuth _) = [Access, UpstreamRequest]"
| "plugin_phases (RequestSizeLimit _) = [Access, RequestBody]"
| "plugin_phases (RequestTransformer _) = [UpstreamRequest]"
| "plugin_phases (ResponseTransformer _) = [Response]"
| "plugin_phases (Cors _) = [Access, Response]"
| "plugin_phases (Auth _) = []"

fun plugin_body :: "plugin \<Rightarrow> body" where
  "plugin_body (RequestSizeLimit _) = Stream"
| "plugin_body _ = NoBody"

text \<open>\<open>IpRestrictionPolicy::refusal\<close> and \<open>AclPolicy::refusal\<close>: why a request is refused.\<close>

definition ip_refusal :: "ip_restriction_policy \<Rightarrow> ip_addr option \<Rightarrow> string option" where
  "ip_refusal p ip0 =
     (case ip0 of
        None \<Rightarrow> Some ''no_address''
      | Some ip \<Rightarrow>
          if list_ex (\<lambda>net. cidr_contains net ip) (ir_deny p) then Some ''denied''
          else if ir_allow p \<noteq> [] \<and> \<not> list_ex (\<lambda>net. cidr_contains net ip) (ir_allow p)
          then Some ''not_allowed''
          else None)"

definition acl_refusal :: "acl_policy \<Rightarrow> string list option \<Rightarrow> string option" where
  "acl_refusal p groups0 =
     (case groups0 of
        None \<Rightarrow> Some ''no_consumer''
      | Some groups \<Rightarrow>
          if list_ex (\<lambda>g. g \<in> set (acl_deny p)) groups then Some ''denied''
          else if acl_allow p \<noteq> [] \<and> \<not> list_ex (\<lambda>g. g \<in> set (acl_allow p)) groups
          then Some ''not_allowed''
          else None)"

definition edits_len :: "header_edits \<Rightarrow> nat" where
  "edits_len e = length (he_remove e) + length (he_rename e) + length (he_replace e)
     + length (he_add e) + length (he_append e)"

definition edits_is_empty :: "header_edits \<Rightarrow> bool" where
  "edits_is_empty e \<longleftrightarrow> edits_len e = 0"

text \<open>\<open>CorsPolicy::allowed\<close>: the closure that judges one entry, then the whole list.\<close>

definition origin_label :: "string \<Rightarrow> bool" where
  "origin_label l \<longleftrightarrow> l \<noteq> [] \<and> list_all (\<lambda>b. is_ascii_lowercase b \<or> is_ascii_digit b \<or> b = CHR ''-'') l"

definition origin_matches :: "string \<Rightarrow> string \<Rightarrow> bool" where
  "origin_matches origin entry =
     (case split_once_str ''*.'' entry of
        Some (scheme, tail) \<Rightarrow>
          (case Option.bind (strip_prefix scheme origin)
                  (\<lambda>rest. Option.bind (strip_suffix tail rest) (strip_suffix ''.'')) of
             None \<Rightarrow> False
           | Some l \<Rightarrow> origin_label l)
      | None \<Rightarrow> entry = origin)"

definition cors_allowed :: "cors_policy \<Rightarrow> string \<Rightarrow> string option" where
  "cors_allowed p origin =
     (if origin = ''null'' then None
      else if list_ex (\<lambda>entry. entry = ''*'') (co_origins p) then Some ''*''
      else if list_ex (origin_matches origin) (co_origins p) then Some origin
      else None)"

section \<open>Clusters\<close>

record cluster_tls =
  ct_sni :: string
  ct_ca_pem :: "string option"
  ct_insecure :: bool

record endpoint =
  ep_address :: string
  ep_port :: u16

record resolve_target =
  rt_host :: string
  rt_port :: u16

record outlier_detection =
  consecutive_failures :: u32
  successes_to_recover :: u32
  base_ejection_ms :: u64
  max_ejection_ms :: u64
  max_ejected_percent :: u8

definition default_outlier_detection :: outlier_detection where
  "default_outlier_detection =
     \<lparr>consecutive_failures = 5, successes_to_recover = 5, base_ejection_ms = 30000,
      max_ejection_ms = 300000, max_ejected_percent = 50\<rparr>"

record cluster =
  cl_endpoints :: "endpoint list"
  cl_tls :: "cluster_tls option"
  cl_resolve :: "resolve_target option"
  cl_outlier :: "outlier_detection option"

section \<open>Rules, listeners and the whole configuration\<close>

record route_rule =
  rr_route :: string
  rr_rule_index :: nat
  rr_creation_timestamp :: string
  rr_matches :: "route_match list"
  rr_filters :: filters
  rr_backends :: "weighted_backend list"
  rr_timeouts :: timeouts
  rr_rate_limit :: "rate_limit option"
  rr_plugins :: "plugin list"

datatype protocol = Http | Https

record tls_bundle =
  tb_secret :: string
  tb_cert_pem :: string
  tb_key_pem :: string

record listener_config =
  lc_id :: string
  lc_port :: u16
  lc_client_port :: "u16 option"
  lc_protocol :: protocol
  lc_hostname :: "string option"
  lc_tls :: "tls_bundle option"
  lc_rules :: "route_rule list"

record port_entry =
  pe_listener :: nat
  pe_hostname :: "string option"
  pe_matcher :: route_match
  pe_rule :: nat

record match_entry =
  me_hostname :: "string option"
  me_matcher :: route_match
  me_rule :: nat

record config =
  cf_listeners :: "listener_config list"
  cf_ports :: "(u16 \<times> port_entry list) list"
  cf_clusters :: "(string \<times> cluster) list"
  cf_credentials :: "(string \<times> string) list"
  cf_credential_workspaces :: "(string \<times> string) list"
  cf_consumer_rate_limits :: "(string \<times> consumer_rate_limits) list"
  cf_consumers :: "(string \<times> string list) list"

definition rate_limit_for :: "config \<Rightarrow> route_rule \<Rightarrow> string option \<Rightarrow> (rate_limit \<times> bool) option" where
  "rate_limit_for cfg rule consumer =
     (let own = Option.bind consumer (\<lambda>c.
            Option.bind (map_of (cf_consumer_rate_limits cfg) c) (\<lambda>l.
              case map_of (crl_routes l) (rr_route rule) of Some rl \<Rightarrow> Some rl | None \<Rightarrow> crl_any l))
      in case own of
           Some limit \<Rightarrow> Some (limit, True)
         | None \<Rightarrow> map_option (\<lambda>limit. (limit, False)) (rr_rate_limit rule))"

section \<open>Allow and deny lists\<close>

text \<open>
  The contract \<open>IpRestrictionPolicy\<close> and \<open>AclPolicy\<close> share: a policy with two lists of
  entries, a relation saying which entries name the caller, and a verdict that admits a caller
  exactly when it is known, no deny entry names it, and the allow list is empty or names it. The
  clients' lemmas are proved once from it.
\<close>

locale access_list =
  fixes verdict :: "'p \<Rightarrow> 's option \<Rightarrow> string option"
    and allow :: "'p \<Rightarrow> 'e list"
    and deny :: "'p \<Rightarrow> 'e list"
    and names :: "'e \<Rightarrow> 's \<Rightarrow> bool"
  assumes unknown_refused: "verdict p None \<noteq> None"
    and known_verdict: "verdict p (Some s) = None \<longleftrightarrow>
      \<not> (\<exists>e \<in> set (deny p). names e s) \<and> (allow p = [] \<or> (\<exists>e \<in> set (allow p). names e s))"
begin

lemma deny_wins: "e \<in> set (deny p) \<Longrightarrow> names e s \<Longrightarrow> verdict p (Some s) \<noteq> None"
  using known_verdict by blast

lemma admitted_known: "verdict p who = None \<Longrightarrow> \<exists>s. who = Some s"
  by (cases who) (auto simp: unknown_refused)

text \<open>Growing the deny list, or shrinking a non-empty allow list to a non-empty one, admits no one new.\<close>

lemma stricter:
  assumes "set (deny p) \<subseteq> set (deny q)"
    and "allow p = [] \<or> (allow q \<noteq> [] \<and> set (allow q) \<subseteq> set (allow p))"
    and "verdict q who = None"
  shows "verdict p who = None"
proof -
  obtain s where s: "who = Some s" using admitted_known [OF assms(3)] ..
  show ?thesis using assms unfolding s known_verdict by blast
qed

text \<open>Two callers the same entries name get the same admission.\<close>

lemma indistinct:
  assumes "\<And>e. names e s = names e t"
  shows "verdict p (Some s) = None \<longleftrightarrow> verdict p (Some t) = None"
  by (simp add: known_verdict assms)

end

interpretation ip_list: access_list ip_refusal ir_allow ir_deny cidr_contains
  by unfold_locales (auto simp: ip_refusal_def list_ex_iff)

interpretation acl_list: access_list acl_refusal acl_allow acl_deny "\<lambda>g groups. g \<in> set groups"
  by unfold_locales (auto simp: acl_refusal_def list_ex_iff)

lemma cidr_contains_canonical [simp]: "cidr_contains c (to_canonical ip) = cidr_contains c ip"
  by (simp add: cidr_contains_def)

text \<open>
  An address restriction cannot be loosened by accident or evaded. A request without an
  address is refused; adding deny entries, adding an allow list where there was none, or removing
  entries from one that stays non-empty never admits a request the policy refused; and an address
  written in its IPv4-mapped form gets the verdict of the IPv4 address.
\<close>

theorem ip_refusal_monotone:
  "ip_refusal p None \<noteq> None \<and>
    (set (ir_deny p) \<subseteq> set (ir_deny q) \<and>
      (ir_allow p = [] \<or> ir_allow q \<noteq> [] \<and> set (ir_allow q) \<subseteq> set (ir_allow p)) \<and>
      ip_refusal q who = None \<longrightarrow> ip_refusal p who = None) \<and>
    (net \<in> set (ir_deny p) \<and> cidr_contains net ip \<longrightarrow> ip_refusal p (Some ip) = Some ''denied'') \<and>
    ip_refusal p (Some (V6 (to_ipv6_mapped a))) = ip_refusal p (Some (V4 a))"
proof (intro conjI impI; (elim conjE)?)
  show "ip_refusal p None \<noteq> None" by (rule ip_list.unknown_refused)
  show "set (ir_deny p) \<subseteq> set (ir_deny q) \<Longrightarrow>
      ir_allow p = [] \<or> (ir_allow q \<noteq> [] \<and> set (ir_allow q) \<subseteq> set (ir_allow p)) \<Longrightarrow>
      ip_refusal q who = None \<Longrightarrow> ip_refusal p who = None"
    by (rule ip_list.stricter)
  show "net \<in> set (ir_deny p) \<Longrightarrow> cidr_contains net ip \<Longrightarrow> ip_refusal p (Some ip) = Some ''denied''"
    by (auto simp: ip_refusal_def list_ex_iff)
  have "cidr_contains c (V6 (to_ipv6_mapped a)) = cidr_contains c (V4 a)" for c
    using cidr_contains_canonical [of c "V6 (to_ipv6_mapped a)"] by (simp only: to_canonical_mapped)
  then show "ip_refusal p (Some (V6 (to_ipv6_mapped a))) = ip_refusal p (Some (V4 a))"
    by (simp add: ip_refusal_def)
qed

theorem ip_refusal_monotone_witness:
  "ip_refusal \<lparr>ir_allow = [\<lparr>cidr_addr = V4 0x0A000000, cidr_bits = 8\<rparr>],
      ir_deny = [\<lparr>cidr_addr = V4 0x0A010000, cidr_bits = 16\<rparr>]\<rparr> (Some (V4 0x0A010203)) = Some ''denied''
   \<and> ip_refusal \<lparr>ir_allow = [], ir_deny = []\<rparr> (Some (V4 0x0A020304)) = None"
proof
  let ?net = "\<lparr>cidr_addr = V4 0x0A010000, cidr_bits = 16\<rparr>"
  let ?q = "\<lparr>ir_allow = [\<lparr>cidr_addr = V4 0x0A000000, cidr_bits = 8\<rparr>], ir_deny = [?net]\<rparr>"
  have "cidr_contains ?net (V4 0x0A010203)" by code_simp
  then show "ip_refusal ?q (Some (V4 0x0A010203)) = Some ''denied''"
    using ip_refusal_monotone [of ?q _ _ ?net] by simp
  have "ip_refusal ?q (Some (V4 0x0A020304)) = None" by code_simp
  then show "ip_refusal \<lparr>ir_allow = [], ir_deny = []\<rparr> (Some (V4 0x0A020304)) = None"
    using ip_refusal_monotone [of "\<lparr>ir_allow = [], ir_deny = []\<rparr>" ?q] by simp
qed

section \<open>Allowed origins\<close>

lemma origin_label_no_dot: "origin_label l \<Longrightarrow> CHR ''.'' \<notin> set l \<and> CHR ''/'' \<notin> set l \<and> CHR '':'' \<notin> set l"
  by (auto simp: origin_label_def list_all_iff ascii_class_defs byte_def)

lemma origin_matches_wildcard:
  assumes "split_once_str ''*.'' entry = Some (scheme, tail)"
  shows "origin_matches origin entry \<longleftrightarrow>
    (\<exists>label. origin_label label \<and> origin = scheme @ label @ ''.'' @ tail)"
proof -
  define stripped where "stripped = Option.bind (strip_prefix scheme origin)
      (\<lambda>rest. Option.bind (strip_suffix tail rest) (strip_suffix ''.''))"
  have "stripped = Some l \<longleftrightarrow> origin = scheme @ l @ ''.'' @ tail" for l
    by (auto simp: stripped_def bind_eq_Some_conv)
  moreover have "origin_matches origin entry \<longleftrightarrow> (\<exists>l. stripped = Some l \<and> origin_label l)"
    by (simp add: origin_matches_def assms stripped_def split: option.split)
  ultimately show ?thesis by auto
qed

lemma origin_matches_exact:
  "\<not> sublist ''*.'' entry \<Longrightarrow> origin_matches origin entry \<longleftrightarrow> entry = origin"
  by (simp add: origin_matches_def flip: split_once_str_None)

lemma origin_matches_cases:
  "origin_matches origin entry \<longleftrightarrow>
     (\<not> sublist ''*.'' entry \<and> entry = origin) \<or>
     (\<exists>scheme tail label. entry = scheme @ ''*.'' @ tail \<and> \<not> sublist ''*.'' (scheme @ ''*'') \<and>
        origin_label label \<and> origin = scheme @ label @ ''.'' @ tail)"
proof (cases "split_once_str ''*.'' entry")
  case None
  then have "\<not> sublist ''*.'' entry" by (simp add: split_once_str_None)
  moreover have "sublist ''*.'' (x @ ''*.'' @ y)" for x y by (rule sublist_appendI)
  ultimately show ?thesis by (metis origin_matches_exact)
next
  case (Some st)
  then obtain scheme tail where st: "split_once_str ''*.'' entry = Some (scheme, tail)" by (cases st) auto
  then have "sublist ''*.'' entry" by (auto dest: split_once_str_SomeD)
  moreover have "entry = x @ ''*.'' @ y \<and> \<not> sublist ''*.'' (x @ ''*'') \<longleftrightarrow> x = scheme \<and> y = tail" for x y
    using split_once_str_Some [of "''*.''" entry x y] st by auto
  ultimately show ?thesis unfolding origin_matches_wildcard [OF st] by blast
qed

text \<open>
  What \<open>Access-Control-Allow-Origin\<close> answers. It is never given for \<open>null\<close>; it is
  \<open>*\<close> exactly when the list has \<open>*\<close>; otherwise it is the origin itself, and only when
  the list holds it verbatim or holds a wildcard entry from which the origin is made by putting
  one non-empty label of lowercase letters, digits and hyphens, without a dot, slash or colon, in
  place of the star.
\<close>

theorem cors_allowed_spec:
  "cors_allowed p origin = Some v \<longleftrightarrow>
     origin \<noteq> ''null'' \<and>
     (if ''*'' \<in> set (co_origins p) then v = ''*''
      else v = origin \<and>
        (origin \<in> set (co_origins p) \<and> \<not> sublist ''*.'' origin \<or>
         (\<exists>scheme tail label. scheme @ ''*.'' @ tail \<in> set (co_origins p) \<and>
            \<not> sublist ''*.'' (scheme @ ''*'') \<and> origin_label label \<and>
            {CHR ''.'', CHR ''/'', CHR '':''} \<inter> set label = {} \<and>
            origin = scheme @ label @ ''.'' @ tail)))"
proof -
  have "origin_label l \<longleftrightarrow> origin_label l \<and> {CHR ''.'', CHR ''/'', CHR '':''} \<inter> set l = {}" for l
    using origin_label_no_dot by auto
  then have "(\<exists>entry \<in> set (co_origins p). origin_matches origin entry) \<longleftrightarrow>
      origin \<in> set (co_origins p) \<and> \<not> sublist ''*.'' origin \<or>
      (\<exists>scheme tail label. scheme @ ''*.'' @ tail \<in> set (co_origins p) \<and>
         \<not> sublist ''*.'' (scheme @ ''*'') \<and> origin_label label \<and>
         {CHR ''.'', CHR ''/'', CHR '':''} \<inter> set label = {} \<and> origin = scheme @ label @ ''.'' @ tail)"
    unfolding origin_matches_cases by blast
  moreover have "list_ex (\<lambda>entry. entry = ''*'') (co_origins p) \<longleftrightarrow> ''*'' \<in> set (co_origins p)"
    by (auto simp: list_ex_iff)
  ultimately show ?thesis by (auto simp: cors_allowed_def list_ex_iff)
qed

end
