(* ===== verification/Failure.thy ===== *)
theory Failure
  imports Rust_Num
begin

text \<open>
  \<^verbatim>\<open>gapura/src/proxy/failure.rs\<close>: the closed set of keys that say why the gateway answered a
  request itself, with their text, status and parent, the classification of the proxy library's
  errors, and the rendering of the answer's body; the refusals of \<^verbatim>\<open>gapura-core/src/jwt.rs\<close> and
  \<^verbatim>\<open>gapura-core/src/credentials.rs\<close> they are made from. The error of the proxy library is the pair
  of its source and its type, of which only the types the code names are told apart. Shows that a
  key is told by its text alone, that no answer changes status along the parent chain, and which
  errors are answered and how.
\<close>

section \<open>Keys\<close>

datatype error_key =
    InvalidRequestTarget | NoRoute | NoBackendKey | NoEndpointsKey
  | AuthKeyMissing | AuthKeyInvalid | AuthJwtMissing | AuthJwtInvalid | AuthMissing
  | AuthUnavailable | Unauthorized | RateLimited | IpForbidden | RequestTooLarge
  | CorsOriginForbidden | AclForbidden
  | UpstreamConnectTimeout | UpstreamTimeout | UpstreamConnectError | UpstreamTlsError
  | UpstreamError | InternalErrorKey

fun error_key_as_str :: "error_key \<Rightarrow> string" where
  "error_key_as_str InvalidRequestTarget = ''INVALID_REQUEST_TARGET''"
| "error_key_as_str NoRoute = ''NO_ROUTE''"
| "error_key_as_str NoBackendKey = ''NO_BACKEND''"
| "error_key_as_str NoEndpointsKey = ''NO_ENDPOINTS''"
| "error_key_as_str AuthKeyMissing = ''AUTH_KEY_MISSING''"
| "error_key_as_str AuthKeyInvalid = ''AUTH_KEY_INVALID''"
| "error_key_as_str AuthJwtMissing = ''AUTH_JWT_MISSING''"
| "error_key_as_str AuthJwtInvalid = ''AUTH_JWT_INVALID''"
| "error_key_as_str AuthMissing = ''AUTH_MISSING''"
| "error_key_as_str AuthUnavailable = ''AUTH_UNAVAILABLE''"
| "error_key_as_str Unauthorized = ''UNAUTHORIZED''"
| "error_key_as_str RateLimited = ''RATE_LIMITED''"
| "error_key_as_str IpForbidden = ''IP_FORBIDDEN''"
| "error_key_as_str RequestTooLarge = ''REQUEST_TOO_LARGE''"
| "error_key_as_str CorsOriginForbidden = ''CORS_ORIGIN_FORBIDDEN''"
| "error_key_as_str AclForbidden = ''ACL_FORBIDDEN''"
| "error_key_as_str UpstreamConnectTimeout = ''UPSTREAM_CONNECT_TIMEOUT''"
| "error_key_as_str UpstreamTimeout = ''UPSTREAM_TIMEOUT''"
| "error_key_as_str UpstreamConnectError = ''UPSTREAM_CONNECT_ERROR''"
| "error_key_as_str UpstreamTlsError = ''UPSTREAM_TLS_ERROR''"
| "error_key_as_str UpstreamError = ''UPSTREAM_ERROR''"
| "error_key_as_str InternalErrorKey = ''INTERNAL_ERROR''"

fun error_key_status :: "error_key \<Rightarrow> u16" where
  "error_key_status InvalidRequestTarget = 400"
| "error_key_status AuthKeyMissing = 401"
| "error_key_status AuthKeyInvalid = 401"
| "error_key_status AuthJwtMissing = 401"
| "error_key_status AuthJwtInvalid = 401"
| "error_key_status AuthMissing = 401"
| "error_key_status Unauthorized = 401"
| "error_key_status IpForbidden = 403"
| "error_key_status CorsOriginForbidden = 403"
| "error_key_status AclForbidden = 403"
| "error_key_status NoRoute = 404"
| "error_key_status RequestTooLarge = 413"
| "error_key_status RateLimited = 429"
| "error_key_status NoBackendKey = 500"
| "error_key_status InternalErrorKey = 500"
| "error_key_status UpstreamConnectError = 502"
| "error_key_status UpstreamTlsError = 502"
| "error_key_status UpstreamError = 502"
| "error_key_status NoEndpointsKey = 503"
| "error_key_status AuthUnavailable = 503"
| "error_key_status UpstreamConnectTimeout = 504"
| "error_key_status UpstreamTimeout = 504"

fun error_key_message :: "error_key \<Rightarrow> string" where
  "error_key_message InvalidRequestTarget = ''bad request target''"
| "error_key_message NoRoute = ''no route''"
| "error_key_message NoBackendKey = ''no valid backend''"
| "error_key_message NoEndpointsKey = ''no ready endpoints''"
| "error_key_message AuthKeyMissing = ''unauthorized''"
| "error_key_message AuthKeyInvalid = ''unauthorized''"
| "error_key_message AuthJwtMissing = ''unauthorized''"
| "error_key_message AuthJwtInvalid = ''unauthorized''"
| "error_key_message AuthMissing = ''unauthorized''"
| "error_key_message Unauthorized = ''unauthorized''"
| "error_key_message AuthUnavailable = ''authentication unavailable''"
| "error_key_message RateLimited = ''too many requests''"
| "error_key_message IpForbidden = ''forbidden''"
| "error_key_message CorsOriginForbidden = ''forbidden''"
| "error_key_message AclForbidden = ''forbidden''"
| "error_key_message RequestTooLarge = ''request too large''"
| "error_key_message UpstreamConnectTimeout = ''gateway timeout''"
| "error_key_message UpstreamTimeout = ''gateway timeout''"
| "error_key_message UpstreamConnectError = ''bad gateway''"
| "error_key_message UpstreamTlsError = ''bad gateway''"
| "error_key_message UpstreamError = ''bad gateway''"
| "error_key_message InternalErrorKey = ''internal error''"

fun error_key_parent :: "error_key \<Rightarrow> error_key option" where
  "error_key_parent AuthKeyMissing = Some Unauthorized"
| "error_key_parent AuthKeyInvalid = Some Unauthorized"
| "error_key_parent AuthJwtMissing = Some Unauthorized"
| "error_key_parent AuthJwtInvalid = Some Unauthorized"
| "error_key_parent AuthMissing = Some Unauthorized"
| "error_key_parent UpstreamConnectTimeout = Some UpstreamTimeout"
| "error_key_parent UpstreamTlsError = Some UpstreamConnectError"
| "error_key_parent UpstreamConnectError = Some UpstreamError"
| "error_key_parent _ = None"

section \<open>Refusals of credentials\<close>

datatype jwt_refusal = JwtMissing | JwtMalformed | JwtUnknownKey | JwtBadSignature | JwtClaims

fun jwt_refusal_as_str :: "jwt_refusal \<Rightarrow> string" where
  "jwt_refusal_as_str JwtMissing = ''missing''"
| "jwt_refusal_as_str JwtMalformed = ''malformed''"
| "jwt_refusal_as_str JwtUnknownKey = ''unknown_key''"
| "jwt_refusal_as_str JwtBadSignature = ''bad_signature''"
| "jwt_refusal_as_str JwtClaims = ''claims''"

fun error_key_of_jwt :: "jwt_refusal \<Rightarrow> error_key" where
  "error_key_of_jwt JwtMissing = AuthJwtMissing"
| "error_key_of_jwt _ = AuthJwtInvalid"

datatype key_refusal = KeyMissing | KeyUnknown

fun key_refusal_as_str :: "key_refusal \<Rightarrow> string" where
  "key_refusal_as_str KeyMissing = ''missing''"
| "key_refusal_as_str KeyUnknown = ''unknown''"

fun error_key_of_key :: "key_refusal \<Rightarrow> error_key" where
  "error_key_of_key KeyMissing = AuthKeyMissing"
| "error_key_of_key KeyUnknown = AuthKeyInvalid"

section \<open>Errors of the proxy library\<close>

datatype error_source = FromUpstream | FromDownstream | FromInternal | FromUnset

datatype error_type =
    HTTPStatus u16 | InvalidHTTPHeader | ConnectTimedout | ReadTimedout | WriteTimedout
  | ConnectRefused | ConnectNoRoute | ConnectError
  | TLSHandshakeFailure | TLSHandshakeTimedout | InvalidCert | OtherType string

definition classify :: "error_source \<Rightarrow> error_type \<Rightarrow> error_key option" where
  "classify esource etype =
     (case etype of
        HTTPStatus s \<Rightarrow>
          Some (if s = 503 then NoEndpointsKey else if s = 504 then UpstreamTimeout else InternalErrorKey)
      | _ \<Rightarrow>
          if etype = InvalidHTTPHeader \<and> esource = FromDownstream then Some InvalidRequestTarget
          else if esource = FromDownstream then None
          else if esource \<noteq> FromUpstream then Some InternalErrorKey
          else Some (case etype of
                 ConnectTimedout \<Rightarrow> UpstreamConnectTimeout
               | ReadTimedout \<Rightarrow> UpstreamTimeout
               | WriteTimedout \<Rightarrow> UpstreamTimeout
               | ConnectRefused \<Rightarrow> UpstreamConnectError
               | ConnectNoRoute \<Rightarrow> UpstreamConnectError
               | ConnectError \<Rightarrow> UpstreamConnectError
               | TLSHandshakeFailure \<Rightarrow> UpstreamTlsError
               | TLSHandshakeTimedout \<Rightarrow> UpstreamTlsError
               | InvalidCert \<Rightarrow> UpstreamTlsError
               | _ \<Rightarrow> UpstreamError))"

section \<open>The body of the answer\<close>

text \<open>A JSON string as \<open>serde_json\<close> writes it: the two-character escapes, then \<open>\\u00xx\<close>.\<close>

definition json_escape :: "char \<Rightarrow> string" where
  "json_escape c =
     (let b = byte c in
      if b = 34 then [CHR 0x5C, CHR 0x22]
      else if b = 92 then [CHR 0x5C, CHR 0x5C]
      else if b = 8 then CHR 0x5C # ''b''
      else if b = 9 then CHR 0x5C # ''t''
      else if b = 10 then CHR 0x5C # ''n''
      else if b = 12 then CHR 0x5C # ''f''
      else if b = 13 then CHR 0x5C # ''r''
      else if b < 32 then CHR 0x5C # ''u00'' @ [hex_char (b div 16), hex_char (b mod 16)]
      else [c])"

definition json_string :: "string \<Rightarrow> string" where
  "json_string s = [CHR 0x22] @ concat (map json_escape s) @ [CHR 0x22]"

definition json_field :: "string \<Rightarrow> string \<Rightarrow> string" where
  "json_field name val = json_string name @ '':'' @ json_string val"

definition render :: "error_key \<Rightarrow> string \<Rightarrow> bool \<Rightarrow> string \<times> string" where
  "render key request_id json =
     (if json then
        (''application/json'',
         ''{'' @ json_string ''error'' @ '':{'' @
           join '','' [json_field ''key'' (error_key_as_str key),
                       json_field ''message'' (error_key_message key),
                       json_field ''request_id'' request_id] @ ''}}'')
      else
        (''text/plain; charset=utf-8'',
         show_nat (unat (error_key_status key)) @ '' '' @ error_key_message key @ [CHR 0x0A]))"

section \<open>Keys are distinct and parents keep the status\<close>

definition key_list :: "error_key list" where
  "key_list = [InvalidRequestTarget, NoRoute, NoBackendKey, NoEndpointsKey, AuthKeyMissing,
     AuthKeyInvalid, AuthJwtMissing, AuthJwtInvalid, AuthMissing, AuthUnavailable, Unauthorized,
     RateLimited, IpForbidden, RequestTooLarge, CorsOriginForbidden, AclForbidden,
     UpstreamConnectTimeout, UpstreamTimeout, UpstreamConnectError, UpstreamTlsError, UpstreamError,
     InternalErrorKey]"

lemma key_list_all: "k \<in> set key_list"
  by (cases k) (simp_all add: key_list_def)

lemma as_str_inj: "error_key_as_str a = error_key_as_str b \<longleftrightarrow> a = b"
proof -
  have "distinct (map error_key_as_str key_list)" by code_simp
  then have "inj_on error_key_as_str (set key_list)" by (simp add: distinct_map)
  then show ?thesis using key_list_all by (metis inj_onD)
qed

lemma parent_status: "error_key_parent k = Some p \<Longrightarrow> error_key_status p = error_key_status k"
  by (cases k) auto

text \<open>The keys a response is looked up under: the key, then its ancestors.\<close>

fun ancestry :: "nat \<Rightarrow> error_key \<Rightarrow> error_key list" where
  "ancestry 0 k = [k]"
| "ancestry (Suc n) k = k # (case error_key_parent k of None \<Rightarrow> [] | Some p \<Rightarrow> ancestry n p)"

lemma ancestry_status: "p \<in> set (ancestry n a) \<Longrightarrow> error_key_status p = error_key_status a"
proof (induction n a rule: ancestry.induct)
  case (2 n k)
  then show ?case by (cases "error_key_parent k") (auto dest: parent_status)
qed simp

text \<open>
  The keys are a naming scheme: two different keys never share a text, so the text alone
  says the cause; the parents of a key, and theirs, all answer with the key's status, so choosing
  an answer by an ancestor never changes the status a caller is told; and every chain of parents
  ends within two steps at a key that has none.
\<close>

theorem error_keys_consistent:
  "(error_key_as_str a = error_key_as_str b \<longleftrightarrow> a = b) \<and>
   (\<forall>p \<in> set (ancestry n a). error_key_status p = error_key_status a) \<and>
   length (ancestry n a) \<le> 3 \<and> error_key_parent (last (ancestry (n + 2) a)) = None"
proof -
  have "length (ancestry n a) \<le> 3" by (cases n; cases "n - 1"; cases "n - 2"; cases a) auto
  moreover have "error_key_parent (last (ancestry (n + 2) a)) = None"
    by (cases n; cases a) auto
  ultimately show ?thesis using as_str_inj ancestry_status by blast
qed

theorem error_keys_consistent_witness:
  "error_key_status UpstreamError = error_key_status UpstreamTlsError"
  using error_keys_consistent [of UpstreamTlsError UpstreamTlsError 2] by (simp add: numeral_2_eq_2)

text \<open>
  How an error of the proxy library is answered. It goes unanswered exactly when the client
  is what failed, which leaves out an HTTP status the gateway raised itself and a header the
  library refused to forward; a 502 or a connection failure always comes from the upstream side;
  and a 504 is answered only when the upstream side timed out or the gateway itself raised 504.
\<close>

theorem classify_sound:
  "case classify src ty of
     None \<Rightarrow> src = FromDownstream \<and> ty \<noteq> InvalidHTTPHeader \<and> (\<forall>s. ty \<noteq> HTTPStatus s)
   | Some k \<Rightarrow>
       \<not> (src = FromDownstream \<and> ty \<noteq> InvalidHTTPHeader \<and> (\<forall>s. ty \<noteq> HTTPStatus s)) \<and>
       error_key_status k \<in> {400, 500, 502, 503, 504} \<and>
       (error_key_status k = 502 \<longrightarrow>
          src = FromUpstream \<and> ty \<notin> {ConnectTimedout, ReadTimedout, WriteTimedout}) \<and>
       (error_key_status k = 504 \<longrightarrow>
          ty = HTTPStatus 504 \<or> src = FromUpstream \<and> ty \<in> {ConnectTimedout, ReadTimedout, WriteTimedout}) \<and>
       (error_key_status k = 400 \<longrightarrow> src = FromDownstream)"
  by (cases ty; auto simp: classify_def split: if_splits)

theorem classify_sound_witness:
  "classify FromUpstream ConnectRefused = Some UpstreamConnectError \<and>
   error_key_status UpstreamConnectError \<in> {400, 500, 502, 503, 504}"
  using classify_sound [of FromUpstream ConnectRefused] by (simp add: classify_def)

end
