(* ===== verification/Select.thy ===== *)
theory Select
  imports Config Failure
begin

text \<open>
  \<^verbatim>\<open>gapura/src/proxy/select.rs\<close>: the decisions after a rule matched: which backend, which endpoint of
  its cluster, the rewritten path and the redirect target. A roll of the random source is an
  argument, as it is in the code. Shows that every backend is chosen for exactly its weight of
  the rolls, that an ejected endpoint never fails a request, that a request never tries an
  endpoint twice, and what a prefix rewrite keeps of the path.
\<close>

section \<open>Backends\<close>

datatype local_answer = NoBackend | NoEndpoints

fun local_key :: "local_answer \<Rightarrow> error_key" where
  "local_key NoBackend = NoBackendKey"
| "local_key NoEndpoints = NoEndpointsKey"

definition total_weight :: "weighted_backend list \<Rightarrow> u64" where
  "total_weight backends = sum_list (map (\<lambda>b. ucast (wb_weight b)) backends)"

fun pick_loop :: "weighted_backend list \<Rightarrow> u64 \<Rightarrow> local_answer + string" where
  "pick_loop [] r = Err NoBackend"
| "pick_loop (b # bs) r =
     (let w = ucast (wb_weight b) in
      if r < w then (case wb_cluster b of Some c \<Rightarrow> Ok c | None \<Rightarrow> Err NoBackend)
      else pick_loop bs (r - w))"

definition pick_backend :: "weighted_backend list \<Rightarrow> (u64 \<Rightarrow> u64) \<Rightarrow> local_answer + string" where
  "pick_backend backends roll =
     (let total = total_weight backends in
      if total = 0 then Err NoBackend
      else pick_loop backends (min (roll total) (total - 1)))"

section \<open>Endpoints\<close>

type_synonym socket_addr = "ip_addr \<times> u16"

definition endpoint_addr :: "endpoint \<Rightarrow> socket_addr option" where
  "endpoint_addr e = map_option (\<lambda>ip. (ip, ep_port e)) (parse_ip (ep_address e))"

definition untried_at :: "cluster \<Rightarrow> socket_addr list \<Rightarrow> nat \<Rightarrow> socket_addr option" where
  "untried_at cluster tried i =
     (case endpoint_addr (cl_endpoints cluster ! i) of
        None \<Rightarrow> None
      | Some a \<Rightarrow> if a \<in> set tried then None else Some a)"

definition healthy_panic :: "nat \<Rightarrow> (nat \<Rightarrow> bool) \<Rightarrow> u8 \<Rightarrow> bool" where
  "healthy_panic n ejected max_percent \<longleftrightarrow>
     n * unat max_percent < length (filter ejected [0..<n]) * 100"

definition left_untried :: "cluster \<Rightarrow> socket_addr list \<Rightarrow> (nat \<times> socket_addr) list" where
  "left_untried cluster tried =
     List.map_filter (\<lambda>i. map_option (\<lambda>a. (i, a)) (untried_at cluster tried i))
       [0..<length (cl_endpoints cluster)]"

definition endpoint_pool ::
  "cluster \<Rightarrow> socket_addr list \<Rightarrow> (nat \<Rightarrow> bool) \<Rightarrow> u8 \<Rightarrow> (nat \<times> socket_addr) list" where
  "endpoint_pool cluster tried ejected max_percent =
     (let panic = healthy_panic (length (cl_endpoints cluster)) ejected max_percent;
          left = left_untried cluster tried;
          healthy = filter (\<lambda>(i, _). panic \<or> \<not> ejected i) left
      in if healthy = [] then left else healthy)"

definition pick_endpoint ::
  "cluster \<Rightarrow> nat \<Rightarrow> socket_addr list \<Rightarrow> (nat \<Rightarrow> bool) \<Rightarrow> u8 \<Rightarrow> local_answer + nat \<times> socket_addr" where
  "pick_endpoint cluster cursor tried ejected max_percent =
     (let n = length (cl_endpoints cluster) in
      if n = 0 then Err NoEndpoints
      else let start = cursor mod n in
        case (if ejected start then None else untried_at cluster tried start) of
          Some addr \<Rightarrow> Ok (start, addr)
        | None \<Rightarrow>
            (let pool = endpoint_pool cluster tried ejected max_percent in
             if pool = [] then Err NoEndpoints else Ok (pool ! (cursor mod length pool))))"

section \<open>Paths and redirects\<close>

definition trim_end_slashes :: "string \<Rightarrow> string" where
  "trim_end_slashes s = rev (dropWhile (\<lambda>c. c = CHR ''/'') (rev s))"

fun rest_of_path :: "string \<Rightarrow> path_match \<Rightarrow> string run" where
  "rest_of_path path_in (Prefix p) =
     Returns (if p \<noteq> ''/'' then (case str_get path_in (length p) (length path_in) of Some r \<Rightarrow> r | None \<Rightarrow> [])
              else path_in)"
| "rest_of_path path_in (Exact _) = Returns []"
| "rest_of_path path_in (Regex _) = Panics"

fun rewrite_path :: "path_rewrite \<Rightarrow> string \<Rightarrow> path_match \<Rightarrow> string run" where
  "rewrite_path (ReplaceFullPath p) path_in matched = Returns p"
| "rewrite_path (ReplacePrefixMatch replacement) path_in matched =
     (case rest_of_path path_in matched of
        Panics \<Rightarrow> Panics
      | Returns rest \<Rightarrow>
          Returns (if replacement = ''/'' then (if rest = [] then ''/'' else rest)
                   else let p = trim_end_slashes replacement @ rest in if p = [] then ''/'' else p))"

definition redirect_port :: "redirect \<Rightarrow> u16 \<Rightarrow> u16 option" where
  "redirect_port r port_in =
     (case (rd_port r, rd_scheme r \<noteq> None) of
        (Some p, _) \<Rightarrow> Some p
      | (None, True) \<Rightarrow> None
      | (None, False) \<Rightarrow> Some port_in)"

definition redirect_location ::
  "redirect \<Rightarrow> string \<Rightarrow> string \<Rightarrow> u16 \<Rightarrow> string \<Rightarrow> string option \<Rightarrow> path_match \<Rightarrow> string run" where
  "redirect_location r scheme_in host_in port_in path_in query matched =
     (let scheme = (case rd_scheme r of Some s \<Rightarrow> s | None \<Rightarrow> scheme_in);
          host = (case rd_hostname r of Some h \<Rightarrow> h | None \<Rightarrow> host_in);
          default_port = (if scheme = ''https'' then 443 else 80);
          port_part = (case redirect_port r port_in of
              Some p \<Rightarrow> if p \<noteq> default_port then '':'' @ show_nat (unat p) else []
            | None \<Rightarrow> []);
          query_part = (case query of Some q \<Rightarrow> ''?'' @ q | None \<Rightarrow> [])
      in case (case rd_path r of Some m \<Rightarrow> rewrite_path m path_in matched | None \<Rightarrow> Returns path_in) of
           Panics \<Rightarrow> Panics
         | Returns path \<Rightarrow> Returns (scheme @ ''://'' @ host @ port_part @ path @ query_part))"

section \<open>Every backend gets its share\<close>

definition weight_sum :: "weighted_backend list \<Rightarrow> nat" where
  "weight_sum bs = sum_list (map (\<lambda>b. unat (wb_weight b)) bs)"

definition answer_of :: "weighted_backend \<Rightarrow> local_answer + string" where
  "answer_of b = (case wb_cluster b of Some c \<Rightarrow> Ok c | None \<Rightarrow> Err NoBackend)"

lemma weight_sum_simps [simp]:
  "weight_sum [] = 0" "weight_sum (b # bs) = unat (wb_weight b) + weight_sum bs"
  by (simp_all add: weight_sum_def)

lemma weight_sum_bound: "weight_sum bs \<le> length bs * (2 ^ 32 - 1)"
proof (induction bs)
  case (Cons b bs)
  have "unat (wb_weight b) < 2 ^ 32" using unsigned_less [where ?'a = nat, of "wb_weight b"] by simp
  with Cons show ?case by simp
qed simp

lemma total_weight_unat:
  assumes "length bs < 2 ^ 32"
  shows "unat (total_weight bs) = weight_sum bs" and "weight_sum bs < 2 ^ 64"
proof -
  have "weight_sum bs \<le> (2 ^ 32 - 1) * (2 ^ 32 - 1)"
    using weight_sum_bound [of bs] assms by (simp add: mult_le_mono1 order_trans)
  then show small: "weight_sum bs < 2 ^ 64" by simp
  have "total_weight bs = of_nat (weight_sum bs)"
    by (induction bs) (simp_all add: total_weight_def)
  with small show "unat (total_weight bs) = weight_sum bs" by (simp add: unat_of_nat_small)
qed

lemma pick_loop_Cons_nat:
  assumes "r < 2 ^ 64"
  shows "pick_loop (b # bs) (of_nat r) =
    (if r < unat (wb_weight b) then answer_of b else pick_loop bs (of_nat (r - unat (wb_weight b))))"
proof -
  let ?w = "unat (wb_weight b)"
  have w: "(ucast (wb_weight b) :: u64) = of_nat ?w" by simp
  have "?w < 2 ^ 64" using unsigned_less [where ?'a = nat, of "wb_weight b"] by simp
  with assms have "(of_nat r :: u64) < of_nat ?w \<longleftrightarrow> r < ?w"
    by (simp add: word_less_nat_alt unat_of_nat_small del: of_nat_unat)
  moreover have "\<not> r < ?w \<Longrightarrow> (of_nat r :: u64) - of_nat ?w = of_nat (r - ?w)" by simp
  ultimately show ?thesis by (simp add: w answer_of_def Let_def del: of_nat_unat)
qed

lemma pick_loop_count:
  assumes "weight_sum bs < 2 ^ 64"
  shows "card {r. r < weight_sum bs \<and> pick_loop bs (of_nat r) = x} =
    sum_list (map (\<lambda>b. if answer_of b = x then unat (wb_weight b) else 0) bs)"
  using assms
proof (induction bs)
  case (Cons b bs)
  let ?w = "unat (wb_weight b)"
  let ?here = "{r. r < ?w \<and> answer_of b = x}"
  let ?rest = "{r. r < weight_sum bs \<and> pick_loop bs (of_nat r) = x}"
  have "{r. r < weight_sum (b # bs) \<and> pick_loop (b # bs) (of_nat r) = x} = ?here \<union> (\<lambda>r. r + ?w) ` ?rest"
    (is "?all = _")
  proof (intro equalityI subsetI)
    fix r assume r: "r \<in> ?here \<union> (\<lambda>r. r + ?w) ` ?rest"
    with Cons.prems have "r < 2 ^ 64" by auto
    with r show "r \<in> ?all" unfolding mem_Collect_eq pick_loop_Cons_nat [OF \<open>r < 2 ^ 64\<close>] by auto
  next
    fix r assume "r \<in> ?all"
    then have "r < weight_sum (b # bs)" and "pick_loop (b # bs) (of_nat r) = x" by auto
    moreover from this(1) Cons.prems have "r < 2 ^ 64" by simp
    ultimately show "r \<in> ?here \<union> (\<lambda>r. r + ?w) ` ?rest"
      by (cases "r < ?w") (auto simp: pick_loop_Cons_nat image_iff simp del: pick_loop.simps
          intro!: exI [of _ "r - ?w"])
  qed
  moreover have "card (?here \<union> (\<lambda>r. r + ?w) ` ?rest) = card ?here + card ((\<lambda>r. r + ?w) ` ?rest)"
    by (rule card_Un_disjoint) auto
  moreover have "card ((\<lambda>r. r + ?w) ` ?rest) = card ?rest"
    by (rule card_image) simp
  moreover have "card ?here = (if answer_of b = x then ?w else 0)" by simp
  ultimately show ?case using Cons.IH Cons.prems by simp
qed simp

text \<open>
  Traffic is split exactly by weight. Of the rolls the random source may give, which are the
  numbers below the sum of the weights, as many choose a cluster as the backends naming that
  cluster have weight, and as many answer "no backend" as the backends without a cluster have.
  Counted in the code's 64-bit arithmetic, for any list of fewer than \<open>2^32\<close> backends.
\<close>

theorem pick_backend_share:
  assumes "length bs < 2 ^ 32"
  shows "card {r. r < weight_sum bs \<and> pick_backend bs (\<lambda>_. of_nat r) = x} =
    sum_list (map (\<lambda>b. if answer_of b = x then unat (wb_weight b) else 0) bs)"
proof -
  note total = total_weight_unat [OF assms]
  have "pick_backend bs (\<lambda>_. of_nat r) = pick_loop bs (of_nat r)" if "r < weight_sum bs" for r
  proof -
    have "unat (of_nat r :: u64) = r" using that total(2) by (simp add: unat_of_nat_small)
    moreover have "total_weight bs \<noteq> 0" using that total(1) by auto
    moreover from this have "unat (total_weight bs - 1) = weight_sum bs - 1"
      using total(1) by (simp add: unat_minus_one)
    ultimately have "min (of_nat r) (total_weight bs - 1) = of_nat r"
      using that by (auto simp: min_def word_le_nat_alt)
    with \<open>total_weight bs \<noteq> 0\<close> show ?thesis by (simp add: pick_backend_def Let_def)
  qed
  then have "{r. r < weight_sum bs \<and> pick_backend bs (\<lambda>_. of_nat r) = x} =
      {r. r < weight_sum bs \<and> pick_loop bs (of_nat r) = x}" by auto
  with pick_loop_count [OF total(2)] show ?thesis by simp
qed

theorem pick_backend_share_witness:
  "card {r. r < 4 \<and> pick_backend [\<lparr>wb_cluster = Some ''a'', wb_weight = 3\<rparr>,
      \<lparr>wb_cluster = None, wb_weight = 1\<rparr>] (\<lambda>_. of_nat r) = Ok ''a''} = 3"
  using pick_backend_share [of "[\<lparr>wb_cluster = Some ''a'', wb_weight = 3\<rparr>,
      \<lparr>wb_cluster = None, wb_weight = 1\<rparr>]" "Ok ''a''"]
  by (simp add: answer_of_def)

section \<open>Endpoints\<close>

lemma left_untried_iff:
  "(i, a) \<in> set (left_untried cluster tried) \<longleftrightarrow>
     i < length (cl_endpoints cluster) \<and> untried_at cluster tried i = Some a"
  by (auto simp: left_untried_def map_filter_def image_iff)

lemma untried_at_Some:
  "untried_at cluster tried i = Some a \<longleftrightarrow>
     endpoint_addr (cl_endpoints cluster ! i) = Some a \<and> a \<notin> set tried"
  by (auto simp: untried_at_def split: option.splits if_splits)

lemma left_untried_empty:
  "left_untried cluster tried = [] \<longleftrightarrow>
     (\<forall>i < length (cl_endpoints cluster). untried_at cluster tried i = None)"
proof -
  have "left_untried cluster tried = [] \<longleftrightarrow> (\<forall>i a. (i, a) \<notin> set (left_untried cluster tried))"
    by (cases "left_untried cluster tried") auto
  then show ?thesis unfolding left_untried_iff by (metis not_None_eq)
qed

lemma endpoint_pool_empty:
  "endpoint_pool cluster tried ejected pct = [] \<longleftrightarrow> left_untried cluster tried = []"
  by (auto simp: endpoint_pool_def Let_def)

lemma endpoint_pool_member:
  assumes "(i, a) \<in> set (endpoint_pool cluster tried ejected pct)"
  shows "i < length (cl_endpoints cluster)" and "untried_at cluster tried i = Some a"
    and "ejected i \<Longrightarrow> healthy_panic (length (cl_endpoints cluster)) ejected pct \<or>
      (\<forall>j < length (cl_endpoints cluster). untried_at cluster tried j \<noteq> None \<longrightarrow> ejected j)"
proof -
  have "(i, a) \<in> set (left_untried cluster tried)"
    using assms by (auto simp: endpoint_pool_def Let_def split: if_splits)
  then show "i < length (cl_endpoints cluster)" and "untried_at cluster tried i = Some a"
    by (simp_all add: left_untried_iff)
  assume "ejected i"
  show "healthy_panic (length (cl_endpoints cluster)) ejected pct \<or>
      (\<forall>j < length (cl_endpoints cluster). untried_at cluster tried j \<noteq> None \<longrightarrow> ejected j)"
  proof (rule disjCI)
    assume "\<not> (\<forall>j < length (cl_endpoints cluster). untried_at cluster tried j \<noteq> None \<longrightarrow> ejected j)"
    then obtain j b where "(j, b) \<in> set (left_untried cluster tried)" and "\<not> ejected j"
      by (auto simp: left_untried_iff)
    then have "filter (\<lambda>(i, _). \<not> ejected i) (left_untried cluster tried) \<noteq> []"
      unfolding filter_empty_conv by fastforce
    then show "healthy_panic (length (cl_endpoints cluster)) ejected pct"
      using assms \<open>ejected i\<close>
      by (cases "healthy_panic (length (cl_endpoints cluster)) ejected pct")
        (auto simp: endpoint_pool_def Let_def)
  qed
qed

lemma pool_nth: "pool \<noteq> [] \<Longrightarrow> pool ! (k mod length pool) \<in> set pool"
  by (intro nth_mem) simp

lemma pick_endpoint_Ok:
  assumes "pick_endpoint cluster cursor tried ejected pct = Ok (i, a)"
  shows "i < length (cl_endpoints cluster) \<and> untried_at cluster tried i = Some a \<and> \<not> ejected i \<or>
    (i, a) \<in> set (endpoint_pool cluster tried ejected pct)"
proof (cases "if ejected (cursor mod length (cl_endpoints cluster)) then None
    else untried_at cluster tried (cursor mod length (cl_endpoints cluster))")
  case None
  with assms have "endpoint_pool cluster tried ejected pct \<noteq> []" and
      "endpoint_pool cluster tried ejected pct !
        (cursor mod length (endpoint_pool cluster tried ejected pct)) = (i, a)"
    by (simp_all add: pick_endpoint_def Let_def split: if_splits)
  with pool_nth show ?thesis by metis
next
  case (Some addr)
  with assms show ?thesis
    by (auto simp: pick_endpoint_def Let_def split: if_splits option.splits)
qed

text \<open>
  Choosing an endpoint. A request is answered "no endpoints" exactly when no endpoint of the
  cluster has a usable address the request has not tried yet, whatever is ejected; an endpoint
  that is chosen is one of the cluster's, at its own address, untried; and it is an ejected one
  only when more endpoints than the allowed percentage are ejected or every untried one is.
\<close>

theorem pick_endpoint_sound:
  "(pick_endpoint cluster cursor tried ejected pct = Err e \<longleftrightarrow>
      e = NoEndpoints \<and>
      (\<forall>i < length (cl_endpoints cluster). \<forall>a.
         endpoint_addr (cl_endpoints cluster ! i) = Some a \<longrightarrow> a \<in> set tried)) \<and>
    (pick_endpoint cluster cursor tried ejected pct = Ok (i, a) \<longrightarrow>
      i < length (cl_endpoints cluster) \<and> endpoint_addr (cl_endpoints cluster ! i) = Some a \<and>
      a \<notin> set tried \<and>
      (ejected i \<longrightarrow> healthy_panic (length (cl_endpoints cluster)) ejected pct \<or>
         (\<forall>j < length (cl_endpoints cluster). untried_at cluster tried j \<noteq> None \<longrightarrow> ejected j)))"
proof (rule conjI, rule_tac [2] impI)
  have none: "untried_at cluster tried i = None \<longleftrightarrow>
      (\<forall>a. endpoint_addr (cl_endpoints cluster ! i) = Some a \<longrightarrow> a \<in> set tried)" for i
    using untried_at_Some [of cluster tried i] by (metis not_None_eq)
  have "pick_endpoint cluster cursor tried ejected pct = Err e \<longleftrightarrow>
      e = NoEndpoints \<and> (\<forall>i < length (cl_endpoints cluster). untried_at cluster tried i = None)"
    unfolding left_untried_empty [symmetric] endpoint_pool_empty [symmetric, of _ _ ejected pct]
    by (auto simp: pick_endpoint_def Let_def endpoint_pool_empty left_untried_empty split: option.splits)
  then show "pick_endpoint cluster cursor tried ejected pct = Err e \<longleftrightarrow>
      e = NoEndpoints \<and>
      (\<forall>i < length (cl_endpoints cluster). \<forall>a.
         endpoint_addr (cl_endpoints cluster ! i) = Some a \<longrightarrow> a \<in> set tried)"
    by (simp add: none)
  assume "pick_endpoint cluster cursor tried ejected pct = Ok (i, a)"
  from pick_endpoint_Ok [OF this]
  have "i < length (cl_endpoints cluster)" and "untried_at cluster tried i = Some a"
    and "ejected i \<longrightarrow> healthy_panic (length (cl_endpoints cluster)) ejected pct \<or>
      (\<forall>j < length (cl_endpoints cluster). untried_at cluster tried j \<noteq> None \<longrightarrow> ejected j)"
    using endpoint_pool_member [of i a cluster tried ejected pct] by blast+
  then show "i < length (cl_endpoints cluster) \<and> endpoint_addr (cl_endpoints cluster ! i) = Some a \<and>
      a \<notin> set tried \<and>
      (ejected i \<longrightarrow> healthy_panic (length (cl_endpoints cluster)) ejected pct \<or>
         (\<forall>j < length (cl_endpoints cluster). untried_at cluster tried j \<noteq> None \<longrightarrow> ejected j))"
    by (simp add: untried_at_Some)
qed

theorem pick_endpoint_sound_witness:
  "(1::nat) < 2 \<and> V4 0x0A000002 \<noteq> V4 0x0A000001 \<and>
   pick_endpoint \<lparr>cl_endpoints = [\<lparr>ep_address = ''10.0.0.1'', ep_port = 80\<rparr>,
       \<lparr>ep_address = ''10.0.0.2'', ep_port = 80\<rparr>], cl_tls = None, cl_resolve = None, cl_outlier = None\<rparr>
     0 [(V4 0x0A000001, 80)] (\<lambda>_. False) 50 = Ok (1, (V4 0x0A000002, 80))"
proof -
  let ?c = "\<lparr>cl_endpoints = [\<lparr>ep_address = ''10.0.0.1'', ep_port = 80\<rparr>,
       \<lparr>ep_address = ''10.0.0.2'', ep_port = 80\<rparr>], cl_tls = None, cl_resolve = None, cl_outlier = None\<rparr>"
  have "pick_endpoint ?c 0 [(V4 0x0A000001, 80)] (\<lambda>_. False) 50 = Ok (1, (V4 0x0A000002, 80))"
    by code_simp
  with pick_endpoint_sound [THEN conjunct2, rule_format, OF this] show ?thesis by simp
qed

section \<open>Rewritten paths\<close>

lemma str_get_suffix:
  assumes "rest = [] \<or> hd rest = CHR ''/''"
  shows "str_get (p @ rest) (length p) (length (p @ rest)) = Some rest"
proof -
  have "is_char_boundary (p @ rest) (length p)"
    using assms by (cases rest) (auto simp: is_char_boundary_def is_continuation_def byte_def nth_append)
  moreover have "is_char_boundary (p @ rest) (length (p @ rest))" by (simp add: is_char_boundary_def)
  ultimately show ?thesis by (simp add: str_get_def)
qed

lemma trim_end_slashes_shape:
  "trim_end_slashes s = [] \<or> last (trim_end_slashes s) \<noteq> CHR ''/''"
  "\<exists>n. s = trim_end_slashes s @ replicate n CHR ''/''"
proof -
  let ?d = "dropWhile (\<lambda>c. c = CHR ''/'') (rev s)"
  show "trim_end_slashes s = [] \<or> last (trim_end_slashes s) \<noteq> CHR ''/''"
    using hd_dropWhile [of "\<lambda>c. c = CHR ''/''" "rev s"] by (auto simp: trim_end_slashes_def last_rev)
  have "rev s = takeWhile (\<lambda>c. c = CHR ''/'') (rev s) @ ?d" by simp
  moreover have "takeWhile (\<lambda>c. c = CHR ''/'') (rev s) =
      replicate (length (takeWhile (\<lambda>c. c = CHR ''/'') (rev s))) CHR ''/''"
    by (rule replicate_eqI) (auto dest: set_takeWhileD)
  ultimately have "s = rev ?d @ rev (replicate (length (takeWhile (\<lambda>c. c = CHR ''/'') (rev s))) CHR ''/'')"
    by (metis rev_append rev_rev_ident)
  then show "\<exists>n. s = trim_end_slashes s @ replicate n CHR ''/''"
    by (auto simp: trim_end_slashes_def)
qed

text \<open>
  A prefix rewrite replaces the prefix and keeps the rest. For a path a prefix match admits,
  that is the prefix followed by nothing or by a slash and more, the new path is the replacement
  without its trailing slashes followed by exactly that rest, or \<open>/\<close> where that would be empty;
  it never panics and, for a replacement that starts with a slash, always starts with one.
\<close>

theorem rewrite_prefix_keeps_rest:
  assumes "p \<noteq> ''/''" and "rest = [] \<or> hd rest = CHR ''/''" and "hd replacement = CHR ''/''"
    and "replacement \<noteq> []"
  shows "\<exists>out. rewrite_path (ReplacePrefixMatch replacement) (p @ rest) (Prefix p) = Returns out \<and>
    out = (if trim_end_slashes replacement @ rest = [] then ''/'' else trim_end_slashes replacement @ rest) \<and>
    hd out = CHR ''/''"
proof -
  have rest: "rest_of_path (p @ rest) (Prefix p) = Returns rest"
    using str_get_suffix [OF assms(2)] assms(1) by simp
  have root: "trim_end_slashes ''/'' = []" by (simp add: trim_end_slashes_def)
  have "trim_end_slashes replacement \<noteq> [] \<Longrightarrow> hd (trim_end_slashes replacement) = CHR ''/''"
    using trim_end_slashes_shape(2) [of replacement] assms(3) by (metis hd_append2)
  then show ?thesis using rest assms(2) root
    by (cases "trim_end_slashes replacement = []") (auto simp: Let_def)
qed

theorem rewrite_prefix_keeps_rest_witness:
  "rewrite_path (ReplacePrefixMatch ''/v2/'') ''/api/x'' (Prefix ''/api'') = Returns ''/v2/x''"
proof -
  have "trim_end_slashes ''/v2/'' = ''/v2''" by (simp add: trim_end_slashes_def)
  then show ?thesis
    using rewrite_prefix_keeps_rest [of "''/api''" "''/x''" "''/v2/''"] by auto
qed

end
