(* ===== verification/Machine.thy ===== *)
theory Machine
  imports Gapura_Prelude
begin

text \<open>
  State machines driven by a list of events: running one, the outputs it gives, and the locale
  \<open>machine\<close> of a start state, a step and a state predicate every step keeps. The components
  with state (endpoint health, request limits) are interpretations of it.
\<close>

fun run_steps :: "('e \<Rightarrow> 's \<Rightarrow> 's \<times> 'o) \<Rightarrow> 'e list \<Rightarrow> 's \<Rightarrow> 's \<times> 'o list" where
  "run_steps step [] s = (s, [])"
| "run_steps step (e # es) s =
     (case step e s of (s', out) \<Rightarrow> (case run_steps step es s' of (s'', outs) \<Rightarrow> (s'', out # outs)))"

abbreviation run_state :: "('e \<Rightarrow> 's \<Rightarrow> 's \<times> 'o) \<Rightarrow> 'e list \<Rightarrow> 's \<Rightarrow> 's" where
  "run_state step es s \<equiv> fst (run_steps step es s)"

abbreviation run_outputs :: "('e \<Rightarrow> 's \<Rightarrow> 's \<times> 'o) \<Rightarrow> 'e list \<Rightarrow> 's \<Rightarrow> 'o list" where
  "run_outputs step es s \<equiv> snd (run_steps step es s)"

lemma run_steps_Cons:
  "run_state step (e # es) s = run_state step es (fst (step e s))"
  "run_outputs step (e # es) s = snd (step e s) # run_outputs step es (fst (step e s))"
  by (auto split: prod.splits)

lemma run_steps_append:
  "run_state step (es @ fs) s = run_state step fs (run_state step es s)"
  "run_outputs step (es @ fs) s = run_outputs step es s @ run_outputs step fs (run_state step es s)"
  by (induction es arbitrary: s) (auto simp: run_steps_Cons simp del: run_steps.simps(2))

lemma length_run_outputs [simp]: "length (run_outputs step es s) = length es"
  by (induction es arbitrary: s) (auto simp: run_steps_Cons simp del: run_steps.simps(2))

text \<open>The states a machine reaches, as a relation.\<close>

inductive reachable :: "('e \<Rightarrow> 's \<Rightarrow> 's \<times> 'o) \<Rightarrow> 's \<Rightarrow> 's \<Rightarrow> bool" for step s0 where
  start: "reachable step s0 s0"
| step: "reachable step s0 s \<Longrightarrow> reachable step s0 (fst (step e s))"

lemma run_reachable: "reachable step s0 s \<Longrightarrow> reachable step s0 (run_state step es s)"
  by (induction es arbitrary: s) (auto simp: run_steps_Cons simp del: run_steps.simps(2) intro: reachable.step)

locale machine =
  fixes start :: 's
    and step :: "'e \<Rightarrow> 's \<Rightarrow> 's \<times> 'o"
    and ok :: "'s \<Rightarrow> bool"
  assumes start_ok: "ok start"
    and step_ok: "ok s \<Longrightarrow> ok (fst (step e s))"
begin

lemma reachable_ok: "reachable step start s \<Longrightarrow> ok s"
  by (induction rule: reachable.induct) (auto simp: start_ok step_ok)

lemma run_ok: "ok (run_state step es start)"
  by (rule reachable_ok [OF run_reachable]) (rule reachable.start)

lemma run_ok_from: "ok s \<Longrightarrow> ok (run_state step es s)"
  by (induction es arbitrary: s) (auto simp: run_steps_Cons step_ok simp del: run_steps.simps(2))

end

end
