(* ===== verification/Outlier.thy ===== *)
theory Outlier
  imports Select Machine
begin

text \<open>
  \<^verbatim>\<open>gapura/src/proxy/outlier.rs\<close>: passive outlier detection. One endpoint's record is a state machine
  whose events are the outcomes of attempts with the clock reading and the policy at that moment;
  the registry is the table of records by address that survives configuration swaps. A shared
  record (\<open>Arc<Health>\<close>) is its identity, a number, in a heap of records. The mutex of a record
  makes each call one step. Shows when an endpoint is ejected and for how long, that outcomes
  reported during an ejection are ignored, that no counter overflows, and what a swap keeps.
\<close>

section \<open>One endpoint's record\<close>

datatype outcome = Success | Failed

record counts =
  failures :: u32
  successes :: u32
  ejections :: u32

definition default_counts :: counts where
  "default_counts = \<lparr>failures = 0, successes = 0, ejections = 0\<rparr>"

record health =
  h_counts :: counts
  ejected_until :: u64

definition default_health :: health where
  "default_health = \<lparr>h_counts = default_counts, ejected_until = 0\<rparr>"

definition is_ejected :: "health \<Rightarrow> u64 \<Rightarrow> bool" where
  "is_ejected h now_ms \<longleftrightarrow> now_ms < ejected_until h"

text \<open>The two arms of the match; \<open>successes += 1\<close> is kept as word addition.\<close>

definition record_success :: "health \<Rightarrow> outlier_detection \<Rightarrow> health" where
  "record_success h p =
     (let c = (h_counts h)\<lparr>failures := 0\<rparr> in
      if 0 < ejections c then
        (let c = c\<lparr>successes := successes c + 1\<rparr> in
         if successes_to_recover p \<le> successes c then h\<lparr>h_counts := default_counts\<rparr>
         else h\<lparr>h_counts := c\<rparr>)
      else h\<lparr>h_counts := c\<rparr>)"

definition record_failure :: "health \<Rightarrow> u64 \<Rightarrow> outlier_detection \<Rightarrow> health \<times> u64 option" where
  "record_failure h now_ms p =
     (let c = (h_counts h)\<lparr>successes := 0, failures := saturating_add (failures (h_counts h)) 1\<rparr>;
          threshold = (if 0 < ejections c then 1 else consecutive_failures p)
      in if failures c < threshold then (h\<lparr>h_counts := c\<rparr>, None)
         else (let c = c\<lparr>failures := 0, ejections := saturating_add (ejections c) 1\<rparr>;
                   ms = min (saturating_mul (base_ejection_ms p) (ucast (ejections c))) (max_ejection_ms p)
               in (\<lparr>h_counts = c, ejected_until = saturating_add now_ms ms\<rparr>, Some ms)))"

definition record_outcome :: "outcome \<Rightarrow> u64 \<Rightarrow> outlier_detection \<Rightarrow> health \<Rightarrow> health \<times> u64 option" where
  "record_outcome out now_ms p h =
     (if consecutive_failures p = 0 then (h, None)
      else if is_ejected h now_ms then (h, None)
      else case out of
        Success \<Rightarrow> (record_success h p, None)
      | Failed \<Rightarrow> record_failure h now_ms p)"

section \<open>The registry\<close>

record registry =
  known :: "(socket_addr \<times> nat) list"
  next_id :: nat

definition default_registry :: registry where
  "default_registry = \<lparr>known = [], next_id = 0\<rparr>"

type_synonym cluster_health = "(string \<times> nat option list) list"

definition named_addrs :: "config \<Rightarrow> socket_addr list" where
  "named_addrs cfg =
     concat (map (\<lambda>(_, c). List.map_filter endpoint_addr (cl_endpoints c)) (cf_clusters cfg))"

text \<open>\<open>known.entry(a).or_default()\<close>: the record of an address, a fresh one if it has none.\<close>

definition entry_or_default :: "socket_addr \<Rightarrow> registry \<Rightarrow> nat \<times> registry" where
  "entry_or_default a reg =
     (case map_of (known reg) a of
        Some i \<Rightarrow> (i, reg)
      | None \<Rightarrow> (next_id reg, \<lparr>known = aput a (next_id reg) (known reg), next_id = next_id reg + 1\<rparr>))"

fun cluster_records :: "endpoint list \<Rightarrow> registry \<Rightarrow> nat option list \<times> registry" where
  "cluster_records [] reg = ([], reg)"
| "cluster_records (e # es) reg =
     (case endpoint_addr e of
        None \<Rightarrow> (case cluster_records es reg of (rs, reg') \<Rightarrow> (None # rs, reg'))
      | Some a \<Rightarrow>
          (case entry_or_default a reg of (i, reg1) \<Rightarrow>
             (case cluster_records es reg1 of (rs, reg') \<Rightarrow> (Some i # rs, reg'))))"

fun all_records :: "(string \<times> cluster) list \<Rightarrow> registry \<Rightarrow> cluster_health \<times> registry" where
  "all_records [] reg = ([], reg)"
| "all_records ((k, c) # cs) reg =
     (case cluster_records (cl_endpoints c) reg of (rs, reg1) \<Rightarrow>
        (case all_records cs reg1 of (out, reg') \<Rightarrow> ((k, rs) # out, reg')))"

definition sync :: "config \<Rightarrow> registry \<Rightarrow> cluster_health \<times> registry" where
  "sync cfg reg =
     (let named = named_addrs cfg in
      all_records (cf_clusters cfg) (reg\<lparr>known := filter (\<lambda>(a, _). a \<in> set named) (known reg)\<rparr>))"

definition ejected_at :: "(nat \<Rightarrow> health) \<Rightarrow> nat option list \<Rightarrow> u64 \<Rightarrow> nat \<Rightarrow> bool" where
  "ejected_at heap records now_ms i \<longleftrightarrow>
     i < length records \<and> (case records ! i of None \<Rightarrow> False | Some r \<Rightarrow> is_ejected (heap r) now_ms)"

section \<open>No counter overflows\<close>

text \<open>One event: an outcome, the clock, the policy in force.\<close>

definition health_step :: "outcome \<times> u64 \<times> outlier_detection \<Rightarrow> health \<Rightarrow> health \<times> u64 option" where
  "health_step = (\<lambda>(out, now_ms, p) h. record_outcome out now_ms p h)"

definition health_ok :: "health \<Rightarrow> bool" where
  "health_ok h \<longleftrightarrow> successes (h_counts h) \<noteq> - 1 \<and>
     (ejections (h_counts h) = 0 \<longrightarrow> successes (h_counts h) = 0)"

lemma record_success_ok [wf_intros]: "health_ok h \<Longrightarrow> health_ok (record_success h p)"
proof -
  assume ok: "health_ok h"
  have "a \<noteq> - 1" if "\<not> b \<le> a" for a b :: u32 using that by auto
  with ok show ?thesis
    by (auto simp: record_success_def health_ok_def default_counts_def Let_def word_neq_0_conv)
qed

lemma saturating_add_1_neq_0 [simp]: "saturating_add (a :: u32) 1 \<noteq> 0"
proof -
  have "unat (saturating_add a 1) \<noteq> 0" by (simp add: unat_saturating_add)
  then show ?thesis by (metis unsigned_0)
qed

lemma record_failure_ok [wf_intros]: "health_ok h \<Longrightarrow> health_ok (fst (record_failure h now_ms p))"
  by (auto simp: record_failure_def health_ok_def Let_def)

interpretation endpoint: machine default_health health_step health_ok
proof
  show "health_ok default_health" by (simp add: default_health_def default_counts_def health_ok_def)
  show "health_ok (fst (health_step e h))" if "health_ok h" for e h
    using that by (cases e) (auto simp: health_step_def record_outcome_def intro: wf_intros split: outcome.splits)
qed

lemma failure_ejects_within:
  "record_failure h now_ms p = (h', Some ms) \<Longrightarrow> ms \<le> max_ejection_ms p \<and> ejected_until h' = saturating_add now_ms ms"
  by (auto simp: record_failure_def Let_def split: if_splits)

text \<open>
  Whatever outcomes an endpoint's record is given, at whatever clock readings and under
  whatever policies a reload puts in force, its success counter never wraps when it is
  incremented, and an ejection lasts no longer than the policy in force allows and ends at a
  clock value no earlier than the one it began at.
\<close>

theorem health_no_overflow:
  assumes "h = run_state health_step events default_health"
  shows "unat (successes (h_counts h) + 1) = unat (successes (h_counts h)) + 1 \<and>
    (record_outcome out now_ms p h = (h', Some ms) \<longrightarrow>
      ms \<le> max_ejection_ms p \<and> ejected_until h' = saturating_add now_ms ms \<and> now_ms \<le> ejected_until h')"
proof (rule conjI, rule_tac [2] impI)
  have "health_ok h" unfolding assms by (rule endpoint.run_ok)
  then have "successes (h_counts h) \<noteq> - 1" by (simp add: health_ok_def)
  then show "unat (successes (h_counts h) + 1) = unat (successes (h_counts h)) + 1"
    by (rule unat_plus_1)
  show "ms \<le> max_ejection_ms p \<and> ejected_until h' = saturating_add now_ms ms \<and> now_ms \<le> ejected_until h'"
    if "record_outcome out now_ms p h = (h', Some ms)"
    using that failure_ejects_within [of h now_ms p h' ms] saturating_add_ge
    by (auto simp: record_outcome_def split: if_splits outcome.splits)
qed

section \<open>When an endpoint is ejected\<close>

text \<open>How many failures an outcome history ends in.\<close>

definition trailing :: "outcome list \<Rightarrow> nat" where
  "trailing os = length (takeWhile (\<lambda>out. out = Failed) (rev os))"

lemma trailing_snoc [simp]:
  "trailing [] = 0" "trailing (os @ [Failed]) = trailing os + 1" "trailing (os @ [Success]) = 0"
  by (simp_all add: trailing_def)

definition policy_step :: "outlier_detection \<Rightarrow> outcome \<times> u64 \<Rightarrow> health \<Rightarrow> health \<times> u64 option" where
  "policy_step p = (\<lambda>(out, now_ms) h. record_outcome out now_ms p h)"

text \<open>An endpoint never ejected, with \<open>k\<close> failures in a row behind it.\<close>

definition failing :: "nat \<Rightarrow> health" where
  "failing k = \<lparr>h_counts = \<lparr>failures = of_nat k, successes = 0, ejections = 0\<rparr>, ejected_until = 0\<rparr>"

lemma failing_step:
  assumes "k < unat (consecutive_failures p)"
  shows "record_outcome Success now_ms p (failing k) = (failing 0, None)"
    and "k + 1 < unat (consecutive_failures p) \<Longrightarrow> record_outcome Failed now_ms p (failing k) = (failing (k + 1), None)"
    and "k + 1 = unat (consecutive_failures p) \<Longrightarrow>
      snd (record_outcome Failed now_ms p (failing k)) = Some (min (base_ejection_ms p) (max_ejection_ms p))"
proof -
  have big: "unat (consecutive_failures p) < 2 ^ 32" using unsigned_less [where ?'a = nat, of "consecutive_failures p"] by simp
  have on: "consecutive_failures p \<noteq> 0" using assms by auto
  have free: "\<not> is_ejected (failing k) now_ms" by (simp add: failing_def is_ejected_def)
  have k: "unat (of_nat k :: u32) = k" using assms big by (intro unat_of_nat_small) simp
  have inc: "saturating_add (of_nat k) (1 :: u32) = of_nat (k + 1)"
    using assms big by (simp add: saturating_add_def k)
  have k1: "unat (of_nat (k + 1) :: u32) = k + 1" using assms big by (intro unat_of_nat_small) simp
  have lt: "(of_nat (k + 1) :: u32) < consecutive_failures p \<longleftrightarrow> k + 1 < unat (consecutive_failures p)"
    by (simp only: word_less_nat_alt k1)
  show "record_outcome Success now_ms p (failing k) = (failing 0, None)"
    using on free by (simp add: record_outcome_def record_success_def failing_def Let_def)
  have one: "saturating_add 0 (1 :: u32) = 1" "saturating_mul x (1 :: u64) = x" for x :: u64
    using unsigned_less [where ?'a = nat, of x] by (simp_all add: saturating_add_def saturating_mul_def)
  show "record_outcome Failed now_ms p (failing k) = (failing (k + 1), None)"
    if "k + 1 < unat (consecutive_failures p)"
    using on free lt that
    by (simp add: record_outcome_def record_failure_def failing_def Let_def inc del: of_nat_add of_nat_Suc)
  show "snd (record_outcome Failed now_ms p (failing k)) = Some (min (base_ejection_ms p) (max_ejection_ms p))"
    if "k + 1 = unat (consecutive_failures p)"
    using on free lt that
    by (simp add: record_outcome_def record_failure_def failing_def Let_def inc one del: of_nat_add of_nat_Suc)
qed

lemma failing_run:
  assumes "\<forall>n \<le> length evs. trailing (take n (map fst evs)) < unat (consecutive_failures p)"
  shows "run_state (policy_step p) evs (failing 0) = failing (trailing (map fst evs)) \<and>
    run_outputs (policy_step p) evs (failing 0) = replicate (length evs) None"
  using assms
proof (induction evs rule: rev_induct)
  case (snoc ev evs)
  have IH: "run_state (policy_step p) evs (failing 0) = failing (trailing (map fst evs)) \<and>
    run_outputs (policy_step p) evs (failing 0) = replicate (length evs) None"
  proof (rule snoc.IH, intro allI impI)
    fix n assume "n \<le> length evs"
    with spec [OF snoc.prems, of n] show "trailing (take n (map fst evs)) < unat (consecutive_failures p)"
      by simp
  qed
  have now: "trailing (map fst (evs @ [ev])) < unat (consecutive_failures p)"
    using spec [OF snoc.prems, of "length (evs @ [ev])"] by simp
  have before: "trailing (map fst evs) < unat (consecutive_failures p)"
    using spec [OF snoc.prems, of "length evs"] by simp
  obtain out t where ev: "ev = (out, t)" by (cases ev)
  have "record_outcome out t p (failing (trailing (map fst evs))) = (failing (trailing (map fst (evs @ [ev]))), None)"
    using now before by (cases out) (simp_all add: ev failing_step)
  with IH show ?case
    by (simp add: run_steps_append ev policy_step_def replicate_append_same)
qed (simp add: failing_def)

text \<open>
  An endpoint is ejected exactly by the failure that completes the policy's number of
  consecutive failures. As long as a history of outcomes never has that many failures in a row,
  it ejects nothing, and the next outcome ejects, for the base time (or the maximum, if less),
  exactly when it is a failure and the failures just before it are one short of the number.
\<close>

theorem ejected_by_consecutive_failures:
  assumes "\<forall>n \<le> length evs. trailing (take n (map fst evs)) < unat (consecutive_failures p)"
  shows "run_outputs (policy_step p) (evs @ [(out, now_ms)]) default_health =
    replicate (length evs) None @
      [if out = Failed \<and> trailing (map fst evs) + 1 = unat (consecutive_failures p)
       then Some (min (base_ejection_ms p) (max_ejection_ms p)) else None]"
proof -
  have start: "default_health = failing 0" by (simp add: default_health_def default_counts_def failing_def)
  have now: "trailing (map fst evs) < unat (consecutive_failures p)"
    using spec [OF assms, of "length evs"] by simp
  show ?thesis unfolding start
    using failing_run [OF assms] now failing_step [OF now, of now_ms]
    by (cases out) (auto simp: run_steps_append policy_step_def split: prod.splits)
qed

theorem ejected_by_consecutive_failures_witness:
  "run_outputs (policy_step (default_outlier_detection\<lparr>consecutive_failures := 2\<rparr>))
     ([(Failed, 5), (Success, 6), (Failed, 7)] @ [(Failed, 8)]) default_health
   = [None, None, None, Some 30000]"
proof -
  let ?p = "default_outlier_detection\<lparr>consecutive_failures := 2\<rparr>"
  let ?evs = "[(Failed, 5), (Success, 6), (Failed, 7)] :: (outcome \<times> u64) list"
  have "trailing (take n (map fst ?evs)) < 2" if "n \<le> 3" for n
  proof -
    from that consider "n = 0" | "n = 1" | "n = 2" | "n = 3" by linarith
    then show ?thesis by cases (simp_all add: trailing_def)
  qed
  then have "\<forall>n \<le> length ?evs. trailing (take n (map fst ?evs)) < unat (consecutive_failures ?p)"
    by simp
  from ejected_by_consecutive_failures [OF this, of Failed 8] show ?thesis
    by (simp add: trailing_def default_outlier_detection_def numeral_3_eq_3)
qed

theorem health_no_overflow_witness:
  "unat (successes (h_counts default_health) + 1) = 1"
  using health_no_overflow [of default_health "[]", THEN conjunct1] by (simp add: default_health_def default_counts_def)

section \<open>During and after an ejection\<close>

text \<open>A record after its \<open>n\<close>-th ejection, with \<open>m\<close> successes since.\<close>

definition probation :: "u32 \<Rightarrow> nat \<Rightarrow> u64 \<Rightarrow> health" where
  "probation n m until =
     \<lparr>h_counts = \<lparr>failures = 0, successes = of_nat m, ejections = n\<rparr>, ejected_until = until\<rparr>"

definition recovered :: "u64 \<Rightarrow> health" where
  "recovered until = \<lparr>h_counts = default_counts, ejected_until = until\<rparr>"

lemma probation_success:
  assumes "n \<noteq> 0" and "until \<le> now_ms" and "consecutive_failures p \<noteq> 0"
    and "m < max 1 (unat (successes_to_recover p))"
  shows "fst (record_outcome Success now_ms p (probation n m until)) =
    (if m + 1 < max 1 (unat (successes_to_recover p)) then probation n (m + 1) until else recovered until)"
proof -
  have big: "unat (successes_to_recover p) < 2 ^ 32"
    using unsigned_less [where ?'a = nat, of "successes_to_recover p"] by simp
  have m: "unat (of_nat (m + 1) :: u32) = m + 1"
    using assms(4) big by (intro unat_of_nat_small) (auto simp: max_def split: if_splits)
  have "successes_to_recover p \<le> of_nat m + 1 \<longleftrightarrow> unat (successes_to_recover p) \<le> m + 1"
    using m by (simp add: word_le_nat_alt add.commute)
  with assms show ?thesis
    by (auto simp: record_outcome_def is_ejected_def probation_def recovered_def record_success_def
        Let_def word_gt_0 add.commute not_less)
qed

lemma recovered_success:
  "until \<le> now_ms \<Longrightarrow> fst (record_outcome Success now_ms p (recovered until)) = recovered until"
  by (auto simp: record_outcome_def is_ejected_def recovered_def record_success_def default_counts_def Let_def)

lemma probation_run:
  assumes "n \<noteq> 0" and "consecutive_failures p \<noteq> 0" and "\<forall>t \<in> set ts. until \<le> t"
  shows "run_state (policy_step p) (map (Pair Success) ts) (probation n 0 until) =
    (if length ts < max 1 (unat (successes_to_recover p)) then probation n (length ts) until
     else recovered until)"
  using assms(3)
proof (induction ts rule: rev_induct)
  case (snoc t ts)
  then have IH: "run_state (policy_step p) (map (Pair Success) ts) (probation n 0 until) =
    (if length ts < max 1 (unat (successes_to_recover p)) then probation n (length ts) until
     else recovered until)" by simp
  have t: "until \<le> t" using snoc.prems by simp
  show ?case
  proof (cases "length ts < max 1 (unat (successes_to_recover p))")
    case True
    with IH probation_success [OF assms(1) t assms(2) True] show ?thesis
      by (simp add: run_steps_append run_steps_Cons policy_step_def del: run_steps.simps(2))
  next
    case False
    with IH recovered_success [OF t, of p] show ?thesis
      by (simp add: run_steps_append run_steps_Cons policy_step_def del: run_steps.simps(2))
  qed
qed simp

text \<open>A failure that ejects: the record it leaves and for how long, as numbers.\<close>

lemma probation_failure:
  assumes "n \<noteq> 0" and "until \<le> now_ms" and "consecutive_failures p \<noteq> 0"
  shows "\<exists>n' ms. record_outcome Failed now_ms p (probation n m until) = (probation n' 0 (saturating_add now_ms ms), Some ms) \<and>
    unat n' = min (unat n + 1) (2 ^ 32 - 1) \<and> unat ms = min (unat (base_ejection_ms p) * unat n') (unat (max_ejection_ms p))"
proof -
  let ?n = "saturating_add n 1"
  let ?ms = "min (saturating_mul (base_ejection_ms p) (ucast ?n)) (max_ejection_ms p)"
  have one: "saturating_add 0 (1 :: u32) = 1" by (simp add: saturating_add_def)
  have "record_outcome Failed now_ms p (probation n m until) = (probation ?n 0 (saturating_add now_ms ?ms), Some ?ms)"
    using assms by (simp add: record_outcome_def is_ejected_def probation_def record_failure_def Let_def word_gt_0 one not_less)
  moreover have "unat ?n = min (unat n + 1) (2 ^ 32 - 1)" by (simp add: unat_saturating_add)
  moreover have "unat ?ms = min (unat (base_ejection_ms p) * unat ?n) (unat (max_ejection_ms p))"
  proof -
    have "unat (max_ejection_ms p) \<le> 2 ^ 64 - 1" using unsigned_less [where ?'a = nat, of "max_ejection_ms p"] by simp
    moreover have "unat (ucast ?n :: u64) = unat ?n"
      by (rule unat_ucast_up) simp
    moreover have "unat (min a b) = min (unat a) (unat b)" for a b :: u64 by (simp add: min_def word_le_nat_alt)
    ultimately show ?thesis by (simp add: unat_saturating_mul)
  qed
  ultimately show ?thesis by blast
qed

lemma ejected_for: "is_ejected (probation n m (saturating_add now_ms ms)) t \<longleftrightarrow> unat t < min (unat now_ms + unat ms) (2 ^ 64 - 1)"
  by (simp add: is_ejected_def probation_def word_less_nat_alt unat_saturating_add)

text \<open>
  C40: what an ejection means. While it lasts, outcomes of attempts already under way change
  nothing. After it, the endpoint is on probation: one failure ejects it again, from then for the base
  time times the number of its ejections, this one included, or for the maximum if that is less (times
  and counts stop at the end of their types), and leaves it with that many ejections and no successes;
  and exactly the policy's number of successes in a row (at least one) clears its history.
\<close>

theorem ejection_probation_recovery:
  "(is_ejected h now_ms \<longrightarrow> record_outcome out now_ms p h = (h, None)) \<and>
    (n \<noteq> 0 \<and> until \<le> now_ms \<and> consecutive_failures p \<noteq> 0 \<longrightarrow>
      (\<exists>n' ms h'. record_outcome Failed now_ms p (probation n m until) = (h', Some ms) \<and>
        unat n' = min (unat n + 1) (2 ^ 32 - 1) \<and>
        unat ms = min (unat (base_ejection_ms p) * unat n') (unat (max_ejection_ms p)) \<and>
        h_counts h' = \<lparr>failures = 0, successes = 0, ejections = n'\<rparr> \<and>
        (\<forall>t. is_ejected h' t \<longleftrightarrow> unat t < min (unat now_ms + unat ms) (2 ^ 64 - 1)))) \<and>
    (n \<noteq> 0 \<and> consecutive_failures p \<noteq> 0 \<and> (\<forall>t \<in> set ts. until \<le> t) \<longrightarrow>
      run_state (policy_step p) (map (Pair Success) ts) (probation n 0 until) =
        (if length ts < max 1 (unat (successes_to_recover p)) then probation n (length ts) until
         else recovered until))"
proof (intro conjI impI)
  show "record_outcome out now_ms p h = (h, None)" if "is_ejected h now_ms"
    using that by (simp add: record_outcome_def)
  show "\<exists>n' ms h'. record_outcome Failed now_ms p (probation n m until) = (h', Some ms) \<and>
        unat n' = min (unat n + 1) (2 ^ 32 - 1) \<and>
        unat ms = min (unat (base_ejection_ms p) * unat n') (unat (max_ejection_ms p)) \<and>
        h_counts h' = \<lparr>failures = 0, successes = 0, ejections = n'\<rparr> \<and>
        (\<forall>t. is_ejected h' t \<longleftrightarrow> unat t < min (unat now_ms + unat ms) (2 ^ 64 - 1))"
    if "n \<noteq> 0 \<and> until \<le> now_ms \<and> consecutive_failures p \<noteq> 0"
  proof -
    from that probation_failure [of n until now_ms p m] obtain n' ms where
      "record_outcome Failed now_ms p (probation n m until) = (probation n' 0 (saturating_add now_ms ms), Some ms)"
      "unat n' = min (unat n + 1) (2 ^ 32 - 1)" "unat ms = min (unat (base_ejection_ms p) * unat n') (unat (max_ejection_ms p))"
      by blast
    then show ?thesis
      by (intro exI [of _ n'] exI [of _ ms] exI [of _ "probation n' 0 (saturating_add now_ms ms)"])
         (simp add: ejected_for, simp add: probation_def)
  qed
qed (elim conjE, rule probation_run)

theorem ejection_probation_recovery_witness:
  "run_state (policy_step default_outlier_detection) (map (Pair Success) [100, 101, 102, 103, 104])
     (probation 2 0 100) = recovered 100 \<and>
   (\<exists>h' ms. record_outcome Failed 200 default_outlier_detection (probation 2 4 100) = (h', Some ms) \<and>
      unat ms = 90000 \<and> is_ejected h' 90199 \<and> \<not> is_ejected h' 90200)"
proof
  show "run_state (policy_step default_outlier_detection) (map (Pair Success) [100, 101, 102, 103, 104])
     (probation 2 0 100) = recovered 100"
    using ejection_probation_recovery [THEN conjunct2, THEN conjunct2, of 2 default_outlier_detection "[100, 101, 102, 103, 104]" 100]
    by (simp add: default_outlier_detection_def)
  have "\<exists>(n' :: u32) ms h'. record_outcome Failed 200 default_outlier_detection (probation 2 4 100) = (h', Some ms) \<and>
      unat n' = 3 \<and> unat ms = min (30000 * unat n') 300000 \<and> (\<forall>t. is_ejected h' t \<longleftrightarrow> unat t < min (200 + unat ms) (2 ^ 64 - 1))"
    using ejection_probation_recovery [THEN conjunct2, THEN conjunct1, of 2 100 200 default_outlier_detection 4]
    by (simp add: default_outlier_detection_def) blast
  then show "\<exists>h' ms. record_outcome Failed 200 default_outlier_detection (probation 2 4 100) = (h', Some ms) \<and>
      unat ms = 90000 \<and> is_ejected h' 90199 \<and> \<not> is_ejected h' 90200" by fastforce
qed

section \<open>What a swap keeps\<close>

abbreviation record_of :: "registry \<Rightarrow> socket_addr \<Rightarrow> nat option" where
  "record_of reg \<equiv> map_of (known reg)"

definition registry_wf :: "registry \<Rightarrow> bool" where
  "registry_wf reg \<longleftrightarrow>
     distinct (keys_of (known reg)) \<and> distinct (map snd (known reg)) \<and>
     (\<forall>i \<in> snd ` set (known reg). i < next_id reg)"

text \<open>A later registry has the records of an earlier one and otherwise only fresh ones.\<close>

definition grows :: "registry \<Rightarrow> registry \<Rightarrow> bool" where
  "grows reg reg' \<longleftrightarrow>
     next_id reg \<le> next_id reg' \<and>
     (\<forall>a i. record_of reg a = Some i \<longrightarrow> record_of reg' a = Some i) \<and>
     (\<forall>a i. record_of reg a = None \<and> record_of reg' a = Some i \<longrightarrow> next_id reg \<le> i)"

lemma grows_refl [simp]: "grows reg reg"
  unfolding grows_def by auto

lemma grows_keep: "grows reg reg' \<Longrightarrow> record_of reg a = Some i \<Longrightarrow> record_of reg' a = Some i"
  unfolding grows_def by blast

lemma grows_fresh: "grows reg reg' \<Longrightarrow> record_of reg a = None \<Longrightarrow> record_of reg' a = Some i \<Longrightarrow> next_id reg \<le> i"
  unfolding grows_def by blast

lemma grows_trans: "grows a b \<Longrightarrow> grows b c \<Longrightarrow> grows a c"
  unfolding grows_def by (metis not_None_eq option.inject order_trans)

lemma values_aput_fresh: "a \<notin> fst ` set m \<Longrightarrow> map snd (aput a v m) = map snd m @ [v]"
  by (induction m) auto

lemma entry_or_default_grows:
  assumes "registry_wf reg" and "entry_or_default a reg = (i, reg')"
  shows "registry_wf reg'" and "grows reg reg'" and "record_of reg' a = Some i"
    and "fst ` set (known reg') = insert a (fst ` set (known reg))"
proof -
  have "registry_wf reg' \<and> grows reg reg' \<and> record_of reg' a = Some i \<and>
      fst ` set (known reg') = insert a (fst ` set (known reg))"
  proof (cases "record_of reg a")
    case None
    then have fresh: "a \<notin> fst ` set (known reg)" by (simp add: map_of_eq_None_iff)
    have reg': "reg' = \<lparr>known = aput a (next_id reg) (known reg), next_id = next_id reg + 1\<rparr>" "i = next_id reg"
      using assms(2) None by (auto simp: entry_or_default_def)
    have "registry_wf reg'"
      using assms(1) by (fastforce simp: registry_wf_def reg' values_aput_fresh [OF fresh]
          simp flip: set_map)
    with None show ?thesis by (auto simp: reg' grows_def)
  next
    case (Some j)
    then have "a \<in> fst ` set (known reg)" by (simp add: map_of_in_keys [symmetric])
    with Some assms show ?thesis by (auto simp: entry_or_default_def insert_absorb)
  qed
  then show "registry_wf reg'" and "grows reg reg'" and "record_of reg' a = Some i"
    and "fst ` set (known reg') = insert a (fst ` set (known reg))" by blast+
qed

definition looked_up :: "registry \<Rightarrow> endpoint list \<Rightarrow> nat option list" where
  "looked_up reg es = map (\<lambda>e. Option.bind (endpoint_addr e) (record_of reg)) es"

lemma looked_up_simps [simp]:
  "looked_up reg [] = []"
  "looked_up reg (e # es) = Option.bind (endpoint_addr e) (record_of reg) # looked_up reg es"
  by (simp_all add: looked_up_def)

lemma cluster_records_grows:
  assumes "registry_wf reg" and "cluster_records es reg = (rs, reg')"
  shows "registry_wf reg' \<and> grows reg reg' \<and>
    fst ` set (known reg') = fst ` set (known reg) \<union> set (List.map_filter endpoint_addr es) \<and>
    (\<forall>reg''. grows reg' reg'' \<longrightarrow> rs = looked_up reg'' es)"
  using assms
proof (induction es arbitrary: reg rs)
  case (Cons e es)
  show ?case
  proof (cases "endpoint_addr e")
    case None
    with Cons.prems obtain rs1 where "cluster_records es reg = (rs1, reg')" "rs = None # rs1"
      by (auto split: prod.splits)
    with Cons.IH [OF Cons.prems(1)] None show ?thesis by (simp add: map_filter_simps)
  next
    case (Some a)
    obtain i reg1 where entry: "entry_or_default a reg = (i, reg1)" by (cases "entry_or_default a reg")
    with Some Cons.prems(2) obtain rs1 where rest: "cluster_records es reg1 = (rs1, reg')" "rs = Some i # rs1"
      by (auto split: prod.splits)
    note one = entry_or_default_grows [OF Cons.prems(1) entry]
    note IH = Cons.IH [OF one(1) rest(1)]
    have "rs = looked_up reg'' (e # es)" if "grows reg' reg''" for reg''
    proof -
      have "grows reg1 reg''" using IH that grows_trans by blast
      with one(3) have "record_of reg'' a = Some i" by (rule grows_keep [rotated])
      with IH that Some rest(2) show ?thesis by simp
    qed
    with IH one Some grows_trans [OF one(2)] show ?thesis by (auto simp: map_filter_simps)
  qed
qed (auto simp: map_filter_simps)

lemma all_records_grows:
  assumes "registry_wf reg" and "all_records cs reg = (out, reg')"
  shows "registry_wf reg' \<and> grows reg reg' \<and>
    fst ` set (known reg') = fst ` set (known reg) \<union>
      set (concat (map (\<lambda>(_, c). List.map_filter endpoint_addr (cl_endpoints c)) cs)) \<and>
    (\<forall>reg''. grows reg' reg'' \<longrightarrow> out = map (\<lambda>(k, c). (k, looked_up reg'' (cl_endpoints c))) cs)"
  using assms
proof (induction cs arbitrary: reg out)
  case (Cons kc cs)
  obtain k c where kc: "kc = (k, c)" by (cases kc)
  obtain rs reg1 where one: "cluster_records (cl_endpoints c) reg = (rs, reg1)"
    by (cases "cluster_records (cl_endpoints c) reg")
  with Cons.prems(2) kc obtain out1 where rest: "all_records cs reg1 = (out1, reg')" "out = (k, rs) # out1"
    by (auto split: prod.splits)
  note first = cluster_records_grows [OF Cons.prems(1) one]
  note IH = Cons.IH [OF first [THEN conjunct1] rest(1)]
  have keys: "fst ` set (known reg') = fst ` set (known reg) \<union>
      set (concat (map (\<lambda>(_, c). List.map_filter endpoint_addr (cl_endpoints c)) (kc # cs)))"
    using first IH by (simp add: kc Un_assoc)
  have "out = map (\<lambda>(k, c). (k, looked_up reg'' (cl_endpoints c))) (kc # cs)" if "grows reg' reg''" for reg''
  proof -
    have "grows reg1 reg''" using IH that grows_trans by blast
    then have "rs = looked_up reg'' (cl_endpoints c)" using first by (elim conjE) (rule mp, erule spec)
    moreover have "out1 = map (\<lambda>(k, c). (k, looked_up reg'' (cl_endpoints c))) cs"
      using IH that by (elim conjE) (rule mp, erule spec)
    ultimately show ?thesis by (simp add: kc rest(2))
  qed
  moreover have "grows reg reg'" using grows_trans first IH by (elim conjE)
  ultimately show ?case using keys IH by (intro conjI allI impI) (elim conjE)
qed auto

text \<open>
  A configuration swap keeps the health of the endpoints both configurations name and
  nothing else. From a consistent registry, \<open>sync\<close> leaves a consistent one that knows exactly
  the addresses the configuration names; every endpoint of every cluster gets the record its
  address has there; an address known before keeps its record, and any other gets one that was
  never handed out before.
\<close>

theorem sync_keeps_records:
  assumes "registry_wf reg" and "sync cfg reg = (out, reg')"
  shows "registry_wf reg' \<and> fst ` set (known reg') = set (named_addrs cfg) \<and>
    out = map (\<lambda>(k, c). (k, looked_up reg' (cl_endpoints c))) (cf_clusters cfg) \<and>
    (a \<in> set (named_addrs cfg) \<and> record_of reg a = Some i \<longrightarrow> record_of reg' a = Some i) \<and>
    (record_of reg' a = Some i \<and> record_of reg a = None \<longrightarrow> next_id reg \<le> i)"
proof (intro conjI impI)
  let ?kept = "reg\<lparr>known := filter (\<lambda>(a, _). a \<in> set (named_addrs cfg)) (known reg)\<rparr>"
  have wf: "registry_wf ?kept"
    using assms(1) by (auto simp: registry_wf_def distinct_map_filter)
  have kept: "record_of ?kept a = (if a \<in> set (named_addrs cfg) then record_of reg a else None)" for a
    using assms(1) map_of_filter_snd [of "known reg" "\<lambda>a _. a \<in> set (named_addrs cfg)" a]
    by (simp add: registry_wf_def split: option.split)
  have "all_records (cf_clusters cfg) ?kept = (out, reg')" using assms(2) by (simp add: sync_def Let_def)
  note all = all_records_grows [OF wf this]
  from all show "registry_wf reg'" by blast
  from all show "out = map (\<lambda>(k, c). (k, looked_up reg' (cl_endpoints c))) (cf_clusters cfg)"
    using grows_refl by blast
  have "fst ` set (known ?kept) \<subseteq> set (named_addrs cfg)" by auto
  with all show "fst ` set (known reg') = set (named_addrs cfg)"
    unfolding named_addrs_def [symmetric] by blast
  have grows: "grows ?kept reg'" using all by blast
  show "record_of reg' a = Some i" if "a \<in> set (named_addrs cfg) \<and> record_of reg a = Some i"
    by (rule grows_keep [OF grows]) (simp only: kept that if_True)
  show "next_id reg \<le> i" if new: "record_of reg' a = Some i \<and> record_of reg a = None"
  proof -
    have "record_of ?kept a = None" using new kept [of a] by simp
    from grows_fresh [OF grows this conjunct1 [OF new]] show ?thesis by simp
  qed
qed

definition two_endpoints :: config where
  "two_endpoints =
     \<lparr>cf_listeners = [], cf_ports = [],
      cf_clusters = [(''c'', \<lparr>cl_endpoints = [\<lparr>ep_address = ''10.0.0.1'', ep_port = 80\<rparr>,
        \<lparr>ep_address = ''10.0.0.2'', ep_port = 80\<rparr>, \<lparr>ep_address = ''name'', ep_port = 80\<rparr>],
        cl_tls = None, cl_resolve = None, cl_outlier = None\<rparr>)],
      cf_credentials = [], cf_credential_workspaces = [], cf_consumer_rate_limits = [], cf_consumers = []\<rparr>"

theorem sync_keeps_records_witness:
  "\<exists>reg'. sync two_endpoints \<lparr>known = [((V4 0x0A000002, 80), 4), ((V4 0x0A000009, 80), 3)], next_id = 7\<rparr>
      = ([(''c'', [Some 7, Some 4, None])], reg') \<and> registry_wf reg' \<and>
    record_of reg' (V4 0x0A000002, 80) = Some 4"
proof -
  let ?reg = "\<lparr>known = [((V4 0x0A000002, 80), 4), ((V4 0x0A000009, 80), 3)], next_id = 7\<rparr>"
  let ?reg' = "\<lparr>known = [((V4 0x0A000002, 80), 4), ((V4 0x0A000001, 80), 7)], next_id = 8\<rparr>"
  have wf: "registry_wf ?reg" by (simp add: registry_wf_def)
  have sync: "sync two_endpoints ?reg = ([(''c'', [Some 7, Some 4, None])], ?reg')" by code_simp
  have "(V4 0x0A000002, 80) \<in> set (named_addrs two_endpoints)" by code_simp
  moreover have "record_of ?reg (V4 0x0A000002, 80) = Some 4" by simp
  ultimately have "record_of ?reg' (V4 0x0A000002, 80) = Some 4"
    using sync_keeps_records [OF wf sync, of "(V4 0x0A000002, 80)" 4] by blast
  with sync sync_keeps_records [OF wf sync] show ?thesis by blast
qed

end
