(* ===== verification/Credentials.thy ===== *)
theory Credentials
  imports Config Failure
begin

text \<open>
  \<^verbatim>\<open>gapura-core/src/credentials.rs\<close>: identifying a caller by an API key. SHA-256 is a parameter; the
  configuration maps the hexadecimal digest of a key to its consumer and to the workspace it was
  issued in. Shows that a policy of one workspace accepts only that workspace's keys and answers
  every other key as one never issued, and that the identity a limit counts under tells
  consumers of different workspaces apart.
\<close>

section \<open>Definitions\<close>

definition consumer_header :: string where "consumer_header = ''x-consumer-username''"
definition groups_header :: string where "groups_header = ''x-consumer-groups''"
definition anonymous_header :: string where "anonymous_header = ''x-anonymous-consumer''"

definition gateway_headers :: "string list" where
  "gateway_headers = [consumer_header, groups_header, anonymous_header]"

definition hex :: "string \<Rightarrow> string" where
  "hex bytes = concat (map (\<lambda>b. [hex_char (byte b div 16), hex_char (byte b mod 16)]) bytes)"

definition presented_key :: "string option \<Rightarrow> string option" where
  "presented_key presented =
     (case map_option trim presented of
        Some k \<Rightarrow> if k \<noteq> [] then Some k else None
      | None \<Rightarrow> None)"

definition identify ::
  "(string \<Rightarrow> string) \<Rightarrow> config \<Rightarrow> string option \<Rightarrow> string option \<Rightarrow> key_refusal + string" where
  "identify sha cfg presented workspace =
     (case presented_key presented of
        None \<Rightarrow> Err KeyMissing
      | Some key \<Rightarrow>
          (let digest = hex (sha key) in
           if (case workspace of
                 None \<Rightarrow> False
               | Some w \<Rightarrow> map_of (cf_credential_workspaces cfg) digest \<noteq> Some w)
           then Err KeyUnknown
           else case map_of (cf_credentials cfg) digest of
                  Some consumer \<Rightarrow> Ok consumer
                | None \<Rightarrow> Err KeyUnknown))"

definition consumer_id :: "string \<Rightarrow> string \<Rightarrow> string" where
  "consumer_id workspace username =
     (if workspace = [] then username else workspace @ ''/'' @ username)"

section \<open>Digests\<close>

lemma hex_char_inj: "a < 16 \<Longrightarrow> b < 16 \<Longrightarrow> hex_char a = hex_char b \<longleftrightarrow> a = b"
  by (metis hex_char(2))

lemma hex_inj: "hex a = hex b \<longleftrightarrow> a = b"
proof (induction a arbitrary: b)
  case Nil
  then show ?case by (cases b) (auto simp: hex_def)
next
  case (Cons x a)
  show ?case
  proof (cases b)
    case (Cons y b')
    have "byte x div 16 < 16" and "byte y div 16 < 16" by (simp_all add: div_less_iff_less_mult)
    moreover have "byte x = byte y" if "byte x div 16 = byte y div 16" and "byte x mod 16 = byte y mod 16"
      using that by (metis div_mult_mod_eq)
    ultimately have "hex_char (byte x div 16) = hex_char (byte y div 16) \<and>
        hex_char (byte x mod 16) = hex_char (byte y mod 16) \<longleftrightarrow> x = y"
      by (auto simp: hex_char_inj)
    with Cons.IH [of b'] show ?thesis by (auto simp: hex_def \<open>b = y # b'\<close>)
  qed (simp add: hex_def)
qed

section \<open>Workspaces are apart\<close>

text \<open>
  Keys of one workspace mean nothing in another. A policy scoped to a workspace accepts a
  presented key exactly when the digest of the key, trimmed, is one issued in that workspace, and
  then names the consumer it was issued to; and a key that was not is answered in the same way
  whether the configuration holds it for another workspace or not at all.
\<close>

theorem identify_scoped:
  "(identify sha cfg presented (Some w) = Ok consumer \<longleftrightarrow>
      (\<exists>key. presented_key presented = Some key \<and>
         map_of (cf_credential_workspaces cfg) (hex (sha key)) = Some w \<and>
         map_of (cf_credentials cfg) (hex (sha key)) = Some consumer)) \<and>
    (presented_key presented = Some key \<and>
      map_of (cf_credential_workspaces cfg) (hex (sha key)) \<noteq> Some w \<longrightarrow>
      identify sha cfg presented (Some w) = identify sha (cfg\<lparr>cf_credentials :=
        filter (\<lambda>(d, _). d \<noteq> hex (sha key)) (cf_credentials cfg)\<rparr>) presented (Some w)) \<and>
    (identify sha cfg presented workspace = Err KeyMissing \<longleftrightarrow> presented_key presented = None)"
  by (auto simp: identify_def Let_def split: option.splits)

definition toy_sha :: "string \<Rightarrow> string" where
  "toy_sha s = s"

definition keyed_config :: config where
  "keyed_config =
     \<lparr>cf_listeners = [], cf_ports = [], cf_clusters = [],
      cf_credentials = [(''6b'', ''mobile'')], cf_credential_workspaces = [(''6b'', ''prod'')],
      cf_consumer_rate_limits = [], cf_consumers = []\<rparr>"

theorem identify_scoped_witness:
  "identify toy_sha keyed_config (Some '' k '') (Some ''dev'') =
     identify toy_sha (keyed_config\<lparr>cf_credentials := []\<rparr>) (Some '' k '') (Some ''dev'') \<and>
   identify toy_sha keyed_config (Some '' k '') (Some ''prod'') = Ok ''mobile''"
proof
  have key: "presented_key (Some '' k '') = Some ''k''" by code_simp
  have other: "map_of (cf_credential_workspaces keyed_config) (hex (toy_sha ''k'')) \<noteq> Some ''dev''"
    by code_simp
  have gone: "filter (\<lambda>(d, _). d \<noteq> hex (toy_sha ''k'')) (cf_credentials keyed_config) = []"
    by code_simp
  show "identify toy_sha keyed_config (Some '' k '') (Some ''dev'') =
     identify toy_sha (keyed_config\<lparr>cf_credentials := []\<rparr>) (Some '' k '') (Some ''dev'')"
    using identify_scoped [THEN conjunct2, THEN conjunct1, rule_format, where sha = toy_sha, OF conjI [OF key other]] by (simp add: gone)
  have "map_of (cf_credential_workspaces keyed_config) (hex (toy_sha ''k'')) = Some ''prod''" by code_simp
  moreover have "map_of (cf_credentials keyed_config) (hex (toy_sha ''k'')) = Some ''mobile''" by code_simp
  ultimately show "identify toy_sha keyed_config (Some '' k '') (Some ''prod'') = Ok ''mobile''"
    using key identify_scoped [THEN conjunct1] by blast
qed

lemma consumer_id_inj:
  assumes "CHR ''/'' \<notin> set u" and "CHR ''/'' \<notin> set u'"
  shows "consumer_id w u = consumer_id w' u' \<longleftrightarrow> w = w' \<and> u = u'"
proof -
  have "rsplit_once CHR ''/'' (x @ CHR ''/'' # y) = Some (x, y)" if "CHR ''/'' \<notin> set y" for x y
    using that by (simp add: rsplit_once_Some)
  then have "w @ CHR ''/'' # u = w' @ CHR ''/'' # u' \<longleftrightarrow> w = w' \<and> u = u'"
    using assms by (metis old.prod.inject option.inject)
  moreover have "u \<noteq> x @ CHR ''/'' # y" and "u' \<noteq> x @ CHR ''/'' # y" for x y
    using assms by auto
  ultimately show ?thesis by (auto simp: consumer_id_def)
qed

end
