(* ===== verification/Headers.thy ===== *)
theory Headers
  imports Client_Ip Config Credentials
begin

text \<open>
  The header work of \<^verbatim>\<open>gapura/src/proxy/mod.rs\<close> and \<^verbatim>\<open>gapura/src/proxy/transform.rs\<close>. The header
  map belongs to the HTTP library, so it is a parameter: a type \<open>'h\<close> with the five operations
  of the trait \<open>HeaderTarget\<close>, a failing write being \<^const>\<open>None\<close>. The locale
  \<open>header_target\<close> states what the code relies on: names without regard to case, a removal that
  removes every line, a set that replaces them, an append that keeps them. Shows that the headers
  that name the caller are the gateway's own whatever the client sent, and that edits depend on
  a request's headers only through the lines they name.
\<close>

section \<open>The trait\<close>

record 'h header_target_ops =
  h_get_all :: "'h \<Rightarrow> string \<Rightarrow> string list"
  h_del :: "string \<Rightarrow> 'h \<Rightarrow> 'h"
  h_set :: "string \<Rightarrow> string \<Rightarrow> 'h \<Rightarrow> 'h option"
  h_add :: "string \<Rightarrow> string \<Rightarrow> 'h \<Rightarrow> 'h option"
  h_append :: "string \<Rightarrow> string \<Rightarrow> 'h \<Rightarrow> 'h option"

text \<open>A write whose failure is not reported (\<open>let _ = ...\<close>) leaves the target as it was.\<close>

definition ignoring :: "('h \<Rightarrow> 'h option) \<Rightarrow> 'h \<Rightarrow> 'h" where
  "ignoring f h = (case f h of Some h' \<Rightarrow> h' | None \<Rightarrow> h)"

section \<open>Header filters and the caller's headers\<close>

fun try_fold :: "('x \<Rightarrow> 'h \<Rightarrow> 'h option) \<Rightarrow> 'x list \<Rightarrow> 'h \<Rightarrow> 'h option" where
  "try_fold f [] h = Some h"
| "try_fold f (x # xs) h = Option.bind (f x h) (try_fold f xs)"

definition apply_header_ops :: "'h header_target_ops \<Rightarrow> header_ops \<Rightarrow> 'h \<Rightarrow> 'h option" where
  "apply_header_ops H ops h =
     Option.bind (try_fold (\<lambda>(n, v). h_set H n v) (ho_set ops) h) (\<lambda>h1.
     Option.bind (try_fold (\<lambda>(n, v). h_add H n v) (ho_add ops) h1) (\<lambda>h2.
       Some (fold (h_del H) (ho_remove ops) h2)))"

record consumer =
  c_name :: string
  c_id :: string
  c_anonymous :: bool

definition consumer_headers :: "'h header_target_ops \<Rightarrow> consumer option \<Rightarrow> config \<Rightarrow> 'h \<Rightarrow> 'h option" where
  "consumer_headers H who cfg h =
     (let h0 = fold (h_del H) gateway_headers h in
      case who of
        None \<Rightarrow> Some h0
      | Some c \<Rightarrow>
          Option.bind (h_set H consumer_header (c_name c) h0) (\<lambda>h1.
          Option.bind (case map_of (cf_consumers cfg) (c_id c) of
              Some groups \<Rightarrow> if groups \<noteq> [] then h_set H groups_header (join '', '' groups) h1 else Some h1
            | None \<Rightarrow> Some h1) (\<lambda>h2.
            if c_anonymous c then h_set H anonymous_header ''true'' h2 else Some h2)))"

definition drop_tunnelling_upgrade :: "'h header_target_ops \<Rightarrow> 'h \<Rightarrow> 'h" where
  "drop_tunnelling_upgrade H h =
     (let websocket = (case h_get_all H h ''upgrade'' of
          [v] \<Rightarrow> eq_ignore_ascii_case v ''websocket''
        | _ \<Rightarrow> False);
          h1 = (if \<not> websocket then h_del H ''upgrade'' h else h)
      in h_del H ''http2-settings'' h1)"

section \<open>The client address of a request\<close>

text \<open>
  \<open>String::from_utf8_lossy\<close>: each maximal ill-formed run of a character's bytes becomes
  U+FFFD. \<open>bad_head\<close> is the length of such a run at the head of a byte list whose head is not
  a well-formed character.
\<close>

definition cont_at :: "string \<Rightarrow> nat \<Rightarrow> bool" where
  "cont_at s i \<longleftrightarrow> i < length s \<and> is_continuation (s ! i)"

definition second_ok :: "string \<Rightarrow> bool" where
  "second_ok s \<longleftrightarrow> 1 < length s \<and>
     (let a = byte (hd s); b = byte (s ! 1) in
      (a = 0xE0 \<and> 0xA0 \<le> b \<and> b \<le> 0xBF) \<or> (a = 0xED \<and> 0x80 \<le> b \<and> b \<le> 0x9F) \<or>
      (0xE1 \<le> a \<and> a \<le> 0xEF \<and> a \<noteq> 0xED \<and> 0x80 \<le> b \<and> b \<le> 0xBF) \<or>
      (a = 0xF0 \<and> 0x90 \<le> b \<and> b \<le> 0xBF) \<or> (0xF1 \<le> a \<and> a \<le> 0xF3 \<and> 0x80 \<le> b \<and> b \<le> 0xBF) \<or>
      (a = 0xF4 \<and> 0x80 \<le> b \<and> b \<le> 0x8F))"

definition bad_head :: "string \<Rightarrow> nat" where
  "bad_head s =
     (if \<not> second_ok s then 1
      else if byte (hd s) < 0xF0 then 2
      else if cont_at s 2 then 3 else 2)"

function from_utf8_lossy :: "string \<Rightarrow> string" where
  "from_utf8_lossy s =
     (if s = [] then []
      else if utf8_head s \<noteq> 0 then take (utf8_head s) s @ from_utf8_lossy (drop (utf8_head s) s)
      else [CHR 0xEF, CHR 0xBF, CHR 0xBD] @ from_utf8_lossy (drop (bad_head s) s))"
  by auto
termination
  by (relation "measure length") (auto simp: bad_head_def)

declare from_utf8_lossy.simps [simp del]

definition forwarded_for :: "string list \<Rightarrow> string option" where
  "forwarded_for lines = (if lines = [] then None else Some (join '', '' (map from_utf8_lossy lines)))"

definition forwarded_for_with_hop :: "string list \<Rightarrow> ip_addr \<Rightarrow> string" where
  "forwarded_for_with_hop lines peer =
     (let hop = show_ip (to_canonical peer) in
      case forwarded_for lines of
        Some existing \<Rightarrow> existing @ '', '' @ hop
      | None \<Rightarrow> hop)"

text \<open>A request as the policies read it: its method and the lines of each header.\<close>

record request =
  rq_method :: string
  rq_lines :: "string \<Rightarrow> string list"

text \<open>\<open>to_str\<close> is the library's reading of a header value as text, where it is one.\<close>

definition header_str :: "(string \<Rightarrow> string option) \<Rightarrow> request \<Rightarrow> string \<Rightarrow> string option" where
  "header_str to_str req name = (case rq_lines req name of [] \<Rightarrow> None | v # _ \<Rightarrow> to_str v)"

fun find_header :: "(string \<Rightarrow> string option) \<Rightarrow> request \<Rightarrow> string list \<Rightarrow> string option" where
  "find_header to_str req [] = None"
| "find_header to_str req (name # names) =
     (case header_str to_str req name of Some v \<Rightarrow> Some v | None \<Rightarrow> find_header to_str req names)"

definition client_ip_of ::
  "(string \<Rightarrow> string option) \<Rightarrow> request \<Rightarrow> ip_addr \<Rightarrow> cidr list \<Rightarrow> string list \<Rightarrow> ip_addr" where
  "client_ip_of to_str req peer trusted client_headers =
     client_ip peer (forwarded_for (rq_lines req ''x-forwarded-for'')) trusted
       (find_header to_str req client_headers)"

section \<open>Header edits\<close>

definition rename_header :: "'h header_target_ops \<Rightarrow> string \<times> string \<Rightarrow> 'h \<Rightarrow> 'h" where
  "rename_header H = (\<lambda>(from, to) h.
     let values = h_get_all H h from in
     if values = [] then h
     else fold (\<lambda>v. ignoring (h_append H to v)) values (h_del H to (h_del H from h)))"

definition replace_header :: "'h header_target_ops \<Rightarrow> string \<times> string \<Rightarrow> 'h \<Rightarrow> 'h" where
  "replace_header H = (\<lambda>(n, v) h. if h_get_all H h n \<noteq> [] then ignoring (h_set H n v) h else h)"

definition add_header :: "'h header_target_ops \<Rightarrow> string \<times> string \<Rightarrow> 'h \<Rightarrow> 'h" where
  "add_header H = (\<lambda>(n, v) h. if h_get_all H h n = [] then ignoring (h_set H n v) h else h)"

definition append_header :: "'h header_target_ops \<Rightarrow> string \<times> string \<Rightarrow> 'h \<Rightarrow> 'h" where
  "append_header H = (\<lambda>(n, v) h. ignoring (h_add H n v) h)"

definition edit_headers :: "'h header_target_ops \<Rightarrow> header_edits \<Rightarrow> 'h \<Rightarrow> 'h" where
  "edit_headers H edits h =
     fold (append_header H) (he_append edits)
       (fold (add_header H) (he_add edits)
         (fold (replace_header H) (he_replace edits)
           (fold (rename_header H) (he_rename edits)
             (fold (h_del H) (he_remove edits) h))))"

text \<open>What a header name and a header value are is the library's to say.\<close>

definition writable :: "(string \<Rightarrow> bool) \<Rightarrow> (string \<Rightarrow> bool) \<Rightarrow> header_edits \<Rightarrow> bool" where
  "writable valid_name valid_value edits \<longleftrightarrow>
     list_all valid_name (he_remove edits) \<and>
     list_all (\<lambda>(from, to). valid_name from \<and> valid_name to) (he_rename edits) \<and>
     list_all (\<lambda>(n, v). valid_name n \<and> valid_value v) (he_replace edits @ he_add edits @ he_append edits)"

section \<open>What the code relies on\<close>

text \<open>The abstract header map: for each name, its lines, names compared without regard to case.\<close>

type_synonym header_view = "string \<Rightarrow> string list"

definition view_del :: "string \<Rightarrow> header_view \<Rightarrow> header_view" where
  "view_del n f = (\<lambda>m. if eq_ignore_ascii_case m n then [] else f m)"

definition view_set :: "string \<Rightarrow> string \<Rightarrow> header_view \<Rightarrow> header_view" where
  "view_set n v f = (\<lambda>m. if eq_ignore_ascii_case m n then [v] else f m)"

definition view_append :: "string \<Rightarrow> string \<Rightarrow> header_view \<Rightarrow> header_view" where
  "view_append n v f = (\<lambda>m. if eq_ignore_ascii_case m n then f m @ [v] else f m)"

definition view_rename :: "string \<times> string \<Rightarrow> header_view \<Rightarrow> header_view" where
  "view_rename = (\<lambda>(from, to) f.
     if f from = [] then f
     else (\<lambda>m. if eq_ignore_ascii_case m to then f from
               else if eq_ignore_ascii_case m from then [] else f m))"

definition edit_view :: "header_edits \<Rightarrow> header_view \<Rightarrow> header_view" where
  "edit_view edits f =
     fold (\<lambda>(n, v). view_append n v) (he_append edits)
       (fold (\<lambda>(n, v) f. if f n = [] then view_set n v f else f) (he_add edits)
         (fold (\<lambda>(n, v) f. if f n \<noteq> [] then view_set n v f else f) (he_replace edits)
           (fold view_rename (he_rename edits)
             (fold view_del (he_remove edits) f))))"

lemma ieq_trans: "eq_ignore_ascii_case a b \<Longrightarrow> eq_ignore_ascii_case b c \<Longrightarrow> eq_ignore_ascii_case a c"
  by (simp add: eq_ignore_ascii_case_def)

locale header_target =
  fixes H :: "'h header_target_ops"
    and valid_name :: "string \<Rightarrow> bool"
    and valid_value :: "string \<Rightarrow> bool"
  assumes get_all_case: "eq_ignore_ascii_case m n \<Longrightarrow> h_get_all H h m = h_get_all H h n"
    and view_of_del: "valid_name n \<Longrightarrow> h_get_all H (h_del H n h) = view_del n (h_get_all H h)"
    and view_of_set: "h_set H n v h = Some h' \<Longrightarrow> h_get_all H h' = view_set n v (h_get_all H h)"
    and view_of_add: "h_add H n v h = Some h' \<Longrightarrow> h_get_all H h' = view_append n v (h_get_all H h)"
    and view_of_append: "h_append H n v h = Some h' \<Longrightarrow> h_get_all H h' = view_append n v (h_get_all H h)"
    and set_valid: "valid_name n \<Longrightarrow> valid_value v \<Longrightarrow> h_set H n v h \<noteq> None"
    and add_valid: "valid_name n \<Longrightarrow> valid_value v \<Longrightarrow> h_add H n v h \<noteq> None"
    and append_valid: "valid_name n \<Longrightarrow> h_append H n v h \<noteq> None"
begin

abbreviation view :: "'h \<Rightarrow> header_view" where
  "view h \<equiv> h_get_all H h"

lemma view_ignoring:
  "valid_name n \<Longrightarrow> valid_value v \<Longrightarrow> view (ignoring (h_set H n v) h) = view_set n v (view h)"
  "valid_name n \<Longrightarrow> valid_value v \<Longrightarrow> view (ignoring (h_add H n v) h) = view_append n v (view h)"
  "valid_name n \<Longrightarrow> view (ignoring (h_append H n v) h) = view_append n v (view h)"
  using set_valid [of n v h] add_valid [of n v h] append_valid [of n v h]
  by (auto simp: ignoring_def dest: view_of_set view_of_add view_of_append)

lemma view_dels: "list_all valid_name ns \<Longrightarrow> view (fold (h_del H) ns h) = fold view_del ns (view h)"
  by (induction ns arbitrary: h) (simp_all add: view_of_del)

lemma view_appends:
  "valid_name n \<Longrightarrow> view (fold (\<lambda>v. ignoring (h_append H n v)) vs h) =
     (\<lambda>m. if eq_ignore_ascii_case m n then view h m @ vs else view h m)"
  by (induction vs arbitrary: h) (simp_all add: view_ignoring view_append_def fun_eq_iff)

lemma view_rename_header:
  "valid_name from \<Longrightarrow> valid_name to \<Longrightarrow> view (rename_header H (from, to) h) = view_rename (from, to) (view h)"
  by (auto simp: rename_header_def view_rename_def Let_def view_appends view_of_del view_del_def fun_eq_iff)

lemma view_fold:
  assumes "\<And>x h. P x \<Longrightarrow> view (f x h) = g x (view h)" and "list_all P xs"
  shows "view (fold f xs h) = fold g xs (view h)"
  using assms(2) by (induction xs arbitrary: h) (simp_all add: assms(1))

lemma view_edit_headers:
  assumes "writable valid_name valid_value edits"
  shows "view (edit_headers H edits h) = edit_view edits (view h)"
proof -
  let ?line = "\<lambda>(n, v). valid_name n \<and> valid_value v"
  have valid: "list_all valid_name (he_remove edits)"
    "list_all (\<lambda>(from, to). valid_name from \<and> valid_name to) (he_rename edits)"
    "list_all ?line (he_replace edits)" "list_all ?line (he_add edits)" "list_all ?line (he_append edits)"
    using assms by (simp_all add: writable_def)
  have "view (rename_header H x h) = view_rename x (view h)"
    if "case x of (from, to) \<Rightarrow> valid_name from \<and> valid_name to" for x h
    using that by (cases x) (simp add: view_rename_header)
  moreover have "view (replace_header H x h) = (\<lambda>(n, v) f. if f n \<noteq> [] then view_set n v f else f) x (view h)"
    if "?line x" for x h using that by (cases x) (simp add: replace_header_def view_ignoring)
  moreover have "view (add_header H x h) = (\<lambda>(n, v) f. if f n = [] then view_set n v f else f) x (view h)"
    if "?line x" for x h using that by (cases x) (simp add: add_header_def view_ignoring)
  moreover have "view (append_header H x h) = (\<lambda>(n, v). view_append n v) x (view h)"
    if "?line x" for x h using that by (cases x) (simp add: append_header_def view_ignoring)
  ultimately show ?thesis
    unfolding edit_headers_def edit_view_def
    by (simp only: view_fold [OF _ valid(5)] view_fold [OF _ valid(4)] view_fold [OF _ valid(3)]
        view_fold [OF _ valid(2)] view_dels [OF valid(1)])
qed

text \<open>The headers that name the caller, after the gateway set them.\<close>

lemma view_consumer_headers:
  assumes "list_all valid_name gateway_headers" and "consumer_headers H who cfg h = Some h'"
  shows "view h' consumer_header = (case who of None \<Rightarrow> [] | Some c \<Rightarrow> [c_name c])"
    and "view h' groups_header = (case who of None \<Rightarrow> [] | Some c \<Rightarrow>
      (case map_of (cf_consumers cfg) (c_id c) of
         None \<Rightarrow> [] | Some g \<Rightarrow> if g = [] then [] else [join '', '' g]))"
    and "view h' anonymous_header = (case who of None \<Rightarrow> [] | Some c \<Rightarrow> if c_anonymous c then [''true''] else [])"
proof -
  have distinct: "\<not> eq_ignore_ascii_case consumer_header groups_header"
    "\<not> eq_ignore_ascii_case groups_header consumer_header"
    "\<not> eq_ignore_ascii_case consumer_header anonymous_header"
    "\<not> eq_ignore_ascii_case anonymous_header consumer_header"
    "\<not> eq_ignore_ascii_case groups_header anonymous_header"
    "\<not> eq_ignore_ascii_case anonymous_header groups_header" by code_simp+
  define h0 where "h0 = fold (h_del H) gateway_headers h"
  have "view h0 = fold view_del gateway_headers (view h)"
    unfolding h0_def by (rule view_dels [OF assms(1)])
  then have none: "view h0 consumer_header = []" "view h0 groups_header = []" "view h0 anonymous_header = []"
    by (simp_all add: gateway_headers_def view_del_def)
  have "view h' consumer_header = (case who of None \<Rightarrow> [] | Some c \<Rightarrow> [c_name c]) \<and>
      view h' groups_header = (case who of None \<Rightarrow> [] | Some c \<Rightarrow>
        (case map_of (cf_consumers cfg) (c_id c) of
           None \<Rightarrow> [] | Some g \<Rightarrow> if g = [] then [] else [join '', '' g])) \<and>
      view h' anonymous_header = (case who of None \<Rightarrow> [] | Some c \<Rightarrow> if c_anonymous c then [''true''] else [])"
  proof (cases who)
    case None
    with assms(2) none show ?thesis by (simp add: consumer_headers_def Let_def flip: h0_def)
  next
    case (Some c)
    let ?g = "map_of (cf_consumers cfg) (c_id c)"
    from assms(2) Some obtain h1 h2 where h1: "h_set H consumer_header (c_name c) h0 = Some h1"
      and h2: "(case ?g of Some groups \<Rightarrow> if groups \<noteq> [] then h_set H groups_header (join '', '' groups) h1
          else Some h1 | None \<Rightarrow> Some h1) = Some h2"
      and h': "(if c_anonymous c then h_set H anonymous_header ''true'' h2 else Some h2) = Some h'"
      by (auto simp: consumer_headers_def Let_def bind_eq_Some_conv simp flip: h0_def)
    note v1 = view_of_set [OF h1]
    have v2: "view h2 = (case ?g of None \<Rightarrow> view h1 | Some g \<Rightarrow>
        if g = [] then view h1 else view_set groups_header (join '', '' g) (view h1))"
      using h2 by (auto split: option.splits if_splits dest: view_of_set)
    have v': "view h' = (if c_anonymous c then view_set anonymous_header ''true'' (view h2) else view h2)"
      using h' by (auto split: if_splits dest: view_of_set)
    show ?thesis unfolding v' v2 v1 using none distinct Some
      by (auto simp: view_set_def split: option.split)
  qed
  then show "view h' consumer_header = (case who of None \<Rightarrow> [] | Some c \<Rightarrow> [c_name c])"
    and "view h' groups_header = (case who of None \<Rightarrow> [] | Some c \<Rightarrow>
      (case map_of (cf_consumers cfg) (c_id c) of
         None \<Rightarrow> [] | Some g \<Rightarrow> if g = [] then [] else [join '', '' g]))"
    and "view h' anonymous_header = (case who of None \<Rightarrow> [] | Some c \<Rightarrow> if c_anonymous c then [''true''] else [])"
    by blast+
qed

end

section \<open>Header maps as lists of lines\<close>

text \<open>An instance: the lines of the request in order, any name and value being valid.\<close>

type_synonym header_lines = "(string \<times> string) list"

definition lines_ops :: "header_lines header_target_ops" where
  "lines_ops =
     \<lparr>h_get_all = (\<lambda>h n. map snd (filter (\<lambda>(m, _). eq_ignore_ascii_case m n) h)),
      h_del = (\<lambda>n h. filter (\<lambda>(m, _). \<not> eq_ignore_ascii_case m n) h),
      h_set = (\<lambda>n v h. Some (filter (\<lambda>(m, _). \<not> eq_ignore_ascii_case m n) h @ [(n, v)])),
      h_add = (\<lambda>n v h. Some (h @ [(n, v)])),
      h_append = (\<lambda>n v h. Some (h @ [(n, v)]))\<rparr>"

lemma lines_get_filter:
  "map snd (filter (\<lambda>(m, _). eq_ignore_ascii_case m k) (filter (\<lambda>(m, _). \<not> eq_ignore_ascii_case m n) h)) =
     (if eq_ignore_ascii_case k n then [] else map snd (filter (\<lambda>(m, _). eq_ignore_ascii_case m k) h))"
  by (induction h) (auto simp: eq_ignore_ascii_case_def)

interpretation header_lines: header_target lines_ops "\<lambda>_. True" "\<lambda>_. True"
  by unfold_locales
    (auto simp: lines_ops_def view_del_def view_set_def view_append_def fun_eq_iff
      lines_get_filter [unfolded eq_ignore_ascii_case_def] eq_ignore_ascii_case_def simp del: filter_filter)

text \<open>
  C37: nobody can claim to be a consumer. On the request sent upstream, the headers that name the
  consumer, its groups and its anonymity carry exactly what the gateway worked out, one line or
  none each, for any header map of the HTTP library and whatever the client sent under these
  names in whatever case.
\<close>

theorem consumer_headers_authentic:
  assumes "header_target H valid_name valid_value" and "list_all valid_name gateway_headers"
    and "consumer_headers H who cfg h = Some h'"
  shows "h_get_all H h' consumer_header = (case who of None \<Rightarrow> [] | Some c \<Rightarrow> [c_name c]) \<and>
    h_get_all H h' groups_header = (case who of None \<Rightarrow> [] | Some c \<Rightarrow>
      (case map_of (cf_consumers cfg) (c_id c) of
         None \<Rightarrow> [] | Some g \<Rightarrow> if g = [] then [] else [join '', '' g])) \<and>
    h_get_all H h' anonymous_header =
      (case who of None \<Rightarrow> [] | Some c \<Rightarrow> if c_anonymous c then [''true''] else [])"
  by (intro conjI header_target.view_consumer_headers [OF assms])

theorem consumer_headers_authentic_witness:
  "\<exists>h'. consumer_headers lines_ops None keyed_config [(''X-Consumer-Username'', ''root''), (''a'', ''b'')] = Some h' \<and>
     h_get_all lines_ops h' consumer_header = []"
proof -
  obtain h' where h': "consumer_headers lines_ops None keyed_config
      [(''X-Consumer-Username'', ''root''), (''a'', ''b'')] = Some h'"
    by (simp add: consumer_headers_def)
  from consumer_headers_authentic [OF header_lines.header_target_axioms _ h'] h' show ?thesis
    by (simp add: list_all_iff)
qed

text \<open>
  Header edits do what their lists say, in order, on any header map of the HTTP library: for
  edits whose names and values it accepts, the lines of every name afterwards are those the
  abstract edits give, so a name no edit mentions keeps its lines, a removal or a rename removes
  every line whatever its case, and nothing else of the map has any influence.
\<close>

theorem edit_headers_refines:
  assumes "header_target H valid_name valid_value" and "writable valid_name valid_value edits"
  shows "h_get_all H (edit_headers H edits h) = edit_view edits (h_get_all H h)"
  by (rule header_target.view_edit_headers [OF assms])

theorem edit_headers_refines_witness:
  "h_get_all lines_ops (edit_headers lines_ops
     \<lparr>he_remove = [''a''], he_rename = [(''b'', ''c'')], he_replace = [], he_add = [], he_append = []\<rparr>
     [(''A'', ''1''), (''B'', ''2'')]) ''C'' = [''2'']"
  by (subst edit_headers_refines [OF header_lines.header_target_axioms])
    (simp add: writable_def, code_simp)

end
