(* ===== verification/Jwt.thy ===== *)
theory Jwt
  imports Config Failure
begin

text \<open>
  \<^verbatim>\<open>gapura-core/src/jwt.rs\<close> and \<^verbatim>\<open>gapura/src/proxy/jwt.rs\<close>: reading a key set and verifying a token
  against a policy. The \<open>jsonwebtoken\<close> library is a parameter: it reads a document into keys,
  decodes a token's header and decodes a token under a validation. A key of it is any type
  \<open>'k\<close>, an algorithm any type \<open>'a\<close>, and the claims of a token are its string-valued ones by
  name. Shows that only a policy's own keys verify a token, always with the key's algorithm and
  always with the expiry and the issuer and audience the policy names required.
\<close>

section \<open>Key sets\<close>

definition max_jwks_bytes :: nat where
  "max_jwks_bytes = 64 * 1024"

record ('k, 'a) keys =
  by_kid :: "(string \<times> ('k \<times> 'a)) list"
  anonymous_keys :: "('k \<times> 'a) list"
  skipped_keys :: nat

definition default_keys :: "('k, 'a) keys" where
  "default_keys = \<lparr>by_kid = [], anonymous_keys = [], skipped_keys = 0\<rparr>"

definition usable :: "('k, 'a) keys \<Rightarrow> nat" where
  "usable ks = length (by_kid ks) + length (anonymous_keys ks)"

definition skipped_count :: "('k, 'a) keys \<Rightarrow> nat" where
  "skipped_count ks = skipped_keys ks"

datatype jwks_error = Unreadable | NoUsableKey nat

text \<open>One key of a document, as the library reads it: material and algorithm may both be missing.\<close>

datatype curve = P256 | P384 | Ed25519 | OtherCurve

datatype key_params = EllipticCurve curve | OctetKeyPair curve | OtherParams

record ('k, 'a) jwk =
  jwk_kid :: "string option"
  jwk_key :: "'k option"
  jwk_alg :: "'a option"
  jwk_params :: key_params

text \<open>The algorithms \<open>fits\<close> tells apart, and the families of keys and algorithms.\<close>

datatype alg_class = ES256 | ES384 | EdDSA | OtherAlg

record ('k, 'a) families =
  same_family :: "'k \<Rightarrow> 'a \<Rightarrow> bool"
  class_of :: "'a \<Rightarrow> alg_class"

definition fits :: "('k, 'a) families \<Rightarrow> key_params \<Rightarrow> 'k \<Rightarrow> 'a \<Rightarrow> bool" where
  "fits fam params key alg \<longleftrightarrow>
     same_family fam key alg \<and>
     (case (params, class_of fam alg) of
        (EllipticCurve c, ES256) \<Rightarrow> c = P256
      | (EllipticCurve c, ES384) \<Rightarrow> c = P384
      | (OctetKeyPair c, EdDSA) \<Rightarrow> c = Ed25519
      | _ \<Rightarrow> True)"

definition add_jwk :: "('k, 'a) families \<Rightarrow> ('k, 'a) jwk \<Rightarrow> ('k, 'a) keys \<Rightarrow> ('k, 'a) keys" where
  "add_jwk fam jwk ks =
     (case (jwk_key jwk, jwk_alg jwk) of
        (Some k, Some alg) \<Rightarrow>
          if fits fam (jwk_params jwk) k alg then
            (case jwk_kid jwk of
               Some kid \<Rightarrow> ks\<lparr>by_kid := aput kid (k, alg) (by_kid ks)\<rparr>
             | None \<Rightarrow> ks\<lparr>anonymous_keys := anonymous_keys ks @ [(k, alg)]\<rparr>)
          else ks\<lparr>skipped_keys := skipped_keys ks + 1\<rparr>
      | _ \<Rightarrow> ks\<lparr>skipped_keys := skipped_keys ks + 1\<rparr>)"

definition keys_of_set :: "('k, 'a) families \<Rightarrow> ('k, 'a) jwk list option \<Rightarrow> jwks_error + ('k, 'a) keys" where
  "keys_of_set fam parsed =
     (case parsed of
        None \<Rightarrow> Err Unreadable
      | Some jwks \<Rightarrow>
          (let ks = fold (add_jwk fam) jwks default_keys in
           if usable ks = 0 then Err (NoUsableKey (skipped_keys ks)) else Ok ks))"

fun parse_jwks :: "jwks_error + ('k, 'a) keys \<Rightarrow> ('k, 'a) keys \<times> nat" where
  "parse_jwks (Inr ks) = (ks, skipped_count ks)"
| "parse_jwks (Inl Unreadable) = (default_keys, 1)"
| "parse_jwks (Inl (NoUsableKey n)) = (default_keys, n)"

definition compile_jwt_plugin ::
  "(string \<Rightarrow> jwks_error + ('k, 'a) keys) \<Rightarrow> plugin \<Rightarrow> (string \<times> ('k, 'a) keys) list \<times> nat
     \<Rightarrow> (string \<times> ('k, 'a) keys) list \<times> nat" where
  "compile_jwt_plugin read_keys plugin = (\<lambda>(out, skipped).
     case plugin of
       Jwt policy \<Rightarrow>
         if jp_jwks policy = [] \<and> jp_jwks_uri policy \<noteq> None then (out, skipped)
         else if jp_jwks policy \<in> fst ` set out then (out, skipped)
         else (case parse_jwks (read_keys (jp_jwks policy)) of (ks, bad) \<Rightarrow>
                 (aput (jp_jwks policy) ks out, skipped + bad))
     | _ \<Rightarrow> (out, skipped))"

definition compile_jwt ::
  "(string \<Rightarrow> jwks_error + ('k, 'a) keys) \<Rightarrow> config \<Rightarrow> (string \<times> ('k, 'a) keys) list \<times> nat" where
  "compile_jwt read_keys cfg =
     fold (compile_jwt_plugin read_keys)
       (concat (map (\<lambda>l. concat (map rr_plugins (lc_rules l))) (cf_listeners cfg))) ([], 0)"

section \<open>Verifying a token\<close>

definition bearer :: "string option \<Rightarrow> string option" where
  "bearer header =
     Option.bind header (\<lambda>v. Option.bind (split_once CHR '' '' v) (\<lambda>(scheme, token).
       if eq_ignore_ascii_case scheme ''bearer'' then Some (trim token) else None))"

record 'a validation =
  v_alg :: 'a
  v_iss :: "string option"
  v_aud :: "string option"
  v_required :: "string list"
  v_nbf :: bool

definition validation_for :: "jwt_policy \<Rightarrow> 'a \<Rightarrow> 'a validation" where
  "validation_for policy alg =
     \<lparr>v_alg = alg, v_iss = jp_issuer policy, v_aud = jp_audience policy,
      v_required = [''exp''] @ (if jp_issuer policy \<noteq> None then [''iss''] else []) @
        (if jp_audience policy \<noteq> None then [''aud''] else []),
      v_nbf = True\<rparr>"

type_synonym claims = "string \<Rightarrow> string option"

datatype decode_error = InvalidSignature | OtherError

text \<open>The two calls into the library: a token's \<open>kid\<close>, and a token under a key and a validation.\<close>

record ('k, 'a) jwt_lib =
  decode_header :: "string \<Rightarrow> string option option"
  decode_token :: "string \<Rightarrow> 'k \<Rightarrow> 'a validation \<Rightarrow> decode_error + claims"

definition candidates :: "('k, 'a) keys \<Rightarrow> string option \<Rightarrow> ('k \<times> 'a) list" where
  "candidates ks kid =
     (case Option.bind kid (map_of (by_kid ks)) of
        Some key \<Rightarrow> [key]
      | None \<Rightarrow> anonymous_keys ks)"

fun try_keys ::
  "('k, 'a) jwt_lib \<Rightarrow> jwt_policy \<Rightarrow> string \<Rightarrow> ('k \<times> 'a) list \<Rightarrow> jwt_refusal \<Rightarrow> jwt_refusal + claims" where
  "try_keys lib policy token [] failed = Err failed"
| "try_keys lib policy token ((key, alg) # rest) failed =
     (case decode_token lib token key (validation_for policy alg) of
        Ok cs \<Rightarrow> Ok cs
      | Err e \<Rightarrow> try_keys lib policy token rest (if e = InvalidSignature then JwtBadSignature else JwtClaims))"

definition verify ::
  "('k, 'a) jwt_lib \<Rightarrow> jwt_policy \<Rightarrow> ('k, 'a) keys \<Rightarrow> string option \<Rightarrow> jwt_refusal + claims" where
  "verify lib policy ks token0 =
     (case token0 of
        None \<Rightarrow> Err JwtMissing
      | Some token \<Rightarrow>
          (case decode_header lib token of
             None \<Rightarrow> Err JwtMalformed
           | Some kid \<Rightarrow>
               (let cands = candidates ks kid in
                if cands = [] then Err JwtUnknownKey
                else try_keys lib policy token cands JwtBadSignature)))"

text \<open>
  \<open>jwt_verdict\<close> of \<^verbatim>\<open>proxy/mod.rs\<close>: the values of the \<open>Authorization\<close> lines, and how the
  library reads one as text. The refusal carries its key, its reason and its challenge.
\<close>

definition jwt_verdict ::
  "('k, 'a) jwt_lib \<Rightarrow> (string \<Rightarrow> string option) \<Rightarrow> string list \<Rightarrow> jwt_policy \<Rightarrow> ('k, 'a) keys
     \<Rightarrow> (error_key \<times> string \<times> string) + claims" where
  "jwt_verdict lib to_str authorization policy ks =
     (if 2 \<le> length authorization then
        Err (AuthJwtInvalid, ''multiple_bearer'', ''Bearer error='' @ [CHR 0x22] @ ''invalid_request'' @ [CHR 0x22])
      else
        (let presented = bearer (Option.bind (case authorization of [] \<Rightarrow> None | v # _ \<Rightarrow> Some v) to_str)
         in if presented \<noteq> None \<and> usable ks = 0 then Err (AuthUnavailable, ''no_keys'', ''Bearer'')
            else case verify lib policy ks presented of
                   Ok cs \<Rightarrow> Ok cs
                 | Err r \<Rightarrow> Err (error_key_of_jwt r, jwt_refusal_as_str r, ''Bearer'')))"

section \<open>What an accepted token is\<close>

definition policy_keys :: "('k, 'a) keys \<Rightarrow> ('k \<times> 'a) set" where
  "policy_keys ks = snd ` set (by_kid ks) \<union> set (anonymous_keys ks)"

lemma candidates_subset: "set (candidates ks kid) \<subseteq> policy_keys ks"
  by (auto simp: candidates_def policy_keys_def bind_eq_Some_conv dest: map_of_SomeD split: option.splits
      intro: rev_image_eqI)

lemma try_keys_Ok:
  "try_keys lib policy token cands failed = Ok cs \<Longrightarrow>
   \<exists>(key, alg) \<in> set cands. decode_token lib token key (validation_for policy alg) = Ok cs"
  by (induction cands arbitrary: failed) (auto split: sum.splits)

text \<open>
  C38: a token is accepted only on the policy's terms. An accepting verdict means the request
  carries exactly one \<open>Authorization\<close> line, a bearer token, and the library decoded that token
  with one of the policy's own keys under that key's own algorithm, with \<open>exp\<close> required and
  \<open>nbf\<close> checked, the issuer required to be the policy's when it names one and the audience when
  it names one; and when the token's \<open>kid\<close> names a key of the policy, with that key.
\<close>

theorem jwt_verdict_sound:
  assumes "jwt_verdict lib to_str authorization policy ks = Ok cs"
  shows "\<exists>line token kid key alg. authorization = [line] \<and>
    bearer (to_str line) = Some token \<and> decode_header lib token = Some kid \<and>
    (key, alg) \<in> policy_keys ks \<and>
    (\<forall>k. Option.bind kid (map_of (by_kid ks)) = Some k \<longrightarrow> (key, alg) = k) \<and>
    (\<exists>v. decode_token lib token key v = Ok cs \<and> v_alg v = alg \<and> v_nbf v \<and>
       v_iss v = jp_issuer policy \<and> v_aud v = jp_audience policy \<and> ''exp'' \<in> set (v_required v) \<and>
       (jp_issuer policy \<noteq> None \<longrightarrow> ''iss'' \<in> set (v_required v)) \<and>
       (jp_audience policy \<noteq> None \<longrightarrow> ''aud'' \<in> set (v_required v)))"
proof -
  let ?presented = "bearer (Option.bind (case authorization of [] \<Rightarrow> None | v # _ \<Rightarrow> Some v) to_str)"
  have one: "length authorization < 2" and verified: "verify lib policy ks ?presented = Ok cs"
    using assms by (auto simp: jwt_verdict_def Let_def split: if_splits sum.splits)
  from verified obtain token kid where token: "?presented = Some token"
    and kid: "decode_header lib token = Some kid"
    and tried: "try_keys lib policy token (candidates ks kid) JwtBadSignature = Ok cs"
    by (auto simp: verify_def Let_def split: option.splits if_splits)
  from token have "authorization \<noteq> []" by (auto simp: bearer_def)
  with one obtain line where line: "authorization = [line]"
    by (cases authorization; cases "tl authorization") auto
  from try_keys_Ok [OF tried] obtain key alg where cand: "(key, alg) \<in> set (candidates ks kid)"
    and decoded: "decode_token lib token key (validation_for policy alg) = Ok cs" by auto
  have "(key, alg) \<in> policy_keys ks" using cand candidates_subset by blast
  moreover have "\<forall>k. Option.bind kid (map_of (by_kid ks)) = Some k \<longrightarrow> (key, alg) = k"
    using cand by (auto simp: candidates_def)
  moreover have "bearer (to_str line) = Some token" using token line by simp
  ultimately show ?thesis
    using line kid decoded
    by (intro exI [of _ line] exI [of _ token] exI [of _ kid] exI [of _ key] exI [of _ alg] conjI
        exI [of _ "validation_for policy alg"]) (auto simp: validation_for_def)
qed

definition toy_lib :: "(nat, nat) jwt_lib" where
  "toy_lib = \<lparr>decode_header = (\<lambda>token. if token = ''t'' then Some (Some ''k1'') else None),
     decode_token = (\<lambda>token key v. if key = 7 \<and> v_alg v = 1 then Ok (\<lambda>c. if c = ''sub'' then Some ''ana'' else None)
       else Err InvalidSignature)\<rparr>"

definition toy_policy :: jwt_policy where
  "toy_policy = \<lparr>jp_issuer = Some ''idp'', jp_audience = None, jp_jwks = ''doc'', jp_jwks_uri = None,
     jp_jwks_ca_pem = None, jp_consumer_claim = Some ''sub'', jp_workspace = None\<rparr>"

theorem jwt_verdict_sound_witness:
  "\<exists>cs v. jwt_verdict toy_lib Some [''Bearer t''] toy_policy
      \<lparr>by_kid = [(''k1'', (7, 1))], anonymous_keys = [(8, 2)], skipped_keys = 0\<rparr> = Ok cs \<and>
    ''iss'' \<in> set (v_required (v :: nat validation))"
proof -
  let ?ks = "\<lparr>by_kid = [(''k1'', (7, 1))], anonymous_keys = [(8, 2)], skipped_keys = 0\<rparr> :: (nat, nat) keys"
  have "\<exists>cs. jwt_verdict toy_lib Some [''Bearer t''] toy_policy ?ks = Ok cs"
  proof -
    have "bearer (Some ''Bearer t'') = Some ''t''" by code_simp
    then show ?thesis
      by (simp add: jwt_verdict_def verify_def candidates_def toy_lib_def usable_def validation_for_def)
  qed
  then obtain cs where cs: "jwt_verdict toy_lib Some [''Bearer t''] toy_policy ?ks = Ok cs" ..
  from jwt_verdict_sound [OF this] cs show ?thesis by (fastforce simp: toy_policy_def)
qed

end
