(* ===== verification/Rate_Limit.thy ===== *)
theory Rate_Limit
  imports Config Machine
begin

text \<open>
  \<^verbatim>\<open>gapura/src/proxy/rate_limit.rs\<close>: request limits. The table of windows is a state machine whose
  events are checks with the clock reading; the mutex makes each check one step. SHA-256 is a
  parameter. Shows that a limit admits exactly its number of requests per client and window as
  long as the clock does not go back, however sweeps and other clients interleave, and that the
  header windows of one name are counted exactly and never exceed their cap.
\<close>

section \<open>Clients\<close>

datatype limit_outcome = Allowed | Limited (limited_limit: u32) (retry_after_secs: u64)

datatype client = ClientIp ip_addr | ClientConsumer string | ClientHeader string

definition client_header :: "(string \<Rightarrow> string) \<Rightarrow> string \<Rightarrow> client" where
  "client_header sha val = ClientHeader (take 16 (sha val))"

text \<open>\<open>lines\<close> gives the values of a header's lines, in order (\<open>HeaderMap::get_all\<close>).\<close>

definition client_of_request ::
  "(string \<Rightarrow> string) \<Rightarrow> limit_by \<Rightarrow> ip_addr option \<Rightarrow> string option \<Rightarrow> (string \<Rightarrow> string list) \<Rightarrow> client option" where
  "client_of_request sha by ip consumer lines =
     (let named = (case by of
          ByIp \<Rightarrow> None
        | ByConsumer \<Rightarrow> map_option ClientConsumer consumer
        | ByHeader name \<Rightarrow>
            (case lines name of
               [line] \<Rightarrow> if line \<noteq> [] then Some (client_header sha line) else None
             | _ \<Rightarrow> None))
      in case named of Some c \<Rightarrow> Some c | None \<Rightarrow> map_option ClientIp ip)"

definition grouped :: "ip_addr \<Rightarrow> ip_addr" where
  "grouped ip = (case to_canonical ip of V6 a \<Rightarrow> V6 (push_bit 64 (drop_bit 64 a)) | V4 a \<Rightarrow> V4 a)"

section \<open>The table\<close>

definition sweep_floor :: nat where "sweep_floor = 65536"
definition header_windows_cap :: nat where "header_windows_cap = 65536"
definition capped_sweep_ms :: u64 where "capped_sweep_ms = 1000"

record window =
  ends_ms :: u64
  wcount :: u32

type_synonym window_key = "string \<times> client"

record limit_table =
  windows :: "(window_key \<times> window) list"
  sweep_at :: nat
  header_windows :: "(string \<times> nat) list"
  swept_ms :: u64

definition default_table :: limit_table where
  "default_table = \<lparr>windows = [], sweep_at = sweep_floor, header_windows = [], swept_ms = 0\<rparr>"

definition held :: "limit_table \<Rightarrow> string \<Rightarrow> nat" where
  "held t name = (case map_of (header_windows t) name of Some n \<Rightarrow> n | None \<Rightarrow> 0)"

fun is_header :: "client \<Rightarrow> bool" where
  "is_header (ClientHeader _) = True"
| "is_header _ = False"

definition add_header_window :: "string \<Rightarrow> (string \<times> nat) list \<Rightarrow> (string \<times> nat) list" where
  "add_header_window name counts =
     (case map_of counts name of Some n \<Rightarrow> aput name (n + 1) counts | None \<Rightarrow> aput name 1 counts)"

definition sweep :: "u64 \<Rightarrow> limit_table \<Rightarrow> limit_table" where
  "sweep now_ms t =
     (let kept = filter (\<lambda>(_, w). now_ms < ends_ms w) (windows t) in
      \<lparr>windows = kept,
       sweep_at = max (length kept * 2) sweep_floor,
       header_windows = fold (\<lambda>(name, c) counts. if is_header c then add_header_window name counts else counts)
         (keys_of kept) [],
       swept_ms = now_ms\<rparr>)"

section \<open>One check\<close>

definition window_end :: "rate_limit \<Rightarrow> u64 \<Rightarrow> u64" where
  "window_end rl now_ms = (let window_ms = max (rl_window_ms rl) 1 in (now_ms div window_ms + 1) * window_ms)"

text \<open>
  The sweeps and the choice of the key: the client's own, or its address when the header windows
  of the name are full, or none when there is no address either.
\<close>

fun window_client :: "client \<Rightarrow> client" where
  "window_client (ClientIp addr) = ClientIp (grouped addr)"
| "window_client named = named"

definition growth_sweep :: "u64 \<Rightarrow> limit_table \<Rightarrow> limit_table" where
  "growth_sweep now_ms t = (if sweep_at t < length (windows t) then sweep now_ms t else t)"

definition cap_sweep :: "string \<Rightarrow> u64 \<Rightarrow> limit_table \<Rightarrow> limit_table" where
  "cap_sweep name now_ms t =
     (let due = now_ms < swept_ms t \<or> saturating_add (swept_ms t) capped_sweep_ms \<le> now_ms
      in if header_windows_cap \<le> held t name \<and> due then sweep now_ms t else t)"

definition resolve_key ::
  "string \<Rightarrow> client \<Rightarrow> ip_addr option \<Rightarrow> u64 \<Rightarrow> limit_table \<Rightarrow> limit_table \<times> window_key option" where
  "resolve_key name c0 ip now_ms t0 =
     (let c = window_client c0; t1 = growth_sweep now_ms t0
      in if is_header c \<and> (name, c) \<notin> fst ` set (windows t1) then
           (let t2 = cap_sweep name now_ms t1
            in if header_windows_cap \<le> held t2 name then
                 (t2, map_option (\<lambda>addr. (name, ClientIp (grouped addr))) ip)
               else (t2\<lparr>header_windows := add_header_window name (header_windows t2)\<rparr>, Some (name, c)))
         else (t1, Some (name, c)))"

definition count_request ::
  "window_key \<Rightarrow> rate_limit \<Rightarrow> u64 \<Rightarrow> limit_table \<Rightarrow> limit_table \<times> limit_outcome" where
  "count_request key rl now_ms t =
     (let ends = window_end rl now_ms;
          w0 = (case map_of (windows t) key of Some w \<Rightarrow> w | None \<Rightarrow> \<lparr>ends_ms = ends, wcount = 0\<rparr>);
          w = (if ends_ms w0 \<noteq> ends then \<lparr>ends_ms = ends, wcount = 0\<rparr> else w0)
      in if rl_limit rl \<le> wcount w then
           (t\<lparr>windows := aput key w (windows t)\<rparr>,
            Limited (rl_limit rl) (max (saturating_sub ends now_ms div 1000) 1))
         else (t\<lparr>windows := aput key (w\<lparr>wcount := wcount w + 1\<rparr>) (windows t)\<rparr>, Allowed))"

definition check_at ::
  "string \<Rightarrow> client \<Rightarrow> ip_addr option \<Rightarrow> rate_limit \<Rightarrow> u64 \<Rightarrow> limit_table \<Rightarrow> limit_table \<times> limit_outcome" where
  "check_at name c ip rl now_ms t =
     (case resolve_key name c ip now_ms t of
        (t', None) \<Rightarrow> (t', Allowed)
      | (t', Some key) \<Rightarrow> count_request key rl now_ms t')"

section \<open>The header windows are counted and capped\<close>

definition header_keys :: "string \<Rightarrow> (window_key \<times> window) list \<Rightarrow> nat" where
  "header_keys name ws = length (filter (\<lambda>(n, c). n = name \<and> is_header c) (keys_of ws))"

definition table_ok :: "limit_table \<Rightarrow> bool" where
  "table_ok t \<longleftrightarrow>
     distinct (keys_of (windows t)) \<and>
     (\<forall>name. held t name = header_keys name (windows t)) \<and>
     (\<forall>name. header_keys name (windows t) \<le> header_windows_cap)"

type_synonym check_event = "string \<times> client \<times> ip_addr option \<times> rate_limit \<times> u64"

definition check_step :: "check_event \<Rightarrow> limit_table \<Rightarrow> limit_table \<times> limit_outcome" where
  "check_step = (\<lambda>(name, c, ip, rl, now_ms) t. check_at name c ip rl now_ms t)"

definition tally :: "(string \<times> nat) list \<Rightarrow> string \<Rightarrow> nat" where
  "tally counts n = (case map_of counts n of Some k \<Rightarrow> k | None \<Rightarrow> 0)"

lemma held_tally: "held t = tally (header_windows t)"
  by (simp add: fun_eq_iff held_def tally_def)

lemma tally_add: "tally (add_header_window name counts) n = tally counts n + (if n = name then 1 else 0)"
  by (auto simp: tally_def add_header_window_def split: option.splits)

lemma tally_headers:
  "tally (fold (\<lambda>(name, c) counts. if is_header c then add_header_window name counts else counts) ks counts) n
   = tally counts n + length (filter (\<lambda>(m, c). m = n \<and> is_header c) ks)"
proof (induction ks arbitrary: counts)
  case (Cons k ks)
  then show ?case by (cases k) (simp add: tally_add)
qed simp

lemma held_sweep: "held (sweep now_ms t) name = header_keys name (windows (sweep now_ms t))"
  unfolding held_tally by (simp add: sweep_def header_keys_def Let_def tally_headers) (simp add: tally_def)

lemma header_keys_filter: "header_keys name (filter P ws) \<le> header_keys name ws"
  by (induction ws) (auto simp: header_keys_def)

lemma header_keys_aput:
  "header_keys n (aput (m, c) w ws) =
     header_keys n ws + (if (m, c) \<notin> fst ` set ws \<and> m = n \<and> is_header c then 1 else 0)"
  by (simp add: header_keys_def keys_aput)

lemma table_ok_sweep [wf_intros]: "table_ok t \<Longrightarrow> table_ok (sweep now_ms t)"
proof -
  assume ok: "table_ok t"
  have "header_keys name (windows (sweep now_ms t)) \<le> header_windows_cap" for name
  proof -
    have "header_keys name (windows (sweep now_ms t)) \<le> header_keys name (windows t)"
      by (simp add: sweep_def Let_def header_keys_filter)
    also have "\<dots> \<le> header_windows_cap" using ok by (metis table_ok_def)
    finally show ?thesis .
  qed
  moreover have "distinct (keys_of (windows (sweep now_ms t)))"
    using ok by (simp add: table_ok_def sweep_def Let_def)
  ultimately show ?thesis by (simp add: table_ok_def held_sweep)
qed

lemma windows_count_request:
  "\<exists>w. fst (count_request key rl now_ms t) = t\<lparr>windows := aput key w (windows t)\<rparr>"
  by (auto simp: count_request_def Let_def)

lemma table_ok_count [wf_intros]:
  assumes "table_ok t" and "is_header (snd key) \<Longrightarrow> key \<in> fst ` set (windows t)"
  shows "table_ok (fst (count_request key rl now_ms t))"
proof -
  obtain w where "fst (count_request key rl now_ms t) = t\<lparr>windows := aput key w (windows t)\<rparr>"
    using windows_count_request by blast
  moreover have "header_keys n (aput key w (windows t)) = header_keys n (windows t)" for n
    using assms(2) by (cases key) (auto simp: header_keys_aput)
  ultimately show ?thesis using assms(1) by (simp add: table_ok_def held_def)
qed

lemma table_ok_open:
  assumes "table_ok t" and "held t name < header_windows_cap" and "(name, c) \<notin> fst ` set (windows t)"
    and "is_header c"
  shows "table_ok (fst (count_request (name, c) rl now_ms
    (t\<lparr>header_windows := add_header_window name (header_windows t)\<rparr>)))"
proof -
  let ?t = "t\<lparr>header_windows := add_header_window name (header_windows t)\<rparr>"
  obtain w where "fst (count_request (name, c) rl now_ms ?t) = ?t\<lparr>windows := aput (name, c) w (windows t)\<rparr>"
    using windows_count_request [of "(name, c)" rl now_ms ?t] by auto
  with assms show ?thesis
    by (auto simp: table_ok_def held_tally tally_add header_keys_aput)
qed

lemma table_ok_growth [wf_intros]: "table_ok t \<Longrightarrow> table_ok (growth_sweep now_ms t)"
  by (simp add: growth_sweep_def wf_intros)

lemma table_ok_cap [wf_intros]: "table_ok t \<Longrightarrow> table_ok (cap_sweep name now_ms t)"
  by (simp add: cap_sweep_def Let_def wf_intros)

lemma cap_sweep_keys: "k \<notin> fst ` set (windows t) \<Longrightarrow> k \<notin> fst ` set (windows (cap_sweep name now_ms t))"
  by (auto simp: cap_sweep_def sweep_def Let_def)

lemma table_ok_check [wf_intros]:
  assumes "table_ok t0"
  shows "table_ok (fst (check_at name c0 ip rl now_ms t0))"
proof -
  let ?c = "window_client c0" and ?t1 = "growth_sweep now_ms t0"
  let ?t2 = "cap_sweep name now_ms ?t1"
  have ok: "table_ok ?t1" "table_ok ?t2" using assms by (simp_all add: wf_intros)
  show ?thesis
  proof (cases "is_header ?c \<and> (name, ?c) \<notin> fst ` set (windows ?t1)")
    case False
    then have "check_at name c0 ip rl now_ms t0 = count_request (name, ?c) rl now_ms ?t1"
      by (auto simp: check_at_def resolve_key_def Let_def)
    with False ok(1) show ?thesis by (auto intro: table_ok_count)
  next
    case True
    note new = cap_sweep_keys [OF True [THEN conjunct2], of name now_ms]
    show ?thesis
    proof (cases "header_windows_cap \<le> held ?t2 name")
      case full: True
      with True ok(2) show ?thesis
        by (cases ip) (auto simp: check_at_def resolve_key_def Let_def intro: table_ok_count)
    next
      case False
      with True new ok(2) show ?thesis
        by (simp add: check_at_def resolve_key_def Let_def table_ok_open not_le)
    qed
  qed
qed

interpretation limiter: machine default_table check_step table_ok
proof
  show "table_ok default_table"
    by (simp add: table_ok_def default_table_def held_def header_keys_def header_windows_cap_def)
  show "table_ok (fst (check_step e t))" if "table_ok t" for e t
    using that by (cases e) (simp add: check_step_def wf_intros)
qed

text \<open>
  The header windows are bounded. After any sequence of checks, the table has one window per
  name and client, the counter of a name is exactly the number of windows it has for header
  values, and that never exceeds 65536: a caller that makes up a header value per request cannot
  grow the table further.
\<close>

theorem header_windows_bounded:
  "let t = run_state check_step events default_table in
     distinct (keys_of (windows t)) \<and> held t name = header_keys name (windows t) \<and>
     header_keys name (windows t) \<le> 65536"
  using limiter.run_ok [of events] by (simp add: table_ok_def Let_def header_windows_cap_def)

section \<open>A limit admits exactly its number\<close>

text \<open>
  What a check spends: the key it counted under and the end of its window, when it was allowed.
  \<open>spent\<close> collects this over a run; it is the history the limit is judged against.
\<close>

definition charged :: "check_event \<Rightarrow> limit_table \<Rightarrow> (window_key \<times> u64) list" where
  "charged = (\<lambda>(name, c, ip, rl, now_ms) t.
     case snd (resolve_key name c ip now_ms t) of
       None \<Rightarrow> []
     | Some key \<Rightarrow> if snd (check_at name c ip rl now_ms t) = Allowed then [(key, window_end rl now_ms)] else [])"

fun spent :: "check_event list \<Rightarrow> limit_table \<Rightarrow> (window_key \<times> u64) list" where
  "spent [] t = []"
| "spent (e # es) t = charged e t @ spent es (fst (check_step e t))"

lemma spent_snoc: "spent (es @ [e]) t = spent es t @ charged e (run_state check_step es t)"
  by (induction es arbitrary: t) (auto simp: run_steps_Cons simp del: run_steps.simps(2))

definition spent_in :: "limit_table \<Rightarrow> window_key \<Rightarrow> u64 \<Rightarrow> nat" where
  "spent_in t key e =
     (case map_of (windows t) key of
        Some w \<Rightarrow> if ends_ms w = e then unat (wcount w) else 0
      | None \<Rightarrow> 0)"

definition window_length :: "rate_limit \<Rightarrow> nat" where
  "window_length rl = unat (max (rl_window_ms rl) 1)"

lemma window_length_pos [simp]: "0 < window_length rl"
proof -
  have "(1 :: u64) \<le> max (rl_window_ms rl) 1" by simp
  then have "unat (1 :: u64) \<le> unat (max (rl_window_ms rl) 1)" by (simp only: word_le_nat_alt)
  then show ?thesis by (simp add: window_length_def)
qed

lemma window_end_unat:
  assumes "unat now_ms + window_length rl < 2 ^ 64"
  shows "unat (window_end rl now_ms) = (unat now_ms div window_length rl + 1) * window_length rl"
proof -
  let ?w = "max (rl_window_ms rl) 1"
  have "(unat now_ms div window_length rl + 1) * window_length rl \<le> unat now_ms + window_length rl"
    by (simp add: div_times_less_eq_dividend)
  then have small: "(unat now_ms div window_length rl + 1) * window_length rl < 2 ^ 64"
    using assms by (rule le_less_trans)
  have "unat (now_ms div ?w) = unat now_ms div window_length rl"
    by (simp add: unat_div window_length_def)
  then have "of_nat ((unat now_ms div window_length rl + 1) * window_length rl) =
      (of_nat (unat (now_ms div ?w)) + 1) * (of_nat (unat ?w) :: u64)"
    by (simp add: window_length_def distrib_right)
  also have "\<dots> = window_end rl now_ms" by (simp add: window_end_def Let_def)
  finally have "window_end rl now_ms = of_nat ((unat now_ms div window_length rl + 1) * window_length rl)" ..
  moreover have "unat (of_nat n :: u64) = n" if "n < 2 ^ 64" for n
    using that by (intro unat_of_nat_small) simp
  ultimately show ?thesis using small by (simp only:)
qed

lemma window_end_unique:
  fixes e now W :: nat
  assumes "W dvd e" and "now < e" and "e \<le> now + W" and "0 < W"
  shows "e = (now div W + 1) * W"
proof -
  obtain j where e: "e = j * W" using assms(1) by (metis dvd_div_mult_self)
  have "now div W < j" using assms(2,4) e by (simp add: div_less_iff_less_mult)
  moreover have "j \<le> now div W + 1"
  proof (cases j)
    case (Suc i)
    then have "i * W \<le> now" using assms(3) e by simp
    then have "i \<le> now div W" using assms(4) by (simp add: less_eq_div_iff_mult_less_eq)
    with Suc show ?thesis by simp
  qed simp
  ultimately have "j = now div W + 1" by simp
  then show ?thesis by (simp only: e)
qed

text \<open>The tables a key choice may leave: ended windows gone, everything else as it was.\<close>

definition shrinks :: "u64 \<Rightarrow> limit_table \<Rightarrow> limit_table \<Rightarrow> bool" where
  "shrinks now_ms t t' \<longleftrightarrow>
     (\<forall>k w. map_of (windows t') k = Some w \<longrightarrow> map_of (windows t) k = Some w) \<and>
     (\<forall>k w. map_of (windows t) k = Some w \<and> now_ms < ends_ms w \<longrightarrow> map_of (windows t') k = Some w)"

lemma shrinks_cong: "windows u = windows v \<Longrightarrow> shrinks now_ms t u \<longleftrightarrow> shrinks now_ms t v"
  by (simp only: shrinks_def)

lemma shrinks_refl [simp]: "shrinks now_ms t t"
  unfolding shrinks_def by blast

lemma shrinks_trans: "shrinks now_ms t u \<Longrightarrow> shrinks now_ms u v \<Longrightarrow> shrinks now_ms t v"
  unfolding shrinks_def by blast

lemma shrinks_old: "shrinks now_ms t t' \<Longrightarrow> map_of (windows t') k = Some w \<Longrightarrow> map_of (windows t) k = Some w"
  unfolding shrinks_def by blast

lemma shrinks_live:
  "shrinks now_ms t t' \<Longrightarrow> map_of (windows t) k = Some w \<Longrightarrow> now_ms < ends_ms w \<Longrightarrow> map_of (windows t') k = Some w"
  unfolding shrinks_def by blast

lemma map_of_sweep:
  "table_ok t \<Longrightarrow> map_of (windows (sweep now_ms t)) k =
     (case map_of (windows t) k of None \<Rightarrow> None | Some w \<Rightarrow> if now_ms < ends_ms w then Some w else None)"
  using map_of_filter_snd [of "windows t" "\<lambda>_ w. now_ms < ends_ms w" k]
  by (simp add: table_ok_def sweep_def Let_def)

lemma shrinks_sweep: "table_ok t \<Longrightarrow> shrinks now_ms t (sweep now_ms t)"
  unfolding shrinks_def
  by (intro conjI allI impI; simp only: map_of_sweep) (simp_all split: option.splits if_splits)

lemma shrinks_resolve:
  assumes "table_ok t"
  shows "shrinks now_ms t (fst (resolve_key name c ip now_ms t))"
proof -
  have one: "shrinks now_ms t (growth_sweep now_ms t)"
    using assms by (simp add: growth_sweep_def shrinks_sweep)
  have "table_ok (growth_sweep now_ms t)" using assms by (rule table_ok_growth)
  then have "shrinks now_ms (growth_sweep now_ms t) (cap_sweep name now_ms (growth_sweep now_ms t))"
    by (simp add: cap_sweep_def Let_def shrinks_sweep)
  note two = shrinks_trans [OF one this]
  then have "shrinks now_ms t (cap_sweep name now_ms (growth_sweep now_ms t)\<lparr>header_windows := hs\<rparr>)" for hs
    by (rule shrinks_cong [THEN iffD1, rotated]) simp
  with one two show ?thesis by (simp only: resolve_key_def Let_def if_distrib fst_conv) (simp split: if_split)
qed

lemma shrinks_spent:
  assumes "shrinks now_ms t t'" and "now_ms < e"
  shows "spent_in t' k e = spent_in t k e"
proof (cases "map_of (windows t) k")
  case None
  then have "map_of (windows t') k = None" using shrinks_old [OF assms(1)] by (metis not_None_eq)
  with None show ?thesis by (simp only: spent_in_def)
next
  case (Some w)
  show ?thesis
  proof (cases "now_ms < ends_ms w")
    case True
    from shrinks_live [OF assms(1) Some True] Some show ?thesis by (simp only: spent_in_def)
  next
    case False
    then have "ends_ms w \<noteq> e" using assms(2) by auto
    moreover have "map_of (windows t') k = None \<or> map_of (windows t') k = Some w"
      using shrinks_old [OF assms(1)] Some by (metis not_None_eq option.inject)
    ultimately show ?thesis using Some by (auto simp only: spent_in_def option.simps if_False)
  qed
qed

lemma resolve_key_name: "snd (resolve_key name c ip now_ms t) = Some k \<Longrightarrow> fst k = name"
  by (auto simp: resolve_key_def Let_def split: if_splits)

text \<open>
  The history and the table agree on the windows of one name that have not ended: for the rate
  limit \<open>rl\<close> the name always had, at clock \<open>T\<close>.
\<close>

definition agrees :: "string \<Rightarrow> rate_limit \<Rightarrow> u64 \<Rightarrow> (window_key \<times> u64) list \<Rightarrow> limit_table \<Rightarrow> bool" where
  "agrees name rl T log t \<longleftrightarrow>
     (\<forall>c w. map_of (windows t) (name, c) = Some w \<longrightarrow>
        window_length rl dvd unat (ends_ms w) \<and> unat (ends_ms w) \<le> unat T + window_length rl) \<and>
     (\<forall>c e. T < e \<longrightarrow> count_list log ((name, c), e) = spent_in t (name, c) e) \<and>
     (\<forall>c e. count_list log ((name, c), e) \<le> unat (rl_limit rl))"

lemma agrees_shrinks:
  assumes agrees: "agrees name rl T log t" and T: "T \<le> now_ms" and shrinks: "shrinks now_ms t t'"
  shows "agrees name rl now_ms log t'"
  unfolding agrees_def
proof (intro conjI allI impI)
  fix c w assume "map_of (windows t') (name, c) = Some w"
  then have "map_of (windows t) (name, c) = Some w" by (rule shrinks_old [OF shrinks])
  with agrees show "window_length rl dvd unat (ends_ms w)" unfolding agrees_def by blast
  from agrees \<open>map_of (windows t) (name, c) = Some w\<close>
  have "unat (ends_ms w) \<le> unat T + window_length rl" unfolding agrees_def by blast
  also have "unat T \<le> unat now_ms" using T by (simp only: word_le_nat_alt)
  finally show "unat (ends_ms w) \<le> unat now_ms + window_length rl" by simp
next
  fix c e assume e: "now_ms < e"
  with T have "T < e" by (rule order.strict_trans1)
  with agrees have "count_list log ((name, c), e) = spent_in t (name, c) e" unfolding agrees_def by blast
  then show "count_list log ((name, c), e) = spent_in t' (name, c) e" by (simp only: shrinks_spent [OF shrinks e])
next
  fix c e show "count_list log ((name, c), e) \<le> unat (rl_limit rl)"
    using agrees unfolding agrees_def by blast
qed

text \<open>In an agreeing table a window of the name that has not ended is the current one.\<close>

lemma agrees_current:
  assumes "agrees name rl now_ms log t" and "map_of (windows t) (name, c) = Some w"
    and "now_ms < ends_ms w" and "unat now_ms + window_length rl < 2 ^ 64"
  shows "ends_ms w = window_end rl now_ms"
proof -
  have "window_length rl dvd unat (ends_ms w)" and "unat (ends_ms w) \<le> unat now_ms + window_length rl"
    using assms(1,2) unfolding agrees_def by blast+
  moreover have "unat now_ms < unat (ends_ms w)" using assms(3) by (simp add: word_less_nat_alt)
  ultimately have "unat (ends_ms w) = unat (window_end rl now_ms)"
    using window_end_unique [of "window_length rl" "unat (ends_ms w)" "unat now_ms"]
    by (simp only: window_end_unat [OF assms(4)] window_length_pos)
  then show ?thesis by (simp only: word_unat_eq_iff)
qed

lemma window_end_after:
  assumes "unat now_ms + window_length rl < 2 ^ 64"
  shows "now_ms < window_end rl now_ms" and "unat (window_end rl now_ms) \<le> unat now_ms + window_length rl"
    and "window_length rl dvd unat (window_end rl now_ms)"
proof -
  note u = window_end_unat [OF assms]
  have "unat now_ms < (unat now_ms div window_length rl + 1) * window_length rl"
    using dividend_less_div_times [of "window_length rl" "unat now_ms"] by simp
  then show "now_ms < window_end rl now_ms" by (simp only: word_less_nat_alt u)
  show "unat (window_end rl now_ms) \<le> unat now_ms + window_length rl"
    unfolding u by (simp add: div_times_less_eq_dividend)
  show "window_length rl dvd unat (window_end rl now_ms)" unfolding u by simp
qed

text \<open>The window a check counts in, after a possible start over, holds what the history spent.\<close>

definition current_window :: "limit_table \<Rightarrow> window_key \<Rightarrow> u64 \<Rightarrow> window" where
  "current_window t key ends =
     (case map_of (windows t) key of
        Some w \<Rightarrow> if ends_ms w \<noteq> ends then \<lparr>ends_ms = ends, wcount = 0\<rparr> else w
      | None \<Rightarrow> \<lparr>ends_ms = ends, wcount = 0\<rparr>)"

lemma current_window:
  "ends_ms (current_window t key ends) = ends"
  "unat (wcount (current_window t key ends)) = spent_in t key ends"
  by (auto simp: current_window_def spent_in_def split: option.split)

lemma count_request_current:
  "count_request key rl now_ms t =
     (let ends = window_end rl now_ms; w = current_window t key ends in
      if unat (rl_limit rl) \<le> spent_in t key ends then
        (t\<lparr>windows := aput key w (windows t)\<rparr>,
         Limited (rl_limit rl) (max (saturating_sub ends now_ms div 1000) 1))
      else (t\<lparr>windows := aput key (w\<lparr>wcount := wcount w + 1\<rparr>) (windows t)\<rparr>, Allowed))"
proof -
  have "rl_limit rl \<le> wcount (current_window t key ends) \<longleftrightarrow> unat (rl_limit rl) \<le> spent_in t key ends" for ends
    by (simp only: word_le_nat_alt current_window(2))
  moreover have "count_request key rl now_ms t =
     (let ends = window_end rl now_ms; w = current_window t key ends in
      if rl_limit rl \<le> wcount w then
        (t\<lparr>windows := aput key w (windows t)\<rparr>,
         Limited (rl_limit rl) (max (saturating_sub ends now_ms div 1000) 1))
      else (t\<lparr>windows := aput key (w\<lparr>wcount := wcount w + 1\<rparr>) (windows t)\<rparr>, Allowed))"
    unfolding count_request_def Let_def by (simp add: current_window_def split: option.split)
  ultimately show ?thesis by (simp only: Let_def)
qed

lemma spent_in_aput:
  "spent_in (t\<lparr>windows := aput key w (windows t)\<rparr>) k e =
     (if k = key then (if ends_ms w = e then unat (wcount w) else 0) else spent_in t k e)"
  by (simp add: spent_in_def)

lemma agrees_other_name:
  assumes "agrees name rl now_ms log t" and "fst key \<noteq> name"
  shows "agrees name rl now_ms (log @ replicate n (key, e)) (t\<lparr>windows := aput key w (windows t)\<rparr>)"
proof -
  have ne: "(name, c) \<noteq> key" for c using assms(2) by auto
  have "count_list (replicate n (key, e)) ((name, c), e') = 0" for c e'
    using ne [of c] by (induction n) auto
  then show ?thesis using assms(1) ne unfolding agrees_def by (simp add: spent_in_aput)
qed

lemma agrees_count:
  fixes c :: client
  assumes agrees: "agrees name rl now_ms log t" and small: "unat now_ms + window_length rl < 2 ^ 64"
  defines "ends \<equiv> window_end rl now_ms" and "key \<equiv> (name, c)"
  defines "out \<equiv> count_request key rl now_ms t"
  shows "agrees name rl now_ms (log @ (if snd out = Allowed then [(key, ends)] else [])) (fst out)"
    and "snd out = Allowed \<longleftrightarrow> count_list log (key, ends) < unat (rl_limit rl)"
proof -
  have now: "now_ms < ends" unfolding ends_def by (rule window_end_after(1) [OF small])
  have log: "now_ms < e \<Longrightarrow> count_list log ((name, c'), e) = spent_in t (name, c') e" for c' e
    using agrees unfolding agrees_def by blast
  have none: "spent_in t key e = 0" if "now_ms < e" and "e \<noteq> ends" for e
    using agrees_current [OF agrees _ _ small, of c] that
    by (auto simp: spent_in_def key_def ends_def split: option.split)
  let ?w = "current_window t key ends"
  have step: "out = (if unat (rl_limit rl) \<le> spent_in t key ends then
        (t\<lparr>windows := aput key ?w (windows t)\<rparr>, Limited (rl_limit rl) (max (saturating_sub ends now_ms div 1000) 1))
      else (t\<lparr>windows := aput key (?w\<lparr>wcount := wcount ?w + 1\<rparr>) (windows t)\<rparr>, Allowed))"
    by (simp only: out_def count_request_current Let_def ends_def)
  then show allowed: "snd out = Allowed \<longleftrightarrow> count_list log (key, ends) < unat (rl_limit rl)"
    using log [OF now, of c] by (simp add: key_def)
  have inc: "unat (wcount ?w + 1) = spent_in t key ends + 1" if "spent_in t key ends < unat (rl_limit rl)"
  proof -
    have "unat (wcount ?w) < unat (rl_limit rl)" using that by (simp only: current_window(2))
    then have "wcount ?w \<noteq> - 1" by (metis word_less_nat_alt word_order.extremum_strict)
    from unat_plus_1 [OF this] show ?thesis by (simp only: current_window(2))
  qed
  show "agrees name rl now_ms (log @ (if snd out = Allowed then [(key, ends)] else [])) (fst out)"
    unfolding agrees_def
  proof (intro conjI allI impI)
    fix c' w assume w: "map_of (windows (fst out)) (name, c') = Some w"
    have "ends_ms w = ends \<or> map_of (windows t) (name, c') = Some w"
      using w unfolding step by (auto simp: current_window(1) split: if_splits)
    then show "window_length rl dvd unat (ends_ms w)"
      and "unat (ends_ms w) \<le> unat now_ms + window_length rl"
      using window_end_after [OF small] agrees unfolding agrees_def ends_def by metis+
  next
    fix c' e assume e: "now_ms < e"
    show "count_list (log @ (if snd out = Allowed then [(key, ends)] else [])) ((name, c'), e) =
        spent_in (fst out) (name, c') e"
      using log [OF e, of c'] none [OF e] inc unfolding step
      by (auto simp: spent_in_aput current_window key_def)
  next
    fix c' e show "count_list (log @ (if snd out = Allowed then [(key, ends)] else [])) ((name, c'), e)
        \<le> unat (rl_limit rl)"
      using agrees allowed unfolding agrees_def by (auto simp: key_def Suc_le_eq)
  qed
qed

text \<open>One check keeps the agreement, whichever name it is for.\<close>

lemma agrees_check:
  assumes ok: "table_ok t" and agrees: "agrees N R T log t" and T: "T \<le> now_ms"
    and small: "unat now_ms + window_length R < 2 ^ 64" and same: "name = N \<Longrightarrow> rl = R"
  shows "agrees N R now_ms (log @ charged (name, c, ip, rl, now_ms) t) (fst (check_at name c ip rl now_ms t))"
proof -
  obtain t' k where res: "resolve_key name c ip now_ms t = (t', k)" by (cases "resolve_key name c ip now_ms t")
  have "shrinks now_ms t t'" using shrinks_resolve [OF ok, of now_ms name c ip] by (simp add: res)
  note base = agrees_shrinks [OF agrees T this]
  show ?thesis
  proof (cases k)
    case None
    with base res show ?thesis by (simp add: check_at_def charged_def)
  next
    case (Some key)
    have check: "check_at name c ip rl now_ms t = count_request key rl now_ms t'"
      by (simp add: check_at_def res Some)
    have charged: "charged (name, c, ip, rl, now_ms) t =
        (if snd (count_request key rl now_ms t') = Allowed then [(key, window_end rl now_ms)] else [])"
      by (simp add: charged_def res Some check)
    have name: "fst key = name" using resolve_key_name [of name c ip now_ms t key] res Some by simp
    show ?thesis
    proof (cases "name = N")
      case True
      with name obtain c' where key: "key = (N, c')" by (cases key) auto
      from agrees_count(1) [OF base small, of c'] show ?thesis
        unfolding check charged unfolding key same [OF True] .
    next
      case False
      obtain w where w: "fst (count_request key rl now_ms t') = t'\<lparr>windows := aput key w (windows t')\<rparr>"
        using windows_count_request by blast
      have other: "fst key \<noteq> N" using False name by simp
      show ?thesis unfolding check charged w
        using agrees_other_name [OF base other, of 1] agrees_other_name [OF base other, of 0] by simp
    qed
  qed
qed

abbreviation event_time :: "check_event \<Rightarrow> u64" where
  "event_time e \<equiv> snd (snd (snd (snd e)))"

text \<open>
  A history the theorem is about: the clock does not go back, does not come within a window of
  the end of its range, and every check under the name \<open>N\<close> uses the limit \<open>R\<close>.
\<close>

definition steady :: "string \<Rightarrow> rate_limit \<Rightarrow> check_event list \<Rightarrow> bool" where
  "steady N R es \<longleftrightarrow>
     sorted (map event_time es) \<and>
     list_all (\<lambda>(name, _, _, rl, now_ms).
       (name = N \<longrightarrow> rl = R) \<and> unat now_ms + window_length R < 2 ^ 64) es"

lemma agrees_run:
  "steady N R es \<Longrightarrow>
     \<exists>T. agrees N R T (spent es default_table) (run_state check_step es default_table) \<and>
         (\<forall>e. steady N R (es @ [e]) \<longrightarrow> T \<le> event_time e)"
proof (induction es rule: rev_induct)
  case Nil
  have "agrees N R 0 [] default_table" by (simp add: agrees_def default_table_def spent_in_def)
  then show ?case by (intro exI [of _ 0]) simp
next
  case (snoc e es)
  from snoc.prems have "steady N R es" by (simp add: steady_def sorted_append)
  from snoc.IH [OF this] obtain T
    where agrees: "agrees N R T (spent es default_table) (run_state check_step es default_table)"
      and T: "T \<le> event_time e" using snoc.prems by blast
  obtain name c ip rl now_ms where e: "e = (name, c, ip, rl, now_ms)" by (cases e) auto
  have "agrees N R now_ms (spent (es @ [e]) default_table) (run_state check_step (es @ [e]) default_table)"
    using agrees_check [OF limiter.run_ok agrees, of now_ms name rl c ip] T snoc.prems
    by (simp add: e steady_def spent_snoc run_steps_append run_steps_Cons check_step_def
        del: run_steps.simps(2))
  moreover have "now_ms \<le> event_time e'" if "steady N R ((es @ [e]) @ [e'])" for e'
    using that by (simp add: steady_def sorted_append e)
  ultimately show ?case by blast
qed

text \<open>
  C4: a limit admits exactly its number of requests. Take any history of checks, of any names
  and clients, in which the clock does not go back and the name \<open>N\<close> has one limit, and the
  next check, which counts under the client \<open>c\<close> of \<open>N\<close>. It is allowed if and only if
  fewer than \<open>limit\<close> requests were allowed before under that client in the same window; so
  never more than \<open>limit\<close> are, and none is refused while some of the limit is left, however
  sweeps and other clients interleave.
\<close>

theorem limit_exact:
  assumes "steady N R (past @ [(N, c0, ip, R, now_ms)])"
    and "snd (resolve_key N c0 ip now_ms (run_state check_step past default_table)) = Some (N, c)"
  shows "(snd (check_at N c0 ip R now_ms (run_state check_step past default_table)) = Allowed \<longleftrightarrow>
      count_list (spent past default_table) ((N, c), window_end R now_ms) < unat (rl_limit R)) \<and>
    (\<forall>e. count_list (spent past default_table) ((N, c), e) \<le> unat (rl_limit R))"
proof -
  let ?t = "run_state check_step past default_table"
  have "steady N R past" using assms(1) by (simp add: steady_def sorted_append)
  from agrees_run [OF this] obtain T where agrees: "agrees N R T (spent past default_table) ?t"
    and T: "T \<le> now_ms" using assms(1) by fastforce
  obtain t' where res: "resolve_key N c0 ip now_ms ?t = (t', Some (N, c))"
    using assms(2) by (cases "resolve_key N c0 ip now_ms ?t") simp
  have "shrinks now_ms ?t t'"
    using shrinks_resolve [OF limiter.run_ok, of now_ms past N c0 ip] by (simp add: res)
  note base = agrees_shrinks [OF agrees T this]
  have small: "unat now_ms + window_length R < 2 ^ 64" using assms(1) by (simp add: steady_def)
  from agrees_count(2) [OF base small, of c]
  have "snd (check_at N c0 ip R now_ms ?t) = Allowed \<longleftrightarrow>
      count_list (spent past default_table) ((N, c), window_end R now_ms) < unat (rl_limit R)"
    by (simp add: check_at_def res)
  moreover from agrees have "count_list (spent past default_table) ((N, c), e) \<le> unat (rl_limit R)" for e
    unfolding agrees_def by blast
  ultimately show ?thesis by blast
qed

definition sample_limit :: rate_limit where
  "sample_limit = \<lparr>rl_limit = 1, rl_window_ms = 1000, rl_by = ByIp\<rparr>"

definition sample_check :: "u64 \<Rightarrow> check_event" where
  "sample_check now_ms = (''r#0'', ClientIp (V4 0x0A000001), None, sample_limit, now_ms)"

theorem limit_exact_witness:
  "snd (check_at ''r#0'' (ClientIp (V4 0x0A000001)) None sample_limit 1900
      (run_state check_step [sample_check 1500] default_table)) \<noteq> Allowed"
proof -
  let ?past = "[sample_check 1500]"
  have steady: "steady ''r#0'' sample_limit (?past @ [(''r#0'', ClientIp (V4 0x0A000001), None, sample_limit, 1900)])"
    by (simp add: steady_def sample_check_def sample_limit_def window_length_def max_def)
  have key: "snd (resolve_key ''r#0'' (ClientIp (V4 0x0A000001)) None 1900
      (run_state check_step ?past default_table)) = Some (''r#0'', ClientIp (V4 0x0A000001))"
    by code_simp
  have "count_list (spent ?past default_table) ((''r#0'', ClientIp (V4 0x0A000001)), window_end sample_limit 1900) = 1"
    by code_simp
  with limit_exact [OF steady key, THEN conjunct1] show ?thesis by (simp add: sample_limit_def)
qed

end
