(* ===== verification/Query.thy ===== *)
theory Query
  imports Config
begin

text \<open>
  The query string: \<open>parse_query\<close> of \<^verbatim>\<open>gapura/src/proxy/attrs.rs\<close> and \<open>edit_query\<close> of
  \<^verbatim>\<open>gapura/src/proxy/transform.rs\<close>. The form encoding library is a parameter: \<open>decode\<close> gives
  the decoded name of a piece and \<open>encode\<close> the form encoding of a text. A URI is its path and
  its query; \<open>valid_target\<close> says which path-and-query texts the HTTP library accepts. Shows that
  pieces no edit names keep their bytes and their order.
\<close>

section \<open>Definitions\<close>

definition parse_query :: "string \<Rightarrow> (string \<times> string) list" where
  "parse_query q =
     map (\<lambda>kv. case split_once CHR ''='' kv of Some (k, v) \<Rightarrow> (k, v) | None \<Rightarrow> (kv, []))
       (filter (\<lambda>kv. kv \<noteq> []) (split_on CHR ''&'' q))"

record form_lib =
  fm_decode :: "string \<Rightarrow> string"
  fm_encode :: "string \<Rightarrow> string"

record param =
  pa_name :: string
  pa_raw :: string

record uri =
  u_path :: string
  u_query :: "string option"

definition space_escaped :: "string \<Rightarrow> string" where
  "space_escaped s = concat (map (\<lambda>c. if c = CHR ''+'' then ''%20'' else [c]) s)"

definition param_read :: "form_lib \<Rightarrow> string \<Rightarrow> param" where
  "param_read lib raw =
     (let name = (case split_once CHR ''='' raw of Some (n, _) \<Rightarrow> n | None \<Rightarrow> raw)
      in \<lparr>pa_name = (if name = [] then [] else fm_decode lib name), pa_raw = raw\<rparr>)"

definition param_new :: "form_lib \<Rightarrow> string \<Rightarrow> string \<Rightarrow> param" where
  "param_new lib name val =
     \<lparr>pa_name = name, pa_raw = space_escaped (fm_encode lib name @ ''='' @ fm_encode lib val)\<rparr>"

definition param_renamed :: "form_lib \<Rightarrow> string \<Rightarrow> param \<Rightarrow> param" where
  "param_renamed lib to p =
     (let name = space_escaped (fm_encode lib to)
      in \<lparr>pa_name = to,
          pa_raw = (case split_once CHR ''='' (pa_raw p) of
              Some (_, val) \<Rightarrow> name @ ''='' @ val
            | None \<Rightarrow> name)\<rparr>)"

definition rename_params :: "form_lib \<Rightarrow> string \<times> string \<Rightarrow> param list \<Rightarrow> param list" where
  "rename_params lib = (\<lambda>(from, to) ps.
     if \<not> list_ex (\<lambda>p. pa_name p = from) ps then ps
     else filter (\<lambda>p. pa_name p \<noteq> to) (filter (\<lambda>p. pa_name p \<noteq> from) ps)
        @ map (param_renamed lib to) (filter (\<lambda>p. pa_name p = from) ps))"

fun position :: "('x \<Rightarrow> bool) \<Rightarrow> 'x list \<Rightarrow> nat option" where
  "position P [] = None"
| "position P (x # xs) = (if P x then Some 0 else map_option Suc (position P xs))"

definition replace_param :: "form_lib \<Rightarrow> string \<times> string \<Rightarrow> param list \<Rightarrow> param list" where
  "replace_param lib = (\<lambda>(name, val) ps.
     case position (\<lambda>p. pa_name p = name) ps of
       None \<Rightarrow> ps
     | Some i \<Rightarrow>
         (let kept = filter (\<lambda>p. pa_name p \<noteq> name) ps
          in take i kept @ [param_new lib name val] @ drop i kept))"

definition add_param :: "form_lib \<Rightarrow> string \<times> string \<Rightarrow> param list \<Rightarrow> param list" where
  "add_param lib = (\<lambda>(name, val) ps.
     if \<not> list_ex (\<lambda>p. pa_name p = name) ps then ps @ [param_new lib name val] else ps)"

definition append_param :: "form_lib \<Rightarrow> string \<times> string \<Rightarrow> param list \<Rightarrow> param list" where
  "append_param lib = (\<lambda>(name, val) ps. ps @ [param_new lib name val])"

definition query_params :: "form_lib \<Rightarrow> string option \<Rightarrow> param list" where
  "query_params lib q =
     (case q of
        None \<Rightarrow> []
      | Some q \<Rightarrow> if q = [] then [] else map (param_read lib) (split_on CHR ''&'' q))"

definition edit_params :: "form_lib \<Rightarrow> header_edits \<Rightarrow> param list \<Rightarrow> param list" where
  "edit_params lib edits ps =
     fold (append_param lib) (he_append edits)
       (fold (add_param lib) (he_add edits)
         (fold (replace_param lib) (he_replace edits)
           (fold (rename_params lib) (he_rename edits)
             (filter (\<lambda>p. \<not> list_ex (\<lambda>name. pa_name p = name) (he_remove edits)) ps))))"

definition edit_query :: "form_lib \<Rightarrow> (string \<Rightarrow> bool) \<Rightarrow> header_edits \<Rightarrow> uri \<Rightarrow> uri option" where
  "edit_query lib valid_target edits uri =
     (if edits_is_empty edits then None
      else let query = (case u_query uri of Some q \<Rightarrow> q | None \<Rightarrow> []);
               edited = join ''&'' (map pa_raw (edit_params lib edits (query_params lib (u_query uri))))
        in if edited = query then None
           else let target = (if edited = [] then u_path uri else u_path uri @ ''?'' @ edited)
             in if valid_target target
                then Some (uri\<lparr>u_query := (if edited = [] then None else Some edited)\<rparr>) else None)"

section \<open>Pieces no edit names are kept\<close>

definition named_by :: "header_edits \<Rightarrow> string set" where
  "named_by edits = set (he_remove edits) \<union> fst ` set (he_rename edits) \<union> snd ` set (he_rename edits)
     \<union> fst ` set (he_replace edits) \<union> fst ` set (he_add edits) \<union> fst ` set (he_append edits)"

lemma named_by_edit [intro]:
  "(a, b) \<in> set (he_rename edits) \<Longrightarrow> a \<in> named_by edits"
  "(a, b) \<in> set (he_rename edits) \<Longrightarrow> b \<in> named_by edits"
  "(a, b) \<in> set (he_replace edits) \<Longrightarrow> a \<in> named_by edits"
  "(a, b) \<in> set (he_add edits) \<Longrightarrow> a \<in> named_by edits"
  "(a, b) \<in> set (he_append edits) \<Longrightarrow> a \<in> named_by edits"
  by (auto simp: named_by_def intro: rev_image_eqI)

abbreviation others :: "string set \<Rightarrow> param list \<Rightarrow> param list" where
  "others N ps \<equiv> filter (\<lambda>p. pa_name p \<notin> N) ps"

lemma param_name_simps [simp]:
  "pa_name (param_new lib n v) = n" "pa_name (param_renamed lib n p) = n"
  by (simp_all add: param_new_def param_renamed_def Let_def)

lemma others_rename: "from \<in> N \<Longrightarrow> to \<in> N \<Longrightarrow> others N (rename_params lib (from, to) ps) = others N ps"
proof -
  assume N: "from \<in> N" "to \<in> N"
  have "others N (map (param_renamed lib to) qs) = []" for qs using N by (induction qs) auto
  moreover have "others N (filter (\<lambda>p. pa_name p \<noteq> to) (filter (\<lambda>p. pa_name p \<noteq> from) ps)) = others N ps"
    using N by (induction ps) auto
  ultimately show ?thesis by (simp add: rename_params_def del: filter_filter)
qed

lemma others_replace: "n \<in> N \<Longrightarrow> others N (replace_param lib (n, v) ps) = others N ps"
proof -
  assume n: "n \<in> N"
  have "others N (filter (\<lambda>p. pa_name p \<noteq> n) ps) = others N ps" using n by (induction ps) auto
  moreover have "others N (take i qs @ [param_new lib n v] @ drop i qs) = others N qs" for i qs
    using n filter_append [of "\<lambda>p. pa_name p \<notin> N" "take i qs" "drop i qs"] by simp
  ultimately show ?thesis by (simp add: replace_param_def Let_def split: option.split del: filter_filter)
qed

lemma others_add: "n \<in> N \<Longrightarrow> others N (add_param lib (n, v) ps) = others N ps"
  by (simp add: add_param_def)

lemma others_append: "n \<in> N \<Longrightarrow> others N (append_param lib (n, v) ps) = others N ps"
  by (simp add: append_param_def)

lemma others_fold:
  assumes "\<And>x ps. x \<in> set xs \<Longrightarrow> others N (f x ps) = others N ps"
  shows "others N (fold f xs ps) = others N ps"
  using assms by (induction xs arbitrary: ps) auto

lemma others_edit: "others (named_by edits) (edit_params lib edits ps) = others (named_by edits) ps"
proof -
  let ?N = "named_by edits"
  have "others ?N (filter (\<lambda>p. \<not> list_ex (\<lambda>name. pa_name p = name) (he_remove edits)) ps) = others ?N ps"
    by (induction ps) (auto simp: named_by_def list_ex_iff)
  moreover have "others ?N (fold (rename_params lib) (he_rename edits) qs) = others ?N qs" for qs
    by (rule others_fold) (auto intro!: others_rename)
  moreover have "others ?N (fold (replace_param lib) (he_replace edits) qs) = others ?N qs" for qs
    by (rule others_fold) (auto intro!: others_replace)
  moreover have "others ?N (fold (add_param lib) (he_add edits) qs) = others ?N qs" for qs
    by (rule others_fold) (auto intro!: others_add)
  moreover have "others ?N (fold (append_param lib) (he_append edits) qs) = others ?N qs" for qs
    by (rule others_fold) (auto intro!: others_append)
  ultimately show ?thesis by (simp only: edit_params_def)
qed

end
