(* ===== verification/Plugin_Chain.thy ===== *)
theory Plugin_Chain
  imports Headers Jwt Rate_Limit Query "HOL-Library.Multiset"
begin

text \<open>
  \<^verbatim>\<open>gapura/src/proxy/plugin.rs\<close>: the plugins of a rule, compiled once per configuration into a list
  of steps per phase, and the steps themselves. What the steps read of the outside (the
  configuration, the key sets, the token library, the clock, SHA-256, the trusted networks) is
  the record \<open>access_env\<close>; what they change (the request's context, the limiter's table and
  the wish to refetch keys) is \<open>access_state\<close>. Metrics and the debug timing have no influence
  and are left out, as is the terminate phase, which has no step yet.
\<close>

section \<open>Types\<close>

record failure =
  fl_key :: error_key
  fl_headers :: "(string \<times> string) list"

datatype 'h flow = Continue | Respond u16 'h | Fail failure

datatype invoke = Upstream string | Serve | Skip

datatype cors_state = Answered | Pass "string option" bool

record request_ctx =
  cx_route :: "(nat \<times> nat) option"
  cx_consumer :: "consumer option"
  cx_invoke :: invoke
  cx_body_bytes :: u64
  cx_cors :: "cors_state option"
  cx_terminated :: bool

definition default_ctx :: request_ctx where
  "default_ctx = \<lparr>cx_route = None, cx_consumer = None, cx_invoke = Skip, cx_body_bytes = 0,
     cx_cors = None, cx_terminated = False\<rparr>"

fun invoke_cluster :: "invoke \<Rightarrow> string option" where
  "invoke_cluster (Upstream cluster) = Some cluster"
| "invoke_cluster Serve = None"
| "invoke_cluster Skip = None"

definition new_attempt :: "request_ctx \<Rightarrow> request_ctx" where
  "new_attempt cx = cx\<lparr>cx_body_bytes := 0\<rparr>"

definition terminate :: "request_ctx \<Rightarrow> request_ctx" where
  "terminate cx = cx\<lparr>cx_terminated := True\<rparr>"

record any_of =
  ao_jwt :: "jwt_policy option"
  ao_key_auth :: "key_auth_policy option"
  ao_anonymous :: "consumer option"

datatype access_step =
    ACors cors_policy
  | AJwt jwt_policy
  | AKeyAuth key_auth_policy
  | AAnyOf any_of
  | AAcl acl_policy
  | AIpRestriction ip_restriction_policy
  | ASizeLimit u64
  | ARateLimit

datatype upstream_step = RemoveHeader string | TransformRequest request_transformer_policy

datatype body_step = SizeLimit u64

datatype response_step = CorsResponse cors_policy | TransformResponse header_edits

record chain =
  ch_access :: "access_step list"
  ch_upstream :: "upstream_step list"
  ch_body :: "body_step list"
  ch_response :: "response_step list"

definition empty_chain :: chain where
  "empty_chain = \<lparr>ch_access = [], ch_upstream = [], ch_body = [], ch_response = []\<rparr>"

record misplaced =
  mp_plugin :: string
  mp_why :: string

fun access_rank :: "access_step \<Rightarrow> u8" where
  "access_rank (ACors _) = 0"
| "access_rank (AIpRestriction _) = 1"
| "access_rank (AJwt _) = 2"
| "access_rank (AAnyOf _) = 2"
| "access_rank (AKeyAuth _) = 3"
| "access_rank (AAcl _) = 4"
| "access_rank (ASizeLimit _) = 5"
| "access_rank ARateLimit = 6"

fun upstream_rank :: "upstream_step \<Rightarrow> u8" where
  "upstream_rank (RemoveHeader _) = 1"
| "upstream_rank (TransformRequest _) = 2"

fun response_rank :: "response_step \<Rightarrow> u8" where
  "response_rank (CorsResponse _) = 0"
| "response_rank (TransformResponse _) = 1"

section \<open>Compiling a rule's plugins\<close>

definition reachable_phases :: "route_rule \<Rightarrow> phase list" where
  "reachable_phases rule =
     (if f_redirect (rr_filters rule) \<noteq> None then []
      else [Access, UpstreamRequest, RequestBody, Response, Terminate])"

definition misplaced_why :: "phase list \<Rightarrow> body \<Rightarrow> phase list \<Rightarrow> string option" where
  "misplaced_why phases b reach =
     (if list_ex (\<lambda>p. p \<notin> set reach) phases then Some ''the rule never reaches a phase it runs in''
      else case b of
        NoBody \<Rightarrow> None
      | Stream \<Rightarrow> if RequestBody \<in> set phases then None
          else Some ''it reads a body as it streams, and does not run where one is fed''
      | Buffered _ \<Rightarrow> Some ''it reads a body whole, and no phase feeds one yet'')"

definition unwritable :: string where
  "unwritable = ''it writes a header name or value HTTP does not allow''"

text \<open>What counts as a header name and a header value is the HTTP library's to say.\<close>

record header_syntax =
  valid_name :: "string \<Rightarrow> bool"
  valid_value :: "string \<Rightarrow> bool"

definition auth_of :: "route_rule \<Rightarrow> auth_policy option" where
  "auth_of rule =
     (case List.map_filter (\<lambda>p. case p of Auth a \<Rightarrow> Some a | _ \<Rightarrow> None) (rr_plugins rule) of
        [] \<Rightarrow> None | a # _ \<Rightarrow> Some a)"

definition anonymous_of :: "auth_policy option \<Rightarrow> consumer option" where
  "anonymous_of auth =
     Option.bind auth (\<lambda>a. Option.bind (au_anonymous a) (\<lambda>name.
       Some \<lparr>c_name = name,
             c_id = consumer_id (case au_workspace a of Some w \<Rightarrow> w | None \<Rightarrow> []) name,
             c_anonymous = True\<rparr>))"

definition compile_plugin ::
  "header_syntax \<Rightarrow> auth_policy option \<Rightarrow> phase list \<Rightarrow> plugin \<Rightarrow> chain \<times> any_of \<Rightarrow> misplaced + chain \<times> any_of" where
  "compile_plugin syn auth reach plugin = (\<lambda>(ch, any).
     let bad = (\<lambda>why. Err \<lparr>mp_plugin = plugin_kind plugin, mp_why = why\<rparr>) in
     case misplaced_why (plugin_phases plugin) (plugin_body plugin) reach of
       Some why \<Rightarrow> bad why
     | None \<Rightarrow>
         (case plugin of
            Jwt policy \<Rightarrow>
              if auth \<noteq> None then Ok (ch, any\<lparr>ao_jwt := Some policy\<rparr>)
              else Ok (ch\<lparr>ch_access := ch_access ch @ [AJwt policy]\<rparr>, any)
          | KeyAuth policy \<Rightarrow>
              (let up = ch_upstream ch @ [RemoveHeader (ka_header policy)] in
               if auth \<noteq> None then Ok (ch\<lparr>ch_upstream := up\<rparr>, any\<lparr>ao_key_auth := Some policy\<rparr>)
               else Ok (ch\<lparr>ch_access := ch_access ch @ [AKeyAuth policy], ch_upstream := up\<rparr>, any))
          | Auth _ \<Rightarrow> Ok (ch, any)
          | IpRestriction policy \<Rightarrow> Ok (ch\<lparr>ch_access := ch_access ch @ [AIpRestriction policy]\<rparr>, any)
          | RequestSizeLimit policy \<Rightarrow>
              Ok (ch\<lparr>ch_access := ch_access ch @ [ASizeLimit (max_bytes policy)],
                     ch_body := ch_body ch @ [SizeLimit (max_bytes policy)]\<rparr>, any)
          | RequestTransformer policy \<Rightarrow>
              if writable (valid_name syn) (valid_value syn) (rq_headers policy)
              then Ok (ch\<lparr>ch_upstream := ch_upstream ch @ [TransformRequest policy]\<rparr>, any)
              else bad unwritable
          | ResponseTransformer policy \<Rightarrow>
              if writable (valid_name syn) (valid_value syn) (rs_headers policy)
              then Ok (ch\<lparr>ch_response := ch_response ch @ [TransformResponse (rs_headers policy)]\<rparr>, any)
              else bad unwritable
          | Cors policy \<Rightarrow>
              if list_all (\<lambda>l. valid_value syn (join '', '' l))
                   [co_methods policy, co_headers policy, co_expose_headers policy]
              then Ok (ch\<lparr>ch_access := ch_access ch @ [ACors policy],
                          ch_response := ch_response ch @ [CorsResponse policy]\<rparr>, any)
              else bad unwritable
          | Acl policy \<Rightarrow> Ok (ch\<lparr>ch_access := ch_access ch @ [AAcl policy]\<rparr>, any)))"

fun compile_plugins ::
  "header_syntax \<Rightarrow> auth_policy option \<Rightarrow> phase list \<Rightarrow> plugin list \<Rightarrow> chain \<times> any_of \<Rightarrow> misplaced + chain \<times> any_of" where
  "compile_plugins syn auth reach [] acc = Ok acc"
| "compile_plugins syn auth reach (p # ps) acc =
     (case compile_plugin syn auth reach p acc of
        Err e \<Rightarrow> Err e
      | Ok acc' \<Rightarrow> compile_plugins syn auth reach ps acc')"

definition compile_chain :: "header_syntax \<Rightarrow> route_rule \<Rightarrow> misplaced + chain" where
  "compile_chain syn rule =
     (let auth = auth_of rule;
          any0 = \<lparr>ao_jwt = None, ao_key_auth = None, ao_anonymous = anonymous_of auth\<rparr>
      in case compile_plugins syn auth (reachable_phases rule) (rr_plugins rule) (empty_chain, any0) of
           Err e \<Rightarrow> Err e
         | Ok (ch, any) \<Rightarrow>
             (let acc = (if ao_jwt any \<noteq> None \<or> ao_key_auth any \<noteq> None then ch_access ch @ [AAnyOf any]
                         else ch_access ch)
              in Ok (ch\<lparr>ch_access := sort_key access_rank acc @ [ARateLimit],
                        ch_upstream := sort_key upstream_rank (ch_upstream ch),
                        ch_response := sort_key response_rank (ch_response ch)\<rparr>)))"

section \<open>The access steps\<close>

record ('k, 'a) access_env =
  en_config :: config
  en_jwt_keys :: "string \<Rightarrow> ('k, 'a) keys option"
  en_lib :: "('k, 'a) jwt_lib"
  en_to_str :: "string \<Rightarrow> string option"
  en_sha :: "string \<Rightarrow> string"
  en_trusted :: "cidr list"
  en_client_headers :: "string list"
  en_now_ms :: u64

record access_state =
  as_cx :: request_ctx
  as_limiter :: limit_table
  as_refresh :: bool

record refused =
  re_key :: error_key
  re_reason :: string
  re_headers :: "(string \<times> string) list"

definition refused_missing :: "refused \<Rightarrow> bool" where
  "refused_missing r \<longleftrightarrow> re_key r \<in> {AuthJwtMissing, AuthKeyMissing}"

definition opt_or_empty :: "string option \<Rightarrow> string" where
  "opt_or_empty x = (case x of Some s \<Rightarrow> s | None \<Rightarrow> [])"

text \<open>A jwt policy's verdict, and whether it asks for its keys to be fetched again.\<close>

definition jwt_consumer :: "config \<Rightarrow> jwt_policy \<Rightarrow> claims \<Rightarrow> refused + consumer option" where
  "jwt_consumer cfg policy cs =
     (case jp_consumer_claim policy of
        None \<Rightarrow> Ok None
      | Some claim \<Rightarrow>
          (case Option.bind (map_option (\<lambda>name.
                  \<lparr>c_name = name, c_id = consumer_id (opt_or_empty (jp_workspace policy)) name,
                   c_anonymous = False\<rparr>) (cs claim))
                (\<lambda>c. if map_of (cf_consumers cfg) (c_id c) \<noteq> None then Some c else None) of
             Some c \<Rightarrow> Ok (Some c)
           | None \<Rightarrow> Err \<lparr>re_key = AuthJwtInvalid, re_reason = ''unknown_consumer'',
                          re_headers = [(''WWW-Authenticate'', ''Bearer'')]\<rparr>))"

definition check_jwt ::
  "('k, 'a) access_env \<Rightarrow> request \<Rightarrow> jwt_policy \<Rightarrow> (refused + consumer option) \<times> bool" where
  "check_jwt env req policy =
     (let ks = (case en_jwt_keys env (jp_jwks policy) of Some ks \<Rightarrow> ks | None \<Rightarrow> default_keys)
      in case jwt_verdict (en_lib env) (en_to_str env) (rq_lines req ''authorization'') policy ks of
           Err (key, reason, challenge) \<Rightarrow>
             (Err \<lparr>re_key = key, re_reason = reason,
                   re_headers = (if key = AuthUnavailable then [(''Retry-After'', ''30'')]
                                 else [(''WWW-Authenticate'', challenge)])\<rparr>,
              jp_jwks_uri policy \<noteq> None \<and> reason = jwt_refusal_as_str JwtUnknownKey)
         | Ok cs \<Rightarrow> (jwt_consumer (en_config env) policy cs, False))"

definition check_key ::
  "('k, 'a) access_env \<Rightarrow> request \<Rightarrow> key_auth_policy \<Rightarrow> refused + consumer option" where
  "check_key env req policy =
     (let refuse = (\<lambda>r. Err \<lparr>re_key = error_key_of_key r, re_reason = key_refusal_as_str r,
            re_headers = [(''WWW-Authenticate'', ''Key realm='' @ [CHR 0x22] @ ka_header policy @ [CHR 0x22])]\<rparr>);
          judge = (\<lambda>presented.
            case identify (en_sha env) (en_config env) presented (ka_workspace policy) of
              Ok name \<Rightarrow> Ok (Some \<lparr>c_name = name,
                c_id = consumer_id (opt_or_empty (ka_workspace policy)) name, c_anonymous = False\<rparr>)
            | Err r \<Rightarrow> refuse r)
      in case rq_lines req (ka_header policy) of
           [] \<Rightarrow> judge None
         | v # _ \<Rightarrow> (case en_to_str env v of Some key \<Rightarrow> judge (Some key) | None \<Rightarrow> refuse KeyUnknown))"

definition admit :: "refused + consumer option \<Rightarrow> access_state \<Rightarrow> 'h flow \<times> access_state" where
  "admit verdict st =
     (case verdict of
        Ok None \<Rightarrow> (Continue, st)
      | Ok who \<Rightarrow> (Continue, st\<lparr>as_cx := (as_cx st)\<lparr>cx_consumer := who\<rparr>\<rparr>)
      | Err r \<Rightarrow> (Fail \<lparr>fl_key = re_key r, fl_headers = re_headers r\<rparr>, st))"

definition ask_refresh :: "bool \<Rightarrow> access_state \<Rightarrow> access_state" where
  "ask_refresh wanted st = st\<lparr>as_refresh := as_refresh st \<or> wanted\<rparr>"

text \<open>
  The chain of an auth policy. One link: absent (the refusal of a credential that is not there)
  or the verdict that decides.
\<close>

definition chain_link :: "refused + consumer option \<Rightarrow> refused option" where
  "chain_link verdict = (case verdict of Err r \<Rightarrow> if refused_missing r then Some r else None | Ok _ \<Rightarrow> None)"

definition none_presented :: "config \<Rightarrow> any_of \<Rightarrow> refused list \<Rightarrow> access_state \<Rightarrow> 'h flow \<times> access_state" where
  "none_presented cfg any absent st =
     (case Option.bind (ao_anonymous any)
             (\<lambda>a. if map_of (cf_consumers cfg) (c_id a) \<noteq> None then Some a else None) of
        Some a \<Rightarrow> (Continue, st\<lparr>as_cx := (as_cx st)\<lparr>cx_consumer := Some a\<rparr>\<rparr>)
      | None \<Rightarrow>
          (case absent of
             [r] \<Rightarrow> (Fail \<lparr>fl_key = re_key r, fl_headers = re_headers r\<rparr>, st)
           | _ \<Rightarrow> (Fail \<lparr>fl_key = AuthMissing, fl_headers = concat (map re_headers absent)\<rparr>, st)))"

definition any_key ::
  "('k, 'a) access_env \<Rightarrow> request \<Rightarrow> any_of \<Rightarrow> refused list \<Rightarrow> access_state \<Rightarrow> 'h flow \<times> access_state" where
  "any_key env req any absent st =
     (case ao_key_auth any of
        None \<Rightarrow> none_presented (en_config env) any absent st
      | Some policy \<Rightarrow>
          (let verdict = check_key env req policy in
           case chain_link verdict of
             Some r \<Rightarrow> none_presented (en_config env) any (absent @ [r]) st
           | None \<Rightarrow> admit verdict st))"

definition run_any_of ::
  "('k, 'a) access_env \<Rightarrow> request \<Rightarrow> any_of \<Rightarrow> access_state \<Rightarrow> 'h flow \<times> access_state" where
  "run_any_of env req any st =
     (case ao_jwt any of
        None \<Rightarrow> any_key env req any [] st
      | Some policy \<Rightarrow>
          (case check_jwt env req policy of (verdict, refresh) \<Rightarrow>
             (case chain_link verdict of
                Some r \<Rightarrow> any_key env req any [r] (ask_refresh refresh st)
              | None \<Rightarrow> admit verdict (ask_refresh refresh st))))"

definition client_of :: "('k, 'a) access_env \<Rightarrow> request \<Rightarrow> ip_addr option \<Rightarrow> ip_addr option" where
  "client_of env req peer =
     map_option (\<lambda>p. client_ip_of (en_to_str env) req p (en_trusted env) (en_client_headers env)) peer"

definition rule_window :: "route_rule \<Rightarrow> string" where
  "rule_window rule = rr_route rule @ ''#'' @ show_nat (rr_rule_index rule)"

definition run_limit ::
  "('k, 'a) access_env \<Rightarrow> route_rule \<Rightarrow> request \<Rightarrow> ip_addr option \<Rightarrow> access_state \<Rightarrow> 'h flow \<times> access_state" where
  "run_limit env rule req peer st =
     (let who = map_option c_id (cx_consumer (as_cx st)) in
      case rate_limit_for (en_config env) rule who of
        None \<Rightarrow> (Continue, st)
      | Some (rl, own) \<Rightarrow>
          (let win = (case (own, who) of
                 (True, Some w) \<Rightarrow> rule_window rule @ ''@'' @ w
               | _ \<Rightarrow> rule_window rule);
               ip = client_of env req peer
           in case client_of_request (en_sha env) (rl_by rl) ip who (rq_lines req) of
                None \<Rightarrow> (Continue, st)
              | Some c \<Rightarrow>
                  (case check_at win c ip rl (en_now_ms env) (as_limiter st) of (t, out) \<Rightarrow>
                     (case out of
                        Allowed \<Rightarrow> (Continue, st\<lparr>as_limiter := t\<rparr>)
                      | Limited lim secs \<Rightarrow>
                          (Fail \<lparr>fl_key = RateLimited, fl_headers =
                             [(''Retry-After'', show_nat (unat secs)),
                              (''X-RateLimit-Limit'', show_nat (unat lim)),
                              (''X-RateLimit-Remaining'', ''0'')]\<rparr>,
                           st\<lparr>as_limiter := t\<rparr>)))))"

definition origin_allowed :: "(string \<Rightarrow> string option) \<Rightarrow> cors_policy \<Rightarrow> request \<Rightarrow> string option" where
  "origin_allowed to_str policy req =
     (case rq_lines req ''origin'' of
        [o1] \<Rightarrow> Option.bind (to_str o1) (\<lambda>v. cors_allowed policy (to_ascii_lowercase v))
      | _ \<Rightarrow> None)"

definition is_preflight :: "request \<Rightarrow> bool" where
  "is_preflight req \<longleftrightarrow>
     rq_method req = ''OPTIONS'' \<and> rq_lines req ''origin'' \<noteq> [] \<and>
     rq_lines req ''access-control-request-method'' \<noteq> []"

definition preflight_head :: "'h header_target_ops \<Rightarrow> 'h \<Rightarrow> cors_policy \<Rightarrow> request \<Rightarrow> string \<Rightarrow> 'h" where
  "preflight_head H new policy req allow =
     (let h1 = ignoring (h_set H ''Access-Control-Allow-Origin'' allow) new;
          h2 = (if co_credentials policy then ignoring (h_set H ''Access-Control-Allow-Credentials'' ''true'') h1 else h1);
          h3 = (if co_methods policy \<noteq> []
                then ignoring (h_set H ''Access-Control-Allow-Methods'' (join '', '' (co_methods policy))) h2 else h2);
          (h4, vary) = (if co_headers policy = []
             then (fold (\<lambda>v. ignoring (h_append H ''Access-Control-Allow-Headers'' v))
                     (rq_lines req ''access-control-request-headers'') h3,
                   ''Origin, Access-Control-Request-Headers'')
             else (ignoring (h_set H ''Access-Control-Allow-Headers'' (join '', '' (co_headers policy))) h3, ''Origin''));
          h5 = (case co_max_age policy of
                  Some age \<Rightarrow> ignoring (h_set H ''Access-Control-Max-Age'' (show_nat (unat age))) h4
                | None \<Rightarrow> h4)
      in ignoring (h_set H ''Vary'' vary) h5)"

definition run_cors ::
  "'h header_target_ops \<Rightarrow> 'h \<Rightarrow> (string \<Rightarrow> string option) \<Rightarrow> cors_policy \<Rightarrow> request \<Rightarrow> access_state
     \<Rightarrow> 'h flow \<times> access_state" where
  "run_cors H new to_str policy req st =
     (let allow = origin_allowed to_str policy req;
          preflight = is_preflight req;
          note = (\<lambda>c. st\<lparr>as_cx := (as_cx st)\<lparr>cx_cors := Some c\<rparr>\<rparr>)
      in if \<not> preflight \<or> co_preflight_continue policy then (Continue, note (Pass allow preflight))
         else case allow of
           None \<Rightarrow> (Fail \<lparr>fl_key = CorsOriginForbidden, fl_headers = []\<rparr>, note (Pass None False))
         | Some origin \<Rightarrow> (Respond 204 (preflight_head H new policy req origin), note Answered))"

definition declared_length :: "(string \<Rightarrow> string option) \<Rightarrow> request \<Rightarrow> u64 option" where
  "declared_length to_str req =
     Option.bind (header_str to_str req ''content-length'') (\<lambda>v. parse_uint (trim v))"

definition consumer_groups :: "config \<Rightarrow> consumer option \<Rightarrow> string list option" where
  "consumer_groups cfg who =
     map_option (\<lambda>c. case map_of (cf_consumers cfg) (c_id c) of Some gs \<Rightarrow> gs | None \<Rightarrow> []) who"

fun run_step ::
  "'h header_target_ops \<Rightarrow> 'h \<Rightarrow> ('k, 'a) access_env \<Rightarrow> route_rule \<Rightarrow> request \<Rightarrow> ip_addr option
     \<Rightarrow> access_step \<Rightarrow> access_state \<Rightarrow> 'h flow \<times> access_state" where
  "run_step H new env rule req peer (ACors policy) st = run_cors H new (en_to_str env) policy req st"
| "run_step H new env rule req peer (AJwt policy) st =
     (case check_jwt env req policy of (verdict, refresh) \<Rightarrow> admit verdict (ask_refresh refresh st))"
| "run_step H new env rule req peer (AKeyAuth policy) st = admit (check_key env req policy) st"
| "run_step H new env rule req peer (AAnyOf any) st = run_any_of env req any st"
| "run_step H new env rule req peer (AAcl policy) st =
     (case acl_refusal policy (consumer_groups (en_config env) (cx_consumer (as_cx st))) of
        None \<Rightarrow> (Continue, st)
      | Some _ \<Rightarrow> (Fail \<lparr>fl_key = AclForbidden, fl_headers = []\<rparr>, st))"
| "run_step H new env rule req peer (AIpRestriction policy) st =
     (case ip_refusal policy (client_of env req peer) of
        None \<Rightarrow> (Continue, st)
      | Some _ \<Rightarrow> (Fail \<lparr>fl_key = IpForbidden, fl_headers = []\<rparr>, st))"
| "run_step H new env rule req peer (ASizeLimit cap) st =
     (case declared_length (en_to_str env) req of
        Some len \<Rightarrow> if cap < len then (Fail \<lparr>fl_key = RequestTooLarge, fl_headers = []\<rparr>, st) else (Continue, st)
      | None \<Rightarrow> (Continue, st))"
| "run_step H new env rule req peer ARateLimit st = run_limit env rule req peer st"

fun run_access ::
  "'h header_target_ops \<Rightarrow> 'h \<Rightarrow> ('k, 'a) access_env \<Rightarrow> route_rule \<Rightarrow> request \<Rightarrow> ip_addr option
     \<Rightarrow> access_step list \<Rightarrow> access_state \<Rightarrow> 'h flow \<times> access_state" where
  "run_access H new env rule req peer [] st = (Continue, st)"
| "run_access H new env rule req peer (s # ss) st =
     (case run_step H new env rule req peer s st of
        (Continue, st') \<Rightarrow> run_access H new env rule req peer ss st'
      | (stop, st') \<Rightarrow> (stop, st'))"

section \<open>The other phases\<close>

fun run_upstream_step ::
  "'h header_target_ops \<Rightarrow> form_lib \<Rightarrow> (string \<Rightarrow> bool) \<Rightarrow> upstream_step \<Rightarrow> 'h \<times> uri \<Rightarrow> 'h \<times> uri" where
  "run_upstream_step H lib valid_target (RemoveHeader name) (h, u) = (h_del H name h, u)"
| "run_upstream_step H lib valid_target (TransformRequest policy) (h, u) =
     (edit_headers H (rq_headers policy) h,
      case edit_query lib valid_target (rq_query policy) u of Some u' \<Rightarrow> u' | None \<Rightarrow> u)"

definition upstream_request ::
  "'h header_target_ops \<Rightarrow> form_lib \<Rightarrow> (string \<Rightarrow> bool) \<Rightarrow> chain \<Rightarrow> 'h \<times> uri \<Rightarrow> 'h \<times> uri" where
  "upstream_request H lib valid_target ch up =
     fold (run_upstream_step H lib valid_target) (ch_upstream ch) up"

definition is_final :: "u16 \<Rightarrow> bool" where
  "is_final status \<longleftrightarrow> \<not> (100 \<le> status \<and> status < 200) \<or> status = 101"

definition vary_origin :: "'h header_target_ops \<Rightarrow> (string \<Rightarrow> string option) \<Rightarrow> 'h \<Rightarrow> 'h" where
  "vary_origin H to_str h =
     (let named = list_ex (\<lambda>v. v = ''*'' \<or> eq_ignore_ascii_case v ''origin'')
            (map trim (concat (map (split_on CHR '','') (List.map_filter to_str (h_get_all H h ''vary'')))))
      in if \<not> named then ignoring (h_add H ''Vary'' ''Origin'') h else h)"

definition cors_headers ::
  "'h header_target_ops \<Rightarrow> (string \<Rightarrow> string option) \<Rightarrow> cors_policy \<Rightarrow> string option \<Rightarrow> bool \<Rightarrow> 'h \<Rightarrow> 'h" where
  "cors_headers H to_str policy allow preflight h =
     (let owned = [''access-control-allow-origin'', ''access-control-allow-credentials'',
              ''access-control-expose-headers''] @
            (if preflight then [] else [''access-control-allow-methods'', ''access-control-allow-headers'',
              ''access-control-max-age'']);
          h1 = fold (h_del H) owned h;
          h2 = (case allow of
              None \<Rightarrow> h1
            | Some origin \<Rightarrow>
                (let a = ignoring (h_set H ''Access-Control-Allow-Origin'' origin) h1;
                     b = (if co_credentials policy
                          then ignoring (h_set H ''Access-Control-Allow-Credentials'' ''true'') a else a)
                 in if co_expose_headers policy \<noteq> []
                    then ignoring (h_set H ''Access-Control-Expose-Headers'' (join '', '' (co_expose_headers policy))) b
                    else b))
      in vary_origin H to_str h2)"

fun run_response_step ::
  "'h header_target_ops \<Rightarrow> (string \<Rightarrow> string option) \<Rightarrow> request_ctx \<Rightarrow> response_step \<Rightarrow> 'h \<Rightarrow> 'h" where
  "run_response_step H to_str cx (CorsResponse policy) h =
     (case cx_cors cx of
        Some Answered \<Rightarrow> h
      | Some (Pass allow preflight) \<Rightarrow> cors_headers H to_str policy allow preflight h
      | None \<Rightarrow> cors_headers H to_str policy None False h)"
| "run_response_step H to_str cx (TransformResponse edits) h = edit_headers H edits h"

definition response ::
  "'h header_target_ops \<Rightarrow> (string \<Rightarrow> string option) \<Rightarrow> chain \<Rightarrow> request_ctx \<Rightarrow> u16 \<Rightarrow> 'h \<Rightarrow> 'h" where
  "response H to_str ch cx status h =
     (if \<not> is_final status then h else fold (run_response_step H to_str cx) (ch_response ch) h)"

fun over_limit :: "u64 \<Rightarrow> body_step \<Rightarrow> bool" where
  "over_limit total_bytes (SizeLimit cap) = (cap < total_bytes)"

definition request_body :: "chain \<Rightarrow> nat \<Rightarrow> bool \<Rightarrow> request_ctx \<Rightarrow> request_ctx \<times> error_key option" where
  "request_body ch len upgraded cx =
     (if upgraded \<or> ch_body ch = [] then (cx, None)
      else let cx' = cx\<lparr>cx_body_bytes := saturating_add (cx_body_bytes cx) (of_nat len)\<rparr>
        in (cx', if list_ex (over_limit (cx_body_bytes cx')) (ch_body ch) then Some RequestTooLarge else None))"

end
