(* ===== verification/Plugin_Safety.thy ===== *)
theory Plugin_Safety
  imports Plugin_Chain
begin

text \<open>
  What the compiled chain of a rule guarantees: a request that is let through was admitted by
  every policy of the rule, a refused one spends nothing of a request limit, a key the gateway
  checked never reaches the upstream, and a body is cut at its limit.
\<close>

section \<open>What compiling puts in each list\<close>

fun access_steps :: "auth_policy option \<Rightarrow> plugin \<Rightarrow> access_step list" where
  "access_steps auth (Jwt p) = (if auth = None then [AJwt p] else [])"
| "access_steps auth (KeyAuth p) = (if auth = None then [AKeyAuth p] else [])"
| "access_steps auth (IpRestriction p) = [AIpRestriction p]"
| "access_steps auth (RequestSizeLimit p) = [ASizeLimit (max_bytes p)]"
| "access_steps auth (Cors p) = [ACors p]"
| "access_steps auth (Acl p) = [AAcl p]"
| "access_steps auth _ = []"

fun upstream_steps :: "plugin \<Rightarrow> upstream_step list" where
  "upstream_steps (KeyAuth p) = [RemoveHeader (ka_header p)]"
| "upstream_steps (RequestTransformer p) = [TransformRequest p]"
| "upstream_steps _ = []"

fun body_steps :: "plugin \<Rightarrow> body_step list" where
  "body_steps (RequestSizeLimit p) = [SizeLimit (max_bytes p)]"
| "body_steps _ = []"

text \<open>The credential policies an auth policy's chain ends up with.\<close>

fun any_step :: "plugin \<Rightarrow> any_of \<Rightarrow> any_of" where
  "any_step (Jwt p) any = any\<lparr>ao_jwt := Some p\<rparr>"
| "any_step (KeyAuth p) any = any\<lparr>ao_key_auth := Some p\<rparr>"
| "any_step _ any = any"

lemma compile_plugin_Ok:
  assumes "compile_plugin syn auth reach p (ch, any) = Ok (ch', any')"
  shows "ch_access ch' = ch_access ch @ access_steps auth p"
    and "ch_upstream ch' = ch_upstream ch @ upstream_steps p"
    and "ch_body ch' = ch_body ch @ body_steps p"
    and "any' = (if auth = None then any else any_step p any)"
    and "misplaced_why (plugin_phases p) (plugin_body p) reach = None"
    and "p = RequestTransformer q \<Longrightarrow> writable (valid_name syn) (valid_value syn) (rq_headers q)"
  using assms
  by (cases p; auto simp: compile_plugin_def Let_def split: option.splits if_splits)+

lemma compile_plugins_Ok:
  assumes "compile_plugins syn auth reach ps (ch, any) = Ok (ch', any')"
  shows "ch_access ch' = ch_access ch @ concat (map (access_steps auth) ps)"
    and "ch_upstream ch' = ch_upstream ch @ concat (map upstream_steps ps)"
    and "ch_body ch' = ch_body ch @ concat (map body_steps ps)"
    and "any' = (if auth = None then any else fold any_step ps any)"
    and "p \<in> set ps \<Longrightarrow> misplaced_why (plugin_phases p) (plugin_body p) reach = None"
    and "RequestTransformer q \<in> set ps \<Longrightarrow> writable (valid_name syn) (valid_value syn) (rq_headers q)"
proof -
  have "ch_access ch' = ch_access ch @ concat (map (access_steps auth) ps) \<and>
    ch_upstream ch' = ch_upstream ch @ concat (map upstream_steps ps) \<and>
    ch_body ch' = ch_body ch @ concat (map body_steps ps) \<and>
    any' = (if auth = None then any else fold any_step ps any) \<and>
    (\<forall>p \<in> set ps. misplaced_why (plugin_phases p) (plugin_body p) reach = None) \<and>
    (\<forall>q. RequestTransformer q \<in> set ps \<longrightarrow> writable (valid_name syn) (valid_value syn) (rq_headers q))"
    using assms
  proof (induction ps arbitrary: ch any)
    case (Cons p ps)
    then obtain ch1 any1 where one: "compile_plugin syn auth reach p (ch, any) = Ok (ch1, any1)"
      and rest: "compile_plugins syn auth reach ps (ch1, any1) = Ok (ch', any')"
      by (auto split: sum.splits)
    note p = compile_plugin_Ok [OF one]
    from Cons.IH [OF rest] p show ?case by auto
  qed simp
  then show "ch_access ch' = ch_access ch @ concat (map (access_steps auth) ps)"
    and "ch_upstream ch' = ch_upstream ch @ concat (map upstream_steps ps)"
    and "ch_body ch' = ch_body ch @ concat (map body_steps ps)"
    and "any' = (if auth = None then any else fold any_step ps any)"
    and "p \<in> set ps \<Longrightarrow> misplaced_why (plugin_phases p) (plugin_body p) reach = None"
    and "RequestTransformer q \<in> set ps \<Longrightarrow> writable (valid_name syn) (valid_value syn) (rq_headers q)"
    by blast+
qed

definition any_for :: "route_rule \<Rightarrow> any_of" where
  "any_for rule = fold any_step (rr_plugins rule)
     \<lparr>ao_jwt = None, ao_key_auth = None, ao_anonymous = anonymous_of (auth_of rule)\<rparr>"

definition rule_access :: "route_rule \<Rightarrow> access_step list" where
  "rule_access rule =
     concat (map (access_steps (auth_of rule)) (rr_plugins rule)) @
     (if auth_of rule \<noteq> None \<and> (ao_jwt (any_for rule) \<noteq> None \<or> ao_key_auth (any_for rule) \<noteq> None)
      then [AAnyOf (any_for rule)] else [])"

lemma compile_chain_Ok:
  assumes "compile_chain syn rule = Ok ch"
  shows "ch_access ch = sort_key access_rank (rule_access rule) @ [ARateLimit]"
    and "ch_upstream ch = sort_key upstream_rank (concat (map upstream_steps (rr_plugins rule)))"
    and "ch_body ch = concat (map body_steps (rr_plugins rule))"
    and "p \<in> set (rr_plugins rule) \<Longrightarrow>
      misplaced_why (plugin_phases p) (plugin_body p) (reachable_phases rule) = None"
    and "RequestTransformer q \<in> set (rr_plugins rule) \<Longrightarrow>
      writable (valid_name syn) (valid_value syn) (rq_headers q)"
proof -
  let ?any0 = "\<lparr>ao_jwt = None, ao_key_auth = None, ao_anonymous = anonymous_of (auth_of rule)\<rparr>"
  from assms obtain ch' any' where
    comp: "compile_plugins syn (auth_of rule) (reachable_phases rule) (rr_plugins rule) (empty_chain, ?any0)
      = Ok (ch', any')"
    and ch: "ch = ch'\<lparr>ch_access := sort_key access_rank (if ao_jwt any' \<noteq> None \<or> ao_key_auth any' \<noteq> None
        then ch_access ch' @ [AAnyOf any'] else ch_access ch') @ [ARateLimit],
      ch_upstream := sort_key upstream_rank (ch_upstream ch'),
      ch_response := sort_key response_rank (ch_response ch')\<rparr>"
    by (auto simp: compile_chain_def Let_def split: sum.splits)
  note p = compile_plugins_Ok [OF comp]
  show "ch_access ch = sort_key access_rank (rule_access rule) @ [ARateLimit]"
    by (cases "auth_of rule") (auto simp: ch p(1,4) empty_chain_def rule_access_def any_for_def)
  show "ch_upstream ch = sort_key upstream_rank (concat (map upstream_steps (rr_plugins rule)))"
    and "ch_body ch = concat (map body_steps (rr_plugins rule))"
    by (simp_all add: ch p(2,3) empty_chain_def)
  show "p \<in> set (rr_plugins rule) \<Longrightarrow>
      misplaced_why (plugin_phases p) (plugin_body p) (reachable_phases rule) = None"
    and "RequestTransformer q \<in> set (rr_plugins rule) \<Longrightarrow>
      writable (valid_name syn) (valid_value syn) (rq_headers q)"
    by (rule p(5), assumption) (rule p(6), assumption)
qed

section \<open>Letting a request through means every policy admitted it\<close>

lemma admit_limiter [simp]: "as_limiter (snd (admit verdict st)) = as_limiter st"
  by (auto simp: admit_def split: sum.splits option.splits)

lemma ask_refresh_simps [simp]:
  "as_limiter (ask_refresh b st) = as_limiter st" "as_cx (ask_refresh b st) = as_cx st"
  by (simp_all add: ask_refresh_def)

lemma none_presented_limiter [simp]: "as_limiter (snd (none_presented cfg any absent st)) = as_limiter st"
  by (auto simp: none_presented_def split: option.splits list.splits)

lemma any_key_limiter [simp]: "as_limiter (snd (any_key env req any absent st)) = as_limiter st"
  by (auto simp: any_key_def Let_def split: option.splits)

lemma run_any_of_limiter [simp]: "as_limiter (snd (run_any_of env req any st)) = as_limiter st"
  by (auto simp: run_any_of_def split: option.splits prod.splits)

lemma run_cors_limiter [simp]: "as_limiter (snd (run_cors H new to_str policy req st)) = as_limiter st"
  by (auto simp: run_cors_def Let_def split: option.splits)

lemma run_step_limiter:
  "s \<noteq> ARateLimit \<Longrightarrow> as_limiter (snd (run_step H new env rule req peer s st)) = as_limiter st"
  by (cases s) (auto split: option.splits prod.splits)

text \<open>From the acl step on, no step changes who the consumer is.\<close>

lemma run_limit_cx [simp]: "as_cx (snd (run_limit env rule req peer st)) = as_cx st"
  by (auto simp: run_limit_def Let_def split: option.splits prod.splits limit_outcome.splits)

lemma run_step_consumer:
  "4 \<le> access_rank s \<Longrightarrow> as_cx (snd (run_step H new env rule req peer s st)) = as_cx st"
  by (cases s) (auto split: option.splits)

lemma run_access_consumer:
  "\<forall>s \<in> set ss. 4 \<le> access_rank s \<Longrightarrow> as_cx (snd (run_access H new env rule req peer ss st)) = as_cx st"
proof (induction ss arbitrary: st)
  case (Cons s ss)
  obtain f st1 where step: "run_step H new env rule req peer s st = (f, st1)" by fastforce
  with run_step_consumer [of s H new env rule req peer st] Cons.prems have "as_cx st1 = as_cx st" by simp
  with Cons.IH [of st1] Cons.prems step show ?case by (cases f) auto
qed simp

lemma run_access_split:
  assumes "run_access H new env rule req peer (xs @ s # ys) st = (Continue, st')"
  obtains st1 st2 where "run_step H new env rule req peer s st1 = (Continue, st2)"
    and "run_access H new env rule req peer ys st2 = (Continue, st')"
  using assms
proof (induction xs arbitrary: st)
  case Nil
  then show ?case by (cases "run_step H new env rule req peer s st"; cases "fst (run_step H new env rule req peer s st)") auto
next
  case (Cons x xs)
  then show ?case
    by (cases "run_step H new env rule req peer x st"; cases "fst (run_step H new env rule req peer x st)") auto
qed

text \<open>
  What it means for a policy of a rule to admit a request, \<open>cx\<close> being the context the access
  phase ended with. Under an auth policy the credential policies are alternatives, judged below.
\<close>

fun policy_admits ::
  "('k, 'a) access_env \<Rightarrow> route_rule \<Rightarrow> request \<Rightarrow> ip_addr option \<Rightarrow> request_ctx \<Rightarrow> plugin \<Rightarrow> bool" where
  "policy_admits env rule req peer cx (Jwt p) = (auth_of rule = None \<longrightarrow> (\<exists>who. fst (check_jwt env req p) = Ok who))"
| "policy_admits env rule req peer cx (KeyAuth p) = (auth_of rule = None \<longrightarrow> (\<exists>who. check_key env req p = Ok who))"
| "policy_admits env rule req peer cx (IpRestriction p) = (ip_refusal p (client_of env req peer) = None)"
| "policy_admits env rule req peer cx (Acl p) =
     (acl_refusal p (consumer_groups (en_config env) (cx_consumer cx)) = None)"
| "policy_admits env rule req peer cx (RequestSizeLimit p) =
     (case declared_length (en_to_str env) req of None \<Rightarrow> True | Some len \<Rightarrow> len \<le> max_bytes p)"
| "policy_admits env rule req peer cx _ = True"

text \<open>
  Of the credential policies an auth policy joins, the first that found its credential accepted it, or
  none found its credential and the caller is the known anonymous consumer. \<open>before\<close> and \<open>after\<close> are the
  consumer of the request around the step: the one the accepted credential names, if it names one, or
  the anonymous one.
\<close>

definition jwt_absent :: "('k, 'a) access_env \<Rightarrow> request \<Rightarrow> any_of \<Rightarrow> bool" where
  "jwt_absent env req any \<longleftrightarrow>
     (\<forall>p. ao_jwt any = Some p \<longrightarrow> (\<exists>r. fst (check_jwt env req p) = Err r \<and> refused_missing r))"

definition key_absent :: "('k, 'a) access_env \<Rightarrow> request \<Rightarrow> any_of \<Rightarrow> bool" where
  "key_absent env req any \<longleftrightarrow>
     (\<forall>p. ao_key_auth any = Some p \<longrightarrow> (\<exists>r. check_key env req p = Err r \<and> refused_missing r))"

definition chain_admits ::
  "('k, 'a) access_env \<Rightarrow> request \<Rightarrow> any_of \<Rightarrow> consumer option \<Rightarrow> consumer option \<Rightarrow> bool" where
  "chain_admits env req any before after \<longleftrightarrow>
     (\<exists>p who. ao_jwt any = Some p \<and> fst (check_jwt env req p) = Ok who \<and> after = (if who = None then before else who)) \<or>
     (jwt_absent env req any \<and> (\<exists>p. ao_key_auth any = Some p \<and> check_key env req p = Ok after)) \<or>
     (jwt_absent env req any \<and> key_absent env req any \<and>
      (\<exists>a. ao_anonymous any = Some a \<and> map_of (cf_consumers (en_config env)) (c_id a) \<noteq> None \<and> after = Some a))"

abbreviation who_of :: "access_state \<Rightarrow> consumer option" where
  "who_of st \<equiv> cx_consumer (as_cx st)"

lemma check_key_names: "check_key env req p = Ok who \<Longrightarrow> who \<noteq> None"
  by (auto simp: check_key_def Let_def split: list.splits option.splits sum.splits)

lemma admit_Continue:
  "admit verdict st = (Continue, st') \<Longrightarrow> \<exists>who. verdict = Ok who \<and> who_of st' = (if who = None then who_of st else who)"
  by (auto simp: admit_def split: sum.splits option.splits)

lemma admit_key: "admit (check_key env req p) st = (Continue, st') \<Longrightarrow> check_key env req p = Ok (who_of st')"
  by (metis admit_Continue check_key_names)

lemma admit_jwt:
  assumes "check_jwt env req p = (verdict, refresh)" "admit verdict (ask_refresh refresh st) = (Continue, st')"
  shows "\<exists>who. fst (check_jwt env req p) = Ok who \<and> who_of st' = (if who = None then who_of st else who)"
  using admit_Continue [OF assms(2)] by (simp only: assms(1) fst_conv ask_refresh_simps)

lemma chain_link_Some: "chain_link verdict = Some r \<longleftrightarrow> verdict = Err r \<and> refused_missing r"
  by (auto simp: chain_link_def split: sum.splits if_splits)

lemma none_presented_Continue:
  "none_presented cfg any absent st = (Continue, st') \<Longrightarrow>
   \<exists>a. ao_anonymous any = Some a \<and> map_of (cf_consumers cfg) (c_id a) \<noteq> None \<and> who_of st' = Some a"
  by (auto simp: none_presented_def bind_eq_Some_conv split: option.splits list.splits if_splits)

lemma any_key_Continue:
  assumes "any_key env req any absent st = (Continue, st')"
  shows "(\<exists>p. ao_key_auth any = Some p \<and> check_key env req p = Ok (who_of st')) \<or>
    key_absent env req any \<and>
    (\<exists>a. ao_anonymous any = Some a \<and> map_of (cf_consumers (en_config env)) (c_id a) \<noteq> None \<and> who_of st' = Some a)"
  using assms
  by (auto simp: any_key_def Let_def chain_link_Some key_absent_def split: option.splits
      dest: none_presented_Continue admit_key)

lemma run_any_of_Continue:
  assumes "run_any_of env req any st = (Continue :: 'h flow, st')"
  shows "chain_admits env req any (who_of st) (who_of st')"
proof (cases "ao_jwt any")
  case None
  then show ?thesis using assms any_key_Continue [of env req any "[]" st st']
    by (auto simp: run_any_of_def chain_admits_def jwt_absent_def)
next
  case (Some p)
  obtain verdict refresh where check: "check_jwt env req p = (verdict, refresh)" by fastforce
  show ?thesis
  proof (cases "chain_link verdict")
    case None
    then have "admit verdict (ask_refresh refresh st) = (Continue :: 'h flow, st')" using assms Some check by (simp add: run_any_of_def)
    from admit_jwt [OF check this] Some show ?thesis unfolding chain_admits_def by blast
  next
    case link: (Some r)
    then have "any_key env req any [r] (ask_refresh refresh st) = (Continue :: 'h flow, st')" "jwt_absent env req any"
      using assms Some check by (simp add: run_any_of_def) (use link Some check in \<open>simp add: jwt_absent_def chain_link_Some\<close>)
    then show ?thesis using any_key_Continue unfolding chain_admits_def by blast
  qed
qed

lemma run_step_Continue:
  assumes "run_step H new env rule req peer s st = (Continue, st')"
  shows "s = AJwt p \<Longrightarrow> \<exists>who. fst (check_jwt env req p) = Ok who"
    and "s = AKeyAuth k \<Longrightarrow> \<exists>who. check_key env req k = Ok who"
    and "s = AIpRestriction i \<Longrightarrow> ip_refusal i (client_of env req peer) = None"
    and "s = AAcl g \<Longrightarrow> acl_refusal g (consumer_groups (en_config env) (cx_consumer (as_cx st'))) = None"
    and "s = ASizeLimit cap \<Longrightarrow>
      (case declared_length (en_to_str env) req of None \<Rightarrow> True | Some len \<Rightarrow> len \<le> cap)"
  using assms by (auto split: option.splits prod.splits if_splits dest: admit_Continue)

text \<open>Who the request is after a step, and after a list of them.\<close>

fun step_who :: "('k, 'a) access_env \<Rightarrow> request \<Rightarrow> access_step \<Rightarrow> consumer option \<Rightarrow> consumer option \<Rightarrow> bool" where
  "step_who env req (AJwt p) b a = (\<exists>who. fst (check_jwt env req p) = Ok who \<and> a = (if who = None then b else who))"
| "step_who env req (AKeyAuth p) b a = (check_key env req p = Ok a)"
| "step_who env req (AAnyOf any) b a = chain_admits env req any b a"
| "step_who env req _ b a = (a = b)"

fun steps_who :: "('k, 'a) access_env \<Rightarrow> request \<Rightarrow> access_step list \<Rightarrow> consumer option \<Rightarrow> consumer option \<Rightarrow> bool" where
  "steps_who env req [] b a = (a = b)"
| "steps_who env req (s # ss) b a = (\<exists>c. step_who env req s b c \<and> steps_who env req ss c a)"

definition neutral :: "access_step \<Rightarrow> bool" where
  "neutral s \<longleftrightarrow> (case s of AJwt _ \<Rightarrow> False | AKeyAuth _ \<Rightarrow> False | AAnyOf _ \<Rightarrow> False | _ \<Rightarrow> True)"

lemma run_step_who: "run_step H new env rule req peer s st = (Continue, st') \<Longrightarrow> step_who env req s (who_of st) (who_of st')"
proof -
  assume run: "run_step H new env rule req peer s st = (Continue, st')"
  show ?thesis
  proof (cases s)
    case (AJwt p)
    then show ?thesis using run admit_jwt by (fastforce split: prod.splits)
  next
    case ARateLimit
    then show ?thesis using run run_step_consumer [of ARateLimit H new env rule req peer st] by simp
  qed (use run in \<open>auto simp: run_cors_def Let_def split: option.splits if_splits dest: admit_key run_any_of_Continue\<close>)
qed

lemma run_access_who:
  "run_access H new env rule req peer ss st = (Continue, st') \<Longrightarrow> steps_who env req ss (who_of st) (who_of st')"
proof (induction ss arbitrary: st)
  case (Cons s ss)
  then obtain st1 where "run_step H new env rule req peer s st = (Continue, st1)"
      "run_access H new env rule req peer ss st1 = (Continue, st')" by (auto split: prod.splits flow.splits)
  with Cons.IH [of st1] run_step_who [of H new env rule req peer s st st1] show ?case by auto
qed simp

lemma steps_who_append: "steps_who env req (xs @ ys) b a \<longleftrightarrow> (\<exists>c. steps_who env req xs b c \<and> steps_who env req ys c a)"
  by (induction xs arbitrary: b) auto

lemma steps_who_neutral: "\<forall>s \<in> set ss. neutral s \<Longrightarrow> steps_who env req ss b a \<Longrightarrow> a = b"
proof (induction ss arbitrary: b)
  case (Cons s ss)
  then show ?case by (cases s) (auto simp: neutral_def)
qed simp

text \<open>With jwt policies only: the consumer is one that an accepted token names, if one does.\<close>

lemma steps_who_jwt:
  assumes "\<forall>s \<in> set ss. neutral s \<or> (\<exists>p. s = AJwt p)" "steps_who env req ss b a"
  shows "if \<exists>p who. AJwt p \<in> set ss \<and> fst (check_jwt env req p) = Ok (Some who)
    then a \<noteq> None \<and> (\<exists>p. AJwt p \<in> set ss \<and> fst (check_jwt env req p) = Ok a) else a = b"
  using assms
proof (induction ss arbitrary: b)
  case (Cons s ss)
  then obtain c where c: "step_who env req s b c" "steps_who env req ss c a" by auto
  note IH = Cons.IH [OF _ c(2)]
  show ?case
  proof (cases "\<exists>p. s = AJwt p")
    case True
    then show ?thesis using IH c(1) Cons.prems(1) by (auto split: if_splits)
  next
    case False
    then have "c = b" using steps_who_neutral [of "[s]" env req b c] c(1) Cons.prems(1) by auto
    with False IH Cons.prems(1) show ?thesis by (auto split: if_splits)
  qed
qed simp

text \<open>
  Who a request that was let through is: under an auth policy the consumer of its chain; else the one an
  accepted key names, keys being read last; else one an accepted token names; else who it was.
\<close>

definition identified :: "('k, 'a) access_env \<Rightarrow> request \<Rightarrow> route_rule \<Rightarrow> consumer option \<Rightarrow> consumer option \<Rightarrow> bool" where
  "identified env req rule before after \<longleftrightarrow>
     (if auth_of rule \<noteq> None then
        (if ao_jwt (any_for rule) = None \<and> ao_key_auth (any_for rule) = None then after = before
         else chain_admits env req (any_for rule) before after)
      else if \<exists>p. KeyAuth p \<in> set (rr_plugins rule)
      then after \<noteq> None \<and> (\<exists>p. KeyAuth p \<in> set (rr_plugins rule) \<and> check_key env req p = Ok after)
      else if \<exists>p who. Jwt p \<in> set (rr_plugins rule) \<and> fst (check_jwt env req p) = Ok (Some who)
      then after \<noteq> None \<and> (\<exists>p. Jwt p \<in> set (rr_plugins rule) \<and> fst (check_jwt env req p) = Ok after)
      else after = before)"

lemma in_access_steps:
  "AJwt q \<in> set (access_steps auth p) \<longleftrightarrow> auth = None \<and> p = Jwt q"
  "AKeyAuth k \<in> set (access_steps auth p) \<longleftrightarrow> auth = None \<and> p = KeyAuth k"
  "AAnyOf any \<notin> set (access_steps auth p)"
  by (cases p; auto)+

lemma in_rule_access:
  "AJwt q \<in> set (rule_access rule) \<longleftrightarrow> auth_of rule = None \<and> Jwt q \<in> set (rr_plugins rule)"
  "AKeyAuth k \<in> set (rule_access rule) \<longleftrightarrow> auth_of rule = None \<and> KeyAuth k \<in> set (rr_plugins rule)"
  "auth_of rule = None \<Longrightarrow> AAnyOf any \<notin> set (rule_access rule)"
  by (auto simp: rule_access_def in_access_steps)

lemma rule_access_chain:
  assumes "auth_of rule \<noteq> None"
  shows "filter (\<lambda>s. \<not> neutral s) (rule_access rule) =
    (if ao_jwt (any_for rule) \<noteq> None \<or> ao_key_auth (any_for rule) \<noteq> None then [AAnyOf (any_for rule)] else [])"
proof -
  have "neutral s" if "s \<in> set (access_steps (auth_of rule) p)" for s p
    using that assms by (cases p) (auto simp: neutral_def split: if_splits)
  then show ?thesis using assms by (auto simp: rule_access_def filter_concat filter_empty_conv neutral_def)
qed

lemma steps_who_filter: "steps_who env req ss b a \<Longrightarrow> steps_who env req (filter (\<lambda>s. \<not> neutral s) ss) b a"
proof (induction ss arbitrary: b)
  case (Cons s ss)
  then obtain c where c: "step_who env req s b c" "steps_who env req (filter (\<lambda>s. \<not> neutral s) ss) c a" by auto
  then show ?case using steps_who_neutral [of "[s]" env req b c] by auto
qed simp

lemma rule_identified:
  assumes "steps_who env req (sort_key access_rank (rule_access rule)) b a"
  shows "identified env req rule b a"
proof -
  let ?l = "sort_key access_rank (rule_access rule)"
  let ?cs = "filter (\<lambda>s. \<not> neutral s) ?l"
  have cs: "?cs = sort_key access_rank (filter (\<lambda>s. \<not> neutral s) (rule_access rule))" by (simp add: filter_sort)
  have who: "steps_who env req ?cs b a" by (rule steps_who_filter [OF assms])
  show ?thesis
  proof (cases "auth_of rule")
    case (Some auth)
    then show ?thesis using who unfolding cs by (auto simp: rule_access_chain identified_def split: if_splits)
  next
    case None
    have kinds: "neutral s \<or> (\<exists>p. s = AJwt p) \<or> (\<exists>p. s = AKeyAuth p)" if "s \<in> set ?l" for s
    proof (cases s)
      case (AAnyOf any)
      with that in_rule_access(3) [OF None, of any] show ?thesis by (simp only: set_sort)
    qed (simp_all add: neutral_def)
    show ?thesis
    proof (cases "\<exists>p. KeyAuth p \<in> set (rr_plugins rule)")
      case True
      then have "\<exists>s \<in> set ?l. \<exists>p. s = AKeyAuth p" using None by (auto simp: in_rule_access)
      then obtain xs p ys where l: "?l = xs @ AKeyAuth p # ys" and ys: "\<forall>s \<in> set ys. \<nexists>p. s = AKeyAuth p"
        using split_list_last_prop [of ?l "\<lambda>s. \<exists>p. s = AKeyAuth p"] by blast
      have "sorted (map access_rank ?l)" by simp
      then have "\<forall>s \<in> set ys. 3 \<le> access_rank s" unfolding l by (simp add: sorted_append)
      then have "\<forall>s \<in> set ys. neutral s" using ys kinds unfolding l by fastforce
      then have "check_key env req p = Ok a"
        using assms unfolding l by (auto simp: steps_who_append dest: steps_who_neutral)
      moreover have "AKeyAuth p \<in> set ?l" by (simp only: l) simp
      ultimately show ?thesis using None True check_key_names by (auto simp: identified_def in_rule_access)
    next
      case False
      then have "\<forall>s \<in> set ?l. neutral s \<or> (\<exists>p. s = AJwt p)" using kinds None by (metis in_rule_access(2) set_sort)
      from steps_who_jwt [OF this assms] None False show ?thesis
        unfolding identified_def set_sort in_rule_access by (simp cong: if_cong)
    qed
  qed
qed

lemma rule_access_continued:
  assumes "compile_chain syn rule = Ok ch"
    and "run_access H new env rule req peer (ch_access ch) st = (Continue, st')"
    and "s \<in> set (rule_access rule)"
  obtains st1 st2 where "run_step H new env rule req peer s st1 = (Continue, st2)"
    and "4 \<le> access_rank s \<Longrightarrow> as_cx st2 = as_cx st'"
proof -
  let ?l = "sort_key access_rank (rule_access rule)"
  have "s \<in> set ?l" using assms(3) by simp
  then obtain xs ys where l: "?l = xs @ s # ys" by (meson split_list)
  have "sorted (map access_rank ?l)" by simp
  then have later: "\<forall>y \<in> set ys. access_rank s \<le> access_rank y" unfolding l by (simp add: sorted_append)
  have run: "run_access H new env rule req peer (xs @ s # (ys @ [ARateLimit])) st = (Continue, st')"
    using assms(2) compile_chain_Ok(1) [OF assms(1)] l by simp
  show thesis
  proof (rule run_access_split [OF run])
    fix st1 st2 assume one: "run_step H new env rule req peer s st1 = (Continue, st2)"
      and rest: "run_access H new env rule req peer (ys @ [ARateLimit]) st2 = (Continue, st')"
    have "as_cx st2 = as_cx st'" if "4 \<le> access_rank s"
    proof -
      have "\<forall>y \<in> set (ys @ [ARateLimit]). 4 \<le> access_rank y" using that later by auto
      from run_access_consumer [OF this, of H new env rule req peer st2] rest show ?thesis by simp
    qed
    with one that show thesis by blast
  qed
qed

text \<open>
  C1: a request is let through only if every policy of its rule admits it, and as whom it was
  identified. When the access phase of a compiled rule ends in "continue", every jwt and key_auth policy
  accepted its credential (or, under an auth policy, the first of them whose credential is there did, or
  the request presented none of their credentials and the known anonymous consumer applies), the consumer
  the request ends up with is the one the accepted credential names, or the anonymous one, the address
  restriction admits the client address, the acl admits the groups of that consumer, and the declared
  length is within the size limit; whatever order the policies were configured in.
\<close>

theorem continue_means_admitted:
  assumes "compile_chain syn rule = Ok ch"
    and "run_access H new env rule req peer (ch_access ch) st = (Continue, st')"
  shows "(\<forall>p \<in> set (rr_plugins rule). policy_admits env rule req peer (as_cx st') p) \<and>
    identified env req rule (cx_consumer (as_cx st)) (cx_consumer (as_cx st'))"
proof (rule conjI)
  note continued = rule_access_continued [OF assms]
  show "\<forall>p \<in> set (rr_plugins rule). policy_admits env rule req peer (as_cx st') p"
  proof
    fix p assume p: "p \<in> set (rr_plugins rule)"
    have step: "s \<in> set (access_steps (auth_of rule) p) \<Longrightarrow> s \<in> set (rule_access rule)" for s
      using p by (auto simp: rule_access_def)
    have ran: "\<exists>st1 st2. run_step H new env rule req peer s st1 = (Continue, st2) \<and>
        (4 \<le> access_rank s \<longrightarrow> as_cx st2 = as_cx st')" if "s \<in> set (access_steps (auth_of rule) p)" for s
      by (rule continued [OF step [OF that]]) blast
    show "policy_admits env rule req peer (as_cx st') p"
    proof (cases p)
      case (Jwt q)
      with ran [of "AJwt q"] show ?thesis by (auto dest: run_step_Continue(1) [OF _ refl] simp del: run_step.simps)
    next
      case (KeyAuth q)
      with ran [of "AKeyAuth q"] show ?thesis by (auto dest: run_step_Continue(2) [OF _ refl] simp del: run_step.simps)
    next
      case (IpRestriction q)
      with ran [of "AIpRestriction q"] show ?thesis by (auto dest: run_step_Continue(3) [OF _ refl] simp del: run_step.simps)
    next
      case (RequestSizeLimit q)
      with ran [of "ASizeLimit (max_bytes q)"] show ?thesis
        by (auto dest: run_step_Continue(5) [OF _ refl] simp del: run_step.simps)
    next
      case (Acl q)
      with ran [of "AAcl q"] show ?thesis by (auto dest: run_step_Continue(4) [OF _ refl] simp del: run_step.simps)
    qed simp_all
  qed
  from run_access_who [OF assms(2)] obtain c
    where "steps_who env req (sort_key access_rank (rule_access rule)) (who_of st) c" "who_of st' = c"
    by (auto simp: compile_chain_Ok(1) [OF assms(1)] steps_who_append)
  then show "identified env req rule (who_of st) (who_of st')" by (simp add: rule_identified)
qed

text \<open>A rule with a key_auth policy and a size limit, and a request that satisfies both.\<close>

definition guarded_rule :: route_rule where
  "guarded_rule =
     \<lparr>rr_route = ''r'', rr_rule_index = 0, rr_creation_timestamp = [], rr_matches = [],
      rr_filters = \<lparr>request_headers = \<lparr>ho_set = [], ho_add = [], ho_remove = []\<rparr>,
        response_headers = \<lparr>ho_set = [], ho_add = [], ho_remove = []\<rparr>,
        f_redirect = None, f_rewrite = None, f_mirror = None\<rparr>,
      rr_backends = [], rr_timeouts = \<lparr>request_ms = None, backend_request_ms = None, connect_ms = None\<rparr>,
      rr_rate_limit = None,
      rr_plugins = [RequestSizeLimit \<lparr>max_bytes = 10\<rparr>, KeyAuth default_key_auth]\<rparr>"

definition any_syntax :: header_syntax where
  "any_syntax = \<lparr>valid_name = (\<lambda>_. True), valid_value = (\<lambda>_. True)\<rparr>"

definition sample_env :: "(nat, nat) access_env" where
  "sample_env = \<lparr>en_config = keyed_config, en_jwt_keys = (\<lambda>_. None), en_lib = toy_lib, en_to_str = Some,
     en_sha = toy_sha, en_trusted = [], en_client_headers = [], en_now_ms = 0\<rparr>"

definition keyed_request :: request where
  "keyed_request = \<lparr>rq_method = ''GET'',
     rq_lines = (\<lambda>n. if n = ''x-api-key'' then [''k''] else if n = ''content-length'' then [''7''] else [])\<rparr>"

definition fresh_state :: access_state where
  "fresh_state = \<lparr>as_cx = default_ctx, as_limiter = default_table, as_refresh = False\<rparr>"

definition guarded_chain :: chain where
  "guarded_chain = \<lparr>ch_access = [AKeyAuth default_key_auth, ASizeLimit 10, ARateLimit],
     ch_upstream = [RemoveHeader ''x-api-key''], ch_body = [SizeLimit 10], ch_response = []\<rparr>"

lemma guarded_chain: "compile_chain any_syntax guarded_rule = Ok guarded_chain"
  by code_simp

text \<open>The same with an auth policy that lets callers without a key in as \<open>guest\<close>, and a request without one.\<close>

definition guest_rule :: route_rule where
  "guest_rule = guarded_rule\<lparr>rr_plugins := rr_plugins guarded_rule @ [Auth \<lparr>au_anonymous = Some ''guest'', au_workspace = None\<rparr>]\<rparr>"

definition guest :: consumer where
  "guest = \<lparr>c_name = ''guest'', c_id = ''guest'', c_anonymous = True\<rparr>"

definition guest_env :: "(nat, nat) access_env" where
  "guest_env = sample_env\<lparr>en_config := keyed_config\<lparr>cf_consumers := [(''guest'', [])]\<rparr>\<rparr>"

definition keyless_request :: request where
  "keyless_request = keyed_request\<lparr>rq_lines := (\<lambda>_. [])\<rparr>"

definition guest_chain :: chain where
  "guest_chain = guarded_chain\<lparr>ch_access := [AAnyOf \<lparr>ao_jwt = None, ao_key_auth = Some default_key_auth, ao_anonymous = Some guest\<rparr>,
     ASizeLimit 10, ARateLimit]\<rparr>"

lemma guest_chain: "compile_chain any_syntax guest_rule = Ok guest_chain"
  by code_simp

theorem continue_means_admitted_witness:
  "policy_admits sample_env guarded_rule keyed_request None
     (as_cx (snd (run_access lines_ops [] sample_env guarded_rule keyed_request None (ch_access guarded_chain) fresh_state)))
     (KeyAuth default_key_auth) \<and>
   cx_consumer (as_cx (snd (run_access lines_ops [] guest_env guest_rule keyless_request None (ch_access guest_chain) fresh_state)))
     = Some guest"
proof
  let ?run = "run_access lines_ops [] sample_env guarded_rule keyed_request None (ch_access guarded_chain) fresh_state"
  have "fst ?run = Continue" by code_simp
  then have "?run = (Continue, snd ?run)" by (metis prod.collapse)
  from continue_means_admitted [OF guarded_chain this, THEN conjunct1]
  show "policy_admits sample_env guarded_rule keyed_request None (as_cx (snd ?run)) (KeyAuth default_key_auth)"
    by (rule bspec) (simp add: guarded_rule_def)
  let ?go = "run_access lines_ops [] guest_env guest_rule keyless_request None (ch_access guest_chain) fresh_state"
  have "fst ?go = Continue" by code_simp
  then have go: "?go = (Continue, snd ?go)" by (metis prod.collapse)
  have "auth_of guest_rule \<noteq> None" "any_for guest_rule = \<lparr>ao_jwt = None, ao_key_auth = Some default_key_auth, ao_anonymous = Some guest\<rparr>"
    by code_simp+
  moreover have "case check_key guest_env keyless_request default_key_auth of Err _ \<Rightarrow> True | Ok _ \<Rightarrow> False" by code_simp
  ultimately show "cx_consumer (as_cx (snd ?go)) = Some guest"
    using continue_means_admitted [OF guest_chain go, THEN conjunct2]
    by (auto simp: identified_def chain_admits_def split: sum.splits)
qed

section \<open>A refused request spends nothing of a limit\<close>

lemma run_limit_flow: "fst (run_limit env rule req peer st) = Continue \<or>
    (\<exists>f. fst (run_limit env rule req peer st) = Fail f \<and> fl_key f = RateLimited)"
  by (auto simp: run_limit_def Let_def split: option.splits prod.splits limit_outcome.splits)

lemma run_access_limiter:
  assumes "ARateLimit \<notin> set ss" and "run_access H new env rule req peer (ss @ [ARateLimit]) st = (flow, st')"
  shows "as_limiter st' = as_limiter st \<or> flow = Continue \<or> (\<exists>f. flow = Fail f \<and> fl_key f = RateLimited)"
  using assms
proof (induction ss arbitrary: st)
  case Nil
  then have "flow = fst (run_limit env rule req peer st)"
    by (auto split: prod.splits flow.splits)
  then show ?case by (metis run_limit_flow)
next
  case (Cons s ss)
  obtain f st1 where step: "run_step H new env rule req peer s st = (f, st1)" by fastforce
  with run_step_limiter [of s H new env rule req peer st] Cons.prems(1)
  have "as_limiter st1 = as_limiter st" by auto
  with Cons.IH [of st1] Cons.prems step show ?case by (cases f) auto
qed

lemma rate_limit_not_in_rule_access: "ARateLimit \<notin> set (rule_access rule)"
proof -
  have "ARateLimit \<notin> set (access_steps auth p)" for auth p by (cases p) auto
  then show ?thesis by (auto simp: rule_access_def)
qed

text \<open>
  A request that a policy refuses or answers does not count against a request limit. Unless
  the access phase of a compiled rule ends in "continue" or in the limit's own refusal, the
  limiter's table is the one it began with, whatever the policies and their order.
\<close>

theorem refusal_spends_nothing:
  assumes "compile_chain syn rule = Ok ch"
    and "run_access H new env rule req peer (ch_access ch) st = (flow, st')"
    and "flow \<noteq> Continue" and "\<forall>f. flow = Fail f \<longrightarrow> fl_key f \<noteq> RateLimited"
  shows "as_limiter st' = as_limiter st"
proof -
  have "ARateLimit \<notin> set (sort_key access_rank (rule_access rule))"
    using rate_limit_not_in_rule_access by simp
  from run_access_limiter [OF this, of H new env rule req peer st flow st'] show ?thesis
    using assms(2-4) compile_chain_Ok(1) [OF assms(1)] by auto
qed

theorem refusal_spends_nothing_witness:
  "as_limiter (snd (run_access lines_ops [] sample_env guarded_rule (keyed_request\<lparr>rq_lines := (\<lambda>_. [])\<rparr>) None
     (ch_access guarded_chain) fresh_state)) = as_limiter fresh_state"
proof -
  let ?run = "run_access lines_ops [] sample_env guarded_rule (keyed_request\<lparr>rq_lines := (\<lambda>_. [])\<rparr>) None
     (ch_access guarded_chain) fresh_state"
  have "case fst ?run of Fail f \<Rightarrow> fl_key f = AuthKeyMissing | _ \<Rightarrow> False" by code_simp
  then obtain f where f: "fst ?run = Fail f" "fl_key f = AuthKeyMissing" by (cases "fst ?run") auto
  then have "?run = (Fail f, snd ?run)" by (metis prod.collapse)
  from refusal_spends_nothing [OF guarded_chain this] f(2) show ?thesis by simp
qed

section \<open>The caller's key stays at the gateway\<close>

text \<open>Two header maps that differ at most in the lines of one name.\<close>

definition differ_only_at :: "string \<Rightarrow> header_view \<Rightarrow> header_view \<Rightarrow> bool" where
  "differ_only_at n f g \<longleftrightarrow> (\<forall>m. \<not> eq_ignore_ascii_case m n \<longrightarrow> f m = g m)"

lemma view_del_hides: "differ_only_at n f g \<Longrightarrow> view_del n f = view_del n g"
  by (auto simp: differ_only_at_def view_del_def fun_eq_iff)

lemma view_del_differ: "differ_only_at n f g \<Longrightarrow> differ_only_at n (view_del m f) (view_del m g)"
  by (simp add: differ_only_at_def view_del_def)

lemma fold_del_hides: "n \<in> set ns \<Longrightarrow> differ_only_at n f g \<Longrightarrow> fold view_del ns f = fold view_del ns g"
proof (induction ns arbitrary: f g)
  case (Cons m ns)
  show ?case
  proof (cases "m = n")
    case True
    then show ?thesis using view_del_hides [OF Cons.prems(2)] by simp
  next
    case False
    then show ?thesis using Cons.IH [OF _ view_del_differ [OF Cons.prems(2)]] Cons.prems(1) by simp
  qed
qed simp

text \<open>In a compiled chain the removals come before every transformation.\<close>

lemma sorted_upstream:
  "\<exists>names policies. sort_key upstream_rank us = map RemoveHeader names @ map TransformRequest policies \<and>
     (\<forall>n. RemoveHeader n \<in> set us \<longleftrightarrow> n \<in> set names) \<and>
     (\<forall>p. TransformRequest p \<in> set us \<longleftrightarrow> p \<in> set policies)"
proof -
  have ordered: "\<exists>names policies. us = map RemoveHeader names @ map TransformRequest policies"
    if "sorted (map upstream_rank us)" for us
    using that
  proof (induction us)
    case (Cons u us)
    then obtain names policies where us: "us = map RemoveHeader names @ map TransformRequest policies" by auto
    show ?case
    proof (cases u)
      case (RemoveHeader n)
      with us show ?thesis by (intro exI [of _ "n # names"] exI [of _ policies]) simp
    next
      case (TransformRequest p)
      with Cons.prems us have "names = []" by (cases names) (auto simp: word_le_nat_alt)
      with us TransformRequest show ?thesis by (intro exI [of _ "[]"] exI [of _ "p # policies"]) simp
    qed
  qed simp
  obtain names policies where l: "sort_key upstream_rank us = map RemoveHeader names @ map TransformRequest policies"
    using ordered [of "sort_key upstream_rank us"] by auto
  have "set us = RemoveHeader ` set names \<union> TransformRequest ` set policies"
    using arg_cong [OF l, of set] by simp
  with l show ?thesis by (intro exI conjI) auto
qed

lemma upstream_view:
  assumes "header_target H vn vv" and "list_all vn names"
    and "\<forall>p \<in> set policies. writable vn vv (rq_headers p)"
  shows "h_get_all H (fst (fold (run_upstream_step H lib valid_target)
      (map RemoveHeader names @ map TransformRequest policies) (h, u))) =
    fold (\<lambda>p. edit_view (rq_headers p)) policies (fold view_del names (h_get_all H h))"
proof -
  have removes: "fold (run_upstream_step H lib valid_target) (map RemoveHeader names) (h, u) =
      (fold (h_del H) names h, u)" for h u by (induction names arbitrary: h) simp_all
  have "h_get_all H (fst (fold (run_upstream_step H lib valid_target) (map TransformRequest policies) (h, u))) =
      fold (\<lambda>p. edit_view (rq_headers p)) policies (h_get_all H h)" for h u
    using assms(3)
  proof (induction policies arbitrary: h u)
    case (Cons p policies)
    then show ?case using header_target.view_edit_headers [OF assms(1), of "rq_headers p" h] by simp
  qed simp
  then show ?thesis using removes header_target.view_dels [OF assms(1,2)] by simp
qed

text \<open>
  C36: the key a key_auth policy checks never reaches the upstream, under its own name or any
  other: two requests whose headers differ only in the lines of the key's header leave the
  upstream phase of the compiled rule with the same headers, whatever transformations the rule
  has and in whatever order its policies were configured.
\<close>

theorem key_not_forwarded:
  assumes "compile_chain syn rule = Ok ch" and "header_target H (valid_name syn) (valid_value syn)"
    and "KeyAuth p \<in> set (rr_plugins rule)"
    and "\<forall>q. KeyAuth q \<in> set (rr_plugins rule) \<longrightarrow> valid_name syn (ka_header q)"
    and "differ_only_at (ka_header p) (h_get_all H h) (h_get_all H h')"
  shows "h_get_all H (fst (upstream_request H lib valid_target ch (h, u))) =
    h_get_all H (fst (upstream_request H lib valid_target ch (h', u')))"
proof -
  let ?us = "concat (map upstream_steps (rr_plugins rule))"
  obtain names policies where l: "ch_upstream ch = map RemoveHeader names @ map TransformRequest policies"
    and names: "\<forall>n. RemoveHeader n \<in> set ?us \<longleftrightarrow> n \<in> set names"
    and policies: "\<forall>q. TransformRequest q \<in> set ?us \<longleftrightarrow> q \<in> set policies"
    using sorted_upstream [of ?us] compile_chain_Ok(2) [OF assms(1)] by auto
  have steps: "RemoveHeader n \<in> set (upstream_steps q) \<longleftrightarrow> (\<exists>k. q = KeyAuth k \<and> n = ka_header k)"
    "TransformRequest t \<in> set (upstream_steps q) \<longleftrightarrow> q = RequestTransformer t" for n q t
    by (cases q; auto)+
  have in_us: "x \<in> set ?us \<longleftrightarrow> (\<exists>q \<in> set (rr_plugins rule). x \<in> set (upstream_steps q))" for x by auto
  have removed: "n \<in> set names \<longleftrightarrow> (\<exists>k. KeyAuth k \<in> set (rr_plugins rule) \<and> n = ka_header k)" for n
    unfolding names [rule_format, symmetric] in_us steps(1) by blast
  have transformed: "t \<in> set policies \<longleftrightarrow> RequestTransformer t \<in> set (rr_plugins rule)" for t
    unfolding policies [rule_format, symmetric] in_us steps(2) by blast
  have mem: "ka_header p \<in> set names" using assms(3) removed by blast
  have "list_all (valid_name syn) names"
    using removed assms(4) by (auto simp: list_all_iff)
  moreover have "\<forall>q \<in> set policies. writable (valid_name syn) (valid_value syn) (rq_headers q)"
  proof
    fix q assume "q \<in> set policies"
    with transformed have "RequestTransformer q \<in> set (rr_plugins rule)" by blast
    then show "writable (valid_name syn) (valid_value syn) (rq_headers q)"
      by (rule compile_chain_Ok(5) [OF assms(1)])
  qed
  ultimately have "h_get_all H (fst (upstream_request H lib valid_target ch (k, v))) =
      fold (\<lambda>p. edit_view (rq_headers p)) policies (fold view_del names (h_get_all H k))" for k v
    unfolding upstream_request_def l by (rule upstream_view [OF assms(2)])
  then show ?thesis using fold_del_hides [OF mem assms(5)] by simp
qed

theorem key_not_forwarded_witness:
  "h_get_all lines_ops (fst (upstream_request lines_ops \<lparr>fm_decode = id, fm_encode = id\<rparr> (\<lambda>_. True) guarded_chain
      ([(''X-Api-Key'', ''secret''), (''a'', ''1'')], \<lparr>u_path = ''/'', u_query = None\<rparr>))) =
   h_get_all lines_ops (fst (upstream_request lines_ops \<lparr>fm_decode = id, fm_encode = id\<rparr> (\<lambda>_. True) guarded_chain
      ([(''a'', ''1'')], \<lparr>u_path = ''/'', u_query = None\<rparr>)))"
proof (rule key_not_forwarded [OF guarded_chain, where p = default_key_auth])
  show "header_target lines_ops (valid_name any_syntax) (valid_value any_syntax)"
    using header_lines.header_target_axioms by (simp add: any_syntax_def)
  show "KeyAuth default_key_auth \<in> set (rr_plugins guarded_rule)" by (simp add: guarded_rule_def)
  show "\<forall>q. KeyAuth q \<in> set (rr_plugins guarded_rule) \<longrightarrow> valid_name any_syntax (ka_header q)"
    by (simp add: any_syntax_def)
  have "eq_ignore_ascii_case ''X-Api-Key'' ''x-api-key''" by code_simp
  then show "differ_only_at (ka_header default_key_auth)
      (h_get_all lines_ops [(''X-Api-Key'', ''secret''), (''a'', ''1'')]) (h_get_all lines_ops [(''a'', ''1'')])"
    by (auto simp: differ_only_at_def default_key_auth_def lines_ops_def eq_ignore_ascii_case_def)
qed

section \<open>Bodies are cut at their limit\<close>

definition feed :: "chain \<Rightarrow> nat list \<Rightarrow> request_ctx \<Rightarrow> request_ctx \<times> error_key option list" where
  "feed ch lens cx = run_steps (\<lambda>len. request_body ch len False) lens cx"

lemma feed_bytes:
  assumes "ch_body ch \<noteq> []" and "unat (cx_body_bytes cx) + sum_list lens < 2 ^ 64"
  shows "unat (cx_body_bytes (fst (feed ch lens cx))) = unat (cx_body_bytes cx) + sum_list lens"
  using assms(2)
proof (induction lens arbitrary: cx)
  case (Cons len lens)
  let ?cx = "fst (request_body ch len False cx)"
  have "unat (of_nat len :: u64) = len" using Cons.prems by (intro unat_of_nat_small) simp
  then have "unat (cx_body_bytes ?cx) = unat (cx_body_bytes cx) + len"
    using assms(1) Cons.prems by (simp add: request_body_def Let_def unat_saturating_add)
  with Cons.IH [of ?cx] Cons.prems show ?case
    by (simp add: feed_def run_steps_Cons del: run_steps.simps(2))
qed (simp add: feed_def)

text \<open>
  C39: a body is refused as soon as it outgrows the rule's size limit and not before: after any
  chunks of a request that is not a tunnel, the next chunk is refused exactly when the bytes so
  far and its own together exceed the limit of some size policy of the rule; a new attempt starts
  the count again.
\<close>

theorem body_limit_exact:
  assumes "compile_chain syn rule = Ok ch" and "sum_list (lens @ [len]) < 2 ^ 64"
  shows "snd (request_body ch len False (fst (feed ch lens (new_attempt cx)))) = Some RequestTooLarge \<longleftrightarrow>
    (\<exists>p. RequestSizeLimit p \<in> set (rr_plugins rule) \<and> unat (max_bytes p) < sum_list (lens @ [len]))"
proof (cases "ch_body ch = []")
  case True
  have "body_steps (RequestSizeLimit p) \<noteq> []" for p by simp
  then have "RequestSizeLimit p \<notin> set (rr_plugins rule)" for p
    using True compile_chain_Ok(3) [OF assms(1)] by fastforce
  with True show ?thesis by (simp add: request_body_def)
next
  case False
  let ?cx = "fst (feed ch lens (new_attempt cx))"
  have bytes: "unat (cx_body_bytes ?cx) = sum_list lens"
    using feed_bytes [OF False, of "new_attempt cx" lens] assms(2) by (simp add: new_attempt_def)
  have "unat (of_nat len :: u64) = len" using assms(2) by (intro unat_of_nat_small) simp
  with bytes assms(2) have total: "unat (saturating_add (cx_body_bytes ?cx) (of_nat len)) = sum_list (lens @ [len])"
    by (simp add: unat_saturating_add)
  have "SizeLimit cap \<in> set (ch_body ch) \<longleftrightarrow> (\<exists>p. RequestSizeLimit p \<in> set (rr_plugins rule) \<and> cap = max_bytes p)" for cap
  proof -
    have "SizeLimit cap \<in> set (body_steps q) \<longleftrightarrow> (\<exists>p. q = RequestSizeLimit p \<and> cap = max_bytes p)" for q
      by (cases q) auto
    then show ?thesis by (auto simp: compile_chain_Ok(3) [OF assms(1)])
  qed
  moreover have "snd (request_body ch len False ?cx) = Some RequestTooLarge \<longleftrightarrow>
      (\<exists>cap. SizeLimit cap \<in> set (ch_body ch) \<and> unat cap < sum_list (lens @ [len]))"
  proof -
    have "over_limit n s \<longleftrightarrow> (\<exists>cap. s = SizeLimit cap \<and> unat cap < unat n)" for n s
      by (cases s) (simp add: word_less_nat_alt)
    with total False show ?thesis by (auto simp: request_body_def Let_def list_ex_iff)
  qed
  ultimately show ?thesis by auto
qed

theorem body_limit_exact_witness:
  "snd (request_body guarded_chain 4 False (fst (feed guarded_chain [5, 2] (new_attempt default_ctx)))) = Some RequestTooLarge"
  using body_limit_exact [OF guarded_chain, of "[5, 2]" 4 default_ctx] by (simp add: guarded_rule_def)

end
