(* ===== verification/Hostname.thy ===== *)
theory Hostname
  imports Rust_Str
begin

text \<open>
  \<^verbatim>\<open>gapura-core/src/hostname.rs\<close>: matching a host against an exact or wildcard pattern, the
  effective hostnames of a route on a listener, and specificity. The names carry a
  \<open>host_\<close> prefix where the source's module path says so.
\<close>

section \<open>Definitions\<close>

definition host_matches :: "string \<Rightarrow> string \<Rightarrow> bool" where
  "host_matches pattern host =
     (case strip_prefix ''*.'' pattern of
        Some suf \<Rightarrow>
          length host > length suf + 1 \<and>
          host ! (length host - length suf - 1) = CHR ''.'' \<and>
          eq_ignore_ascii_case (drop (length host - length suf) host) suf
      | None \<Rightarrow> eq_ignore_ascii_case pattern host)"

text \<open>The loop of \<open>intersect\<close> for a listener and a route that both name hosts.\<close>

fun narrower :: "string \<Rightarrow> string list \<Rightarrow> string list" where
  "narrower l [] = []"
| "narrower l (r # rs) =
     (if host_matches l r then to_ascii_lowercase r # narrower l rs
      else if host_matches r l then to_ascii_lowercase l # narrower l rs
      else narrower l rs)"

definition intersect :: "string option \<Rightarrow> string list \<Rightarrow> string list option" where
  "intersect listener route =
     (case (listener, route = []) of
        (None, True) \<Rightarrow> Some []
      | (None, False) \<Rightarrow> Some (remdups_adj (sort (map to_ascii_lowercase route)))
      | (Some l, True) \<Rightarrow> Some (remdups_adj (sort [to_ascii_lowercase l]))
      | (Some l, False) \<Rightarrow>
          (let out = narrower l route
           in if out = [] then None else Some (remdups_adj (sort out))))"

definition specificity :: "string option \<Rightarrow> u8 \<times> nat" where
  "specificity hostname =
     (case hostname of
        None \<Rightarrow> (0, 0)
      | Some h \<Rightarrow> (if prefix ''*.'' h then 1 else 2, length h))"

section \<open>What a pattern matches\<close>

text \<open>
  A wildcard matches exactly the hosts that end, in any case, in a dot and its suffix with
  something before that.
\<close>

lemma host_matches_wildcard:
  "host_matches (''*.'' @ suf) h \<longleftrightarrow>
     (\<exists>x y. h = x @ CHR ''.'' # y \<and> x \<noteq> [] \<and> eq_ignore_ascii_case y suf)"
  (is "_ \<longleftrightarrow> ?r")
proof
  let ?n = "length h - length suf - 1"
  assume "host_matches (''*.'' @ suf) h"
  then have n: "length h > length suf + 1" "h ! ?n = CHR ''.''"
      "eq_ignore_ascii_case (drop (length h - length suf) h) suf"
    by (auto simp: host_matches_def strip_prefix_def)
  have "h = take ?n h @ h ! ?n # drop (Suc ?n) h" using n(1) by (intro id_take_nth_drop) simp
  moreover have "Suc ?n = length h - length suf" using n(1) by simp
  ultimately show ?r using n by (intro exI [of _ "take ?n h"] exI [of _ "drop (Suc ?n) h"]) auto
next
  assume ?r
  then obtain x y where "h = x @ CHR ''.'' # y" "x \<noteq> []" "eq_ignore_ascii_case y suf" by blast
  moreover from this(3) have "length y = length suf" by (rule eq_ignore_ascii_case_length)
  ultimately show "host_matches (''*.'' @ suf) h"
    by (auto simp: host_matches_def strip_prefix_def nth_append)
qed

lemma host_matches_exact: "\<not> prefix ''*.'' p \<Longrightarrow> host_matches p h \<longleftrightarrow> eq_ignore_ascii_case p h"
  by (simp add: host_matches_def strip_prefix_def)

lemma pattern_cases:
  obtains (wildcard) suf where "p = ''*.'' @ suf" | (exact) "\<not> prefix ''*.'' p"
  by (auto simp: prefix_def)

text \<open>Both sides are compared without regard to ASCII case.\<close>

lemma prefix_star_lower: "prefix ''*.'' (to_ascii_lowercase p) \<longleftrightarrow> prefix ''*.'' p"
  by (cases p rule: remdups_adj.cases) auto

lemma host_matches_lower [simp]:
  "host_matches (to_ascii_lowercase p) h \<longleftrightarrow> host_matches p h"
proof (cases p rule: pattern_cases)
  case (wildcard suf)
  then show ?thesis
    using host_matches_wildcard [of "to_ascii_lowercase suf" h] host_matches_wildcard [of suf h]
    by (simp add: eq_ignore_ascii_case_def comp_def)
next
  case exact
  then show ?thesis
    by (simp add: host_matches_exact prefix_star_lower) (simp add: eq_ignore_ascii_case_def comp_def)
qed

lemma host_matches_cong:
  assumes "eq_ignore_ascii_case h h'" and "host_matches p h"
  shows "host_matches p h'"
proof (cases p rule: pattern_cases)
  case (wildcard suf)
  with assms(2) obtain x y where xy: "h = x @ CHR ''.'' # y" "x \<noteq> []" "eq_ignore_ascii_case y suf"
    by (auto simp: host_matches_wildcard simp del: append.simps)
  with assms(1) have "map ascii_lower h' = map ascii_lower x @ CHR ''.'' # map ascii_lower y"
    by (simp add: eq_ignore_ascii_case_def)
  then obtain x' d y' where "h' = x' @ d # y'" "map ascii_lower x' = map ascii_lower x"
      "ascii_lower d = CHR ''.''" "map ascii_lower y' = map ascii_lower y"
    by (auto simp: map_eq_append_conv Cons_eq_map_conv)
  moreover from this(2) xy(2) have "x' \<noteq> []" by auto
  moreover have "eq_ignore_ascii_case y' suf"
    using calculation(4) xy(3) by (simp add: eq_ignore_ascii_case_def)
  ultimately show ?thesis
    unfolding wildcard host_matches_wildcard by (intro exI [of _ x'] exI [of _ y']) simp
next
  case exact
  with assms show ?thesis by (simp add: host_matches_exact eq_ignore_ascii_case_def)
qed

section \<open>Intersection\<close>

text \<open>The hosts a list of hostnames admits: every host when the list is empty.\<close>

definition admits :: "string list \<Rightarrow> string \<Rightarrow> bool" where
  "admits hosts h \<longleftrightarrow> hosts = [] \<or> (\<exists>p \<in> set hosts. host_matches p h)"

lemma matches_trans:
  assumes "host_matches l r" and "host_matches r h"
  shows "host_matches l h"
proof (cases r rule: pattern_cases)
  case exact
  with assms show ?thesis by (auto simp: host_matches_exact intro: host_matches_cong)
next
  case (wildcard suf)
  with assms(2) obtain x y where h: "h = x @ CHR ''.'' # y" "x \<noteq> []" "eq_ignore_ascii_case y suf"
    by (auto simp: host_matches_wildcard simp del: append.simps)
  have h': "eq_ignore_ascii_case (x @ CHR ''.'' # suf) h"
    using h by (simp add: eq_ignore_ascii_case_def)
  have "host_matches l (x @ CHR ''.'' # suf)"
  proof (cases l rule: pattern_cases)
    case lw: (wildcard lsuf)
    with assms(1) wildcard obtain u v where uv: "''*.'' @ suf = u @ CHR ''.'' # v" "u \<noteq> []"
        "eq_ignore_ascii_case v lsuf"
      by (auto simp: host_matches_wildcard simp del: append.simps)
    from uv(1,2) have "\<exists>w. x @ CHR ''.'' # suf = (x @ w) @ CHR ''.'' # v"
      by (auto simp: Cons_eq_append_conv append_eq_Cons_conv)
    with h(2) uv(3) show ?thesis
      unfolding lw host_matches_wildcard by (metis append_is_Nil_conv)
  next
    case exact
    with assms(1) have "eq_ignore_ascii_case l r" by (simp add: host_matches_exact)
    then have "prefix ''*.'' l"
      using wildcard prefix_star_lower [of l] prefix_star_lower [of r]
      by (simp add: eq_ignore_ascii_case_def)
    with exact show ?thesis by simp
  qed
  with h' show ?thesis by (rule host_matches_cong)
qed

text \<open>Two patterns that share a host are comparable: one matches the other read as a host.\<close>

lemma matches_comparable:
  assumes "host_matches l h" and "host_matches r h"
  shows "host_matches l r \<or> host_matches r l"
proof (cases l rule: pattern_cases)
  case exact
  with assms show ?thesis
    by (auto simp: host_matches_exact eq_ignore_ascii_case_sym [of l] intro: host_matches_cong)
next
  case l: (wildcard ls)
  show ?thesis
  proof (cases r rule: pattern_cases)
    case exact
    with assms show ?thesis
      by (auto simp: host_matches_exact eq_ignore_ascii_case_sym [of r] intro: host_matches_cong)
  next
    case r: (wildcard rs)
    from assms l obtain x y where 1: "h = x @ CHR ''.'' # y" "eq_ignore_ascii_case y ls"
      by (auto simp: host_matches_wildcard simp del: append.simps)
    from assms r obtain u v where 2: "h = u @ CHR ''.'' # v" "eq_ignore_ascii_case v rs"
      by (auto simp: host_matches_wildcard simp del: append.simps)
    from 1(1) 2(1) have "x @ CHR ''.'' # y = u @ CHR ''.'' # v" by simp
    then consider w where "y = w @ CHR ''.'' # v" | "y = v" | w where "v = w @ CHR ''.'' # y"
      by (auto simp: append_eq_append_conv2 Cons_eq_append_conv append_eq_Cons_conv)
    then show ?thesis
    proof cases
      case (1 w)
      have "eq_ignore_ascii_case ((''*.'' @ w) @ CHR ''.'' # v) l"
        using 1 \<open>eq_ignore_ascii_case y ls\<close> by (simp add: l eq_ignore_ascii_case_def)
      moreover have "host_matches r ((''*.'' @ w) @ CHR ''.'' # v)"
        unfolding r host_matches_wildcard using 2(2) by blast
      ultimately show ?thesis using host_matches_cong by blast
    next
      case 2
      have "host_matches l (''*'' @ CHR ''.'' # rs)"
        unfolding l host_matches_wildcard
        using 2 \<open>eq_ignore_ascii_case y ls\<close> \<open>eq_ignore_ascii_case v rs\<close>
        by (intro exI [of _ "''*''"] exI [of _ rs]) (simp add: eq_ignore_ascii_case_def)
      then show ?thesis by (simp add: r)
    next
      case (3 w)
      have "eq_ignore_ascii_case ((''*.'' @ w) @ CHR ''.'' # y) r"
        using 3 \<open>eq_ignore_ascii_case v rs\<close> by (simp add: r eq_ignore_ascii_case_def)
      moreover have "host_matches l ((''*.'' @ w) @ CHR ''.'' # y)"
        unfolding l host_matches_wildcard using \<open>eq_ignore_ascii_case y ls\<close> by blast
      ultimately show ?thesis using host_matches_cong by blast
    qed
  qed
qed

lemma narrower_admits:
  "(\<exists>p \<in> set (narrower l rs). host_matches p h) \<longleftrightarrow>
     host_matches l h \<and> (\<exists>r \<in> set rs. host_matches r h)"
proof (induction rs)
  case (Cons r rs)
  then show ?case
    using matches_trans [of l r h] matches_trans [of r l h] matches_comparable [of l h r]
    by (auto simp del: map_map)
qed simp

lemma narrower_shape: "p \<in> set (narrower l rs) \<Longrightarrow> to_ascii_lowercase p = p"
  by (induction rs) (auto split: if_splits simp: comp_def)

lemma sorted_distinct_remdups_adj: "sorted xs \<Longrightarrow> sorted (remdups_adj xs) \<and> distinct (remdups_adj xs)"
  by (induction xs rule: remdups_adj.induct) auto

lemma admits_canonical [simp]: "admits (remdups_adj (sort hosts)) h \<longleftrightarrow> admits hosts h"
proof -
  have "sort hosts = [] \<longleftrightarrow> hosts = []" by (metis length_0_conv length_sort)
  then show ?thesis by (simp add: admits_def)
qed

text \<open>
  The effective hostnames of an attachment admit exactly the hosts that both sides admit: a
  host is served by some effective hostname if and only if the listener's hostname matches it and
  one of the route's does, an absent side admitting every host; and there is no attachment only
  when no host satisfies both.
\<close>

theorem intersect_admits:
  "(case intersect listener route of None \<Rightarrow> False | Some hosts \<Rightarrow> admits hosts h) \<longleftrightarrow>
     (case listener of None \<Rightarrow> True | Some l \<Rightarrow> host_matches l h) \<and> admits route h"
proof (cases listener)
  case None
  have "admits (map to_ascii_lowercase route) h \<longleftrightarrow> admits route h" by (simp add: admits_def)
  then show ?thesis by (cases "route = []") (simp_all add: None intersect_def)
next
  case (Some l)
  have "narrower l route = [] \<Longrightarrow> route \<noteq> [] \<Longrightarrow> \<not> (host_matches l h \<and> admits route h)"
    using narrower_admits [of l route h] by (auto simp: admits_def)
  moreover have "narrower l route \<noteq> [] \<Longrightarrow> route \<noteq> [] \<Longrightarrow>
      admits (narrower l route) h \<longleftrightarrow> host_matches l h \<and> admits route h"
    using narrower_admits [of l route h] by (auto simp: admits_def)
  moreover have "admits [to_ascii_lowercase l] h \<longleftrightarrow> host_matches l h"
    by (simp add: admits_def)
  ultimately show ?thesis
    by (cases "route = []") (auto simp: Some intersect_def Let_def, auto simp: admits_def)
qed

text \<open>
  The effective hostnames are lowercase, sorted and without duplicates.
\<close>

theorem intersect_canonical:
  assumes "intersect listener route = Some hosts"
  shows "sorted hosts \<and> distinct hosts \<and> list_all (\<lambda>p. to_ascii_lowercase p = p) hosts"
  using assms
  by (auto simp: intersect_def Let_def sorted_distinct_remdups_adj comp_def list_all_iff
      split: option.splits bool.splits if_splits dest: narrower_shape)

theorem intersect_canonical_witness:
  "sorted [''a.example.com''] \<and> distinct [''a.example.com''] \<and>
   list_all (\<lambda>p. to_ascii_lowercase p = p) [''a.example.com'']"
proof -
  have "intersect (Some ''*.example.com'') [''A.example.com'', ''b.test'', ''a.EXAMPLE.com'']
      = Some [''a.example.com'']"
    by code_simp
  then show ?thesis by (rule intersect_canonical)
qed

end
