(* ===== verification/Precedence.thy ===== *)
theory Precedence
  imports Config Hostname "HOL-Library.Multiset"
begin

text \<open>
  \<^verbatim>\<open>gapura-core/src/translate/precedence.rs\<close>: the Gateway API precedence of match entries and the
  sort of one port's table. Shows that the sort only reorders, that it puts the entry of highest
  precedence first, and what "highest" means component by component; the locale
  \<open>routing_table\<close> is what the matcher relies on.
\<close>

section \<open>Definitions\<close>

type_synonym key =
  "(u8 \<times> nat) reverse_key \<times> u8 reverse_key \<times> nat reverse_key \<times> u8 reverse_key \<times>
   nat reverse_key \<times> nat reverse_key \<times> string \<times> string \<times> nat \<times> string"

fun path_rank :: "path_match \<Rightarrow> u8 \<times> nat" where
  "path_rank (Exact p) = (2, length p)"
| "path_rank (Prefix p) = (1, length p)"
| "path_rank (Regex p) = (0, length p)"

definition precedence_key :: "string option \<Rightarrow> route_match \<Rightarrow> route_rule \<Rightarrow> string \<Rightarrow> key" where
  "precedence_key hostname matcher rule listener_id =
     (case path_rank (rm_path matcher) of (path_kind, path_len) \<Rightarrow>
       (Reverse (specificity hostname), Reverse path_kind, Reverse path_len,
        Reverse (of_bool (rm_method matcher \<noteq> None)),
        Reverse (length (rm_headers matcher)), Reverse (length (rm_query matcher)),
        rr_creation_timestamp rule, rr_route rule, rr_rule_index rule, listener_id))"

text \<open>
  The key of an entry; both indices have to be in range, or the code panics. The sort calculates
  keys only for two entries or more, and is stable.
\<close>

definition entry_in_range :: "listener_config list \<Rightarrow> port_entry \<Rightarrow> bool" where
  "entry_in_range listeners e \<longleftrightarrow>
     pe_listener e < length listeners \<and> pe_rule e < length (lc_rules (listeners ! pe_listener e))"

definition entry_key :: "listener_config list \<Rightarrow> port_entry \<Rightarrow> key" where
  "entry_key listeners e =
     (let l = listeners ! pe_listener e
      in precedence_key (pe_hostname e) (pe_matcher e) (lc_rules l ! pe_rule e) (lc_id l))"

definition arrange :: "listener_config list \<Rightarrow> port_entry list \<Rightarrow> port_entry list" where
  "arrange listeners entries = (if length entries < 2 then entries else sort_key (entry_key listeners) entries)"

definition sort_port_table :: "port_entry list \<Rightarrow> listener_config list \<Rightarrow> port_entry list run" where
  "sort_port_table entries listeners =
     (if 2 \<le> length entries \<and> \<not> list_all (entry_in_range listeners) entries then Panics
      else Returns (arrange listeners entries))"

section \<open>The contract of a table\<close>

text \<open>
  A table arranged by a rank: the entries are the given ones and the first one that satisfies a
  test has the least rank among those that do.
\<close>

locale routing_table =
  fixes rank :: "'e \<Rightarrow> 'k::linorder"
    and arranged :: "'e list \<Rightarrow> 'e list"
  assumes entries_kept: "set (arranged es) = set es"
    and rank_sorted: "sorted (map rank (arranged es))"
begin

lemma winner_least:
  assumes "find P (arranged es) = Some w" and "e \<in> set es" and "P e"
  shows "rank w \<le> rank e"
  using find_sorted_least [OF rank_sorted assms(1)] assms(2,3) by (simp add: entries_kept)

lemma winner_entry: "find P (arranged es) = Some w \<Longrightarrow> w \<in> set es \<and> P w"
  using find_SomeD entries_kept by metis

lemma winner_exists: "find P (arranged es) = None \<longleftrightarrow> (\<forall>e \<in> set es. \<not> P e)"
  by (simp add: find_None entries_kept)

end

lemma arrange_sort_key: "arrange listeners es = sort_key (entry_key listeners) es"
proof (cases "length es < 2")
  case True
  then consider "es = []" | e where "es = [e]" by (cases es; cases "tl es") auto
  then show ?thesis by cases (simp_all add: arrange_def)
qed (simp add: arrange_def)

interpretation port_table: routing_table "entry_key listeners" "arrange listeners" for listeners
  by unfold_locales (simp_all add: arrange_sort_key)

section \<open>What the order says\<close>

lemma precedence_key_rank:
  assumes "precedence_key h m r i \<le> precedence_key h' m' r' i'"
  shows "(specificity h', path_rank (rm_path m')) \<le> (specificity h, path_rank (rm_path m))"
  using assms
  by (auto simp: precedence_key_def less_eq_prod_def less_prod_def split: prod.splits)

text \<open>
  Two entries the order cannot tell apart have the same host specificity, path rank and route;
  distinct entries with the same key stay in the order they came in.
\<close>

lemma arrange_stable:
  "filter (\<lambda>e. entry_key listeners e = k) (arrange listeners es) = filter (\<lambda>e. entry_key listeners e = k) es"
  by (simp add: arrange_sort_key sort_key_stable)

text \<open>
  Sorting a port's table never panics on entries whose indices are in range, keeps exactly
  the entries (as a multiset), puts them in non-decreasing precedence order, and is stable: entries
  the key does not tell apart keep their order.
\<close>

theorem sort_port_table_sorts:
  assumes "\<forall>e \<in> set es. entry_in_range listeners e"
  shows "\<exists>tbl. sort_port_table es listeners = Returns tbl \<and> mset tbl = mset es \<and>
    sorted (map (entry_key listeners) tbl) \<and>
    (\<forall>k. filter (\<lambda>e. entry_key listeners e = k) tbl = filter (\<lambda>e. entry_key listeners e = k) es)"
  using assms
  by (auto simp: sort_port_table_def list_all_iff arrange_sort_key sort_key_stable)

text \<open>A listener with two rules, used by the witnesses of the routing theorems.\<close>

definition sample_rule :: "string \<Rightarrow> route_rule" where
  "sample_rule r =
     \<lparr>rr_route = r, rr_rule_index = 0, rr_creation_timestamp = [],
      rr_matches = [], rr_filters = \<lparr>request_headers = \<lparr>ho_set = [], ho_add = [], ho_remove = []\<rparr>,
        response_headers = \<lparr>ho_set = [], ho_add = [], ho_remove = []\<rparr>,
        f_redirect = None, f_rewrite = None, f_mirror = None\<rparr>,
      rr_backends = [], rr_timeouts = \<lparr>request_ms = None, backend_request_ms = None, connect_ms = None\<rparr>,
      rr_rate_limit = None, rr_plugins = []\<rparr>"

definition sample_listener :: listener_config where
  "sample_listener =
     \<lparr>lc_id = ''l'', lc_port = 80, lc_client_port = None, lc_protocol = Http, lc_hostname = None,
      lc_tls = None, lc_rules = [sample_rule ''a'', sample_rule ''b'']\<rparr>"

definition sample_entry :: "path_match \<Rightarrow> nat \<Rightarrow> port_entry" where
  "sample_entry p r =
     \<lparr>pe_listener = 0, pe_hostname = None,
      pe_matcher = \<lparr>rm_path = p, rm_headers = [], rm_query = [], rm_method = None\<rparr>, pe_rule = r\<rparr>"

theorem sort_port_table_sorts_witness:
  "\<exists>tbl. sort_port_table [sample_entry (Prefix ''/'') 0, sample_entry (Prefix ''/api'') 1] [sample_listener]
     = Returns tbl \<and> sorted (map (entry_key [sample_listener]) tbl)"
proof -
  let ?es = "[sample_entry (Prefix ''/'') 0, sample_entry (Prefix ''/api'') 1]"
  have "\<forall>e \<in> set ?es. entry_in_range [sample_listener] e"
    by (simp add: entry_in_range_def sample_entry_def sample_listener_def)
  from sort_port_table_sorts [OF this] show ?thesis by blast
qed

end
