(* ===== verification/Matcher.thy ===== *)
theory Matcher
  imports Precedence
begin

text \<open>
  \<^verbatim>\<open>gapura-core/src/matcher.rs\<close>: matching a request against a port's table, and choosing the
  certificate of a TLS handshake. The \<open>regex\<close> crate is a parameter: \<open>build\<close> stands for
  \<open>RegexBuilder::build\<close> with its two limits, \<open>is_match\<close> for \<open>Regex::is_match\<close>. Shows
  that a prefix matches whole segments, that the winner is the matching entry of highest
  precedence, that compilation covers every pattern of a configuration, and which certificate a
  handshake gets.
\<close>

section \<open>Path patterns\<close>

definition path_regex_size_limit :: nat where
  "path_regex_size_limit = 4 * 1024 * 1024"

definition path_regex_dfa_size_limit :: nat where
  "path_regex_dfa_size_limit = 1024 * 1024"

datatype regex_error = Syntax string | CompiledTooBig nat

text \<open>The builder: the pattern, the size limit and, where set, the limit of the lazy DFA.\<close>

type_synonym 're builder = "string \<Rightarrow> nat \<Rightarrow> nat option \<Rightarrow> regex_error + 're"

definition compile_path_regex :: "'re builder \<Rightarrow> string \<Rightarrow> regex_error + 're" where
  "compile_path_regex build pattern =
     (case build pattern 0 None of
        Err (Syntax e) \<Rightarrow> Err (Syntax e)
      | _ \<Rightarrow> build (''^(?:'' @ pattern @ '')$'') path_regex_size_limit (Some path_regex_dfa_size_limit))"

definition compile_entry ::
  "'re builder \<Rightarrow> port_entry \<Rightarrow> (string \<times> 're) list \<times> string list \<Rightarrow> (string \<times> 're) list \<times> string list" where
  "compile_entry build e = (\<lambda>(out, skipped).
     case rm_path (pe_matcher e) of
       Regex pattern \<Rightarrow>
         if pattern \<in> fst ` set out \<or> pattern \<in> set skipped then (out, skipped)
         else (case compile_path_regex build pattern of
                 Ok re \<Rightarrow> (aput pattern re out, skipped)
               | Err _ \<Rightarrow> (out, skipped @ [pattern]))
     | _ \<Rightarrow> (out, skipped))"

definition compile_regexes :: "'re builder \<Rightarrow> config \<Rightarrow> (string \<times> 're) list \<times> string list" where
  "compile_regexes build cfg =
     fold (\<lambda>entries. fold (compile_entry build) entries) (map snd (cf_ports cfg)) ([], [])"

section \<open>Matching\<close>

record request_attrs =
  ra_host :: string
  ra_path :: string
  ra_method :: string
  ra_headers :: "(string \<times> string) list"
  ra_query :: "(string \<times> string) list"

fun path_matches :: "('re \<Rightarrow> string \<Rightarrow> bool) \<Rightarrow> path_match \<Rightarrow> string \<Rightarrow> (string \<times> 're) list \<Rightarrow> bool" where
  "path_matches is_match (Exact p) path regexes = (path = p)"
| "path_matches is_match (Prefix p) path regexes =
     (p = ''/'' \<or> path = p \<or>
      (prefix p path \<and> length p < length path \<and> path ! length p = CHR ''/''))"
| "path_matches is_match (Regex p) path regexes =
     (case map_of regexes p of None \<Rightarrow> False | Some re \<Rightarrow> is_match re path)"

definition entry_matches ::
  "('re \<Rightarrow> string \<Rightarrow> bool) \<Rightarrow> route_match \<Rightarrow> request_attrs \<Rightarrow> (string \<times> 're) list \<Rightarrow> bool" where
  "entry_matches is_match m req regexes \<longleftrightarrow>
     path_matches is_match (rm_path m) (ra_path req) regexes \<and>
     (case rm_method m of None \<Rightarrow> True | Some method \<Rightarrow> eq_ignore_ascii_case method (ra_method req)) \<and>
     list_all (\<lambda>h. case find (\<lambda>(n, _). eq_ignore_ascii_case n (kv_name h)) (ra_headers req) of
                 None \<Rightarrow> False | Some (_, v) \<Rightarrow> v = kv_value h) (rm_headers m) \<and>
     list_all (\<lambda>q. case find (\<lambda>(n, _). n = kv_name q) (ra_query req) of
                 None \<Rightarrow> False | Some (_, v) \<Rightarrow> v = kv_value q) (rm_query m)"

record port_match =
  pm_listener_index :: nat
  pm_listener :: listener_config
  pm_entry :: port_entry
  pm_rule :: route_rule

text \<open>The test of one entry, and the search with the two checked lookups after it.\<close>

definition entry_admits ::
  "('re \<Rightarrow> string \<Rightarrow> bool) \<Rightarrow> request_attrs \<Rightarrow> (string \<times> 're) list \<Rightarrow> port_entry \<Rightarrow> bool" where
  "entry_admits is_match req regexes e \<longleftrightarrow>
     (case pe_hostname e of None \<Rightarrow> True | Some h \<Rightarrow> host_matches h (ra_host req)) \<and>
     entry_matches is_match (pe_matcher e) req regexes"

definition match_port_with ::
  "('re \<Rightarrow> string \<Rightarrow> bool) \<Rightarrow> config \<Rightarrow> u16 \<Rightarrow> request_attrs \<Rightarrow> (string \<times> 're) list \<Rightarrow> port_match option" where
  "match_port_with is_match cfg port req regexes =
     (case map_of (cf_ports cfg) port of
        None \<Rightarrow> None
      | Some entries \<Rightarrow>
          (case find (entry_admits is_match req regexes) entries of
             None \<Rightarrow> None
           | Some e \<Rightarrow>
               if \<not> pe_listener e < length (cf_listeners cfg) then None
               else let l = cf_listeners cfg ! pe_listener e in
                 if \<not> pe_rule e < length (lc_rules l) then None
                 else Some \<lparr>pm_listener_index = pe_listener e, pm_listener = l, pm_entry = e,
                            pm_rule = lc_rules l ! pe_rule e\<rparr>))"

section \<open>Certificates\<close>

definition on_port :: "config \<Rightarrow> u16 \<Rightarrow> listener_config list" where
  "on_port cfg port = filter (\<lambda>l. lc_port l = port \<and> lc_tls l \<noteq> None) (cf_listeners cfg)"

definition named_for :: "config \<Rightarrow> u16 \<Rightarrow> string \<Rightarrow> listener_config list" where
  "named_for cfg port name =
     filter (\<lambda>l. case lc_hostname l of None \<Rightarrow> False | Some h \<Rightarrow> host_matches h name) (on_port cfg port)"

definition default_tls :: "config \<Rightarrow> u16 \<Rightarrow> tls_bundle option" where
  "default_tls cfg port =
     (case find (\<lambda>l. lc_hostname l = None) (on_port cfg port) of
        Some l \<Rightarrow> lc_tls l
      | None \<Rightarrow> (case on_port cfg port of [] \<Rightarrow> None | l # _ \<Rightarrow> lc_tls l))"

definition tls_for :: "config \<Rightarrow> u16 \<Rightarrow> string option \<Rightarrow> tls_bundle option" where
  "tls_for cfg port sni =
     (case Option.bind sni (\<lambda>name. max_by_key (\<lambda>l. specificity (lc_hostname l)) (named_for cfg port name)) of
        Some l \<Rightarrow> lc_tls l
      | None \<Rightarrow> default_tls cfg port)"

section \<open>A prefix matches whole segments\<close>

lemma split_on_prefix:
  "prefix (split_on d p) (split_on d s) \<longleftrightarrow> s = p \<or> (\<exists>r. s = p @ d # r)"
proof
  assume "prefix (split_on d p) (split_on d s)"
  then obtain ws where ws: "split_on d s = split_on d p @ ws" by (auto simp: prefix_def)
  have "s = join [d] (split_on d p @ ws)" by (simp flip: ws)
  then show "s = p \<or> (\<exists>r. s = p @ d # r)"
    by (cases "ws = []") (auto simp: join_append)
next
  assume "s = p \<or> (\<exists>r. s = p @ d # r)"
  then show "prefix (split_on d p) (split_on d s)"
    by (auto simp: split_on_append)
qed

text \<open>
  A \<open>PathPrefix\<close> matches segment by segment: a prefix other than \<open>/\<close> matches a
  path exactly when the slash-separated segments of the prefix are the first segments of the
  path. So \<open>/api\<close> matches \<open>/api\<close> and \<open>/api/x\<close> and never \<open>/apix\<close>.
\<close>

theorem prefix_matches_segments:
  assumes "p \<noteq> ''/''"
  shows "path_matches is_match (Prefix p) path regexes \<longleftrightarrow>
    prefix (split_on CHR ''/'' p) (split_on CHR ''/'' path)"
proof -
  have "(prefix p path \<and> length p < length path \<and> path ! length p = CHR ''/'') \<longleftrightarrow>
      (\<exists>r. path = p @ CHR ''/'' # r)"
    by (auto simp: prefix_def nth_append neq_Nil_conv)
  with assms show ?thesis by (simp add: split_on_prefix)
qed

theorem prefix_matches_segments_witness:
  "(path_matches (\<lambda>_ _. False) (Prefix ''/api'') ''/apix'' [] \<longleftrightarrow>
     prefix (split_on CHR ''/'' ''/api'') (split_on CHR ''/'' ''/apix'')) \<and>
   \<not> path_matches (\<lambda>_ _. False) (Prefix ''/api'') ''/apix'' []"
  using prefix_matches_segments [of "''/api''" "\<lambda>_ _. False" "''/apix''" "[]"] by simp

section \<open>The winner\<close>

lemma sort_port_table_Returns: "sort_port_table es ls = Returns tbl \<Longrightarrow> tbl = arrange ls es"
  by (simp add: sort_port_table_def split: if_splits)

lemma match_port_with_find:
  assumes "map_of (cf_ports cfg) port = Some tbl"
    and "\<forall>e \<in> set tbl. entry_in_range (cf_listeners cfg) e"
  shows "map_option pm_entry (match_port_with is_match cfg port req regexes)
    = find (entry_admits is_match req regexes) tbl"
proof (cases "find (entry_admits is_match req regexes) tbl")
  case None
  with assms(1) show ?thesis by (simp add: match_port_with_def)
next
  case (Some e)
  then have "entry_in_range (cf_listeners cfg) e" using assms(2) find_SomeD by metis
  with Some assms(1) show ?thesis by (simp add: match_port_with_def entry_in_range_def Let_def)
qed

text \<open>
  C5: a request is served by the matching entry of highest precedence. On a port whose table
  \<open>sort_port_table\<close> built from entries with valid indices, a request has no winner exactly
  when no entry admits it; otherwise the winner is one of the entries, admits the request, and
  against every other entry that admits it has a hostname at least as specific, on equal
  specificity a path type at least as specific, and on equal type a path at least as long.
\<close>

theorem match_port_winner:
  assumes "map_of (cf_ports cfg) port = Some tbl"
    and "sort_port_table es (cf_listeners cfg) = Returns tbl"
    and "\<forall>e \<in> set es. entry_in_range (cf_listeners cfg) e"
  shows "(match_port_with is_match cfg port req regexes = None \<longleftrightarrow>
      (\<forall>e \<in> set es. \<not> entry_admits is_match req regexes e)) \<and>
    (\<forall>pm. match_port_with is_match cfg port req regexes = Some pm \<longrightarrow>
      pm_entry pm \<in> set es \<and> entry_admits is_match req regexes (pm_entry pm) \<and>
      (\<forall>e \<in> set es. entry_admits is_match req regexes e \<longrightarrow>
         entry_key (cf_listeners cfg) (pm_entry pm) \<le> entry_key (cf_listeners cfg) e \<and>
         (specificity (pe_hostname e), path_rank (rm_path (pe_matcher e)))
           \<le> (specificity (pe_hostname (pm_entry pm)), path_rank (rm_path (pe_matcher (pm_entry pm))))))"
proof -
  let ?find = "find (entry_admits is_match req regexes) (arrange (cf_listeners cfg) es)"
  have tbl: "tbl = arrange (cf_listeners cfg) es" by (rule sort_port_table_Returns [OF assms(2)])
  have found: "map_option pm_entry (match_port_with is_match cfg port req regexes) = ?find"
    using match_port_with_find [OF assms(1)] assms(3) by (simp add: tbl port_table.entries_kept)
  have "match_port_with is_match cfg port req regexes = None \<longleftrightarrow>
      (\<forall>e \<in> set es. \<not> entry_admits is_match req regexes e)"
    using found by (metis map_option_is_None port_table.winner_exists)
  then show ?thesis
  proof (rule conjI, intro allI impI)
    fix pm assume "match_port_with is_match cfg port req regexes = Some pm"
    with found have win: "?find = Some (pm_entry pm)" by simp
    have "entry_key (cf_listeners cfg) (pm_entry pm) \<le> entry_key (cf_listeners cfg) e \<and>
        (specificity (pe_hostname e), path_rank (rm_path (pe_matcher e)))
          \<le> (specificity (pe_hostname (pm_entry pm)), path_rank (rm_path (pe_matcher (pm_entry pm))))"
      if "e \<in> set es" and "entry_admits is_match req regexes e" for e
      using port_table.winner_least [OF win that] precedence_key_rank
      by (simp add: entry_key_def Let_def)
    with port_table.winner_entry [OF win]
    show "pm_entry pm \<in> set es \<and> entry_admits is_match req regexes (pm_entry pm) \<and>
        (\<forall>e \<in> set es. entry_admits is_match req regexes e \<longrightarrow>
           entry_key (cf_listeners cfg) (pm_entry pm) \<le> entry_key (cf_listeners cfg) e \<and>
           (specificity (pe_hostname e), path_rank (rm_path (pe_matcher e)))
             \<le> (specificity (pe_hostname (pm_entry pm)), path_rank (rm_path (pe_matcher (pm_entry pm)))))"
        by blast
  qed
qed

definition sample_config :: config where
  "sample_config =
     \<lparr>cf_listeners = [sample_listener],
      cf_ports = [(80, [sample_entry (Prefix ''/api'') 1, sample_entry (Prefix ''/'') 0])],
      cf_clusters = [], cf_credentials = [], cf_credential_workspaces = [],
      cf_consumer_rate_limits = [], cf_consumers = []\<rparr>"

definition sample_request :: request_attrs where
  "sample_request =
     \<lparr>ra_host = ''h'', ra_path = ''/api/x'', ra_method = ''GET'', ra_headers = [], ra_query = []\<rparr>"

definition no_regex :: "unit \<Rightarrow> string \<Rightarrow> bool" where
  "no_regex re path \<longleftrightarrow> False"

theorem match_port_winner_witness:
  "\<exists>pm. match_port_with no_regex sample_config 80 sample_request [] = Some pm \<and>
     entry_admits no_regex sample_request [] (pm_entry pm) \<and>
     entry_key [sample_listener] (pm_entry pm) \<le> entry_key [sample_listener] (sample_entry (Prefix ''/'') 0)"
proof -
  let ?es = "[sample_entry (Prefix ''/'') 0, sample_entry (Prefix ''/api'') 1]"
  let ?tbl = "[sample_entry (Prefix ''/api'') 1, sample_entry (Prefix ''/'') 0]"
  have port: "map_of (cf_ports sample_config) 80 = Some ?tbl" by (simp add: sample_config_def)
  have sorted: "sort_port_table ?es (cf_listeners sample_config) = Returns ?tbl" by code_simp
  have range: "\<forall>e \<in> set ?es. entry_in_range (cf_listeners sample_config) e" by code_simp
  have adm: "\<exists>e \<in> set ?es. entry_admits no_regex sample_request [] e" by code_simp
  have adm0: "entry_admits no_regex sample_request [] (sample_entry (Prefix ''/'') 0)" by code_simp
  obtain pm where pm: "match_port_with no_regex sample_config 80 sample_request [] = Some pm"
    using match_port_winner [OF port sorted range, of no_regex sample_request "[]"] adm by blast
  note win = match_port_winner [OF port sorted range, THEN conjunct2, rule_format, OF pm]
  have ls: "cf_listeners sample_config = [sample_listener]" by (simp add: sample_config_def)
  have mem: "sample_entry (Prefix ''/'') 0 \<in> set ?es" by simp
  note least = win [THEN conjunct2, THEN conjunct2, rule_format, OF mem adm0, THEN conjunct1]
  have "entry_admits no_regex sample_request [] (pm_entry pm)"
    by (rule win [THEN conjunct2, THEN conjunct1])
  from pm this least [unfolded ls] show ?thesis by (intro exI [of _ pm] conjI)
qed

section \<open>Every pattern is compiled once or reported\<close>

definition patterns_of :: "port_entry list \<Rightarrow> string set" where
  "patterns_of es = {p. \<exists>e \<in> set es. rm_path (pe_matcher e) = Regex p}"

lemma patterns_of_simps [simp]:
  "patterns_of [] = {}"
  "patterns_of (e # es) = (case rm_path (pe_matcher e) of Regex p \<Rightarrow> {p} | _ \<Rightarrow> {}) \<union> patterns_of es"
  "patterns_of (es @ fs) = patterns_of es \<union> patterns_of fs"
  by (auto simp: patterns_of_def split: path_match.splits)

text \<open>What the accumulator holds after the patterns \<open>seen\<close>.\<close>

definition compiled :: "'re builder \<Rightarrow> string set \<Rightarrow> (string \<times> 're) list \<times> string list \<Rightarrow> bool" where
  "compiled build seen acc \<longleftrightarrow>
     distinct (keys_of (fst acc)) \<and> distinct (snd acc) \<and>
     (\<forall>p re. map_of (fst acc) p = Some re \<longleftrightarrow> p \<in> seen \<and> compile_path_regex build p = Ok re) \<and>
     (\<forall>p. p \<in> set (snd acc) \<longleftrightarrow> p \<in> seen \<and> (\<exists>e. compile_path_regex build p = Err e))"

lemma compiled_seen:
  assumes "compiled build seen acc"
  shows "p \<in> fst ` set (fst acc) \<or> p \<in> set (snd acc) \<longleftrightarrow> p \<in> seen"
proof -
  have "p \<in> fst ` set (fst acc) \<longleftrightarrow> (\<exists>re. map_of (fst acc) p = Some re)"
    by (metis map_of_in_keys not_None_eq)
  then show ?thesis using assms by (cases "compile_path_regex build p") (auto simp: compiled_def)
qed

lemma compile_entry_compiled [wf_intros]:
  assumes "compiled build seen acc"
  shows "compiled build (seen \<union> patterns_of [e]) (compile_entry build e acc)"
proof (cases "rm_path (pe_matcher e)")
  case (Regex p)
  note seen = compiled_seen [OF assms, of p]
  show ?thesis
  proof (cases "p \<in> seen")
    case True
    with seen assms Regex show ?thesis by (auto simp: compile_entry_def insert_absorb split: prod.splits)
  next
    case False
    with seen assms Regex show ?thesis
      by (cases "compile_path_regex build p")
        (auto simp: compile_entry_def compiled_def split: prod.splits)
  qed
qed (use assms in \<open>auto simp: compile_entry_def split: prod.splits\<close>)

lemma compile_entries_compiled:
  "compiled build seen acc \<Longrightarrow> compiled build (seen \<union> patterns_of es) (fold (compile_entry build) es acc)"
proof (induction es arbitrary: seen acc)
  case (Cons e es)
  from Cons.IH [OF compile_entry_compiled [OF Cons.prems]] show ?case
    by (simp add: Un_assoc)
qed simp

lemma compile_tables_compiled:
  "compiled build seen acc \<Longrightarrow>
   compiled build (seen \<union> patterns_of (concat tables)) (fold (fold (compile_entry build)) tables acc)"
proof (induction tables arbitrary: seen acc)
  case (Cons es tables)
  from Cons.IH [OF compile_entries_compiled [OF Cons.prems]] show ?case
    by (simp add: Un_assoc)
qed simp

text \<open>
  Compilation covers a configuration. For a pattern some entry of some port's table uses,
  the map holds exactly what compiling it gives, under one key, and the pattern is reported as
  skipped exactly when it does not compile; nothing else is in either. So a route's regex matches
  a path exactly when the anchored pattern compiles and the compiled program matches.
\<close>

theorem compile_regexes_complete:
  assumes "compile_regexes build cfg = (out, skipped)"
  shows "distinct (keys_of out) \<and> distinct skipped \<and>
    (p \<in> set skipped \<longleftrightarrow>
      p \<in> patterns_of (concat (map snd (cf_ports cfg))) \<and> (\<exists>e. compile_path_regex build p = Err e)) \<and>
    (path_matches is_match (Regex p) path out \<longleftrightarrow>
      p \<in> patterns_of (concat (map snd (cf_ports cfg))) \<and>
      (\<exists>re. compile_path_regex build p = Ok re \<and> is_match re path))"
proof -
  have "compiled build {} ([], [])" by (simp add: compiled_def)
  from compile_tables_compiled [OF this, of "map snd (cf_ports cfg)"]
  have "compiled build (patterns_of (concat (map snd (cf_ports cfg)))) (out, skipped)"
    using assms by (simp add: compile_regexes_def)
  then have "distinct (keys_of out)" and "distinct skipped"
    and "p \<in> set skipped \<longleftrightarrow>
      p \<in> patterns_of (concat (map snd (cf_ports cfg))) \<and> (\<exists>e. compile_path_regex build p = Err e)"
    and "path_matches is_match (Regex p) path out \<longleftrightarrow>
      p \<in> patterns_of (concat (map snd (cf_ports cfg))) \<and>
      (\<exists>re. compile_path_regex build p = Ok re \<and> is_match re path)"
    by (auto simp: compiled_def split: option.splits)
  then show ?thesis by blast
qed

text \<open>A stand-in builder for the witness: it refuses the pattern \<open>(\<close> and keeps the others as text.\<close>

definition toy_build :: "string builder" where
  "toy_build pattern limit dfa =
     (if pattern = ''('' then Err (Syntax pattern) else if limit = 0 then Err (CompiledTooBig 0)
      else Ok pattern)"

definition regex_config :: config where
  "regex_config = sample_config\<lparr>cf_ports :=
     [(80, [sample_entry (Regex ''('') 0, sample_entry (Regex ''/a'') 1, sample_entry (Regex ''/a'') 0])]\<rparr>"

theorem compile_regexes_complete_witness:
  "compile_regexes toy_build regex_config = ([(''/a'', ''^(?:/a)$'')], [''('']) \<and>
   (''('' \<in> set [''(''] \<longleftrightarrow> ''('' \<in> patterns_of (concat (map snd (cf_ports regex_config))) \<and>
      (\<exists>e. compile_path_regex toy_build ''('' = Err e))"
proof
  show c: "compile_regexes toy_build regex_config = ([(''/a'', ''^(?:/a)$'')], [''(''])" by code_simp
  show "''('' \<in> set [''(''] \<longleftrightarrow> ''('' \<in> patterns_of (concat (map snd (cf_ports regex_config))) \<and>
      (\<exists>e. compile_path_regex toy_build ''('' = Err e)"
    by (rule compile_regexes_complete [OF c, THEN conjunct2, THEN conjunct2, THEN conjunct1])
qed

section \<open>The certificate of a handshake\<close>

lemma on_port_tls: "l \<in> set (on_port cfg port) \<Longrightarrow> lc_tls l \<noteq> None"
  by (simp add: on_port_def)

lemma default_tls_listener:
  "on_port cfg port \<noteq> [] \<Longrightarrow> \<exists>l \<in> set (on_port cfg port). default_tls cfg port = lc_tls l \<and>
     ((\<exists>m \<in> set (on_port cfg port). lc_hostname m = None) \<longrightarrow> lc_hostname l = None)"
  by (cases "on_port cfg port")
    (auto simp: default_tls_def find_None split: option.splits dest: find_SomeD)

text \<open>
  The listener a handshake should be served by: of the port; if the client names a host that some
  of the port's listeners match, one of those, of greatest specificity; else one without hostname,
  if there is one.
\<close>

definition serves_handshake :: "config \<Rightarrow> u16 \<Rightarrow> string option \<Rightarrow> listener_config \<Rightarrow> bool" where
  "serves_handshake cfg port sni l \<longleftrightarrow>
     l \<in> set (on_port cfg port) \<and>
     (let named = (case sni of None \<Rightarrow> [] | Some name \<Rightarrow> named_for cfg port name) in
      if named \<noteq> [] then l \<in> set named \<and>
        (\<forall>m \<in> set named. specificity (lc_hostname m) \<le> specificity (lc_hostname l))
      else (\<exists>m \<in> set (on_port cfg port). lc_hostname m = None) \<longrightarrow> lc_hostname l = None)"

lemma tls_for_serves:
  assumes "on_port cfg port \<noteq> []"
  shows "\<exists>l. serves_handshake cfg port sni l \<and> tls_for cfg port sni = lc_tls l"
proof (cases "Option.bind sni (\<lambda>name. max_by_key (\<lambda>l. specificity (lc_hostname l)) (named_for cfg port name))")
  case None
  then have "(case sni of None \<Rightarrow> [] | Some name \<Rightarrow> named_for cfg port name) = []"
    by (cases sni) (auto simp: max_by_key_None)
  with None default_tls_listener [OF assms] show ?thesis by (auto simp: tls_for_def serves_handshake_def)
next
  case (Some l)
  then obtain name where name: "sni = Some name"
    and best: "max_by_key (\<lambda>l. specificity (lc_hostname l)) (named_for cfg port name) = Some l"
    by (auto simp: bind_eq_Some_conv)
  have "l \<in> set (named_for cfg port name)" by (rule max_by_key_Some(1) [OF best])
  moreover from this have "l \<in> set (on_port cfg port)" and "named_for cfg port name \<noteq> []"
    unfolding named_for_def set_filter by (blast, metis empty_iff list.set(1) set_filter)
  ultimately have "serves_handshake cfg port sni l"
    using max_by_key_Some(2) [OF best] by (simp add: serves_handshake_def name)
  with Some show ?thesis by (auto simp: tls_for_def)
qed

text \<open>
  The certificate of a handshake. There is one exactly when some listener of the port has
  one, and it is that of a listener the handshake should be served by: the most specific that
  matches the name the client sent, else one without hostname, else one of the port.
\<close>

theorem tls_for_listener:
  "case tls_for cfg port sni of
     None \<Rightarrow> on_port cfg port = []
   | Some tls \<Rightarrow> \<exists>l. serves_handshake cfg port sni l \<and> lc_tls l = Some tls"
proof (cases "on_port cfg port = []")
  case True
  then have "named_for cfg port name = []" for name by (simp add: named_for_def)
  with True show ?thesis by (cases sni) (simp_all add: tls_for_def default_tls_def)
next
  case False
  from tls_for_serves [OF this, of sni] obtain l
    where l: "serves_handshake cfg port sni l" "tls_for cfg port sni = lc_tls l" by blast
  with on_port_tls [of l cfg port] obtain tls where "lc_tls l = Some tls"
    by (auto simp: serves_handshake_def)
  with l show ?thesis by auto
qed

end
