(* ===== verification/Path.thy ===== *)
theory Path
  imports Rust_Num
begin

text \<open>
  \<^verbatim>\<open>gapura-core/src/path.rs\<close>: the normaliser every request path and every Exact or PathPrefix
  route value goes through, and the path a servlet container would resolve. Shows that a
  normalised path is absolute, has no empty inner segment, no dot segment (bare or with
  parameters) and only canonical escapes, that normalising again changes nothing, that the
  \<open>expect\<close> on the decoded bytes never fires on UTF-8 input, and what the parameter-free path is.
\<close>

section \<open>Definitions\<close>

text \<open>RFC 3986 unreserved: an escape of one of these bytes is decoded.\<close>

definition unreserved :: "char \<Rightarrow> bool" where
  "unreserved v \<longleftrightarrow> is_ascii_alphanumeric v \<or> v \<in> {CHR ''-'', CHR ''.'', CHR ''_'', CHR ''~''}"

text \<open>
  The decoding loop from one position on. The source appends to a buffer and moves an index; the
  two slices it takes there start at a \<open>%\<close>, so only the bytes from the position on decide them.
\<close>

function decode_path :: "string \<Rightarrow> string + string" where
  "decode_path bytes =
     (case bytes of
        [] \<Rightarrow> Ok []
      | c # rest \<Rightarrow>
          if c = CHR ''%'' then
            (case str_get bytes 1 3 of
               None \<Rightarrow> Err ''a truncated percent escape''
             | Some hex \<Rightarrow>
                 if \<not> list_all is_ascii_hexdigit hex then Err ''an invalid percent escape''
                 else let v = char_of (hex_from 0 hex) in
                   (case decode_path (drop 3 bytes) of
                      Err e \<Rightarrow> Err e
                    | Ok d \<Rightarrow>
                        Ok ((if unreserved v then [v] else CHR ''%'' # to_ascii_uppercase hex) @ d)))
          else (case decode_path rest of Err e \<Rightarrow> Err e | Ok d \<Rightarrow> Ok (c # d)))"
  by pat_completeness auto
termination
  by (relation "measure length") (auto split: if_splits)

declare decode_path.simps [simp del]

definition push_merged :: "string \<Rightarrow> char \<Rightarrow> string" where
  "push_merged out c = (if c = CHR ''/'' \<and> suffix ''/'' out then out else out @ [c])"

definition merge_slashes :: "string \<Rightarrow> string" where
  "merge_slashes decoded = foldl push_merged [] decoded"

definition without_params :: "string \<Rightarrow> string" where
  "without_params segment = (case split_once CHR '';'' segment of None \<Rightarrow> segment | Some (name, _) \<Rightarrow> name)"

definition has_dot_segment :: "string \<Rightarrow> bool" where
  "has_dot_segment out \<longleftrightarrow>
     list_ex (\<lambda>seg. without_params seg = ''.'' \<or> without_params seg = ''..'') (split_on CHR ''/'' out)"

definition normalize_path :: "string \<Rightarrow> (string + string) run" where
  "normalize_path raw =
     (if raw = [] then Returns (Ok ''/'')
      else if \<not> prefix ''/'' raw then Returns (Err ''the request target is not an absolute path'')
      else case decode_path raw of
        Err e \<Rightarrow> Returns (Err e)
      | Ok decoded \<Rightarrow>
          if \<not> valid_utf8 decoded then Panics
          else let out = merge_slashes decoded in
            if has_dot_segment out then Returns (Err ''a dot segment in the path'')
            else Returns (Ok out))"

text \<open>One turn of the loop of \<open>without_path_params\<close> for the segment at index \<open>i\<close>.\<close>

fun params_loop :: "nat \<Rightarrow> string \<Rightarrow> string list \<Rightarrow> string" where
  "params_loop i out [] = out"
| "params_loop i out (segment # segs) =
     (if 0 < i \<and> suffix ''/'' out
      then params_loop (i + 1) (if segment \<noteq> [] then out @ segment else out) segs
      else if 0 < i then params_loop (i + 1) (out @ ''/'' @ segment) segs
      else params_loop (i + 1) (out @ segment) segs)"

definition without_path_params :: "string \<Rightarrow> string option" where
  "without_path_params path =
     (if CHR '';'' \<notin> set path then None
      else Some (params_loop 0 [] (map without_params (split_on CHR ''/'' path))))"

section \<open>Merging slashes\<close>

text \<open>The same merge, reading left to right with the last byte written as state.\<close>

fun squeeze :: "bool \<Rightarrow> string \<Rightarrow> string" where
  "squeeze b [] = []"
| "squeeze b (c # s) =
     (if c = CHR ''/'' then (if b then squeeze True s else c # squeeze True s)
      else c # squeeze False s)"

lemma foldl_push_merged: "foldl push_merged out s = out @ squeeze (suffix ''/'' out) s"
proof (induction s arbitrary: out)
  case (Cons c s)
  then show ?case
    by (auto simp: push_merged_def suffix_def)
qed simp

lemma merge_slashes_squeeze: "merge_slashes s = squeeze False s"
  by (simp add: merge_slashes_def foldl_push_merged)

lemma squeeze_idem: "squeeze b (squeeze b s) = squeeze b s"
  by (induction s arbitrary: b) auto

definition no_double_slash :: "string \<Rightarrow> bool" where
  "no_double_slash s \<longleftrightarrow> \<not> sublist ''//'' s"

lemma squeeze_no_double: "\<not> sublist ''//'' (squeeze b s) \<and> (b \<longrightarrow> \<not> prefix ''/'' (squeeze b s))"
  by (induction s arbitrary: b) (auto simp: sublist_Cons_right)

lemma squeeze_starts: "prefix ''/'' s \<Longrightarrow> prefix ''/'' (squeeze False s)"
  by (cases s) auto

section \<open>Decoding\<close>

lemma slash_percent_bytes [simp]:
  "byte CHR ''/'' = 47" "byte CHR ''%'' = 37" "byte CHR ''.'' = 46" "byte CHR '';'' = 59"
  by (simp_all add: byte_def)

lemma str_get_escape:
  "str_get (c # s) 1 3 = Some hex \<longleftrightarrow>
     (\<exists>a b t. s = a # b # t \<and> hex = [a, b] \<and> \<not> is_continuation a \<and> (t = [] \<or> \<not> is_continuation (hd t)))"
  by (auto simp: str_get_def is_char_boundary_def numeral_eq_Suc Suc_le_length_iff neq_Nil_conv
      hd_conv_nth)

lemma hex_byte_ascii: "is_ascii_hexdigit c \<Longrightarrow> byte c < 128 \<and> \<not> is_continuation c \<and> c \<noteq> CHR ''/'' \<and> c \<noteq> CHR ''%''"
  by (auto simp: is_ascii_hexdigit_def is_ascii_digit_def is_continuation_def)

lemma unreserved_ascii: "unreserved c \<Longrightarrow> byte c < 128 \<and> \<not> is_continuation c \<and> c \<noteq> CHR ''%''"
  by (auto simp: unreserved_def ascii_class_defs is_continuation_def byte_def)

definition escaped_byte :: "char \<Rightarrow> char \<Rightarrow> char" where
  "escaped_byte a b = char_of (hex_from 0 [a, b])"

lemma decode_path_Nil [simp]: "decode_path [] = Ok []"
  by (simp add: decode_path.simps)

lemma decode_path_plain:
  "c \<noteq> CHR ''%'' \<Longrightarrow> decode_path (c # s) = Ok d \<longleftrightarrow> (\<exists>d'. decode_path s = Ok d' \<and> d = c # d')"
  by (subst decode_path.simps) (auto split: sum.splits)

definition rewritten_escape :: "char \<Rightarrow> char \<Rightarrow> string" where
  "rewritten_escape a b = (if unreserved (escaped_byte a b) then [escaped_byte a b]
     else [CHR ''%'', ascii_upper a, ascii_upper b])"

lemma decode_path_escape:
  "decode_path (CHR ''%'' # s) = Ok d \<longleftrightarrow>
     (\<exists>a b t d'. s = a # b # t \<and> is_ascii_hexdigit a \<and> is_ascii_hexdigit b \<and>
        (t = [] \<or> \<not> is_continuation (hd t)) \<and> decode_path t = Ok d' \<and>
        d = rewritten_escape a b @ d')"
  (is "?l \<longleftrightarrow> ?r")
proof -
  have unfold: "?l \<longleftrightarrow>
      (\<exists>hex d'. str_get (CHR ''%'' # s) 1 3 = Some hex \<and> list_all is_ascii_hexdigit hex \<and>
        decode_path (drop 2 s) = Ok d' \<and>
        d = (if unreserved (char_of (hex_from 0 hex)) then [char_of (hex_from 0 hex)]
             else CHR ''%'' # to_ascii_uppercase hex) @ d')"
    by (subst decode_path.simps) (auto simp: Let_def split: option.splits sum.splits)
  show ?thesis
  proof
    assume ?l
    then show ?r
      unfolding unfold str_get_escape rewritten_escape_def escaped_byte_def by fastforce
  next
    assume ?r
    then obtain a b t d' where "s = a # b # t" "is_ascii_hexdigit a" "is_ascii_hexdigit b"
        "t = [] \<or> \<not> is_continuation (hd t)" "decode_path t = Ok d'" "d = rewritten_escape a b @ d'"
      by blast
    then show ?l
      unfolding unfold str_get_escape
      by (intro exI [of _ "[a, b]"] exI [of _ d'])
        (auto simp: hex_byte_ascii rewritten_escape_def escaped_byte_def)
  qed
qed

lemma decode_path_copies:
  "\<forall>c \<in> set m. c \<noteq> CHR ''%'' \<Longrightarrow> decode_path (m @ t) = Ok d \<longleftrightarrow> (\<exists>d'. decode_path t = Ok d' \<and> d = m @ d')"
  by (induction m arbitrary: d) (auto simp: decode_path_plain)

text \<open>
  The escapes left by decoding: two uppercase hexadecimal digits of a byte that is not
  unreserved, with a character boundary after them.
\<close>

fun canonical :: "string \<Rightarrow> bool" where
  "canonical [] \<longleftrightarrow> True"
| "canonical (c # s) \<longleftrightarrow>
     (if c = CHR ''%'' then
        (case s of
           a # b # t \<Rightarrow> is_ascii_hexdigit a \<and> is_ascii_hexdigit b \<and>
             ascii_upper a = a \<and> ascii_upper b = b \<and> \<not> unreserved (escaped_byte a b) \<and>
             (t = [] \<or> \<not> is_continuation (hd t)) \<and> canonical t
         | _ \<Rightarrow> False)
      else canonical s)"

lemma escaped_byte_upper:
  "is_ascii_hexdigit a \<Longrightarrow> is_ascii_hexdigit b \<Longrightarrow>
   escaped_byte (ascii_upper a) (ascii_upper b) = escaped_byte a b"
  by (simp add: escaped_byte_def hex_val_upper)

lemma decode_path_canonical:
  "decode_path s = Ok d \<Longrightarrow>
   canonical d \<and> (s \<noteq> [] \<longrightarrow> d \<noteq> [] \<and> (\<not> is_continuation (hd s) \<longrightarrow> \<not> is_continuation (hd d)))"
proof (induction s arbitrary: d rule: measure_induct_rule [of length])
  case (less s)
  show ?case
  proof (cases s)
    case (Cons c r)
    show ?thesis
    proof (cases "c = CHR ''%''")
      case True
      with less.prems Cons obtain a b t d' where e: "r = a # b # t" "is_ascii_hexdigit a"
          "is_ascii_hexdigit b" "t = [] \<or> \<not> is_continuation (hd t)" "decode_path t = Ok d'"
          "d = rewritten_escape a b @ d'"
        by (auto simp: decode_path_escape)
      with less.IH [of t d'] Cons
      have "canonical d' \<and> (t \<noteq> [] \<longrightarrow> d' \<noteq> [] \<and> \<not> is_continuation (hd d'))"
        by auto
      moreover have "t = [] \<Longrightarrow> d' = []" using e(5) by simp
      moreover have "\<not> is_continuation CHR ''%''" by (simp add: is_continuation_def)
      ultimately show ?thesis
        using e by (auto simp: rewritten_escape_def escaped_byte_upper hexdigit_upper
            dest: unreserved_ascii)
    next
      case False
      with less.prems Cons obtain d' where "decode_path r = Ok d'" "d = c # d'"
        by (auto simp: decode_path_plain)
      with less.IH [of r d'] Cons False show ?thesis by auto
    qed
  qed (use less.prems in simp)
qed

lemma canonical_decode: "canonical s \<Longrightarrow> decode_path s = Ok s"
proof (induction s rule: canonical.induct)
  case (2 c s)
  show ?case
  proof (cases "c = CHR ''%''")
    case True
    with 2(3) obtain a b t where t: "s = a # b # t" "is_ascii_hexdigit a" "is_ascii_hexdigit b"
        "ascii_upper a = a" "ascii_upper b = b" "\<not> unreserved (escaped_byte a b)"
        "t = [] \<or> \<not> is_continuation (hd t)" "canonical t"
      by (auto split: list.splits)
    with True 2(1) have "decode_path t = Ok t" by simp
    with t have "decode_path (CHR ''%'' # s) = Ok (CHR ''%'' # s)"
      unfolding decode_path_escape by (intro exI [of _ a] exI [of _ b] exI [of _ t]) (simp add: rewritten_escape_def)
    with True show ?thesis by simp
  next
    case False
    with 2 show ?thesis by (simp add: decode_path_plain)
  qed
qed simp

lemma canonical_squeeze: "canonical s \<Longrightarrow> canonical (squeeze b s)"
proof (induction s arbitrary: b rule: canonical.induct)
  case (2 c s)
  show ?case
  proof (cases "c = CHR ''%''")
    case True
    with 2(3) obtain a b' t where t: "s = a # b' # t" "is_ascii_hexdigit a" "is_ascii_hexdigit b'"
        "ascii_upper a = a" "ascii_upper b' = b'" "\<not> unreserved (escaped_byte a b')"
        "t = [] \<or> \<not> is_continuation (hd t)" "canonical t"
      by (auto split: list.splits)
    moreover have "squeeze False t = [] \<or> \<not> is_continuation (hd (squeeze False t))"
      using t(7) by (cases t) (auto simp: is_continuation_def)
    ultimately show ?thesis
      using True 2(1) by (auto dest: hex_byte_ascii)
  next
    case False
    with 2 show ?thesis by auto
  qed
qed simp

section \<open>UTF-8 under the two rewrites\<close>

lemma valid_utf8_decode: "decode_path s = Ok d \<Longrightarrow> valid_utf8 s \<Longrightarrow> valid_utf8 d"
proof (induction s arbitrary: d rule: measure_induct_rule [of length])
  case (less s)
  show ?case
  proof (cases "s = []")
    case False
    with less.prems(2) have "utf8_head s \<noteq> 0" and v: "valid_utf8 (drop (utf8_head s) s)"
      by (subst (asm) valid_utf8.simps, auto split: if_splits)+
    then show ?thesis
    proof (cases s rule: utf8_head_cases)
      case (1 c r)
      show ?thesis
      proof (cases "c = CHR ''%''")
        case True
        with less.prems(1) 1 obtain a b t d' where e: "r = a # b # t"
            "is_ascii_hexdigit a" "is_ascii_hexdigit b" "decode_path t = Ok d'"
            "d = rewritten_escape a b @ d'"
          by (auto simp: decode_path_escape)
        moreover from v 1 e have "valid_utf8 t" by (simp add: hex_byte_ascii)
        ultimately show ?thesis
          using less.IH [of t d'] 1
          by (auto simp: rewritten_escape_def hex_byte_ascii hexdigit_upper dest: unreserved_ascii)
      next
        case False
        with less.prems(1) 1 obtain d' where "decode_path r = Ok d'" "d = c # d'"
          by (auto simp: decode_path_plain)
        then show ?thesis using less.IH [of r d'] 1 v by simp
      qed
    next
      case (2 m t)
      then have "\<forall>c \<in> set m. c \<noteq> CHR ''%''" and "m \<noteq> []"
        by (auto dest: utf8_multi_high simp: utf8_multi_nonempty)
      moreover from this less.prems(1) 2 obtain d' where "decode_path t = Ok d'" "d = m @ d'"
        by (auto simp: decode_path_copies)
      ultimately show ?thesis using less.IH [of t d'] 2 v by (simp add: valid_utf8_multi)
    qed
  qed (use less.prems in simp)
qed

lemma squeeze_copies: "CHR ''/'' \<notin> set m \<Longrightarrow> m \<noteq> [] \<Longrightarrow> squeeze b (m @ t) = m @ squeeze False t"
  by (induction m arbitrary: b) (auto, (case_tac m; simp)+)

lemma valid_utf8_squeeze: "valid_utf8 s \<Longrightarrow> valid_utf8 (squeeze b s)"
proof (induction s arbitrary: b rule: valid_utf8_induct)
  case (multi m s)
  then have "CHR ''/'' \<notin> set m" and "m \<noteq> []"
    by (auto dest: utf8_multi_high simp: utf8_multi_nonempty)
  with multi show ?case by (simp add: squeeze_copies valid_utf8_multi)
qed auto

section \<open>What a normalised path is\<close>

lemma normalize_path_Ok:
  assumes "normalize_path raw = Returns (Ok p)"
  obtains (root) "p = ''/''"
    | (path) decoded where "prefix ''/'' raw" "decode_path raw = Ok decoded" "valid_utf8 decoded"
        "p = squeeze False decoded" "\<not> has_dot_segment p"
  using assms
  by (auto simp: normalize_path_def merge_slashes_squeeze Let_def split: if_splits sum.splits)

lemma decode_path_starts: "prefix ''/'' raw \<Longrightarrow> decode_path raw = Ok d \<Longrightarrow> prefix ''/'' d"
  by (cases raw) (auto simp: decode_path_plain)

lemma normalized_shape:
  assumes "normalize_path raw = Returns (Ok p)"
  shows "prefix ''/'' p \<and> no_double_slash p \<and> \<not> has_dot_segment p \<and> canonical p"
  using assms
proof (cases rule: normalize_path_Ok)
  case root
  then show ?thesis by (simp add: no_double_slash_def sublist_Cons_right, code_simp)
next
  case (path decoded)
  from path(1,2) have "prefix ''/'' decoded" by (rule decode_path_starts)
  then show ?thesis
    using path decode_path_canonical [OF path(2)] squeeze_no_double [of False decoded]
    by (simp add: no_double_slash_def squeeze_starts canonical_squeeze)
qed

text \<open>
  A request target that is UTF-8 is always either normalised or refused: the
  \<open>expect\<close> on the decoded bytes cannot fire.
\<close>

theorem normalize_path_no_panic: "valid_utf8 raw \<Longrightarrow> normalize_path raw \<noteq> Panics"
  using valid_utf8_decode by (auto simp: normalize_path_def Let_def split: sum.splits)

theorem normalize_path_no_panic_witness:
  "valid_utf8 [CHR ''/'', CHR 0xC3, CHR 0xA9, CHR ''%'', CHR ''4'', CHR ''1''] \<and>
   normalize_path [CHR ''/'', CHR 0xC3, CHR 0xA9, CHR ''%'', CHR ''4'', CHR ''1''] \<noteq> Panics"
proof -
  have v: "valid_utf8 [CHR ''/'', CHR 0xC3, CHR 0xA9, CHR ''%'', CHR ''4'', CHR ''1'']"
    by code_simp
  then show ?thesis using normalize_path_no_panic [OF v] by simp
qed

lemma without_params_takeWhile: "without_params seg = takeWhile (\<lambda>c. c \<noteq> CHR '';'') seg"
  unfolding without_params_def
  by (induction seg) (auto simp del: split_once_None split: option.split_asm option.split)

text \<open>
  C6: whatever the client wrote, the path that is matched and forwarded starts with a slash, has no
  two slashes in a row, has no dot segment (with or without parameters), and every escape left in
  it is an uppercase escape of a byte that is not unreserved.
\<close>

theorem normalize_path_safe:
  assumes "normalize_path raw = Returns (Ok p)"
  shows "prefix ''/'' p \<and> no_double_slash p \<and> canonical p \<and>
    (\<forall>seg \<in> set (split_on CHR ''/'' p). takeWhile (\<lambda>c. c \<noteq> CHR '';'') seg \<notin> {''.'', ''..''})"
  using normalized_shape [OF assms]
  by (simp add: has_dot_segment_def list_ex_iff without_params_takeWhile)

theorem normalize_path_safe_witness:
  "normalize_path ''//a%2fb/%7Ec'' = Returns (Ok ''/a%2Fb/~c'') \<and> no_double_slash ''/a%2Fb/~c'' \<and>
   canonical ''/a%2Fb/~c''"
proof -
  have h: "normalize_path ''//a%2fb/%7Ec'' = Returns (Ok ''/a%2Fb/~c'')" by code_simp
  then show ?thesis using normalize_path_safe [OF h] by simp
qed

text \<open>
  Normalisation is idempotent, so a route value the translator stored in normal form and the
  path of a request are compared in the same form, however often each was normalised.
\<close>

theorem normalize_path_idem:
  assumes "normalize_path raw = Returns (Ok p)"
  shows "normalize_path p = Returns (Ok p)"
  using assms
proof (cases rule: normalize_path_Ok)
  case root
  then show ?thesis by (simp, code_simp)
next
  case (path decoded)
  have "prefix ''/'' p" and "canonical p" using normalized_shape [OF assms] by auto
  moreover have "valid_utf8 p" using path valid_utf8_squeeze by simp
  moreover have "squeeze False p = p" using path squeeze_idem by simp
  ultimately show ?thesis
    using path by (auto simp: normalize_path_def canonical_decode merge_slashes_squeeze Let_def)
qed

theorem normalize_path_idem_witness:
  "normalize_path ''/%61//b'' = Returns (Ok ''/a/b'') \<and> normalize_path ''/a/b'' = Returns (Ok ''/a/b'')"
proof -
  have h: "normalize_path ''/%61//b'' = Returns (Ok ''/a/b'')" by code_simp
  then show ?thesis using normalize_path_idem [OF h] by simp
qed

section \<open>The path a servlet container resolves\<close>

definition segments :: "string \<Rightarrow> string list" where
  "segments s = filter (\<lambda>w. w \<noteq> []) (split_on CHR ''/'' s)"

lemma no_double_slash_append:
  "no_double_slash (x @ y) \<longleftrightarrow>
     no_double_slash x \<and> no_double_slash y \<and> \<not> (suffix ''/'' x \<and> prefix ''/'' y)"
  by (auto simp: no_double_slash_def sublist_append Cons_eq_append_conv)

lemma no_double_slash_free: "CHR ''/'' \<notin> set w \<Longrightarrow> no_double_slash w \<and> \<not> prefix ''/'' w"
  by (auto simp: no_double_slash_def sublist_def prefix_def)

lemma no_double_slash_slash [simp]: "no_double_slash ''/''"
  by (simp add: no_double_slash_def sublist_Cons_right)

lemma segments_slash:
  "CHR ''/'' \<notin> set w \<Longrightarrow> segments (out @ CHR ''/'' # w) = segments out @ (if w = [] then [] else [w])"
  by (simp add: segments_def split_on_append split_on_no_delim)

lemma params_loop_spec:
  assumes "0 < i" and "\<forall>w \<in> set segs. CHR ''/'' \<notin> set w" and "no_double_slash out"
  shows "segments (params_loop i out segs) = segments out @ filter (\<lambda>w. w \<noteq> []) segs \<and>
    no_double_slash (params_loop i out segs)"
  using assms
proof (induction segs arbitrary: i out)
  case (Cons w segs)
  then have w: "CHR ''/'' \<notin> set w" by simp
  show ?case
  proof (cases "suffix ''/'' out")
    case True
    then obtain o' where o': "out = o' @ ''/''" by (auto simp: suffix_def)
    have "no_double_slash (out @ w)"
      using Cons.prems(3) w by (simp add: no_double_slash_append no_double_slash_free)
    moreover have "w \<noteq> [] \<Longrightarrow> segments (out @ w) = segments out @ [w]"
      using segments_slash [of w o'] segments_slash [of "[]" o'] w by (simp add: o')
    ultimately show ?thesis
      using Cons True by auto
  next
    case False
    have "no_double_slash (out @ ''/'' @ w)"
      using Cons.prems(3) w False no_double_slash_free [of w]
      by (auto simp: no_double_slash_append simp del: append_Cons)
    with Cons False w show ?thesis by (auto simp: segments_slash)
  qed
qed simp

lemma params_loop_set: "set (params_loop i out segs) \<subseteq> set out \<union> {CHR ''/''} \<union> \<Union> (set ` set segs)"
proof (induction segs arbitrary: i out)
  case (Cons w segs)
  show ?case
    using Cons [of "Suc i" out] Cons [of "Suc i" "out @ w"] Cons [of "Suc i" "out @ CHR ''/'' # w"]
    by auto
qed auto

lemma without_params_props:
  "CHR '';'' \<notin> set (without_params w)" "set (without_params w) \<subseteq> set w" "without_params [] = []"
  "CHR '';'' \<notin> set w \<Longrightarrow> without_params w = w"
  by (auto simp: without_params_def split: option.splits dest: split_once_SomeD)

lemma params_loop_absolute:
  fixes q :: string
  defines "r \<equiv> params_loop 0 [] (map without_params (split_on CHR ''/'' (CHR ''/'' # q)))"
  shows "prefix ''/'' r" and "CHR '';'' \<notin> set r" and "no_double_slash r"
    and "segments r = filter (\<lambda>w. w \<noteq> []) (map without_params (split_on CHR ''/'' q))"
proof -
  let ?segs = "map without_params (split_on CHR ''/'' q)"
  obtain w ws where ws: "?segs = w # ws" by (cases ?segs) auto
  have "\<forall>x \<in> set ?segs. CHR ''/'' \<notin> set x \<and> CHR '';'' \<notin> set x"
    using split_on_pieces without_params_props(1,2) by fastforce
  then have clean: "CHR ''/'' \<notin> set w" "\<forall>x \<in> set ws. CHR ''/'' \<notin> set x"
      "CHR '';'' \<notin> set w" "\<forall>x \<in> set ws. CHR '';'' \<notin> set x"
    by (simp_all add: ws)
  have r: "r = params_loop 2 (CHR ''/'' # w) ws"
    using ws by (simp add: r_def without_params_props numeral_2_eq_2)
  have "no_double_slash (CHR ''/'' # w)"
    using clean(1) no_double_slash_append [of "''/''" w] by (simp add: no_double_slash_free)
  then have "segments r = segments (CHR ''/'' # w) @ filter (\<lambda>w. w \<noteq> []) ws \<and> no_double_slash r"
    using params_loop_spec [of 2 ws "CHR ''/'' # w"] clean by (simp add: r)
  moreover have "segments (CHR ''/'' # w) = (if w = [] then [] else [w])"
    using segments_slash [OF clean(1), of "[]"] by (simp add: segments_def)
  ultimately show "segments r = filter (\<lambda>w. w \<noteq> []) ?segs" and "no_double_slash r"
    by (simp_all add: ws)
  show "CHR '';'' \<notin> set r"
    using params_loop_set [of 2 "CHR ''/'' # w" ws] clean by (auto simp: r)
  have "prefix ''/'' (params_loop i (CHR ''/'' # out) xs)" for i out xs
    by (induction xs arbitrary: i out) auto
  then show "prefix ''/'' r" by (simp add: r)
qed

lemma filter_without_params:
  "filter (\<lambda>w. w \<noteq> []) (map without_params (filter (\<lambda>w. w \<noteq> []) xs)) =
   filter (\<lambda>w. w \<noteq> []) (map without_params xs)"
  by (induction xs) (auto simp: without_params_props)

text \<open>
  For a normalised path that carries parameters, the path matched a second time starts with a
  slash, has no parameter, no two slashes in a row and no dot segment, and its segments are the
  ones a servlet container sees: those of the request in order, each cut at its first \<open>;\<close>,
  without the ones that leaves empty.
\<close>

theorem without_path_params_spec:
  assumes "normalize_path raw = Returns (Ok p)" and "without_path_params p = Some r"
  shows "prefix ''/'' r \<and> CHR '';'' \<notin> set r \<and> no_double_slash r \<and> \<not> has_dot_segment r \<and>
    segments r = filter (\<lambda>w. w \<noteq> []) (map without_params (segments p))"
proof -
  have p: "prefix ''/'' p" "\<not> has_dot_segment p" using normalized_shape [OF assms(1)] by auto
  then obtain q where q: "p = CHR ''/'' # q" by (cases p) auto
  have r: "r = params_loop 0 [] (map without_params (split_on CHR ''/'' (CHR ''/'' # q)))"
    using assms(2) by (auto simp: without_path_params_def q split: if_splits)
  have segs: "segments r = filter (\<lambda>w. w \<noteq> []) (map without_params (segments p))"
    using params_loop_absolute(4) [of q] filter_without_params by (simp add: r q segments_def)
  have "\<not> has_dot_segment r"
  proof
    assume "has_dot_segment r"
    then obtain x where x: "x \<in> set (split_on CHR ''/'' r)" "without_params x = ''.'' \<or> without_params x = ''..''"
      by (auto simp: has_dot_segment_def list_ex_iff)
    then have "x \<in> set (segments r)" by (auto simp: segments_def without_params_props)
    then obtain y where "y \<in> set (split_on CHR ''/'' p)" "x = without_params y"
      unfolding segs by (auto simp: segments_def)
    with x p(2) show False
      by (auto simp: has_dot_segment_def list_ex_iff without_params_props)
  qed
  with segs show ?thesis using params_loop_absolute(1-3) [of q] by (simp add: r)
qed

theorem without_path_params_spec_witness:
  "prefix ''/'' ''/admin/secret'' \<and> CHR '';'' \<notin> set ''/admin/secret'' \<and>
   no_double_slash ''/admin/secret'' \<and> \<not> has_dot_segment ''/admin/secret'' \<and>
   segments ''/admin/secret'' =
     filter (\<lambda>w. w \<noteq> []) (map without_params (segments ''/admin;x/;y/secret''))"
proof -
  have "normalize_path ''//admin;x/;y/secret'' = Returns (Ok ''/admin;x/;y/secret'')" by code_simp
  moreover have "without_path_params ''/admin;x/;y/secret'' = Some ''/admin/secret''" by code_simp
  ultimately show ?thesis by (rule without_path_params_spec)
qed

end
