(* ===== verification/Attrs.thy ===== *)
theory Attrs
  imports Matcher Path Query Headers
begin

text \<open>
  \<^verbatim>\<open>gapura/src/proxy/attrs.rs\<close>: what the matcher is given of a request. The request is what the HTTP
  library parsed: its method, the host of its target, its path, its query and its header lines as
  bytes. Shows that the host a route is chosen by is the one host the request names, in normal
  form, and that the path it is matched by is the normalised one.
\<close>

section \<open>Definitions\<close>

record raw_request =
  rr_method :: string
  rr_target_host :: "string option"
  rr_path :: string
  rr_query :: "string option"
  rr_lines :: "(string \<times> string) list"

record extracted =
  ex_host :: string
  ex_path :: string
  ex_path_normalized :: bool
  ex_query_string :: "string option"
  ex_method :: string
  ex_headers :: "(string \<times> string) list"
  ex_query :: "(string \<times> string) list"

definition bracketed_host :: "string \<Rightarrow> string option" where
  "bracketed_host rest =
     Option.bind (split_once CHR '']'' rest) (\<lambda>(inner, after).
       let port = (case strip_prefix '':'' after of Some p \<Rightarrow> p | None \<Rightarrow> after) in
       if after \<noteq> [] \<and> \<not> list_all is_ascii_digit port then None
       else map_option (\<lambda>a. ''['' @ show_ipv6 a @ '']'') (parse_ipv6 inner))"

definition without_port :: "string \<Rightarrow> string" where
  "without_port s =
     (case rsplit_once CHR '':'' s of
        Some (h, port) \<Rightarrow> if list_all is_ascii_digit port then h else s
      | None \<Rightarrow> s)"

definition normalize_host :: "string \<Rightarrow> string option" where
  "normalize_host raw =
     (let trimmed = trim raw in
      case strip_prefix ''['' trimmed of
        Some rest \<Rightarrow> bracketed_host rest
      | None \<Rightarrow>
          (let wp = without_port trimmed;
               host = to_ascii_lowercase (case strip_suffix ''.'' wp of Some h \<Rightarrow> h | None \<Rightarrow> wp)
           in if host = [] \<or> CHR ''*'' \<in> set host \<or> list_ex (\<lambda>l. l = []) (split_on CHR ''.'' host) then None
              else Some host))"

text \<open>\<open>to_str\<close> reads a header value as text, where it is one.\<close>

definition host_of :: "(string \<Rightarrow> string option) \<Rightarrow> string list \<Rightarrow> string option \<Rightarrow> string + string option" where
  "host_of to_str host_lines target =
     (if 2 \<le> length host_lines then Err ''more than one Host header''
      else let line = (case host_lines of [] \<Rightarrow> None | v # _ \<Rightarrow> Some v);
               from_line = Option.bind (Option.bind line to_str) normalize_host
        in case target of
             None \<Rightarrow> Ok from_line
           | Some authority \<Rightarrow>
               (let from_target = normalize_host authority in
                if line \<noteq> None \<and> from_line \<noteq> from_target
                then Err ''the Host header disagrees with the request target''
                else Ok from_target))"

definition lines_of :: "raw_request \<Rightarrow> string \<Rightarrow> string list" where
  "lines_of req name = map snd (filter (\<lambda>(n, _). eq_ignore_ascii_case n name) (rr_lines req))"

definition from_request :: "(string \<Rightarrow> string option) \<Rightarrow> raw_request \<Rightarrow> (string + extracted) run" where
  "from_request to_str req =
     (case host_of to_str (lines_of req ''host'') (rr_target_host req) of
        Err e \<Rightarrow> Returns (Err e)
      | Ok host \<Rightarrow>
          (case normalize_path (rr_path req) of
             Panics \<Rightarrow> Panics
           | Returns (Err e) \<Rightarrow> Returns (Err e)
           | Returns (Ok path) \<Rightarrow>
               Returns (Ok \<lparr>ex_host = (case host of Some h \<Rightarrow> h | None \<Rightarrow> []),
                 ex_path = path, ex_path_normalized = (path \<noteq> rr_path req),
                 ex_query_string = rr_query req, ex_method = rr_method req,
                 ex_headers = map (\<lambda>(n, v). (n, from_utf8_lossy v)) (rr_lines req),
                 ex_query = (case rr_query req of Some q \<Rightarrow> parse_query q | None \<Rightarrow> [])\<rparr>)))"

definition attrs :: "extracted \<Rightarrow> request_attrs" where
  "attrs e = \<lparr>ra_host = ex_host e, ra_path = ex_path e, ra_method = ex_method e,
     ra_headers = ex_headers e, ra_query = ex_query e\<rparr>"

section \<open>Hosts in normal form\<close>

text \<open>A host name a route can be chosen by: lowercase, no star, no empty label, so no dot at either end.\<close>

definition plain_host :: "string \<Rightarrow> bool" where
  "plain_host h \<longleftrightarrow>
     h \<noteq> [] \<and> to_ascii_lowercase h = h \<and> CHR ''*'' \<notin> set h \<and> [] \<notin> set (split_on CHR ''.'' h)"

lemma normalize_host_shape:
  assumes "normalize_host raw = Some h"
  shows "plain_host h \<or> (\<exists>a. h = ''['' @ show_ipv6 a @ '']'')"
  using assms
  by (auto simp: normalize_host_def bracketed_host_def plain_host_def Let_def list_ex_iff bind_eq_Some_conv
      split: option.splits if_splits prod.splits)

lemma host_of_Ok:
  assumes "host_of to_str lines target = Ok host"
  shows "length lines < 2"
    and "host = (case target of Some authority \<Rightarrow> normalize_host authority
       | None \<Rightarrow> (case lines of [] \<Rightarrow> None | v # _ \<Rightarrow> Option.bind (to_str v) normalize_host))"
    and "lines = [v] \<Longrightarrow> host = Option.bind (to_str v) normalize_host"
  using assms by (auto simp: host_of_def Let_def split: if_splits option.splits list.splits)

text \<open>
  Matching sees the host the request names and the path in normal form. When the attributes
  of a request can be extracted, it has at most one \<open>Host\<close> line; the host matched is the normal
  form of the line whenever there is one, and of the target when that names a host, so the two
  never disagree; a host that is matched is a plain lowercase name or a bracketed IPv6 literal;
  and the path is the one \<open>normalize_path\<close> gives, flagged when it differs from what was sent.
\<close>

theorem from_request_sound:
  assumes "from_request to_str req = Returns (Ok e)"
  shows "length (lines_of req ''host'') \<le> 1 \<and>
    (lines_of req ''host'' = [v] \<longrightarrow>
      ex_host e = (case Option.bind (to_str v) normalize_host of Some h \<Rightarrow> h | None \<Rightarrow> [])) \<and>
    (rr_target_host req = Some authority \<longrightarrow>
      ex_host e = (case normalize_host authority of Some h \<Rightarrow> h | None \<Rightarrow> [])) \<and>
    (ex_host e = [] \<or> plain_host (ex_host e) \<or> (\<exists>a. ex_host e = ''['' @ show_ipv6 a @ '']'')) \<and>
    normalize_path (rr_path req) = Returns (Ok (ex_path e)) \<and>
      (ex_path_normalized e \<longleftrightarrow> ex_path e \<noteq> rr_path req)"
proof -
  from assms obtain host where host: "host_of to_str (lines_of req ''host'') (rr_target_host req) = Ok host"
    and e: "ex_host e = (case host of Some h \<Rightarrow> h | None \<Rightarrow> [])"
    and path: "normalize_path (rr_path req) = Returns (Ok (ex_path e)) \<and>
      (ex_path_normalized e \<longleftrightarrow> ex_path e \<noteq> rr_path req)"
    by (auto simp: from_request_def split: sum.splits run.splits)
  note h = host_of_Ok [OF host]
  have "length (lines_of req ''host'') \<le> 1" using h(1) by simp
  moreover have "lines_of req ''host'' = [v] \<Longrightarrow>
      ex_host e = (case Option.bind (to_str v) normalize_host of Some h \<Rightarrow> h | None \<Rightarrow> [])"
    using h(3) e by simp
  moreover have "rr_target_host req = Some authority \<Longrightarrow>
      ex_host e = (case normalize_host authority of Some h \<Rightarrow> h | None \<Rightarrow> [])"
    using h(2) e by simp
  moreover have "host = Some x \<Longrightarrow> \<exists>raw. normalize_host raw = Some x" for x
    using h(2) by (auto split: option.splits list.splits simp: bind_eq_Some_conv)
  then have "ex_host e = [] \<or> plain_host (ex_host e) \<or> (\<exists>a. ex_host e = ''['' @ show_ipv6 a @ '']'')"
    using normalize_host_shape by (cases host) (auto simp: e)
  ultimately show ?thesis using path by blast
qed

definition plain_request :: raw_request where
  "plain_request = \<lparr>rr_method = ''GET'', rr_target_host = Some ''API.example.:443'', rr_path = ''/a//b'',
     rr_query = None, rr_lines = [(''host'', ''api.example'')]\<rparr>"

theorem from_request_sound_witness:
  "\<exists>e. from_request Some plain_request = Returns (Ok e) \<and>
     ex_host e = (case normalize_host ''API.example.:443'' of Some h \<Rightarrow> h | None \<Rightarrow> [])"
proof -
  have "case from_request Some plain_request of Returns (Inr e) \<Rightarrow> True | _ \<Rightarrow> False" by code_simp
  then obtain e where e: "from_request Some plain_request = Returns (Ok e)"
    by (auto split: run.splits sum.splits)
  have "rr_target_host plain_request = Some ''API.example.:443''" by (simp add: plain_request_def)
  from from_request_sound [OF e, of "[]" "''API.example.:443''"] this e show ?thesis by blast
qed

end
