(* ===== verification/Input.thy ===== *)
theory Input
  imports Matcher
begin

text \<open>
  \<^verbatim>\<open>gapura-core/src/input.rs\<close>, \<^verbatim>\<open>snapshot.rs\<close> and \<^verbatim>\<open>status.rs\<close>: the
  Kubernetes and Gateway API objects the translator reads, the snapshot that holds them, the
  settings, and the status it writes back. One record per struct; the three structs that mention
  each other (a backend reference has filters, a mirror filter has a backend reference) are
  mutually recursive datatypes with the fields as selectors. A \<open>BTreeMap\<close> is the
  association list of its entries in key order. An \<open>i32\<close> or \<open>i64\<close> that is only copied,
  compared or clamped is an \<^typ>\<open>int\<close>. The serde attributes (names and defaults of the
  wire form) are left out.
\<close>

section \<open>Metadata\<close>

record object_meta =
  om_name :: string
  om_namespace :: "string option"
  om_generation :: "int option"
  om_uid :: "string option"
  om_creation_timestamp :: "string option"
  om_labels :: "(string \<times> string) list"
  om_annotations :: "(string \<times> string) list"

text \<open>\<open>ObjectRef\<close>, ordered by namespace and then by name.\<close>

datatype object_ref = ObjectRef (ref_namespace: string) (ref_name: string)

instantiation object_ref :: linorder
begin

definition less_eq_object_ref :: "object_ref \<Rightarrow> object_ref \<Rightarrow> bool" where
  "less_eq_object_ref a b \<longleftrightarrow> (ref_namespace a, ref_name a) \<le> (ref_namespace b, ref_name b)"

definition less_object_ref :: "object_ref \<Rightarrow> object_ref \<Rightarrow> bool" where
  "less_object_ref a b \<longleftrightarrow> (ref_namespace a, ref_name a) < (ref_namespace b, ref_name b)"

instance
  by standard (auto simp: less_eq_object_ref_def less_object_ref_def intro: object_ref.expand)

end

definition ref_of :: "object_meta \<Rightarrow> object_ref" where
  "ref_of m = ObjectRef (case om_namespace m of Some ns \<Rightarrow> ns | None \<Rightarrow> []) (om_name m)"

fun show_ref :: "object_ref \<Rightarrow> string" where
  "show_ref (ObjectRef ns name) = ns @ ''/'' @ name"

section \<open>GatewayClass and Gateway\<close>

record gateway_class_spec =
  gcs_controller_name :: string

record gateway_class =
  gc_metadata :: object_meta
  gc_spec :: gateway_class_spec

record local_object_reference =
  lor_group :: "string option"
  lor_kind :: string
  lor_name :: string

record gateway_spec_address =
  gsa_type :: "string option"
  gsa_value :: string

record gateway_infrastructure =
  gi_parameters_ref :: "local_object_reference option"

record secret_object_reference =
  sor_group :: "string option"
  sor_kind :: "string option"
  sor_name :: string
  sor_namespace :: "string option"

record listener_tls =
  lt_mode :: "string option"
  lt_certificate_refs :: "secret_object_reference list"

record route_group_kind =
  rgk_group :: "string option"
  rgk_kind :: string

record label_selector_requirement =
  lsr_key :: string
  lsr_operator :: string
  lsr_values :: "string list"

record label_selector =
  ls_match_labels :: "(string \<times> string) list"
  ls_match_expressions :: "label_selector_requirement list"

record route_namespaces =
  rns_from :: "string option"
  rns_selector :: "label_selector option"

record allowed_routes =
  ar_namespaces :: "route_namespaces option"
  ar_kinds :: "route_group_kind list"

record listener =
  li_name :: string
  li_hostname :: "string option"
  li_port :: u16
  li_protocol :: string
  li_tls :: "listener_tls option"
  li_allowed_routes :: "allowed_routes option"

record gateway_spec =
  gs_gateway_class_name :: string
  gs_listeners :: "listener list"
  gs_infrastructure :: "gateway_infrastructure option"
  gs_addresses :: "gateway_spec_address list"

record gateway =
  gw_metadata :: object_meta
  gw_spec :: gateway_spec

section \<open>HTTPRoute\<close>

record parent_reference =
  pr_group :: "string option"
  pr_kind :: "string option"
  pr_namespace :: "string option"
  pr_name :: string
  pr_section_name :: "string option"
  pr_port :: "u16 option"

record http_path_match =
  hpm_type :: "string option"
  hpm_value :: "string option"

record http_header_match =
  hhm_type :: "string option"
  hhm_name :: string
  hhm_value :: string

record http_query_param_match =
  hqm_type :: "string option"
  hqm_name :: string
  hqm_value :: string

record http_route_match =
  hrm_path :: "http_path_match option"
  hrm_headers :: "http_header_match list"
  hrm_query_params :: "http_query_param_match list"
  hrm_method :: "string option"

definition default_route_match :: http_route_match where
  "default_route_match = \<lparr>hrm_path = None, hrm_headers = [], hrm_query_params = [], hrm_method = None\<rparr>"

record http_header =
  hh_name :: string
  hh_value :: string

record header_modifier =
  hm_set :: "http_header list"
  hm_add :: "http_header list"
  hm_remove :: "string list"

record path_modifier =
  pm_type :: string
  pm_replace_full_path :: "string option"
  pm_replace_prefix_match :: "string option"

record request_redirect =
  rqr_scheme :: "string option"
  rqr_hostname :: "string option"
  rqr_path :: "path_modifier option"
  rqr_port :: "u16 option"
  rqr_status_code :: "u16 option"

record url_rewrite =
  ur_hostname :: "string option"
  ur_path :: "path_modifier option"

record fraction =
  fr_numerator :: int
  fr_denominator :: "int option"

datatype http_backend_ref =
  HttpBackendRef (br_group: "string option") (br_kind: "string option") (br_name: string)
    (br_namespace: "string option") (br_port: "u16 option") (br_weight: "int option")
    (br_filters: "http_route_filter list")
and http_route_filter =
  HttpRouteFilter (rf_type: string) (rf_request_header_modifier: "header_modifier option")
    (rf_response_header_modifier: "header_modifier option")
    (rf_request_redirect: "request_redirect option") (rf_url_rewrite: "url_rewrite option")
    (rf_request_mirror: "request_mirror_filter option")
and request_mirror_filter =
  RequestMirrorFilter (mf_backend_ref: http_backend_ref) (mf_percent: "int option")
    (mf_fraction: "fraction option")

record http_route_timeouts =
  hrt_request :: "string option"
  hrt_backend_request :: "string option"

record http_route_rule =
  hrr_name :: "string option"
  hrr_matches :: "http_route_match list"
  hrr_filters :: "http_route_filter list"
  hrr_backend_refs :: "http_backend_ref list"
  hrr_timeouts :: "http_route_timeouts option"

record http_route_spec =
  hrs_parent_refs :: "parent_reference list"
  hrs_hostnames :: "string list"
  hrs_rules :: "http_route_rule list"

record route_parent_status_ref =
  rps_controller_name :: string

record http_route_status =
  hst_parents :: "route_parent_status_ref list"

record http_route =
  hr_metadata :: object_meta
  hr_spec :: http_route_spec
  hr_status :: http_route_status

section \<open>Grants, core objects and backend TLS\<close>

record reference_grant_from =
  rgf_group :: string
  rgf_kind :: string
  rgf_namespace :: string

record reference_grant_to =
  rgt_group :: string
  rgt_kind :: string
  rgt_name :: "string option"

record reference_grant_spec =
  rgs_from :: "reference_grant_from list"
  rgs_to :: "reference_grant_to list"

record reference_grant =
  rg_metadata :: object_meta
  rg_spec :: reference_grant_spec

record k8s_namespace =
  ns_metadata :: object_meta

datatype int_or_string = IsInt u16 | IsStr string

record service_port =
  svp_name :: "string option"
  svp_port :: u16
  svp_target_port :: "int_or_string option"
  svp_protocol :: "string option"

record service_spec =
  svs_ports :: "service_port list"

record service =
  sv_metadata :: object_meta
  sv_spec :: service_spec

record slice_endpoint_conditions =
  sec_ready :: "bool option"
  sec_serving :: "bool option"
  sec_terminating :: "bool option"

record slice_endpoint =
  se_addresses :: "string list"
  se_conditions :: "slice_endpoint_conditions option"

record slice_port =
  slp_name :: "string option"
  slp_port :: "u16 option"
  slp_protocol :: "string option"

record endpoint_slice =
  es_metadata :: object_meta
  es_address_type :: "string option"
  es_endpoints :: "slice_endpoint list"
  es_ports :: "slice_port list"

record secret =
  sc_metadata :: object_meta
  sc_type :: "string option"
  sc_data :: "(string \<times> string) list"

record policy_target_ref =
  ptr_group :: "string option"
  ptr_kind :: string
  ptr_name :: string
  ptr_section_name :: "string option"

record backend_tls_validation =
  btv_ca_certificate_refs :: "local_object_reference list"
  btv_well_known_ca_certificates :: "string option"
  btv_hostname :: string

record backend_tls_policy_spec =
  bts_target_refs :: "policy_target_ref list"
  bts_validation :: backend_tls_validation

record backend_tls_policy =
  btp_metadata :: object_meta
  btp_spec :: backend_tls_policy_spec

record config_map =
  cm_metadata :: object_meta
  cm_data :: "(string \<times> string) list"

end
