(* ===== verification/Rust_Coll.thy ===== *)
theory Rust_Coll
  imports Rust_Str
begin

text \<open>
  What the translator uses of the standard collections: a \<open>BTreeMap\<close> as the association list
  of its entries in ascending key order, \<open>Option::get_or_insert\<close>, \<open>str::contains\<close>, and
  loops whose body may panic.
\<close>

section \<open>Ordered maps\<close>

text \<open>\<open>BTreeMap::insert\<close>: the entry of a key is replaced, a new key takes its place in the order.\<close>

fun bput :: "'k::linorder \<Rightarrow> 'v \<Rightarrow> ('k \<times> 'v) list \<Rightarrow> ('k \<times> 'v) list" where
  "bput k v [] = [(k, v)]"
| "bput k v ((k', v') # m) =
     (if k = k' then (k, v) # m else if k < k' then (k, v) # (k', v') # m else (k', v') # bput k v m)"

text \<open>\<open>BTreeMap::remove\<close>.\<close>

definition bremove :: "'k \<Rightarrow> ('k \<times> 'v) list \<Rightarrow> ('k \<times> 'v) list" where
  "bremove k m = filter (\<lambda>(k', _). k' \<noteq> k) m"

text \<open>The representation invariant of an ordered map.\<close>

definition ordered :: "('k::linorder \<times> 'v) list \<Rightarrow> bool" where
  "ordered m \<longleftrightarrow> sorted_wrt (<) (keys_of m)"

lemma ordered_Nil [simp]: "ordered []"
  by (simp add: ordered_def)

lemma ordered_Cons [simp]: "ordered ((k, v) # m) \<longleftrightarrow> (\<forall>k' \<in> fst ` set m. k < k') \<and> ordered m"
  by (auto simp: ordered_def)

lemma ordered_distinct: "ordered m \<Longrightarrow> distinct (keys_of m)"
  by (simp add: ordered_def strict_sorted_iff)

lemma set_keys_bput [simp]: "fst ` set (bput k v m) = insert k (fst ` set m)"
  by (induction k v m rule: bput.induct) (simp_all add: insert_commute)

lemma ordered_bput [simp]: "ordered m \<Longrightarrow> ordered (bput k v m)"
  by (induction k v m rule: bput.induct) (auto simp: not_less less_le intro: le_less_trans)

lemma map_of_bput [simp]: "ordered m \<Longrightarrow> map_of (bput k v m) = (map_of m)(k \<mapsto> v)"
proof (induction k v m rule: bput.induct)
  case (2 k v k' v' m)
  then show ?case by (auto simp: fun_eq_iff map_of_eq_None_iff)
qed simp

lemma ordered_bremove [simp]: "ordered m \<Longrightarrow> ordered (bremove k m)"
  by (induction m) (auto simp: bremove_def)

lemma map_of_bremove [simp]: "map_of (bremove k m) = (map_of m)(k := None)"
  by (induction m) (auto simp: bremove_def fun_eq_iff)

lemma set_bput: "set (bput k v m) \<subseteq> insert (k, v) (set m)"
  by (induction k v m rule: bput.induct) auto

lemma bput_member: "(k, v) \<in> set (bput k v m)"
  by (induction k v m rule: bput.induct) auto

lemma bput_keeps: "(k', v') \<in> set m \<Longrightarrow> k' \<noteq> k \<Longrightarrow> (k', v') \<in> set (bput k v m)"
  by (induction k v m rule: bput.induct) auto

lemma map_leD: "f \<subseteq>\<^sub>m g \<Longrightarrow> f k = Some v \<Longrightarrow> g k = Some v"
  by (metis domI map_le_def)

section \<open>Options and texts\<close>

definition get_or_insert :: "'a \<Rightarrow> 'a option \<Rightarrow> 'a option" where
  "get_or_insert x slot = (case slot of None \<Rightarrow> Some x | Some y \<Rightarrow> Some y)"

lemma get_or_insert_neq_None [simp]: "get_or_insert x slot \<noteq> None"
  by (simp add: get_or_insert_def split: option.split)

text \<open>\<open>str::contains\<close> with a text.\<close>

fun str_contains :: "string \<Rightarrow> string \<Rightarrow> bool" where
  "str_contains pat [] = (pat = [])"
| "str_contains pat (c # s) = (prefix pat (c # s) \<or> str_contains pat s)"

lemma str_contains_iff: "str_contains pat s \<longleftrightarrow> (\<exists>a b. s = a @ pat @ b)"
proof (induction s)
  case (Cons c s)
  show ?case
  proof
    assume "str_contains pat (c # s)"
    with Cons consider "prefix pat (c # s)" | a b where "s = a @ pat @ b" by auto
    then show "\<exists>a b. c # s = a @ pat @ b"
    proof cases
      case 1
      then show ?thesis by (metis append_Nil prefix_def)
    next
      case (2 a b)
      then show ?thesis by (intro exI [of _ "c # a"] exI [of _ b]) simp
    qed
  next
    assume "\<exists>a b. c # s = a @ pat @ b"
    then obtain a b where ab: "c # s = a @ pat @ b" by blast
    show "str_contains pat (c # s)"
    proof (cases a)
      case Nil
      with ab have "prefix pat (c # s)" by (metis append_Nil prefixI)
      then show ?thesis by simp
    next
      case (Cons x a')
      with ab have "s = a' @ pat @ b" by simp
      with Cons.IH show ?thesis by auto
    qed
  qed
qed simp

text \<open>\<open>Result::map\<close> is \<open>map_sum id\<close>; its results.\<close>

lemma map_sum_Ok [simp]: "map_sum id f r = Ok y \<longleftrightarrow> (\<exists>x. r = Ok x \<and> y = f x)"
  by (cases r) auto

lemma map_sum_Err [simp]: "map_sum id f r = Err e \<longleftrightarrow> r = Err e"
  by (cases r) auto

section \<open>Loops that may panic\<close>

fun run_bind :: "'a run \<Rightarrow> ('a \<Rightarrow> 'b run) \<Rightarrow> 'b run" where
  "run_bind (Returns x) f = f x"
| "run_bind Panics f = Panics"

lemma run_bind_Returns: "run_bind m f = Returns y \<longleftrightarrow> (\<exists>x. m = Returns x \<and> f x = Returns y)"
  by (cases m) auto

text \<open>A loop over a list that collects what its body returns.\<close>

fun run_map :: "('a \<Rightarrow> 'b run) \<Rightarrow> 'a list \<Rightarrow> 'b list run" where
  "run_map f [] = Returns []"
| "run_map f (x # xs) = run_bind (f x) (\<lambda>y. run_bind (run_map f xs) (\<lambda>ys. Returns (y # ys)))"

text \<open>A loop over a list that updates a state.\<close>

fun run_fold :: "('a \<Rightarrow> 's \<Rightarrow> 's run) \<Rightarrow> 'a list \<Rightarrow> 's \<Rightarrow> 's run" where
  "run_fold f [] s = Returns s"
| "run_fold f (x # xs) s = run_bind (f x s) (run_fold f xs)"

lemma run_map_Returns:
  "run_map f xs = Returns ys \<longleftrightarrow> list_all2 (\<lambda>x y. f x = Returns y) xs ys"
  by (induction xs arbitrary: ys) (auto simp: run_bind_Returns list_all2_Cons1)

lemma run_map_total: "(\<And>x. x \<in> set xs \<Longrightarrow> f x = Returns (g x)) \<Longrightarrow> run_map f xs = Returns (map g xs)"
  by (induction xs) auto

lemma run_fold_append: "run_fold f (xs @ ys) s = run_bind (run_fold f xs s) (run_fold f ys)"
  by (induction xs arbitrary: s) (auto, metis run.exhaust run_bind.simps)

text \<open>An invariant of a loop that may stop early: it holds of the state whenever the loop ends.\<close>

lemma run_fold_invariant:
  assumes "run_fold f xs s = Returns s'" and "P s"
    and "\<And>x s s'. x \<in> set xs \<Longrightarrow> P s \<Longrightarrow> f x s = Returns s' \<Longrightarrow> P s'"
  shows "P s'"
  using assms by (induction xs arbitrary: s) (auto simp: run_bind_Returns)

lemma run_fold_total:
  assumes "P s" and "\<And>x s. x \<in> set xs \<Longrightarrow> P s \<Longrightarrow> \<exists>s'. f x s = Returns s' \<and> P s'"
  shows "\<exists>s'. run_fold f xs s = Returns s' \<and> P s'"
  using assms
proof (induction xs arbitrary: s)
  case (Cons x xs)
  then obtain s' where "f x s = Returns s'" "P s'" by (meson list.set_intros(1))
  moreover have "\<exists>s''. run_fold f xs s' = Returns s'' \<and> P s''"
    by (rule Cons.IH [OF \<open>P s'\<close>]) (simp add: Cons.prems)
  ultimately show ?case by simp
qed simp

end
