(* ===== verification/Snapshot.thy ===== *)
theory Snapshot
  imports Input Rust_Coll
begin

text \<open>
  \<^verbatim>\<open>gapura-core/src/snapshot.rs\<close> and \<^verbatim>\<open>status.rs\<close>: everything the translator reads, kept
  per kind in ordered maps, and the status it writes. A JSON document is a value of a type
  parameter, and serde's conversions (and the YAML reader) are parameters; the macro that inserts
  one object is written out per kind. A status message is its format string with the values put
  into it.
\<close>

section \<open>The snapshot\<close>

record snapshot =
  sn_gateway_classes :: "(string \<times> gateway_class) list"
  sn_gateways :: "(object_ref \<times> gateway) list"
  sn_http_routes :: "(object_ref \<times> http_route) list"
  sn_reference_grants :: "(object_ref \<times> reference_grant) list"
  sn_namespaces :: "(string \<times> k8s_namespace) list"
  sn_services :: "(object_ref \<times> service) list"
  sn_endpoint_slices :: "(object_ref \<times> endpoint_slice) list"
  sn_secrets :: "(object_ref \<times> secret) list"
  sn_backend_tls_policies :: "(object_ref \<times> backend_tls_policy) list"
  sn_config_maps :: "(object_ref \<times> config_map) list"

definition empty_snapshot :: snapshot where
  "empty_snapshot = \<lparr>sn_gateway_classes = [], sn_gateways = [], sn_http_routes = [],
     sn_reference_grants = [], sn_namespaces = [], sn_services = [], sn_endpoint_slices = [],
     sn_secrets = [], sn_backend_tls_policies = [], sn_config_maps = []\<rparr>"

record settings =
  st_controller_name :: string
  st_http_ports :: "u16 list"
  st_https_ports :: "u16 list"
  st_gateway_addresses :: "string list"
  st_gateway_address_overrides :: "(string \<times> string list) list"

definition default_settings :: settings where
  "default_settings = \<lparr>st_controller_name = ''gapura.dev/controller'', st_http_ports = [80],
     st_https_ports = [443], st_gateway_addresses = [], st_gateway_address_overrides = []\<rparr>"

datatype snapshot_error =
    MissingKind
  | UnsupportedKind string
  | Invalid string string
  | Yaml string
  | Document nat snapshot_error

text \<open>What serde offers: the kind of a document and its conversion into each struct.\<close>

record 'doc serde =
  doc_kind :: "'doc \<Rightarrow> string option"
  doc_is_null :: "'doc \<Rightarrow> bool"
  as_gateway_class :: "'doc \<Rightarrow> string + gateway_class"
  as_gateway :: "'doc \<Rightarrow> string + gateway"
  as_http_route :: "'doc \<Rightarrow> string + http_route"
  as_reference_grant :: "'doc \<Rightarrow> string + reference_grant"
  as_namespace :: "'doc \<Rightarrow> string + k8s_namespace"
  as_service :: "'doc \<Rightarrow> string + service"
  as_endpoint_slice :: "'doc \<Rightarrow> string + endpoint_slice"
  as_secret :: "'doc \<Rightarrow> string + secret"
  as_backend_tls_policy :: "'doc \<Rightarrow> string + backend_tls_policy"
  as_config_map :: "'doc \<Rightarrow> string + config_map"

text \<open>The macro \<open>put!\<close>: convert, and insert under the key of the object.\<close>

definition put_object ::
  "string \<Rightarrow> string + 'o \<Rightarrow> ('o \<Rightarrow> 's \<Rightarrow> 's) \<Rightarrow> 's \<Rightarrow> snapshot_error + 's" where
  "put_object kind converted store s =
     (case converted of Err e \<Rightarrow> Err (Invalid kind e) | Ok obj \<Rightarrow> Ok (store obj s))"

definition insert_json :: "'doc serde \<Rightarrow> 'doc \<Rightarrow> snapshot \<Rightarrow> snapshot_error + snapshot" where
  "insert_json S doc s =
     (case doc_kind S doc of
        None \<Rightarrow> Err MissingKind
      | Some kind \<Rightarrow>
          if kind = ''GatewayClass'' then put_object kind (as_gateway_class S doc)
            (\<lambda>v. sn_gateway_classes_update (bput (om_name (gc_metadata v)) v)) s
          else if kind = ''Gateway'' then put_object kind (as_gateway S doc)
            (\<lambda>v. sn_gateways_update (bput (ref_of (gw_metadata v)) v)) s
          else if kind = ''HTTPRoute'' then put_object kind (as_http_route S doc)
            (\<lambda>v. sn_http_routes_update (bput (ref_of (hr_metadata v)) v)) s
          else if kind = ''ReferenceGrant'' then put_object kind (as_reference_grant S doc)
            (\<lambda>v. sn_reference_grants_update (bput (ref_of (rg_metadata v)) v)) s
          else if kind = ''Namespace'' then put_object kind (as_namespace S doc)
            (\<lambda>v. sn_namespaces_update (bput (om_name (ns_metadata v)) v)) s
          else if kind = ''Service'' then put_object kind (as_service S doc)
            (\<lambda>v. sn_services_update (bput (ref_of (sv_metadata v)) v)) s
          else if kind = ''EndpointSlice'' then put_object kind (as_endpoint_slice S doc)
            (\<lambda>v. sn_endpoint_slices_update (bput (ref_of (es_metadata v)) v)) s
          else if kind = ''Secret'' then put_object kind (as_secret S doc)
            (\<lambda>v. sn_secrets_update (bput (ref_of (sc_metadata v)) v)) s
          else if kind = ''BackendTLSPolicy'' then put_object kind (as_backend_tls_policy S doc)
            (\<lambda>v. sn_backend_tls_policies_update (bput (ref_of (btp_metadata v)) v)) s
          else if kind = ''ConfigMap'' then put_object kind (as_config_map S doc)
            (\<lambda>v. sn_config_maps_update (bput (ref_of (cm_metadata v)) v)) s
          else Err (UnsupportedKind kind))"

text \<open>\<open>remove\<close>: whether something was removed, beside the new snapshot.\<close>

definition remove_object :: "string \<Rightarrow> object_ref \<Rightarrow> snapshot \<Rightarrow> snapshot \<times> bool" where
  "remove_object kind r s =
     (if kind = ''GatewayClass'' then
        (sn_gateway_classes_update (bremove (ref_name r)) s, map_of (sn_gateway_classes s) (ref_name r) \<noteq> None)
      else if kind = ''Gateway'' then
        (sn_gateways_update (bremove r) s, map_of (sn_gateways s) r \<noteq> None)
      else if kind = ''HTTPRoute'' then
        (sn_http_routes_update (bremove r) s, map_of (sn_http_routes s) r \<noteq> None)
      else if kind = ''ReferenceGrant'' then
        (sn_reference_grants_update (bremove r) s, map_of (sn_reference_grants s) r \<noteq> None)
      else if kind = ''Namespace'' then
        (sn_namespaces_update (bremove (ref_name r)) s, map_of (sn_namespaces s) (ref_name r) \<noteq> None)
      else if kind = ''Service'' then
        (sn_services_update (bremove r) s, map_of (sn_services s) r \<noteq> None)
      else if kind = ''EndpointSlice'' then
        (sn_endpoint_slices_update (bremove r) s, map_of (sn_endpoint_slices s) r \<noteq> None)
      else if kind = ''Secret'' then
        (sn_secrets_update (bremove r) s, map_of (sn_secrets s) r \<noteq> None)
      else if kind = ''BackendTLSPolicy'' then
        (sn_backend_tls_policies_update (bremove r) s, map_of (sn_backend_tls_policies s) r \<noteq> None)
      else if kind = ''ConfigMap'' then
        (sn_config_maps_update (bremove r) s, map_of (sn_config_maps s) r \<noteq> None)
      else (s, False))"

text \<open>
  \<open>from_yaml_docs\<close>, on the documents the YAML reader yields one by one (or the error that
  stops it): empty documents are skipped, the first failure is reported with its position.
\<close>

fun load_docs ::
  "'doc serde \<Rightarrow> nat \<Rightarrow> (string + 'doc) list \<Rightarrow> snapshot \<Rightarrow> snapshot_error + snapshot" where
  "load_docs S index [] s = Ok s"
| "load_docs S index (Inl e # docs) s = Err (Document index (Yaml e))"
| "load_docs S index (Inr doc # docs) s =
     (if doc_is_null S doc then load_docs S (Suc index) docs s
      else case insert_json S doc s of
             Err e \<Rightarrow> Err (Document index e)
           | Ok s' \<Rightarrow> load_docs S (Suc index) docs s')"

definition from_yaml_docs :: "'doc serde \<Rightarrow> (string + 'doc) list \<Rightarrow> snapshot_error + snapshot" where
  "from_yaml_docs S docs = load_docs S 0 docs empty_snapshot"

section \<open>Status\<close>

datatype condition_status = CTrue | CFalse | CUnknown

text \<open>A message: the format string of the source and its arguments, in order.\<close>

datatype format_arg =
    Text string
  | Quoted string
  | Num nat
  | Ports "u16 list"
  | Texts "string list"
  | UuidText "128 word"
  | RegexError regex_error

datatype message = Msg (msg_format: string) (msg_args: "format_arg list")

record condition =
  cd_type :: string
  cd_status :: condition_status
  cd_reason :: string
  cd_message :: message
  cd_observed_generation :: "int option"

definition new_condition :: "string \<Rightarrow> condition_status \<Rightarrow> string \<Rightarrow> message \<Rightarrow> int option \<Rightarrow> condition" where
  "new_condition ty status reason msg generation =
     \<lparr>cd_type = ty, cd_status = status, cd_reason = reason, cd_message = msg,
      cd_observed_generation = generation\<rparr>"

definition supported_features :: "string list" where
  "supported_features =
     [''Gateway'', ''HTTPRoute'', ''HTTPRoute303RedirectStatusCode'', ''HTTPRoute307RedirectStatusCode'',
      ''HTTPRoute308RedirectStatusCode'', ''HTTPRouteRequestMirror'', ''PathMatchRegularExpression'',
      ''ReferenceGrant'']"

record listener_status =
  lst_name :: string
  lst_supported_kinds :: "route_group_kind list"
  lst_attached_routes :: u32
  lst_conditions :: "condition list"

record route_parent_status =
  rpst_parent_ref :: parent_reference
  rpst_controller_name :: string
  rpst_conditions :: "condition list"

datatype status_patch =
    GatewayClassPatch string "string option" "condition list" "string list"
  | GatewayPatch string string "string option" "string list" "condition list" "listener_status list"
  | HttpRoutePatch string string "string option" "route_parent_status list"

section \<open>The maps stay in order\<close>

definition snapshot_ok :: "snapshot \<Rightarrow> bool" where
  "snapshot_ok s \<longleftrightarrow> ordered (sn_gateway_classes s) \<and> ordered (sn_gateways s) \<and>
     ordered (sn_http_routes s) \<and> ordered (sn_reference_grants s) \<and> ordered (sn_namespaces s) \<and>
     ordered (sn_services s) \<and> ordered (sn_endpoint_slices s) \<and> ordered (sn_secrets s) \<and>
     ordered (sn_backend_tls_policies s) \<and> ordered (sn_config_maps s)"

lemma snapshot_ok_empty [wf_intros]: "snapshot_ok empty_snapshot"
  by (simp add: snapshot_ok_def empty_snapshot_def)

lemma put_object_Ok: "put_object kind converted store s = Ok s' \<longleftrightarrow> (\<exists>v. converted = Ok v \<and> s' = store v s)"
  by (auto simp: put_object_def split: sum.splits)

lemma snapshot_ok_insert [wf_intros]: "snapshot_ok s \<Longrightarrow> insert_json S doc s = Ok s' \<Longrightarrow> snapshot_ok s'"
  by (auto simp: insert_json_def put_object_Ok snapshot_ok_def split: option.splits if_splits)

lemma snapshot_ok_remove [wf_intros]: "snapshot_ok s \<Longrightarrow> snapshot_ok (fst (remove_object kind r s))"
  by (simp add: remove_object_def snapshot_ok_def)

lemma snapshot_ok_load: "snapshot_ok s \<Longrightarrow> load_docs S index docs s = Ok s' \<Longrightarrow> snapshot_ok s'"
  by (induction S index docs s rule: load_docs.induct)
     (auto split: if_splits sum.splits intro: snapshot_ok_insert)

lemma snapshot_ok_yaml [wf_intros]: "from_yaml_docs S docs = Ok s \<Longrightarrow> snapshot_ok s"
  unfolding from_yaml_docs_def by (rule snapshot_ok_load [OF snapshot_ok_empty])

end
