(* ===== verification/Admission.thy ===== *)
theory Admission
  imports Snapshot
begin

text \<open>
  \<^verbatim>\<open>gapura-core/src/translate/grants.rs\<close>, \<^verbatim>\<open>allowed.rs\<close> and \<^verbatim>\<open>gateway_class.rs\<close>:
  who may refer to whom. A ReferenceGrant lets objects of one namespace refer to objects of
  another, a listener says which namespaces and kinds of routes it admits, and a GatewayClass is
  ours when it names our controller.
\<close>

section \<open>ReferenceGrants\<close>

definition permits ::
  "snapshot \<Rightarrow> string \<Rightarrow> string \<Rightarrow> string \<Rightarrow> string \<Rightarrow> string \<Rightarrow> string \<Rightarrow> string \<Rightarrow> bool" where
  "permits snap from_group from_kind from_namespace to_group to_kind to_namespace to_name =
     list_ex (\<lambda>g.
         list_ex (\<lambda>f. rgf_group f = from_group \<and> rgf_kind f = from_kind \<and> rgf_namespace f = from_namespace)
           (rgs_from (rg_spec g)) \<and>
         list_ex (\<lambda>t. rgt_group t = to_group \<and> rgt_kind t = to_kind \<and>
             (case rgt_name t of None \<Rightarrow> True | Some n \<Rightarrow> n = to_name))
           (rgs_to (rg_spec g)))
       (filter (\<lambda>g. om_namespace (rg_metadata g) = Some to_namespace) (map snd (sn_reference_grants snap)))"

section \<open>Allowed routes\<close>

definition requirement_matches :: "label_selector_requirement \<Rightarrow> (string \<times> string) list \<Rightarrow> bool" where
  "requirement_matches e labels =
     (if lsr_operator e = ''In'' then
        (case map_of labels (lsr_key e) of None \<Rightarrow> False | Some v \<Rightarrow> v \<in> set (lsr_values e))
      else if lsr_operator e = ''NotIn'' then
        (case map_of labels (lsr_key e) of None \<Rightarrow> True | Some v \<Rightarrow> v \<notin> set (lsr_values e))
      else if lsr_operator e = ''Exists'' then map_of labels (lsr_key e) \<noteq> None
      else if lsr_operator e = ''DoesNotExist'' then map_of labels (lsr_key e) = None
      else False)"

definition selector_matches :: "label_selector \<Rightarrow> (string \<times> string) list \<Rightarrow> bool" where
  "selector_matches sel labels =
     (if \<not> list_all (\<lambda>(k, v). map_of labels k = Some v) (ls_match_labels sel) then False
      else list_all (\<lambda>e. requirement_matches e labels) (ls_match_expressions sel))"

definition namespace_ok :: "allowed_routes option \<Rightarrow> string \<Rightarrow> object_ref \<Rightarrow> snapshot \<Rightarrow> bool" where
  "namespace_ok allowed gateway_namespace route snap =
     (let namespaces = Option.bind allowed ar_namespaces;
          from = (case Option.bind namespaces rns_from of Some f \<Rightarrow> f | None \<Rightarrow> ''Same'')
      in if from = ''All'' then True
         else if from = ''Same'' then ref_namespace route = gateway_namespace
         else if from = ''Selector'' then
           (case Option.bind namespaces rns_selector of
              None \<Rightarrow> False
            | Some selector \<Rightarrow>
                (case map_of (sn_namespaces snap) (ref_namespace route) of
                   None \<Rightarrow> False
                 | Some ns \<Rightarrow> selector_matches selector (om_labels (ns_metadata ns))))
         else False)"

definition gateway_group :: string where
  "gateway_group = ''gateway.networking.k8s.io''"

definition is_http_route :: "route_group_kind \<Rightarrow> bool" where
  "is_http_route k \<longleftrightarrow> rgk_kind k = ''HTTPRoute'' \<and>
     (case rgk_group k of None \<Rightarrow> True | Some g \<Rightarrow> g = gateway_group)"

definition kind_ok :: "allowed_routes option \<Rightarrow> bool" where
  "kind_ok allowed =
     (case map_option ar_kinds allowed of
        None \<Rightarrow> True
      | Some [] \<Rightarrow> True
      | Some kinds \<Rightarrow> list_ex is_http_route kinds)"

section \<open>GatewayClasses\<close>

text \<open>The names of the classes that are ours, and the status of each.\<close>

definition accept :: "snapshot \<Rightarrow> settings \<Rightarrow> string list \<times> status_patch list" where
  "accept snap settings =
     (let ours = filter (\<lambda>(_, gc). gcs_controller_name (gc_spec gc) = st_controller_name settings)
            (sn_gateway_classes snap)
      in (map fst ours,
          map (\<lambda>(name, gc). GatewayClassPatch name (om_uid (gc_metadata gc))
              [new_condition ''Accepted'' CTrue ''Accepted'' (Msg ''Handled by Gapura'' [])
                 (om_generation (gc_metadata gc))]
              supported_features) ours))"

section \<open>Lemmas\<close>

text \<open>A grant is read in the namespace it protects only, and only opens what it names.\<close>

lemma permits_iff:
  "permits snap fg fk fns tg tk tns tn \<longleftrightarrow>
   (\<exists>r g f t. (r, g) \<in> set (sn_reference_grants snap) \<and> om_namespace (rg_metadata g) = Some tns \<and>
      f \<in> set (rgs_from (rg_spec g)) \<and> rgf_group f = fg \<and> rgf_kind f = fk \<and> rgf_namespace f = fns \<and>
      t \<in> set (rgs_to (rg_spec g)) \<and> rgt_group t = tg \<and> rgt_kind t = tk \<and>
      (rgt_name t = None \<or> rgt_name t = Some tn))"
proof -
  have name: "(case w of None \<Rightarrow> True | Some n \<Rightarrow> n = tn) \<longleftrightarrow> w = None \<or> w = Some tn" for w
    by (cases w) auto
  show ?thesis
    unfolding permits_def list_ex_iff name set_filter set_map by (simp add: Bex_def image_iff) blast
qed

end
