(* ===== verification/Listeners.thy ===== *)
theory Listeners
  imports Admission
begin

text \<open>
  \<^verbatim>\<open>gapura-core/src/translate/listeners.rs\<close>: step 2 of the translation, the listeners of our
  Gateways: validity, certificates and conflicts. The base64 decoder is a parameter. Shows that
  two listeners of one Gateway that are both programmed never compete for a port, and that a
  programmed HTTPS listener has a certificate it was allowed to read.
\<close>

section \<open>Builds\<close>

type_synonym rejection = "string \<times> message"

record listener_build =
  lb_name :: string
  lb_port :: u16
  lb_hostname :: "string option"
  lb_protocol :: "protocol option"
  lb_allowed :: "allowed_routes option"
  lb_tls :: "tls_bundle option"
  lb_accepted :: "rejection + unit"
  lb_resolved :: "rejection + unit"
  lb_conflict :: "rejection option"
  lb_supported_kinds :: "route_group_kind list"
  lb_attached_routes :: u32
  lb_rules :: "route_rule list"
  lb_table :: "match_entry list"

record gateway_build =
  gb_ref :: object_ref
  gb_uid :: "string option"
  gb_generation :: "int option"
  gb_listeners :: "listener_build list"
  gb_rejected :: "rejection option"
  gb_requested_addresses :: "string list"

definition serves :: "listener_build \<Rightarrow> bool" where
  "serves l =
     (case lb_resolved l of
        Ok _ \<Rightarrow> True
      | Err (reason, _) \<Rightarrow>
          reason = ''InvalidRouteKinds'' \<and> lb_supported_kinds l \<noteq> [] \<and>
          (lb_protocol l \<noteq> Some Https \<or> lb_tls l \<noteq> None))"

definition programmed :: "listener_build \<Rightarrow> bool" where
  "programmed l \<longleftrightarrow> lb_accepted l = Ok () \<and> lb_conflict l = None \<and> serves l"

definition listener_conditions :: "listener_build \<Rightarrow> int option \<Rightarrow> bool \<Rightarrow> condition list" where
  "listener_conditions l generation gateway_ok =
     [case lb_accepted l of
        Ok _ \<Rightarrow> new_condition ''Accepted'' CTrue ''Accepted'' (Msg ''Listener is accepted'' []) generation
      | Err (reason, msg) \<Rightarrow> new_condition ''Accepted'' CFalse reason msg generation,
      if gateway_ok \<and> programmed l
      then new_condition ''Programmed'' CTrue ''Programmed'' (Msg ''Listener is programmed'' []) generation
      else new_condition ''Programmed'' CFalse ''Invalid'' (Msg ''Listener is not valid'' []) generation,
      case lb_resolved l of
        Ok _ \<Rightarrow> new_condition ''ResolvedRefs'' CTrue ''ResolvedRefs'' (Msg ''All references resolved'' []) generation
      | Err (reason, msg) \<Rightarrow> new_condition ''ResolvedRefs'' CFalse reason msg generation,
      case lb_conflict l of
        None \<Rightarrow> new_condition ''Conflicted'' CFalse ''NoConflicts'' (Msg ''No conflicts'' []) generation
      | Some (reason, msg) \<Rightarrow> new_condition ''Conflicted'' CTrue reason msg generation]"

text \<open>
  \<open>add_route\<close>: each rule goes to the end of the rules, and its matches, under each effective
  hostname, to the end of the table.
\<close>

definition rule_entries :: "string option list \<Rightarrow> nat \<Rightarrow> route_rule \<Rightarrow> match_entry list" where
  "rule_entries hosts idx rule =
     concat (map (\<lambda>host. map (\<lambda>m. \<lparr>me_hostname = host, me_matcher = m, me_rule = idx\<rparr>) (rr_matches rule)) hosts)"

definition add_rule :: "string option list \<Rightarrow> route_rule \<Rightarrow> listener_build \<Rightarrow> listener_build" where
  "add_rule hosts rule l =
     l\<lparr>lb_rules := lb_rules l @ [rule],
       lb_table := lb_table l @ rule_entries hosts (length (lb_rules l)) rule\<rparr>"

definition entry_hosts :: "string list \<Rightarrow> string option list" where
  "entry_hosts hostnames = (if hostnames = [] then [None] else map Some hostnames)"

definition add_route :: "route_rule list \<Rightarrow> string list \<Rightarrow> listener_build \<Rightarrow> listener_build" where
  "add_route rules hostnames l = fold (add_rule (entry_hosts hostnames)) rules l"

section \<open>Building one listener\<close>

definition invalid_certificate :: "message \<Rightarrow> rejection" where
  "invalid_certificate msg = (''InvalidCertificateRef'', msg)"

definition pem_field :: "(string \<Rightarrow> string option) \<Rightarrow> secret \<Rightarrow> string \<Rightarrow> string \<Rightarrow> rejection + string" where
  "pem_field base64 sec key marker =
     (case map_of (sc_data sec) key of
        None \<Rightarrow> Err (invalid_certificate (Msg ''Secret {} has no {key}'' [Text (om_name (sc_metadata sec)), Text key]))
      | Some raw \<Rightarrow>
          (case base64 (trim raw) of
             None \<Rightarrow> Err (invalid_certificate (Msg ''{key} is not valid base64'' [Text key]))
           | Some bytes \<Rightarrow>
               if \<not> valid_utf8 bytes then Err (invalid_certificate (Msg ''{key} is not UTF-8 PEM'' [Text key]))
               else if \<not> str_contains ''-----BEGIN'' bytes \<or> \<not> str_contains marker bytes then
                 Err (invalid_certificate (Msg ''{key} is not a PEM {marker}'' [Text key, Text marker]))
               else Ok bytes))"

definition read_tls_secret :: "(string \<Rightarrow> string option) \<Rightarrow> string \<Rightarrow> string \<Rightarrow> secret \<Rightarrow> rejection + tls_bundle" where
  "read_tls_secret base64 ns name sec =
     (if sc_type sec \<noteq> Some ''kubernetes.io/tls'' then
        Err (invalid_certificate (Msg ''Secret {ns}/{} must have type kubernetes.io/tls'' [Text ns, Text name]))
      else case pem_field base64 sec ''tls.crt'' ''CERTIFICATE'' of
             Err e \<Rightarrow> Err e
           | Ok cert_pem \<Rightarrow>
               (case pem_field base64 sec ''tls.key'' ''PRIVATE KEY'' of
                  Err e \<Rightarrow> Err e
                | Ok key_pem \<Rightarrow>
                    Ok \<lparr>tb_secret = ns @ ''/'' @ name, tb_cert_pem = cert_pem, tb_key_pem = key_pem\<rparr>))"

definition resolve_tls ::
  "(string \<Rightarrow> string option) \<Rightarrow> listener \<Rightarrow> object_ref \<Rightarrow> snapshot \<Rightarrow> rejection + tls_bundle" where
  "resolve_tls base64 l gw_ref snap =
     (case li_tls l of
        None \<Rightarrow> Err (invalid_certificate (Msg ''HTTPS listener requires tls.certificateRefs'' []))
      | Some tls \<Rightarrow>
          (case lt_certificate_refs tls of
             [] \<Rightarrow> Err (invalid_certificate (Msg ''tls.certificateRefs is empty'' []))
           | cref # _ \<Rightarrow>
               (let kind = (case sor_kind cref of Some k \<Rightarrow> k | None \<Rightarrow> ''Secret'');
                    group = (case sor_group cref of Some g \<Rightarrow> g | None \<Rightarrow> []);
                    ns = (case sor_namespace cref of Some n \<Rightarrow> n | None \<Rightarrow> ref_namespace gw_ref)
                in if kind \<noteq> ''Secret'' \<or> group \<noteq> [] then
                     Err (invalid_certificate (Msg ''certificateRef kind {group}/{kind} is not supported, only core Secret''
                       [Text group, Text kind]))
                   else if ns \<noteq> ref_namespace gw_ref \<and>
                       \<not> permits snap gateway_group ''Gateway'' (ref_namespace gw_ref) [] ''Secret'' ns (sor_name cref) then
                     Err (''RefNotPermitted'', Msg ''reference to Secret {ns}/{} is not permitted by any ReferenceGrant''
                       [Text ns, Text (sor_name cref)])
                   else case map_of (sn_secrets snap) (ObjectRef ns (sor_name cref)) of
                     None \<Rightarrow> Err (invalid_certificate (Msg ''Secret {ns}/{} not found'' [Text ns, Text (sor_name cref)]))
                   | Some sec \<Rightarrow> read_tls_secret base64 ns (sor_name cref) sec)))"

definition http_route_kind :: route_group_kind where
  "http_route_kind = \<lparr>rgk_group = Some gateway_group, rgk_kind = ''HTTPRoute''\<rparr>"

definition supported_kinds :: "allowed_routes option \<Rightarrow> route_group_kind list \<times> bool" where
  "supported_kinds allowed =
     (case map_option ar_kinds allowed of
        None \<Rightarrow> ([http_route_kind], True)
      | Some kinds \<Rightarrow>
          if kinds = [] then ([http_route_kind], True)
          else (if list_ex is_http_route kinds then [http_route_kind] else [], list_all is_http_route kinds))"

definition protocol_of :: "string \<Rightarrow> protocol option" where
  "protocol_of p = (if p = ''HTTP'' then Some Http else if p = ''HTTPS'' then Some Https else None)"

definition tls_passthrough :: "listener \<Rightarrow> bool" where
  "tls_passthrough l =
     (case Option.bind (li_tls l) lt_mode of None \<Rightarrow> False | Some m \<Rightarrow> m \<noteq> ''Terminate'')"

definition bound_ports :: "protocol option \<Rightarrow> settings \<Rightarrow> u16 list" where
  "bound_ports protocol settings =
     (case protocol of Some Https \<Rightarrow> st_https_ports settings | _ \<Rightarrow> st_http_ports settings)"

definition accept_listener :: "listener \<Rightarrow> settings \<Rightarrow> rejection + unit" where
  "accept_listener l settings =
     (let protocol = protocol_of (li_protocol l); bound = bound_ports protocol settings
      in if protocol = None then
           Err (''UnsupportedProtocol'', Msg ''protocol {} is not supported, use HTTP or HTTPS'' [Text (li_protocol l)])
         else if li_port l \<notin> set bound then
           Err (''PortUnavailable'', Msg ''port {} is not bound for {} by this deployment, bound ports: {:?}''
             [Num (unat (li_port l)), Text (li_protocol l), Ports bound])
         else if protocol = Some Https \<and> tls_passthrough l then
           Err (''UnsupportedProtocol'', Msg ''TLS passthrough is not supported in v0.1'' [])
         else Ok ())"

definition build_listener ::
  "(string \<Rightarrow> string option) \<Rightarrow> object_ref \<Rightarrow> snapshot \<Rightarrow> settings \<Rightarrow> listener \<Rightarrow> listener_build" where
  "build_listener base64 gw_ref snap settings l =
     (let protocol = protocol_of (li_protocol l);
          kinds = supported_kinds (li_allowed_routes l);
          tls = (if protocol = Some Https \<and> \<not> tls_passthrough l
                 then map_sum id Some (resolve_tls base64 l gw_ref snap) else Ok None)
      in \<lparr>lb_name = li_name l, lb_port = li_port l,
          lb_hostname = map_option to_ascii_lowercase (li_hostname l), lb_protocol = protocol,
          lb_allowed = li_allowed_routes l,
          lb_tls = (case tls of Ok bundle \<Rightarrow> bundle | Err _ \<Rightarrow> None),
          lb_accepted = accept_listener l settings,
          lb_resolved =
            (if \<not> snd kinds then
               Err (''InvalidRouteKinds'', Msg ''only HTTPRoute is supported in allowedRoutes.kinds'' [])
             else case tls of Err rejection \<Rightarrow> Err rejection | Ok _ \<Rightarrow> Ok ()),
          lb_conflict = None,
          lb_supported_kinds = (if protocol = None then [] else fst kinds),
          lb_attached_routes = 0, lb_rules = [], lb_table = []\<rparr>)"

section \<open>Conflicts\<close>

definition conflict_of :: "listener_build \<Rightarrow> listener_build \<Rightarrow> rejection option" where
  "conflict_of a b =
     (if lb_port a \<noteq> lb_port b then None
      else if lb_protocol a \<noteq> lb_protocol b then
        Some (''ProtocolConflict'', Msg ''listeners {} and {} share port {} with different protocols''
          [Text (lb_name a), Text (lb_name b), Num (unat (lb_port a))])
      else if lb_hostname a = lb_hostname b then
        Some (''HostnameConflict'', Msg ''listeners {} and {} share port {} and hostname {}''
          [Text (lb_name a), Text (lb_name b), Num (unat (lb_port a)),
           Text (case lb_hostname a of Some h \<Rightarrow> h | None \<Rightarrow> ''(none)'')])
      else None)"

definition note_conflict :: "rejection \<Rightarrow> listener_build \<Rightarrow> listener_build" where
  "note_conflict r l = l\<lparr>lb_conflict := get_or_insert r (lb_conflict l)\<rparr>"

text \<open>The body of the two nested loops, on the pair of positions \<open>i < j\<close>.\<close>

definition conflict_step :: "nat \<times> nat \<Rightarrow> listener_build list \<Rightarrow> listener_build list" where
  "conflict_step = (\<lambda>(i, j) ls.
     case conflict_of (ls ! i) (ls ! j) of
       None \<Rightarrow> ls
     | Some r \<Rightarrow> ls[i := note_conflict r (ls ! i), j := note_conflict r (ls ! j)])"

definition index_pairs :: "nat \<Rightarrow> (nat \<times> nat) list" where
  "index_pairs n = concat (map (\<lambda>i. map (Pair i) [i + 1..<n]) [0..<n])"

definition detect_conflicts :: "listener_build list \<Rightarrow> listener_build list" where
  "detect_conflicts ls = fold conflict_step (index_pairs (length ls)) ls"

section \<open>Building the Gateways\<close>

definition address_type :: "gateway_spec_address \<Rightarrow> string" where
  "address_type a = (case gsa_type a of Some t \<Rightarrow> t | None \<Rightarrow> ''IPAddress'')"

definition gateway_rejection :: "gateway \<Rightarrow> rejection option" where
  "gateway_rejection gw =
     (case Option.bind (gs_infrastructure (gw_spec gw)) gi_parameters_ref of
        Some r \<Rightarrow> Some (''InvalidParameters'', Msg ''spec.infrastructure.parametersRef {}/{} {} is not supported''
          [Text (case lor_group r of Some g \<Rightarrow> g | None \<Rightarrow> []), Text (lor_kind r), Text (lor_name r)])
      | None \<Rightarrow>
          map_option (\<lambda>t. (''UnsupportedAddress'',
              Msg ''spec.addresses type {t} is not supported, use IPAddress or Hostname'' [Text t]))
            (find (\<lambda>t. t \<notin> {''IPAddress'', ''Hostname''}) (map address_type (gs_addresses (gw_spec gw)))))"

definition build_gateway ::
  "(string \<Rightarrow> string option) \<Rightarrow> snapshot \<Rightarrow> settings \<Rightarrow> object_ref \<times> gateway \<Rightarrow> gateway_build" where
  "build_gateway base64 snap settings = (\<lambda>(r, gw).
     \<lparr>gb_ref = r, gb_uid = om_uid (gw_metadata gw), gb_generation = om_generation (gw_metadata gw),
      gb_listeners = detect_conflicts (map (build_listener base64 r snap settings) (gs_listeners (gw_spec gw))),
      gb_rejected = gateway_rejection gw,
      gb_requested_addresses = map gsa_value (gs_addresses (gw_spec gw))\<rparr>)"

definition build_gateways ::
  "(string \<Rightarrow> string option) \<Rightarrow> snapshot \<Rightarrow> settings \<Rightarrow> string list \<Rightarrow> gateway_build list" where
  "build_gateways base64 snap settings classes =
     map (build_gateway base64 snap settings)
       (filter (\<lambda>(_, gw). gs_gateway_class_name (gw_spec gw) \<in> set classes) (sn_gateways snap))"

section \<open>What a build keeps of its listener\<close>

text \<open>
  The part of a build that is settled when it is made: detecting conflicts and attaching routes
  change the other four fields only.
\<close>

definition settled :: "listener_build \<Rightarrow> listener_build" where
  "settled l = l\<lparr>lb_conflict := None, lb_attached_routes := 0, lb_rules := [], lb_table := []\<rparr>"

lemma settled_eqD:
  assumes "settled a = settled b"
  shows "lb_name a = lb_name b" "lb_port a = lb_port b" "lb_hostname a = lb_hostname b"
    "lb_protocol a = lb_protocol b" "lb_allowed a = lb_allowed b" "lb_tls a = lb_tls b"
    "lb_accepted a = lb_accepted b" "lb_resolved a = lb_resolved b"
    "lb_supported_kinds a = lb_supported_kinds b"
  using assms by (auto simp: settled_def dest: arg_cong [where f = lb_name] arg_cong [where f = lb_port]
      arg_cong [where f = lb_hostname] arg_cong [where f = lb_protocol] arg_cong [where f = lb_allowed]
      arg_cong [where f = lb_tls] arg_cong [where f = lb_accepted] arg_cong [where f = lb_resolved]
      arg_cong [where f = lb_supported_kinds])

lemma settled_updates [simp]:
  "settled (l\<lparr>lb_conflict := c\<rparr>) = settled l" "settled (l\<lparr>lb_attached_routes := n\<rparr>) = settled l"
  "settled (l\<lparr>lb_rules := rs\<rparr>) = settled l" "settled (l\<lparr>lb_table := es\<rparr>) = settled l"
  by (simp_all add: settled_def)

lemma settled_note_conflict [simp]: "settled (note_conflict r l) = settled l"
  by (simp add: note_conflict_def)

lemma settled_add_rule [simp]: "settled (add_rule hosts rule l) = settled l"
  by (simp add: add_rule_def settled_def)

lemma settled_add_route [simp]: "settled (add_route rules hosts l) = settled l"
  unfolding add_route_def by (induction rules arbitrary: l) simp_all

lemma serves_settled: "settled a = settled b \<Longrightarrow> serves a = serves b"
  using settled_eqD [of a b] by (simp add: serves_def split: sum.split)

lemma programmed_settled: "settled a = settled b \<Longrightarrow> lb_conflict a = lb_conflict b \<Longrightarrow> programmed a = programmed b"
  using settled_eqD(7) [of a b] serves_settled [of a b] by (simp add: programmed_def)

section \<open>Conflicts are exact\<close>

lemma conflict_of_sym: "conflict_of a b = None \<longleftrightarrow> conflict_of b a = None"
  by (auto simp: conflict_of_def)

lemma conflict_of_None:
  "conflict_of a b = None \<longleftrightarrow>
   (lb_port a = lb_port b \<longrightarrow> lb_protocol a = lb_protocol b \<and> lb_hostname a \<noteq> lb_hostname b)"
  by (auto simp: conflict_of_def)

lemma conflict_of_settled:
  "settled a = settled a' \<Longrightarrow> settled b = settled b' \<Longrightarrow> conflict_of a b = conflict_of a' b'"
  using settled_eqD [of a a'] settled_eqD [of b b'] by (simp add: conflict_of_def)

text \<open>Where conflicts stand after the pairs \<open>ps\<close>.\<close>

definition conflicts_noted :: "listener_build list \<Rightarrow> (nat \<times> nat) set \<Rightarrow> listener_build list \<Rightarrow> bool" where
  "conflicts_noted ls ps ls' \<longleftrightarrow> length ls' = length ls \<and>
     (\<forall>k < length ls. settled (ls' ! k) = settled (ls ! k) \<and>
        (lb_conflict (ls' ! k) = None \<longleftrightarrow> lb_conflict (ls ! k) = None \<and>
           (\<forall>(i, j) \<in> ps. k = i \<or> k = j \<longrightarrow> conflict_of (ls ! i) (ls ! j) = None)))"

lemma note_conflict_neq_None [simp]: "lb_conflict (note_conflict r l) \<noteq> None"
  by (simp add: note_conflict_def)

lemma conflict_step_noted:
  assumes "conflicts_noted ls ps ls'" and "i < j" and "j < length ls"
  shows "conflicts_noted ls (insert (i, j) ps) (conflict_step (i, j) ls')"
proof -
  have len: "length ls' = length ls" and ij: "i < length ls'" "j < length ls'" "i \<noteq> j"
    using assms by (auto simp: conflicts_noted_def)
  have same: "conflict_of (ls' ! i) (ls' ! j) = conflict_of (ls ! i) (ls ! j)"
    using assms by (intro conflict_of_settled) (auto simp: conflicts_noted_def)
  show ?thesis
  proof (cases "conflict_of (ls ! i) (ls ! j)")
    case None
    with assms(1) show ?thesis by (auto simp: conflict_step_def same conflicts_noted_def)
  next
    case (Some r)
    then have step: "conflict_step (i, j) ls' =
        ls'[i := note_conflict r (ls' ! i), j := note_conflict r (ls' ! j)]"
      by (simp add: conflict_step_def same)
    have "settled (conflict_step (i, j) ls' ! k) = settled (ls ! k) \<and>
        (lb_conflict (conflict_step (i, j) ls' ! k) = None \<longleftrightarrow> lb_conflict (ls ! k) = None \<and>
          (\<forall>(a, b) \<in> insert (i, j) ps. k = a \<or> k = b \<longrightarrow> conflict_of (ls ! a) (ls ! b) = None))"
      if "k < length ls" for k
      using that assms(1) ij Some unfolding step conflicts_noted_def
      by (cases "k = i"; cases "k = j") (auto simp: nth_list_update)
    then show ?thesis by (simp add: conflicts_noted_def step len)
  qed
qed

lemma conflict_steps_noted:
  assumes "conflicts_noted ls ps ls'" and "\<forall>(i, j) \<in> set qs. i < j \<and> j < length ls"
  shows "conflicts_noted ls (ps \<union> set qs) (fold conflict_step qs ls')"
  using assms
proof (induction qs arbitrary: ps ls')
  case (Cons q qs)
  obtain i j where q: "q = (i, j)" by (cases q)
  with Cons.prems have "conflicts_noted ls (insert (i, j) ps) (conflict_step q ls')"
    using conflict_step_noted by simp
  from Cons.IH [OF this] Cons.prems(2) q show ?case by simp
qed simp

lemma set_index_pairs: "set (index_pairs n) = {(i, j). i < j \<and> j < n}"
  by (force simp: index_pairs_def)

lemma detect_conflicts_noted: "conflicts_noted ls {(i, j). i < j \<and> j < length ls} (detect_conflicts ls)"
  using conflict_steps_noted [of ls "{}" ls "index_pairs (length ls)"]
  by (simp add: detect_conflicts_def set_index_pairs conflicts_noted_def)

lemma length_detect_conflicts [simp]: "length (detect_conflicts ls) = length ls"
  using detect_conflicts_noted [of ls] by (simp add: conflicts_noted_def)

lemma settled_detect_conflicts: "k < length ls \<Longrightarrow> settled (detect_conflicts ls ! k) = settled (ls ! k)"
  using detect_conflicts_noted [of ls] by (simp add: conflicts_noted_def)

text \<open>A listener is in conflict exactly when another one of the Gateway competes with it.\<close>

lemma detect_conflicts_iff:
  assumes "k < length ls" and "\<forall>l \<in> set ls. lb_conflict l = None"
  shows "lb_conflict (detect_conflicts ls ! k) = None \<longleftrightarrow>
    (\<forall>m < length ls. m \<noteq> k \<longrightarrow> conflict_of (ls ! k) (ls ! m) = None)"
proof -
  let ?free = "\<lambda>i j. conflict_of (ls ! i) (ls ! j) = None"
  have "lb_conflict (ls ! k) = None" using assms by simp
  then have noted: "lb_conflict (detect_conflicts ls ! k) = None \<longleftrightarrow>
      (\<forall>(i, j) \<in> {(i, j). i < j \<and> j < length ls}. k = i \<or> k = j \<longrightarrow> ?free i j)"
    using detect_conflicts_noted [of ls, unfolded conflicts_noted_def, THEN conjunct2, rule_format, OF assms(1)]
    by simp
  show ?thesis
  proof
    assume free: "lb_conflict (detect_conflicts ls ! k) = None"
    show "\<forall>m < length ls. m \<noteq> k \<longrightarrow> ?free k m"
    proof (intro allI impI)
      fix m assume m: "m < length ls" "m \<noteq> k"
      show "?free k m"
      proof (cases "m < k")
        case True
        with free noted assms(1) have "?free m k" by auto
        then show ?thesis by (simp add: conflict_of_sym [of "ls ! k"])
      next
        case False
        with m free noted show ?thesis by auto
      qed
    qed
  next
    assume r: "\<forall>m < length ls. m \<noteq> k \<longrightarrow> ?free k m"
    have "?free i j" if "i < j" "j < length ls" "k = i \<or> k = j" for i j
    proof (cases "k = i")
      case True
      with that r show ?thesis by simp
    next
      case False
      with that r have "?free j i" by simp
      then show ?thesis by (simp add: conflict_of_sym [of "ls ! i"])
    qed
    then show "lb_conflict (detect_conflicts ls ! k) = None" by (simp add: noted)
  qed
qed

section \<open>What a programmed listener offers\<close>

definition built_from ::
  "(string \<Rightarrow> string option) \<Rightarrow> object_ref \<Rightarrow> snapshot \<Rightarrow> settings \<Rightarrow> listener \<Rightarrow> listener_build \<Rightarrow> bool" where
  "built_from base64 r snap settings spec l \<longleftrightarrow> settled l = settled (build_listener base64 r snap settings spec)"

lemma build_listener_simps [simp]:
  "lb_name (build_listener base64 r snap settings l) = li_name l"
  "lb_port (build_listener base64 r snap settings l) = li_port l"
  "lb_hostname (build_listener base64 r snap settings l) = map_option to_ascii_lowercase (li_hostname l)"
  "lb_protocol (build_listener base64 r snap settings l) = protocol_of (li_protocol l)"
  "lb_allowed (build_listener base64 r snap settings l) = li_allowed_routes l"
  "lb_accepted (build_listener base64 r snap settings l) = accept_listener l settings"
  "lb_conflict (build_listener base64 r snap settings l) = None"
  "lb_rules (build_listener base64 r snap settings l) = []"
  "lb_table (build_listener base64 r snap settings l) = []"
  by (simp_all add: build_listener_def Let_def)

lemma accept_listener_Ok:
  "accept_listener l settings = Ok () \<longleftrightarrow>
   protocol_of (li_protocol l) \<noteq> None \<and> li_port l \<in> set (bound_ports (protocol_of (li_protocol l)) settings) \<and>
   \<not> (protocol_of (li_protocol l) = Some Https \<and> tls_passthrough l)"
  by (simp add: accept_listener_def Let_def)

lemma serves_tls:
  assumes "serves (build_listener base64 r snap settings l)"
    and "protocol_of (li_protocol l) = Some Https" and "\<not> tls_passthrough l"
  obtains b where "lb_tls (build_listener base64 r snap settings l) = Some b"
    and "resolve_tls base64 l r snap = Ok b"
  using assms
  by (cases "resolve_tls base64 l r snap")
    (auto simp: serves_def build_listener_def Let_def split: if_splits)

text \<open>A certificate comes from a Secret of the Gateway's namespace, or from one a grant opened.\<close>

lemma resolve_tls_Ok:
  assumes "resolve_tls base64 l r snap = Ok b"
  obtains ns name sec where "map_of (sn_secrets snap) (ObjectRef ns name) = Some sec"
    and "sc_type sec = Some ''kubernetes.io/tls''" and "tb_secret b = ns @ ''/'' @ name"
    and "ns = ref_namespace r \<or>
      permits snap gateway_group ''Gateway'' (ref_namespace r) [] ''Secret'' ns name"
  using assms
  by (auto simp: resolve_tls_def read_tls_secret_def Let_def
      split: option.splits list.splits if_splits sum.splits)

end
