(* ===== verification/Backends.thy ===== *)
theory Backends
  imports Listeners
begin

text \<open>
  \<^verbatim>\<open>gapura-core/src/translate/backends.rs\<close> and \<^verbatim>\<open>backend_tls.rs\<close>: step 3b of the
  translation, a backend reference to a cluster. Shows that a cluster holds exactly the ready
  addresses of its Service, that a reference is followed only within the route's namespace or
  through a grant, and which BackendTLSPolicy applies.
\<close>

section \<open>TLS towards a Service\<close>

definition tls_annotation :: string where
  "tls_annotation = ''gapura.dev/backend-tls''"

type_synonym policy_rank = "bool \<times> string reverse_key \<times> string reverse_key"

text \<open>
  The two loops over policies and their targets, as the list of targets that apply with the rank
  of each, in order.
\<close>

definition policy_targets ::
  "object_ref \<Rightarrow> string \<Rightarrow> object_ref \<times> backend_tls_policy \<Rightarrow> (policy_rank \<times> object_ref \<times> backend_tls_policy) list" where
  "policy_targets svc_ref wanted = (\<lambda>(pref, policy).
     if ref_namespace pref \<noteq> ref_namespace svc_ref then []
     else concat (map (\<lambda>target.
       if (case ptr_group target of Some g \<Rightarrow> g | None \<Rightarrow> []) \<noteq> [] \<or> ptr_kind target \<noteq> ''Service'' \<or>
          ptr_name target \<noteq> ref_name svc_ref then []
       else case ptr_section_name target of
         Some s \<Rightarrow> if s = wanted then [((True,
             Reverse (case om_creation_timestamp (btp_metadata policy) of Some t \<Rightarrow> t | None \<Rightarrow> []),
             Reverse (ref_name pref)), pref, policy)] else []
       | None \<Rightarrow> [((False,
             Reverse (case om_creation_timestamp (btp_metadata policy) of Some t \<Rightarrow> t | None \<Rightarrow> []),
             Reverse (ref_name pref)), pref, policy)])
       (bts_target_refs (btp_spec policy))))"

text \<open>The running best: replaced only by a rank that is strictly higher.\<close>

definition better ::
  "policy_rank \<times> 'a \<Rightarrow> (policy_rank \<times> 'a) option \<Rightarrow> (policy_rank \<times> 'a) option" where
  "better c best = (case best of
     None \<Rightarrow> Some c
   | Some b \<Rightarrow> if fst b < fst c then Some c else Some b)"

definition policy_offers ::
  "object_ref \<Rightarrow> string option \<Rightarrow> snapshot \<Rightarrow> (policy_rank \<times> object_ref \<times> backend_tls_policy) list" where
  "policy_offers svc_ref port_name snap =
     (let wanted = (case port_name of Some n \<Rightarrow> n | None \<Rightarrow> [])
      in concat (map (policy_targets svc_ref wanted) (sn_backend_tls_policies snap)))"

definition select_policy ::
  "object_ref \<Rightarrow> string option \<Rightarrow> snapshot \<Rightarrow> (object_ref \<times> backend_tls_policy) option" where
  "select_policy svc_ref port_name snap = map_option snd (fold better (policy_offers svc_ref port_name snap) None)"

text \<open>The loop over the certificate references, with the bundle built so far.\<close>

definition trim_end :: "string \<Rightarrow> string" where
  "trim_end s = rev (trim_start_rev (rev s))"

fun ca_pems :: "object_ref \<Rightarrow> snapshot \<Rightarrow> local_object_reference list \<Rightarrow> string \<Rightarrow> rejection + string" where
  "ca_pems pref snap [] pem = Ok pem"
| "ca_pems pref snap (r # rs) pem =
     (let group = (case lor_group r of Some g \<Rightarrow> g | None \<Rightarrow> []);
          cref = ObjectRef (ref_namespace pref) (lor_name r)
      in if group \<noteq> [] \<or> lor_kind r \<noteq> ''ConfigMap'' then
           Err (''InvalidKind'',
             Msg ''BackendTLSPolicy {pref}: caCertificateRefs kind {group}/{} is not supported, only core ConfigMap''
               [Text (show_ref pref), Text group, Text (lor_kind r)])
         else case map_of (sn_config_maps snap) cref of
           None \<Rightarrow> Err (''BackendNotFound'', Msg ''BackendTLSPolicy {pref}: ConfigMap {cref} not found''
             [Text (show_ref pref), Text (show_ref cref)])
         | Some cm \<Rightarrow>
             (case map_of (cm_data cm) ''ca.crt'' of
                None \<Rightarrow> Err (''UnsupportedValue'', Msg ''BackendTLSPolicy {pref}: ConfigMap {cref} has no ca.crt key''
                  [Text (show_ref pref), Text (show_ref cref)])
              | Some ca \<Rightarrow>
                  if \<not> str_contains ''-----BEGIN CERTIFICATE-----'' ca then
                    Err (''UnsupportedValue'',
                      Msg ''BackendTLSPolicy {pref}: ConfigMap {cref} ca.crt is not a PEM certificate bundle''
                        [Text (show_ref pref), Text (show_ref cref)])
                  else ca_pems pref snap rs (pem @ trim_end ca @ [CHR 0x0A])))"

definition ca_bundle :: "object_ref \<Rightarrow> backend_tls_policy \<Rightarrow> snapshot \<Rightarrow> rejection + string option" where
  "ca_bundle pref policy snap =
     (let v = bts_validation (btp_spec policy)
      in case (btv_ca_certificate_refs v = [], btv_well_known_ca_certificates v) of
           (True, Some other) \<Rightarrow>
             if other = ''System'' then Ok None
             else Err (''UnsupportedValue'',
               Msg ''BackendTLSPolicy {pref}: wellKnownCACertificates {other} is not supported, use System''
                 [Text (show_ref pref), Text other])
         | (True, None) \<Rightarrow> Err (''UnsupportedValue'',
             Msg ''BackendTLSPolicy {pref}: set caCertificateRefs or wellKnownCACertificates'' [Text (show_ref pref)])
         | (False, Some _) \<Rightarrow> Err (''UnsupportedValue'',
             Msg ''BackendTLSPolicy {pref}: caCertificateRefs and wellKnownCACertificates are mutually exclusive''
               [Text (show_ref pref)])
         | (False, None) \<Rightarrow> map_sum id Some (ca_pems pref snap (btv_ca_certificate_refs v) []))"

definition resolve_policy ::
  "object_ref \<Rightarrow> (object_ref \<times> backend_tls_policy) option \<Rightarrow> bool \<Rightarrow> snapshot \<Rightarrow> rejection + cluster_tls option" where
  "resolve_policy svc_ref selected insecure snap =
     (case selected of
        None \<Rightarrow>
          if insecure then
            Ok (Some \<lparr>ct_sni = ref_name svc_ref @ ''.'' @ ref_namespace svc_ref @ ''.svc'',
                      ct_ca_pem = None, ct_insecure = True\<rparr>)
          else Ok None
      | Some (pref, policy) \<Rightarrow>
          (let hostname = btv_hostname (bts_validation (btp_spec policy))
           in if hostname = [] then
                Err (''UnsupportedValue'', Msg ''BackendTLSPolicy {pref}: validation.hostname is required''
                  [Text (show_ref pref)])
              else case (if insecure then Ok None else ca_bundle pref policy snap) of
                Err e \<Rightarrow> Err e
              | Ok ca_pem \<Rightarrow> Ok (Some \<lparr>ct_sni = hostname, ct_ca_pem = ca_pem, ct_insecure = insecure\<rparr>)))"

definition resolve_backend_tls ::
  "object_ref \<Rightarrow> service \<Rightarrow> string option \<Rightarrow> snapshot \<Rightarrow> rejection + cluster_tls option" where
  "resolve_backend_tls svc_ref svc port_name snap =
     (case map_of (om_annotations (sv_metadata svc)) tls_annotation of
        None \<Rightarrow> resolve_policy svc_ref (select_policy svc_ref port_name snap) False snap
      | Some other \<Rightarrow>
          if other = ''insecure'' then resolve_policy svc_ref (select_policy svc_ref port_name snap) True snap
          else Err (''UnsupportedValue'',
            Msg ''Service {svc_ref}: annotation {ANNOTATION}={other} is not supported, use `insecure`''
              [Text (show_ref svc_ref), Text tls_annotation, Text other]))"

section \<open>Clusters\<close>

definition endpoint_ready :: "slice_endpoint \<Rightarrow> bool" where
  "endpoint_ready e =
     (case Option.bind (se_conditions e) sec_ready of Some ready \<Rightarrow> ready | None \<Rightarrow> True)"

definition slice_port_number :: "string \<Rightarrow> endpoint_slice \<Rightarrow> u16 option" where
  "slice_port_number wanted es =
     Option.bind (find (\<lambda>p. (case slp_name p of Some n \<Rightarrow> n | None \<Rightarrow> []) = wanted) (es_ports es)) slp_port"

definition slice_of :: "object_ref \<Rightarrow> endpoint_slice \<Rightarrow> bool" where
  "slice_of svc es \<longleftrightarrow>
     om_namespace (es_metadata es) = Some (ref_namespace svc) \<and>
     map_of (om_labels (es_metadata es)) ''kubernetes.io/service-name'' = Some (ref_name svc) \<and>
     es_address_type es \<noteq> Some ''FQDN''"

definition slice_endpoints :: "string \<Rightarrow> object_ref \<Rightarrow> endpoint_slice \<Rightarrow> endpoint list" where
  "slice_endpoints wanted svc es =
     (if \<not> slice_of svc es then []
      else case slice_port_number wanted es of
        None \<Rightarrow> []
      | Some port \<Rightarrow>
          concat (map (\<lambda>e. map (\<lambda>a. \<lparr>ep_address = a, ep_port = port\<rparr>) (se_addresses e))
            (filter endpoint_ready (es_endpoints es))))"

definition build_cluster :: "string option \<Rightarrow> object_ref \<Rightarrow> snapshot \<Rightarrow> cluster" where
  "build_cluster port_name svc snap =
     (let wanted = (case port_name of Some n \<Rightarrow> n | None \<Rightarrow> []);
          endpoints = concat (map (slice_endpoints wanted svc) (map snd (sn_endpoint_slices snap)))
      in \<lparr>cl_endpoints = remdups_adj (sort_key (\<lambda>e. (ep_address e, ep_port e)) endpoints),
          cl_tls = None, cl_resolve = None, cl_outlier = None\<rparr>)"

type_synonym clusters = "(string \<times> cluster) list"

definition backend_namespace :: "http_backend_ref \<Rightarrow> object_ref \<Rightarrow> string" where
  "backend_namespace b route = (case br_namespace b of Some n \<Rightarrow> n | None \<Rightarrow> ref_namespace route)"

definition cluster_key :: "string \<Rightarrow> string \<Rightarrow> u16 \<Rightarrow> string" where
  "cluster_key ns name port = ns @ ''/'' @ name @ '':'' @ show_nat (unat port)"

text \<open>The lookups of \<open>resolve\<close> before the cluster table is touched.\<close>

definition backend_service ::
  "http_backend_ref \<Rightarrow> object_ref \<Rightarrow> snapshot \<Rightarrow> rejection + object_ref \<times> u16 \<times> service \<times> service_port" where
  "backend_service b route snap =
     (let group = (case br_group b of Some g \<Rightarrow> g | None \<Rightarrow> []);
          kind = (case br_kind b of Some k \<Rightarrow> k | None \<Rightarrow> ''Service'');
          ns = backend_namespace b route
      in if group \<noteq> [] \<or> kind \<noteq> ''Service'' then
           Err (''InvalidKind'', Msg ''backendRef kind {group}/{kind} is not supported, only core Service''
             [Text group, Text kind])
         else if ns \<noteq> ref_namespace route \<and>
             \<not> permits snap gateway_group ''HTTPRoute'' (ref_namespace route) [] ''Service'' ns (br_name b) then
           Err (''RefNotPermitted'', Msg ''reference to Service {ns}/{} is not permitted by any ReferenceGrant''
             [Text ns, Text (br_name b)])
         else case br_port b of
           None \<Rightarrow> Err (''UnsupportedValue'', Msg ''backendRef to Service {ns}/{} has no port''
             [Text ns, Text (br_name b)])
         | Some port \<Rightarrow>
             (case map_of (sn_services snap) (ObjectRef ns (br_name b)) of
                None \<Rightarrow> Err (''BackendNotFound'', Msg ''Service {ns}/{} not found'' [Text ns, Text (br_name b)])
              | Some svc \<Rightarrow>
                  (case find (\<lambda>p. svp_port p = port) (svs_ports (sv_spec svc)) of
                     None \<Rightarrow> Err (''BackendNotFound'', Msg ''Service {ns}/{} has no port {port}''
                       [Text ns, Text (br_name b), Num (unat port)])
                   | Some svc_port \<Rightarrow> Ok (ObjectRef ns (br_name b), port, svc, svc_port))))"

definition resolve_backend ::
  "http_backend_ref \<Rightarrow> object_ref \<Rightarrow> snapshot \<Rightarrow> clusters \<Rightarrow> (rejection + string) \<times> clusters" where
  "resolve_backend b route snap clusters =
     (case backend_service b route snap of
        Err e \<Rightarrow> (Err e, clusters)
      | Ok (sref, port, svc, svc_port) \<Rightarrow>
          (let key = cluster_key (ref_namespace sref) (ref_name sref) port
           in if map_of clusters key \<noteq> None then (Ok key, clusters)
              else case resolve_backend_tls sref svc (svp_name svc_port) snap of
                Err e \<Rightarrow> (Err e, clusters)
              | Ok tls \<Rightarrow>
                  (Ok key, bput key ((build_cluster (svp_name svc_port) sref snap)\<lparr>cl_tls := tls\<rparr>) clusters)))"

section \<open>The applied policy\<close>

lemma fold_better:
  assumes "fold better cs best = Some c"
  shows "c \<in> set cs \<union> set_option best \<and> (\<forall>d \<in> set cs \<union> set_option best. fst d \<le> fst c)"
  using assms
proof (induction cs arbitrary: best)
  case (Cons a cs)
  from Cons.prems have "fold better cs (better a best) = Some c" by simp
  from Cons.IH [OF this] show ?case
    by (cases best) (auto simp: better_def split: if_splits)
qed auto

lemma better_Some: "\<exists>c. better a best = Some c"
  by (cases best) (auto simp: better_def simp del: split_paired_Ex)

lemma fold_better_None: "fold better cs best = None \<longleftrightarrow> cs = [] \<and> best = None"
proof (induction cs arbitrary: best)
  case (Cons a cs)
  obtain c where "better a best = Some c" using better_Some by blast
  then show ?case by (simp add: Cons.IH)
qed simp

section \<open>The addresses of a cluster\<close>

text \<open>Sorting by a key that tells elements apart and dropping repeats keeps each element once.\<close>

lemma sorted_key_dedup:
  assumes "sorted (map f xs)" and "inj f"
  shows "sorted (map f (remdups_adj xs)) \<and> distinct (remdups_adj xs)"
  using assms(1)
proof (induction xs rule: remdups_adj.induct)
  case (3 x y xs)
  show ?case
  proof (cases "x = y")
    case True
    with 3 show ?thesis by simp
  next
    case False
    with 3 have IH: "sorted (map f (remdups_adj (y # xs))) \<and> distinct (remdups_adj (y # xs))" by simp
    have le: "\<forall>z \<in> set (y # xs). f x \<le> f z" using "3.prems" by simp
    moreover have "f x \<noteq> f y" using False assms(2) by (simp add: inj_eq)
    ultimately have "\<forall>z \<in> set (y # xs). f x < f z"
      using "3.prems" by (auto simp: less_le)
    then have "x \<notin> set (y # xs)" by blast
    with False IH le show ?thesis by simp
  qed
qed auto

lemma endpoint_key_inj: "inj (\<lambda>e. (ep_address e, ep_port (e :: endpoint)))"
  by (intro injI) (simp add: endpoint.equality)

lemma set_slice_endpoints:
  "e \<in> set (slice_endpoints wanted svc es) \<longleftrightarrow> slice_of svc es \<and>
     slice_port_number wanted es = Some (ep_port e) \<and>
     (\<exists>se \<in> set (es_endpoints es). endpoint_ready se \<and> ep_address e \<in> set (se_addresses se))"
  for e :: endpoint
proof -
  have eq: "e = \<lparr>ep_address = a, ep_port = port\<rparr> \<longleftrightarrow> a = ep_address e \<and> port = ep_port e" for a port
    by (metis endpoint.select_convs endpoint.surjective old.unit.exhaust)
  show ?thesis
    by (auto simp: slice_endpoints_def image_iff eq split: option.splits)
qed

text \<open>
  The endpoints of a cluster are exactly the ready addresses of the Service's slices, each
  with the port the slice gives to the Service port's name; they are sorted and listed once, so
  two translations of the same slices in any order give the same cluster.
\<close>

theorem cluster_endpoints_exact:
  "set (cl_endpoints (build_cluster port_name svc snap)) =
     {\<lparr>ep_address = a, ep_port = port\<rparr> |a port r es se.
        (r, es) \<in> set (sn_endpoint_slices snap) \<and> slice_of svc es \<and>
        slice_port_number (case port_name of Some n \<Rightarrow> n | None \<Rightarrow> []) es = Some port \<and>
        se \<in> set (es_endpoints es) \<and> endpoint_ready se \<and> a \<in> set (se_addresses se)} \<and>
   sorted (map (\<lambda>e. (ep_address e, ep_port e)) (cl_endpoints (build_cluster port_name svc snap))) \<and>
   distinct (cl_endpoints (build_cluster port_name svc snap))"
proof (intro conjI)
  show "set (cl_endpoints (build_cluster port_name svc snap)) =
     {\<lparr>ep_address = a, ep_port = port\<rparr> |a port r es se.
        (r, es) \<in> set (sn_endpoint_slices snap) \<and> slice_of svc es \<and>
        slice_port_number (case port_name of Some n \<Rightarrow> n | None \<Rightarrow> []) es = Some port \<and>
        se \<in> set (es_endpoints es) \<and> endpoint_ready se \<and> a \<in> set (se_addresses se)}" (is "?l = ?r")
  proof (intro set_eqI iffI)
    fix e :: endpoint
    assume "e \<in> ?l"
    then obtain r es where "(r, es) \<in> set (sn_endpoint_slices snap)"
      and "e \<in> set (slice_endpoints (case port_name of Some n \<Rightarrow> n | None \<Rightarrow> []) svc es)"
      by (auto simp: build_cluster_def Let_def)
    moreover have "e = \<lparr>ep_address = ep_address e, ep_port = ep_port e\<rparr>" by simp
    ultimately show "e \<in> ?r" unfolding set_slice_endpoints by blast
  next
    fix e :: endpoint
    assume "e \<in> ?r"
    then obtain r es where "(r, es) \<in> set (sn_endpoint_slices snap)"
      and "e \<in> set (slice_endpoints (case port_name of Some n \<Rightarrow> n | None \<Rightarrow> []) svc es)"
      unfolding set_slice_endpoints by fastforce
    then show "e \<in> ?l" by (force simp: build_cluster_def Let_def)
  qed
  let ?key = "\<lambda>e. (ep_address e, ep_port (e :: endpoint))"
  have "sorted (map ?key (sort_key ?key es))" for es by simp
  from sorted_key_dedup [OF this endpoint_key_inj]
  show "sorted (map ?key (cl_endpoints (build_cluster port_name svc snap)))"
    and "distinct (cl_endpoints (build_cluster port_name svc snap))"
    by (auto simp: build_cluster_def Let_def)
qed

text \<open>
  Of the BackendTLSPolicies of a Service's namespace that name the Service, without a section
  or with the port's, the one applied has the highest rank: a section match first, then the
  earliest creation time, then the smallest name. None is applied only when none names it.
\<close>

theorem select_policy_highest:
  "case select_policy svc port_name snap of
     None \<Rightarrow> policy_offers svc port_name snap = []
   | Some (pref, policy) \<Rightarrow> (pref, policy) \<in> set (sn_backend_tls_policies snap) \<and>
       ref_namespace pref = ref_namespace svc \<and>
       (\<exists>rank. (rank, pref, policy) \<in> set (policy_offers svc port_name snap) \<and>
          (\<forall>(other, _) \<in> set (policy_offers svc port_name snap). other \<le> rank))"
proof (cases "fold better (policy_offers svc port_name snap) None")
  case None
  then have "policy_offers svc port_name snap = []" by (simp add: fold_better_None)
  with None show ?thesis by (simp add: select_policy_def)
next
  case (Some c)
  obtain rank pref policy where c: "c = (rank, pref, policy)" by (rule prod_cases3)
  have best: "c \<in> set (policy_offers svc port_name snap)"
    "\<forall>d \<in> set (policy_offers svc port_name snap). fst d \<le> rank"
    using fold_better [OF Some] by (simp_all add: c)
  have "(pref, policy) \<in> set (sn_backend_tls_policies snap) \<and> ref_namespace pref = ref_namespace svc"
    using best(1) by (auto simp: policy_offers_def Let_def c policy_targets_def split: if_splits option.splits)
  moreover have "select_policy svc port_name snap = Some (pref, policy)"
    using Some by (simp add: select_policy_def c)
  moreover have "\<forall>(other, _) \<in> set (policy_offers svc port_name snap). other \<le> rank"
    using best(2) by (simp add: case_prod_beta)
  ultimately show ?thesis using best(1) c by (simp del: split_paired_Ex) blast
qed

end
