(* ===== verification/Rules.thy ===== *)
theory Rules
  imports Backends Path Duration
begin

text \<open>
  \<^verbatim>\<open>gapura-core/src/translate/rules.rs\<close>: step 3a of the translation, the rules of an
  HTTPRoute to the rules of the configuration. Any unsupported value refuses the whole route. The
  clusters are a state that every reference may extend, also when the route is refused later on;
  a call that may panic (the path normaliser) is a \<open>run\<close>. The regex crate is the parameter
  \<open>build\<close> of the matcher.
\<close>

section \<open>Matches\<close>

datatype unsupported = Unsupported message

record compiled =
  co_rules :: "route_rule list"
  co_resolved_refs :: condition

definition not_admitted :: "int option \<Rightarrow> compiled" where
  "not_admitted generation =
     \<lparr>co_rules = [],
      co_resolved_refs = new_condition ''ResolvedRefs'' CTrue ''ResolvedRefs''
        (Msg ''All references resolved'' []) generation\<rparr>"

text \<open>The verdict on a path pattern.\<close>

definition path_regex_verdict :: "'re builder \<Rightarrow> string \<Rightarrow> regex_error + unit" where
  "path_regex_verdict build pattern = map_sum id (\<lambda>_. ()) (compile_path_regex build pattern)"

definition normalized_path :: "string \<Rightarrow> string \<Rightarrow> (unsupported + string) run" where
  "normalized_path kind v =
     (if CHR '';'' \<in> set v then
        Returns (Err (Unsupported (Msg
          ''path match {kind} value {value:?} contains ;, which servlet backends read as path parameters, so it cannot be matched safely''
          [Text kind, Quoted v])))
      else case normalize_path v of
        Panics \<Rightarrow> Panics
      | Returns (Err why) \<Rightarrow> Returns (Err (Unsupported (Msg
          ''path match {kind} {value:?} can never match: the gateway refuses such a request path ({why})''
          [Text kind, Quoted v, Text why])))
      | Returns (Ok p) \<Rightarrow> Returns (Ok p))"

text \<open>\<open>/foo/\<close> becomes \<open>/foo\<close>, \<open>/\<close> stays.\<close>

function pop_slashes :: "string \<Rightarrow> string" where
  "pop_slashes p =
     (if 1 < length p \<and> last p = CHR ''/'' then pop_slashes (butlast p) else p)"
  by auto
termination by (relation "measure length") auto

declare pop_slashes.simps [simp del]

definition normalize_prefix :: "string \<Rightarrow> string" where
  "normalize_prefix p = (let q = pop_slashes p in if q = [] then ''/'' else q)"

definition compile_path :: "'re builder \<Rightarrow> http_path_match option \<Rightarrow> (unsupported + path_match) run" where
  "compile_path build p =
     (case p of
        None \<Rightarrow> Returns (Ok (Prefix ''/''))
      | Some pm \<Rightarrow>
          (let v = (case hpm_value pm of Some x \<Rightarrow> x | None \<Rightarrow> ''/'');
               kind = (case hpm_type pm of Some t \<Rightarrow> t | None \<Rightarrow> ''PathPrefix'')
           in if kind = ''Exact'' then
                run_bind (normalized_path ''Exact'' v) (\<lambda>r. Returns (map_sum id Exact r))
              else if kind = ''PathPrefix'' then
                run_bind (normalized_path ''PathPrefix'' v) (\<lambda>r. Returns (map_sum id (\<lambda>q. Prefix (normalize_prefix q)) r))
              else if kind = ''RegularExpression'' then
                (case path_regex_verdict build v of
                   Err e \<Rightarrow> Returns (Err (Unsupported (Msg
                     ''path match RegularExpression {value:?} does not compile: {e}'' [Quoted v, RegexError e])))
                 | Ok _ \<Rightarrow> Returns (Ok (Regex v)))
              else Returns (Err (Unsupported (Msg ''path match type {other} is not supported'' [Text kind])))))"

text \<open>The loop over the header matches, with the names seen so far: a later entry of the same name is skipped.\<close>

fun compile_headers :: "string list \<Rightarrow> http_header_match list \<Rightarrow> unsupported + kv_match list" where
  "compile_headers seen [] = Ok []"
| "compile_headers seen (h # hs) =
     (let name = to_ascii_lowercase (hhm_name h)
      in if name \<in> set seen then compile_headers seen hs
         else if (case hhm_type h of Some t \<Rightarrow> t | None \<Rightarrow> ''Exact'') \<noteq> ''Exact'' then
           Err (Unsupported (Msg ''header match type RegularExpression is not supported'' []))
         else map_sum id (\<lambda>ms. \<lparr>kv_name = name, kv_value = hhm_value h\<rparr> # ms) (compile_headers (name # seen) hs))"

fun compile_query :: "http_query_param_match list \<Rightarrow> unsupported + kv_match list" where
  "compile_query [] = Ok []"
| "compile_query (q # qs) =
     (if (case hqm_type q of Some t \<Rightarrow> t | None \<Rightarrow> ''Exact'') \<noteq> ''Exact'' then
        Err (Unsupported (Msg ''query param match type RegularExpression is not supported'' []))
      else map_sum id (\<lambda>ms. \<lparr>kv_name = hqm_name q, kv_value = hqm_value q\<rparr> # ms) (compile_query qs))"

definition compile_match :: "'re builder \<Rightarrow> http_route_match \<Rightarrow> (unsupported + route_match) run" where
  "compile_match build m =
     run_bind (compile_path build (hrm_path m)) (\<lambda>path. Returns
       (case path of
          Err e \<Rightarrow> Err e
        | Ok p \<Rightarrow>
            (case compile_headers [] (hrm_headers m) of
               Err e \<Rightarrow> Err e
             | Ok headers \<Rightarrow>
                 (case compile_query (hrm_query_params m) of
                    Err e \<Rightarrow> Err e
                  | Ok query \<Rightarrow>
                      Ok \<lparr>rm_path = p, rm_headers = headers, rm_query = query,
                          rm_method = map_option to_ascii_uppercase (hrm_method m)\<rparr>))))"

text \<open>Collecting into a \<open>Result\<close>: the first error ends it.\<close>

fun compile_matches :: "'re builder \<Rightarrow> http_route_match list \<Rightarrow> (unsupported + route_match list) run" where
  "compile_matches build [] = Returns (Ok [])"
| "compile_matches build (m # ms) =
     run_bind (compile_match build m) (\<lambda>r. case r of
        Err e \<Rightarrow> Returns (Err e)
      | Ok rm \<Rightarrow> run_bind (compile_matches build ms) (\<lambda>rs. Returns (map_sum id ((#) rm) rs)))"

section \<open>Filters\<close>

definition compile_header_ops :: "header_modifier option \<Rightarrow> header_ops" where
  "compile_header_ops m =
     (case m of
        None \<Rightarrow> \<lparr>ho_set = [], ho_add = [], ho_remove = []\<rparr>
      | Some m \<Rightarrow> \<lparr>ho_set = map (\<lambda>h. (hh_name h, hh_value h)) (hm_set m),
                   ho_add = map (\<lambda>h. (hh_name h, hh_value h)) (hm_add m), ho_remove = hm_remove m\<rparr>)"

definition compile_path_rewrite :: "path_modifier option \<Rightarrow> unsupported + path_rewrite option" where
  "compile_path_rewrite p =
     (case p of
        None \<Rightarrow> Ok None
      | Some p \<Rightarrow>
          if pm_type p = ''ReplaceFullPath'' then
            Ok (Some (ReplaceFullPath (case pm_replace_full_path p of Some x \<Rightarrow> x | None \<Rightarrow> ''/'')))
          else if pm_type p = ''ReplacePrefixMatch'' then
            Ok (Some (ReplacePrefixMatch (case pm_replace_prefix_match p of Some x \<Rightarrow> x | None \<Rightarrow> ''/'')))
          else Err (Unsupported (Msg ''path modifier type {other} is not supported'' [Text (pm_type p)])))"

definition compile_redirect :: "request_redirect option \<Rightarrow> unsupported + redirect" where
  "compile_redirect r =
     (case r of
        None \<Rightarrow> Err (Unsupported (Msg ''RequestRedirect filter without requestRedirect body'' []))
      | Some r \<Rightarrow>
          (let status = (case rqr_status_code r of Some c \<Rightarrow> c | None \<Rightarrow> 302)
           in if status \<notin> {301, 302, 303, 307, 308} then
                Err (Unsupported (Msg
                  ''redirect statusCode {status} is not supported, use one of 301, 302, 303, 307, 308''
                  [Num (unat status)]))
              else map_sum id (\<lambda>path. \<lparr>rd_scheme = rqr_scheme r, rd_hostname = rqr_hostname r,
                     rd_port = rqr_port r, rd_status = status, rd_path = path\<rparr>)
                   (compile_path_rewrite (rqr_path r))))"

definition compile_rewrite :: "url_rewrite option \<Rightarrow> unsupported + rewrite" where
  "compile_rewrite r =
     (case r of
        None \<Rightarrow> Err (Unsupported (Msg ''URLRewrite filter without urlRewrite body'' []))
      | Some r \<Rightarrow> map_sum id (\<lambda>path. \<lparr>rw_hostname = ur_hostname r, rw_path = path\<rparr>)
          (compile_path_rewrite (ur_path r)))"

definition whole :: "fraction \<Rightarrow> bool" where
  "whole f = (let d = (case fr_denominator f of Some d \<Rightarrow> d | None \<Rightarrow> 100) in 0 < d \<and> fr_numerator f = d)"

definition compile_mirror :: "request_mirror_filter option \<Rightarrow> string option \<Rightarrow> unsupported + mirror option" where
  "compile_mirror m mirror_cluster =
     (case m of
        None \<Rightarrow> Err (Unsupported (Msg ''RequestMirror filter without requestMirror body'' []))
      | Some m \<Rightarrow>
          if (case br_weight (mf_backend_ref m) of None \<Rightarrow> False | Some w \<Rightarrow> w \<noteq> 1) then
            Err (Unsupported (Msg ''RequestMirror backendRef weight is not supported: every request is mirrored'' []))
          else if (case mf_percent m of None \<Rightarrow> False | Some p \<Rightarrow> p \<noteq> 100) \<or>
              (case mf_fraction m of None \<Rightarrow> False | Some f \<Rightarrow> \<not> whole f) then
            Err (Unsupported (Msg
              ''RequestMirror percent and fraction are not supported: every request is mirrored, so only 100% (or leaving both out) is accepted'' []))
          else Ok (map_option (\<lambda>c. \<lparr>mi_cluster = c\<rparr>) mirror_cluster))"

definition default_filters :: filters where
  "default_filters =
     \<lparr>request_headers = \<lparr>ho_set = [], ho_add = [], ho_remove = []\<rparr>,
      response_headers = \<lparr>ho_set = [], ho_add = [], ho_remove = []\<rparr>,
      f_redirect = None, f_rewrite = None, f_mirror = None\<rparr>"

definition compile_filter :: "string option \<Rightarrow> http_route_filter \<Rightarrow> filters \<Rightarrow> unsupported + filters" where
  "compile_filter mirror_cluster f out =
     (if rf_type f = ''RequestHeaderModifier'' then
        Ok (out\<lparr>request_headers := compile_header_ops (rf_request_header_modifier f)\<rparr>)
      else if rf_type f = ''ResponseHeaderModifier'' then
        Ok (out\<lparr>response_headers := compile_header_ops (rf_response_header_modifier f)\<rparr>)
      else if rf_type f = ''RequestRedirect'' then
        map_sum id (\<lambda>r. out\<lparr>f_redirect := Some r\<rparr>) (compile_redirect (rf_request_redirect f))
      else if rf_type f = ''URLRewrite'' then
        map_sum id (\<lambda>r. out\<lparr>f_rewrite := Some r\<rparr>) (compile_rewrite (rf_url_rewrite f))
      else if rf_type f = ''RequestMirror'' then
        map_sum id (\<lambda>m. out\<lparr>f_mirror := m\<rparr>) (compile_mirror (rf_request_mirror f) mirror_cluster)
      else Err (Unsupported (Msg ''filter type {other} is not supported'' [Text (rf_type f)])))"

fun filter_loop :: "string option \<Rightarrow> string list \<Rightarrow> http_route_filter list \<Rightarrow> filters \<Rightarrow> unsupported + filters" where
  "filter_loop mirror_cluster seen [] out = Ok out"
| "filter_loop mirror_cluster seen (f # fs) out =
     (if rf_type f \<in> set seen then
        Err (Unsupported (Msg ''filter {} may only appear once per rule'' [Text (rf_type f)]))
      else case compile_filter mirror_cluster f out of
        Err e \<Rightarrow> Err e
      | Ok out' \<Rightarrow> filter_loop mirror_cluster (rf_type f # seen) fs out')"

fun is_prefix_rewrite :: "path_rewrite \<Rightarrow> bool" where
  "is_prefix_rewrite (ReplacePrefixMatch _) = True"
| "is_prefix_rewrite (ReplaceFullPath _) = False"

definition prefix_rewrites :: "filters \<Rightarrow> path_rewrite list" where
  "prefix_rewrites out = filter is_prefix_rewrite
     (List.map_filter id [Option.bind (f_rewrite out) rw_path, Option.bind (f_redirect out) rd_path])"

definition compile_filters ::
  "http_route_filter list \<Rightarrow> bool \<Rightarrow> string option \<Rightarrow> unsupported + filters" where
  "compile_filters fs prefix_only mirror_cluster =
     (case filter_loop mirror_cluster [] fs default_filters of
        Err e \<Rightarrow> Err e
      | Ok out \<Rightarrow>
          if f_redirect out \<noteq> None \<and> f_rewrite out \<noteq> None then
            Err (Unsupported (Msg ''RequestRedirect and URLRewrite cannot be combined in one rule'' []))
          else if \<not> prefix_only \<and> prefix_rewrites out \<noteq> [] then
            Err (Unsupported (Msg
              ''ReplacePrefixMatch needs every match of the rule to be a PathPrefix match: with an Exact or RegularExpression path the prefix to replace is undefined'' []))
          else Ok out)"

section \<open>Limits and timeouts\<close>

definition parse_rate_limit :: "string \<Rightarrow> rate_limit option" where
  "parse_rate_limit v =
     (case split_once CHR ''/'' v of
        None \<Rightarrow> None
      | Some (amount, unit) \<Rightarrow>
          (case parse_uint (trim amount) :: u32 option of
             None \<Rightarrow> None
           | Some limit \<Rightarrow>
               if limit = 0 then None
               else if trim unit = ''s'' then Some \<lparr>rl_limit = limit, rl_window_ms = 1000, rl_by = ByIp\<rparr>
               else if trim unit = ''min'' then Some \<lparr>rl_limit = limit, rl_window_ms = 60000, rl_by = ByIp\<rparr>
               else if trim unit = ''h'' then Some \<lparr>rl_limit = limit, rl_window_ms = 3600000, rl_by = ByIp\<rparr>
               else None))"

definition rate_limit_annotation :: string where
  "rate_limit_annotation = ''gapura.dev/rate-limit''"

definition rate_limit_by_annotation :: string where
  "rate_limit_by_annotation = ''gapura.dev/rate-limit-by''"

fun rate_limit_of :: "snapshot \<Rightarrow> string \<Rightarrow> http_backend_ref list \<Rightarrow> rate_limit option" where
  "rate_limit_of snap route_ns [] = None"
| "rate_limit_of snap route_ns (b # bs) =
     (let ns = (case br_namespace b of Some n \<Rightarrow> n | None \<Rightarrow> route_ns)
      in case map_of (sn_services snap) (ObjectRef ns (br_name b)) of
           None \<Rightarrow> rate_limit_of snap route_ns bs
         | Some svc \<Rightarrow>
             (case map_of (om_annotations (sv_metadata svc)) rate_limit_annotation of
                None \<Rightarrow> rate_limit_of snap route_ns bs
              | Some v \<Rightarrow>
                  (case map_of (om_annotations (sv_metadata svc)) rate_limit_by_annotation of
                     None \<Rightarrow> parse_rate_limit v
                   | Some by_key \<Rightarrow> if by_key \<noteq> ''ip'' then None else parse_rate_limit v)))"

definition parse_timeout :: "string option \<Rightarrow> unsupported + u64 option" where
  "parse_timeout v =
     (case v of
        None \<Rightarrow> Ok None
      | Some s \<Rightarrow>
          (case parse_millis s of
             None \<Rightarrow> Err (Unsupported (Msg ''invalid timeout {s:?}'' [Quoted s]))
           | Some ms \<Rightarrow> Ok (Some ms)))"

definition compile_timeouts :: "http_route_timeouts option \<Rightarrow> unsupported + timeouts" where
  "compile_timeouts ts =
     (case parse_timeout (Option.bind ts hrt_request) of
        Err e \<Rightarrow> Err e
      | Ok request \<Rightarrow>
          (case parse_timeout (Option.bind ts hrt_backend_request) of
             Err e \<Rightarrow> Err e
           | Ok backend \<Rightarrow> Ok \<lparr>request_ms = request, backend_request_ms = backend, connect_ms = None\<rparr>))"

section \<open>Rules and routes\<close>

definition raw_matches :: "http_route_rule \<Rightarrow> http_route_match list" where
  "raw_matches r = (if hrr_matches r = [] then [default_route_match] else hrr_matches r)"

fun is_prefix_path :: "path_match \<Rightarrow> bool" where
  "is_prefix_path (Prefix _) = True"
| "is_prefix_path _ = False"

definition mirror_ref :: "http_route_rule \<Rightarrow> http_backend_ref option" where
  "mirror_ref r =
     map_option mf_backend_ref
       (Option.bind (find (\<lambda>f. rf_type f = ''RequestMirror'') (hrr_filters r)) rf_request_mirror)"

text \<open>What a reference leaves behind: the first rejection of the route, and the clusters.\<close>

type_synonym refs_state = "rejection option \<times> clusters"

definition resolve_ref ::
  "snapshot \<Rightarrow> object_ref \<Rightarrow> http_backend_ref \<Rightarrow> refs_state \<Rightarrow> string option \<times> refs_state" where
  "resolve_ref snap rref b = (\<lambda>(first_error, clusters).
     case resolve_backend b rref snap clusters of
       (Ok key, clusters') \<Rightarrow> (Some key, first_error, clusters')
     | (Err rejection, clusters') \<Rightarrow> (None, get_or_insert rejection first_error, clusters'))"

definition resolve_mirror ::
  "snapshot \<Rightarrow> object_ref \<Rightarrow> http_backend_ref option \<Rightarrow> refs_state \<Rightarrow> string option \<times> refs_state" where
  "resolve_mirror snap rref b st = (case b of None \<Rightarrow> (None, st) | Some b \<Rightarrow> resolve_ref snap rref b st)"

definition weight_of :: "http_backend_ref \<Rightarrow> u32" where
  "weight_of b = word_of_int (max (case br_weight b of Some w \<Rightarrow> w | None \<Rightarrow> 1) 0)"

fun compile_backends ::
  "snapshot \<Rightarrow> object_ref \<Rightarrow> http_backend_ref list \<Rightarrow> weighted_backend list \<Rightarrow> refs_state
     \<Rightarrow> (unsupported + weighted_backend list) \<times> refs_state" where
  "compile_backends snap rref [] out st = (Ok out, st)"
| "compile_backends snap rref (b # bs) out st =
     (if br_filters b \<noteq> [] then
        (Err (Unsupported (Msg
          ''backendRefs[].filters are not supported (backend {} has {}); move the filters to the rule's filters''
          [Text (br_name b), Text (join '', '' (map rf_type (br_filters b)))])), st)
      else case resolve_ref snap rref b st of
        (cluster, st') \<Rightarrow>
          compile_backends snap rref bs (out @ [\<lparr>wb_cluster = cluster, wb_weight = weight_of b\<rparr>]) st')"

definition compile_rule ::
  "'re builder \<Rightarrow> snapshot \<Rightarrow> object_ref \<Rightarrow> http_route \<Rightarrow> nat \<Rightarrow> http_route_rule \<Rightarrow> refs_state
     \<Rightarrow> ((unsupported + route_rule) \<times> refs_state) run" where
  "compile_rule build snap rref route index r st =
     run_bind (compile_matches build (raw_matches r)) (\<lambda>ms. Returns
       (case ms of
          Err e \<Rightarrow> (Err e, st)
        | Ok matches \<Rightarrow>
            (case resolve_mirror snap rref (mirror_ref r) st of (mirror_cluster, st1) \<Rightarrow>
             case compile_filters (hrr_filters r) (list_all (\<lambda>m. is_prefix_path (rm_path m)) matches) mirror_cluster of
               Err e \<Rightarrow> (Err e, st1)
             | Ok fs \<Rightarrow>
                 (case compile_backends snap rref (hrr_backend_refs r) [] st1 of
                    (Err e, st2) \<Rightarrow> (Err e, st2)
                  | (Ok backends, st2) \<Rightarrow>
                      (case compile_timeouts (hrr_timeouts r) of
                         Err e \<Rightarrow> (Err e, st2)
                       | Ok ts \<Rightarrow>
                           (Ok \<lparr>rr_route = show_ref rref, rr_rule_index = index,
                                rr_creation_timestamp =
                                  (case om_creation_timestamp (hr_metadata route) of Some t \<Rightarrow> t | None \<Rightarrow> []),
                                rr_matches = matches, rr_filters = fs, rr_backends = backends,
                                rr_timeouts = ts,
                                rr_rate_limit = rate_limit_of snap (ref_namespace rref) (hrr_backend_refs r),
                                rr_plugins = []\<rparr>, st2))))))"

fun compile_rules ::
  "'re builder \<Rightarrow> snapshot \<Rightarrow> object_ref \<Rightarrow> http_route \<Rightarrow> nat \<Rightarrow> http_route_rule list \<Rightarrow> route_rule list
     \<Rightarrow> refs_state \<Rightarrow> ((unsupported + route_rule list) \<times> refs_state) run" where
  "compile_rules build snap rref route index [] out st = Returns (Ok out, st)"
| "compile_rules build snap rref route index (r # rs) out st =
     run_bind (compile_rule build snap rref route index r st) (\<lambda>(res, st').
       case res of
         Err e \<Rightarrow> Returns (Err e, st')
       | Ok rule \<Rightarrow> compile_rules build snap rref route (Suc index) rs (out @ [rule]) st')"

definition compile_route ::
  "'re builder \<Rightarrow> http_route \<Rightarrow> object_ref \<Rightarrow> snapshot \<Rightarrow> clusters
     \<Rightarrow> ((unsupported + compiled) \<times> clusters) run" where
  "compile_route build route rref snap clusters =
     run_bind (compile_rules build snap rref route 0 (hrs_rules (hr_spec route)) [] (None, clusters))
       (\<lambda>(res, first_error, clusters'). Returns
          (map_sum id (\<lambda>rules.
             \<lparr>co_rules = rules,
              co_resolved_refs =
                (case first_error of
                   None \<Rightarrow> new_condition ''ResolvedRefs'' CTrue ''ResolvedRefs''
                     (Msg ''All references resolved'' []) (om_generation (hr_metadata route))
                 | Some (reason, msg) \<Rightarrow> new_condition ''ResolvedRefs'' CFalse reason msg
                     (om_generation (hr_metadata route)))\<rparr>) res, clusters'))"

section \<open>The memo of path patterns\<close>

text \<open>
  \<open>check_path_regex\<close>: the process-wide table of verdicts, emptied when it is full. Two
  concurrent translations may both compile a pattern; each then inserts the same verdict.
\<close>

type_synonym regex_memo = "(string \<times> (regex_error + unit)) list"

definition path_regex_memo_capacity :: nat where
  "path_regex_memo_capacity = 4096"

definition check_path_regex ::
  "'re builder \<Rightarrow> string \<Rightarrow> regex_memo \<Rightarrow> (regex_error + unit) \<times> regex_memo" where
  "check_path_regex build pattern memo =
     (case map_of memo pattern of
        Some verdict \<Rightarrow> (verdict, memo)
      | None \<Rightarrow>
          (let verdict = path_regex_verdict build pattern;
               memo' = (if path_regex_memo_capacity \<le> length memo then [] else memo)
           in (verdict, aput pattern verdict memo')))"

end
