(* ===== verification/Remap.thy ===== *)
theory Remap
  imports Listeners
begin

text \<open>
  \<^verbatim>\<open>gapura-core/src/translate/mod.rs\<close>, the address of a Gateway: a Gateway with an address of
  its own has its listeners moved to ports nothing else declares. Shows that a move goes to a bound
  port of the protocol, that listeners of one Gateway, protocol and port move together, that
  different groups never share a target, and that nothing else moves.
\<close>

section \<open>Targets\<close>

definition gateway_key :: "object_ref \<Rightarrow> string" where
  "gateway_key r = ref_namespace r @ ''/'' @ ref_name r"

definition addresses_for :: "settings \<Rightarrow> object_ref \<Rightarrow> string list" where
  "addresses_for settings r =
     (case map_of (st_gateway_address_overrides settings) (gateway_key r) of
        Some as \<Rightarrow> as
      | None \<Rightarrow> st_gateway_addresses settings)"

record remap_slot =
  rs_gateway :: string
  rs_https :: bool
  rs_port :: u16
  rs_overridden :: bool

type_synonym remap_group = "string \<times> bool \<times> u16"

definition slot_group :: "remap_slot \<Rightarrow> remap_group" where
  "slot_group s = (rs_gateway s, rs_https s, rs_port s)"

definition slot_pool :: "settings \<Rightarrow> remap_slot \<Rightarrow> u16 list" where
  "slot_pool settings s = (if rs_https s then st_https_ports settings else st_http_ports settings)"

text \<open>The loop over the slots: the ports taken so far, the target of each group met so far.\<close>

fun remap_loop ::
  "settings \<Rightarrow> u16 set \<Rightarrow> (remap_group \<times> u16 option) list \<Rightarrow> remap_slot list \<Rightarrow> u16 option list" where
  "remap_loop settings taken groups [] = []"
| "remap_loop settings taken groups (s # ss) =
     (if \<not> rs_overridden s then None # remap_loop settings taken groups ss
      else let target = (case map_of groups (slot_group s) of
                   Some t \<Rightarrow> t
                 | None \<Rightarrow> find (\<lambda>p. p \<notin> taken) (slot_pool settings s))
        in target # remap_loop settings (set_option target \<union> taken)
             (aput (slot_group s) target groups) ss)"

definition remap_targets :: "remap_slot list \<Rightarrow> settings \<Rightarrow> u16 option list" where
  "remap_targets slots settings = remap_loop settings (rs_port ` set slots) [] slots"

section \<open>The ports listeners serve on\<close>

text \<open>The programmed listeners of the Gateways that are not refused, in order, with their positions.\<close>

definition gateway_slots ::
  "settings \<Rightarrow> nat \<times> gateway_build \<Rightarrow> ((nat \<times> nat) \<times> remap_slot) list" where
  "gateway_slots settings = (\<lambda>(gi, gw).
     if gb_rejected gw \<noteq> None then []
     else map (\<lambda>(li, l). ((gi, li),
            \<lparr>rs_gateway = gateway_key (gb_ref gw), rs_https = (lb_protocol l = Some Https), rs_port = lb_port l,
             rs_overridden = (map_of (st_gateway_address_overrides settings) (gateway_key (gb_ref gw)) \<noteq> None)\<rparr>))
          (filter (\<lambda>(_, l). programmed l) (List.enumerate 0 (gb_listeners gw))))"

definition all_slots :: "settings \<Rightarrow> gateway_build list \<Rightarrow> ((nat \<times> nat) \<times> remap_slot) list" where
  "all_slots settings gws = concat (map (gateway_slots settings) (List.enumerate 0 gws))"

definition set_port ::
  "gateway_build list \<Rightarrow> (nat \<times> nat) \<times> u16 option \<Rightarrow> u16 option list list \<Rightarrow> u16 option list list" where
  "set_port gws = (\<lambda>((gi, li), target) ports.
     ports[gi := (ports ! gi)[li := Some (case target of
        Some p \<Rightarrow> p | None \<Rightarrow> lb_port (gb_listeners (gws ! gi) ! li))]])"

definition serving_ports :: "gateway_build list \<Rightarrow> settings \<Rightarrow> u16 option list list" where
  "serving_ports gws settings =
     (let slots = all_slots settings gws;
          targets = remap_targets (map snd slots) settings
      in fold (set_port gws) (zip (map fst slots) targets)
           (map (\<lambda>g. replicate (length (gb_listeners g)) None) gws))"

section \<open>Moving the listeners of the configuration\<close>

text \<open>\<open>gateway_of\<close>: the part of a listener's id before its second slash, or all of it.\<close>

definition gateway_of :: "string \<Rightarrow> string" where
  "gateway_of i =
     (case split_once CHR ''/'' i of
        None \<Rightarrow> i
      | Some (ns, rest) \<Rightarrow>
          (case split_once CHR ''/'' rest of
             None \<Rightarrow> i
           | Some (name, _) \<Rightarrow> ns @ ''/'' @ name))"

definition config_slot :: "listener_config \<times> bool \<Rightarrow> remap_slot" where
  "config_slot = (\<lambda>(l, overridden).
     \<lparr>rs_gateway = gateway_of (lc_id l), rs_https = (lc_protocol l = Https), rs_port = lc_port l,
      rs_overridden = overridden\<rparr>)"

definition move_listener :: "listener_config \<times> u16 option \<Rightarrow> listener_config" where
  "move_listener = (\<lambda>(l, target).
     case target of None \<Rightarrow> l | Some p \<Rightarrow> l\<lparr>lc_client_port := Some (lc_port l), lc_port := p\<rparr>)"

definition remap_overridden_listeners ::
  "listener_config list \<Rightarrow> settings \<Rightarrow> bool list \<Rightarrow> listener_config list" where
  "remap_overridden_listeners ls settings overridden =
     (let targets = remap_targets (map config_slot (zip ls overridden)) settings
      in map move_listener (zip ls targets))"

definition same_address :: "string \<Rightarrow> string \<Rightarrow> bool" where
  "same_address published requested =
     (case (parse_ip published, parse_ip requested) of
        (Some p, Some r) \<Rightarrow> p = r
      | _ \<Rightarrow> eq_ignore_ascii_case published requested)"

text \<open>The remark on a moved listener's condition.\<close>

definition remap_message :: "u16 \<Rightarrow> u16 \<Rightarrow> message" where
  "remap_message effective declared = Msg
     ''Listener is programmed on port {effective}: declared port {declared} is shared and this Gateway is individually addressed, so its Service must target port {effective}''
     [Num (unat effective), Num (unat declared), Num (unat effective)]"

definition note_programmed :: "message \<Rightarrow> condition \<Rightarrow> condition" where
  "note_programmed msg c =
     (if cd_type c = ''Programmed'' \<and> cd_status c = CTrue then c\<lparr>cd_message := msg\<rparr> else c)"

fun update_first :: "('a \<Rightarrow> bool) \<Rightarrow> ('a \<Rightarrow> 'a) \<Rightarrow> 'a list \<Rightarrow> 'a list" where
  "update_first P f [] = []"
| "update_first P f (x # xs) = (if P x then f x # xs else x # update_first P f xs)"

fun is_gateway_patch :: "string \<Rightarrow> string \<Rightarrow> status_patch \<Rightarrow> bool" where
  "is_gateway_patch ns name (GatewayPatch n m _ _ _ _) \<longleftrightarrow> n = ns \<and> m = name"
| "is_gateway_patch ns name _ \<longleftrightarrow> False"

fun note_in_patch :: "string \<Rightarrow> message \<Rightarrow> status_patch \<Rightarrow> status_patch" where
  "note_in_patch lname msg (GatewayPatch ns name uid as cs ls) =
     GatewayPatch ns name uid as cs
       (update_first (\<lambda>s. lst_name s = lname)
         (\<lambda>s. s\<lparr>lst_conditions := map (note_programmed msg) (lst_conditions s)\<rparr>) ls)"
| "note_in_patch lname msg p = p"

definition note_remapped :: "listener_config \<Rightarrow> status_patch list \<Rightarrow> status_patch list" where
  "note_remapped l status =
     (case lc_client_port l of
        None \<Rightarrow> status
      | Some declared \<Rightarrow>
          (case split_once CHR ''/'' (lc_id l) of
             None \<Rightarrow> status
           | Some (ns, rest) \<Rightarrow>
               (case split_once CHR ''/'' rest of
                  None \<Rightarrow> status
                | Some (name, lname) \<Rightarrow>
                    update_first (is_gateway_patch ns name)
                      (note_in_patch lname (remap_message (lc_port l) declared)) status)))"

definition note_remapped_ports :: "listener_config list \<Rightarrow> status_patch list \<Rightarrow> status_patch list" where
  "note_remapped_ports ls status = fold note_remapped ls status"

section \<open>The allocation\<close>

lemma length_remap_loop [simp]: "length (remap_loop settings taken groups slots) = length slots"
  by (induction settings taken groups slots rule: remap_loop.induct) (simp_all add: Let_def)

lemma length_remap_targets [simp]: "length (remap_targets slots settings) = length slots"
  by (simp add: remap_targets_def)

text \<open>
  What the loop maintains: targets given to groups are taken, of the pool of the group, none of
  the ports \<open>D\<close> taken from the start, and told apart by the group.
\<close>

definition group_pool :: "settings \<Rightarrow> remap_group \<Rightarrow> u16 list" where
  "group_pool settings g = (if fst (snd g) then st_https_ports settings else st_http_ports settings)"

lemma group_pool_slot [simp]: "group_pool settings (slot_group s) = slot_pool settings s"
  by (simp add: group_pool_def slot_group_def slot_pool_def)

definition allocation_ok ::
  "settings \<Rightarrow> u16 set \<Rightarrow> u16 set \<Rightarrow> (remap_group \<times> u16 option) list \<Rightarrow> bool" where
  "allocation_ok settings D taken groups \<longleftrightarrow> D \<subseteq> taken \<and>
     (\<forall>g p. map_of groups g = Some (Some p) \<longrightarrow> p \<in> taken \<and> p \<notin> D \<and> p \<in> set (group_pool settings g)) \<and>
     (\<forall>g h p. map_of groups g = Some (Some p) \<and> map_of groups h = Some (Some p) \<longrightarrow> g = h)"

definition group_target :: "settings \<Rightarrow> u16 set \<Rightarrow> (remap_group \<times> u16 option) list \<Rightarrow> remap_slot \<Rightarrow> u16 option" where
  "group_target settings taken groups s = (case map_of groups (slot_group s) of
     Some t \<Rightarrow> t | None \<Rightarrow> find (\<lambda>p. p \<notin> taken) (slot_pool settings s))"

lemma remap_loop_Cons:
  "remap_loop settings taken groups (s # ss) =
   (if \<not> rs_overridden s then None # remap_loop settings taken groups ss
    else group_target settings taken groups s #
      remap_loop settings (set_option (group_target settings taken groups s) \<union> taken)
        (aput (slot_group s) (group_target settings taken groups s) groups) ss)"
  by (simp add: group_target_def Let_def)

lemma allocation_ok_step:
  fixes s :: remap_slot
  assumes "allocation_ok settings D taken groups"
  defines "t \<equiv> group_target settings taken groups s"
  shows "allocation_ok settings D (set_option t \<union> taken) (aput (slot_group s) t groups)"
proof (cases "map_of groups (slot_group s)")
  case (Some u)
  then have "map_of (aput (slot_group s) t groups) = map_of groups"
    by (auto simp: t_def group_target_def fun_eq_iff)
  with assms(1) show ?thesis unfolding allocation_ok_def by auto
next
  case None
  then have t: "t = find (\<lambda>p. p \<notin> taken) (slot_pool settings s)" by (simp add: t_def group_target_def)
  have new: "p \<notin> taken \<and> p \<in> set (slot_pool settings s)" if "t = Some p" for p
    using find_SomeD [of "\<lambda>p. p \<notin> taken" "slot_pool settings s" p] that t by simp
  obtain g0 where g0: "g0 = slot_group s" by simp
  then have pool: "set (slot_pool settings s) = set (group_pool settings g0)" by simp
  show ?thesis unfolding allocation_ok_def g0 [symmetric]
  proof (intro conjI allI impI)
    show "D \<subseteq> set_option t \<union> taken" using assms(1) by (auto simp: allocation_ok_def)
  next
    fix g p assume "map_of (aput g0 t groups) g = Some (Some p)"
    then consider "g = g0" "t = Some p" | "map_of groups g = Some (Some p)" by (auto split: if_splits)
    then have "p \<in> set_option t \<union> taken \<and> p \<notin> D \<and> p \<in> set (group_pool settings g)"
      using new [of p] pool assms(1) unfolding allocation_ok_def by cases blast+
    then show "p \<in> set_option t \<union> taken" "p \<notin> D" "p \<in> set (group_pool settings g)" by blast+
  next
    fix g h p
    assume both: "map_of (aput g0 t groups) g = Some (Some p) \<and> map_of (aput g0 t groups) h = Some (Some p)"
    have "map_of groups g \<noteq> Some (Some p)" if "t = Some p" for g
      using new [OF that] assms(1) unfolding allocation_ok_def by blast
    with both assms(1) show "g = h" unfolding allocation_ok_def map_of_aput fun_upd_apply
      by (metis option.inject)
  qed
qed

text \<open>A run as one final table of groups that every target is read from.\<close>

lemma remap_loop_groups:
  assumes "allocation_ok settings D taken groups"
  shows "\<exists>T G. allocation_ok settings D T G \<and> map_of groups \<subseteq>\<^sub>m map_of G \<and>
    (\<forall>i < length slots. if rs_overridden (slots ! i)
       then map_of G (slot_group (slots ! i)) = Some (remap_loop settings taken groups slots ! i)
       else remap_loop settings taken groups slots ! i = None)"
  using assms
proof (induction slots arbitrary: taken groups)
  case Nil
  then show ?case by (auto simp: map_le_def)
next
  case (Cons s ss)
  let ?t = "group_target settings taken groups s"
  let ?groups = "if rs_overridden s then aput (slot_group s) ?t groups else groups"
  let ?taken = "if rs_overridden s then set_option ?t \<union> taken else taken"
  have "allocation_ok settings D ?taken ?groups"
    using Cons.prems allocation_ok_step by simp
  from Cons.IH [OF this] obtain T G where G: "allocation_ok settings D T G" "map_of ?groups \<subseteq>\<^sub>m map_of G"
    "\<forall>i < length ss. if rs_overridden (ss ! i)
       then map_of G (slot_group (ss ! i)) = Some (remap_loop settings ?taken ?groups ss ! i)
       else remap_loop settings ?taken ?groups ss ! i = None"
    by blast
  have "map_of groups \<subseteq>\<^sub>m map_of ?groups"
    by (auto simp: map_le_def group_target_def split: option.splits)
  then have le: "map_of groups \<subseteq>\<^sub>m map_of G" using G(2) by (rule map_le_trans)
  have "if rs_overridden ((s # ss) ! i)
       then map_of G (slot_group ((s # ss) ! i)) = Some (remap_loop settings taken groups (s # ss) ! i)
       else remap_loop settings taken groups (s # ss) ! i = None" if "i < length (s # ss)" for i
  proof (cases i)
    case 0
    have "rs_overridden s \<Longrightarrow> map_of G (slot_group s) = Some ?t"
      using map_leD [OF G(2), of "slot_group s"] by simp
    with 0 show ?thesis by (simp add: remap_loop_Cons del: remap_loop.simps)
  next
    case (Suc j)
    with that G(3) show ?thesis by (auto simp: remap_loop_Cons simp del: remap_loop.simps split: if_splits)
  qed
  with G(1) le show ?case by blast
qed

text \<open>The targets of all slots, read from the final table.\<close>

lemma remap_targets_groups:
  assumes "i < length slots" and "remap_targets slots settings ! i = Some p"
  shows "rs_overridden (slots ! i)" and "p \<in> set (slot_pool settings (slots ! i))" and "p \<notin> rs_port ` set slots"
    and "j < length slots \<Longrightarrow> rs_overridden (slots ! j) \<Longrightarrow>
       remap_targets slots settings ! j = Some p \<longleftrightarrow> slot_group (slots ! j) = slot_group (slots ! i)"
proof -
  have "allocation_ok settings (rs_port ` set slots) (rs_port ` set slots) []"
    by (simp add: allocation_ok_def)
  from remap_loop_groups [OF this, of slots] obtain T G where
    G: "allocation_ok settings (rs_port ` set slots) T G"
    "\<forall>i < length slots. if rs_overridden (slots ! i)
       then map_of G (slot_group (slots ! i)) = Some (remap_targets slots settings ! i)
       else remap_targets slots settings ! i = None"
    unfolding remap_targets_def by blast
  show "rs_overridden (slots ! i)" using G(2) assms by (metis option.distinct(1))
  have mine: "map_of G (slot_group (slots ! i)) = Some (Some p)"
    using G(2) assms by (metis option.distinct(1))
  show "p \<in> set (slot_pool settings (slots ! i))" and "p \<notin> rs_port ` set slots"
    using G(1) mine unfolding allocation_ok_def by (metis group_pool_slot)+
  assume "j < length slots" and "rs_overridden (slots ! j)"
  then have "map_of G (slot_group (slots ! j)) = Some (remap_targets slots settings ! j)" using G(2) by simp
  with mine G(1) show "remap_targets slots settings ! j = Some p \<longleftrightarrow> slot_group (slots ! j) = slot_group (slots ! i)"
    unfolding allocation_ok_def by (metis option.inject)
qed

text \<open>Listeners that serve on one port declare one port.\<close>

definition declared_port :: "listener_config \<Rightarrow> u16" where
  "declared_port l = (case lc_client_port l of Some p \<Rightarrow> p | None \<Rightarrow> lc_port l)"

lemma remap_same_port:
  assumes "length overridden = length ls" and "i < length ls" and "j < length ls"
    and "\<forall>l \<in> set ls. lc_client_port l = None"
    and "lc_port (remap_overridden_listeners ls settings overridden ! i) =
         lc_port (remap_overridden_listeners ls settings overridden ! j)"
  shows "lc_port (ls ! i) = lc_port (ls ! j)"
proof -
  let ?slots = "map config_slot (zip ls overridden)"
  let ?t = "remap_targets ?slots settings"
  have port: "lc_port (remap_overridden_listeners ls settings overridden ! k) =
      (case ?t ! k of Some p \<Rightarrow> p | None \<Rightarrow> lc_port (ls ! k))" if "k < length ls" for k
    using that assms(1) by (auto simp: remap_overridden_listeners_def Let_def move_listener_def split: option.split)
  have slot: "rs_port (?slots ! k) = lc_port (ls ! k)" if "k < length ls" for k
    using that assms(1) by (simp add: config_slot_def)
  have declared: "lc_port (ls ! k) \<in> rs_port ` set ?slots" if "k < length ls" for k
    using slot [OF that] that assms(1) nth_mem [of k ?slots] by (metis imageI length_map length_zip min.idem)
  have group: "rs_port (?slots ! a) = rs_port (?slots ! b)"
    if "a < length ls" "b < length ls" "?t ! a = Some p" "?t ! b = Some p" for a b p
    using remap_targets_groups(4) [of a ?slots settings p b] remap_targets_groups(1) [of b ?slots settings p] that assms(1)
    by (simp add: slot_group_def)
  have fresh: "lc_port (ls ! b) \<noteq> p" if "a < length ls" "b < length ls" "?t ! a = Some p" for a b p
    using remap_targets_groups(3) [of a ?slots settings p] declared [OF that(2)] that assms(1) by auto
  show ?thesis
    using assms(5) port [OF assms(2)] port [OF assms(3)] fresh [OF assms(2,3)] fresh [OF assms(3,2)]
      group [OF assms(2,3)] slot [OF assms(2)] slot [OF assms(3)]
    by (cases "?t ! i"; cases "?t ! j") auto
qed

text \<open>
  A listener moves only when its Gateway has an address of its own, and then to a port that is
  bound for its protocol and that no listener declares. Two moved listeners share a target exactly
  when they belong to the same Gateway, protocol and declared port.
\<close>

theorem remap_targets_sound:
  assumes "i < length slots" and "remap_targets slots settings ! i = Some p"
  shows "rs_overridden (slots ! i) \<and> p \<in> set (slot_pool settings (slots ! i)) \<and> p \<notin> rs_port ` set slots \<and>
    (\<forall>j < length slots. rs_overridden (slots ! j) \<longrightarrow>
       (remap_targets slots settings ! j = Some p \<longleftrightarrow> slot_group (slots ! j) = slot_group (slots ! i)))"
  using remap_targets_groups [OF assms] by blast

text \<open>Two Gateways with addresses of their own and one shared declared port.\<close>

definition sample_slot :: "string \<Rightarrow> bool \<Rightarrow> remap_slot" where
  "sample_slot g overridden = \<lparr>rs_gateway = g, rs_https = False, rs_port = 80, rs_overridden = overridden\<rparr>"

definition sample_slots :: "remap_slot list" where
  "sample_slots = [sample_slot ''a'' True, sample_slot ''b'' False, sample_slot ''c'' True]"

definition sample_ports :: settings where
  "sample_ports = default_settings\<lparr>st_http_ports := [80, 8080, 8081]\<rparr>"

theorem remap_targets_sound_witness:
  "remap_targets sample_slots sample_ports ! 2 = Some 8081 \<and>
   8081 \<in> set (slot_pool sample_ports (sample_slots ! 2)) \<and> 8081 \<notin> rs_port ` set sample_slots"
proof -
  have i: "2 < length sample_slots" by (simp add: sample_slots_def)
  have t: "remap_targets sample_slots sample_ports ! 2 = Some 8081" by code_simp
  from remap_targets_sound [OF i t] t show ?thesis by blast
qed

end
