(* ===== verification/Routes.thy ===== *)
theory Routes
  imports Rules Remap
begin

text \<open>
  \<^verbatim>\<open>gapura-core/src/translate/routes.rs\<close>: step 3 of the translation, HTTPRoutes to the
  listeners their parent references name, with the status of each route. The Gateways under
  construction and the clusters are the state; compiling a route may panic in the path
  normaliser, so the step is a \<open>run\<close>.
\<close>

section \<open>Which Gateway, which hostnames\<close>

definition parent_names :: "parent_reference \<Rightarrow> object_ref \<Rightarrow> object_ref \<Rightarrow> bool" where
  "parent_names pref rref gref \<longleftrightarrow>
     ref_namespace gref = (case pr_namespace pref of Some n \<Rightarrow> n | None \<Rightarrow> ref_namespace rref) \<and>
     ref_name gref = pr_name pref"

definition is_gateway_ref :: "parent_reference \<Rightarrow> bool" where
  "is_gateway_ref pref \<longleftrightarrow>
     (case pr_group pref of Some g \<Rightarrow> g | None \<Rightarrow> gateway_group) = gateway_group \<and>
     (case pr_kind pref of Some k \<Rightarrow> k | None \<Rightarrow> ''Gateway'') = ''Gateway''"

fun position :: "('a \<Rightarrow> bool) \<Rightarrow> 'a list \<Rightarrow> nat option" where
  "position P [] = None"
| "position P (x # xs) = (if P x then Some 0 else map_option Suc (position P xs))"

definition our_gateway :: "gateway_build list \<Rightarrow> parent_reference \<Rightarrow> object_ref \<Rightarrow> nat option" where
  "our_gateway gws pref rref =
     (if \<not> is_gateway_ref pref then None
      else position (\<lambda>g. parent_names pref rref (gb_ref g)) gws)"

record sibling =
  si_at :: "nat \<times> nat"
  si_port :: u16
  si_protocol :: protocol
  si_hostname :: "string option"

definition sibling_of :: "u16 option list list \<Rightarrow> nat \<Rightarrow> nat \<times> listener_build \<Rightarrow> sibling option" where
  "sibling_of ports gi = (\<lambda>(li, l).
     case (ports ! gi ! li, lb_protocol l) of
       (Some port, Some protocol) \<Rightarrow>
         Some \<lparr>si_at = (gi, li), si_port = port, si_protocol = protocol, si_hostname = lb_hostname l\<rparr>
     | _ \<Rightarrow> None)"

definition siblings :: "gateway_build list \<Rightarrow> settings \<Rightarrow> sibling list" where
  "siblings gws settings =
     (let ports = serving_ports gws settings
      in concat (map (\<lambda>(gi, gw). List.map_filter (sibling_of ports gi) (List.enumerate 0 (gb_listeners gw)))
           (List.enumerate 0 gws)))"

text \<open>A sibling at another place that serves the same port and protocol and names the host more specifically.\<close>

definition claims :: "u16 \<Rightarrow> nat \<times> nat \<Rightarrow> listener_build \<Rightarrow> sibling list \<Rightarrow> string \<Rightarrow> bool" where
  "claims own_port at own sibs h =
     list_ex (\<lambda>s. si_at s \<noteq> at \<and> si_port s = own_port \<and> Some (si_protocol s) = lb_protocol own \<and>
        specificity (lb_hostname own) < specificity (si_hostname s) \<and>
        (case si_hostname s of None \<Rightarrow> False | Some sh \<Rightarrow> host_matches sh h)) sibs"

definition own_port :: "nat \<times> nat \<Rightarrow> listener_build \<Rightarrow> sibling list \<Rightarrow> u16" where
  "own_port at own sibs = (case find (\<lambda>s. si_at s = at) sibs of Some s \<Rightarrow> si_port s | None \<Rightarrow> lb_port own)"

definition yield_to_siblings ::
  "string list \<Rightarrow> nat \<times> nat \<Rightarrow> listener_build \<Rightarrow> sibling list \<Rightarrow> string list option" where
  "yield_to_siblings hosts at own sibs =
     (if hosts = [] then Some hosts
      else let kept = filter (\<lambda>h. \<not> claims (own_port at own sibs) at own sibs h) hosts
        in if kept = [] then None else Some kept)"

section \<open>Attaching to one Gateway\<close>

record outcome_counts =
  oc_matching_listeners :: nat
  oc_allowed :: nat
  oc_hostname_ok :: nat
  oc_claimed :: nat

definition parent_section_ok :: "parent_reference \<Rightarrow> string \<Rightarrow> u16 \<Rightarrow> bool" where
  "parent_section_ok pref name port \<longleftrightarrow>
     (case pr_section_name pref of None \<Rightarrow> True | Some s \<Rightarrow> s = name) \<and>
     (case pr_port pref of None \<Rightarrow> True | Some p \<Rightarrow> p = port)"

text \<open>What is the same for every listener of the loop.\<close>

record attach_ctx =
  ac_gateway :: nat
  ac_gateway_ref :: object_ref
  ac_siblings :: "sibling list"
  ac_pref :: parent_reference
  ac_route :: http_route
  ac_rref :: object_ref
  ac_snap :: snapshot
  ac_compiled :: "compiled option"

definition route_admitted :: "snapshot \<Rightarrow> string \<Rightarrow> object_ref \<Rightarrow> allowed_routes option \<Rightarrow> bool" where
  "route_admitted snap gw_ns rref allowed \<longleftrightarrow> namespace_ok allowed gw_ns rref snap \<and> kind_ok allowed"

definition attach_listener ::
  "attach_ctx \<Rightarrow> nat \<times> listener_build \<Rightarrow> outcome_counts \<times> string list
     \<Rightarrow> listener_build \<times> outcome_counts \<times> string list" where
  "attach_listener cx = (\<lambda>(li, l) (oc, attached).
     if \<not> parent_section_ok (ac_pref cx) (lb_name l) (lb_port l) then (l, oc, attached)
     else let oc = oc\<lparr>oc_matching_listeners := Suc (oc_matching_listeners oc)\<rparr> in
     if \<not> route_admitted (ac_snap cx) (ref_namespace (ac_gateway_ref cx)) (ac_rref cx) (lb_allowed l)
     then (l, oc, attached)
     else let oc = oc\<lparr>oc_allowed := Suc (oc_allowed oc)\<rparr> in
     case intersect (lb_hostname l) (hrs_hostnames (hr_spec (ac_route cx))) of
       None \<Rightarrow> (l, oc, attached)
     | Some hosts0 \<Rightarrow>
         (case yield_to_siblings hosts0 (ac_gateway cx, li) l (ac_siblings cx) of
            None \<Rightarrow> (l, oc\<lparr>oc_claimed := Suc (oc_claimed oc)\<rparr>, attached)
          | Some hosts \<Rightarrow>
              (let oc = oc\<lparr>oc_hostname_ok := Suc (oc_hostname_ok oc)\<rparr>;
                   key = show_ref (ac_gateway_ref cx) @ ''/'' @ lb_name l
               in if key \<in> set attached then (l, oc, attached)
                  else let l1 = l\<lparr>lb_attached_routes := lb_attached_routes l + 1\<rparr>;
                           l2 = (case ac_compiled cx of
                              Some c \<Rightarrow> if programmed l then add_route (co_rules c) hosts l1 else l1
                            | None \<Rightarrow> l1)
                    in (l2, oc, key # attached))))"

fun attach_listeners ::
  "attach_ctx \<Rightarrow> (nat \<times> listener_build) list \<Rightarrow> outcome_counts \<times> string list
     \<Rightarrow> listener_build list \<times> outcome_counts \<times> string list" where
  "attach_listeners cx [] st = ([], st)"
| "attach_listeners cx (x # xs) st =
     (case attach_listener cx x st of (l, st') \<Rightarrow>
      case attach_listeners cx xs st' of (ls, st'') \<Rightarrow> (l # ls, st''))"

definition attach_to_gateway ::
  "nat \<Rightarrow> gateway_build \<Rightarrow> sibling list \<Rightarrow> parent_reference \<Rightarrow> http_route \<Rightarrow> object_ref \<Rightarrow> snapshot
     \<Rightarrow> compiled option \<Rightarrow> string list \<Rightarrow> gateway_build \<times> outcome_counts \<times> string list" where
  "attach_to_gateway gi gw sibs pref route rref snap cres attached =
     (let cx = \<lparr>ac_gateway = gi, ac_gateway_ref = gb_ref gw, ac_siblings = sibs, ac_pref = pref,
                ac_route = route, ac_rref = rref, ac_snap = snap, ac_compiled = cres\<rparr>;
          oc = \<lparr>oc_matching_listeners = 0, oc_allowed = 0, oc_hostname_ok = 0, oc_claimed = 0\<rparr>
      in case attach_listeners cx (List.enumerate 0 (gb_listeners gw)) (oc, attached) of
           (ls, oc', attached') \<Rightarrow> (gw\<lparr>gb_listeners := ls\<rparr>, oc', attached'))"

section \<open>Conditions\<close>

definition accepted_condition ::
  "outcome_counts \<Rightarrow> unsupported + compiled \<Rightarrow> int option \<Rightarrow> condition" where
  "accepted_condition oc cres generation =
     (case cres of
        Err (Unsupported msg) \<Rightarrow> new_condition ''Accepted'' CFalse ''UnsupportedValue'' msg generation
      | Ok _ \<Rightarrow>
          if 0 < oc_hostname_ok oc then
            new_condition ''Accepted'' CTrue ''Accepted'' (Msg ''Route is accepted'' []) generation
          else if oc_matching_listeners oc = 0 then
            new_condition ''Accepted'' CFalse ''NoMatchingParent''
              (Msg ''No listener matches the parentRef sectionName/port'' []) generation
          else if oc_allowed oc = 0 then
            new_condition ''Accepted'' CFalse ''NotAllowedByListeners''
              (Msg ''Route is not allowed by any matching listener (namespace or kind)'' []) generation
          else if 0 < oc_claimed oc then
            new_condition ''Accepted'' CFalse ''NoMatchingListenerHostname''
              (Msg ''Every route hostname belongs to a more specific listener on the same port, of this Gateway or another one sharing the port; a request is served by the most specific matching listener only'' []) generation
          else
            new_condition ''Accepted'' CFalse ''NoMatchingListenerHostname''
              (Msg ''No listener hostname intersects the route hostnames'' []) generation)"

definition resolved_condition :: "unsupported + compiled \<Rightarrow> int option \<Rightarrow> condition" where
  "resolved_condition cres generation =
     (case cres of
        Ok c \<Rightarrow> co_resolved_refs c
      | Err _ \<Rightarrow> new_condition ''ResolvedRefs'' CTrue ''ResolvedRefs''
          (Msg ''References not evaluated because the route was rejected'' []) generation)"

section \<open>Attaching every route\<close>

text \<open>The loop over the parent references of one route.\<close>

fun attach_parents ::
  "settings \<Rightarrow> sibling list \<Rightarrow> http_route \<Rightarrow> object_ref \<Rightarrow> snapshot \<Rightarrow> unsupported + compiled
     \<Rightarrow> parent_reference list \<Rightarrow> gateway_build list \<Rightarrow> string list
     \<Rightarrow> gateway_build list \<times> route_parent_status list" where
  "attach_parents settings sibs route rref snap cres [] gws attached = (gws, [])"
| "attach_parents settings sibs route rref snap cres (pref # prefs) gws attached =
     (case our_gateway gws pref rref of
        None \<Rightarrow> attach_parents settings sibs route rref snap cres prefs gws attached
      | Some i \<Rightarrow>
          (case attach_to_gateway i (gws ! i) sibs pref route rref snap
             (case cres of Ok c \<Rightarrow> Some c | Err _ \<Rightarrow> None) attached of
             (gw', oc, attached') \<Rightarrow>
               (case attach_parents settings sibs route rref snap cres prefs (gws[i := gw']) attached' of
                  (gws', ps) \<Rightarrow>
                    (gws', \<lparr>rpst_parent_ref = pref, rpst_controller_name = st_controller_name settings,
                      rpst_conditions =
                        [accepted_condition oc cres (om_generation (hr_metadata route)),
                         resolved_condition cres (om_generation (hr_metadata route))]\<rparr> # ps))))"

definition any_listener_admits :: "gateway_build list \<Rightarrow> http_route \<Rightarrow> object_ref \<Rightarrow> snapshot \<Rightarrow> bool" where
  "any_listener_admits gws route rref snap =
     list_ex (\<lambda>pref. case our_gateway gws pref rref of
        None \<Rightarrow> False
      | Some i \<Rightarrow>
          list_ex (\<lambda>l. parent_section_ok pref (lb_name l) (lb_port l) \<and>
              route_admitted snap (ref_namespace (gb_ref (gws ! i))) rref (lb_allowed l))
            (gb_listeners (gws ! i)))
       (hrs_parent_refs (hr_spec route))"

type_synonym attach_state = "gateway_build list \<times> clusters \<times> status_patch list"

definition attach_route ::
  "'re builder \<Rightarrow> snapshot \<Rightarrow> settings \<Rightarrow> sibling list \<Rightarrow> object_ref \<times> http_route \<Rightarrow> attach_state
     \<Rightarrow> attach_state run" where
  "attach_route build snap settings sibs = (\<lambda>(rref, route) (gws, clusters, status).
     if \<not> list_ex (\<lambda>pref. our_gateway gws pref rref \<noteq> None) (hrs_parent_refs (hr_spec route)) then
       Returns (gws, clusters,
         if list_ex (\<lambda>p. rps_controller_name p = st_controller_name settings) (hst_parents (hr_status route))
         then status @ [HttpRoutePatch (ref_namespace rref) (ref_name rref) (om_uid (hr_metadata route)) []]
         else status)
     else
       run_bind (if any_listener_admits gws route rref snap
           then compile_route build route rref snap clusters
           else Returns (Ok (not_admitted (om_generation (hr_metadata route))), clusters))
         (\<lambda>(cres, clusters').
            case attach_parents settings sibs route rref snap cres (hrs_parent_refs (hr_spec route)) gws [] of
              (gws', parents) \<Rightarrow>
                Returns (gws', clusters',
                  if parents \<noteq> []
                  then status @ [HttpRoutePatch (ref_namespace rref) (ref_name rref)
                    (om_uid (hr_metadata route)) parents]
                  else status)))"

definition attach ::
  "'re builder \<Rightarrow> snapshot \<Rightarrow> settings \<Rightarrow> attach_state \<Rightarrow> attach_state run" where
  "attach build snap settings = (\<lambda>(gws, clusters, status).
     run_fold (attach_route build snap settings (siblings gws settings)) (sn_http_routes snap)
       (gws, clusters, status))"

end
