(* ===== verification/Translate.thy ===== *)
theory Translate
  imports Routes
begin

text \<open>
  \<^verbatim>\<open>gapura-core/src/translate/mod.rs\<close>: the whole translation, from a snapshot of the
  Kubernetes objects to the configuration of the data plane and the status of the objects. The
  \<open>expect\<close> on a listener's protocol and the panics of the table sort are outcomes.
\<close>

section \<open>Assembling the configuration\<close>

definition listener_status_of :: "gateway_build \<Rightarrow> listener_build \<Rightarrow> listener_status" where
  "listener_status_of gw l =
     \<lparr>lst_name = lb_name l, lst_supported_kinds = lb_supported_kinds l,
      lst_attached_routes = lb_attached_routes l,
      lst_conditions = listener_conditions l (gb_generation gw) (gb_rejected gw = None)\<rparr>"

text \<open>The listeners of a Gateway that go into the configuration.\<close>

definition served_listeners :: "gateway_build \<Rightarrow> listener_build list" where
  "served_listeners gw = (if gb_rejected gw = None then filter programmed (gb_listeners gw) else [])"

definition rule_cluster_keys :: "route_rule \<Rightarrow> string list" where
  "rule_cluster_keys rule =
     List.map_filter wb_cluster (rr_backends rule) @
     (case f_mirror (rr_filters rule) of Some m \<Rightarrow> [mi_cluster m] | None \<Rightarrow> [])"

definition listener_id :: "gateway_build \<Rightarrow> listener_build \<Rightarrow> string" where
  "listener_id gw l = ref_namespace (gb_ref gw) @ ''/'' @ ref_name (gb_ref gw) @ ''/'' @ lb_name l"

definition listener_config_of :: "gateway_build \<times> listener_build \<Rightarrow> listener_config run" where
  "listener_config_of = (\<lambda>(gw, l).
     case lb_protocol l of
       None \<Rightarrow> Panics
     | Some protocol \<Rightarrow>
         Returns \<lparr>lc_id = listener_id gw l, lc_port = lb_port l, lc_client_port = None,
                  lc_protocol = protocol, lc_hostname = lb_hostname l, lc_tls = lb_tls l,
                  lc_rules = lb_rules l\<rparr>)"

definition gateway_accepted :: "gateway_build \<Rightarrow> condition" where
  "gateway_accepted gw =
     (case gb_rejected gw of
        Some (reason, msg) \<Rightarrow> new_condition ''Accepted'' CFalse reason msg (gb_generation gw)
      | None \<Rightarrow>
          if list_all programmed (gb_listeners gw) then
            new_condition ''Accepted'' CTrue ''Accepted'' (Msg ''Gateway is accepted'' []) (gb_generation gw)
          else if list_ex programmed (gb_listeners gw) then
            new_condition ''Accepted'' CTrue ''ListenersNotValid'' (Msg ''Some listeners are not valid'' []) (gb_generation gw)
          else
            new_condition ''Accepted'' CFalse ''ListenersNotValid'' (Msg ''No listener is valid'' []) (gb_generation gw))"

definition gateway_programmed :: "settings \<Rightarrow> gateway_build \<Rightarrow> condition" where
  "gateway_programmed settings gw =
     (let published = addresses_for settings (gb_ref gw);
          unassigned = filter (\<lambda>a. \<not> list_ex (\<lambda>p. same_address p a) published) (gb_requested_addresses gw)
      in if served_listeners gw \<noteq> [] \<and> unassigned \<noteq> [] then
           new_condition ''Programmed'' CFalse ''AddressNotAssigned''
             (Msg ''spec.addresses {} cannot be assigned: static addresses are not supported, the Gateway is served on {:?}''
               [Text (join '', '' unassigned), Texts published]) (gb_generation gw)
         else if served_listeners gw \<noteq> [] then
           new_condition ''Programmed'' CTrue ''Programmed'' (Msg ''Gateway is programmed'' []) (gb_generation gw)
         else
           new_condition ''Programmed'' CFalse ''Invalid'' (Msg ''No listener is programmed'' []) (gb_generation gw))"

definition gateway_patch :: "settings \<Rightarrow> gateway_build \<Rightarrow> status_patch" where
  "gateway_patch settings gw =
     GatewayPatch (ref_namespace (gb_ref gw)) (ref_name (gb_ref gw)) (gb_uid gw)
       (addresses_for settings (gb_ref gw)) [gateway_accepted gw, gateway_programmed settings gw]
       (map (listener_status_of gw) (gb_listeners gw))"

text \<open>The entries of one listener's table go to the end of the table of its port.\<close>

definition bucket_entries ::
  "nat \<times> listener_config \<times> match_entry list \<Rightarrow> (u16 \<times> port_entry list) list \<Rightarrow> (u16 \<times> port_entry list) list" where
  "bucket_entries = (\<lambda>(index, l, entries) ports.
     bput (lc_port l)
       ((case map_of ports (lc_port l) of Some es \<Rightarrow> es | None \<Rightarrow> []) @
        map (\<lambda>e. \<lparr>pe_listener = index, pe_hostname = me_hostname e, pe_matcher = me_matcher e, pe_rule = me_rule e\<rparr>)
          entries) ports)"

definition port_tables :: "listener_config list \<Rightarrow> match_entry list list \<Rightarrow> (u16 \<times> port_entry list) list" where
  "port_tables ls tables = fold bucket_entries (List.enumerate 0 (zip ls tables)) []"

definition sort_tables ::
  "listener_config list \<Rightarrow> (u16 \<times> port_entry list) list \<Rightarrow> (u16 \<times> port_entry list) list run" where
  "sort_tables ls ports =
     run_map (\<lambda>(port, es). run_bind (sort_port_table es ls) (\<lambda>es'. Returns (port, es'))) ports"

definition served :: "gateway_build list \<Rightarrow> (gateway_build \<times> listener_build) list" where
  "served gws = concat (map (\<lambda>gw. map (Pair gw) (served_listeners gw)) gws)"

definition assemble ::
  "gateway_build list \<Rightarrow> clusters \<Rightarrow> settings \<Rightarrow> status_patch list \<Rightarrow> (config \<times> status_patch list) run" where
  "assemble gws clusters settings status =
     run_bind (run_map listener_config_of (served gws)) (\<lambda>ls0.
       let overridden = map (\<lambda>(gw, _).
             map_of (st_gateway_address_overrides settings) (gateway_key (gb_ref gw)) \<noteq> None) (served gws);
           ls = remap_overridden_listeners ls0 settings overridden;
           used = concat (map (\<lambda>(_, l). concat (map rule_cluster_keys (lb_rules l))) (served gws))
       in run_bind (sort_tables ls (port_tables ls (map (\<lambda>(_, l). lb_table l) (served gws)))) (\<lambda>ports.
            Returns (\<lparr>cf_listeners = ls, cf_ports = ports,
              cf_clusters = filter (\<lambda>(key, _). key \<in> set used) clusters,
              cf_credentials = [], cf_credential_workspaces = [], cf_consumer_rate_limits = [],
              cf_consumers = []\<rparr>,
              note_remapped_ports ls (status @ map (gateway_patch settings) gws))))"

section \<open>The translation\<close>

record translation =
  tr_config :: config
  tr_status :: "status_patch list"

text \<open>The libraries the translation calls.\<close>

record 're libraries =
  lib_base64 :: "string \<Rightarrow> string option"
  lib_regex :: "'re builder"

definition translate :: "'re libraries \<Rightarrow> snapshot \<Rightarrow> settings \<Rightarrow> translation run" where
  "translate libs snap settings =
     (case accept snap settings of (classes, status) \<Rightarrow>
      run_bind (attach (lib_regex libs) snap settings
          (build_gateways (lib_base64 libs) snap settings classes, [], []))
        (\<lambda>(gws, clusters, route_status).
           run_bind (assemble gws clusters settings status) (\<lambda>(cfg, status').
             Returns \<lparr>tr_config = cfg, tr_status = status' @ route_status\<rparr>)))"

end
