(* ===== verification/Rules_Sound.thy ===== *)
theory Rules_Sound
  imports Rules Machine
begin

text \<open>
  What the compilation of an HTTPRoute guarantees: its paths are in the normal form request paths
  are compared in, its backends and mirrors are references the route may follow and stand in the
  table of clusters, the table only grows, and the memo of path patterns changes nothing.
\<close>

section \<open>Paths in normal form\<close>

definition normal :: "string \<Rightarrow> bool" where
  "normal p \<longleftrightarrow> normalize_path p = Returns (Ok p)"

lemma normal_iff:
  "normal p \<longleftrightarrow> prefix ''/'' p \<and> canonical p \<and> valid_utf8 p \<and> squeeze False p = p \<and> \<not> has_dot_segment p"
proof
  assume n: "normal p"
  then have shape: "prefix ''/'' p \<and> \<not> has_dot_segment p \<and> canonical p"
    unfolding normal_def using normalized_shape by blast
  with n show "prefix ''/'' p \<and> canonical p \<and> valid_utf8 p \<and> squeeze False p = p \<and> \<not> has_dot_segment p"
    by (auto simp: normal_def normalize_path_def canonical_decode merge_slashes_squeeze Let_def split: if_splits)
next
  assume "prefix ''/'' p \<and> canonical p \<and> valid_utf8 p \<and> squeeze False p = p \<and> \<not> has_dot_segment p"
  then show "normal p"
    by (auto simp: normal_def normalize_path_def canonical_decode merge_slashes_squeeze Let_def)
qed

lemma canonical_plain: "c \<noteq> CHR ''%'' \<Longrightarrow> canonical (c # s) = canonical s"
  by simp

lemma canonical_init: "canonical (q @ ''/'') \<Longrightarrow> canonical q"
proof (induction q rule: measure_induct_rule [of length])
  case (less q)
  consider "q = []" | c where "q = [c]" | c a where "q = [c, a]" | c a b t where "q = c # a # b # t"
    by (metis list.exhaust)
  then show ?case
  proof cases
    case (4 c a b t)
    show ?thesis
    proof (cases "c = CHR ''%''")
      case True
      with less.prems 4 have "canonical (t @ ''/'')" and t: "t = [] \<or> \<not> is_continuation (hd t)"
        by (cases t; auto)+
      with less.IH [of t] 4 have "canonical t" by simp
      with less.prems 4 True t show ?thesis by simp
    next
      case False
      with less.prems 4 have "canonical ((a # b # t) @ ''/'')" by (simp only: append_Cons canonical_plain [OF False])
      moreover have "length (a # b # t) < length q" using 4 by simp
      ultimately have "canonical (a # b # t)" using less.IH by blast
      with 4 show ?thesis by (simp only: canonical_plain [OF False])
    qed
  qed (use less.prems in \<open>auto split: if_splits dest: hex_byte_ascii\<close>)
qed

lemma length_squeeze: "length (squeeze b s) \<le> length s"
  by (induction s arbitrary: b) (auto intro: le_SucI)

lemma squeeze_append: "\<exists>b'. squeeze b (q @ t) = squeeze b q @ squeeze b' t"
  by (induction q arbitrary: b) auto

lemma squeeze_init: "squeeze b (q @ ''/'') = q @ ''/'' \<Longrightarrow> squeeze b q = q"
proof -
  assume fixed: "squeeze b (q @ ''/'') = q @ ''/''"
  obtain b' where app: "squeeze b (q @ ''/'') = squeeze b q @ squeeze b' ''/''"
    using squeeze_append by blast
  have "length (squeeze b q) = length q"
    using fixed app length_squeeze [of b q] length_squeeze [of b' "''/''"]
    by (auto dest: arg_cong [where f = length])
  with fixed app show ?thesis by (metis append_eq_append_conv)
qed

lemma valid_utf8_init: "valid_utf8 (q @ ''/'') \<Longrightarrow> valid_utf8 q"
proof (induction q rule: measure_induct_rule [of length])
  case (less q)
  show ?case
  proof (cases "q = []")
    case False
    from less.prems have "utf8_head (q @ ''/'') \<noteq> 0" and v: "valid_utf8 (drop (utf8_head (q @ ''/'')) (q @ ''/''))"
      by (subst (asm) valid_utf8.simps, auto split: if_splits)+
    then show ?thesis
    proof (cases "q @ ''/''" rule: utf8_head_cases)
      case (1 c r)
      with False obtain q' where "q = c # q'" "r = q' @ ''/''" by (cases q) auto
      with 1 v less.IH [of q'] show ?thesis by simp
    next
      case (2 m t)
      then have "CHR ''/'' \<notin> set m" and ne: "m \<noteq> []"
        by (auto dest: utf8_multi_high simp: utf8_multi_nonempty)
      with 2(1) have "t \<noteq> []" by (metis append_Nil2 in_set_conv_decomp)
      then obtain t' x where "t = t' @ [x]" by (metis append_butlast_last_id)
      with 2(1) have t: "t = t' @ ''/''" "q = m @ t'" by (metis append_assoc append1_eq_conv)+
      with 2 v ne less.IH [of t'] show ?thesis by (simp add: valid_utf8_multi)
    qed
  qed simp
qed

lemma normal_init:
  assumes "normal (q @ ''/'')" and "q \<noteq> []"
  shows "normal q"
proof -
  from assms(1) have n: "prefix ''/'' (q @ ''/'')" "canonical (q @ ''/'')" "valid_utf8 (q @ ''/'')"
    "squeeze False (q @ ''/'') = q @ ''/''" "\<not> has_dot_segment (q @ ''/'')"
    by (simp_all add: normal_iff)
  have "\<not> has_dot_segment q"
    using n(5) split_on_append [of "CHR ''/''" q "[]"] by (simp add: has_dot_segment_def)
  with n(1) assms(2) canonical_init [OF n(2)] valid_utf8_init [OF n(3)] squeeze_init [OF n(4)]
  show ?thesis by (cases q) (simp_all add: normal_iff)
qed

lemma normal_pop_slashes: "normal p \<Longrightarrow> normal (pop_slashes p)"
proof (induction p rule: pop_slashes.induct)
  case (1 p)
  show ?case
  proof (cases "1 < length p \<and> last p = CHR ''/''")
    case True
    then have "p \<noteq> []" by auto
    with True have "butlast p @ ''/'' = p" by (metis append_butlast_last_id)
    moreover have "length (butlast p) \<noteq> 0" using True by simp
    then have "butlast p \<noteq> []" by blast
    ultimately have "normal (butlast p)" using "1.prems" normal_init [of "butlast p"] by simp
    with 1(1) True have "normal (pop_slashes (butlast p))" by blast
    with True show ?thesis by (subst pop_slashes.simps) simp
  next
    case False
    with "1.prems" show ?thesis by (subst pop_slashes.simps) auto
  qed
qed

fun path_ready :: "path_match \<Rightarrow> bool" where
  "path_ready (Exact p) \<longleftrightarrow> normal p \<and> CHR '';'' \<notin> set p"
| "path_ready (Prefix p) \<longleftrightarrow> normal p \<and> CHR '';'' \<notin> set p \<and> (p = ''/'' \<or> last p \<noteq> CHR ''/'')"
| "path_ready (Regex p) \<longleftrightarrow> True"

text \<open>Decoding never makes a semicolon: an escaped one stays escaped.\<close>

lemma semicolon_class: "\<not> is_ascii_hexdigit CHR '';''" "\<not> unreserved CHR '';''"
  by code_simp+

lemma decode_no_semicolon: "decode_path s = Ok d \<Longrightarrow> CHR '';'' \<notin> set s \<Longrightarrow> CHR '';'' \<notin> set d"
proof (induction s arbitrary: d rule: measure_induct_rule [of length])
  case (less s)
  show ?case
  proof (cases s)
    case (Cons c r)
    show ?thesis
    proof (cases "c = CHR ''%''")
      case True
      with less.prems Cons obtain a b t d' where e: "r = a # b # t" "is_ascii_hexdigit a"
          "is_ascii_hexdigit b" "decode_path t = Ok d'" "d = rewritten_escape a b @ d'"
        by (auto simp: decode_path_escape)
      have "is_ascii_hexdigit (ascii_upper a)" "is_ascii_hexdigit (ascii_upper b)"
        by (rule hexdigit_upper [OF e(2)], rule hexdigit_upper [OF e(3)])
      then have "CHR '';'' \<notin> {ascii_upper a, ascii_upper b}"
        and "unreserved (escaped_byte a b) \<Longrightarrow> CHR '';'' \<noteq> escaped_byte a b"
        using semicolon_class by fastforce+
      then have "CHR '';'' \<notin> set (rewritten_escape a b)" by (simp add: rewritten_escape_def)
      moreover have "CHR '';'' \<notin> set d'" using less.IH [of t d'] less.prems(2) e Cons by simp
      ultimately show ?thesis by (simp add: e)
    next
      case False
      with less.prems Cons obtain d' where "decode_path r = Ok d'" "d = c # d'"
        by (auto simp: decode_path_plain)
      with less.IH [of r d'] less.prems Cons show ?thesis by simp
    qed
  qed (use less.prems in simp)
qed

lemma set_squeeze: "set (squeeze b s) \<subseteq> set s"
  by (induction s arbitrary: b) auto

lemma normalized_path_Ok:
  assumes "normalized_path kind v = Returns (Ok p)"
  shows "normal p \<and> CHR '';'' \<notin> set p"
proof -
  from assms have v: "CHR '';'' \<notin> set v" and n: "normalize_path v = Returns (Ok p)"
    by (auto simp: normalized_path_def split: if_splits run.splits sum.splits)
  from n have "CHR '';'' \<notin> set p"
  proof (cases rule: normalize_path_Ok)
    case (path decoded)
    then show ?thesis using decode_no_semicolon [OF path(2) v] set_squeeze by auto
  qed simp
  with n show ?thesis using normalize_path_idem by (simp add: normal_def)
qed

lemma pop_slashes_shape:
  "set (pop_slashes p) \<subseteq> set p \<and> (pop_slashes p = [] \<longrightarrow> p = []) \<and>
   (1 < length (pop_slashes p) \<longrightarrow> last (pop_slashes p) \<noteq> CHR ''/'')"
proof (induction p rule: pop_slashes.induct)
  case (1 p)
  show ?case
  proof (cases "1 < length p \<and> last p = CHR ''/''")
    case True
    then have "butlast p \<noteq> []" by (metis diff_is_0_eq length_0_conv length_butlast not_le)
    with 1 True show ?thesis by (subst (1 2 3 4) pop_slashes.simps) (auto dest: in_set_butlastD)
  next
    case False
    then show ?thesis by (subst (1 2 3 4) pop_slashes.simps) auto
  qed
qed

lemma compile_path_ready: "compile_path build pm = Returns (Ok p) \<Longrightarrow> path_ready p"
proof -
  assume c: "compile_path build pm = Returns (Ok p)"
  have root: "normal ''/''" unfolding normal_def by code_simp
  have "path_ready (Prefix (normalize_prefix q))" if "normal q" "CHR '';'' \<notin> set q" for q
  proof -
    have "q \<noteq> []" and "prefix ''/'' q" using that(1) by (auto simp: normal_iff)
    note pop = pop_slashes_shape [of q]
    have n: "normalize_prefix q = pop_slashes q"
      using pop \<open>q \<noteq> []\<close> by (auto simp: normalize_prefix_def Let_def)
    have np: "normal (pop_slashes q)" by (rule normal_pop_slashes [OF that(1)])
    then have "prefix ''/'' (pop_slashes q)" by (simp add: normal_iff)
    then have "pop_slashes q = ''/'' \<or> 1 < length (pop_slashes q)" by (auto simp: prefix_def)
    with np pop that(2) show ?thesis by (auto simp: n)
  qed
  with c root show ?thesis
    by (auto simp: compile_path_def Let_def run_bind_Returns split: option.splits if_splits sum.splits
        dest: normalized_path_Ok)
qed

section \<open>The memo of path patterns\<close>

definition memo_ok :: "'re builder \<Rightarrow> regex_memo \<Rightarrow> bool" where
  "memo_ok build memo \<longleftrightarrow> length memo \<le> path_regex_memo_capacity \<and>
     (\<forall>(p, v) \<in> set memo. v = path_regex_verdict build p)"

abbreviation memo_step :: "'re builder \<Rightarrow> string \<Rightarrow> regex_memo \<Rightarrow> regex_memo \<times> (regex_error + unit)" where
  "memo_step build p memo \<equiv> prod.swap (check_path_regex build p memo)"

lemma length_aput: "length (aput k v m) \<le> Suc (length m)"
  by (induction k v m rule: aput.induct) auto

lemma set_aput: "set (aput k v m) \<subseteq> insert (k, v) (set m)"
  by (induction k v m rule: aput.induct) auto

lemma memo_ok_check: "memo_ok build memo \<Longrightarrow> memo_ok build (snd (check_path_regex build p memo))"
  using length_aput [of p "path_regex_verdict build p" memo] set_aput [of p "path_regex_verdict build p"]
  by (fastforce simp: memo_ok_def check_path_regex_def Let_def path_regex_memo_capacity_def split: option.splits)

interpretation memo: machine "[]" "memo_step build" "memo_ok build" for build
  by unfold_locales (simp_all add: memo_ok_def [of _ "[]"] memo_ok_check)

lemma memo_verdict: "memo_ok build memo \<Longrightarrow> fst (check_path_regex build p memo) = path_regex_verdict build p"
  by (auto simp: memo_ok_def check_path_regex_def Let_def split: option.splits dest: map_of_SomeD)

text \<open>
  Remembering verdicts changes nothing: whatever patterns were checked before, in whatever
  order and whether or not the memo was emptied in between, every answer is the verdict of
  compiling the pattern anew, and the memo never holds more than its capacity.
\<close>

theorem check_path_regex_transparent:
  "run_outputs (memo_step build) ps [] = map (path_regex_verdict build) ps \<and>
   length (run_state (memo_step build) ps []) \<le> path_regex_memo_capacity"
proof
  have "run_outputs (memo_step build) ps memo = map (path_regex_verdict build) ps" if "memo_ok build memo" for memo
    using that
    by (induction ps arbitrary: memo)
      (simp_all add: run_steps_Cons memo_verdict memo_ok_check del: run_steps.simps(2))
  then show "run_outputs (memo_step build) ps [] = map (path_regex_verdict build) ps"
    using memo.start_ok by blast
  show "length (run_state (memo_step build) ps []) \<le> path_regex_memo_capacity"
    using memo.run_ok [of build ps] by (simp add: memo_ok_def)
qed

section \<open>References and the table of clusters\<close>

text \<open>A reference of a route that was followed to a Service, and the key of its cluster.\<close>

definition reaches :: "snapshot \<Rightarrow> object_ref \<Rightarrow> http_backend_ref \<Rightarrow> string \<Rightarrow> bool" where
  "reaches snap rref b key \<longleftrightarrow>
     (\<exists>sref port svc svc_port. backend_service b rref snap = Ok (sref, port, svc, svc_port) \<and>
        key = cluster_key (ref_namespace sref) (ref_name sref) port)"

text \<open>Such a reference stays in the route's namespace, or a grant opens the other one.\<close>

lemma reachesD:
  assumes "reaches snap rref b key"
  obtains ns port svc where "ns = backend_namespace b rref" and "br_port b = Some port"
    and "key = cluster_key ns (br_name b) port"
    and "map_of (sn_services snap) (ObjectRef ns (br_name b)) = Some svc"
    and "port \<in> svp_port ` set (svs_ports (sv_spec svc))"
    and "ns = ref_namespace rref \<or>
      permits snap gateway_group ''HTTPRoute'' (ref_namespace rref) [] ''Service'' ns (br_name b)"
  using assms
  by (auto simp: reaches_def backend_service_def Let_def split: if_splits option.splits
      dest!: find_SomeD)

definition cluster_of :: "snapshot \<Rightarrow> string \<Rightarrow> cluster \<Rightarrow> bool" where
  "cluster_of snap key c \<longleftrightarrow>
     (\<exists>sref port svc svc_port tls. map_of (sn_services snap) sref = Some svc \<and>
        svc_port \<in> set (svs_ports (sv_spec svc)) \<and> svp_port svc_port = port \<and>
        key = cluster_key (ref_namespace sref) (ref_name sref) port \<and>
        resolve_backend_tls sref svc (svp_name svc_port) snap = Ok tls \<and>
        c = (build_cluster (svp_name svc_port) sref snap)\<lparr>cl_tls := tls\<rparr>)"

definition clusters_ok :: "snapshot \<Rightarrow> clusters \<Rightarrow> bool" where
  "clusters_ok snap cl \<longleftrightarrow> ordered cl \<and> (\<forall>(k, c) \<in> set cl. cluster_of snap k c)"

definition extends :: "clusters \<Rightarrow> clusters \<Rightarrow> bool" where
  "extends cl cl' \<longleftrightarrow> (\<forall>k c. map_of cl k = Some c \<longrightarrow> map_of cl' k = Some c)"

lemma extends_refl [simp]: "extends cl cl"
  by (simp add: extends_def)

lemma extends_trans: "extends a b \<Longrightarrow> extends b c \<Longrightarrow> extends a c"
  by (simp add: extends_def)

lemma extends_key: "extends cl cl' \<Longrightarrow> map_of cl k \<noteq> None \<Longrightarrow> map_of cl' k \<noteq> None"
  unfolding extends_def by (metis not_None_eq)

lemma clusters_ok_empty [simp]: "clusters_ok snap []"
  by (simp add: clusters_ok_def)

lemma resolve_backend_sound:
  assumes "resolve_backend b rref snap cl = (res, cl')" and "clusters_ok snap cl"
  shows "clusters_ok snap cl' \<and> extends cl cl' \<and>
    (\<forall>key. res = Ok key \<longrightarrow> reaches snap rref b key \<and> map_of cl' key \<noteq> None)"
proof (cases "backend_service b rref snap")
  case (Inl e)
  with assms show ?thesis by (auto simp: resolve_backend_def)
next
  case (Inr q)
  obtain sref port svc sp where q: "q = (sref, port, svc, sp)" by (cases q)
  let ?key = "cluster_key (ref_namespace sref) (ref_name sref) port"
  have reach: "reaches snap rref b ?key" using Inr q by (auto simp: reaches_def)
  have svc: "map_of (sn_services snap) sref = Some svc" "sp \<in> set (svs_ports (sv_spec svc))" "svp_port sp = port"
    using Inr q by (auto simp: backend_service_def Let_def split: if_splits option.splits dest!: find_SomeD)
  show ?thesis
  proof (cases "map_of cl ?key \<noteq> None \<or> (\<exists>e. resolve_backend_tls sref svc (svp_name sp) snap = Err e)")
    case True
    with assms Inr q reach show ?thesis
      by (auto simp: resolve_backend_def Let_def split: if_splits sum.splits)
  next
    case False
    then obtain tls where tls: "resolve_backend_tls sref svc (svp_name sp) snap = Ok tls"
      and new: "map_of cl ?key = None"
      by (cases "resolve_backend_tls sref svc (svp_name sp) snap") auto
    let ?c = "(build_cluster (svp_name sp) sref snap)\<lparr>cl_tls := tls\<rparr>"
    have eq: "res = Ok ?key" "cl' = bput ?key ?c cl"
      using assms(1) Inr q tls new by (simp_all add: resolve_backend_def Let_def)
    have "cluster_of snap ?key ?c" unfolding cluster_of_def using svc tls by blast
    then have "clusters_ok snap cl'"
      using assms(2) set_bput [of ?key ?c cl] unfolding clusters_ok_def eq by auto
    moreover have "map_of cl' = (map_of cl)(?key \<mapsto> ?c)"
      using assms(2) by (simp add: eq clusters_ok_def)
    ultimately show ?thesis using reach new eq by (auto simp: extends_def)
  qed
qed

text \<open>The same for a state of references, and for a run over several of them.\<close>

definition follows :: "snapshot \<Rightarrow> object_ref \<Rightarrow> http_backend_ref set \<Rightarrow> clusters \<Rightarrow> string \<Rightarrow> bool" where
  "follows snap rref refs cl key \<longleftrightarrow> map_of cl key \<noteq> None \<and> (\<exists>b \<in> refs. reaches snap rref b key)"

lemma follows_mono: "follows snap rref refs cl key \<Longrightarrow> extends cl cl' \<Longrightarrow> refs \<subseteq> refs' \<Longrightarrow>
    follows snap rref refs' cl' key"
  using extends_key unfolding follows_def by blast

lemma resolve_ref_sound:
  assumes "resolve_ref snap rref b st = (res, st')" and "clusters_ok snap (snd st)"
  shows "clusters_ok snap (snd st') \<and> extends (snd st) (snd st') \<and>
    (\<forall>key. res = Some key \<longrightarrow> follows snap rref {b} (snd st') key)"
proof -
  obtain r cl where "resolve_backend b rref snap (snd st) = (r, cl)" by fastforce
  with resolve_backend_sound [OF this assms(2)] assms(1) show ?thesis
    by (auto simp: resolve_ref_def follows_def split: prod.splits sum.splits)
qed

lemma resolve_mirror_sound:
  assumes "resolve_mirror snap rref mb st = (res, st')" and "clusters_ok snap (snd st)"
  shows "clusters_ok snap (snd st') \<and> extends (snd st) (snd st') \<and>
    (\<forall>key. res = Some key \<longrightarrow> follows snap rref (set_option mb) (snd st') key)"
proof (cases mb)
  case None
  with assms show ?thesis by (simp add: resolve_mirror_def)
next
  case (Some b)
  with assms(1) have "resolve_ref snap rref b st = (res, st')" by (simp add: resolve_mirror_def)
  from resolve_ref_sound [OF this assms(2)] Some show ?thesis by simp
qed

lemma compile_backends_sound:
  assumes "compile_backends snap rref bs out st = (res, st')" and "clusters_ok snap (snd st)"
  shows "clusters_ok snap (snd st') \<and> extends (snd st) (snd st') \<and>
    (\<forall>ws. res = Ok ws \<longrightarrow> (\<forall>w \<in> set ws. w \<in> set out \<or>
       (\<forall>key. wb_cluster w = Some key \<longrightarrow> follows snap rref (set bs) (snd st') key)))"
  using assms
proof (induction snap rref bs out st rule: compile_backends.induct)
  case (2 snap rref b bs out st)
  show ?case
  proof (cases "br_filters b = []")
    case True
    obtain c st1 where r: "resolve_ref snap rref b st = (c, st1)" by (rule prod.exhaust)
    note one = resolve_ref_sound [OF r "2.prems"(2)]
    let ?w = "\<lparr>wb_cluster = c, wb_weight = weight_of b\<rparr>"
    have run: "compile_backends snap rref bs (out @ [?w]) st1 = (res, st')"
      using "2.prems"(1) True r by simp
    note rest = "2.IH" [OF _ r [symmetric] run]
    from rest True one have IH: "clusters_ok snap (snd st')" "extends (snd st1) (snd st')"
      "\<forall>ws. res = Ok ws \<longrightarrow> (\<forall>w \<in> set ws. w \<in> set out \<or> w = ?w \<or>
         (\<forall>key. wb_cluster w = Some key \<longrightarrow> follows snap rref (set bs) (snd st') key))"
      by auto
    have "follows snap rref (set (b # bs)) (snd st') key" if "c = Some key" for key
      using one that follows_mono [OF _ IH(2), of snap rref "{b}" key "set (b # bs)"] by simp
    moreover have "follows snap rref (set (b # bs)) (snd st') key"
      if "follows snap rref (set bs) (snd st') key" for key
      using follows_mono [OF that extends_refl, of "set (b # bs)"] by auto
    ultimately show ?thesis
      using IH extends_trans [OF conjunct1 [OF conjunct2 [OF one]] IH(2)] by fastforce
  next
    case False
    with "2.prems" show ?thesis by auto
  qed
qed auto

section \<open>Rules and routes\<close>

definition rule_clusters :: "route_rule \<Rightarrow> string set" where
  "rule_clusters rule = {k. \<exists>w \<in> set (rr_backends rule). wb_cluster w = Some k} \<union>
     {k. \<exists>m. f_mirror (rr_filters rule) = Some m \<and> mi_cluster m = k}"

definition rule_refs :: "http_route_rule \<Rightarrow> http_backend_ref set" where
  "rule_refs r = set (hrr_backend_refs r) \<union> set_option (mirror_ref r)"

definition route_refs :: "http_route \<Rightarrow> http_backend_ref set" where
  "route_refs route = (\<Union>r \<in> set (hrs_rules (hr_spec route)). rule_refs r)"

text \<open>What a compiled rule promises, relative to the references and the table.\<close>

definition rule_sound ::
  "snapshot \<Rightarrow> object_ref \<Rightarrow> http_backend_ref set \<Rightarrow> clusters \<Rightarrow> route_rule \<Rightarrow> bool" where
  "rule_sound snap rref refs cl rule \<longleftrightarrow> rr_route rule = show_ref rref \<and> rr_plugins rule = [] \<and>
     rr_matches rule \<noteq> [] \<and> (\<forall>m \<in> set (rr_matches rule). path_ready (rm_path m)) \<and>
     (\<forall>key \<in> rule_clusters rule. follows snap rref refs cl key)"

lemma rule_sound_mono:
  "rule_sound snap rref refs cl rule \<Longrightarrow> extends cl cl' \<Longrightarrow> refs \<subseteq> refs' \<Longrightarrow> rule_sound snap rref refs' cl' rule"
  using follows_mono unfolding rule_sound_def by blast

lemma compile_match_ready: "compile_match build m = Returns (Ok rm) \<Longrightarrow> path_ready (rm_path rm)"
  by (cases "compile_path build (hrm_path m)")
    (auto simp: compile_match_def split: sum.splits dest: compile_path_ready)

lemma compile_matches_ready:
  "compile_matches build ms = Returns (Ok rms) \<Longrightarrow>
   length rms = length ms \<and> (\<forall>m \<in> set rms. path_ready (rm_path m))"
proof (induction build ms arbitrary: rms rule: compile_matches.induct)
  case (2 build m ms)
  from "2.prems" obtain r where r: "compile_match build m = Returns r" by (auto simp: run_bind_Returns)
  with "2.prems" obtain rm where rm: "r = Ok rm" by (cases r) auto
  with "2.prems" r obtain rest where "compile_matches build ms = Returns (Ok rest)" "rms = rm # rest"
    by (auto simp: run_bind_Returns)
  with "2.IH" compile_match_ready r rm show ?case by auto
qed simp

lemma filter_loop_mirror:
  "filter_loop mc seen fs out = Ok out' \<Longrightarrow> f_mirror out \<in> {None, map_option (\<lambda>c. \<lparr>mi_cluster = c\<rparr>) mc} \<Longrightarrow>
   f_mirror out' \<in> {None, map_option (\<lambda>c. \<lparr>mi_cluster = c\<rparr>) mc}"
proof (induction mc seen fs out rule: filter_loop.induct)
  case (2 mc seen f fs out)
  from "2.prems"(1) obtain o1 where step: "compile_filter mc f out = Ok o1" and seen: "rf_type f \<notin> set seen"
    and rest: "filter_loop mc (rf_type f # seen) fs o1 = Ok out'"
    by (auto split: if_splits sum.splits)
  have "f_mirror o1 \<in> {None, map_option (\<lambda>c. \<lparr>mi_cluster = c\<rparr>) mc}"
    using step "2.prems"(2)
    by (auto simp: compile_filter_def compile_mirror_def split: if_splits option.splits)
  with "2.IH" [OF seen step rest] show ?case by blast
qed simp

lemma compile_filters_mirror:
  assumes "compile_filters fs po mc = Ok out" and "f_mirror out = Some m"
  shows "mc = Some (mi_cluster m)"
proof -
  from assms(1) have "filter_loop mc [] fs default_filters = Ok out"
    by (auto simp: compile_filters_def split: sum.splits if_splits)
  from filter_loop_mirror [OF this] assms(2) show ?thesis by (cases mc) (auto simp: default_filters_def)
qed

lemma compile_rule_sound:
  assumes "compile_rule build snap rref route index r st = Returns (res, st')" and "clusters_ok snap (snd st)"
  shows "clusters_ok snap (snd st') \<and> extends (snd st) (snd st') \<and>
    (\<forall>rule. res = Ok rule \<longrightarrow> rule_sound snap rref (rule_refs r) (snd st') rule)"
proof -
  from assms(1) obtain ms where ms: "compile_matches build (raw_matches r) = Returns ms"
    by (auto simp: compile_rule_def run_bind_Returns)
  show ?thesis
  proof (cases ms)
    case (Inl e)
    with assms ms show ?thesis by (auto simp: compile_rule_def)
  next
    case (Inr matches)
    obtain mc st1 where mir: "resolve_mirror snap rref (mirror_ref r) st = (mc, st1)" by (rule prod.exhaust)
    note m1 = resolve_mirror_sound [OF mir assms(2)]
    let ?fs = "compile_filters (hrr_filters r) (list_all (\<lambda>m. is_prefix_path (rm_path m)) matches) mc"
    obtain bres st2 where bk: "compile_backends snap rref (hrr_backend_refs r) [] st1 = (bres, st2)"
      by (rule prod.exhaust)
    note b2 = compile_backends_sound [OF bk conjunct1 [OF m1]]
    have ext: "extends (snd st) (snd st2)" using m1 b2 extends_trans by blast
    have ready: "matches \<noteq> []" "\<forall>m \<in> set matches. path_ready (rm_path m)"
      using compile_matches_ready [of build "raw_matches r" matches] ms Inr by (auto simp: raw_matches_def split: if_splits)
    have mirror: "follows snap rref (rule_refs r) (snd st2) (mi_cluster m)"
      if "?fs = Ok fs" "f_mirror fs = Some m" for fs m
      using compile_filters_mirror [OF that] m1 b2
        follows_mono [of snap rref "set_option (mirror_ref r)" "snd st1" "mi_cluster m" "snd st2" "rule_refs r"]
      by (simp add: rule_refs_def)
    have backends: "follows snap rref (rule_refs r) (snd st2) key"
      if "bres = Ok ws" "w \<in> set ws" "wb_cluster w = Some key" for ws w key
      using b2 that follows_mono [OF _ extends_refl, of snap rref "set (hrr_backend_refs r)" "snd st2" key "rule_refs r"]
      by (simp add: rule_refs_def)
    show ?thesis
      using assms(1) ms Inr mir bk m1 b2 ext ready mirror backends
      by (auto simp: compile_rule_def rule_sound_def rule_clusters_def split: sum.splits)
  qed
qed

lemma compile_rules_sound:
  assumes "compile_rules build snap rref route index rs out st = Returns (res, st')"
    and "clusters_ok snap (snd st)" and "\<forall>rule \<in> set out. rule_sound snap rref refs (snd st) rule"
    and "(\<Union>r \<in> set rs. rule_refs r) \<subseteq> refs"
  shows "clusters_ok snap (snd st') \<and> extends (snd st) (snd st') \<and>
    (\<forall>rules. res = Ok rules \<longrightarrow> (\<forall>rule \<in> set rules. rule_sound snap rref refs (snd st') rule))"
  using assms
proof (induction build snap rref route index rs out st rule: compile_rules.induct)
  case (2 build snap rref route index r rs out st)
  from "2.prems"(1) obtain one st1 where one: "compile_rule build snap rref route index r st = Returns (one, st1)"
    by (auto simp: run_bind_Returns)
  note s1 = compile_rule_sound [OF one "2.prems"(2)]
  show ?case
  proof (cases one)
    case (Inl e)
    with "2.prems"(1) one s1 show ?thesis by auto
  next
    case (Inr rule)
    have rest: "compile_rules build snap rref route (Suc index) rs (out @ [rule]) st1 = Returns (res, st')"
      using "2.prems"(1) one Inr by simp
    have "\<forall>x \<in> set (out @ [rule]). rule_sound snap rref refs (snd st1) x"
      using "2.prems"(3,4) s1 Inr rule_sound_mono by (fastforce intro: rule_sound_mono [OF _ extends_refl])
    from "2.IH" [OF Inr rest conjunct1 [OF s1] this] "2.prems"(4) s1 show ?thesis
      using extends_trans by auto
  qed
qed auto

lemma compile_route_sound:
  assumes "compile_route build route rref snap cl = Returns (res, cl')" and "clusters_ok snap cl"
  shows "clusters_ok snap cl' \<and> extends cl cl' \<and>
    (\<forall>c. res = Ok c \<longrightarrow> (\<forall>rule \<in> set (co_rules c). rule_sound snap rref (route_refs route) cl' rule))"
proof -
  from assms(1) obtain r e where run:
    "compile_rules build snap rref route 0 (hrs_rules (hr_spec route)) [] (None, cl) = Returns (r, e, cl')"
    by (auto simp: compile_route_def run_bind_Returns)
  have "r = Ok (co_rules c)" if "res = Ok c" for c
    using assms(1) run that by (cases r) (auto simp: compile_route_def)
  with compile_rules_sound [OF run, of "route_refs route"] assms(2) show ?thesis
    by (simp add: route_refs_def)
qed

end
