(* ===== verification/Attach_Sound.thy ===== *)
theory Attach_Sound
  imports Translate Rules_Sound
begin

text \<open>
  What attaching routes guarantees of the listeners under construction: their settled part and
  their conflicts stay, and whatever stands in a listener's table got there through a parent
  reference that names the Gateway and fits the listener, from a route the listener admits, under
  hostnames both sides name and no more specific listener claims.
\<close>

section \<open>Adding rules to a table\<close>

definition table_ok :: "(route_rule \<Rightarrow> string option \<Rightarrow> route_match \<Rightarrow> bool) \<Rightarrow> listener_build \<Rightarrow> bool" where
  "table_ok P l \<longleftrightarrow> (\<forall>e \<in> set (lb_table l). me_rule e < length (lb_rules l) \<and>
     P (lb_rules l ! me_rule e) (me_hostname e) (me_matcher e))"

lemma table_ok_mono: "table_ok P l \<Longrightarrow> (\<And>r h m. P r h m \<Longrightarrow> Q r h m) \<Longrightarrow> table_ok Q l"
  unfolding table_ok_def by blast

lemma rules_add_route [simp]: "lb_rules (add_route rules hosts l) = lb_rules l @ rules"
  unfolding add_route_def by (induction rules arbitrary: l) (simp_all add: add_rule_def)

lemma table_ok_add_rule:
  assumes "table_ok P l" and "\<And>h m. h \<in> set hosts \<Longrightarrow> m \<in> set (rr_matches r) \<Longrightarrow> P r h m"
  shows "table_ok P (add_rule hosts r l)"
  using assms unfolding table_ok_def add_rule_def rule_entries_def
  by (auto simp: nth_append)

lemma table_ok_add_route:
  assumes "table_ok P l"
    and "\<And>r h m. r \<in> set rules \<Longrightarrow> h \<in> set (entry_hosts hosts) \<Longrightarrow> m \<in> set (rr_matches r) \<Longrightarrow> P r h m"
  shows "table_ok P (add_route rules hosts l)"
  using assms unfolding add_route_def
proof (induction rules arbitrary: l)
  case (Cons r rules)
  have "table_ok P (add_rule (entry_hosts hosts) r l)"
    by (rule table_ok_add_rule [OF Cons.prems(1)]) (simp add: Cons.prems(2))
  from Cons.IH [OF this] Cons.prems(2) show ?case by simp
qed simp

lemma add_route_count:
  "add_route rules hosts (l\<lparr>lb_attached_routes := n\<rparr>) = (add_route rules hosts l)\<lparr>lb_attached_routes := n\<rparr>"
proof (induction rules arbitrary: l)
  case (Cons r rules)
  have "add_rule (entry_hosts hosts) r (l\<lparr>lb_attached_routes := n\<rparr>) =
      (add_rule (entry_hosts hosts) r l)\<lparr>lb_attached_routes := n\<rparr>"
    by (simp add: add_rule_def)
  with Cons.IH [of "add_rule (entry_hosts hosts) r l"] show ?case by (simp add: add_route_def)
qed (simp add: add_route_def)

lemma conflict_add_route [simp]: "lb_conflict (add_route rules hosts l) = lb_conflict l"
  unfolding add_route_def by (induction rules arbitrary: l) (simp_all add: add_rule_def)

section \<open>One listener\<close>

text \<open>What stays of a listener, and what else may change.\<close>

definition same_listener :: "listener_build \<Rightarrow> listener_build \<Rightarrow> bool" where
  "same_listener l l' \<longleftrightarrow> settled l' = settled l \<and> lb_conflict l' = lb_conflict l"

lemma same_listener_refl [simp]: "same_listener l l"
  by (simp add: same_listener_def)

lemma same_listener_trans: "same_listener a b \<Longrightarrow> same_listener b c \<Longrightarrow> same_listener a c"
  by (simp add: same_listener_def)

lemma same_listenerD:
  assumes "same_listener l l'"
  shows "lb_name l' = lb_name l" "lb_port l' = lb_port l" "lb_hostname l' = lb_hostname l"
    "lb_protocol l' = lb_protocol l" "lb_allowed l' = lb_allowed l" "lb_tls l' = lb_tls l"
    "programmed l' = programmed l"
  using assms settled_eqD [of l' l] programmed_settled [of l' l] by (simp_all add: same_listener_def)

definition host_yields :: "sibling list \<Rightarrow> nat \<times> nat \<Rightarrow> listener_build \<Rightarrow> http_route \<Rightarrow> string option \<Rightarrow> bool" where
  "host_yields sibs at l route host \<longleftrightarrow>
     (\<exists>hosts0. intersect (lb_hostname l) (hrs_hostnames (hr_spec route)) = Some hosts0 \<and>
        (case host of
           None \<Rightarrow> hosts0 = []
         | Some h \<Rightarrow> h \<in> set hosts0 \<and> \<not> claims (own_port at l sibs) at l sibs h))"

lemma yield_hosts:
  assumes "intersect (lb_hostname l) (hrs_hostnames (hr_spec route)) = Some hosts0"
    and "yield_to_siblings hosts0 at l sibs = Some hosts" and "h \<in> set (entry_hosts hosts)"
  shows "host_yields sibs at l route h"
  using assms unfolding host_yields_def
  by (auto simp: yield_to_siblings_def entry_hosts_def Let_def split: if_splits)

lemma attach_listener_cases:
  assumes "attach_listener cx (li, l) st = (l', st')"
  shows "same_listener l l' \<and>
    ((lb_rules l' = lb_rules l \<and> lb_table l' = lb_table l) \<or>
     (\<exists>c hosts0 hosts. ac_compiled cx = Some c \<and>
        parent_section_ok (ac_pref cx) (lb_name l) (lb_port l) \<and>
        route_admitted (ac_snap cx) (ref_namespace (ac_gateway_ref cx)) (ac_rref cx) (lb_allowed l) \<and>
        intersect (lb_hostname l) (hrs_hostnames (hr_spec (ac_route cx))) = Some hosts0 \<and>
        yield_to_siblings hosts0 (ac_gateway cx, li) l (ac_siblings cx) = Some hosts \<and>
        lb_rules l' = lb_rules (add_route (co_rules c) hosts l) \<and>
        lb_table l' = lb_table (add_route (co_rules c) hosts l)))"
proof -
  obtain oc attached where st: "st = (oc, attached)" by (cases st)
  show ?thesis
    using assms unfolding attach_listener_def st
    by (auto simp: same_listener_def Let_def add_route_count split: if_splits option.splits)
qed

section \<open>The listeners of a Gateway, the Gateways\<close>

text \<open>How a rule came into a listener's table under a hostname.\<close>

definition attached_by ::
  "snapshot \<Rightarrow> object_ref \<Rightarrow> sibling list \<Rightarrow> nat \<times> nat \<Rightarrow> clusters \<Rightarrow> listener_build
     \<Rightarrow> route_rule \<Rightarrow> string option \<Rightarrow> route_match \<Rightarrow> bool" where
  "attached_by snap gref sibs at cl l rule host m \<longleftrightarrow>
     (\<exists>rref route pref. (rref, route) \<in> set (sn_http_routes snap) \<and>
        pref \<in> set (hrs_parent_refs (hr_spec route)) \<and> is_gateway_ref pref \<and> parent_names pref rref gref \<and>
        parent_section_ok pref (lb_name l) (lb_port l) \<and>
        route_admitted snap (ref_namespace gref) rref (lb_allowed l) \<and>
        host_yields sibs at l route host \<and>
        rule_sound snap rref (route_refs route) cl rule \<and> m \<in> set (rr_matches rule))"

definition listener_ok ::
  "snapshot \<Rightarrow> object_ref \<Rightarrow> sibling list \<Rightarrow> nat \<times> nat \<Rightarrow> clusters \<Rightarrow> listener_build \<Rightarrow> bool" where
  "listener_ok snap gref sibs at cl l \<longleftrightarrow> table_ok (attached_by snap gref sibs at cl l) l \<and>
     (\<forall>rule \<in> set (lb_rules l). \<exists>rref route. (rref, route) \<in> set (sn_http_routes snap) \<and>
        rule_sound snap rref (route_refs route) cl rule)"

lemma listener_ok_empty: "lb_rules l = [] \<Longrightarrow> lb_table l = [] \<Longrightarrow> listener_ok snap gref sibs at cl l"
  by (simp add: listener_ok_def table_ok_def)

lemma attached_by_mono:
  "attached_by snap gref sibs at cl l rule host m \<Longrightarrow> extends cl cl' \<Longrightarrow>
   attached_by snap gref sibs at cl' l rule host m"
  unfolding attached_by_def using rule_sound_mono by (meson order_refl)

lemma listener_ok_mono:
  "listener_ok snap gref sibs at cl l \<Longrightarrow> extends cl cl' \<Longrightarrow> listener_ok snap gref sibs at cl' l"
  unfolding listener_ok_def
  using table_ok_mono [of "attached_by snap gref sibs at cl l" l "attached_by snap gref sibs at cl' l"]
    attached_by_mono rule_sound_mono by (meson order_refl)

lemma attached_by_same:
  assumes "same_listener l l'"
  shows "attached_by snap gref sibs at cl l' = attached_by snap gref sibs at cl l"
proof -
  note d = same_listenerD [OF assms]
  have "claims p at l' sibs = claims p at l sibs" for p by (rule ext) (simp add: claims_def d)
  moreover have "own_port at l' sibs = own_port at l sibs" 
    by (simp add: own_port_def d split: option.split)
  ultimately have "host_yields sibs at l' route host = host_yields sibs at l route host" for route host
    by (cases host) (simp_all add: host_yields_def d)
  then show ?thesis by (intro ext) (simp add: attached_by_def d)
qed

text \<open>The promises of the route being attached.\<close>

definition route_offer :: "attach_ctx \<Rightarrow> clusters \<Rightarrow> bool" where
  "route_offer cx cl \<longleftrightarrow> (ac_rref cx, ac_route cx) \<in> set (sn_http_routes (ac_snap cx)) \<and>
     ac_pref cx \<in> set (hrs_parent_refs (hr_spec (ac_route cx))) \<and> is_gateway_ref (ac_pref cx) \<and>
     parent_names (ac_pref cx) (ac_rref cx) (ac_gateway_ref cx) \<and>
     (\<forall>c. ac_compiled cx = Some c \<longrightarrow>
        (\<forall>rule \<in> set (co_rules c). rule_sound (ac_snap cx) (ac_rref cx) (route_refs (ac_route cx)) cl rule))"

lemma attach_listener_ok:
  assumes "attach_listener cx (li, l) st = (l', st')" and "route_offer cx cl"
    and "listener_ok (ac_snap cx) (ac_gateway_ref cx) (ac_siblings cx) (ac_gateway cx, li) cl l"
  shows "same_listener l l' \<and>
    listener_ok (ac_snap cx) (ac_gateway_ref cx) (ac_siblings cx) (ac_gateway cx, li) cl l'"
proof -
  let ?at = "(ac_gateway cx, li)"
  let ?by = "attached_by (ac_snap cx) (ac_gateway_ref cx) (ac_siblings cx) ?at cl l"
  note cases = attach_listener_cases [OF assms(1)]
  have same: "same_listener l l'" using cases by blast
  note by_same = attached_by_same [OF same]
  have old: "table_ok ?by l" using assms(3) by (simp add: listener_ok_def)
  from cases consider "lb_rules l' = lb_rules l" "lb_table l' = lb_table l" |
    c hosts0 hosts where "ac_compiled cx = Some c" "parent_section_ok (ac_pref cx) (lb_name l) (lb_port l)"
      "route_admitted (ac_snap cx) (ref_namespace (ac_gateway_ref cx)) (ac_rref cx) (lb_allowed l)"
      "intersect (lb_hostname l) (hrs_hostnames (hr_spec (ac_route cx))) = Some hosts0"
      "yield_to_siblings hosts0 ?at l (ac_siblings cx) = Some hosts"
      "lb_rules l' = lb_rules l @ co_rules c" "lb_table l' = lb_table (add_route (co_rules c) hosts l)"
    by (auto simp del: split_paired_Ex)
  then show ?thesis
  proof cases
    case 1
    with assms(3) same by_same show ?thesis by (simp add: listener_ok_def table_ok_def)
  next
    case 2
    have sound: "rule_sound (ac_snap cx) (ac_rref cx) (route_refs (ac_route cx)) cl r" if "r \<in> set (co_rules c)" for r
      using assms(2) 2(1) that by (simp add: route_offer_def)
    have "table_ok ?by (add_route (co_rules c) hosts l)"
    proof (rule table_ok_add_route [OF old])
      fix r h m assume "r \<in> set (co_rules c)" and h: "h \<in> set (entry_hosts hosts)" and "m \<in> set (rr_matches r)"
      with sound yield_hosts [OF 2(4,5) h] 2(2,3) assms(2) show "?by r h m"
        unfolding attached_by_def route_offer_def by blast
    qed
    then have "table_ok ?by l'" using 2 by (simp add: table_ok_def)
    moreover have "\<forall>rule \<in> set (lb_rules l'). \<exists>rref route. (rref, route) \<in> set (sn_http_routes (ac_snap cx)) \<and>
        rule_sound (ac_snap cx) rref (route_refs route) cl rule"
      using assms(2,3) sound 2(6) unfolding listener_ok_def route_offer_def by auto
    ultimately show ?thesis using same by_same by (simp add: listener_ok_def)
  qed
qed

text \<open>A Gateway against the one it was before any route was attached.\<close>

definition gateway_ok ::
  "snapshot \<Rightarrow> sibling list \<Rightarrow> clusters \<Rightarrow> nat \<Rightarrow> gateway_build \<Rightarrow> gateway_build \<Rightarrow> bool" where
  "gateway_ok snap sibs cl gi gw0 gw \<longleftrightarrow>
     gw0\<lparr>gb_listeners := []\<rparr> = gw\<lparr>gb_listeners := []\<rparr> \<and>
     length (gb_listeners gw) = length (gb_listeners gw0) \<and>
     (\<forall>li < length (gb_listeners gw0). same_listener (gb_listeners gw0 ! li) (gb_listeners gw ! li) \<and>
        listener_ok snap (gb_ref gw0) sibs (gi, li) cl (gb_listeners gw ! li))"

lemma gateway_okD:
  assumes "gateway_ok snap sibs cl gi gw0 gw"
  shows "gb_ref gw = gb_ref gw0" "gb_rejected gw = gb_rejected gw0" "gb_generation gw = gb_generation gw0"
    "length (gb_listeners gw) = length (gb_listeners gw0)"
proof -
  from assms have eq: "gw0\<lparr>gb_listeners := []\<rparr> = gw\<lparr>gb_listeners := []\<rparr>" by (simp add: gateway_ok_def)
  show "gb_ref gw = gb_ref gw0" using arg_cong [OF eq, of gb_ref] by simp
  show "gb_rejected gw = gb_rejected gw0" using arg_cong [OF eq, of gb_rejected] by simp
  show "gb_generation gw = gb_generation gw0" using arg_cong [OF eq, of gb_generation] by simp
  show "length (gb_listeners gw) = length (gb_listeners gw0)" using assms by (simp add: gateway_ok_def)
qed

lemma gateway_ok_mono: "gateway_ok snap sibs cl gi gw0 gw \<Longrightarrow> extends cl cl' \<Longrightarrow> gateway_ok snap sibs cl' gi gw0 gw"
  using listener_ok_mono unfolding gateway_ok_def by blast

lemma attach_listeners_ok:
  assumes "attach_listeners cx (List.enumerate n ls) st = (ls', st')" and "route_offer cx cl"
    and "\<forall>k < length ls. listener_ok (ac_snap cx) (ac_gateway_ref cx) (ac_siblings cx) (ac_gateway cx, n + k) cl (ls ! k)"
  shows "length ls' = length ls \<and> (\<forall>k < length ls. same_listener (ls ! k) (ls' ! k) \<and>
    listener_ok (ac_snap cx) (ac_gateway_ref cx) (ac_siblings cx) (ac_gateway cx, n + k) cl (ls' ! k))"
  using assms
proof (induction ls arbitrary: n st ls' st')
  case (Cons l ls)
  obtain l1 st1 where one: "attach_listener cx (n, l) st = (l1, st1)" by (rule prod.exhaust)
  obtain ls2 st2 where rest: "attach_listeners cx (List.enumerate (Suc n) ls) st1 = (ls2, st2)" by (rule prod.exhaust)
  have ls': "ls' = l1 # ls2" using Cons.prems(1) one rest by simp
  have "listener_ok (ac_snap cx) (ac_gateway_ref cx) (ac_siblings cx) (ac_gateway cx, n) cl l"
    using Cons.prems(3)[rule_format, of 0] by simp
  note head = attach_listener_ok [OF one Cons.prems(2) this]
  have "\<forall>k < length ls. listener_ok (ac_snap cx) (ac_gateway_ref cx) (ac_siblings cx) (ac_gateway cx, Suc n + k) cl (ls ! k)"
    using Cons.prems(3)[rule_format, of "Suc k" for k] by simp
  note tail = Cons.IH [OF rest Cons.prems(2) this]
  show ?case unfolding ls'
    using head tail by (auto simp: nth_Cons split: nat.split)
qed simp

lemma attach_to_gateway_ok:
  assumes "attach_to_gateway gi gw sibs pref route rref snap cres attached = (gw', oc, attached')"
    and "gateway_ok snap sibs cl gi gw0 gw"
    and "(rref, route) \<in> set (sn_http_routes snap)" and "pref \<in> set (hrs_parent_refs (hr_spec route))"
    and "is_gateway_ref pref" and "parent_names pref rref (gb_ref gw)"
    and "\<And>c rule. cres = Some c \<Longrightarrow> rule \<in> set (co_rules c) \<Longrightarrow> rule_sound snap rref (route_refs route) cl rule"
  shows "gateway_ok snap sibs cl gi gw0 gw'"
proof -
  let ?cx = "\<lparr>ac_gateway = gi, ac_gateway_ref = gb_ref gw, ac_siblings = sibs, ac_pref = pref,
                ac_route = route, ac_rref = rref, ac_snap = snap, ac_compiled = cres\<rparr>"
  from assms(1) obtain ls oc0 where run:
      "attach_listeners ?cx (List.enumerate 0 (gb_listeners gw)) (oc0, attached) = (ls, oc, attached')"
    and gw': "gw' = gw\<lparr>gb_listeners := ls\<rparr>"
    unfolding attach_to_gateway_def Let_def by (auto split: prod.splits)
  have offer: "route_offer ?cx cl" using assms(3-7) by (auto simp: route_offer_def)
  note gd = gateway_okD [OF assms(2)]
  have ok: "\<forall>k < length (gb_listeners gw). listener_ok snap (gb_ref gw) sibs (gi, k) cl (gb_listeners gw ! k)"
    using assms(2) gd by (simp add: gateway_ok_def)
  note all = attach_listeners_ok [OF run offer, simplified, OF ok]
  show ?thesis
    using assms(2) all gd unfolding gw' gateway_ok_def by (auto intro: same_listener_trans)
qed

definition gateways_ok ::
  "snapshot \<Rightarrow> sibling list \<Rightarrow> clusters \<Rightarrow> gateway_build list \<Rightarrow> gateway_build list \<Rightarrow> bool" where
  "gateways_ok snap sibs cl gws0 gws \<longleftrightarrow> length gws = length gws0 \<and>
     (\<forall>gi < length gws0. gateway_ok snap sibs cl gi (gws0 ! gi) (gws ! gi))"

lemma gateways_ok_mono: "gateways_ok snap sibs cl gws0 gws \<Longrightarrow> extends cl cl' \<Longrightarrow> gateways_ok snap sibs cl' gws0 gws"
  using gateway_ok_mono unfolding gateways_ok_def by blast

lemma position_SomeD: "position P xs = Some i \<Longrightarrow> i < length xs \<and> P (xs ! i)"
  by (induction P xs arbitrary: i rule: position.induct) (auto split: if_splits)

lemma our_gatewayD:
  "our_gateway gws pref rref = Some i \<Longrightarrow>
   i < length gws \<and> is_gateway_ref pref \<and> parent_names pref rref (gb_ref (gws ! i))"
  using position_SomeD [of "\<lambda>g. parent_names pref rref (gb_ref g)" gws i]
  by (simp add: our_gateway_def split: if_splits)

lemma attach_parents_ok:
  assumes "attach_parents settings sibs route rref snap cres prefs gws attached = (gws', ps)"
    and "gateways_ok snap sibs cl gws0 gws"
    and "(rref, route) \<in> set (sn_http_routes snap)" and "set prefs \<subseteq> set (hrs_parent_refs (hr_spec route))"
    and "\<And>c rule. cres = Ok c \<Longrightarrow> rule \<in> set (co_rules c) \<Longrightarrow> rule_sound snap rref (route_refs route) cl rule"
  shows "gateways_ok snap sibs cl gws0 gws'"
  using assms
proof (induction settings sibs route rref snap cres prefs gws attached arbitrary: ps rule: attach_parents.induct)
  case (2 settings sibs route rref snap cres pref prefs gws attached)
  show ?case
  proof (cases "our_gateway gws pref rref")
    case None
    with 2 show ?thesis by auto
  next
    case (Some i)
    let ?c = "case cres of Ok c \<Rightarrow> Some c | Err _ \<Rightarrow> None"
    obtain gw' oc attached' where one: "attach_to_gateway i (gws ! i) sibs pref route rref snap ?c attached = (gw', oc, attached')"
      by (metis prod.exhaust)
    obtain gws'' ps'' where rest: "attach_parents settings sibs route rref snap cres prefs (gws[i := gw']) attached' = (gws'', ps'')"
      by (rule prod.exhaust)
    have gws': "gws' = gws''" using "2.prems"(1) Some one rest by (simp del: attach_parents.simps(1))
    note found = our_gatewayD [OF Some]
    then have i: "i < length gws0" using "2.prems"(2) by (simp add: gateways_ok_def)
    have "gateway_ok snap sibs cl i (gws0 ! i) gw'"
      using "2.prems"(2) i found "2.prems"(3-5)
      by (intro attach_to_gateway_ok [OF one]) (auto simp: gateways_ok_def split: sum.splits)
    then have "gateways_ok snap sibs cl gws0 (gws[i := gw'])"
      using "2.prems"(2) found by (auto simp: gateways_ok_def nth_list_update)
    from "2.IH"(2) [OF Some one [symmetric] refl rest [folded gws'] this] "2.prems"(3-5) show ?thesis by auto
  qed
qed simp

section \<open>Every route\<close>

definition attach_ok :: "snapshot \<Rightarrow> sibling list \<Rightarrow> gateway_build list \<Rightarrow> attach_state \<Rightarrow> bool" where
  "attach_ok snap sibs gws0 = (\<lambda>(gws, cl, _). clusters_ok snap cl \<and> gateways_ok snap sibs cl gws0 gws)"

lemma attach_route_ok:
  assumes "attach_route build snap settings sibs (rref, route) (gws, cl, status) = Returns (gws', cl', status')"
    and "clusters_ok snap cl" and "gateways_ok snap sibs cl gws0 gws" and "(rref, route) \<in> set (sn_http_routes snap)"
  shows "clusters_ok snap cl' \<and> gateways_ok snap sibs cl' gws0 gws'"
proof (cases "list_ex (\<lambda>pref. our_gateway gws pref rref \<noteq> None) (hrs_parent_refs (hr_spec route))")
  case False
  with assms show ?thesis by (simp add: attach_route_def)
next
  case True
  let ?m = "if any_listener_admits gws route rref snap then compile_route build route rref snap cl
     else Returns (Ok (not_admitted (om_generation (hr_metadata route))), cl)"
  from assms(1) True obtain cres b where m0: "?m = Returns (cres, b)"
    unfolding attach_route_def by (auto simp: run_bind_Returns)
  obtain g ps where par: "attach_parents settings sibs route rref snap cres (hrs_parent_refs (hr_spec route)) gws [] = (g, ps)"
    by (rule prod.exhaust)
  have eq: "b = cl'" "g = gws'" using assms(1) True m0 par by (auto simp: attach_route_def)
  note m = m0 [unfolded eq] and run = par [unfolded eq]
  have sound: "clusters_ok snap cl' \<and> extends cl cl' \<and>
    (\<forall>c. cres = Ok c \<longrightarrow> (\<forall>rule \<in> set (co_rules c). rule_sound snap rref (route_refs route) cl' rule))"
    using m assms(2) compile_route_sound [of build route rref snap cl cres cl']
    by (auto simp: not_admitted_def split: if_splits)
  have "gateways_ok snap sibs cl' gws0 gws"
    using gateways_ok_mono [OF assms(3)] sound by blast
  from attach_parents_ok [OF run this assms(4) subset_refl] sound show ?thesis by blast
qed

lemma attach_sound:
  assumes "attach build snap settings (gws0, [], status) = Returns (gws, cl, status')"
    and "\<forall>gw \<in> set gws0. \<forall>l \<in> set (gb_listeners gw). lb_rules l = [] \<and> lb_table l = []"
  shows "clusters_ok snap cl \<and> gateways_ok snap (siblings gws0 settings) cl gws0 gws"
proof -
  let ?sibs = "siblings gws0 settings"
  have "attach_ok snap ?sibs gws0 (gws0, [], status)"
    using assms(2) by (auto simp: attach_ok_def gateways_ok_def gateway_ok_def all_set_conv_all_nth intro!: listener_ok_empty)
  then have "attach_ok snap ?sibs gws0 (gws, cl, status')"
  proof (rule run_fold_invariant [OF assms(1) [unfolded attach_def split_conv]])
    fix x s s'
    assume x: "x \<in> set (sn_http_routes snap)" and ok: "attach_ok snap ?sibs gws0 s"
      and run: "attach_route build snap settings ?sibs x s = Returns s'"
    obtain rref route where [simp]: "x = (rref, route)" by (rule prod.exhaust)
    obtain g c t where [simp]: "s = (g, c, t)" by (metis prod.exhaust)
    obtain g' c' t' where [simp]: "s' = (g', c', t')" by (metis prod.exhaust)
    show "attach_ok snap ?sibs gws0 s'"
      using attach_route_ok [of build snap settings ?sibs rref route g c t g' c' t' gws0] x ok run
      by (simp add: attach_ok_def)
  qed
  then show ?thesis by (simp add: attach_ok_def)
qed

end
