(* ===== verification/Served.thy ===== *)
theory Served
  imports Attach_Sound
begin

text \<open>
  Where the served listeners stand: the positions of the programmed listeners, in the order the
  configuration lists them, and the port each of them serves on. The ports known when routes are
  attached (\<open>serving_ports\<close>, from the Gateways) are the ports of the configuration
  (\<open>remap_overridden_listeners\<close>, from the listener ids) as long as no Gateway has a slash in its
  namespace or name, which Kubernetes does not allow.
\<close>

section \<open>Positions\<close>

definition served_at :: "gateway_build list \<Rightarrow> (nat \<times> nat) list" where
  "served_at gws = concat (map (\<lambda>gi. map (Pair gi)
     (filter (\<lambda>li. gb_rejected (gws ! gi) = None \<and> programmed (gb_listeners (gws ! gi) ! li))
       [0..<length (gb_listeners (gws ! gi))])) [0..<length gws])"

definition build_at :: "gateway_build list \<Rightarrow> nat \<times> nat \<Rightarrow> gateway_build \<times> listener_build" where
  "build_at gws = (\<lambda>(gi, li). (gws ! gi, gb_listeners (gws ! gi) ! li))"

definition slot_of :: "settings \<Rightarrow> gateway_build \<times> listener_build \<Rightarrow> remap_slot" where
  "slot_of settings = (\<lambda>(gw, l).
     \<lparr>rs_gateway = gateway_key (gb_ref gw), rs_https = (lb_protocol l = Some Https), rs_port = lb_port l,
      rs_overridden = (map_of (st_gateway_address_overrides settings) (gateway_key (gb_ref gw)) \<noteq> None)\<rparr>)"

lemma enumerate_upt: "List.enumerate 0 xs = map (\<lambda>i. (i, xs ! i)) [0..<length xs]"
  by (rule nth_equalityI) (simp_all add: nth_enumerate_eq)

lemma filter_map_upt: "filter P xs = map ((!) xs) (filter (\<lambda>i. P (xs ! i)) [0..<length xs])"
proof -
  have "filter P xs = filter P (map ((!) xs) [0..<length xs])" by (simp add: map_nth)
  then show ?thesis by (simp add: filter_map comp_def)
qed

lemma served_at_set:
  "(gi, li) \<in> set (served_at gws) \<longleftrightarrow> gi < length gws \<and> li < length (gb_listeners (gws ! gi)) \<and>
     gb_rejected (gws ! gi) = None \<and> programmed (gb_listeners (gws ! gi) ! li)"
  by (auto simp: served_at_def)

lemma distinct_concat_Pair:
  "distinct xs \<Longrightarrow> (\<And>x. distinct (f x)) \<Longrightarrow> distinct (concat (map (\<lambda>x. map (Pair x) (f x)) xs))"
  by (induction xs) (auto simp: distinct_map inj_on_def)

lemma distinct_served_at [simp]: "distinct (served_at gws)"
  unfolding served_at_def by (rule distinct_concat_Pair) simp_all

lemma all_slots_at: "all_slots settings gws = map (\<lambda>p. (p, slot_of settings (build_at gws p))) (served_at gws)"
proof -
  have one: "gateway_slots settings (gi, gws ! gi) =
      map (\<lambda>li. ((gi, li), slot_of settings (build_at gws (gi, li))))
        (filter (\<lambda>li. gb_rejected (gws ! gi) = None \<and> programmed (gb_listeners (gws ! gi) ! li))
          [0..<length (gb_listeners (gws ! gi))])" for gi
    by (cases "gb_rejected (gws ! gi) = None")
      (simp_all add: gateway_slots_def enumerate_upt filter_map comp_def build_at_def slot_of_def)
  then show ?thesis
    by (simp add: all_slots_def served_at_def enumerate_upt comp_def map_concat)
qed

lemma served_served_at: "served gws = map (build_at gws) (served_at gws)"
proof -
  have one: "map (Pair (gws ! gi)) (served_listeners (gws ! gi)) =
      map (\<lambda>li. build_at gws (gi, li))
        (filter (\<lambda>li. gb_rejected (gws ! gi) = None \<and> programmed (gb_listeners (gws ! gi) ! li))
          [0..<length (gb_listeners (gws ! gi))])" for gi
    by (simp add: served_listeners_def build_at_def filter_map_upt [of programmed])
  have "map (\<lambda>gw. map (Pair gw) (served_listeners gw)) gws =
      map (\<lambda>gi. map (Pair (gws ! gi)) (served_listeners (gws ! gi))) [0..<length gws]"
    by (rule nth_equalityI) simp_all
  then show ?thesis
    by (simp add: served_def served_at_def one comp_def map_concat)
qed

section \<open>Serving ports\<close>

definition ported :: "gateway_build list \<Rightarrow> nat \<times> nat \<Rightarrow> u16 option \<Rightarrow> u16" where
  "ported gws p target = (case target of Some q \<Rightarrow> q | None \<Rightarrow> lb_port (snd (build_at gws p)))"

lemma fold_set_port:
  assumes "length ps = length ts" and "distinct ps" and "gi < length ports" and "li < length (ports ! gi)"
    and "\<forall>(g, l) \<in> set ps. g < length ports \<and> l < length (ports ! g)"
  shows "fold (set_port gws) (zip ps ts) ports ! gi ! li =
    (case map_of (zip ps ts) (gi, li) of Some t \<Rightarrow> Some (ported gws (gi, li) t) | None \<Rightarrow> ports ! gi ! li)"
  using assms
proof (induction ps ts arbitrary: ports rule: list_induct2)
  case (Cons p ps t ts)
  obtain g l where p: "p = (g, l)" by (rule prod.exhaust)
  let ?M = "set_port gws (p, t) ports"
  have len: "length ?M = length ports" "\<And>k. k < length ports \<Longrightarrow> length (?M ! k) = length (ports ! k)"
    using Cons.prems(4) by (auto simp: p set_port_def nth_list_update)
  have here: "?M ! gi ! li = (if p = (gi, li) then Some (ported gws p t) else ports ! gi ! li)"
    using Cons.prems by (auto simp: p set_port_def nth_list_update ported_def build_at_def split: option.split)
  have "fold (set_port gws) (zip ps ts) ?M ! gi ! li =
      (case map_of (zip ps ts) (gi, li) of Some t \<Rightarrow> Some (ported gws (gi, li) t) | None \<Rightarrow> ?M ! gi ! li)"
    by (rule Cons.IH) (use Cons.prems len in auto)
  moreover have "p \<notin> set ps" using Cons.prems by simp
  then have "map_of (zip ps ts) p = None" using Cons.hyps by (simp add: map_of_zip_is_None)
  ultimately show ?case using here by (auto split: option.split)
qed simp

definition targets_of :: "settings \<Rightarrow> gateway_build list \<Rightarrow> u16 option list" where
  "targets_of settings gws = remap_targets (map (\<lambda>p. slot_of settings (build_at gws p)) (served_at gws)) settings"

lemma length_targets_of [simp]: "length (targets_of settings gws) = length (served_at gws)"
  by (simp add: targets_of_def)

definition port_of :: "settings \<Rightarrow> gateway_build list \<Rightarrow> nat \<Rightarrow> u16" where
  "port_of settings gws k = ported gws (served_at gws ! k) (targets_of settings gws ! k)"

lemma serving_ports_lookup:
  assumes "gi < length gws" and "li < length (gb_listeners (gws ! gi))"
  shows "serving_ports gws settings ! gi ! li =
    map_option (ported gws (gi, li)) (map_of (zip (served_at gws) (targets_of settings gws)) (gi, li))"
proof -
  let ?M = "map (\<lambda>g. replicate (length (gb_listeners g)) None) gws"
  let ?z = "zip (served_at gws) (targets_of settings gws)"
  have "\<forall>(g, l) \<in> set (served_at gws). g < length ?M \<and> l < length (?M ! g)"
    by (auto simp: served_at_set)
  moreover have "serving_ports gws settings = fold (set_port gws) ?z ?M"
    by (simp add: serving_ports_def all_slots_at comp_def targets_of_def)
  moreover have "fold (set_port gws) ?z ?M ! gi ! li =
      (case map_of ?z (gi, li) of Some t \<Rightarrow> Some (ported gws (gi, li) t) | None \<Rightarrow> ?M ! gi ! li)"
    by (rule fold_set_port) (use calculation(1) assms in simp_all)
  ultimately show ?thesis using assms by (simp split: option.split)
qed

lemma serving_ports_at:
  assumes "k < length (served_at gws)" and "served_at gws ! k = (gi, li)"
  shows "serving_ports gws settings ! gi ! li = Some (port_of settings gws k)"
proof -
  have "(gi, li) \<in> set (served_at gws)" using assms nth_mem by metis
  moreover have "map_of (zip (served_at gws) (targets_of settings gws)) (gi, li) = Some (targets_of settings gws ! k)"
    using map_of_zip_nth [of "served_at gws" "targets_of settings gws" k] assms by simp
  ultimately show ?thesis
    using assms by (simp add: served_at_set serving_ports_lookup port_of_def)
qed

lemma serving_ports_other:
  assumes "gi < length gws" and "li < length (gb_listeners (gws ! gi))" and "(gi, li) \<notin> set (served_at gws)"
  shows "serving_ports gws settings ! gi ! li = None"
  using assms by (simp add: serving_ports_lookup map_of_zip_is_None)

section \<open>Siblings\<close>

lemma in_map_filter: "y \<in> set (List.map_filter f xs) \<longleftrightarrow> (\<exists>x \<in> set xs. f x = Some y)"
  by (induction xs) (auto split: option.split)

lemma siblings_iff:
  "s \<in> set (siblings gws settings) \<longleftrightarrow>
   (\<exists>k gi li protocol. k < length (served_at gws) \<and> served_at gws ! k = (gi, li) \<and>
      lb_protocol (gb_listeners (gws ! gi) ! li) = Some protocol \<and>
      s = \<lparr>si_at = (gi, li), si_port = port_of settings gws k, si_protocol = protocol,
           si_hostname = lb_hostname (gb_listeners (gws ! gi) ! li)\<rparr>)" (is "_ \<longleftrightarrow> ?at s")
proof -
  have "s \<in> set (siblings gws settings) \<longleftrightarrow> (\<exists>gi < length gws. \<exists>li < length (gb_listeners (gws ! gi)).
      sibling_of (serving_ports gws settings) gi (li, gb_listeners (gws ! gi) ! li) = Some s)"
    by (simp add: siblings_def Let_def enumerate_upt in_map_filter Bex_def atLeast0LessThan)
  also have "\<dots> \<longleftrightarrow> ?at s"
  proof
    assume "\<exists>gi < length gws. \<exists>li < length (gb_listeners (gws ! gi)).
      sibling_of (serving_ports gws settings) gi (li, gb_listeners (gws ! gi) ! li) = Some s"
    then obtain gi li where r: "gi < length gws" "li < length (gb_listeners (gws ! gi))"
      and s: "sibling_of (serving_ports gws settings) gi (li, gb_listeners (gws ! gi) ! li) = Some s" by blast
    have "(gi, li) \<in> set (served_at gws)"
      using serving_ports_other [OF r, of settings] s by (cases "(gi, li) \<in> set (served_at gws)") (simp_all add: sibling_of_def)
    then obtain k where k: "k < length (served_at gws)" "served_at gws ! k = (gi, li)"
      by (auto simp: in_set_conv_nth)
    with s serving_ports_at [OF k] show "?at s"
      by (auto simp: sibling_of_def split: option.splits)
  next
    assume "?at s"
    then obtain k gi li protocol where k: "k < length (served_at gws)" "served_at gws ! k = (gi, li)"
      and s: "lb_protocol (gb_listeners (gws ! gi) ! li) = Some protocol"
        "s = \<lparr>si_at = (gi, li), si_port = port_of settings gws k, si_protocol = protocol,
           si_hostname = lb_hostname (gb_listeners (gws ! gi) ! li)\<rparr>" by blast
    have r: "(gi, li) \<in> set (served_at gws)" using k nth_mem by metis
    have "sibling_of (serving_ports gws settings) gi (li, gb_listeners (gws ! gi) ! li) = Some s"
      using s serving_ports_at [OF k] by (simp add: sibling_of_def)
    with r [unfolded served_at_set] show "\<exists>gi < length gws. \<exists>li < length (gb_listeners (gws ! gi)).
      sibling_of (serving_ports gws settings) gi (li, gb_listeners (gws ! gi) ! li) = Some s"
      by blast
  qed
  finally show ?thesis .
qed

lemma own_port_at:
  assumes "k < length (served_at gws)" and "served_at gws ! k = (gi, li)"
    and "lb_protocol (gb_listeners (gws ! gi) ! li) = Some protocol"
  shows "own_port (gi, li) l (siblings gws settings) = port_of settings gws k"
proof -
  obtain s where found: "find (\<lambda>s. si_at s = (gi, li)) (siblings gws settings) = Some s"
  proof (cases "find (\<lambda>s. si_at s = (gi, li)) (siblings gws settings)")
    case None
    have "\<lparr>si_at = (gi, li), si_port = port_of settings gws k, si_protocol = protocol,
        si_hostname = lb_hostname (gb_listeners (gws ! gi) ! li)\<rparr> \<in> set (siblings gws settings)"
      using assms unfolding siblings_iff by blast
    with None show ?thesis by (fastforce simp: find_None)
  qed
  from find_SomeD [OF found] obtain k' where "k' < length (served_at gws)" "served_at gws ! k' = (gi, li)"
      "si_port s = port_of settings gws k'"
    by (auto simp: siblings_iff)
  with assms have "k' = k" by (metis distinct_served_at nth_eq_iff_index_eq)
  with found \<open>si_port s = _\<close> show ?thesis by (simp add: own_port_def)
qed

end
