(* ===== verification/Assemble.thy ===== *)
theory Assemble
  imports Served
begin

text \<open>
  What the assembled configuration holds, in terms of the Gateways it was assembled from: one
  listener per served position, and per port a table that has the entries of the listeners on that
  port, in precedence order.
\<close>

section \<open>Tables by port\<close>

definition table_of :: "(u16 \<times> port_entry list) list \<Rightarrow> u16 \<Rightarrow> port_entry list" where
  "table_of ports p = (case map_of ports p of Some es \<Rightarrow> es | None \<Rightarrow> [])"

definition entry_at :: "nat \<Rightarrow> match_entry \<Rightarrow> port_entry" where
  "entry_at k e = \<lparr>pe_listener = k, pe_hostname = me_hostname e, pe_matcher = me_matcher e, pe_rule = me_rule e\<rparr>"

lemma bucket_entries_table:
  assumes "ordered ports"
  shows "ordered (bucket_entries (k, l, es) ports)"
    and "table_of (bucket_entries (k, l, es) ports) p =
      table_of ports p @ (if lc_port l = p then map (entry_at k) es else [])"
  using assms by (auto simp: bucket_entries_def table_of_def entry_at_def [abs_def] split: option.split)

lemma fold_bucket_entries:
  assumes "ordered ports"
  shows "ordered (fold bucket_entries items ports) \<and>
    table_of (fold bucket_entries items ports) p = table_of ports p @
      concat (map (\<lambda>(k, l, es). if lc_port l = p then map (entry_at k) es else []) items)"
  using assms
proof (induction items arbitrary: ports)
  case (Cons x items)
  obtain k l es where x: "x = (k, l, es)" by (metis prod.exhaust)
  from Cons.IH [OF bucket_entries_table(1) [OF Cons.prems, of k l es]] show ?case
    by (simp add: x bucket_entries_table(2) [OF Cons.prems])
qed simp

lemma port_tables_ordered: "ordered (port_tables ls tables)"
  unfolding port_tables_def using fold_bucket_entries [of "[]"] by simp

lemma port_tables_entries:
  assumes "length tables = length ls"
  shows "pe \<in> set (table_of (port_tables ls tables) p) \<longleftrightarrow>
    (\<exists>k < length ls. lc_port (ls ! k) = p \<and> (\<exists>e \<in> set (tables ! k). pe = entry_at k e))"
proof -
  have "pe \<in> set (table_of (port_tables ls tables) p) \<longleftrightarrow>
      (\<exists>x \<in> set (List.enumerate 0 (zip ls tables)).
         pe \<in> set (case x of (k, l, es) \<Rightarrow> if lc_port l = p then map (entry_at k) es else []))"
    unfolding port_tables_def using fold_bucket_entries [of "[]" "List.enumerate 0 (zip ls tables)" p]
    by (simp add: table_of_def)
  also have "\<dots> \<longleftrightarrow> (\<exists>k < length ls. lc_port (ls ! k) = p \<and> (\<exists>e \<in> set (tables ! k). pe = entry_at k e))"
    using assms by (auto simp: enumerate_upt split: if_splits)
  finally show ?thesis .
qed

lemma sort_tables_Returns:
  assumes "sort_tables ls ports = Returns out"
  shows "out = map (\<lambda>(p, es). (p, arrange ls es)) ports"
proof -
  have "list_all2 (\<lambda>x y. y = (case x of (p, es) \<Rightarrow> (p, arrange ls es))) ports out"
    using assms unfolding sort_tables_def run_map_Returns
    by (rule list_all2_mono) (auto simp: run_bind_Returns sort_port_table_def split: if_splits)
  then show ?thesis by (auto simp: list_all2_conv_all_nth intro: nth_equalityI)
qed

lemma sort_tables_total:
  assumes "\<forall>(p, es) \<in> set ports. \<forall>e \<in> set es. entry_in_range ls e"
  shows "\<exists>out. sort_tables ls ports = Returns out"
  unfolding sort_tables_def using assms
  by (induction ports) (auto simp: sort_port_table_def list_all_iff)

section \<open>The listeners\<close>

lemma gateway_of_id:
  assumes "CHR ''/'' \<notin> set (ref_namespace (gb_ref gw))" and "CHR ''/'' \<notin> set (ref_name (gb_ref gw))"
  shows "gateway_of (listener_id gw l) = gateway_key (gb_ref gw)"
  using assms by (simp add: gateway_of_def listener_id_def gateway_key_def)

definition config_of :: "u16 \<Rightarrow> u16 option \<Rightarrow> gateway_build \<times> listener_build \<Rightarrow> listener_config" where
  "config_of port client_port = (\<lambda>(gw, l).
     \<lparr>lc_id = listener_id gw l, lc_port = port, lc_client_port = client_port,
      lc_protocol = the (lb_protocol l), lc_hostname = lb_hostname l, lc_tls = lb_tls l, lc_rules = lb_rules l\<rparr>)"

lemma listener_configs:
  "run_map listener_config_of (served gws) = Returns ls \<longleftrightarrow>
   (\<forall>(gw, l) \<in> set (served gws). lb_protocol l \<noteq> None) \<and>
   ls = map (\<lambda>(gw, l). config_of (lb_port l) None (gw, l)) (served gws)"
proof -
  have "run_map listener_config_of xs = Returns ls \<longleftrightarrow>
      (\<forall>(gw, l) \<in> set xs. lb_protocol l \<noteq> None) \<and>
      ls = map (\<lambda>(gw, l). config_of (lb_port l) None (gw, l)) xs" for xs
    by (induction xs arbitrary: ls)
      (auto simp: run_bind_Returns listener_config_of_def config_of_def split: option.splits)
  then show ?thesis .
qed

lemma lc_remap:
  assumes "k < length ls" and "length overridden = length ls"
  shows "lc_id (remap_overridden_listeners ls settings overridden ! k) = lc_id (ls ! k)"
    "lc_protocol (remap_overridden_listeners ls settings overridden ! k) = lc_protocol (ls ! k)"
    "lc_hostname (remap_overridden_listeners ls settings overridden ! k) = lc_hostname (ls ! k)"
    "lc_tls (remap_overridden_listeners ls settings overridden ! k) = lc_tls (ls ! k)"
    "lc_rules (remap_overridden_listeners ls settings overridden ! k) = lc_rules (ls ! k)"
  using assms by (auto simp: remap_overridden_listeners_def Let_def move_listener_def split: option.split)

lemma declared_port_remap:
  assumes "k < length ls" and "length overridden = length ls" and "lc_client_port (ls ! k) = None"
  shows "declared_port (remap_overridden_listeners ls settings overridden ! k) = lc_port (ls ! k)"
  using assms
  by (auto simp: remap_overridden_listeners_def Let_def move_listener_def declared_port_def split: option.split)

lemma length_remap_overridden [simp]:
  "length overridden = length ls \<Longrightarrow> length (remap_overridden_listeners ls settings overridden) = length ls"
  by (simp add: remap_overridden_listeners_def Let_def)

section \<open>The configuration\<close>

definition base_configs :: "gateway_build list \<Rightarrow> listener_config list" where
  "base_configs gws = map (\<lambda>(gw, l). config_of (lb_port l) None (gw, l)) (served gws)"

definition overridden_flags :: "settings \<Rightarrow> gateway_build list \<Rightarrow> bool list" where
  "overridden_flags settings gws = map (\<lambda>(gw, _).
     map_of (st_gateway_address_overrides settings) (gateway_key (gb_ref gw)) \<noteq> None) (served gws)"

definition used_keys :: "gateway_build list \<Rightarrow> string list" where
  "used_keys gws = concat (map (\<lambda>(_, l). concat (map rule_cluster_keys (lb_rules l))) (served gws))"

definition assembled :: "gateway_build list \<Rightarrow> clusters \<Rightarrow> settings \<Rightarrow> config \<Rightarrow> bool" where
  "assembled gws cl settings cfg \<longleftrightarrow>
     (\<forall>(gw, l) \<in> set (served gws). lb_protocol l \<noteq> None) \<and>
     cf_listeners cfg = remap_overridden_listeners (base_configs gws) settings (overridden_flags settings gws) \<and>
     cf_ports cfg = map (\<lambda>(p, es). (p, arrange (cf_listeners cfg) es))
       (port_tables (cf_listeners cfg) (map (\<lambda>(_, l). lb_table l) (served gws))) \<and>
     cf_clusters cfg = filter (\<lambda>(key, _). key \<in> set (used_keys gws)) cl"

lemma length_base [simp]:
  "length (base_configs gws) = length (served_at gws)" "length (overridden_flags settings gws) = length (served_at gws)"
  by (simp_all add: base_configs_def overridden_flags_def served_served_at)

lemma nth_base:
  assumes "k < length (served_at gws)" and "build_at gws (served_at gws ! k) = (gw, l)"
  shows "base_configs gws ! k = config_of (lb_port l) None (gw, l)"
    "overridden_flags settings gws ! k =
      (map_of (st_gateway_address_overrides settings) (gateway_key (gb_ref gw)) \<noteq> None)"
  using assms by (simp_all add: base_configs_def overridden_flags_def served_served_at)

lemma served_nth:
  "k < length (served_at gws) \<Longrightarrow> build_at gws (served_at gws ! k) = (gw, l) \<Longrightarrow> (gw, l) \<in> set (served gws)"
  unfolding served_served_at by (metis image_eqI image_set nth_mem)

lemma assembled_protocol:
  assumes "assembled gws cl settings cfg" and "k < length (served_at gws)"
    and "build_at gws (served_at gws ! k) = (gw, l)"
  obtains protocol where "lb_protocol l = Some protocol"
  using assms(1) served_nth [OF assms(2,3)] by (auto simp: assembled_def)

lemma assemble_assembled:
  "assemble gws cl settings status = Returns (cfg, status') \<Longrightarrow> assembled gws cl settings cfg"
  unfolding assemble_def Let_def assembled_def base_configs_def overridden_flags_def used_keys_def
  by (auto simp: run_bind_Returns listener_configs dest: sort_tables_Returns)

lemma assembled_length:
  "assembled gws cl settings cfg \<Longrightarrow> length (cf_listeners cfg) = length (served_at gws)"
  by (simp add: assembled_def)

lemma assembled_listener:
  assumes "assembled gws cl settings cfg" and "k < length (served_at gws)"
    and "build_at gws (served_at gws ! k) = (gw, l)"
  shows "lc_id (cf_listeners cfg ! k) = listener_id gw l"
    "Some (lc_protocol (cf_listeners cfg ! k)) = lb_protocol l"
    "lc_hostname (cf_listeners cfg ! k) = lb_hostname l"
    "lc_tls (cf_listeners cfg ! k) = lb_tls l" "lc_rules (cf_listeners cfg ! k) = lb_rules l"
    "declared_port (cf_listeners cfg ! k) = lb_port l"
proof -
  have ls: "cf_listeners cfg = remap_overridden_listeners (base_configs gws) settings (overridden_flags settings gws)"
    using assms(1) by (simp add: assembled_def)
  obtain protocol where "lb_protocol l = Some protocol" using assembled_protocol [OF assms] .
  with assms(2) show "lc_id (cf_listeners cfg ! k) = listener_id gw l"
    "Some (lc_protocol (cf_listeners cfg ! k)) = lb_protocol l"
    "lc_hostname (cf_listeners cfg ! k) = lb_hostname l"
    "lc_tls (cf_listeners cfg ! k) = lb_tls l" "lc_rules (cf_listeners cfg ! k) = lb_rules l"
    "declared_port (cf_listeners cfg ! k) = lb_port l"
    by (simp_all add: ls lc_remap declared_port_remap nth_base [OF assms(2,3)] config_of_def)
qed

lemma assembled_same_port:
  assumes "assembled gws cl settings cfg" and "i < length (cf_listeners cfg)" and "j < length (cf_listeners cfg)"
    and "lc_port (cf_listeners cfg ! i) = lc_port (cf_listeners cfg ! j)"
  shows "declared_port (cf_listeners cfg ! i) = declared_port (cf_listeners cfg ! j)"
proof -
  have none: "\<forall>l \<in> set (base_configs gws). lc_client_port l = None"
    by (auto simp: base_configs_def config_of_def)
  have ls: "cf_listeners cfg = remap_overridden_listeners (base_configs gws) settings (overridden_flags settings gws)"
    using assms(1) by (simp add: assembled_def)
  have lt: "i < length (base_configs gws)" "j < length (base_configs gws)"
    using assms(2,3) assembled_length [OF assms(1)] by simp_all
  have "lc_port (base_configs gws ! i) = lc_port (base_configs gws ! j)"
    by (rule remap_same_port [OF _ lt none]) (use assms(4) ls in auto)
  moreover have "lc_client_port (base_configs gws ! i) = None" "lc_client_port (base_configs gws ! j) = None"
    using none lt by simp_all
  ultimately show ?thesis using lt by (simp add: ls declared_port_remap)
qed

text \<open>The ports of the configuration are the ports known when routes were attached.\<close>

definition slash_free :: "gateway_build list \<Rightarrow> bool" where
  "slash_free gws \<longleftrightarrow> (\<forall>gw \<in> set gws. CHR ''/'' \<notin> set (ref_namespace (gb_ref gw)) \<and>
     CHR ''/'' \<notin> set (ref_name (gb_ref gw)))"

lemma build_at_member: "p \<in> set (served_at gws) \<Longrightarrow> build_at gws p = (gw, l) \<Longrightarrow> gw \<in> set gws"
  by (cases p) (auto simp: build_at_def served_at_set)

lemma assembled_port:
  assumes "assembled gws cl settings cfg" and "slash_free gws" and "k < length (served_at gws)"
  shows "lc_port (cf_listeners cfg ! k) = port_of settings gws k"
proof -
  let ?slots = "map config_slot (zip (base_configs gws) (overridden_flags settings gws))"
  have "?slots ! i = slot_of settings (build_at gws (served_at gws ! i))" if i: "i < length (served_at gws)" for i
  proof -
    obtain gw l where b: "build_at gws (served_at gws ! i) = (gw, l)" by (rule prod.exhaust)
    obtain protocol where "lb_protocol l = Some protocol" using assembled_protocol [OF assms(1) i b] .
    moreover have "gw \<in> set gws" using build_at_member [OF nth_mem [OF i] b] .
    ultimately show ?thesis using assms(2) i b
      by (simp add: nth_base [OF i b] config_slot_def config_of_def slot_of_def slash_free_def gateway_of_id)
  qed
  then have "?slots = map (\<lambda>p. slot_of settings (build_at gws p)) (served_at gws)"
    by (intro nth_equalityI) simp_all
  then have t: "remap_targets ?slots settings = targets_of settings gws" by (simp add: targets_of_def)
  obtain gw l where b: "build_at gws (served_at gws ! k) = (gw, l)" by (rule prod.exhaust)
  have "cf_listeners cfg ! k = move_listener (base_configs gws ! k, targets_of settings gws ! k)"
    using assms(1,3) by (simp add: assembled_def remap_overridden_listeners_def Let_def t)
  then show ?thesis
    by (auto simp: nth_base [OF assms(3) b] b move_listener_def config_of_def port_of_def ported_def split: option.split)
qed

lemma assembled_tables:
  assumes "assembled gws cl settings cfg" and "(p, es) \<in> set (cf_ports cfg)"
  shows "sorted (map (entry_key (cf_listeners cfg)) es)"
    and "pe \<in> set es \<longleftrightarrow> (\<exists>k < length (served_at gws). lc_port (cf_listeners cfg ! k) = p \<and>
        (\<exists>e \<in> set (lb_table (snd (build_at gws (served_at gws ! k)))). pe = entry_at k e))"
proof -
  let ?tables = "map (\<lambda>(_, l). lb_table l) (served gws)"
  let ?ls = "cf_listeners cfg"
  have ports: "cf_ports cfg = map (\<lambda>(p, es). (p, arrange ?ls es)) (port_tables ?ls ?tables)"
    using assms(1) by (simp add: assembled_def)
  then obtain es0 where es0: "(p, es0) \<in> set (port_tables ?ls ?tables)" "es = arrange ?ls es0"
    using assms(2) by auto
  then show "sorted (map (entry_key ?ls) es)" using port_table.rank_sorted by simp
  have "map_of (port_tables ?ls ?tables) p = Some es0"
    using es0(1) ordered_distinct [OF port_tables_ordered] by (simp add: map_of_is_SomeI)
  then have "es0 = table_of (port_tables ?ls ?tables) p" by (simp add: table_of_def)
  then show "pe \<in> set es \<longleftrightarrow> (\<exists>k < length (served_at gws). lc_port (?ls ! k) = p \<and>
        (\<exists>e \<in> set (lb_table (snd (build_at gws (served_at gws ! k)))). pe = entry_at k e))"
    using port_tables_entries [of ?tables ?ls pe p] assembled_length [OF assms(1)] es0(2)
    by (simp add: port_table.entries_kept served_served_at case_prod_unfold comp_def cong: conj_cong)
qed

end
