(* ===== verification/Translate_Sound.thy ===== *)
theory Translate_Sound
  imports Assemble
begin

text \<open>
  The guarantees of the whole translation, from the snapshot to the configuration: it never
  panics, the configuration is well formed, and nothing is routed that the Gateways, the routes and
  the grants do not permit.
\<close>

section \<open>From the configuration back to the objects\<close>

definition our_gateways :: "'re libraries \<Rightarrow> snapshot \<Rightarrow> settings \<Rightarrow> gateway_build list" where
  "our_gateways libs snap settings =
     build_gateways (lib_base64 libs) snap settings (fst (accept snap settings))"

lemma map_update_same: "f y = f (xs ! i) \<Longrightarrow> map f (xs[i := y]) = map f xs"
  by (cases "i < length xs") (simp_all add: map_update list_update_same_conv list_update_beyond)

lemma conflict_step_routes: "map (\<lambda>l. (lb_rules l, lb_table l)) (conflict_step q ls) = map (\<lambda>l. (lb_rules l, lb_table l)) ls"
proof -
  obtain i j where q: "q = (i, j)" by (rule prod.exhaust)
  let ?f = "\<lambda>l. (lb_rules l, lb_table l)"
  have note_f: "?f (note_conflict r l) = ?f l" for r l by (simp add: note_conflict_def)
  have one: "map ?f (ls[i := note_conflict r (ls ! i)]) = map ?f ls" for r
    by (rule map_update_same) (simp add: note_conflict_def)
  have two: "?f (note_conflict r (ls ! j)) = ?f (ls[i := note_conflict r (ls ! i)] ! j)" for r
    by (cases "i < length ls") (auto simp: note_conflict_def nth_list_update list_update_beyond)
  show ?thesis
    by (simp add: q conflict_step_def map_update_same [of ?f, OF two] one split: option.split)
qed

lemma detect_conflicts_routes:
  "map (\<lambda>l. (lb_rules l, lb_table l)) (detect_conflicts ls) = map (\<lambda>l. (lb_rules l, lb_table l)) ls"
proof -
  have "map (\<lambda>l. (lb_rules l, lb_table l)) (fold conflict_step qs ls) = map (\<lambda>l. (lb_rules l, lb_table l)) ls" for qs
    by (induction qs arbitrary: ls) (simp_all add: conflict_step_routes)
  then show ?thesis by (simp add: detect_conflicts_def)
qed

lemma our_gateways_empty:
  assumes "gw \<in> set (our_gateways libs snap settings)" and "l \<in> set (gb_listeners gw)"
  shows "lb_rules l = [] \<and> lb_table l = []"
proof -
  from assms obtain r specs where l: "l \<in> set (detect_conflicts (map (build_listener (lib_base64 libs) r snap settings) specs))"
    by (auto simp: our_gateways_def build_gateways_def build_gateway_def)
  let ?f = "\<lambda>l. (lb_rules l, lb_table l)"
  from l have "?f l \<in> set (map ?f (detect_conflicts (map (build_listener (lib_base64 libs) r snap settings) specs)))"
    by simp
  then show ?thesis unfolding detect_conflicts_routes by auto
qed

lemma translate_parts:
  assumes "translate libs snap settings = Returns tr"
  obtains gws cl where "clusters_ok snap cl"
    and "gateways_ok snap (siblings (our_gateways libs snap settings) settings) cl (our_gateways libs snap settings) gws"
    and "assembled gws cl settings (tr_config tr)"
proof -
  obtain classes st where acc: "accept snap settings = (classes, st)" by (rule prod.exhaust)
  from assms obtain gws cl st1 cfg st2 where
    att: "attach (lib_regex libs) snap settings (our_gateways libs snap settings, [], []) = Returns (gws, cl, st1)"
    and asm: "assemble gws cl settings st = Returns (cfg, st2)" and tr: "tr_config tr = cfg"
    by (auto simp: translate_def acc our_gateways_def run_bind_Returns)
  from attach_sound [OF att] our_gateways_empty assemble_assembled [OF asm] tr that show ?thesis by blast
qed

lemma same_at:
  assumes "gateways_ok snap sibs cl gws0 gws" and "gi < length gws0"
  shows "gb_ref (gws ! gi) = gb_ref (gws0 ! gi)" "gb_rejected (gws ! gi) = gb_rejected (gws0 ! gi)"
    "length (gb_listeners (gws ! gi)) = length (gb_listeners (gws0 ! gi))"
    "li < length (gb_listeners (gws0 ! gi)) \<Longrightarrow> same_listener (gb_listeners (gws0 ! gi) ! li) (gb_listeners (gws ! gi) ! li)"
proof -
  have g: "gateway_ok snap sibs cl gi (gws0 ! gi) (gws ! gi)" using assms by (simp add: gateways_ok_def)
  show "gb_ref (gws ! gi) = gb_ref (gws0 ! gi)" "gb_rejected (gws ! gi) = gb_rejected (gws0 ! gi)"
    "length (gb_listeners (gws ! gi)) = length (gb_listeners (gws0 ! gi))"
    using gateway_okD [OF g] by blast+
  show "li < length (gb_listeners (gws0 ! gi)) \<Longrightarrow> same_listener (gb_listeners (gws0 ! gi) ! li) (gb_listeners (gws ! gi) ! li)"
    using g by (simp add: gateway_ok_def)
qed

lemma same_served_at:
  assumes "gateways_ok snap sibs cl gws0 gws"
  shows "served_at gws = served_at gws0"
proof -
  have "length gws = length gws0" using assms by (simp add: gateways_ok_def)
  moreover have "filter (\<lambda>li. gb_rejected (gws ! gi) = None \<and> programmed (gb_listeners (gws ! gi) ! li))
        [0..<length (gb_listeners (gws ! gi))] =
      filter (\<lambda>li. gb_rejected (gws0 ! gi) = None \<and> programmed (gb_listeners (gws0 ! gi) ! li))
        [0..<length (gb_listeners (gws0 ! gi))]" if "gi < length gws0" for gi
    unfolding same_at(2,3) [OF assms that]
    by (rule filter_cong) (use same_listenerD(7) [OF same_at(4) [OF assms that]] in auto)
  ultimately show ?thesis unfolding served_at_def by (auto intro!: arg_cong [where f = concat])
qed

lemma same_port_of:
  assumes "gateways_ok snap sibs cl gws0 gws" and "k < length (served_at gws0)"
  shows "port_of settings gws k = port_of settings gws0 k"
proof -
  have slot: "slot_of settings (build_at gws p) = slot_of settings (build_at gws0 p)"
    and port: "lb_port (snd (build_at gws p)) = lb_port (snd (build_at gws0 p))" if "p \<in> set (served_at gws0)" for p
  proof -
    obtain gi li where p: "p = (gi, li)" by (rule prod.exhaust)
    with that have r: "gi < length gws0" "li < length (gb_listeners (gws0 ! gi))" by (simp_all add: served_at_set)
    note d = same_at(1) [OF assms(1) r(1)] same_listenerD(2,4) [OF same_at(4) [OF assms(1) r]]
    show "slot_of settings (build_at gws p) = slot_of settings (build_at gws0 p)"
      "lb_port (snd (build_at gws p)) = lb_port (snd (build_at gws0 p))"
      by (simp_all add: p slot_of_def build_at_def d)
  qed
  have "map (\<lambda>p. slot_of settings (build_at gws p)) (served_at gws0) =
      map (\<lambda>p. slot_of settings (build_at gws0 p)) (served_at gws0)"
    using slot by simp
  then have "targets_of settings gws = targets_of settings gws0"
    by (simp only: targets_of_def same_served_at [OF assms(1)])
  then show ?thesis
    using port [OF nth_mem [OF assms(2)]]
    by (simp add: port_of_def ported_def same_served_at [OF assms(1)] split: option.split)
qed

text \<open>The Gateway and the listener a listener of the configuration stands for.\<close>

definition stands_for ::
  "'re libraries \<Rightarrow> snapshot \<Rightarrow> settings \<Rightarrow> object_ref \<Rightarrow> gateway \<Rightarrow> nat \<Rightarrow> listener_config \<Rightarrow> bool" where
  "stands_for libs snap settings r gw li lc \<longleftrightarrow>
     (r, gw) \<in> set (sn_gateways snap) \<and> gs_gateway_class_name (gw_spec gw) \<in> set (fst (accept snap settings)) \<and>
     gateway_rejection gw = None \<and> li < length (gs_listeners (gw_spec gw)) \<and>
     lc_id lc = ref_namespace r @ ''/'' @ ref_name r @ ''/'' @ li_name (gs_listeners (gw_spec gw) ! li) \<and>
     lc_hostname lc = map_option to_ascii_lowercase (li_hostname (gs_listeners (gw_spec gw) ! li)) \<and>
     declared_port lc = li_port (gs_listeners (gw_spec gw) ! li) \<and>
     Some (lc_protocol lc) = protocol_of (li_protocol (gs_listeners (gw_spec gw) ! li)) \<and>
     programmed (detect_conflicts (map (build_listener (lib_base64 libs) r snap settings) (gs_listeners (gw_spec gw))) ! li) \<and>
     lc_tls lc = lb_tls (build_listener (lib_base64 libs) r snap settings (gs_listeners (gw_spec gw) ! li))"

lemma our_gateways_nth:
  assumes "gi < length (our_gateways libs snap settings)"
  obtains r gw where "(r, gw) \<in> set (sn_gateways snap)"
    and "gs_gateway_class_name (gw_spec gw) \<in> set (fst (accept snap settings))"
    and "our_gateways libs snap settings ! gi = build_gateway (lib_base64 libs) snap settings (r, gw)"
proof -
  let ?own = "filter (\<lambda>(_, gw). gs_gateway_class_name (gw_spec gw) \<in> set (fst (accept snap settings))) (sn_gateways snap)"
  have len: "gi < length ?own" using assms by (simp add: our_gateways_def build_gateways_def)
  obtain r gw where nth: "?own ! gi = (r, gw)" by (rule prod.exhaust)
  have "(r, gw) \<in> set ?own" using nth_mem [OF len] by (simp only: nth)
  with len nth that [of r gw] show ?thesis by (simp add: our_gateways_def build_gateways_def)
qed

lemma listener_origin:
  assumes "gateways_ok snap sibs cl (our_gateways libs snap settings) gws" and "assembled gws cl settings cfg"
    and "k < length (cf_listeners cfg)"
  obtains gi li r gw l where "served_at (our_gateways libs snap settings) ! k = (gi, li)"
    and "stands_for libs snap settings r gw li (cf_listeners cfg ! k)"
    and "our_gateways libs snap settings ! gi = build_gateway (lib_base64 libs) snap settings (r, gw)"
    and "l = gb_listeners (gws ! gi) ! li" and "build_at gws (served_at gws ! k) = (gws ! gi, l)"
    and "settled l = settled (build_listener (lib_base64 libs) r snap settings (gs_listeners (gw_spec gw) ! li))"
    and "listener_ok snap r sibs (gi, li) cl l" and "lc_rules (cf_listeners cfg ! k) = lb_rules l"
proof -
  let ?gws0 = "our_gateways libs snap settings"
  note at = same_served_at [OF assms(1)]
  have k: "k < length (served_at ?gws0)" "k < length (served_at gws)"
    using assms(3) assembled_length [OF assms(2)] at by simp_all
  obtain gi li where p: "served_at ?gws0 ! k = (gi, li)" by (rule prod.exhaust)
  have r: "gi < length ?gws0" "li < length (gb_listeners (?gws0 ! gi))" "gb_rejected (?gws0 ! gi) = None"
      "programmed (gb_listeners (?gws0 ! gi) ! li)"
    using nth_mem [OF k(1)] by (simp_all add: p served_at_set)
  obtain rf gw where own: "(rf, gw) \<in> set (sn_gateways snap)"
      "gs_gateway_class_name (gw_spec gw) \<in> set (fst (accept snap settings))"
      "?gws0 ! gi = build_gateway (lib_base64 libs) snap settings (rf, gw)"
    using our_gateways_nth [OF r(1)] .
  let ?start = "gb_listeners (?gws0 ! gi) ! li"
  let ?l = "gb_listeners (gws ! gi) ! li"
  let ?b = "build_listener (lib_base64 libs) rf snap settings (gs_listeners (gw_spec gw) ! li)"
  have g: "gateway_ok snap sibs cl gi (?gws0 ! gi) (gws ! gi)" using assms(1) r(1) by (simp add: gateways_ok_def)
  have ref: "gb_ref (gws ! gi) = rf" using gateway_okD(1) [OF g] own(3) by (simp add: build_gateway_def)
  have li: "li < length (gs_listeners (gw_spec gw))" using r(2) own(3) by (simp add: build_gateway_def)
  have same: "same_listener ?start ?l" and ok: "listener_ok snap rf sibs (gi, li) cl ?l"
    using g r(2) own(3) by (simp_all add: gateway_ok_def build_gateway_def)
  have "settled ?start = settled ?b"
    using settled_detect_conflicts [of li "map (build_listener (lib_base64 libs) rf snap settings) (gs_listeners (gw_spec gw))"]
      own(3) li by (simp add: build_gateway_def)
  with same have settled: "settled ?l = settled ?b" by (simp add: same_listener_def)
  have b: "build_at gws (served_at gws ! k) = (gws ! gi, ?l)" by (simp add: at p build_at_def)
  note lc = assembled_listener [OF assms(2) k(2) b]
  note eq = settled_eqD [OF settled]
  have "stands_for libs snap settings rf gw li (cf_listeners cfg ! k)"
    using own r li lc eq ref by (simp add: stands_for_def build_gateway_def listener_id_def)
  with that p own(3) b settled ok lc(5) show ?thesis by blast
qed

section \<open>Entries\<close>

lemma entry_origin:
  assumes "gateways_ok snap sibs cl (our_gateways libs snap settings) gws" and "assembled gws cl settings cfg"
    and "(p, es) \<in> set (cf_ports cfg)" and "pe \<in> set es"
  obtains gi li r gw l where "pe_listener pe < length (cf_listeners cfg)"
    and "lc_port (cf_listeners cfg ! pe_listener pe) = p"
    and "served_at (our_gateways libs snap settings) ! pe_listener pe = (gi, li)"
    and "our_gateways libs snap settings ! gi = build_gateway (lib_base64 libs) snap settings (r, gw)"
    and "stands_for libs snap settings r gw li (cf_listeners cfg ! pe_listener pe)"
    and "settled l = settled (build_listener (lib_base64 libs) r snap settings (gs_listeners (gw_spec gw) ! li))"
    and "pe_rule pe < length (lc_rules (cf_listeners cfg ! pe_listener pe))"
    and "attached_by snap r sibs (gi, li) cl l (lc_rules (cf_listeners cfg ! pe_listener pe) ! pe_rule pe)
      (pe_hostname pe) (pe_matcher pe)"
proof -
  obtain k e where k: "k < length (served_at gws)" "lc_port (cf_listeners cfg ! k) = p"
      and e: "e \<in> set (lb_table (snd (build_at gws (served_at gws ! k))))" "pe = entry_at k e"
    using assembled_tables(2) [OF assms(2,3)] assms(4) by blast
  have kl: "k < length (cf_listeners cfg)" using k(1) assembled_length [OF assms(2)] by simp
  obtain gi li r gw l where o: "served_at (our_gateways libs snap settings) ! k = (gi, li)"
    "stands_for libs snap settings r gw li (cf_listeners cfg ! k)"
    "our_gateways libs snap settings ! gi = build_gateway (lib_base64 libs) snap settings (r, gw)"
    "build_at gws (served_at gws ! k) = (gws ! gi, l)"
    "settled l = settled (build_listener (lib_base64 libs) r snap settings (gs_listeners (gw_spec gw) ! li))"
    "listener_ok snap r sibs (gi, li) cl l" "lc_rules (cf_listeners cfg ! k) = lb_rules l"
    using listener_origin [OF assms(1,2) kl] .
  have "me_rule e < length (lb_rules l)"
    and "attached_by snap r sibs (gi, li) cl l (lb_rules l ! me_rule e) (me_hostname e) (me_matcher e)"
    using o(4,6) e(1) by (auto simp: listener_ok_def table_ok_def)
  with that [of gi li r gw l] kl k o e(2) show ?thesis by (simp add: entry_at_def)
qed

section \<open>Ports and siblings\<close>

definition gateway_names_ok :: "snapshot \<Rightarrow> bool" where
  "gateway_names_ok snap \<longleftrightarrow> (\<forall>(r, _) \<in> set (sn_gateways snap).
     CHR ''/'' \<notin> set (ref_namespace r) \<and> CHR ''/'' \<notin> set (ref_name r))"

lemma slash_free_built:
  assumes "gateway_names_ok snap" and "gateways_ok snap sibs cl (our_gateways libs snap settings) gws"
  shows "slash_free gws"
proof -
  have "CHR ''/'' \<notin> set (ref_namespace (gb_ref (gws ! gi))) \<and> CHR ''/'' \<notin> set (ref_name (gb_ref (gws ! gi)))"
    if gi: "gi < length (our_gateways libs snap settings)" for gi
  proof -
    obtain r gw where "(r, gw) \<in> set (sn_gateways snap)"
      "our_gateways libs snap settings ! gi = build_gateway (lib_base64 libs) snap settings (r, gw)"
      using our_gateways_nth [OF gi] by metis
    with assms(1) same_at(1) [OF assms(2) gi] show ?thesis by (auto simp: gateway_names_ok_def build_gateway_def)
  qed
  moreover have "length gws = length (our_gateways libs snap settings)" using assms(2) by (simp add: gateways_ok_def)
  ultimately show ?thesis by (auto simp: slash_free_def in_set_conv_nth)
qed

lemma built_listener_fields:
  assumes "li < length (gs_listeners (gw_spec gw))"
  shows "lb_protocol (gb_listeners (build_gateway b64 snap settings (r, gw)) ! li) =
      protocol_of (li_protocol (gs_listeners (gw_spec gw) ! li))"
    "lb_hostname (gb_listeners (build_gateway b64 snap settings (r, gw)) ! li) =
      map_option to_ascii_lowercase (li_hostname (gs_listeners (gw_spec gw) ! li))"
proof -
  let ?ls = "map (build_listener b64 r snap settings) (gs_listeners (gw_spec gw))"
  have "settled (gb_listeners (build_gateway b64 snap settings (r, gw)) ! li) = settled (?ls ! li)"
    using settled_detect_conflicts [of li ?ls] assms by (simp add: build_gateway_def)
  from settled_eqD [OF this] assms
  show "lb_protocol (gb_listeners (build_gateway b64 snap settings (r, gw)) ! li) =
      protocol_of (li_protocol (gs_listeners (gw_spec gw) ! li))"
    "lb_hostname (gb_listeners (build_gateway b64 snap settings (r, gw)) ! li) =
      map_option to_ascii_lowercase (li_hostname (gs_listeners (gw_spec gw) ! li))" by simp_all
qed

text \<open>A listener of the configuration is a sibling at its position, under its port.\<close>

lemma config_sibling:
  assumes "gateways_ok snap sibs cl (our_gateways libs snap settings) gws" and "assembled gws cl settings cfg"
    and "gateway_names_ok snap" and "k < length (cf_listeners cfg)"
  shows "\<lparr>si_at = served_at (our_gateways libs snap settings) ! k, si_port = lc_port (cf_listeners cfg ! k),
      si_protocol = lc_protocol (cf_listeners cfg ! k), si_hostname = lc_hostname (cf_listeners cfg ! k)\<rparr>
      \<in> set (siblings (our_gateways libs snap settings) settings)" (is ?member)
    and "own_port (served_at (our_gateways libs snap settings) ! k) l (siblings (our_gateways libs snap settings) settings) =
      lc_port (cf_listeners cfg ! k)" (is ?own)
proof -
  let ?gws0 = "our_gateways libs snap settings"
  obtain gi li r gw where o: "served_at ?gws0 ! k = (gi, li)"
    "stands_for libs snap settings r gw li (cf_listeners cfg ! k)"
    "?gws0 ! gi = build_gateway (lib_base64 libs) snap settings (r, gw)"
    using listener_origin [OF assms(1,2,4)] by metis
  have k: "k < length (served_at ?gws0)" "k < length (served_at gws)"
    using assms(4) assembled_length [OF assms(2)] same_served_at [OF assms(1)] by simp_all
  have port: "lc_port (cf_listeners cfg ! k) = port_of settings ?gws0 k"
    using assembled_port [OF assms(2) slash_free_built [OF assms(3,1)] k(2)] same_port_of [OF assms(1) k(1)] by simp
  have li: "li < length (gs_listeners (gw_spec gw))" using o(2) by (simp add: stands_for_def)
  have f: "lb_protocol (gb_listeners (?gws0 ! gi) ! li) = Some (lc_protocol (cf_listeners cfg ! k))"
    "lb_hostname (gb_listeners (?gws0 ! gi) ! li) = lc_hostname (cf_listeners cfg ! k)"
    using o(2) built_listener_fields [OF li, of "lib_base64 libs" snap settings r] unfolding o(3)
    by (simp_all add: stands_for_def)
  show ?member unfolding siblings_iff using k(1) o(1) f port
    by (intro exI [of _ k] exI [of _ gi] exI [of _ li] exI [of _ "lc_protocol (cf_listeners cfg ! k)"]) simp
  show ?own unfolding o(1) port using own_port_at [OF k(1) o(1) f(1)] .
qed

section \<open>Paths and panics\<close>

text \<open>Every path value of a route is UTF-8, as every Rust string is.\<close>

definition match_utf8 :: "http_route_match \<Rightarrow> bool" where
  "match_utf8 m \<longleftrightarrow> (\<forall>pm v. hrm_path m = Some pm \<longrightarrow> hpm_value pm = Some v \<longrightarrow> valid_utf8 v)"

definition paths_utf8 :: "snapshot \<Rightarrow> bool" where
  "paths_utf8 snap \<longleftrightarrow> (\<forall>(_, route) \<in> set (sn_http_routes snap). \<forall>r \<in> set (hrs_rules (hr_spec route)).
     \<forall>m \<in> set (hrr_matches r). match_utf8 m)"

lemma normalized_path_total: "valid_utf8 v \<Longrightarrow> \<exists>r. normalized_path kind v = Returns r"
  using normalize_path_no_panic [of v]
  by (cases "normalize_path v") (auto simp: normalized_path_def split: sum.split)

lemma slash_utf8: "valid_utf8 ''/''"
  by code_simp

lemma compile_match_total:
  assumes "match_utf8 m"
  shows "\<exists>r. compile_match build m = Returns r"
proof -
  have "\<exists>r. compile_path build (hrm_path m) = Returns r"
  proof (cases "hrm_path m")
    case None
    then show ?thesis by (simp add: compile_path_def)
  next
    case (Some pm)
    let ?v = "case hpm_value pm of Some x \<Rightarrow> x | None \<Rightarrow> ''/''"
    have v: "valid_utf8 ?v" using assms Some slash_utf8 by (auto simp: match_utf8_def split: option.split)
    obtain r1 where r1: "normalized_path ''Exact'' ?v = Returns r1" using normalized_path_total [OF v] by blast
    obtain r2 where r2: "normalized_path ''PathPrefix'' ?v = Returns r2" using normalized_path_total [OF v] by blast
    show ?thesis by (auto simp: Some compile_path_def Let_def r1 r2 split: sum.split)
  qed
  then show ?thesis by (auto simp: compile_match_def)
qed

lemma compile_matches_total: "\<forall>m \<in> set ms. match_utf8 m \<Longrightarrow> \<exists>r. compile_matches build ms = Returns r"
proof (induction ms)
  case (Cons m ms)
  obtain r rs where "compile_match build m = Returns r" "compile_matches build ms = Returns rs"
    using Cons compile_match_total [of m build] by auto
  then show ?case by (cases r) simp_all
qed simp

lemma compile_rules_total:
  "\<forall>r \<in> set rs. \<forall>m \<in> set (hrr_matches r). match_utf8 m \<Longrightarrow>
   \<exists>res. compile_rules build snap rref route index rs out st = Returns res"
proof (induction rs arbitrary: index out st)
  case (Cons r rs)
  have "\<forall>m \<in> set (raw_matches r). match_utf8 m"
    using Cons.prems by (auto simp: raw_matches_def match_utf8_def default_route_match_def split: if_splits)
  then obtain ms where "compile_matches build (raw_matches r) = Returns ms" using compile_matches_total by blast
  then obtain q where q: "compile_rule build snap rref route index r st = Returns q"
    unfolding compile_rule_def by simp
  obtain res st' where "q = (res, st')" by (rule prod.exhaust)
  note one = q [unfolded this]
  have rest: "\<exists>res. compile_rules build snap rref route i rs out st = Returns res" for i out st
    by (rule Cons.IH) (use Cons.prems in simp)
  show ?case unfolding compile_rules.simps one run_bind.simps split_conv
    by (cases res) (simp_all add: rest del: split_paired_Ex)
qed simp

lemma compile_route_total:
  assumes "\<forall>r \<in> set (hrs_rules (hr_spec route)). \<forall>m \<in> set (hrr_matches r). match_utf8 m"
  shows "\<exists>res. compile_route build route rref snap cl = Returns res"
proof -
  obtain q where q: "compile_rules build snap rref route 0 (hrs_rules (hr_spec route)) [] (None, cl) = Returns q"
    using compile_rules_total [OF assms] by blast
  obtain res e cl' where "q = (res, e, cl')" by (rule prod_cases3)
  then show ?thesis unfolding compile_route_def q by simp
qed

lemma attach_total:
  assumes "paths_utf8 snap"
  shows "\<exists>st'. attach build snap settings st = Returns st'"
proof -
  obtain gws cl status where st: "st = (gws, cl, status)" by (metis prod.exhaust)
  have "\<exists>s'. attach_route build snap settings sibs x s = Returns s'" if "x \<in> set (sn_http_routes snap)" for x s sibs
  proof -
    obtain rref route where x: "x = (rref, route)" by (rule prod.exhaust)
    obtain g c t where s: "s = (g, c, t)" by (metis prod.exhaust)
    have "\<forall>r \<in> set (hrs_rules (hr_spec route)). \<forall>m \<in> set (hrr_matches r). match_utf8 m"
      using assms that unfolding x paths_utf8_def by fastforce
    from compile_route_total [OF this] obtain q where q: "compile_route build route rref snap c = Returns q" by blast
    obtain res c' where "q = (res, c')" by (rule prod.exhaust)
    note q = q [unfolded this]
    show ?thesis unfolding x s attach_route_def split_conv q if_distrib [of "\<lambda>m. run_bind m f" for f] run_bind.simps
      by (auto simp del: split_paired_Ex simp: case_prod_unfold)
  qed
  then show ?thesis
    unfolding st attach_def split_conv
    using run_fold_total [where P = "\<lambda>_. True" and f = "attach_route build snap settings (siblings gws settings)"] by blast
qed

lemma assemble_total:
  assumes ok: "gateways_ok snap sibs cl (our_gateways libs snap settings) gws"
  shows "\<exists>r. assemble gws cl' settings status = Returns r"
proof -
  let ?gws0 = "our_gateways libs snap settings"
  have good: "lb_protocol l \<noteq> None \<and> (\<forall>e \<in> set (lb_table l). me_rule e < length (lb_rules l))"
    if served: "(gw, l) \<in> set (served gws)" for gw l
  proof -
    from served obtain q where q: "q \<in> set (served_at ?gws0)" "build_at gws q = (gw, l)"
      unfolding served_served_at same_served_at [OF ok] by auto
    obtain gi li where "q = (gi, li)" by (rule prod.exhaust)
    with q have p: "(gi, li) \<in> set (served_at ?gws0)" and l: "l = gb_listeners (gws ! gi) ! li"
      by (auto simp: build_at_def)
    then have r: "gi < length ?gws0" "li < length (gb_listeners (?gws0 ! gi))" "programmed (gb_listeners (?gws0 ! gi) ! li)"
      by (simp_all add: served_at_set)
    obtain rf gw' where own: "?gws0 ! gi = build_gateway (lib_base64 libs) snap settings (rf, gw')"
      using our_gateways_nth [OF r(1)] by metis
    let ?ls = "map (build_listener (lib_base64 libs) rf snap settings) (gs_listeners (gw_spec gw'))"
    have li: "li < length (gs_listeners (gw_spec gw'))" using r(2) own by (simp add: build_gateway_def)
    have same: "same_listener (gb_listeners (?gws0 ! gi) ! li) l" using same_at(4) [OF ok r(1,2)] l by simp
    have "settled l = settled (?ls ! li)"
      using same settled_detect_conflicts [of li ?ls] own li by (simp add: same_listener_def build_gateway_def)
    from settled_eqD(4,7) [OF this] li have "lb_protocol l = protocol_of (li_protocol (gs_listeners (gw_spec gw') ! li))"
      "lb_accepted l = accept_listener (gs_listeners (gw_spec gw') ! li) settings" by simp_all
    moreover have "programmed l" using same_listenerD(7) [OF same] r(3) by simp
    ultimately have "lb_protocol l \<noteq> None" using accept_listener_Ok by (simp add: programmed_def)
    moreover have "gateway_ok snap sibs cl gi (?gws0 ! gi) (gws ! gi)" using ok r(1) by (simp add: gateways_ok_def)
    then have "listener_ok snap rf sibs (gi, li) cl l"
      using r(2) own l by (simp add: gateway_ok_def build_gateway_def)
    ultimately show ?thesis by (simp add: listener_ok_def table_ok_def)
  qed
  let ?ls = "remap_overridden_listeners (base_configs gws) settings (overridden_flags settings gws)"
  have configs: "run_map listener_config_of (served gws) = Returns (base_configs gws)"
    unfolding listener_configs base_configs_def using good by blast
  let ?tables = "map (\<lambda>(_, l). lb_table l) (served gws)"
  have range: "entry_in_range ?ls e" if "(p, es) \<in> set (port_tables ?ls ?tables)" "e \<in> set es" for p es e
  proof -
    have "table_of (port_tables ?ls ?tables) p = es"
      using that(1) ordered_distinct [OF port_tables_ordered] by (simp add: table_of_def map_of_is_SomeI)
    with that(2) port_tables_entries [of ?tables ?ls e p] obtain k m where
      k: "k < length (served_at gws)" and m: "m \<in> set (?tables ! k)" "e = entry_at k m"
      by (auto simp: served_served_at)
    obtain gw l where b: "build_at gws (served_at gws ! k) = (gw, l)" by (rule prod.exhaust)
    have "m \<in> set (lb_table l)" using m(1) k b by (simp add: served_served_at)
    with good [OF served_nth [OF k b]] have "me_rule m < length (lb_rules l)" by blast
    with k show ?thesis
      by (simp add: entry_in_range_def m(2) entry_at_def lc_remap nth_base [OF k b] config_of_def)
  qed
  obtain out where sorted: "sort_tables ?ls (port_tables ?ls ?tables) = Returns out"
    using sort_tables_total [of "port_tables ?ls ?tables" ?ls] range by blast
  show ?thesis
    unfolding assemble_def configs Let_def overridden_flags_def [symmetric] run_bind.simps sorted by blast
qed

end
