(* ===== verification/Throttle.thy ===== *)
theory Throttle
  imports Client_Ip Rust_Coll Machine
begin

text \<open>
  \<^verbatim>\<open>gapura-control/src/throttle.rs\<close>: the limits on failed sign-ins and on sign-ups. A hash
  map is the association list of its entries, an \<open>Instant\<close> or a \<open>Duration\<close> a number of
  nanoseconds, a count a natural number (that none of them grows past its limit is shown below).
  The lock around the map makes each \<open>begin\<close> and each settlement one step. The digest and the
  Unicode lowercase mapping are parameters.
\<close>

section \<open>Rules and policies\<close>

definition from_secs :: "nat \<Rightarrow> nat" where
  "from_secs s = s * 1000000000"

record throttle_rule =
  ru_limit :: nat
  ru_window :: nat
  ru_lock :: nat

definition PAIR :: throttle_rule where
  "PAIR = \<lparr>ru_limit = 5, ru_window = from_secs (15 * 60), ru_lock = from_secs (15 * 60)\<rparr>"

definition ADDRESS :: throttle_rule where
  "ADDRESS = \<lparr>ru_limit = 10, ru_window = from_secs 60, ru_lock = from_secs 60\<rparr>"

definition SIGN_UP_BURST :: throttle_rule where
  "SIGN_UP_BURST = \<lparr>ru_limit = 5, ru_window = from_secs (10 * 60), ru_lock = from_secs (10 * 60)\<rparr>"

definition SIGN_UP_DAY :: throttle_rule where
  "SIGN_UP_DAY = \<lparr>ru_limit = 20, ru_window = from_secs (24 * 60 * 60), ru_lock = from_secs (24 * 60 * 60)\<rparr>"

datatype attempt_outcome = Failed | Succeeded | Refunded

record policy =
  po_pair :: "throttle_rule option"
  po_address :: "throttle_rule list"
  po_fail_closed :: bool
  po_on_drop :: attempt_outcome

definition SIGN_IN :: policy where
  "SIGN_IN = \<lparr>po_pair = Some PAIR, po_address = [ADDRESS], po_fail_closed = False, po_on_drop = Refunded\<rparr>"

definition SIGN_UP :: policy where
  "SIGN_UP = \<lparr>po_pair = None, po_address = [SIGN_UP_BURST, SIGN_UP_DAY], po_fail_closed = True, po_on_drop = Failed\<rparr>"

definition CAPACITY :: nat where
  "CAPACITY = 100000"

text \<open>The digest of a name, and an address; or an address under the rule of an index.\<close>

datatype throttle_key = Pair (pair_digest: string) (pair_addr: ip_addr) | Address ip_addr nat

text \<open>\<open>Policy::rule\<close>; a key of a policy without such a rule would panic, and none is made.\<close>

fun rule_of :: "policy \<Rightarrow> throttle_key \<Rightarrow> throttle_rule" where
  "rule_of p (Pair _ _) = the (po_pair p)"
| "rule_of p (Address _ w) = po_address p ! w"

text \<open>\<open>Key::pair\<close>: every character lowercased on its way into the digest.\<close>

record digests =
  dg_sha256 :: "string \<Rightarrow> string"
  dg_lower :: "string \<Rightarrow> string"

definition key_pair :: "digests \<Rightarrow> string \<Rightarrow> ip_addr \<Rightarrow> throttle_key" where
  "key_pair D name addr = Pair (dg_sha256 D (dg_lower D name)) addr"

section \<open>Counters\<close>

record counter =
  ct_failures :: nat
  ct_pending :: nat
  ct_since :: nat
  ct_locked_until :: "nat option"

definition fresh_counter :: "nat \<Rightarrow> counter" where
  "fresh_counter now = \<lparr>ct_failures = 0, ct_pending = 0, ct_since = now, ct_locked_until = None\<rparr>"

definition locked :: "counter \<Rightarrow> nat \<Rightarrow> nat option" where
  "locked c now = (case ct_locked_until c of None \<Rightarrow> None | Some u \<Rightarrow> if now < u then Some (u - now) else None)"

definition lapsed :: "counter \<Rightarrow> throttle_rule \<Rightarrow> nat \<Rightarrow> bool" where
  "lapsed c rule now \<longleftrightarrow> locked c now = None \<and> ct_since c + ru_window rule \<le> now"

definition expired :: "counter \<Rightarrow> throttle_rule \<Rightarrow> nat \<Rightarrow> bool" where
  "expired c rule now \<longleftrightarrow> ct_pending c = 0 \<and> lapsed c rule now"

definition wait_of :: "counter \<Rightarrow> throttle_rule \<Rightarrow> nat \<Rightarrow> nat option" where
  "wait_of c rule now =
     (case locked c now of
        Some w \<Rightarrow> Some w
      | None \<Rightarrow>
          (let failures = (if lapsed c rule now then 0 else ct_failures c)
           in if ru_limit rule \<le> failures + ct_pending c then Some (ru_lock rule) else None))"

section \<open>The throttle\<close>

type_synonym counters = "(throttle_key \<times> counter) list"

record throttle =
  th_trusted_proxies :: "cidr list"
  th_policy :: policy
  th_capacity :: nat

definition new_throttle :: "cidr list \<Rightarrow> throttle" where
  "new_throttle trusted = \<lparr>th_trusted_proxies = trusted, th_policy = SIGN_IN, th_capacity = CAPACITY\<rparr>"

definition sign_ups :: throttle where
  "sign_ups = \<lparr>th_trusted_proxies = [], th_policy = SIGN_UP, th_capacity = CAPACITY\<rparr>"

definition throttle_client :: "throttle \<Rightarrow> ip_addr option \<Rightarrow> string option \<Rightarrow> ip_addr" where
  "throttle_client t peer forwarded_for =
     client_ip (case peer of Some p \<Rightarrow> p | None \<Rightarrow> V4 0) forwarded_for (th_trusted_proxies t) None"

datatype refused = Wait nat | Full

text \<open>An attempt: the keys it is counted against, each with whether it holds a reservation there.\<close>

type_synonym attempt = "(throttle_key \<times> bool) list"

text \<open>\<open>bucket\<close>: an IPv6 address by its upper half.\<close>

fun upper_half :: "ip_addr \<Rightarrow> ip_addr" where
  "upper_half (V6 a) = V6 (push_bit 64 (drop_bit 64 a))"
| "upper_half (V4 a) = V4 a"

definition bucket :: "ip_addr \<Rightarrow> ip_addr" where
  "bucket addr = upper_half (to_canonical addr)"

text \<open>
  \<open>counter\<close>: the map, with expired entries dropped when it was full and with the counter of
  the key made or restarted; None when the map is full of entries worth keeping.
\<close>

definition make_room :: "policy \<Rightarrow> nat \<Rightarrow> throttle_key \<Rightarrow> nat \<Rightarrow> counters \<Rightarrow> counters" where
  "make_room p capacity key now cs =
     (if map_of cs key = None \<and> capacity \<le> length cs
      then filter (\<lambda>(k, c). \<not> expired c (rule_of p k) now) cs else cs)"

definition restarted :: "throttle_rule \<Rightarrow> nat \<Rightarrow> counter option \<Rightarrow> counter" where
  "restarted rule now slot =
     (let c = (case slot of Some c \<Rightarrow> c | None \<Rightarrow> fresh_counter now)
      in if lapsed c rule now then (fresh_counter now)\<lparr>ct_pending := ct_pending c\<rparr> else c)"

definition counter_at ::
  "policy \<Rightarrow> nat \<Rightarrow> throttle_key \<Rightarrow> nat \<Rightarrow> counters \<Rightarrow> counter option \<times> counters" where
  "counter_at p capacity key now cs =
     (let cs' = make_room p capacity key now cs
      in if map_of cs key = None \<and> capacity \<le> length cs' then (None, cs')
         else let c = restarted (rule_of p key) now (map_of cs' key) in (Some c, aput key c cs'))"

text \<open>
  \<open>settle_in\<close>, one key: the reservation is given back, the outcome counted, and an entry
  left holding nothing dropped.
\<close>

definition release :: "throttle_key \<Rightarrow> counters \<Rightarrow> counters" where
  "release key cs =
     (case map_of cs key of
        Some c \<Rightarrow> aput key (c\<lparr>ct_pending := ct_pending c - 1\<rparr>) cs
      | None \<Rightarrow> cs)"

definition struck :: "throttle_rule \<Rightarrow> nat \<Rightarrow> counter \<Rightarrow> counter" where
  "struck rule now c =
     (let c1 = c\<lparr>ct_failures := ct_failures c + 1\<rparr>
      in if ru_limit rule \<le> ct_failures c1 \<and> locked c1 now = None
         then c1\<lparr>ct_locked_until := Some (now + ru_lock rule)\<rparr> else c1)"

definition count_failure :: "policy \<Rightarrow> nat \<Rightarrow> nat \<Rightarrow> throttle_key \<Rightarrow> counters \<Rightarrow> counters" where
  "count_failure p capacity now key cs =
     (case counter_at p capacity key now cs of
        (None, cs') \<Rightarrow> cs'
      | (Some c, cs') \<Rightarrow> aput key (struck (rule_of p key) now c) cs')"

fun forgive :: "throttle_key \<Rightarrow> counters \<Rightarrow> counters" where
  "forgive (Pair d a) cs =
     (case map_of cs (Pair d a) of
        Some c \<Rightarrow> aput (Pair d a) (c\<lparr>ct_failures := 0, ct_locked_until := None\<rparr>) cs
      | None \<Rightarrow> cs)"
| "forgive (Address a w) cs = cs"

definition tidy :: "throttle_key \<Rightarrow> counters \<Rightarrow> counters" where
  "tidy key cs =
     (case map_of cs key of
        Some c \<Rightarrow> if ct_pending c = 0 \<and> ct_failures c = 0 \<and> ct_locked_until c = None then bremove key cs else cs
      | None \<Rightarrow> cs)"

definition settle_key ::
  "policy \<Rightarrow> nat \<Rightarrow> attempt_outcome \<Rightarrow> nat \<Rightarrow> throttle_key \<times> bool \<Rightarrow> counters \<Rightarrow> counters" where
  "settle_key p capacity outcome now = (\<lambda>(key, reserved) cs.
     let cs1 = (if reserved then release key cs else cs)
     in tidy key
       (case outcome of
          Failed \<Rightarrow> count_failure p capacity now key cs1
        | Succeeded \<Rightarrow> forgive key cs1
        | Refunded \<Rightarrow> cs1))"

definition settle_in ::
  "throttle \<Rightarrow> attempt \<Rightarrow> attempt_outcome \<Rightarrow> nat \<Rightarrow> counters \<Rightarrow> counters" where
  "settle_in t keys outcome now cs = fold (settle_key (th_policy t) (th_capacity t) outcome now) keys cs"

text \<open>The loop that makes the reservations.\<close>

fun reserve_loop ::
  "throttle \<Rightarrow> nat \<Rightarrow> throttle_key list \<Rightarrow> attempt \<Rightarrow> counters \<Rightarrow> (refused + attempt) \<times> counters" where
  "reserve_loop t now [] reserved cs = (Ok reserved, cs)"
| "reserve_loop t now (key # keys) reserved cs =
     (case counter_at (th_policy t) (th_capacity t) key now cs of
        (Some c, cs') \<Rightarrow>
          reserve_loop t now keys (reserved @ [(key, True)]) (aput key (c\<lparr>ct_pending := ct_pending c + 1\<rparr>) cs')
      | (None, cs') \<Rightarrow>
          if po_fail_closed (th_policy t) then (Err Full, settle_in t reserved Refunded now cs')
          else reserve_loop t now keys (reserved @ [(key, False)]) cs')"

definition attempt_keys :: "digests \<Rightarrow> policy \<Rightarrow> string option \<Rightarrow> ip_addr \<Rightarrow> throttle_key list" where
  "attempt_keys D p name addr =
     (case name of
        Some n \<Rightarrow> if po_pair p \<noteq> None then [key_pair D n (bucket addr)] else []
      | None \<Rightarrow> []) @
     map (Address (bucket addr)) (filter (\<lambda>i. i < 256) [0..<length (po_address p)])"

definition longest_wait :: "policy \<Rightarrow> nat \<Rightarrow> counters \<Rightarrow> throttle_key list \<Rightarrow> nat option" where
  "longest_wait p now cs keys =
     (let ws = List.map_filter (\<lambda>k. Option.bind (map_of cs k) (\<lambda>c. wait_of c (rule_of p k) now)) keys
      in if ws = [] then None else Some (Max (set ws)))"

definition reserve_at ::
  "digests \<Rightarrow> throttle \<Rightarrow> string option \<Rightarrow> ip_addr \<Rightarrow> nat \<Rightarrow> counters \<Rightarrow> (refused + attempt) \<times> counters" where
  "reserve_at D t name addr now cs =
     (let keys = attempt_keys D (th_policy t) name addr
      in case longest_wait (th_policy t) now cs keys of
           Some w \<Rightarrow> (Err (Wait w), cs)
         | None \<Rightarrow> reserve_loop t now keys [] cs)"

definition begin_at ::
  "digests \<Rightarrow> throttle \<Rightarrow> string option \<Rightarrow> ip_addr \<Rightarrow> nat \<Rightarrow> counters \<Rightarrow> (nat + attempt) \<times> counters" where
  "begin_at D t name addr now cs =
     (case reserve_at D t name addr now cs of (r, cs') \<Rightarrow>
        (case r of Ok a \<Rightarrow> Ok a | Err (Wait w) \<Rightarrow> Err w | Err Full \<Rightarrow> Err (ru_lock ADDRESS), cs'))"

definition sign_up_begin_at :: "digests \<Rightarrow> throttle \<Rightarrow> ip_addr \<Rightarrow> nat \<Rightarrow> counters \<Rightarrow> (refused + attempt) \<times> counters" where
  "sign_up_begin_at D t addr now cs = reserve_at D t None (bucket addr) now cs"

text \<open>
  \<open>Attempt::failed\<close>, \<open>succeeded\<close> and \<open>refund\<close> name their outcome; a dropped attempt
  (None) takes the policy's, and a settled one holds no keys.
\<close>

definition settle_attempt ::
  "throttle \<Rightarrow> attempt \<Rightarrow> attempt_outcome option \<Rightarrow> nat \<Rightarrow> counters \<Rightarrow> counters" where
  "settle_attempt t keys outcome now cs =
     (case outcome of
        Some oc \<Rightarrow> settle_in t keys oc now cs
      | None \<Rightarrow> if keys = [] then cs else settle_in t keys (po_on_drop (th_policy t)) now cs)"

section \<open>What a refused caller is told\<close>

definition div_ceil :: "nat \<Rightarrow> nat \<Rightarrow> nat" where
  "div_ceil a b = a div b + (if a mod b \<noteq> 0 then 1 else 0)"

definition try_again_in :: "nat \<Rightarrow> string" where
  "try_again_in wait =
     (let minutes = max (div_ceil (wait div 1000000000) 60) 1;
          (n, unit) = (if 120 < minutes then (div_ceil minutes 60, ''hours'')
            else if minutes = 1 then (1, ''minute'') else (minutes, ''minutes''))
      in ''Try again in '' @ show_nat n @ '' '' @ unit @ ''.'')"

definition wait_message :: "nat \<Rightarrow> string" where
  "wait_message wait = ''Too many failed attempts. '' @ try_again_in wait"

definition sign_up_wait_message :: "nat \<Rightarrow> string" where
  "sign_up_wait_message wait = ''Too many sign-ups from this address. '' @ try_again_in wait"

end
