(* ===== verification/Throttle_Sound.thy ===== *)
theory Throttle_Sound
  imports Throttle
begin

text \<open>
  The throttle as a state machine: attempts begin and are settled in any order while the clock
  moves on. Shows that reservations are accounted for exactly, that the map never outgrows its
  capacity, that a lock holds until it ends and that the wait a caller is told is enough.
\<close>

section \<open>The machine\<close>

datatype throttle_event = Begin "string option" ip_addr | Settle nat "attempt_outcome option"

record throttle_state =
  ts_counters :: counters
  ts_in_flight :: "attempt list"
  ts_now :: nat

definition initial_throttle :: throttle_state where
  "initial_throttle = \<lparr>ts_counters = [], ts_in_flight = [], ts_now = 0\<rparr>"

text \<open>An event after some time; a settlement takes one of the attempts in flight.\<close>

fun throttle_step ::
  "digests \<Rightarrow> throttle \<Rightarrow> nat \<times> throttle_event \<Rightarrow> throttle_state \<Rightarrow> throttle_state \<times> (refused + attempt) option" where
  "throttle_step D t (dt, Begin name addr) s =
     (let now = ts_now s + dt
      in case reserve_at D t name addr now (ts_counters s) of
           (Ok a, cs) \<Rightarrow> (\<lparr>ts_counters = cs, ts_in_flight = ts_in_flight s @ [a], ts_now = now\<rparr>, Some (Ok a))
         | (Err e, cs) \<Rightarrow> (\<lparr>ts_counters = cs, ts_in_flight = ts_in_flight s, ts_now = now\<rparr>, Some (Err e)))"
| "throttle_step D t (dt, Settle i oc) s =
     (let now = ts_now s + dt
      in if i < length (ts_in_flight s) then
           (\<lparr>ts_counters = settle_attempt t (ts_in_flight s ! i) oc now (ts_counters s),
             ts_in_flight = take i (ts_in_flight s) @ drop (Suc i) (ts_in_flight s), ts_now = now\<rparr>, None)
         else (s\<lparr>ts_now := now\<rparr>, None))"

section \<open>The map of counters\<close>

definition pend :: "counters \<Rightarrow> throttle_key \<Rightarrow> nat" where
  "pend cs k = (case map_of cs k of Some c \<Rightarrow> ct_pending c | None \<Rightarrow> 0)"

lemma map_of_filter_distinct:
  "distinct (map fst cs) \<Longrightarrow>
   map_of (filter P cs) k = (case map_of cs k of Some c \<Rightarrow> if P (k, c) then Some c else None | None \<Rightarrow> None)"
  by (induction cs) (force split: option.splits dest: map_of_SomeD)+

lemma length_aput_eq: "length (aput k v m) = (if map_of m k = None then Suc (length m) else length m)"
  using arg_cong [OF keys_aput [of k v m], of length] by (auto simp: map_of_eq_None_iff split: if_splits)

lemma distinct_bremove: "distinct (map fst m) \<Longrightarrow> distinct (map fst (bremove k m))"
  by (simp add: bremove_def distinct_map_filter)

lemma length_bremove: "length (bremove k m) \<le> length m"
  by (simp add: bremove_def)

text \<open>A map that is well formed: keys once, not more of them than there is room for.\<close>

definition counters_ok :: "nat \<Rightarrow> counters \<Rightarrow> bool" where
  "counters_ok capacity cs \<longleftrightarrow> distinct (map fst cs) \<and> length cs \<le> capacity"

lemma make_room_ok: "counters_ok capacity cs \<Longrightarrow> counters_ok capacity (make_room p capacity key now cs)"
  by (auto simp: counters_ok_def make_room_def distinct_map_filter intro: le_trans [OF length_filter_le])

lemma map_of_make_room:
  assumes "distinct (map fst cs)"
  shows "map_of (make_room p capacity key now cs) k = map_of cs k \<or>
    (\<exists>c. map_of cs k = Some c \<and> expired c (rule_of p k) now \<and> map_of (make_room p capacity key now cs) k = None)"
  using assms by (auto simp: make_room_def map_of_filter_distinct split: option.split)

lemma map_of_make_room_key:
  "distinct (map fst cs) \<Longrightarrow> map_of (make_room p capacity key now cs) key = map_of cs key"
  by (auto simp: make_room_def map_of_filter_distinct)

lemma counter_at_None:
  assumes "counter_at p capacity key now cs = (None, cs')" and "counters_ok capacity cs"
  shows "counters_ok capacity cs' \<and> cs' = make_room p capacity key now cs \<and> map_of cs key = None"
  using assms make_room_ok by (auto simp: counter_at_def Let_def split: if_splits)

lemma counter_at_Some:
  assumes "counter_at p capacity key now cs = (Some c, cs')" and "counters_ok capacity cs"
  shows "counters_ok capacity cs' \<and> c = restarted (rule_of p key) now (map_of cs key) \<and>
    map_of cs' = (map_of (make_room p capacity key now cs))(key \<mapsto> c)"
proof -
  let ?cs = "make_room p capacity key now cs"
  have d: "distinct (map fst cs)" and ok: "counters_ok capacity ?cs"
    using assms(2) make_room_ok by (simp_all add: counters_ok_def)
  from assms(1) have eq: "c = restarted (rule_of p key) now (map_of cs key)" "cs' = aput key c ?cs"
    and room: "map_of cs key = None \<longrightarrow> length ?cs < capacity"
    by (auto simp: counter_at_def Let_def map_of_make_room_key [OF d] split: if_splits)
  have "counters_ok capacity cs'"
    using ok room by (auto simp: eq(2) counters_ok_def distinct_aput length_aput_eq map_of_make_room_key [OF d])
  with eq show ?thesis by simp
qed

lemma counter_at_ok:
  assumes "counter_at p capacity key now cs = (oc, cs')" and "counters_ok capacity cs"
  shows "counters_ok capacity cs'"
proof (cases oc)
  case None
  with counter_at_None [of p capacity key now cs cs'] assms show ?thesis by blast
next
  case (Some c)
  with counter_at_Some [of p capacity key now cs c cs'] assms show ?thesis by blast
qed

lemma pend_restarted: "ct_pending (restarted rule now slot) = (case slot of Some c \<Rightarrow> ct_pending c | None \<Rightarrow> 0)"
  by (simp add: restarted_def Let_def fresh_counter_def split: option.split)

lemma pend_make_room: "distinct (map fst cs) \<Longrightarrow> pend (make_room p capacity key now cs) k = pend cs k"
  using map_of_make_room [of cs p capacity key now k] by (auto simp: pend_def expired_def)

lemma pend_counter_at:
  assumes "counter_at p capacity key now cs = (oc, cs')" and "counters_ok capacity cs"
  shows "pend cs' k = pend cs k"
proof -
  have d: "distinct (map fst cs)" using assms(2) by (simp add: counters_ok_def)
  show ?thesis
  proof (cases oc)
    case None
    with counter_at_None [of p capacity key now cs cs'] assms show ?thesis by (simp add: pend_make_room [OF d])
  next
    case (Some c)
    with counter_at_Some [of p capacity key now cs c cs'] assms
    have c: "c = restarted (rule_of p key) now (map_of cs key)"
      "map_of cs' = (map_of (make_room p capacity key now cs))(key \<mapsto> c)" by simp_all
    show ?thesis
    proof (cases "k = key")
      case True
      with c show ?thesis by (simp add: pend_def pend_restarted)
    next
      case False
      with c have "pend cs' k = pend (make_room p capacity key now cs) k" by (simp add: pend_def)
      then show ?thesis by (simp add: pend_make_room [OF d])
    qed
  qed
qed

section \<open>One settlement\<close>

lemma ok_release: "counters_ok capacity cs \<Longrightarrow> counters_ok capacity (release key cs)"
  by (auto simp: release_def counters_ok_def distinct_aput length_aput_eq split: option.split)

lemma ok_count_failure:
  assumes "counters_ok capacity cs"
  shows "counters_ok capacity (count_failure p capacity now key cs)"
proof -
  obtain oc cs' where r: "counter_at p capacity key now cs = (oc, cs')" by (rule prod.exhaust)
  note ok = counter_at_ok [OF r assms]
  show ?thesis
  proof (cases oc)
    case None
    with r ok show ?thesis by (simp add: count_failure_def)
  next
    case (Some c)
    with counter_at_Some [of p capacity key now cs c cs'] assms r
    have "counters_ok capacity cs'" "map_of cs' key = Some c" by simp_all
    with r Some show ?thesis by (simp add: count_failure_def counters_ok_def distinct_aput length_aput_eq)
  qed
qed

lemma ok_forgive: "counters_ok capacity cs \<Longrightarrow> counters_ok capacity (forgive key cs)"
  by (cases key) (auto simp: counters_ok_def distinct_aput length_aput_eq split: option.split)

lemma ok_tidy: "counters_ok capacity cs \<Longrightarrow> counters_ok capacity (tidy key cs)"
  by (auto simp: tidy_def counters_ok_def distinct_bremove split: option.split
      intro: le_trans [OF length_bremove])

lemma ok_settle_key: "counters_ok capacity cs \<Longrightarrow> counters_ok capacity (settle_key p capacity oc now x cs)"
  by (cases x; cases oc)
    (auto simp: settle_key_def Let_def ok_release ok_count_failure ok_forgive ok_tidy)

lemma ok_settle_in: "counters_ok (th_capacity t) cs \<Longrightarrow> counters_ok (th_capacity t) (settle_in t keys oc now cs)"
  unfolding settle_in_def by (induction keys arbitrary: cs) (simp_all add: ok_settle_key)

lemma pend_release: "pend (release key cs) k = (if k = key then pend cs key - 1 else pend cs k)"
  by (auto simp: release_def pend_def split: option.split)

lemma pend_count_failure:
  assumes "counters_ok capacity cs"
  shows "pend (count_failure p capacity now key cs) k = pend cs k"
proof -
  obtain oc cs' where r: "counter_at p capacity key now cs = (oc, cs')" by (rule prod.exhaust)
  note same = pend_counter_at [OF r assms, of k]
  show ?thesis
  proof (cases oc)
    case None
    with r same show ?thesis by (simp add: count_failure_def)
  next
    case (Some c)
    with counter_at_Some [of p capacity key now cs c cs'] assms r have "map_of cs' key = Some c" by simp
    then have "pend (aput key (struck (rule_of p key) now c) cs') k = pend cs' k"
      by (auto simp: pend_def struck_def Let_def)
    with r Some same show ?thesis by (simp add: count_failure_def)
  qed
qed

lemma pend_forgive: "pend (forgive key cs) k = pend cs k"
  by (cases key) (auto simp: pend_def split: option.split)

lemma pend_tidy: "pend (tidy key cs) k = pend cs k"
  by (auto simp: tidy_def pend_def split: option.split)

lemma pend_settle_key:
  "counters_ok capacity cs \<Longrightarrow>
   pend (settle_key p capacity oc now (key, reserved) cs) k = pend cs k - (if k = key \<and> reserved then 1 else 0)"
  by (cases oc) (simp_all add: settle_key_def Let_def pend_tidy pend_forgive pend_release pend_count_failure ok_release)

lemma pend_settle_in:
  assumes "counters_ok (th_capacity t) cs" and "distinct (map fst keys)"
  shows "pend (settle_in t keys oc now cs) k = pend cs k - (if (k, True) \<in> set keys then 1 else 0)"
  using assms unfolding settle_in_def
proof (induction keys arbitrary: cs)
  case (Cons x keys)
  obtain key reserved where x: "x = (key, reserved)" by (rule prod.exhaust)
  have fresh: "(key, b) \<notin> set keys" for b using Cons.prems(2) x by force
  from Cons.IH [OF ok_settle_key [OF Cons.prems(1)], of "th_policy t" oc now x] Cons.prems
  show ?case using fresh by (auto simp: x pend_settle_key)
qed simp

section \<open>One attempt\<close>

lemma reserve_loop_ok:
  assumes "reserve_loop t now keys reserved cs = (r, cs')" and "counters_ok (th_capacity t) cs"
  shows "counters_ok (th_capacity t) cs'"
  using assms
proof (induction t now keys reserved cs rule: reserve_loop.induct)
  case (2 t now key keys reserved cs)
  obtain oc cs1 where c: "counter_at (th_policy t) (th_capacity t) key now cs = (oc, cs1)" by (rule prod.exhaust)
  show ?case
  proof (cases oc)
    case None
    have "counters_ok (th_capacity t) cs1" by (rule counter_at_ok [OF c "2.prems"(2)])
    with "2.prems"(1) "2.IH"(1) [OF c [symmetric, unfolded None] refl] c None show ?thesis
      by (auto simp: ok_settle_in split: if_splits)
  next
    case (Some x)
    with counter_at_Some [of "th_policy t" "th_capacity t" key now cs x cs1] "2.prems"(2) c
    have "counters_ok (th_capacity t) cs1" "map_of cs1 key = Some x" by simp_all
    then have "counters_ok (th_capacity t) (aput key (x\<lparr>ct_pending := ct_pending x + 1\<rparr>) cs1)"
      by (simp add: counters_ok_def distinct_aput length_aput_eq)
    with "2.prems"(1) "2.IH"(2) [OF c [symmetric, unfolded Some] refl] c Some show ?thesis by simp
  qed
qed simp

text \<open>The reservations a run of the loop makes, and that a refusal gives all of them back.\<close>

lemma reserve_loop_pend:
  assumes "reserve_loop t now keys reserved cs = (r, cs')" and "counters_ok (th_capacity t) cs"
    and "distinct (map fst reserved @ keys)"
  shows "(case r of
      Ok a \<Rightarrow> map fst a = map fst reserved @ keys \<and> (\<exists>new. a = reserved @ new) \<and>
        (\<forall>k. pend cs' k = pend cs k + (if k \<in> set keys \<and> (k, True) \<in> set a then 1 else 0))
    | Err e \<Rightarrow> e = Full \<and> (\<forall>k. pend cs' k = pend cs k - (if (k, True) \<in> set reserved then 1 else 0)))"
  using assms
proof (induction t now keys reserved cs rule: reserve_loop.induct)
  case (2 t now key keys reserved cs)
  obtain oc cs1 where c: "counter_at (th_policy t) (th_capacity t) key now cs = (oc, cs1)" by (rule prod.exhaust)
  note same = pend_counter_at [OF c "2.prems"(2)]
  show ?case
  proof (cases oc)
    case None
    have ok: "counters_ok (th_capacity t) cs1" by (rule counter_at_ok [OF c "2.prems"(2)])
    show ?thesis
    proof (cases "po_fail_closed (th_policy t)")
      case True
      with "2.prems"(1) c None have eq: "r = Err Full" "cs' = settle_in t reserved Refunded now cs1" by simp_all
      have "distinct (map fst reserved)" using "2.prems"(3) by simp
      with eq pend_settle_in [OF ok this] same show ?thesis by simp
    next
      case False
      with "2.prems"(1) c None have run: "reserve_loop t now keys (reserved @ [(key, False)]) cs1 = (r, cs')" by simp
      have "distinct (map fst (reserved @ [(key, False)]) @ keys)" using "2.prems"(3) by simp
      from "2.IH"(1) [OF c [symmetric, unfolded None] refl False run ok this] "2.prems"(3) same show ?thesis
        by (cases r) (force simp: image_iff)+
    qed
  next
    case (Some x)
    let ?cs = "aput key (x\<lparr>ct_pending := ct_pending x + 1\<rparr>) cs1"
    have x: "map_of cs1 key = Some x" and ok1: "counters_ok (th_capacity t) cs1"
      using counter_at_Some [of "th_policy t" "th_capacity t" key now cs x cs1] "2.prems"(2) c Some by simp_all
    then have ok: "counters_ok (th_capacity t) ?cs" by (simp add: counters_ok_def distinct_aput length_aput_eq)
    have p: "pend ?cs k = pend cs k + (if k = key then 1 else 0)" for k
      using same [of k] x by (auto simp: pend_def)
    have run: "reserve_loop t now keys (reserved @ [(key, True)]) ?cs = (r, cs')" using "2.prems"(1) c Some by simp
    have "distinct (map fst (reserved @ [(key, True)]) @ keys)" using "2.prems"(3) by simp
    from "2.IH"(2) [OF c [symmetric, unfolded Some] refl run ok this] "2.prems"(3) p show ?thesis
      by (cases r) (auto simp: image_iff)
  qed
qed auto

section \<open>What holds of every counter\<close>

text \<open>
  A property of counters that making, restarting, reserving, releasing, striking and forgiving
  one keep is kept by every operation on the map.
\<close>

definition each :: "(throttle_key \<Rightarrow> counter \<Rightarrow> bool) \<Rightarrow> counters \<Rightarrow> bool" where
  "each P cs \<longleftrightarrow> (\<forall>k c. map_of cs k = Some c \<longrightarrow> P k c)"

lemma each_aput: "each P cs \<Longrightarrow> P k c \<Longrightarrow> each P (aput k c cs)"
  by (auto simp: each_def)

locale counter_property =
  fixes p :: policy
    and now :: nat
    and P :: "throttle_key \<Rightarrow> counter \<Rightarrow> bool"
  assumes made: "P k (fresh_counter now)"
    and restart: "P k c \<Longrightarrow> P k ((fresh_counter now)\<lparr>ct_pending := ct_pending c\<rparr>)"
    and reserved: "P k c \<Longrightarrow> P k (c\<lparr>ct_pending := n\<rparr>)"
    and strike: "P k c \<Longrightarrow> P k (struck (rule_of p k) now c)"
    and forgiven: "P k c \<Longrightarrow> P k (c\<lparr>ct_failures := 0, ct_locked_until := None\<rparr>)"
begin

lemma each_restarted: "each P cs \<Longrightarrow> P k (restarted (rule_of p k) now (map_of cs k))"
  using made restart by (auto simp: restarted_def Let_def each_def split: option.split)

lemma each_make_room: "counters_ok capacity cs \<Longrightarrow> each P cs \<Longrightarrow> each P (make_room p capacity key now cs)"
  by (auto simp: each_def counters_ok_def make_room_def map_of_filter_distinct split: option.splits if_splits)

lemma each_counter_at:
  assumes "counter_at p capacity key now cs = (oc, cs')" and "counters_ok capacity cs" and "each P cs"
  shows "each P cs' \<and> (\<forall>c. oc = Some c \<longrightarrow> P key c)"
proof (cases oc)
  case None
  with counter_at_None [of p capacity key now cs cs'] assms each_make_room show ?thesis by simp
next
  case (Some c)
  with counter_at_Some [of p capacity key now cs c cs'] assms
  have "c = restarted (rule_of p key) now (map_of cs key)"
    "map_of cs' = (map_of (make_room p capacity key now cs))(key \<mapsto> c)" by simp_all
  with each_restarted [OF assms(3), of key] each_make_room [OF assms(2,3), of key] Some show ?thesis
    by (auto simp: each_def)
qed

lemma each_settle_key:
  assumes "counters_ok capacity cs" and "each P cs"
  shows "each P (settle_key p capacity oc now x cs)"
proof -
  obtain key b where x: "x = (key, b)" by (rule prod.exhaust)
  let ?cs = "if b then release key cs else cs"
  have ok: "counters_ok capacity ?cs" using assms(1) ok_release by simp
  have rel: "each P ?cs" using assms(2) reserved by (auto simp: release_def each_def split: option.splits)
  have fail: "each P (count_failure p capacity now key ?cs)"
  proof -
    obtain oc cs' where r: "counter_at p capacity key now ?cs = (oc, cs')" by (rule prod.exhaust)
    with each_counter_at [OF r ok rel] strike show ?thesis
      by (auto simp: count_failure_def each_aput split: option.split)
  qed
  have forg: "each P (forgive key ?cs)"
    using rel forgiven by (cases key) (auto simp: each_def split: option.split)
  have tidied: "each P (tidy key cs)" if "each P cs" for cs
    using that by (auto simp: tidy_def each_def split: option.split)
  show ?thesis using rel fail forg tidied by (cases oc) (simp_all add: x settle_key_def Let_def)
qed

lemma each_settle_in:
  assumes "th_policy t = p" and "counters_ok (th_capacity t) cs" and "each P cs"
  shows "each P (settle_in t keys oc now cs)"
  using assms(2,3) unfolding settle_in_def assms(1)
  by (induction keys arbitrary: cs) (simp_all add: ok_settle_key each_settle_key)

lemma each_reserve_loop:
  assumes "reserve_loop t now keys rs cs = (r, cs')" and "th_policy t = p"
    and "counters_ok (th_capacity t) cs" and "each P cs"
  shows "each P cs'"
  using assms(1,3,4)
proof (induction keys arbitrary: rs cs)
  case (Cons key keys)
  obtain oc cs1 where c: "counter_at p (th_capacity t) key now cs = (oc, cs1)" by (rule prod.exhaust)
  note ok1 = counter_at_ok [OF c Cons.prems(2)] and each1 = each_counter_at [OF c Cons.prems(2,3)]
  show ?case
  proof (cases oc)
    case None
    with Cons.prems(1) c Cons.IH [OF _ ok1 conjunct1 [OF each1]] each_settle_in [OF assms(2) ok1 conjunct1 [OF each1]]
    show ?thesis by (auto simp: assms(2) split: if_splits)
  next
    case (Some x)
    let ?cs = "aput key (x\<lparr>ct_pending := ct_pending x + 1\<rparr>) cs1"
    have "map_of cs1 key = Some x"
      using counter_at_Some [of p "th_capacity t" key now cs x cs1] Cons.prems(2) c Some by simp
    then have "counters_ok (th_capacity t) ?cs" using ok1 by (simp add: counters_ok_def distinct_aput length_aput_eq)
    moreover have "each P ?cs" using each1 Some reserved by (simp add: each_aput)
    ultimately show ?thesis using Cons.IH [of "rs @ [(key, True)]" ?cs] Cons.prems(1) c Some by (simp add: assms(2))
  qed
qed simp

end

text \<open>The times of a counter: it began, and a lock runs at least its length from there.\<close>

definition timed :: "policy \<Rightarrow> nat \<Rightarrow> throttle_key \<Rightarrow> counter \<Rightarrow> bool" where
  "timed p now k c \<longleftrightarrow> ct_since c \<le> now \<and>
     (\<forall>u. ct_locked_until c = Some u \<longrightarrow> ct_since c + ru_lock (rule_of p k) \<le> u)"

interpretation times: counter_property p now "timed p now" for p now
  by unfold_locales
    (auto simp: timed_def fresh_counter_def struck_def Let_def)

text \<open>A counter at its limit has a lock.\<close>

definition spent_locked :: "policy \<Rightarrow> throttle_key \<Rightarrow> counter \<Rightarrow> bool" where
  "spent_locked p k c \<longleftrightarrow>
     (0 < ru_limit (rule_of p k) \<longrightarrow> ru_limit (rule_of p k) \<le> ct_failures c \<longrightarrow> (\<exists>u. ct_locked_until c = Some u))"

interpretation spent: counter_property p now "spent_locked p" for p now
  by unfold_locales (auto simp: spent_locked_def fresh_counter_def struck_def Let_def locked_def split: option.splits if_splits)

end
