(* ===== verification/Throttle_Props.thy ===== *)
theory Throttle_Props
  imports Throttle_Sound "HOL-Library.Code_Target_Nat"
begin

text \<open>The properties of the attempt limits.\<close>

section \<open>The invariant\<close>

definition reservations :: "attempt list \<Rightarrow> throttle_key \<Rightarrow> nat" where
  "reservations fl k = length (filter (\<lambda>a. (k, True) \<in> set a) fl)"

definition throttle_ok :: "throttle \<Rightarrow> throttle_state \<Rightarrow> bool" where
  "throttle_ok t s \<longleftrightarrow> counters_ok (th_capacity t) (ts_counters s) \<and>
     (\<forall>a \<in> set (ts_in_flight s). distinct (map fst a)) \<and>
     (\<forall>k. pend (ts_counters s) k = reservations (ts_in_flight s) k) \<and>
     each (timed (th_policy t) (ts_now s)) (ts_counters s) \<and> each (spent_locked (th_policy t)) (ts_counters s)"

lemma timed_later: "each (timed p now) cs \<Longrightarrow> now \<le> now' \<Longrightarrow> each (timed p now') cs"
  by (fastforce simp: each_def timed_def)

lemma distinct_attempt_keys: "distinct (attempt_keys D p name addr)"
  by (auto simp: attempt_keys_def key_pair_def distinct_map inj_on_def split: option.split)

lemma reservations_remove:
  "i < length fl \<Longrightarrow> reservations (take i fl @ drop (Suc i) fl) k =
     reservations fl k - (if (k, True) \<in> set (fl ! i) then 1 else 0)"
  by (subst (3) id_take_nth_drop [of i fl]) (simp_all add: reservations_def)

lemma throttle_ok_begin:
  assumes "throttle_ok t s" and "reserve_at D t name addr now (ts_counters s) = (r, cs)" and "ts_now s \<le> now"
  shows "throttle_ok t \<lparr>ts_counters = cs,
    ts_in_flight = (case r of Ok a \<Rightarrow> ts_in_flight s @ [a] | Err _ \<Rightarrow> ts_in_flight s), ts_now = now\<rparr>"
proof -
  let ?keys = "attempt_keys D (th_policy t) name addr"
  have ok: "counters_ok (th_capacity t) (ts_counters s)" and times: "each (timed (th_policy t) now) (ts_counters s)"
    and acc: "\<forall>k. pend (ts_counters s) k = reservations (ts_in_flight s) k"
    using assms(1,3) timed_later by (auto simp: throttle_ok_def)
  show ?thesis
  proof (cases "longest_wait (th_policy t) now (ts_counters s) ?keys")
    case (Some w)
    with assms times show ?thesis by (auto simp: reserve_at_def throttle_ok_def)
  next
    case None
    with assms(2) have run: "reserve_loop t now ?keys [] (ts_counters s) = (r, cs)" by (simp add: reserve_at_def)
    have dist: "distinct (map fst [] @ ?keys)" by (simp add: distinct_attempt_keys)
    note pend = reserve_loop_pend [OF run ok dist]
    have keys: "map fst a = ?keys" if "r = Ok a" for a using pend that by simp
    have a: "distinct (map fst a)" "(k, True) \<in> set a \<longrightarrow> k \<in> set ?keys" if "r = Ok a" for a k
      using distinct_attempt_keys [of D "th_policy t" name addr] unfolding keys [OF that, symmetric]
      by (auto simp: rev_image_eqI)
    have "throttle_ok t s" by (rule assms(1))
    moreover have "each (spent_locked (th_policy t)) cs"
      using spent.each_reserve_loop [OF run refl ok] assms(1) by (simp add: throttle_ok_def)
    ultimately show ?thesis
      using reserve_loop_ok [OF run ok] times.each_reserve_loop [OF run refl ok times] pend a acc
      by (auto simp: throttle_ok_def reservations_def split: sum.splits)
  qed
qed

lemma settle_attempt_eq:
  "settle_attempt t a oc now cs = settle_in t a (case oc of Some x \<Rightarrow> x | None \<Rightarrow> po_on_drop (th_policy t)) now cs"
  by (auto simp: settle_attempt_def settle_in_def split: option.split)

lemma throttle_ok_settle:
  assumes "throttle_ok t s" and "i < length (ts_in_flight s)" and "ts_now s \<le> now"
  shows "throttle_ok t \<lparr>ts_counters = settle_attempt t (ts_in_flight s ! i) oc now (ts_counters s),
    ts_in_flight = take i (ts_in_flight s) @ drop (Suc i) (ts_in_flight s), ts_now = now\<rparr>"
proof -
  let ?a = "ts_in_flight s ! i"
  have ok: "counters_ok (th_capacity t) (ts_counters s)" and times: "each (timed (th_policy t) now) (ts_counters s)"
    and acc: "\<forall>k. pend (ts_counters s) k = reservations (ts_in_flight s) k" and a: "distinct (map fst ?a)"
    using assms timed_later by (auto simp: throttle_ok_def)
  have "each (spent_locked (th_policy t)) (settle_in t ?a x now (ts_counters s))" for x
    using spent.each_settle_in [OF refl ok] assms(1) by (simp add: throttle_ok_def)
  then show ?thesis
    using ok_settle_in [OF ok] times.each_settle_in [OF refl ok times] pend_settle_in [OF ok a] acc assms(1,2)
    by (auto simp: throttle_ok_def settle_attempt_eq reservations_remove dest: in_set_takeD in_set_dropD)
qed

interpretation throttle: machine initial_throttle "throttle_step D t" "throttle_ok t" for D t
proof
  show "throttle_ok t initial_throttle"
    by (simp add: throttle_ok_def initial_throttle_def counters_ok_def pend_def reservations_def each_def)
  show "throttle_ok t (fst (throttle_step D t e s))" if "throttle_ok t s" for e s
  proof (cases e)
    case (Pair dt ev)
    show ?thesis
    proof (cases ev)
      case (Begin name addr)
      obtain r cs where "reserve_at D t name addr (ts_now s + dt) (ts_counters s) = (r, cs)" by (rule prod.exhaust)
      with throttle_ok_begin [OF that this] Pair Begin show ?thesis by (cases r) simp_all
    next
      case (Settle i oc)
      with throttle_ok_settle [OF that, of i "ts_now s + dt" oc] Pair that timed_later show ?thesis
        by (auto simp: Let_def throttle_ok_def)
    qed
  qed
qed

section \<open>Accounting\<close>

text \<open>
  C30: whatever attempts begin, fail, succeed, are refunded or dropped, in whatever order, a
  counter's reservations are exactly the attempts in flight that hold one: none leaks, none is
  given back twice; and the counters never outgrow their capacity.
\<close>

theorem throttle_accounting:
  "(\<forall>k. (case map_of (ts_counters (run_state (throttle_step D t) es initial_throttle)) k of
       Some c \<Rightarrow> ct_pending c | None \<Rightarrow> 0) =
     length (filter (\<lambda>a. (k, True) \<in> set a) (ts_in_flight (run_state (throttle_step D t) es initial_throttle)))) \<and>
   length (ts_counters (run_state (throttle_step D t) es initial_throttle)) \<le> th_capacity t"
  using throttle.run_ok [of t D es]
  by (auto simp: throttle_ok_def counters_ok_def pend_def reservations_def)

section \<open>Locks\<close>

text \<open>Failed attempts from one address, one after the other, for the witnesses.\<close>

definition sample_digests :: digests where
  "sample_digests = \<lparr>dg_sha256 = id, dg_lower = id\<rparr>"

definition failed_attempts :: "nat \<Rightarrow> (nat \<times> throttle_event) list" where
  "failed_attempts n = concat (replicate n [(0, Begin None (V4 1)), (0, Settle 0 (Some Failed))])"

definition after_failures :: "throttle \<Rightarrow> nat \<Rightarrow> throttle_state" where
  "after_failures t n = run_state (throttle_step sample_digests t) (failed_attempts n) initial_throttle"

lemma five_sign_ups:
  "map_of (ts_counters (after_failures sign_ups 5)) (Address (bucket (V4 1)) 0) =
     Some \<lparr>ct_failures = 5, ct_pending = 0, ct_since = 0, ct_locked_until = Some (from_secs 600)\<rparr>"
  by code_simp

definition locked_at :: "counters \<Rightarrow> throttle_key \<Rightarrow> nat \<Rightarrow> bool" where
  "locked_at cs k u \<longleftrightarrow> (\<exists>c. map_of cs k = Some c \<and> ct_locked_until c = Some u)"

lemma lock_restarted: "ct_locked_until c = Some u \<Longrightarrow> now < u \<Longrightarrow> restarted rule now (Some c) = c"
  by (simp add: restarted_def lapsed_def locked_def)

lemma lock_make_room:
  assumes "counters_ok capacity cs" and "locked_at cs k u" and "now < u"
  shows "locked_at (make_room p capacity key now cs) k u"
  using assms by (auto simp: locked_at_def counters_ok_def make_room_def map_of_filter_distinct expired_def lapsed_def locked_def)

lemma lock_counter_at:
  assumes "counter_at p capacity key now cs = (oc, cs')" and "counters_ok capacity cs"
    and "locked_at cs k u" and "now < u"
  shows "locked_at cs' k u \<and> (\<forall>c. oc = Some c \<and> key = k \<longrightarrow> ct_locked_until c = Some u)"
proof (cases oc)
  case None
  with counter_at_None [of p capacity key now cs cs'] assms lock_make_room show ?thesis by simp
next
  case (Some c)
  with counter_at_Some [of p capacity key now cs c cs'] assms
  have c: "c = restarted (rule_of p key) now (map_of cs key)"
    "map_of cs' = (map_of (make_room p capacity key now cs))(key \<mapsto> c)" by simp_all
  have "ct_locked_until c = Some u" if "key = k"
    using assms(3,4) c(1) that by (auto simp: locked_at_def lock_restarted)
  with lock_make_room [OF assms(2-4), of p key] c(2) Some show ?thesis by (auto simp: locked_at_def)
qed

lemma lock_settle_key:
  assumes "counters_ok capacity cs" and "locked_at cs (Address a w) u" and "now < u"
  shows "locked_at (settle_key p capacity oc now x cs) (Address a w) u"
proof -
  obtain key b where x: "x = (key, b)" by (rule prod.exhaust)
  let ?cs = "if b then release key cs else cs"
  have ok: "counters_ok capacity ?cs" using assms(1) ok_release by simp
  have rel: "locked_at ?cs (Address a w) u" using assms(2) by (auto simp: release_def locked_at_def split: option.split)
  have fail: "locked_at (count_failure p capacity now key ?cs) (Address a w) u"
  proof -
    obtain o' cs' where r: "counter_at p capacity key now ?cs = (o', cs')" by (rule prod.exhaust)
    with lock_counter_at [OF r ok rel assms(3)] assms(3) show ?thesis
      by (auto simp: count_failure_def locked_at_def struck_def Let_def locked_def split: option.split)
  qed
  have forg: "locked_at (forgive key ?cs) (Address a w) u"
    using rel by (cases key) (auto simp: locked_at_def split: option.split)
  have tidied: "locked_at (tidy key cs) (Address a w) u" if "locked_at cs (Address a w) u" for cs
    using that by (auto simp: tidy_def locked_at_def split: option.split)
  show ?thesis using rel fail forg tidied by (cases oc) (simp_all add: x settle_key_def Let_def)
qed

lemma lock_settle_in:
  assumes "counters_ok (th_capacity t) cs" and "locked_at cs (Address a w) u" and "now < u"
  shows "locked_at (settle_in t keys oc now cs) (Address a w) u"
  using assms unfolding settle_in_def
  by (induction keys arbitrary: cs) (simp_all add: ok_settle_key lock_settle_key)

lemma lock_reserve_loop:
  assumes "reserve_loop t now keys rs cs = (r, cs')" and "counters_ok (th_capacity t) cs"
    and "locked_at cs (Address a w) u" and "now < u"
  shows "locked_at cs' (Address a w) u"
  using assms
proof (induction keys arbitrary: rs cs)
  case (Cons key keys)
  obtain oc cs1 where c: "counter_at (th_policy t) (th_capacity t) key now cs = (oc, cs1)" by (rule prod.exhaust)
  note ok1 = counter_at_ok [OF c Cons.prems(2)] and lock1 = lock_counter_at [OF c Cons.prems(2-4)]
  show ?case
  proof (cases oc)
    case None
    with Cons.prems c Cons.IH [OF _ ok1] lock1 lock_settle_in [OF ok1] show ?thesis by (auto split: if_splits)
  next
    case (Some x)
    let ?cs = "aput key (x\<lparr>ct_pending := ct_pending x + 1\<rparr>) cs1"
    have "map_of cs1 key = Some x"
      using counter_at_Some [of "th_policy t" "th_capacity t" key now cs x cs1] Cons.prems(2) c Some by simp
    then have "counters_ok (th_capacity t) ?cs" using ok1 by (simp add: counters_ok_def distinct_aput length_aput_eq)
    moreover have "locked_at ?cs (Address a w) u" using lock1 Some by (auto simp: locked_at_def)
    ultimately show ?thesis using Cons.IH [of "rs @ [(key, True)]" ?cs] Cons.prems c Some by simp
  qed
qed simp

lemma now_step [simp]: "ts_now (fst (throttle_step D t (dt, e) s)) = ts_now s + dt"
  by (cases e) (auto simp: Let_def split: prod.split sum.split)

lemma lock_step:
  assumes "throttle_ok t s" and "locked_at (ts_counters s) (Address a w) u" and "ts_now s + dt < u"
  shows "locked_at (ts_counters (fst (throttle_step D t (dt, e) s))) (Address a w) u"
proof (cases e)
  case (Begin name addr)
  let ?now = "ts_now s + dt"
  have ok: "counters_ok (th_capacity t) (ts_counters s)" using assms(1) by (simp add: throttle_ok_def)
  obtain r cs where r: "reserve_at D t name addr ?now (ts_counters s) = (r, cs)" by (rule prod.exhaust)
  have "locked_at cs (Address a w) u"
    using r assms(2) lock_reserve_loop [OF _ ok assms(2,3)]
    by (auto simp: reserve_at_def Let_def split: option.splits)
  then show ?thesis using r by (simp add: Begin Let_def split: sum.split)
next
  case (Settle i oc)
  have ok: "counters_ok (th_capacity t) (ts_counters s)" using assms(1) by (simp add: throttle_ok_def)
  show ?thesis
    using lock_settle_in [OF ok assms(2,3)] assms(2)
    by (auto simp: Settle Let_def settle_attempt_def split: option.split)
qed

lemma now_mono: "ts_now s \<le> ts_now (run_state (throttle_step D t) es s)"
proof (induction es arbitrary: s)
  case (Cons e es)
  obtain dt ev where e: "e = (dt, ev)" by (rule prod.exhaust)
  have "ts_now s \<le> ts_now (fst (throttle_step D t e s))" unfolding e now_step by simp
  also note Cons.IH [of "fst (throttle_step D t e s)"]
  finally show ?case by (simp only: run_steps_Cons)
qed simp

lemma lock_run:
  assumes "throttle_ok t s" and "locked_at (ts_counters s) (Address a w) u"
    and "ts_now (run_state (throttle_step D t) es s) < u"
  shows "locked_at (ts_counters (run_state (throttle_step D t) es s)) (Address a w) u"
  using assms
proof (induction es arbitrary: s)
  case (Cons e es)
  obtain dt ev where e: "e = (dt, ev)" by (rule prod.exhaust)
  let ?s = "fst (throttle_step D t e s)"
  have run: "run_state (throttle_step D t) (e # es) s = run_state (throttle_step D t) es ?s" by (rule run_steps_Cons)
  have "ts_now ?s < u" using now_mono [of ?s D t es] Cons.prems(3) unfolding run by simp
  then have "ts_now s + dt < u" unfolding e now_step .
  then have "locked_at (ts_counters ?s) (Address a w) u" unfolding e by (rule lock_step [OF Cons.prems(1,2)])
  with Cons.IH [OF throttle.step_ok [OF Cons.prems(1)]] Cons.prems(3) show ?case unfolding run by blast
qed simp

lemma in_map_filter_iff: "y \<in> set (List.map_filter f xs) \<longleftrightarrow> (\<exists>x \<in> set xs. f x = Some y)"
  by (induction xs) (auto split: option.split)

lemma longest_wait_ge:
  assumes "k \<in> set keys" and "map_of cs k = Some c" and "wait_of c (rule_of p k) now = Some x"
  obtains y where "longest_wait p now cs keys = Some y" and "x \<le> y"
proof -
  let ?ws = "List.map_filter (\<lambda>k. Option.bind (map_of cs k) (\<lambda>c. wait_of c (rule_of p k) now)) keys"
  have "x \<in> set ?ws" unfolding in_map_filter_iff using assms by (intro bexI [of _ k]) simp_all
  then have "longest_wait p now cs keys = Some (Max (set ?ws))" "x \<le> Max (set ?ws)"
    by (auto simp: longest_wait_def Let_def)
  with that show ?thesis by blast
qed

definition known_policy :: "throttle \<Rightarrow> bool" where
  "known_policy t \<longleftrightarrow> th_policy t = SIGN_IN \<or> th_policy t = SIGN_UP"

lemma known_address:
  assumes "known_policy t" and "w < length (po_address (th_policy t))"
  shows "0 < ru_limit (rule_of (th_policy t) (Address a w))" and "w < 256"
  using assms
  by (auto simp: known_policy_def SIGN_IN_def SIGN_UP_def ADDRESS_def SIGN_UP_BURST_def SIGN_UP_DAY_def less_Suc_eq)

lemma address_key: "w < length (po_address p) \<Longrightarrow> w < 256 \<Longrightarrow> Address (bucket addr) w \<in> set (attempt_keys D p name addr)"
  by (simp add: attempt_keys_def)

text \<open>
  When the failures an address has in a window reach the limit, no attempt from there gets
  through until the lock ends, whatever else happens meanwhile: not under another name, not by
  attempts settled late, and not by filling the map. The wait it is told reaches to the end of the
  lock at least.
\<close>

theorem address_lock_holds:
  assumes "known_policy t" and "w < length (po_address (th_policy t))"
    and "map_of (ts_counters (run_state (throttle_step D t) before initial_throttle)) (Address (bucket addr) w) = Some c"
    and "ru_limit (po_address (th_policy t) ! w) \<le> ct_failures c"
  shows "\<exists>u. ct_locked_until c = Some u \<and>
    (\<forall>es dt name. ts_now (run_state (throttle_step D t) (before @ es) initial_throttle) + dt < u \<longrightarrow>
      (\<exists>x. u - (ts_now (run_state (throttle_step D t) (before @ es) initial_throttle) + dt) \<le> x \<and>
         snd (throttle_step D t (dt, Begin name addr) (run_state (throttle_step D t) (before @ es) initial_throttle)) =
           Some (Err (Wait x))))"
proof -
  let ?run = "\<lambda>es. run_state (throttle_step D t) es initial_throttle"
  let ?k = "Address (bucket addr) w"
  note pos = known_address [OF assms(1,2)]
  have ok: "throttle_ok t (?run es)" for es by (rule throttle.run_ok)
  have "spent_locked (th_policy t) ?k c"
    using ok [of before] assms(3) by (simp add: throttle_ok_def each_def)
  then obtain u where u: "ct_locked_until c = Some u" using assms(4) pos(1) by (auto simp: spent_locked_def)
  then have lock: "locked_at (ts_counters (?run before)) ?k u" using assms(3) by (simp add: locked_at_def)
  have "\<exists>x. u - (ts_now (?run (before @ es)) + dt) \<le> x \<and>
      snd (throttle_step D t (dt, Begin name addr) (?run (before @ es))) = Some (Err (Wait x))"
    if early: "ts_now (?run (before @ es)) + dt < u" for es dt name
  proof -
    let ?s = "?run (before @ es)"
    have "locked_at (ts_counters ?s) ?k u"
      using lock_run [OF ok lock] early unfolding run_steps_append by simp
    then obtain c' where c': "map_of (ts_counters ?s) ?k = Some c'" "ct_locked_until c' = Some u"
      by (auto simp: locked_at_def)
    have "wait_of c' (rule_of (th_policy t) ?k) (ts_now ?s + dt) = Some (u - (ts_now ?s + dt))"
      using c'(2) early by (simp add: wait_of_def locked_def)
    from longest_wait_ge [OF address_key [OF assms(2) pos(2)] c'(1) this]
    obtain y where "longest_wait (th_policy t) (ts_now ?s + dt) (ts_counters ?s)
        (attempt_keys D (th_policy t) name addr) = Some y" "u - (ts_now ?s + dt) \<le> y" .
    then show ?thesis by (auto simp: reserve_at_def)
  qed
  with u show ?thesis by blast
qed

theorem address_lock_holds_witness:
  "\<exists>x. from_secs 600 - from_secs 599 \<le> x \<and>
     snd (throttle_step sample_digests sign_ups (from_secs 599, Begin (Some ''eve'') (V4 1)) (after_failures sign_ups 5)) =
       Some (Err (Wait x))"
proof -
  have known: "known_policy sign_ups" "0 < length (po_address (th_policy sign_ups))"
    "ru_limit (po_address (th_policy sign_ups) ! 0) \<le> 5"
    by (simp_all add: known_policy_def sign_ups_def SIGN_UP_def SIGN_UP_BURST_def)
  have now: "ts_now (after_failures sign_ups 5) + from_secs 599 < from_secs 600" by code_simp
  have zero: "ts_now (after_failures sign_ups 5) = 0" by code_simp
  from address_lock_holds [OF known(1,2) five_sign_ups [unfolded after_failures_def]] known(3)
  have "\<forall>es dt name. ts_now (run_state (throttle_step sample_digests sign_ups) (failed_attempts 5 @ es) initial_throttle) + dt
      < from_secs 600 \<longrightarrow>
      (\<exists>x. from_secs 600 - (ts_now (run_state (throttle_step sample_digests sign_ups) (failed_attempts 5 @ es) initial_throttle) + dt) \<le> x \<and>
        snd (throttle_step sample_digests sign_ups (dt, Begin name (V4 1))
          (run_state (throttle_step sample_digests sign_ups) (failed_attempts 5 @ es) initial_throttle)) = Some (Err (Wait x)))"
    by simp
  from this [rule_format, of "[]" "from_secs 599" "Some ''eve''"] now zero show ?thesis
    by (simp only: append_Nil2 after_failures_def [symmetric] add_0)
qed

section \<open>Waiting as told\<close>

lemma longest_wait_None:
  assumes "\<And>k c. k \<in> set keys \<Longrightarrow> map_of cs k = Some c \<Longrightarrow> wait_of c (rule_of p k) now = None"
  shows "longest_wait p now cs keys = None"
proof -
  let ?f = "\<lambda>k. Option.bind (map_of cs k) (\<lambda>c. wait_of c (rule_of p k) now)"
  have "?f k = None" if "k \<in> set keys" for k using assms [OF that] by (cases "map_of cs k") simp_all
  then have "x \<notin> set (List.map_filter ?f keys)" for x unfolding in_map_filter_iff by simp
  then have "List.map_filter ?f keys = []" by (metis list.set_intros(1) neq_Nil_conv)
  then show ?thesis by (simp add: longest_wait_def)
qed

text \<open>A counter without reservations, after the wait it gives.\<close>

lemma waited:
  assumes "timed p now k c" and "ct_pending c = 0" and "0 < ru_limit (rule_of p k)"
    and "ru_window (rule_of p k) \<le> ru_lock (rule_of p k)"
    and "\<forall>x. wait_of c (rule_of p k) now = Some x \<longrightarrow> x \<le> d"
  shows "wait_of c (rule_of p k) (now + d) = None"
proof -
  let ?r = "rule_of p k"
  have free: "locked c (now + d) = None"
    using assms(5) by (cases "ct_locked_until c") (auto simp: wait_of_def locked_def split: if_splits)
  show ?thesis
  proof (cases "wait_of c ?r now")
    case None
    then have "locked c now = None" and few: "lapsed c ?r now \<or> ct_failures c < ru_limit ?r"
      using assms(2) by (auto simp: wait_of_def Let_def split: option.splits if_splits)
    then have "lapsed c ?r now \<Longrightarrow> lapsed c ?r (now + d)" using free by (simp add: lapsed_def)
    with few free assms(2,3) show ?thesis by (auto simp: wait_of_def Let_def)
  next
    case (Some x)
    then have "x \<le> d" using assms(5) by simp
    have "ct_since c + ru_window ?r \<le> now + d"
    proof (cases "locked c now")
      case None
      with Some have "x = ru_lock ?r" by (auto simp: wait_of_def Let_def split: if_splits)
      with \<open>x \<le> d\<close> assms(1,4) show ?thesis by (simp add: timed_def)
    next
      case (Some y)
      then obtain u where "ct_locked_until c = Some u" by (auto simp: locked_def split: option.splits)
      with free assms(1,4) show ?thesis by (auto simp: timed_def locked_def split: if_splits)
    qed
    then have "lapsed c ?r (now + d)" using free by (simp add: lapsed_def)
    with free assms(2,3) show ?thesis by (simp add: wait_of_def Let_def)
  qed
qed

lemma reserve_loop_open: "\<not> po_fail_closed (th_policy t) \<Longrightarrow> \<exists>a. fst (reserve_loop t now keys rs cs) = Ok a"
proof (induction keys arbitrary: rs cs)
  case (Cons key keys)
  obtain oc cs1 where "counter_at (th_policy t) (th_capacity t) key now cs = (oc, cs1)" by (rule prod.exhaust)
  with Cons.IH [OF Cons.prems] Cons.prems show ?case by (cases oc) simp_all
qed simp

lemma sign_in_rules:
  assumes "k \<in> set (attempt_keys D SIGN_IN name addr)"
  shows "0 < ru_limit (rule_of SIGN_IN k) \<and> ru_window (rule_of SIGN_IN k) \<le> ru_lock (rule_of SIGN_IN k)"
  using assms
  by (auto simp: attempt_keys_def SIGN_IN_def key_pair_def PAIR_def ADDRESS_def split: option.splits)

text \<open>What attempts under other keys do to a counter: nothing, or drop it when it has expired.\<close>

definition kept_or_gone :: "throttle_key \<Rightarrow> counters \<Rightarrow> counters \<Rightarrow> bool" where
  "kept_or_gone k cs cs' \<longleftrightarrow> map_of cs' k = map_of cs k \<or> map_of cs' k = None"

lemma kept_refl [simp]: "kept_or_gone k cs cs"
  by (simp add: kept_or_gone_def)

lemma kept_trans: "kept_or_gone k cs cs1 \<Longrightarrow> kept_or_gone k cs1 cs2 \<Longrightarrow> kept_or_gone k cs cs2"
  by (auto simp: kept_or_gone_def)

lemma kept_aput: "kept_or_gone k cs cs' \<Longrightarrow> key \<noteq> k \<Longrightarrow> kept_or_gone k cs (aput key c cs')"
  by (simp add: kept_or_gone_def)

lemma kept_counter_at:
  assumes "counter_at p capacity key now cs = (oc, cs')" "counters_ok capacity cs" "key \<noteq> k"
  shows "kept_or_gone k cs cs'"
proof -
  have room: "kept_or_gone k cs (make_room p capacity key now cs)"
    using assms(2) map_of_make_room [of cs p capacity key now k] by (auto simp: kept_or_gone_def counters_ok_def)
  show ?thesis
  proof (cases oc)
    case None
    with counter_at_None [of p capacity key now cs cs'] assms room show ?thesis by simp
  next
    case (Some c)
    with counter_at_Some [of p capacity key now cs c cs'] assms room show ?thesis by (simp add: kept_or_gone_def)
  qed
qed

lemma kept_settle_key:
  assumes "counters_ok capacity cs" "fst x \<noteq> k"
  shows "kept_or_gone k cs (settle_key p capacity oc now x cs)"
proof -
  obtain key b where x: "x = (key, b)" by (rule prod.exhaust)
  have key: "key \<noteq> k" using assms(2) x by simp
  let ?cs = "if b then release key cs else cs"
  have ok: "counters_ok capacity ?cs" using assms(1) ok_release by simp
  have rel: "kept_or_gone k cs ?cs" using key by (auto simp: release_def kept_or_gone_def split: option.split)
  obtain c cs' where c: "counter_at p capacity key now ?cs = (c, cs')" by (rule prod.exhaust)
  have fail: "kept_or_gone k cs (count_failure p capacity now key ?cs)"
    using kept_trans [OF rel kept_counter_at [OF c ok key]] c key
    by (auto simp: count_failure_def kept_aput split: option.split)
  have forg: "kept_or_gone k cs (forgive key ?cs)"
    using rel key by (cases key) (auto simp: kept_or_gone_def split: option.split)
  have tidied: "kept_or_gone k cs (tidy key cs')" if "kept_or_gone k cs cs'" for cs'
    using that key by (auto simp: tidy_def kept_or_gone_def split: option.split)
  show ?thesis using rel fail forg tidied by (cases oc) (simp_all add: x settle_key_def Let_def)
qed

lemma kept_settle_in:
  "counters_ok (th_capacity t) cs \<Longrightarrow> k \<notin> fst ` set keys \<Longrightarrow> kept_or_gone k cs (settle_in t keys oc now cs)"
  unfolding settle_in_def
proof (induction keys arbitrary: cs)
  case (Cons x keys)
  let ?cs = "settle_key (th_policy t) (th_capacity t) oc now x cs"
  have "kept_or_gone k cs ?cs" using Cons.prems by (intro kept_settle_key) auto
  with Cons.IH [of ?cs] Cons.prems ok_settle_key show ?case by (auto intro: kept_trans)
qed simp

lemma kept_reserve_loop:
  "reserve_loop t now keys rs cs = (r, cs') \<Longrightarrow> counters_ok (th_capacity t) cs \<Longrightarrow> k \<notin> set keys \<Longrightarrow> k \<notin> fst ` set rs \<Longrightarrow>
   kept_or_gone k cs cs' \<and> (\<forall>a. r = Ok a \<longrightarrow> k \<notin> fst ` set a)"
proof (induction keys arbitrary: rs cs)
  case (Cons key keys)
  obtain oc cs1 where c: "counter_at (th_policy t) (th_capacity t) key now cs = (oc, cs1)" by (rule prod.exhaust)
  have kept: "kept_or_gone k cs cs1" and ok: "counters_ok (th_capacity t) cs1"
    using kept_counter_at [OF c] counter_at_ok [OF c] Cons.prems by auto
  show ?case
  proof (cases oc)
    case None
    show ?thesis
    proof (cases "po_fail_closed (th_policy t)")
      case True
      then have "r = Err Full" "cs' = settle_in t rs Refunded now cs1" using Cons.prems(1) c None by simp_all
      with kept_trans [OF kept kept_settle_in [OF ok Cons.prems(4)]] show ?thesis by simp
    next
      case False
      then have "reserve_loop t now keys (rs @ [(key, False)]) cs1 = (r, cs')" using Cons.prems(1) c None by simp
      from Cons.IH [OF this ok] Cons.prems(3,4) kept_trans [OF kept] show ?thesis by auto
    qed
  next
    case (Some x)
    let ?cs = "aput key (x\<lparr>ct_pending := ct_pending x + 1\<rparr>) cs1"
    have "map_of cs1 key = Some x"
      using counter_at_Some [of "th_policy t" "th_capacity t" key now cs x cs1] Cons.prems(2) c Some by simp
    then have "counters_ok (th_capacity t) ?cs" using ok by (simp add: counters_ok_def distinct_aput length_aput_eq)
    moreover have "reserve_loop t now keys (rs @ [(key, True)]) ?cs = (r, cs')" using Cons.prems(1) c Some by simp
    moreover have "kept_or_gone k cs ?cs" using kept Cons.prems(3) by (auto intro: kept_aput)
    ultimately show ?thesis using Cons.IH [of "rs @ [(key, True)]" ?cs] Cons.prems(3,4) kept_trans by fastforce
  qed
qed auto

definition untouched :: "throttle_key \<Rightarrow> throttle_state \<Rightarrow> bool" where
  "untouched k s \<longleftrightarrow> (\<forall>a \<in> set (ts_in_flight s). k \<notin> fst ` set a)"

lemma kept_step:
  assumes "throttle_ok t s" "untouched k s" "\<forall>n b. e = Begin n b \<longrightarrow> k \<notin> set (attempt_keys D (th_policy t) n b)"
  shows "kept_or_gone k (ts_counters s) (ts_counters (fst (throttle_step D t (dt, e) s))) \<and>
    untouched k (fst (throttle_step D t (dt, e) s))"
proof -
  have ok: "counters_ok (th_capacity t) (ts_counters s)" using assms(1) by (simp add: throttle_ok_def)
  show ?thesis
  proof (cases e)
    case (Begin n b)
    obtain r cs where r: "reserve_at D t n b (ts_now s + dt) (ts_counters s) = (r, cs)" by (rule prod.exhaust)
    have "kept_or_gone k (ts_counters s) cs \<and> (\<forall>a. r = Ok a \<longrightarrow> k \<notin> fst ` set a)"
      using r kept_reserve_loop [OF _ ok, of "ts_now s + dt" "attempt_keys D (th_policy t) n b" "[]" r cs k] assms(3) Begin
      by (auto simp: reserve_at_def Let_def split: option.splits)
    then show ?thesis using r assms(2) by (auto simp: Begin Let_def untouched_def split: sum.split)
  next
    case (Settle i oc)
    have "k \<notin> fst ` set (ts_in_flight s ! i)" if "i < length (ts_in_flight s)"
      using assms(2) nth_mem [OF that] unfolding untouched_def by blast
    then have "kept_or_gone k (ts_counters s) (settle_attempt t (ts_in_flight s ! i) oc now (ts_counters s))"
      if "i < length (ts_in_flight s)" for now
      using that kept_settle_in [OF ok] by (simp add: settle_attempt_def split: option.split)
    then show ?thesis using assms(2)
      by (auto simp: Settle Let_def untouched_def dest: in_set_takeD in_set_dropD)
  qed
qed

lemma kept_run:
  assumes "throttle_ok t s" "untouched k s" "\<forall>n b. Begin n b \<in> snd ` set es \<longrightarrow> k \<notin> set (attempt_keys D (th_policy t) n b)"
  shows "kept_or_gone k (ts_counters s) (ts_counters (run_state (throttle_step D t) es s))"
  using assms
proof (induction es arbitrary: s)
  case (Cons e es)
  obtain dt ev where e: "e = (dt, ev)" by (rule prod.exhaust)
  let ?s = "fst (throttle_step D t (dt, ev) s)"
  have "kept_or_gone k (ts_counters s) (ts_counters ?s) \<and> untouched k ?s"
    using Cons.prems by (intro kept_step) (auto simp: e)
  moreover have "throttle_ok t ?s" by (rule throttle.step_ok [OF Cons.prems(1)])
  ultimately show ?case using Cons.IH [of ?s] Cons.prems(3) kept_trans unfolding e run_steps_Cons by auto
qed simp

lemma now_run: "ts_now (run_state (throttle_step D t) es s) = ts_now s + sum_list (map fst es)"
proof (induction es arbitrary: s)
  case (Cons e es)
  obtain dt ev where e: "e = (dt, ev)" by (rule prod.exhaust)
  show ?case unfolding e run_steps_Cons Cons.IH now_step by simp
qed simp

text \<open>A sign-in is refused only to make it wait, and leaves the counters as they are.\<close>

lemma told_to_wait:
  assumes "th_policy t = SIGN_IN" "snd (throttle_step D t (dt, Begin name addr) s) = Some (Err (Wait x))"
  shows "longest_wait SIGN_IN (ts_now s + dt) (ts_counters s) (attempt_keys D SIGN_IN name addr) = Some x"
    and "fst (throttle_step D t (dt, Begin name addr) s) = s\<lparr>ts_now := ts_now s + dt\<rparr>"
proof -
  let ?now = "ts_now s + dt"
  let ?keys = "attempt_keys D SIGN_IN name addr"
  have closed: "\<not> po_fail_closed (th_policy t)" by (simp add: assms(1) SIGN_IN_def)
  show long: "longest_wait SIGN_IN ?now (ts_counters s) ?keys = Some x"
  proof (cases "longest_wait SIGN_IN ?now (ts_counters s) ?keys")
    case None
    then show ?thesis
      using assms(2) reserve_loop_open [OF closed, of ?now ?keys "[]" "ts_counters s"]
      by (auto simp: reserve_at_def assms(1) Let_def split: prod.splits sum.splits)
  next
    case (Some y)
    then show ?thesis using assms(2) by (auto simp: reserve_at_def assms(1))
  qed
  then show "fst (throttle_step D t (dt, Begin name addr) s) = s\<lparr>ts_now := ?now\<rparr>"
    by (simp add: reserve_at_def assms(1) Let_def)
qed

lemma other_address:
  "bucket b \<noteq> bucket addr \<Longrightarrow> k \<in> set (attempt_keys D p name addr) \<Longrightarrow> k \<notin> set (attempt_keys D p n b)"
  by (auto simp: attempt_keys_def key_pair_def split: option.splits if_splits)

text \<open>
  C32: waiting as told is enough. A sign-in that is refused is told how long to wait, and when it comes
  again after at least that long it is let through, whatever attempts from other addresses (other /64
  networks for IPv6) begin, fail or succeed in the meantime. This is for a caller alone at its address:
  no attempt counted against its name and address is in flight when it is refused, and none begins
  from its address before it comes again.
\<close>

theorem sign_in_wait_suffices:
  assumes "th_policy t = SIGN_IN" and "s = run_state (throttle_step D t) es initial_throttle"
    and "snd (throttle_step D t (dt, Begin name addr) s) = Some (Err (Wait x))"
    and "\<forall>a \<in> set (ts_in_flight s). \<forall>k \<in> set (attempt_keys D SIGN_IN name addr). k \<notin> fst ` set a"
    and "\<forall>n b. Begin n b \<in> snd ` set meanwhile \<longrightarrow> bucket b \<noteq> bucket addr"
    and "x \<le> sum_list (map fst meanwhile) + d"
  shows "\<exists>a. snd (throttle_step D t (d, Begin name addr)
    (run_state (throttle_step D t) meanwhile (fst (throttle_step D t (dt, Begin name addr) s)))) = Some (Ok a)"
proof -
  let ?now = "ts_now s + dt"
  let ?keys = "attempt_keys D SIGN_IN name addr"
  let ?s = "s\<lparr>ts_now := ?now\<rparr>"
  let ?r = "run_state (throttle_step D t) meanwhile ?s"
  let ?d = "sum_list (map fst meanwhile) + d"
  note told = told_to_wait [OF assms(1,3)]
  have ok: "throttle_ok t s" unfolding assms(2) by (rule throttle.run_ok)
  then have ok': "throttle_ok t ?s" using throttle.step_ok [OF ok, of D "(dt, Begin name addr)"] told(2) by simp
  have wait: "wait_of c (rule_of SIGN_IN k) (?now + ?d) = None" if k: "k \<in> set ?keys" "map_of (ts_counters s) k = Some c" for k c
  proof (rule waited)
    show "timed SIGN_IN ?now k c"
      using ok k(2) timed_later [of SIGN_IN "ts_now s" "ts_counters s" ?now] by (simp add: throttle_ok_def each_def assms(1))
    have "reservations (ts_in_flight s) k = 0" using assms(4) k(1) by (force simp: reservations_def filter_empty_conv)
    then show "ct_pending c = 0" using ok k(2) by (auto simp: throttle_ok_def pend_def split: option.splits)
    show "0 < ru_limit (rule_of SIGN_IN k)" "ru_window (rule_of SIGN_IN k) \<le> ru_lock (rule_of SIGN_IN k)"
      using sign_in_rules [OF k(1)] by blast+
    show "\<forall>y. wait_of c (rule_of SIGN_IN k) ?now = Some y \<longrightarrow> y \<le> ?d"
      using longest_wait_ge [OF k] told(1) assms(6) by fastforce
  qed
  have kept: "kept_or_gone k (ts_counters s) (ts_counters ?r)" if "k \<in> set ?keys" for k
    using kept_run [OF ok', of k meanwhile D] assms(4,5) that other_address [OF _ that] by (auto simp: untouched_def assms(1))
  have "longest_wait SIGN_IN (ts_now ?r + d) (ts_counters ?r) ?keys = None"
  proof (rule longest_wait_None)
    fix k c assume k: "k \<in> set ?keys" "map_of (ts_counters ?r) k = Some c"
    with kept [OF k(1)] have "map_of (ts_counters s) k = Some c" by (simp add: kept_or_gone_def)
    with wait [OF k(1)] show "wait_of c (rule_of SIGN_IN k) (ts_now ?r + d) = None" by (simp add: now_run add.assoc)
  qed
  moreover have "\<not> po_fail_closed (th_policy t)" by (simp add: assms(1) SIGN_IN_def)
  ultimately show ?thesis unfolding told(2)
    using reserve_loop_open [of t "ts_now ?r + d" ?keys "[]" "ts_counters ?r"]
    by (auto simp: reserve_at_def assms(1) Let_def split: prod.splits)
qed

text \<open>A caller that failed ten times comes again after a minute, in which another address begins an attempt and fails it.\<close>

theorem sign_in_wait_suffices_witness:
  "\<exists>a. snd (throttle_step sample_digests (new_throttle []) (from_secs 30, Begin None (V4 1))
      (run_state (throttle_step sample_digests (new_throttle [])) [(from_secs 20, Begin None (V4 2)), (from_secs 10, Settle 0 (Some Failed))]
        (fst (throttle_step sample_digests (new_throttle []) (0, Begin None (V4 1)) (after_failures (new_throttle []) 10))))) =
        Some (Ok a)"
proof (rule sign_in_wait_suffices [OF _ after_failures_def])
  show "th_policy (new_throttle []) = SIGN_IN" by (simp add: new_throttle_def)
  show "snd (throttle_step sample_digests (new_throttle []) (0, Begin None (V4 1)) (after_failures (new_throttle []) 10)) =
      Some (Err (Wait (from_secs 60)))" by code_simp
  have "ts_in_flight (after_failures (new_throttle []) 10) = []" by code_simp
  then show "\<forall>a \<in> set (ts_in_flight (after_failures (new_throttle []) 10)).
      \<forall>k \<in> set (attempt_keys sample_digests SIGN_IN None (V4 1)). k \<notin> fst ` set a" by simp
  have "bucket (V4 2) \<noteq> bucket (V4 1)" by code_simp
  then show "\<forall>n b. Begin n b \<in> snd ` set [(from_secs 20, Begin None (V4 2)), (from_secs 10, Settle 0 (Some Failed))] \<longrightarrow>
      bucket b \<noteq> bucket (V4 1)" by simp
qed (simp add: from_secs_def)

section \<open>Sign-ups\<close>

text \<open>
  What a counter holds, and what it would hold after a restart, against the limit of its rule.
\<close>

definition held_to :: "policy \<Rightarrow> throttle_key \<Rightarrow> counter \<Rightarrow> bool" where
  "held_to p k c \<longleftrightarrow> ct_failures c + ct_pending c \<le> ru_limit (rule_of p k)"

definition has_room :: "policy \<Rightarrow> nat \<Rightarrow> counters \<Rightarrow> throttle_key \<Rightarrow> bool" where
  "has_room p now cs k \<longleftrightarrow>
     ct_failures (restarted (rule_of p k) now (map_of cs k)) + ct_pending (restarted (rule_of p k) now (map_of cs k))
       < ru_limit (rule_of p k)"

lemma held_make_room: "counters_ok capacity cs \<Longrightarrow> each (held_to p) cs \<Longrightarrow> each (held_to p) (make_room p capacity key now cs)"
  by (auto simp: each_def counters_ok_def make_room_def map_of_filter_distinct split: option.splits if_splits)

lemma held_restarted:
  "(\<And>c. slot = Some c \<Longrightarrow> ct_failures c + ct_pending c \<le> n) \<Longrightarrow>
   ct_failures (restarted rule now slot) + ct_pending (restarted rule now slot) \<le> n"
  by (cases slot) (force simp: restarted_def Let_def fresh_counter_def)+

lemma held_counter_at:
  assumes "counter_at p capacity key now cs = (oc, cs')" and "counters_ok capacity cs" and "each (held_to p) cs"
  shows "each (held_to p) cs'"
proof (cases oc)
  case None
  with counter_at_None [of p capacity key now cs cs'] assms held_make_room show ?thesis by simp
next
  case (Some c)
  with counter_at_Some [of p capacity key now cs c cs'] assms
  have c: "c = restarted (rule_of p key) now (map_of cs key)"
    "map_of cs' = (map_of (make_room p capacity key now cs))(key \<mapsto> c)" by simp_all
  have "held_to p key c"
    unfolding c(1) held_to_def by (rule held_restarted) (use assms(3) in \<open>simp add: each_def held_to_def\<close>)
  with held_make_room [OF assms(2,3), of key now] c(2) show ?thesis by (auto simp: each_def)
qed

lemma held_settle_key:
  assumes "counters_ok capacity cs" and "each (held_to p) cs" and "0 < pend cs key"
  shows "each (held_to p) (settle_key p capacity oc now (key, True) cs)"
proof -
  let ?cs = "release key cs"
  have ok: "counters_ok capacity ?cs" using assms(1) by (rule ok_release)
  obtain c where c: "map_of cs key = Some c" "0 < ct_pending c"
    using assms(3) by (auto simp: pend_def split: option.splits)
  have rel: "each (held_to p) ?cs"
    using assms(2) c by (fastforce simp: release_def each_def held_to_def)
  have below: "ct_failures c' + ct_pending c' < ru_limit (rule_of p key)" if "map_of ?cs key = Some c'" for c'
    using assms(2) c that by (fastforce simp: release_def each_def held_to_def)
  have fail: "each (held_to p) (count_failure p capacity now key ?cs)"
  proof -
    obtain o' cs' where r: "counter_at p capacity key now ?cs = (o', cs')" by (rule prod.exhaust)
    note h = held_counter_at [OF r ok rel]
    show ?thesis
    proof (cases o')
      case None
      with r h show ?thesis by (simp add: count_failure_def)
    next
      case (Some x)
      with counter_at_Some [of p capacity key now ?cs x cs'] ok r
      have x: "x = restarted (rule_of p key) now (map_of ?cs key)" by simp
      have "Suc (ct_failures x + ct_pending x) \<le> ru_limit (rule_of p key)"
        using below held_restarted [of "map_of ?cs key" "ru_limit (rule_of p key) - 1" "rule_of p key" now]
          c by (fastforce simp: x release_def)
      then have "held_to p key (struck (rule_of p key) now x)" by (simp add: held_to_def struck_def Let_def)
      with r Some h show ?thesis by (simp add: count_failure_def each_aput)
    qed
  qed
  have forg: "each (held_to p) (forgive key ?cs)"
    using rel by (cases key) (fastforce simp: each_def held_to_def split: option.split)+
  have tidied: "each (held_to p) (tidy key cs)" if "each (held_to p) cs" for cs
    using that by (auto simp: tidy_def each_def split: option.split)
  show ?thesis using rel fail forg tidied by (cases oc) (simp_all add: settle_key_def Let_def)
qed

lemma held_settle_in:
  assumes "counters_ok (th_capacity t) cs" and "each (held_to (th_policy t)) cs" and "distinct (map fst keys)"
    and "\<forall>(k, b) \<in> set keys. b \<and> 0 < pend cs k"
  shows "each (held_to (th_policy t)) (settle_in t keys oc now cs)"
  using assms unfolding settle_in_def
proof (induction keys arbitrary: cs)
  case (Cons x keys)
  obtain key where x: "x = (key, True)" and "0 < pend cs key" using Cons.prems(4) by (cases x) auto
  let ?cs = "settle_key (th_policy t) (th_capacity t) oc now x cs"
  have "each (held_to (th_policy t)) ?cs"
    using held_settle_key [OF Cons.prems(1,2)] \<open>0 < pend cs key\<close> by (simp add: x)
  moreover have "\<forall>(k, b) \<in> set keys. b \<and> 0 < pend ?cs k"
    using Cons.prems(3,4) pend_settle_key [OF Cons.prems(1), of "th_policy t" oc now key True] by (force simp: x)
  ultimately show ?case using Cons.IH [of ?cs] Cons.prems(1,3) ok_settle_key by simp
qed simp

lemma room_other:
  assumes "has_room p now cs k" and "0 < ru_limit (rule_of p k)" and "counters_ok capacity cs" and "k \<noteq> key"
    and "counter_at p capacity key now cs = (oc, cs')"
  shows "has_room p now cs' k"
proof -
  let ?m = "make_room p capacity key now cs"
  have "map_of cs' k = map_of ?m k"
    using counter_at_None [of p capacity key now cs cs'] counter_at_Some [of p capacity key now cs _ cs'] assms
    by (cases oc) auto
  moreover have "map_of ?m k = map_of cs k \<or> map_of ?m k = None"
    using map_of_make_room [of cs p capacity key now k] assms(3) by (auto simp: counters_ok_def)
  ultimately consider "map_of cs' k = map_of cs k" | "map_of cs' k = None" by metis
  then show ?thesis
    using assms(1,2) by cases (simp_all add: has_room_def restarted_def Let_def fresh_counter_def)
qed

lemma held_reserve_loop:
  assumes "reserve_loop t now keys rs cs = (r, cs')" and "po_fail_closed (th_policy t)"
    and "counters_ok (th_capacity t) cs" and "each (held_to (th_policy t)) cs" and "distinct (map fst rs @ keys)"
    and "\<forall>k \<in> set keys. has_room (th_policy t) now cs k \<and> 0 < ru_limit (rule_of (th_policy t) k)"
    and "\<forall>(k, b) \<in> set rs. b \<and> 0 < pend cs k"
  shows "each (held_to (th_policy t)) cs' \<and> (\<forall>a. r = Ok a \<longrightarrow> (\<forall>(k, b) \<in> set a. b))"
  using assms
proof (induction keys arbitrary: rs cs)
  case Nil
  then show ?case by auto
next
  case (Cons key keys)
  let ?p = "th_policy t"
  obtain oc cs1 where c: "counter_at ?p (th_capacity t) key now cs = (oc, cs1)" by (rule prod.exhaust)
  note ok1 = counter_at_ok [OF c Cons.prems(3)] and held1 = held_counter_at [OF c Cons.prems(3,4)]
    and pend1 = pend_counter_at [OF c Cons.prems(3)]
  show ?case
  proof (cases oc)
    case None
    have "each (held_to ?p) (settle_in t rs Refunded now cs1)"
      by (rule held_settle_in [OF ok1 held1]) (use Cons.prems(5,7) pend1 in auto)
    with Cons.prems(1,2) c None show ?thesis by auto
  next
    case (Some x)
    let ?x = "x\<lparr>ct_pending := ct_pending x + 1\<rparr>"
    let ?cs = "aput key ?x cs1"
    have x: "x = restarted (rule_of ?p key) now (map_of cs key)" "map_of cs1 key = Some x"
      using counter_at_Some [of ?p "th_capacity t" key now cs x cs1] Cons.prems(3) c Some by simp_all
    have "held_to ?p key ?x" using Cons.prems(6) by (simp add: has_room_def held_to_def x(1))
    then have held: "each (held_to ?p) ?cs" using held1 by (simp add: each_aput)
    have ok: "counters_ok (th_capacity t) ?cs" using ok1 x(2) by (simp add: counters_ok_def distinct_aput length_aput_eq)
    have "has_room ?p now ?cs k" if "k \<in> set keys" for k
    proof -
      have "k \<noteq> key" using that Cons.prems(5) by auto
      moreover have "has_room ?p now cs1 k" using room_other [OF _ _ Cons.prems(3) \<open>k \<noteq> key\<close> c] Cons.prems(6) that by simp
      ultimately show ?thesis by (simp add: has_room_def)
    qed
    then have room: "\<forall>k \<in> set keys. has_room ?p now ?cs k \<and> 0 < ru_limit (rule_of ?p k)" using Cons.prems(6) by simp
    have rs: "\<forall>(k, b) \<in> set (rs @ [(key, True)]). b \<and> 0 < pend ?cs k"
      using Cons.prems(7) pend1 x(2) by (auto simp: pend_def)
    have run: "reserve_loop t now keys (rs @ [(key, True)]) ?cs = (r, cs')" using Cons.prems(1) c Some by simp
    show ?thesis by (rule Cons.IH [OF run Cons.prems(2) ok held _ room rs]) (use Cons.prems(5) in simp)
  qed
qed

text \<open>The invariant of the sign-ups.\<close>

definition sign_ups_ok :: "throttle_state \<Rightarrow> bool" where
  "sign_ups_ok s \<longleftrightarrow> throttle_ok sign_ups s \<and> each (held_to SIGN_UP) (ts_counters s) \<and>
     (\<forall>a \<in> set (ts_in_flight s). \<forall>(k, b) \<in> set a. b)"

lemma sign_up_keys:
  "k \<in> set (attempt_keys D SIGN_UP name addr) \<Longrightarrow> 0 < ru_limit (rule_of SIGN_UP k)"
  by (auto simp: attempt_keys_def SIGN_UP_def SIGN_UP_BURST_def SIGN_UP_DAY_def less_Suc_eq split: option.splits if_splits)

lemma no_wait_room:
  assumes "longest_wait p now cs keys = None" and "k \<in> set keys" and "0 < ru_limit (rule_of p k)"
  shows "has_room p now cs k"
proof (cases "map_of cs k")
  case None
  with assms(3) show ?thesis by (simp add: has_room_def restarted_def Let_def fresh_counter_def)
next
  case (Some c)
  have "wait_of c (rule_of p k) now = None"
  proof (rule ccontr)
    assume "wait_of c (rule_of p k) now \<noteq> None"
    then obtain x where "wait_of c (rule_of p k) now = Some x" by blast
    from longest_wait_ge [OF assms(2) Some this] assms(1) show False by simp
  qed
  with Some show ?thesis
    by (auto simp: has_room_def restarted_def Let_def fresh_counter_def wait_of_def split: option.splits if_splits)
qed

lemma sign_ups_step:
  assumes "sign_ups_ok s"
  shows "sign_ups_ok (fst (throttle_step D sign_ups (dt, e) s))"
proof -
  have ok: "throttle_ok sign_ups s" and held: "each (held_to SIGN_UP) (ts_counters s)"
    and all: "\<forall>a \<in> set (ts_in_flight s). \<forall>(k, b) \<in> set a. b"
    using assms by (simp_all add: sign_ups_ok_def)
  have cok: "counters_ok (th_capacity sign_ups) (ts_counters s)" using ok by (simp add: throttle_ok_def)
  have pol: "th_policy sign_ups = SIGN_UP" by (simp add: sign_ups_def)
  have next_ok: "throttle_ok sign_ups (fst (throttle_step D sign_ups (dt, e) s))" by (rule throttle.step_ok [OF ok])
  show ?thesis
  proof (cases e)
    case (Begin name addr)
    let ?keys = "attempt_keys D SIGN_UP name addr"
    let ?now = "ts_now s + dt"
    obtain r cs where r: "reserve_at D sign_ups name addr ?now (ts_counters s) = (r, cs)" by (rule prod.exhaust)
    have "each (held_to SIGN_UP) cs \<and> (\<forall>a. r = Ok a \<longrightarrow> (\<forall>(k, b) \<in> set a. b))"
    proof (cases "longest_wait SIGN_UP ?now (ts_counters s) ?keys")
      case None
      have run: "reserve_loop sign_ups ?now ?keys [] (ts_counters s) = (r, cs)" using r None by (simp add: reserve_at_def pol)
      have room: "\<forall>k \<in> set ?keys. has_room SIGN_UP ?now (ts_counters s) k \<and> 0 < ru_limit (rule_of SIGN_UP k)"
        using no_wait_room [OF None] sign_up_keys [of _ D name addr] by blast
      have dist: "distinct (map fst [] @ ?keys)" by (simp add: distinct_attempt_keys)
      show ?thesis using held_reserve_loop [OF run, unfolded pol, OF _ cok held dist room] by (simp add: SIGN_UP_def)
    next
      case (Some y)
      with r held show ?thesis by (auto simp: reserve_at_def pol)
    qed
    with next_ok all r show ?thesis by (auto simp: sign_ups_ok_def Begin Let_def split: sum.splits)
  next
    case (Settle i oc)
    show ?thesis
    proof (cases "i < length (ts_in_flight s)")
      case False
      with next_ok held all show ?thesis by (simp add: sign_ups_ok_def Settle)
    next
      case True
      let ?a = "ts_in_flight s ! i"
      have a: "?a \<in> set (ts_in_flight s)" using True by simp
      have "0 < pend (ts_counters s) k" if "(k, True) \<in> set ?a" for k
        using ok a that by (auto simp: throttle_ok_def reservations_def filter_empty_conv)
      then have "\<forall>(k, b) \<in> set ?a. b \<and> 0 < pend (ts_counters s) k" using all a by fastforce
      moreover have "distinct (map fst ?a)" using ok a by (simp add: throttle_ok_def)
      ultimately have "each (held_to SIGN_UP) (settle_in sign_ups ?a x now (ts_counters s))" for x now
        using held_settle_in [OF cok, of ?a x now] held by (simp add: pol)
      then have "each (held_to SIGN_UP) (settle_attempt sign_ups ?a oc now (ts_counters s))" for now
        by (simp add: settle_attempt_eq)
      with next_ok all True show ?thesis
        by (auto simp: sign_ups_ok_def Settle Let_def dest: in_set_takeD in_set_dropD)
    qed
  qed
qed

interpretation sign_up: machine initial_throttle "throttle_step D sign_ups" sign_ups_ok for D
proof
  show "sign_ups_ok initial_throttle"
    using throttle.start_ok [of sign_ups] by (simp add: sign_ups_ok_def initial_throttle_def each_def)
  show "sign_ups_ok (fst (throttle_step D sign_ups e s))" if "sign_ups_ok s" for e s
    using sign_ups_step [OF that] by (cases e) simp
qed

text \<open>
  C31: a burst of sign-ups gets no further than a sequence: at every moment the sign-ups an address
  has been charged for in the running window and those still in flight are together no more than
  five in the ten-minute window and twenty in the day's.
\<close>

theorem sign_ups_within_limits:
  "\<forall>addr c.
     (map_of (ts_counters (run_state (throttle_step D sign_ups) es initial_throttle)) (Address addr 0) = Some c
        \<longrightarrow> ct_failures c + ct_pending c \<le> 5) \<and>
     (map_of (ts_counters (run_state (throttle_step D sign_ups) es initial_throttle)) (Address addr 1) = Some c
        \<longrightarrow> ct_failures c + ct_pending c \<le> 20)"
proof -
  let ?cs = "ts_counters (run_state (throttle_step D sign_ups) es initial_throttle)"
  have held: "held_to SIGN_UP k c" if "map_of ?cs k = Some c" for k c
    using sign_up.run_ok [of D es] that by (simp add: sign_ups_ok_def each_def)
  have "ru_limit (rule_of SIGN_UP (Address addr 0)) = 5" "ru_limit (rule_of SIGN_UP (Address addr 1)) = 20" for addr
    by (simp_all add: SIGN_UP_def SIGN_UP_BURST_def SIGN_UP_DAY_def)
  with held show ?thesis unfolding held_to_def by metis
qed

theorem sign_ups_within_limits_witness:
  "\<exists>c. map_of (ts_counters (after_failures sign_ups 5)) (Address (bucket (V4 1)) 0) = Some c \<and>
     ct_failures c + ct_pending c \<le> 5"
  using sign_ups_within_limits [of sample_digests "failed_attempts 5"] five_sign_ups
  unfolding after_failures_def by blast

end
