(* ===== verification/Store.thy ===== *)
theory Store
  imports Rules Matcher Credentials
begin

text \<open>
  \<^verbatim>\<open>gapura-core/src/store.rs\<close>: compiling the rows kept in the database, in Kong's shape, into the
  configuration the data plane serves. One record per row type, \<open>compile\<close> with every helper it
  calls, and the two reports on what it leaves out. A \<open>BTreeMap\<close> is its ordered association
  list, collected with the last of equal keys winning; an index into a map and an \<open>expect\<close> may
  panic. SHA-256 is a parameter.
\<close>

section \<open>Rows\<close>

record store_service =
  ss_workspace :: string
  ss_name :: string
  ss_protocol :: protocol
  ss_host :: string
  ss_port :: u16
  ss_connect_timeout_ms :: "u32 option"
  ss_read_timeout_ms :: "u32 option"
  ss_tls_verify :: bool
  ss_tls_ca_pem :: "string option"
  ss_tls_sni :: "string option"

text \<open>A priority is an \<open>i32\<close> the code only compares.\<close>

record store_route =
  sr_workspace :: string
  sr_name :: string
  sr_service :: string
  sr_hosts :: "string list"
  sr_paths :: "path_match list"
  sr_methods :: "string list"
  sr_headers :: "kv_match list"
  sr_strip_path :: bool
  sr_priority :: int

record store_plugin =
  sp_workspace :: string
  sp_route :: "string option"
  sp_service :: "string option"
  sp_plugin :: plugin

record store_rate_limit =
  sl_workspace :: string
  sl_route :: "string option"
  sl_service :: "string option"
  sl_consumer :: "string option"
  sl_limit :: rate_limit

record store_credential =
  sc_key_hash :: string
  sc_consumer :: string
  sc_workspace :: string

record store_consumer =
  su_workspace :: string
  su_username :: string
  su_groups :: "string list"

record store_snapshot =
  sn_services :: "store_service list"
  sn_routes :: "store_route list"
  sn_plugins :: "store_plugin list"
  sn_credentials :: "store_credential list"
  sn_rate_limits :: "store_rate_limit list"
  sn_consumers :: "store_consumer list"

record store_settings =
  sg_http_ports :: "u16 list"

definition default_store_settings :: store_settings where
  "default_store_settings = \<lparr>sg_http_ports = [80]\<rparr>"

text \<open>\<open>collect\<close> into a \<open>BTreeMap\<close>.\<close>

definition collect_map :: "('k::linorder \<times> 'v) list \<Rightarrow> ('k \<times> 'v) list" where
  "collect_map kvs = fold (\<lambda>(k, v). bput k v) kvs []"

section \<open>Names and keys\<close>

definition route_id :: "store_route \<Rightarrow> string" where
  "route_id r = (if sr_workspace r = [] then sr_name r else sr_workspace r @ ''/'' @ sr_name r)"

definition service_sni :: "store_service \<Rightarrow> string" where
  "service_sni s =
     (case ss_tls_sni s of Some n \<Rightarrow> if n \<noteq> [] then n else ss_host s | None \<Rightarrow> ss_host s)"

definition service_ca_pem :: "store_service \<Rightarrow> string option" where
  "service_ca_pem s =
     (case ss_tls_ca_pem s of Some pem \<Rightarrow> if pem \<noteq> [] then Some pem else None | None \<Rightarrow> None)"

definition service_address :: "store_service \<Rightarrow> string" where
  "service_address s = ss_host s @ '':'' @ show_nat (unat (ss_port s))"

definition tls_settings :: "(string \<Rightarrow> string) \<Rightarrow> store_service \<Rightarrow> string list" where
  "tls_settings sha s =
     (if service_sni s \<noteq> ss_host s then [''sni='' @ service_sni s] else []) @
     (case service_ca_pem s of Some pem \<Rightarrow> [''ca='' @ hex (take 8 (sha pem))] | None \<Rightarrow> []) @
     (if \<not> ss_tls_verify s then [''insecure''] else [])"

definition service_cluster_key :: "(string \<Rightarrow> string) \<Rightarrow> store_service \<Rightarrow> string" where
  "service_cluster_key sha s =
     (if ss_protocol s = Http then service_address s
      else if tls_settings sha s = [] then ''https://'' @ service_address s
      else ''https://'' @ service_address s @ ''?'' @ join ''&'' (tls_settings sha s))"

definition upstream_authority :: "store_service \<Rightarrow> string" where
  "upstream_authority s =
     (let default_port = (case ss_protocol s of Https \<Rightarrow> 443 | Http \<Rightarrow> 80)
      in if ss_port s = default_port then ss_host s else service_address s)"

definition service_cluster :: "store_service \<Rightarrow> cluster" where
  "service_cluster s =
     \<lparr>cl_endpoints = [],
      cl_tls = (if ss_protocol s = Https
        then Some \<lparr>ct_sni = service_sni s, ct_ca_pem = service_ca_pem s, ct_insecure = \<not> ss_tls_verify s\<rparr>
        else None),
      cl_resolve = Some \<lparr>rt_host = ss_host s, rt_port = ss_port s\<rparr>,
      cl_outlier = None\<rparr>"

section \<open>Routes that are not served\<close>

definition strips_a_regex :: "store_route \<Rightarrow> bool" where
  "strips_a_regex r \<longleftrightarrow> sr_strip_path r \<and> list_ex (\<lambda>p. case p of Regex _ \<Rightarrow> True | _ \<Rightarrow> False) (sr_paths r)"

definition names_path_parameters :: "store_route \<Rightarrow> bool" where
  "names_path_parameters r \<longleftrightarrow>
     list_ex (\<lambda>p. case p of Exact v \<Rightarrow> CHR '';'' \<in> set v | Prefix v \<Rightarrow> CHR '';'' \<in> set v | Regex _ \<Rightarrow> False)
       (sr_paths r)"

definition matches_gateway_header :: "store_route \<Rightarrow> bool" where
  "matches_gateway_header r \<longleftrightarrow>
     list_ex (\<lambda>h. list_ex (\<lambda>g. eq_ignore_ascii_case (kv_name h) g) gateway_headers) (sr_headers r)"

definition route_refusal :: "store_route \<Rightarrow> string option" where
  "route_refusal r =
     (if matches_gateway_header r then
        Some ''it matches on a header the gateway sets itself; remove that header match to serve it''
      else if names_path_parameters r then
        Some ''an exact or prefix path contains ;, which servlet backends read as path parameters; remove the ; to serve it''
      else if strips_a_regex r then
        Some ''it strips the matched path, and a regular expression has no prefix to strip; turn off strip path or use prefix and exact paths to serve it''
      else None)"

definition refused_routes :: "store_snapshot \<Rightarrow> (string \<times> string) list" where
  "refused_routes snap =
     List.map_filter (\<lambda>r. map_option (\<lambda>why. (route_id r, why)) (route_refusal r)) (sn_routes snap)"

section \<open>Matches\<close>

text \<open>\<open>uppercase_escapes\<close>: the loop over the bytes, and the text checked at the end.\<close>

fun upcase_escapes :: "string \<Rightarrow> string" where
  "upcase_escapes (c # a # b # s) =
     (if c = CHR ''%'' \<and> is_ascii_hexdigit a \<and> is_ascii_hexdigit b
      then c # ascii_upper a # ascii_upper b # upcase_escapes s
      else c # upcase_escapes (a # b # s))"
| "upcase_escapes s = s"

definition uppercase_escapes :: "string \<Rightarrow> string run" where
  "uppercase_escapes path =
     (if valid_utf8 (upcase_escapes path) then Returns (upcase_escapes path) else Panics)"

fun served_path :: "path_match \<Rightarrow> path_match run" where
  "served_path (Exact v) = run_bind (uppercase_escapes v) (\<lambda>u. Returns (Exact u))"
| "served_path (Prefix v) = run_bind (uppercase_escapes v) (\<lambda>u. Returns (Prefix u))"
| "served_path (Regex v) = Returns (Regex v)"

definition expand_methods :: "store_route \<Rightarrow> string option list" where
  "expand_methods r = (if sr_methods r = [] then [None] else map Some (sr_methods r))"

definition expand_headers :: "store_route \<Rightarrow> kv_match list" where
  "expand_headers r = map (\<lambda>h. h\<lparr>kv_name := to_ascii_lowercase (kv_name h)\<rparr>) (sr_headers r)"

definition expand_with :: "store_route \<Rightarrow> path_match list \<Rightarrow> route_match list" where
  "expand_with r paths =
     concat (map (\<lambda>path. map (\<lambda>method.
       \<lparr>rm_path = path, rm_headers = expand_headers r, rm_query = [], rm_method = method\<rparr>) (expand_methods r)) paths)"

definition expand :: "store_route \<Rightarrow> route_match list run" where
  "expand r =
     run_bind (if sr_paths r = [] then Returns [Prefix ''/''] else run_map served_path (sr_paths r))
       (\<lambda>paths. Returns (expand_with r paths))"

section \<open>Policies and limits of a route\<close>

definition rank :: "string \<Rightarrow> string option \<Rightarrow> string option \<Rightarrow> store_route \<Rightarrow> nat option" where
  "rank workspace on_route on_service r =
     (if workspace \<noteq> sr_workspace r then None
      else case (on_route, on_service) of
             (Some n, _) \<Rightarrow> if n = sr_name r then Some 2 else None
           | (None, Some s) \<Rightarrow> if s = sr_service r then Some 1 else None
           | (None, None) \<Rightarrow> Some 0)"

definition same_kind :: "plugin \<Rightarrow> plugin \<Rightarrow> bool" where
  "same_kind a b \<longleftrightarrow> plugin_kind a = plugin_kind b"

text \<open>The groups of every consumer, by its id.\<close>

definition consumer_table :: "store_snapshot \<Rightarrow> (string \<times> string list) list" where
  "consumer_table snap =
     collect_map (map (\<lambda>c. (consumer_id (su_workspace c) (su_username c), sort (su_groups c))) (sn_consumers snap))"

definition has_consumer :: "(string \<times> string list) list \<Rightarrow> string \<Rightarrow> string \<Rightarrow> bool" where
  "has_consumer consumers workspace name \<longleftrightarrow> consumer_id workspace name \<in> fst ` set consumers"

definition missing_anonymous :: "store_snapshot \<Rightarrow> (string \<times> string) list" where
  "missing_anonymous snap =
     remdups_adj (sort (List.map_filter
       (\<lambda>p. case sp_plugin p of
              Auth a \<Rightarrow>
                (case au_anonymous a of
                   Some name \<Rightarrow>
                     if \<not> has_consumer (consumer_table snap) (sp_workspace p) name
                     then Some (sp_workspace p, name) else None
                 | None \<Rightarrow> None)
            | _ \<Rightarrow> None) (sn_plugins snap)))"

text \<open>
  \<open>plugins_for\<close>: the slot of a kind takes a policy ranked higher than the one it holds; then
  each chosen policy is stamped with the route's workspace.
\<close>

fun place :: "nat \<Rightarrow> plugin \<Rightarrow> (nat \<times> plugin) list \<Rightarrow> (nat \<times> plugin) list" where
  "place k p [] = [(k, p)]"
| "place k p ((k', c) # chosen) =
     (if same_kind c p then (if k' < k then (k, p) else (k', c)) # chosen else (k', c) # place k p chosen)"

definition choose_plugin :: "store_route \<Rightarrow> store_plugin \<Rightarrow> (nat \<times> plugin) list \<Rightarrow> (nat \<times> plugin) list" where
  "choose_plugin r p chosen =
     (case rank (sp_workspace p) (sp_route p) (sp_service p) r of
        None \<Rightarrow> chosen
      | Some k \<Rightarrow> place k (sp_plugin p) chosen)"

definition stamp :: "(string \<times> string list) list \<Rightarrow> string \<Rightarrow> plugin \<Rightarrow> plugin" where
  "stamp consumers ws p =
     (case p of
        KeyAuth policy \<Rightarrow> if ws \<noteq> [] then KeyAuth (policy\<lparr>ka_workspace := Some ws\<rparr>) else KeyAuth policy
      | Auth policy \<Rightarrow>
          Auth \<lparr>au_anonymous = (case au_anonymous policy of
                  Some name \<Rightarrow> if has_consumer consumers ws name then Some name else None
                | None \<Rightarrow> None),
                au_workspace = (if ws \<noteq> [] then Some ws else None)\<rparr>
      | Jwt policy \<Rightarrow>
          if jp_consumer_claim policy \<noteq> None \<and> ws \<noteq> [] then Jwt (policy\<lparr>jp_workspace := Some ws\<rparr>) else Jwt policy
      | other \<Rightarrow> other)"

definition plugins_for :: "store_plugin list \<Rightarrow> store_route \<Rightarrow> (string \<times> string list) list \<Rightarrow> plugin list" where
  "plugins_for all r consumers =
     map (\<lambda>(_, p). stamp consumers (sr_workspace r) p) (fold (choose_plugin r) all [])"

definition limit_step :: "store_route \<Rightarrow> store_rate_limit \<Rightarrow> (nat \<times> rate_limit) option \<Rightarrow> (nat \<times> rate_limit) option" where
  "limit_step r l chosen =
     (if sl_consumer l \<noteq> None then chosen
      else case rank (sl_workspace l) (sl_route l) (sl_service l) r of
             None \<Rightarrow> chosen
           | Some k \<Rightarrow>
               if (case chosen of None \<Rightarrow> True | Some (best, _) \<Rightarrow> best < k) then Some (k, sl_limit l) else chosen)"

definition limit_on_everyone :: "store_rate_limit list \<Rightarrow> store_route \<Rightarrow> rate_limit option" where
  "limit_on_everyone all r = map_option snd (fold (limit_step r) all None)"

text \<open>\<open>consumer_rate_limits\<close>: the table so far, and how specific each entry of it is.\<close>

type_synonym limit_tables = "(string \<times> consumer_rate_limits) list \<times> ((string \<times> string) \<times> nat) list"

definition no_consumer_limits :: consumer_rate_limits where
  "no_consumer_limits = \<lparr>crl_routes = [], crl_any = None\<rparr>"

definition own_entry :: "string \<Rightarrow> (string \<times> consumer_rate_limits) list \<Rightarrow> consumer_rate_limits" where
  "own_entry consumer out = (case map_of out consumer of Some e \<Rightarrow> e | None \<Rightarrow> no_consumer_limits)"

definition consumer_limit_route ::
  "store_rate_limit \<Rightarrow> string \<Rightarrow> store_route \<Rightarrow> limit_tables \<Rightarrow> limit_tables" where
  "consumer_limit_route l consumer r = (\<lambda>(out, held).
     case rank (sl_workspace l) (sl_route l) (sl_service l) r of
       None \<Rightarrow> (out, held)
     | Some k \<Rightarrow>
         if (case map_of held (consumer, route_id r) of None \<Rightarrow> True | Some best \<Rightarrow> best < k)
         then (bput consumer (own_entry consumer out
                 \<lparr>crl_routes := bput (route_id r) (sl_limit l) (crl_routes (own_entry consumer out))\<rparr>) out,
               bput (consumer, route_id r) k held)
         else (out, held))"

definition consumer_limit_step ::
  "store_route list \<Rightarrow> store_rate_limit \<Rightarrow> limit_tables \<Rightarrow> limit_tables" where
  "consumer_limit_step routes l = (\<lambda>(out, held).
     case sl_consumer l of
       None \<Rightarrow> (out, held)
     | Some username \<Rightarrow>
         (let consumer = consumer_id (sl_workspace l) username in
          if sl_route l = None \<and> sl_service l = None then
            (let entry = own_entry consumer out in
             (bput consumer (if crl_any entry = None then entry\<lparr>crl_any := Some (sl_limit l)\<rparr> else entry) out, held))
          else fold (consumer_limit_route l consumer) routes (out, held)))"

definition consumer_rate_limits_of ::
  "store_rate_limit list \<Rightarrow> store_route list \<Rightarrow> (string \<times> consumer_rate_limits) list" where
  "consumer_rate_limits_of all routes = fst (fold (consumer_limit_step routes) all ([], []))"

section \<open>The compilation\<close>

type_synonym service_map = "((string \<times> string) \<times> store_service) list"

definition service_map_of :: "store_snapshot \<Rightarrow> service_map" where
  "service_map_of snap = collect_map (map (\<lambda>s. ((ss_workspace s, ss_name s), s)) (sn_services snap))"

definition route_key :: "store_route \<Rightarrow> int reverse_key \<times> string \<times> string" where
  "route_key r = (Reverse (sr_priority r), sr_workspace r, sr_name r)"

text \<open>The routes that are served, in the order of the table.\<close>

definition served_routes :: "store_snapshot \<Rightarrow> store_route list" where
  "served_routes snap =
     sort_key route_key
       (filter (\<lambda>r. route_refusal r = None)
         (filter (\<lambda>r. (sr_workspace r, sr_service r) \<in> fst ` set (service_map_of snap)) (sn_routes snap)))"

record compiling =
  cg_clusters :: "(string \<times> cluster) list"
  cg_rules :: "route_rule list"
  cg_table :: "(string option \<times> route_match \<times> nat) list"

definition service_timeouts :: "store_service \<Rightarrow> timeouts" where
  "service_timeouts s =
     \<lparr>request_ms = None,
      backend_request_ms = map_option ucast (ss_read_timeout_ms s),
      connect_ms = map_option ucast (ss_connect_timeout_ms s)\<rparr>"

definition route_rule_of ::
  "(string \<Rightarrow> string) \<Rightarrow> store_snapshot \<Rightarrow> (string \<times> string list) list \<Rightarrow> store_route \<Rightarrow> store_service
    \<Rightarrow> route_match list \<Rightarrow> route_rule" where
  "route_rule_of sha snap consumers r s ms =
     \<lparr>rr_route = route_id r,
      rr_rule_index = 0,
      rr_creation_timestamp = [],
      rr_matches = ms,
      rr_filters = default_filters\<lparr>f_rewrite := Some
        \<lparr>rw_hostname = Some (upstream_authority s),
         rw_path = (if sr_strip_path r then Some (ReplacePrefixMatch ''/'') else None)\<rparr>\<rparr>,
      rr_backends = [\<lparr>wb_cluster = Some (service_cluster_key sha s), wb_weight = 1\<rparr>],
      rr_timeouts = service_timeouts s,
      rr_rate_limit = limit_on_everyone (sn_rate_limits snap) r,
      rr_plugins = plugins_for (sn_plugins snap) r consumers\<rparr>"

definition table_entries :: "store_route \<Rightarrow> route_match list \<Rightarrow> nat \<Rightarrow> (string option \<times> route_match \<times> nat) list" where
  "table_entries r ms position =
     concat (map (\<lambda>m. if sr_hosts r = [] then [(None, m, position)]
       else map (\<lambda>host. (Some host, m, position)) (sr_hosts r)) ms)"

definition compile_store_route ::
  "(string \<Rightarrow> string) \<Rightarrow> store_snapshot \<Rightarrow> service_map \<Rightarrow> (string \<times> string list) list \<Rightarrow> store_route
    \<Rightarrow> compiling \<Rightarrow> compiling run" where
  "compile_store_route sha snap services consumers r g =
     (case map_of services (sr_workspace r, sr_service r) of
        None \<Rightarrow> Panics
      | Some s \<Rightarrow>
          (let key = service_cluster_key sha s in
           run_bind (expand r) (\<lambda>ms. Returns
             \<lparr>cg_clusters = (if key \<in> fst ` set (cg_clusters g) then cg_clusters g
                else bput key (service_cluster s) (cg_clusters g)),
              cg_rules = cg_rules g @ [route_rule_of sha snap consumers r s ms],
              cg_table = cg_table g @ table_entries r ms (length (cg_rules g))\<rparr>)))"

definition store_listener :: "route_rule list \<Rightarrow> u16 \<Rightarrow> listener_config" where
  "store_listener rules port =
     \<lparr>lc_id = ''store/http:'' @ show_nat (unat port), lc_port = port, lc_client_port = None,
      lc_protocol = Http, lc_hostname = None, lc_tls = None, lc_rules = rules\<rparr>"

definition port_entries :: "(string option \<times> route_match \<times> nat) list \<Rightarrow> nat \<Rightarrow> port_entry list" where
  "port_entries table index =
     map (\<lambda>(hostname, matcher, rule).
       \<lparr>pe_listener = index, pe_hostname = hostname, pe_matcher = matcher, pe_rule = rule\<rparr>) table"

definition compile :: "(string \<Rightarrow> string) \<Rightarrow> store_snapshot \<Rightarrow> store_settings \<Rightarrow> config run" where
  "compile sha snap settings =
     (let services = service_map_of snap;
          routes = served_routes snap;
          consumers = consumer_table snap
      in run_bind
           (run_fold (compile_store_route sha snap services consumers) routes
             \<lparr>cg_clusters = [], cg_rules = [], cg_table = []\<rparr>)
           (\<lambda>g. let listeners = map (store_listener (cg_rules g)) (sg_http_ports settings) in Returns
             \<lparr>cf_listeners = listeners,
              cf_ports = collect_map (map (\<lambda>(index, l). (lc_port l, port_entries (cg_table g) index)) (enumerate 0 listeners)),
              cf_clusters = cg_clusters g,
              cf_credentials = collect_map (map (\<lambda>c. (sc_key_hash c, sc_consumer c)) (sn_credentials snap)),
              cf_credential_workspaces = collect_map (map (\<lambda>c. (sc_key_hash c, sc_workspace c))
                (filter (\<lambda>c. sc_workspace c \<noteq> []) (sn_credentials snap))),
              cf_consumer_rate_limits = consumer_rate_limits_of (sn_rate_limits snap) routes,
              cf_consumers = consumers\<rparr>))"

end
