(* ===== verification/Store_Sound.thy ===== *)
theory Store_Sound
  imports Store
begin

text \<open>
  Lemmas on the store compiler: collected maps, the expansion of a route, the closed form of the
  loop over the routes, and the search of a compiled table, which finds the first route that admits
  a request.
\<close>

section \<open>Collected maps\<close>

lemma fold_bput:
  "ordered m \<Longrightarrow> ordered (fold (\<lambda>(k, v). bput k v) kvs m) \<and>
     map_of (fold (\<lambda>(k, v). bput k v) kvs m) = map_of m ++ map_of (rev kvs)"
  by (induction kvs arbitrary: m) (auto simp: fun_eq_iff map_add_def split: option.splits)

lemma ordered_collect [simp]: "ordered (collect_map kvs)"
  by (simp add: collect_map_def fold_bput)

lemma map_of_collect: "map_of (collect_map kvs) = map_of (rev kvs)"
  by (simp add: collect_map_def fold_bput)

lemma keys_collect [simp]: "fst ` set (collect_map kvs) = fst ` set kvs"
  using arg_cong [OF map_of_collect [of kvs], of dom] by (simp add: dom_map_of_conv_image_fst)

lemma map_of_collectD: "map_of (collect_map kvs) k = Some v \<Longrightarrow> (k, v) \<in> set kvs"
  by (metis map_of_SomeD map_of_collect set_rev)

section \<open>Escapes\<close>

lemma valid_utf8_ascii_swap:
  assumes "valid_utf8 s" and "list_all2 (\<lambda>a b. a = b \<or> byte a < 128 \<and> byte b < 128) s t"
  shows "valid_utf8 t"
  using assms
proof (induction s arbitrary: t rule: valid_utf8_induct)
  case (ascii a s)
  then show ?case by (auto simp: list_all2_Cons1)
next
  case (multi m s)
  from multi.prems obtain m' t' where t: "t = m' @ t'" "length m = length m'"
      "list_all2 (\<lambda>a b. a = b \<or> byte a < 128 \<and> byte b < 128) m m'"
      "list_all2 (\<lambda>a b. a = b \<or> byte a < 128 \<and> byte b < 128) s t'"
    by (auto simp: list_all2_append1)
  have "m = m'"
  proof (rule nth_equalityI [OF t(2)])
    fix i assume i: "i < length m"
    then have "128 \<le> byte (m ! i)" using utf8_multi_high [OF multi.hyps(1)] by simp
    with list_all2_nthD [OF t(3) i] show "m ! i = m' ! i" by simp
  qed
  with t multi show ?case by (simp add: valid_utf8_multi)
qed simp

lemma upcase_escapes_bytes:
  "list_all2 (\<lambda>a b. a = b \<or> byte a < 128 \<and> byte b < 128) s (upcase_escapes s)"
proof (induction s rule: upcase_escapes.induct)
  case (1 c a b s)
  then show ?case by (simp add: hex_byte_ascii hexdigit_upper)
qed (simp_all add: list.rel_refl)

lemma uppercase_escapes_total: "valid_utf8 p \<Longrightarrow> uppercase_escapes p = Returns (upcase_escapes p)"
  using valid_utf8_ascii_swap [OF _ upcase_escapes_bytes] by (simp add: uppercase_escapes_def)

lemma upcase_canonical: "canonical p \<Longrightarrow> upcase_escapes p = p"
proof (induction p rule: upcase_escapes.induct)
  case (1 c a b s)
  show ?case
  proof (cases "c = CHR ''%''")
    case True
    with 1 show ?thesis by simp
  next
    case False
    with "1.prems" have "canonical (a # b # s)" by (subst (asm) canonical.simps) simp
    with False 1 show ?thesis by simp
  qed
qed simp_all

section \<open>The matches of a route\<close>

text \<open>What \<open>expand\<close> gives for texts.\<close>

fun as_served :: "path_match \<Rightarrow> path_match" where
  "as_served (Exact v) = Exact (upcase_escapes v)"
| "as_served (Prefix v) = Prefix (upcase_escapes v)"
| "as_served (Regex v) = Regex v"

definition served_paths :: "store_route \<Rightarrow> path_match list" where
  "served_paths r = (if sr_paths r = [] then [Prefix ''/''] else map as_served (sr_paths r))"

definition matches_of :: "store_route \<Rightarrow> route_match list" where
  "matches_of r = expand_with r (served_paths r)"

lemma served_path_Returns: "served_path p = Returns q \<Longrightarrow> q = as_served p"
  by (cases p) (auto simp: uppercase_escapes_def split: if_splits)

lemma expand_Returns: "expand r = Returns ms \<Longrightarrow> ms = matches_of r"
proof -
  assume "expand r = Returns ms"
  then obtain paths where ms: "ms = expand_with r paths"
    and paths: "(if sr_paths r = [] then Returns [Prefix ''/''] else run_map served_path (sr_paths r)) = Returns paths"
    by (auto simp: expand_def run_bind_Returns)
  have "paths = served_paths r"
  proof (cases "sr_paths r = []")
    case False
    with paths have "list_all2 (\<lambda>x y. served_path x = Returns y) (sr_paths r) paths"
      by (simp add: run_map_Returns)
    then have "list_all2 (\<lambda>x y. y = as_served x) (sr_paths r) paths"
      by (rule list_all2_mono) (rule served_path_Returns)
    then have "paths = map as_served (sr_paths r)"
      by (simp add: list_all2_conv_all_nth list_eq_iff_nth_eq)
    with False show ?thesis by (simp add: served_paths_def)
  qed (use paths in \<open>simp add: served_paths_def\<close>)
  with ms show ?thesis by (simp add: matches_of_def)
qed

fun path_text :: "path_match \<Rightarrow> string" where
  "path_text (Exact v) = v"
| "path_text (Prefix v) = v"
| "path_text (Regex v) = v"

lemma served_path_total: "valid_utf8 (path_text p) \<Longrightarrow> served_path p = Returns (as_served p)"
  by (cases p) (simp_all add: uppercase_escapes_total)

lemma expand_total: "\<forall>p \<in> set (sr_paths r). valid_utf8 (path_text p) \<Longrightarrow> expand r = Returns (matches_of r)"
  by (simp add: expand_def matches_of_def served_paths_def run_map_total [of _ served_path as_served] served_path_total)

text \<open>Kong's reading of a route: any of the hosts, any of the paths, any of the methods, every header.\<close>

definition route_admits ::
  "('re \<Rightarrow> string \<Rightarrow> bool) \<Rightarrow> (string \<times> 're) list \<Rightarrow> request_attrs \<Rightarrow> store_route \<Rightarrow> bool" where
  "route_admits is_match regexes req r \<longleftrightarrow>
     (sr_hosts r = [] \<or> (\<exists>h \<in> set (sr_hosts r). host_matches h (ra_host req))) \<and>
     (sr_paths r = [] \<or> (\<exists>p \<in> set (sr_paths r). path_matches is_match (as_served p) (ra_path req) regexes)) \<and>
     (sr_methods r = [] \<or> (\<exists>m \<in> set (sr_methods r). eq_ignore_ascii_case m (ra_method req))) \<and>
     (\<forall>h \<in> set (sr_headers r). case find (\<lambda>(n, _). eq_ignore_ascii_case n (kv_name h)) (ra_headers req) of
        None \<Rightarrow> False | Some (_, v) \<Rightarrow> v = kv_value h)"

lemma eq_ignore_lower [simp]: "eq_ignore_ascii_case n (to_ascii_lowercase m) = eq_ignore_ascii_case n m"
  by (simp add: eq_ignore_ascii_case_def o_def)

lemma matches_admit:
  "(\<exists>m \<in> set (matches_of r). entry_matches is_match m req regexes) \<longleftrightarrow>
     (sr_paths r = [] \<or> (\<exists>p \<in> set (sr_paths r). path_matches is_match (as_served p) (ra_path req) regexes)) \<and>
     (sr_methods r = [] \<or> (\<exists>m \<in> set (sr_methods r). eq_ignore_ascii_case m (ra_method req))) \<and>
     (\<forall>h \<in> set (sr_headers r). case find (\<lambda>(n, _). eq_ignore_ascii_case n (kv_name h)) (ra_headers req) of
        None \<Rightarrow> False | Some (_, v) \<Rightarrow> v = kv_value h)" (is "_ = (?P \<and> ?M \<and> ?H)")
proof -
  have p: "(\<exists>p \<in> set (served_paths r). path_matches is_match p (ra_path req) regexes) \<longleftrightarrow> ?P"
    by (simp add: served_paths_def)
  have m: "(\<exists>m \<in> set (expand_methods r). case m of None \<Rightarrow> True | Some x \<Rightarrow> eq_ignore_ascii_case x (ra_method req)) \<longleftrightarrow> ?M"
    by (simp add: expand_methods_def)
  have h: "list_all (\<lambda>h. case find (\<lambda>(n, _). eq_ignore_ascii_case n (kv_name h)) (ra_headers req) of
      None \<Rightarrow> False | Some (_, v) \<Rightarrow> v = kv_value h) (expand_headers r) \<longleftrightarrow> ?H"
    by (simp add: expand_headers_def list_all_iff cong: option.case_cong)
  have "(\<exists>m \<in> set (matches_of r). entry_matches is_match m req regexes) \<longleftrightarrow>
      (\<exists>p \<in> set (served_paths r). \<exists>m \<in> set (expand_methods r). path_matches is_match p (ra_path req) regexes \<and>
        (case m of None \<Rightarrow> True | Some x \<Rightarrow> eq_ignore_ascii_case x (ra_method req)) \<and> ?H)"
    unfolding h [symmetric] by (simp add: matches_of_def expand_with_def entry_matches_def)
  with p m show ?thesis by blast
qed

section \<open>The loop over the routes\<close>

definition service_of :: "store_snapshot \<Rightarrow> store_route \<Rightarrow> store_service" where
  "service_of snap r = the (map_of (service_map_of snap) (sr_workspace r, sr_service r))"

definition compiled_rule :: "(string \<Rightarrow> string) \<Rightarrow> store_snapshot \<Rightarrow> store_route \<Rightarrow> route_rule" where
  "compiled_rule sha snap r =
     route_rule_of sha snap (consumer_table snap) r (service_of snap r) (matches_of r)"

fun table_from :: "nat \<Rightarrow> store_route list \<Rightarrow> (string option \<times> route_match \<times> nat) list" where
  "table_from n [] = []"
| "table_from n (r # rs) = table_entries r (matches_of r) n @ table_from (Suc n) rs"

definition add_cluster ::
  "(string \<Rightarrow> string) \<Rightarrow> store_service \<Rightarrow> (string \<times> cluster) list \<Rightarrow> (string \<times> cluster) list" where
  "add_cluster sha s m =
     (if service_cluster_key sha s \<in> fst ` set m then m else bput (service_cluster_key sha s) (service_cluster s) m)"

lemma compile_store_route_Returns:
  assumes "compile_store_route sha snap (service_map_of snap) (consumer_table snap) r g = Returns g'"
  shows "cg_rules g' = cg_rules g @ [compiled_rule sha snap r]"
    and "cg_table g' = cg_table g @ table_entries r (matches_of r) (length (cg_rules g))"
    and "cg_clusters g' = add_cluster sha (service_of snap r) (cg_clusters g)"
proof -
  from assms obtain s ms where "map_of (service_map_of snap) (sr_workspace r, sr_service r) = Some s"
      and ms: "expand r = Returns ms"
      and g': "g' = \<lparr>cg_clusters = add_cluster sha s (cg_clusters g),
        cg_rules = cg_rules g @ [route_rule_of sha snap (consumer_table snap) r s ms],
        cg_table = cg_table g @ table_entries r ms (length (cg_rules g))\<rparr>"
    by (auto simp: compile_store_route_def Let_def run_bind_Returns add_cluster_def split: option.splits)
  then have "s = service_of snap r" by (simp add: service_of_def)
  with g' expand_Returns [OF ms]
  show "cg_rules g' = cg_rules g @ [compiled_rule sha snap r]"
    and "cg_table g' = cg_table g @ table_entries r (matches_of r) (length (cg_rules g))"
    and "cg_clusters g' = add_cluster sha (service_of snap r) (cg_clusters g)"
    by (simp_all add: compiled_rule_def)
qed

lemma compile_routes_Returns:
  assumes "run_fold (compile_store_route sha snap (service_map_of snap) (consumer_table snap)) rs g = Returns g'"
  shows "cg_rules g' = cg_rules g @ map (compiled_rule sha snap) rs \<and>
    cg_table g' = cg_table g @ table_from (length (cg_rules g)) rs \<and>
    cg_clusters g' = fold (add_cluster sha) (map (service_of snap) rs) (cg_clusters g)"
  using assms
proof (induction rs arbitrary: g)
  case (Cons r rs)
  then obtain h where h: "compile_store_route sha snap (service_map_of snap) (consumer_table snap) r g = Returns h"
      and "run_fold (compile_store_route sha snap (service_map_of snap) (consumer_table snap)) rs h = Returns g'"
    by (auto simp: run_bind_Returns)
  from Cons.IH [OF this(2)] compile_store_route_Returns [OF h] show ?case by simp
qed simp

text \<open>A compiled configuration, part by part.\<close>

lemma compile_Returns:
  assumes "compile sha snap settings = Returns cfg"
  shows "cf_listeners cfg = map (store_listener (map (compiled_rule sha snap) (served_routes snap))) (sg_http_ports settings)"
    and "cf_ports cfg = collect_map (map (\<lambda>(index, l). (lc_port l, port_entries (table_from 0 (served_routes snap)) index))
           (enumerate 0 (cf_listeners cfg)))"
    and "cf_clusters cfg = fold (add_cluster sha) (map (service_of snap) (served_routes snap)) []"
    and "cf_credentials cfg = collect_map (map (\<lambda>c. (sc_key_hash c, sc_consumer c)) (sn_credentials snap))"
    and "cf_credential_workspaces cfg = collect_map (map (\<lambda>c. (sc_key_hash c, sc_workspace c))
           (filter (\<lambda>c. sc_workspace c \<noteq> []) (sn_credentials snap)))"
    and "cf_consumer_rate_limits cfg = consumer_rate_limits_of (sn_rate_limits snap) (served_routes snap)"
    and "cf_consumers cfg = consumer_table snap"
  using assms compile_routes_Returns [of sha snap "served_routes snap" "\<lparr>cg_clusters = [], cg_rules = [], cg_table = []\<rparr>"]
  by (auto simp: compile_def Let_def run_bind_Returns)

lemma compile_total:
  assumes "\<forall>r \<in> set (sn_routes snap). \<forall>p \<in> set (sr_paths r). valid_utf8 (path_text p)"
  shows "\<exists>cfg. compile sha snap settings = Returns cfg"
proof -
  let ?step = "compile_store_route sha snap (service_map_of snap) (consumer_table snap)"
  have "\<exists>g'. ?step r g = Returns g' \<and> True" if "r \<in> set (served_routes snap)" for r g
  proof -
    from that have "(sr_workspace r, sr_service r) \<in> fst ` set (service_map_of snap)" and "r \<in> set (sn_routes snap)"
      by (auto simp: served_routes_def)
    with assms expand_total [of r] show ?thesis
      by (auto simp: compile_store_route_def Let_def map_of_in_keys [symmetric] split: option.split)
  qed
  then have "\<exists>g. run_fold ?step (served_routes snap) \<lparr>cg_clusters = [], cg_rules = [], cg_table = []\<rparr> = Returns g \<and> True"
    by (intro run_fold_total) simp_all
  then show ?thesis by (auto simp: compile_def Let_def)
qed

section \<open>The search of a compiled table\<close>

lemma block_admits:
  "(\<exists>e \<in> set (port_entries (table_entries r (matches_of r) n) i). entry_admits is_match req regexes e) \<longleftrightarrow>
     route_admits is_match regexes req r"
proof -
  have "(\<exists>e \<in> set (port_entries (table_entries r (matches_of r) n) i). entry_admits is_match req regexes e) \<longleftrightarrow>
      (sr_hosts r = [] \<or> (\<exists>h \<in> set (sr_hosts r). host_matches h (ra_host req))) \<and>
      (\<exists>m \<in> set (matches_of r). entry_matches is_match m req regexes)"
    by (cases "sr_hosts r = []") (auto simp: port_entries_def table_entries_def entry_admits_def)
  then show ?thesis unfolding matches_admit route_admits_def by blast
qed

lemma port_entries_append [simp]: "port_entries (a @ b) i = port_entries a i @ port_entries b i"
  by (simp add: port_entries_def)

lemma block_entries:
  "e \<in> set (port_entries (table_entries r ms n) i) \<Longrightarrow> pe_listener e = i \<and> pe_rule e = n"
  by (auto simp: port_entries_def table_entries_def split: if_splits)

lemma find_table:
  "case find (entry_admits is_match req regexes) (port_entries (table_from n rs) i) of
     None \<Rightarrow> find (route_admits is_match regexes req) rs = None
   | Some e \<Rightarrow> \<exists>j < length rs. pe_listener e = i \<and> pe_rule e = n + j \<and>
       find (route_admits is_match regexes req) rs = Some (rs ! j)"
proof (induction rs arbitrary: n)
  case Nil
  show ?case by (simp add: port_entries_def)
next
  case (Cons r rs)
  let ?block = "port_entries (table_entries r (matches_of r) n) i"
  show ?case
  proof (cases "find (entry_admits is_match req regexes) ?block")
    case None
    then have no: "\<not> route_admits is_match regexes req r"
      using block_admits [of r n i is_match req regexes] by (simp add: find_None)
    show ?thesis using Cons.IH [of "Suc n"] no None
      by (auto simp: find_append split: option.splits intro: exI [of _ "Suc _"])
  next
    case (Some e)
    from find_SomeD [OF this] have "route_admits is_match regexes req r" and e: "pe_listener e = i" "pe_rule e = n"
      using block_admits [of r n i is_match req regexes] block_entries by blast+
    with Some show ?thesis by (auto simp: find_append intro!: exI [of _ 0])
  qed
qed

end
