(* ===== verification/Store_Policies.thy ===== *)
theory Store_Policies
  imports Store_Sound
begin

text \<open>
  Which policies and limits of the store reach a route. The reference is \<open>most_specific\<close>: of
  the rows that apply, the first of the highest rank. The slots of \<open>plugins_for\<close>, the fold of
  \<open>limit_on_everyone\<close> and the tables of \<open>consumer_rate_limits\<close> are shown to hold it.
\<close>

section \<open>The most specific row\<close>

definition better_row :: "('a \<Rightarrow> nat option) \<Rightarrow> 'a \<Rightarrow> 'a option \<Rightarrow> 'a option" where
  "better_row f x best =
     (case f x of
        None \<Rightarrow> best
      | Some k \<Rightarrow> (case best of None \<Rightarrow> Some x | Some y \<Rightarrow> if the (f y) < k then Some x else best))"

definition most_specific :: "('a \<Rightarrow> nat option) \<Rightarrow> 'a list \<Rightarrow> 'a option" where
  "most_specific f xs = fold (better_row f) xs None"

lemma most_specific_Nil [simp]: "most_specific f [] = None"
  by (simp add: most_specific_def)

lemma most_specific_snoc [simp]: "most_specific f (xs @ [x]) = better_row f x (most_specific f xs)"
  by (simp add: most_specific_def)

lemma most_specific_None: "most_specific f xs = None \<longleftrightarrow> (\<forall>x \<in> set xs. f x = None)"
  by (induction xs rule: rev_induct) (auto simp: better_row_def split: option.splits)

lemma most_specific_applies: "most_specific f xs = Some x \<Longrightarrow> x \<in> set xs \<and> f x \<noteq> None"
  by (induction xs arbitrary: x rule: rev_induct) (auto simp: better_row_def split: option.splits if_splits)

lemma most_specific_cong: "(\<And>x. x \<in> set xs \<Longrightarrow> f x = g x) \<Longrightarrow> most_specific f xs = most_specific g xs"
proof (induction xs rule: rev_induct)
  case (snoc x xs)
  then have "most_specific f xs = most_specific g xs" and "f x = g x" by simp_all
  moreover have "f y = g y" if "most_specific g xs = Some y" for y
    using most_specific_applies [OF that] snoc.prems by simp
  ultimately show ?case by (auto simp: better_row_def split: option.split)
qed simp

text \<open>It is the first of the rows of the highest rank.\<close>

lemma most_specific_first:
  assumes "most_specific f xs = Some x"
  shows "\<exists>us vs. xs = us @ x # vs \<and> (\<forall>u \<in> set us. f u \<noteq> None \<longrightarrow> the (f u) < the (f x)) \<and>
    (\<forall>v \<in> set vs. f v \<noteq> None \<longrightarrow> the (f v) \<le> the (f x))"
  using assms
proof (induction xs arbitrary: x rule: rev_induct)
  case (snoc y xs)
  from snoc.prems consider
      (old) "most_specific f xs = Some x" "f y \<noteq> None \<longrightarrow> the (f y) \<le> the (f x)"
    | (new) "x = y" "f y \<noteq> None" "\<forall>z. most_specific f xs = Some z \<longrightarrow> the (f z) < the (f y)"
    by (auto simp: better_row_def split: option.splits if_splits)
  then show ?case
  proof cases
    case old
    from snoc.IH [OF old(1)] obtain us vs where "xs = us @ x # vs"
        and "\<forall>u \<in> set us. f u \<noteq> None \<longrightarrow> the (f u) < the (f x)"
        and "\<forall>v \<in> set vs. f v \<noteq> None \<longrightarrow> the (f v) \<le> the (f x)" by blast
    with old(2) show ?thesis by (intro exI [of _ us] exI [of _ "vs @ [y]"]) simp
  next
    case new
    have "the (f u) < the (f y)" if u: "u \<in> set xs" "f u \<noteq> None" for u
    proof -
      from u obtain z where z: "most_specific f xs = Some z" using most_specific_None [of f xs] by (cases "most_specific f xs") auto
      from snoc.IH [OF z] obtain us vs where "xs = us @ z # vs"
        and "\<forall>u \<in> set us. f u \<noteq> None \<longrightarrow> the (f u) < the (f z)"
        and "\<forall>v \<in> set vs. f v \<noteq> None \<longrightarrow> the (f v) \<le> the (f z)" by blast
      with u have "the (f u) \<le> the (f z)" by (auto simp: less_imp_le)
      also have "\<dots> < the (f y)" using new(3) z by blast
      finally show ?thesis .
    qed
    with new(1) show ?thesis by (intro exI [of _ xs] exI [of _ "[]"]) simp
  qed
qed simp

section \<open>Rows attached to a route\<close>

text \<open>
  The contract policies and limits share: a row has a workspace and a target, and \<open>rank\<close> says
  how specifically it applies to a route. No row of another workspace ever applies.
\<close>

locale attached =
  fixes workspace :: "'row \<Rightarrow> string" and row_rank :: "store_route \<Rightarrow> 'row \<Rightarrow> nat option"
  assumes same_workspace: "row_rank r x \<noteq> None \<Longrightarrow> workspace x = sr_workspace r"
begin

lemma chosen_in_workspace:
  assumes "most_specific (\<lambda>x. if P x then row_rank r x else None) rows = Some x"
  shows "x \<in> set rows \<and> P x \<and> workspace x = sr_workspace r"
  using most_specific_applies [OF assms] same_workspace by (auto split: if_splits)

lemma other_workspaces_ignored:
  "most_specific (\<lambda>x. if P x then row_rank r x else None) (filter (\<lambda>x. workspace x = sr_workspace r) rows) =
   most_specific (\<lambda>x. if P x then row_rank r x else None) rows"
proof (induction rows rule: rev_induct)
  case (snoc x rows)
  then show ?case using same_workspace [of r x]
    by (cases "row_rank r x") (auto simp: better_row_def)
qed simp

end

definition plugin_rank :: "store_route \<Rightarrow> store_plugin \<Rightarrow> nat option" where
  "plugin_rank r p = rank (sp_workspace p) (sp_route p) (sp_service p) r"

definition limit_rank :: "store_route \<Rightarrow> store_rate_limit \<Rightarrow> nat option" where
  "limit_rank r l = rank (sl_workspace l) (sl_route l) (sl_service l) r"

interpretation plugin_rows: attached sp_workspace plugin_rank
  by unfold_locales (simp add: plugin_rank_def rank_def split: if_splits)

interpretation limit_rows: attached sl_workspace limit_rank
  by unfold_locales (simp add: limit_rank_def rank_def split: if_splits)

text \<open>
  The same in words of the store: the first row on the route itself, else the first on its service,
  else the first on its whole workspace. It is what the highest rank comes to.
\<close>

definition or_else :: "'a option \<Rightarrow> 'a option \<Rightarrow> 'a option" where
  "or_else a b = (case a of Some x \<Rightarrow> Some x | None \<Rightarrow> b)"

definition nearest ::
  "('row \<Rightarrow> string) \<Rightarrow> ('row \<Rightarrow> string option) \<Rightarrow> ('row \<Rightarrow> string option) \<Rightarrow> store_route \<Rightarrow> 'row list \<Rightarrow> 'row option" where
  "nearest workspace on_route on_service r rows =
     or_else (find (\<lambda>x. workspace x = sr_workspace r \<and> on_route x = Some (sr_name r)) rows)
       (or_else (find (\<lambda>x. workspace x = sr_workspace r \<and> on_route x = None \<and> on_service x = Some (sr_service r)) rows)
         (find (\<lambda>x. workspace x = sr_workspace r \<and> on_route x = None \<and> on_service x = None) rows))"

lemma find_snoc: "find P (xs @ [x]) = or_else (find P xs) (if P x then Some x else None)"
  by (induction xs) (simp_all add: or_else_def)

lemma most_specific_ladder:
  assumes "\<And>x k. f x = Some k \<Longrightarrow> k \<le> 2"
  shows "most_specific f xs =
    or_else (find (\<lambda>x. f x = Some 2) xs) (or_else (find (\<lambda>x. f x = Some 1) xs) (find (\<lambda>x. f x = Some 0) xs))"
proof (induction xs rule: rev_induct)
  case (snoc x xs)
  have found: "f y = Some k" if "find (\<lambda>x. f x = Some k) xs = Some y" for y k
    using find_SomeD [OF that] by simp
  consider "f x = None" | "f x = Some 0" | "f x = Some 1" | "f x = Some 2"
    using assms [of x] by (cases "f x") (auto simp: le_Suc_eq numeral_2_eq_2)
  then show ?case
    by cases (auto simp: snoc find_snoc better_row_def or_else_def dest: found split: option.split)
qed (simp add: or_else_def)

lemma most_specific_nearest:
  "most_specific (\<lambda>x. if P x then rank (workspace x) (on_route x) (on_service x) r else None) rows =
   nearest workspace on_route on_service r (filter P rows)"
proof -
  let ?f = "\<lambda>x. if P x then rank (workspace x) (on_route x) (on_service x) r else None"
  have filtered: "find Q (filter P rows) = find (\<lambda>x. P x \<and> Q x) rows" for Q by (induction rows) auto
  have steps: "?f x = Some 2 \<longleftrightarrow> P x \<and> workspace x = sr_workspace r \<and> on_route x = Some (sr_name r)"
    "?f x = Some 1 \<longleftrightarrow> P x \<and> workspace x = sr_workspace r \<and> on_route x = None \<and> on_service x = Some (sr_service r)"
    "?f x = Some 0 \<longleftrightarrow> P x \<and> workspace x = sr_workspace r \<and> on_route x = None \<and> on_service x = None" for x
    by (auto simp: rank_def split: option.splits if_splits)
  have "?f x = Some k \<Longrightarrow> k \<le> 2" for x k by (auto simp: rank_def split: option.splits if_splits)
  from most_specific_ladder [of ?f, OF this] show ?thesis unfolding steps nearest_def filtered .
qed

lemma plugin_nearest:
  "most_specific (\<lambda>x. if P x then plugin_rank r x else None) rows = nearest sp_workspace sp_route sp_service r (filter P rows)"
  unfolding plugin_rank_def by (rule most_specific_nearest)

lemma limit_nearest:
  "most_specific (\<lambda>l. if P l then limit_rank r l else None) rows = nearest sl_workspace sl_route sl_service r (filter P rows)"
  unfolding limit_rank_def by (rule most_specific_nearest)

lemma nearest_in: "nearest workspace on_route on_service r rows = Some x \<Longrightarrow> x \<in> set rows"
  by (auto simp: nearest_def or_else_def dest: find_SomeD split: option.splits)

text \<open>A policy without the workspace its credentials are looked up in, and without the anonymous consumer.\<close>

fun unscoped :: "plugin \<Rightarrow> plugin" where
  "unscoped (KeyAuth p) = KeyAuth (p\<lparr>ka_workspace := None\<rparr>)"
| "unscoped (Jwt p) = Jwt (p\<lparr>jp_workspace := None\<rparr>)"
| "unscoped (Auth p) = Auth \<lparr>au_anonymous = None, au_workspace = None\<rparr>"
| "unscoped p = p"

lemma unscoped_stamp [simp]: "unscoped (stamp consumers ws p) = unscoped p"
  by (cases p) (auto simp: stamp_def)

section \<open>Policies\<close>

lemma place_kinds:
  "map (plugin_kind \<circ> snd) (place k p chosen) =
    (if plugin_kind p \<in> plugin_kind ` snd ` set chosen then map (plugin_kind \<circ> snd) chosen
     else map (plugin_kind \<circ> snd) chosen @ [plugin_kind p])"
  by (induction k p chosen rule: place.induct) (auto simp: same_kind_def)

text \<open>What the slots hold: one policy per kind, with its rank, the most specific of the kind.\<close>

definition slots_ok :: "store_route \<Rightarrow> store_plugin list \<Rightarrow> (nat \<times> plugin) list \<Rightarrow> bool" where
  "slots_ok r rows chosen \<longleftrightarrow> distinct (map (plugin_kind \<circ> snd) chosen) \<and>
     (\<forall>kind. case most_specific (\<lambda>x. if plugin_kind (sp_plugin x) = kind then plugin_rank r x else None) rows of
        None \<Rightarrow> \<forall>s \<in> set chosen. plugin_kind (snd s) \<noteq> kind
      | Some x \<Rightarrow> (the (plugin_rank r x), sp_plugin x) \<in> set chosen)"

lemma slots_okD:
  "slots_ok r rows chosen \<Longrightarrow>
     case most_specific (\<lambda>x. if plugin_kind (sp_plugin x) = kind then plugin_rank r x else None) rows of
        None \<Rightarrow> \<forall>s \<in> set chosen. plugin_kind (snd s) \<noteq> kind
      | Some x \<Rightarrow> (the (plugin_rank r x), sp_plugin x) \<in> set chosen"
  by (simp add: slots_ok_def)

lemma place_other: "plugin_kind c \<noteq> plugin_kind p \<Longrightarrow> (j, c) \<in> set (place k p chosen) \<longleftrightarrow> (j, c) \<in> set chosen"
  by (induction k p chosen rule: place.induct) (auto simp: same_kind_def)

lemma place_new: "\<forall>s \<in> set chosen. plugin_kind (snd s) \<noteq> plugin_kind p \<Longrightarrow> (k, p) \<in> set (place k p chosen)"
  by (induction k p chosen rule: place.induct) (auto simp: same_kind_def)

lemma place_slot:
  "distinct (map (plugin_kind \<circ> snd) chosen) \<Longrightarrow> (j, c) \<in> set chosen \<Longrightarrow> plugin_kind c = plugin_kind p \<Longrightarrow>
     (if j < k then (k, p) else (j, c)) \<in> set (place k p chosen)"
  by (induction k p chosen rule: place.induct) (auto simp: same_kind_def image_iff)

lemma slots_ok_step:
  assumes "slots_ok r rows chosen"
  shows "slots_ok r (rows @ [x]) (choose_plugin r x chosen)"
proof (cases "plugin_rank r x")
  case None
  with assms show ?thesis
    by (simp add: slots_ok_def choose_plugin_def better_row_def flip: plugin_rank_def cong: if_cong)
next
  case (Some k)
  let ?p = "sp_plugin x"
  let ?best = "\<lambda>kind. most_specific (\<lambda>x. if plugin_kind (sp_plugin x) = kind then plugin_rank r x else None)"
  have step: "choose_plugin r x chosen = place k ?p chosen" using Some by (simp add: choose_plugin_def plugin_rank_def)
  have d: "distinct (map (plugin_kind \<circ> snd) chosen)" using assms by (simp add: slots_ok_def)
  then have "distinct (map (plugin_kind \<circ> snd) (place k ?p chosen))" by (auto simp: place_kinds image_comp)
  moreover have "case ?best kind (rows @ [x]) of
      None \<Rightarrow> \<forall>s \<in> set (place k ?p chosen). plugin_kind (snd s) \<noteq> kind
    | Some y \<Rightarrow> (the (plugin_rank r y), sp_plugin y) \<in> set (place k ?p chosen)" for kind
  proof (cases "kind = plugin_kind ?p")
    case True
    note slot = slots_okD [OF assms, of kind]
    show ?thesis
    proof (cases "?best kind rows")
      case None
      with slot have "\<forall>s \<in> set chosen. plugin_kind (snd s) \<noteq> plugin_kind ?p" unfolding True by simp
      with None True Some show ?thesis by (simp add: better_row_def place_new)
    next
      case (Some y)
      with slot have "(the (plugin_rank r y), sp_plugin y) \<in> set chosen" by simp
      moreover have kind: "plugin_kind (sp_plugin y) = kind" using most_specific_applies [OF Some] by (auto split: if_splits)
      ultimately have "(if the (plugin_rank r y) < k then (k, ?p) else (the (plugin_rank r y), sp_plugin y))
          \<in> set (place k ?p chosen)" using place_slot [OF d] True by simp
      with Some kind True \<open>plugin_rank r x = Some k\<close> show ?thesis by (auto simp: better_row_def)
    qed
  next
    case False
    have other: "?best kind (rows @ [x]) = ?best kind rows" using False by (simp add: better_row_def)
    show ?thesis
    proof (cases "?best kind rows")
      case None
      then have "plugin_kind c \<noteq> kind" if "(j, c) \<in> set (place k ?p chosen)" for j c
        using slots_okD [OF assms, of kind] that place_other [of c ?p j k chosen] False by fastforce
      with None show ?thesis unfolding other by fastforce
    next
      case (Some y)
      with most_specific_applies [OF Some] have "plugin_kind (sp_plugin y) = kind" by (auto split: if_splits)
      with Some slots_okD [OF assms, of kind] False show ?thesis unfolding other by (simp add: place_other)
    qed
  qed
  ultimately show ?thesis unfolding step slots_ok_def by blast
qed

lemma slots_ok_fold: "slots_ok r rows (fold (choose_plugin r) rows [])"
proof (induction rows rule: rev_induct)
  case (snoc x rows)
  then show ?case by (simp add: slots_ok_step)
qed (simp add: slots_ok_def)

lemma stamp_kind [simp]: "plugin_kind (stamp consumers ws p) = plugin_kind p"
  by (cases p) (simp_all add: stamp_def)

lemma plugins_for_kinds: "distinct (map plugin_kind (plugins_for rows r consumers))"
  using slots_ok_fold [of r rows]
  by (simp add: slots_ok_def plugins_for_def o_def case_prod_beta)

lemma plugins_for_iff:
  "q \<in> set (plugins_for rows r consumers) \<longleftrightarrow>
     (\<exists>x. most_specific (\<lambda>x. if plugin_kind (sp_plugin x) = plugin_kind q then plugin_rank r x else None) rows = Some x \<and>
        q = stamp consumers (sr_workspace r) (sp_plugin x))"
proof -
  let ?chosen = "fold (choose_plugin r) rows []"
  let ?best = "most_specific (\<lambda>x. if plugin_kind (sp_plugin x) = plugin_kind q then plugin_rank r x else None) rows"
  note slot = slots_okD [OF slots_ok_fold [of r rows], of "plugin_kind q"]
  have inj: "inj_on (plugin_kind \<circ> snd) (set ?chosen)" using slots_ok_fold [of r rows] by (simp add: slots_ok_def distinct_map)
  show ?thesis
  proof
    assume "q \<in> set (plugins_for rows r consumers)"
    then obtain j c where c: "(j, c) \<in> set ?chosen" "q = stamp consumers (sr_workspace r) c"
      by (auto simp: plugins_for_def)
    then obtain x where x: "?best = Some x" using slot by (cases ?best) fastforce+
    then have "plugin_kind (sp_plugin x) = plugin_kind c" using most_specific_applies [OF x] c(2) by (auto split: if_splits)
    moreover have "(the (plugin_rank r x), sp_plugin x) \<in> set ?chosen" using slot x by simp
    ultimately have "sp_plugin x = c" using inj_onD [OF inj _ _ c(1)] by fastforce
    with x c(2) show "\<exists>x. ?best = Some x \<and> q = stamp consumers (sr_workspace r) (sp_plugin x)" by blast
  next
    assume "\<exists>x. ?best = Some x \<and> q = stamp consumers (sr_workspace r) (sp_plugin x)"
    with slot show "q \<in> set (plugins_for rows r consumers)" by (force simp: plugins_for_def)
  qed
qed

section \<open>The limit on everyone\<close>

definition everyones_rank :: "store_route \<Rightarrow> store_rate_limit \<Rightarrow> nat option" where
  "everyones_rank r l = (if sl_consumer l = None then limit_rank r l else None)"

lemma limit_on_everyone_spec:
  "limit_on_everyone rows r = map_option sl_limit (most_specific (everyones_rank r) rows)"
proof -
  have "fold (limit_step r) rows None =
      map_option (\<lambda>l. (the (everyones_rank r l), sl_limit l)) (most_specific (everyones_rank r) rows)"
  proof (induction rows rule: rev_induct)
    case (snoc l rows)
    then show ?case
      by (auto simp: limit_step_def better_row_def everyones_rank_def limit_rank_def split: option.splits)
  qed simp
  then show ?thesis by (cases "most_specific (everyones_rank r) rows") (simp_all add: limit_on_everyone_def)
qed

section \<open>The limits of a consumer\<close>

definition owned_by :: "string \<Rightarrow> store_rate_limit \<Rightarrow> bool" where
  "owned_by c l \<longleftrightarrow> (case sl_consumer l of Some u \<Rightarrow> consumer_id (sl_workspace l) u = c | None \<Rightarrow> False)"

definition targeted :: "store_rate_limit \<Rightarrow> bool" where
  "targeted l \<longleftrightarrow> sl_route l \<noteq> None \<or> sl_service l \<noteq> None"

definition own_rank :: "string \<Rightarrow> store_route \<Rightarrow> store_rate_limit \<Rightarrow> nat option" where
  "own_rank c r l = (if owned_by c l \<and> targeted l then limit_rank r l else None)"

text \<open>A cell of the two tables, and what one row does to the cell of a route.\<close>

definition cell :: "limit_tables \<Rightarrow> string \<Rightarrow> string \<Rightarrow> rate_limit option \<times> nat option" where
  "cell t c i = (map_of (crl_routes (own_entry c (fst t))) i, map_of (snd t) (c, i))"

definition cell_step ::
  "store_rate_limit \<Rightarrow> store_route \<Rightarrow> rate_limit option \<times> nat option \<Rightarrow> rate_limit option \<times> nat option" where
  "cell_step l r x =
     (case limit_rank r l of
        None \<Rightarrow> x
      | Some k \<Rightarrow> if (case snd x of None \<Rightarrow> True | Some best \<Rightarrow> best < k) then (Some (sl_limit l), Some k) else x)"

definition tables_ordered :: "limit_tables \<Rightarrow> bool" where
  "tables_ordered t \<longleftrightarrow> ordered (fst t) \<and> ordered (snd t) \<and> (\<forall>c. ordered (crl_routes (own_entry c (fst t))))"

lemma own_entry_bput:
  "ordered out \<Longrightarrow> own_entry c (bput c' e out) = (if c = c' then e else own_entry c out)"
  by (simp add: own_entry_def)

lemma consumer_limit_route_effect:
  assumes "tables_ordered t"
  shows "tables_ordered (consumer_limit_route l c' r t)"
    and "cell (consumer_limit_route l c' r t) c i =
      (if c = c' \<and> i = route_id r then cell_step l r (cell t c i) else cell t c i)"
    and "crl_any (own_entry c (fst (consumer_limit_route l c' r t))) = crl_any (own_entry c (fst t))"
  using assms
  by (auto simp: consumer_limit_route_def tables_ordered_def cell_def cell_step_def limit_rank_def own_entry_bput
      split: option.splits prod.splits)

lemma consumer_limit_fold_effect:
  assumes "tables_ordered t" and "distinct (map route_id rs)"
  shows "tables_ordered (fold (consumer_limit_route l c') rs t) \<and>
    (\<forall>c. crl_any (own_entry c (fst (fold (consumer_limit_route l c') rs t))) = crl_any (own_entry c (fst t))) \<and>
    (\<forall>c i. c \<noteq> c' \<or> i \<notin> route_id ` set rs \<longrightarrow> cell (fold (consumer_limit_route l c') rs t) c i = cell t c i) \<and>
    (\<forall>r \<in> set rs. cell (fold (consumer_limit_route l c') rs t) c' (route_id r) = cell_step l r (cell t c' (route_id r)))"
  using assms
proof (induction rs arbitrary: t)
  case (Cons r rs)
  let ?t = "consumer_limit_route l c' r t"
  note step = consumer_limit_route_effect [OF Cons.prems(1), where l = l and c' = c' and r = r]
  from Cons.prems(2) have d: "distinct (map route_id rs)" and new: "route_id r \<notin> route_id ` set rs" by auto
  note IH = Cons.IH [OF step(1) d]
  have "cell (fold (consumer_limit_route l c') (r # rs) t) c' (route_id q) = cell_step l q (cell t c' (route_id q))"
    if "q \<in> set (r # rs)" for q
  proof (cases "q \<in> set rs")
    case True
    then have "route_id q \<noteq> route_id r" using new by (metis imageI)
    with IH True step(2) show ?thesis by simp
  next
    case False
    with that have "q = r" by simp
    with IH new step(2) show ?thesis by simp
  qed
  with IH step(2,3) show ?case by simp
qed simp

text \<open>The tables after a list of rows, for the served routes.\<close>

definition tables_ok :: "store_route list \<Rightarrow> store_rate_limit list \<Rightarrow> limit_tables \<Rightarrow> bool" where
  "tables_ok routes rows t \<longleftrightarrow> tables_ordered t \<and>
     (\<forall>c. crl_any (own_entry c (fst t)) = map_option sl_limit (find (\<lambda>l. owned_by c l \<and> \<not> targeted l) rows)) \<and>
     (\<forall>c. \<forall>r \<in> set routes. cell t c (route_id r) =
        (map_option sl_limit (most_specific (own_rank c r) rows),
         map_option (\<lambda>l. the (own_rank c r l)) (most_specific (own_rank c r) rows)))"

lemma tables_ok_skip:
  assumes "tables_ok routes rows t" and "\<And>c. owned_by c l \<Longrightarrow> False"
  shows "tables_ok routes (rows @ [l]) t"
proof -
  have "find (\<lambda>l. owned_by c l \<and> \<not> targeted l) (rows @ [l]) = find (\<lambda>l. owned_by c l \<and> \<not> targeted l) rows"
    and "own_rank c r l = None" for c r
    using assms(2) by (auto simp: find_append own_rank_def split: option.split)
  with assms(1) show ?thesis by (simp add: tables_ok_def better_row_def)
qed

lemma tables_ok_any:
  fixes out :: "(string \<times> consumer_rate_limits) list"
  assumes "tables_ok routes rows (out, held)" and "owned_by c' l" and "\<And>c. owned_by c l \<Longrightarrow> c = c'" and "\<not> targeted l"
  defines "e \<equiv> if crl_any (own_entry c' out) = None then (own_entry c' out)\<lparr>crl_any := Some (sl_limit l)\<rparr> else own_entry c' out"
  shows "tables_ok routes (rows @ [l]) (bput c' e out, held)"
proof -
  have ord: "ordered out" using assms(1) by (simp add: tables_ok_def tables_ordered_def)
  have routes: "crl_routes (own_entry c (bput c' e out)) = crl_routes (own_entry c out)" for c
    by (simp add: own_entry_bput [OF ord] e_def)
  have any: "crl_any (own_entry c out) = map_option sl_limit (find (\<lambda>l. owned_by c l \<and> \<not> targeted l) rows)" for c
    using assms(1) by (simp add: tables_ok_def)
  have "crl_any (own_entry c (bput c' e out)) = map_option sl_limit (find (\<lambda>l. owned_by c l \<and> \<not> targeted l) (rows @ [l]))" for c
  proof (cases "c = c'")
    case True
    then show ?thesis using any [of c'] assms(2,4)
      by (cases "find (\<lambda>l. owned_by c' l \<and> \<not> targeted l) rows") (simp_all add: own_entry_bput [OF ord] e_def find_append)
  next
    case False
    then have "\<not> owned_by c l" using assms(3) by blast
    with False any [of c] show ?thesis
      by (cases "find (\<lambda>l. owned_by c l \<and> \<not> targeted l) rows") (simp_all add: own_entry_bput [OF ord] find_append)
  qed
  moreover have "own_rank c r l = None" for c r using assms(4) by (simp add: own_rank_def)
  ultimately show ?thesis using assms(1)
    by (simp add: tables_ok_def tables_ordered_def better_row_def cell_def routes)
qed

lemma tables_ok_targeted:
  assumes "tables_ok routes rows t" and "owned_by c' l" and "\<And>c. owned_by c l \<Longrightarrow> c = c'" and "targeted l"
    and "distinct (map route_id routes)"
  shows "tables_ok routes (rows @ [l]) (fold (consumer_limit_route l c') routes t)"
proof -
  have ord: "tables_ordered t" using assms(1) by (simp add: tables_ok_def)
  note effect = consumer_limit_fold_effect [OF ord assms(5), of l c']
  have any: "find (\<lambda>l. owned_by c l \<and> \<not> targeted l) (rows @ [l]) = find (\<lambda>l. owned_by c l \<and> \<not> targeted l) rows" for c
    using assms(4) by (simp add: find_append split: option.split)
  have "cell (fold (consumer_limit_route l c') routes t) c (route_id r) =
      (map_option sl_limit (most_specific (own_rank c r) (rows @ [l])),
       map_option (\<lambda>l. the (own_rank c r l)) (most_specific (own_rank c r) (rows @ [l])))"
    if r: "r \<in> set routes" for c r
  proof -
    have old: "cell t c (route_id r) = (map_option sl_limit (most_specific (own_rank c r) rows),
         map_option (\<lambda>l. the (own_rank c r l)) (most_specific (own_rank c r) rows))"
      using assms(1) r by (simp add: tables_ok_def)
    show ?thesis
    proof (cases "c = c'")
      case True
      then have "own_rank c r l = limit_rank r l" using assms(2,4) by (simp add: own_rank_def)
      with True effect r old show ?thesis
        by (cases "most_specific (own_rank c r) rows") (auto simp: cell_step_def better_row_def split: option.split)
    next
      case False
      then have "own_rank c r l = None" using assms(3) by (auto simp: own_rank_def)
      with False effect old show ?thesis by (simp add: better_row_def)
    qed
  qed
  with effect any assms(1) show ?thesis by (simp add: tables_ok_def)
qed

lemma tables_ok_step:
  assumes "tables_ok routes rows t" and "distinct (map route_id routes)"
  shows "tables_ok routes (rows @ [l]) (consumer_limit_step routes l t)"
proof (cases "sl_consumer l")
  case None
  then have "consumer_limit_step routes l t = t" by (cases t) (simp add: consumer_limit_step_def)
  moreover have "\<not> owned_by c l" for c using None by (simp add: owned_by_def)
  ultimately show ?thesis using tables_ok_skip [OF assms(1), of l] by simp
next
  case (Some u)
  let ?c = "consumer_id (sl_workspace l) u"
  have own: "owned_by ?c l" "\<And>c. owned_by c l \<Longrightarrow> c = ?c" using Some by (auto simp: owned_by_def)
  obtain out held where t: "t = (out, held)" by fastforce
  show ?thesis
  proof (cases "targeted l")
    case True
    then have "consumer_limit_step routes l t = fold (consumer_limit_route l ?c) routes t"
      using Some by (auto simp: t consumer_limit_step_def targeted_def)
    with tables_ok_targeted [OF assms(1) own True assms(2)] show ?thesis by simp
  next
    case False
    then have "consumer_limit_step routes l t = (bput ?c (if crl_any (own_entry ?c out) = None
        then (own_entry ?c out)\<lparr>crl_any := Some (sl_limit l)\<rparr> else own_entry ?c out) out, held)"
      using Some by (simp add: t consumer_limit_step_def targeted_def Let_def)
    with tables_ok_any [OF assms(1) [unfolded t] own False] show ?thesis by (simp add: t)
  qed
qed

lemma tables_ok_fold:
  assumes "distinct (map route_id routes)"
  shows "tables_ok routes rows (fold (consumer_limit_step routes) rows ([], []))"
proof (induction rows rule: rev_induct)
  case Nil
  show ?case by (simp add: tables_ok_def tables_ordered_def own_entry_def no_consumer_limits_def cell_def)
next
  case (snoc l rows)
  then show ?case using tables_ok_step [OF _ assms] by simp
qed

section \<open>The ladder of limits\<close>

lemma targeted_rank: "targeted l \<Longrightarrow> limit_rank r l = Some k \<Longrightarrow> 0 < k"
  by (auto simp: targeted_def limit_rank_def rank_def split: option.splits if_splits)

lemma untargeted_rank: "\<not> targeted l \<Longrightarrow> sl_workspace l = sr_workspace r \<Longrightarrow> limit_rank r l = Some 0"
  by (simp add: targeted_def limit_rank_def rank_def)

lemma ladder_own:
  assumes "\<forall>l \<in> set rows. owned_by c l \<longrightarrow> sl_workspace l = sr_workspace r"
  shows "most_specific (\<lambda>l. if owned_by c l then limit_rank r l else None) rows =
    (case most_specific (own_rank c r) rows of Some l \<Rightarrow> Some l
     | None \<Rightarrow> find (\<lambda>l. owned_by c l \<and> \<not> targeted l) rows)"
  using assms
proof (induction rows rule: rev_induct)
  case (snoc l rows)
  let ?f = "\<lambda>l. if owned_by c l then limit_rank r l else None"
  have IH: "most_specific ?f rows = (case most_specific (own_rank c r) rows of Some l \<Rightarrow> Some l
     | None \<Rightarrow> find (\<lambda>l. owned_by c l \<and> \<not> targeted l) rows)" using snoc by simp
  have wide: "owned_by c x \<and> \<not> targeted x \<and> limit_rank r x = Some 0"
    if "find (\<lambda>l. owned_by c l \<and> \<not> targeted l) rows = Some x" for x
    using find_SomeD [OF that] snoc.prems untargeted_rank by auto
  have own: "own_rank c r x = ?f x" if "most_specific (own_rank c r) rows = Some x" for x
    using most_specific_applies [OF that] by (auto simp: own_rank_def split: if_splits)
  show ?case
  proof (cases "owned_by c l")
    case False
    then have "own_rank c r l = None" and "?f l = None" by (simp_all add: own_rank_def)
    with False IH show ?thesis by (simp add: better_row_def find_append split: option.split)
  next
    case True
    show ?thesis
    proof (cases "targeted l")
      case t: True
      then have r: "own_rank c r l = limit_rank r l" using True by (simp add: own_rank_def)
      show ?thesis
      proof (cases "most_specific (own_rank c r) rows")
        case None
        show ?thesis
        proof (cases "find (\<lambda>l. owned_by c l \<and> \<not> targeted l) rows")
          case (Some x)
          with None IH wide [OF Some] r True t targeted_rank [OF t] show ?thesis
            by (simp add: better_row_def find_append split: option.split)
        qed (use None IH r True t in \<open>simp add: better_row_def find_append split: option.split\<close>)
      next
        case (Some x)
        with own [OF Some] IH r True show ?thesis by (simp add: better_row_def split: option.split)
      qed
    next
      case t: False
      then have r: "own_rank c r l = None" "limit_rank r l = Some 0"
        using True snoc.prems untargeted_rank by (simp_all add: own_rank_def)
      with True t IH show ?thesis
        by (simp add: better_row_def find_append split: option.split)
    qed
  qed
qed simp

text \<open>What the data plane reads from the compiled table for a consumer of the route's workspace.\<close>

lemma own_limit_spec:
  assumes "distinct (map route_id routes)" and "r \<in> set routes" and "CHR ''/'' \<notin> set u"
    and "\<forall>l \<in> set rows. \<forall>v. sl_consumer l = Some v \<longrightarrow> CHR ''/'' \<notin> set v"
  shows "Option.bind (map_of (consumer_rate_limits_of rows routes) (consumer_id (sr_workspace r) u))
      (\<lambda>e. case map_of (crl_routes e) (route_id r) of Some rl \<Rightarrow> Some rl | None \<Rightarrow> crl_any e) =
    map_option sl_limit (most_specific (\<lambda>l. if sl_consumer l = Some u then limit_rank r l else None) rows)"
proof -
  let ?c = "consumer_id (sr_workspace r) u"
  let ?t = "fold (consumer_limit_step routes) rows ([], [])"
  have ok: "tables_ok routes rows ?t" by (rule tables_ok_fold [OF assms(1)])
  have owned: "owned_by ?c l \<longleftrightarrow> sl_workspace l = sr_workspace r \<and> sl_consumer l = Some u" if "l \<in> set rows" for l
    using assms(3,4) that by (auto simp: owned_by_def consumer_id_inj split: option.split)
  have "Option.bind (map_of (fst ?t) ?c) (\<lambda>e. case map_of (crl_routes e) (route_id r) of Some rl \<Rightarrow> Some rl | None \<Rightarrow> crl_any e) =
      (case map_of (crl_routes (own_entry ?c (fst ?t))) (route_id r) of Some rl \<Rightarrow> Some rl | None \<Rightarrow> crl_any (own_entry ?c (fst ?t)))"
    by (cases "map_of (fst ?t) ?c") (simp_all add: own_entry_def no_consumer_limits_def split: option.split)
  also have "\<dots> = map_option sl_limit (case most_specific (own_rank ?c r) rows of Some l \<Rightarrow> Some l
      | None \<Rightarrow> find (\<lambda>l. owned_by ?c l \<and> \<not> targeted l) rows)"
    using ok assms(2) by (cases "most_specific (own_rank ?c r) rows") (simp_all add: tables_ok_def cell_def)
  also have "\<dots> = map_option sl_limit (most_specific (\<lambda>l. if owned_by ?c l then limit_rank r l else None) rows)"
    using owned by (simp add: ladder_own)
  also have "most_specific (\<lambda>l. if owned_by ?c l then limit_rank r l else None) rows =
      most_specific (\<lambda>l. if sl_consumer l = Some u then limit_rank r l else None) rows"
  proof (rule most_specific_cong)
    fix l assume "l \<in> set rows"
    then show "(if owned_by ?c l then limit_rank r l else None) = (if sl_consumer l = Some u then limit_rank r l else None)"
      using owned [of l] limit_rows.same_workspace [of r l] by (cases "limit_rank r l") auto
  qed
  finally show ?thesis by (simp add: consumer_rate_limits_of_def)
qed

end
