(* ===== verification/Store_Props.thy ===== *)
theory Store_Props
  imports Store_Policies
begin

text \<open>
  The properties of the store compiler: it never panics; a request gets the served route of the
  highest priority that admits it; each rule reaches the service its route names, with that
  service's TLS settings, in the route's own workspace; the policies and the limit of a route are
  the most specific ones of its workspace.
\<close>

section \<open>Cluster keys\<close>

lemma map_of_add_clusters:
  "ordered m \<Longrightarrow> ordered (fold (add_cluster sha) ss m) \<and>
   map_of (fold (add_cluster sha) ss m) k =
     (case map_of m k of Some c \<Rightarrow> Some c | None \<Rightarrow> map_option service_cluster (find (\<lambda>s. service_cluster_key sha s = k) ss))"
proof (induction ss arbitrary: m)
  case (Cons s ss)
  have "ordered (add_cluster sha s m)" using Cons.prems by (simp add: add_cluster_def)
  moreover have "map_of (add_cluster sha s m) k = (case map_of m k of Some c \<Rightarrow> Some c
      | None \<Rightarrow> if service_cluster_key sha s = k then Some (service_cluster s) else None)"
    using Cons.prems by (cases "map_of m k") (auto simp: add_cluster_def map_of_in_keys [symmetric])
  ultimately show ?case using Cons.IH [of "add_cluster sha s m"] by (simp split: option.split)
qed (simp split: option.split)

text \<open>
  What the key of a service needs to name its address and settings: a host without the separators
  of the key, and an SNI without the one between settings.
\<close>

definition keyable :: "store_service \<Rightarrow> bool" where
  "keyable s \<longleftrightarrow> CHR ''/'' \<notin> set (ss_host s) \<and> CHR ''?'' \<notin> set (ss_host s) \<and> CHR ''&'' \<notin> set (service_sni s)"

lemma digits_plain: "c \<in> set (show_nat n) \<Longrightarrow> c \<noteq> CHR ''/'' \<and> c \<noteq> CHR ''?'' \<and> c \<noteq> CHR '':''"
  using show_nat_digits [of c n] by (auto simp: is_ascii_digit_def byte_def)

lemma address_plain: "keyable s \<Longrightarrow> CHR ''/'' \<notin> set (service_address s) \<and> CHR ''?'' \<notin> set (service_address s)"
  using digits_plain by (auto simp: keyable_def service_address_def)

lemma show_nat_inj: "show_nat m = show_nat n \<longleftrightarrow> m = n"
  by (metis digits_val_show_nat)

lemma address_inj: "service_address s = service_address t \<longleftrightarrow> ss_host s = ss_host t \<and> ss_port s = ss_port t"
proof -
  have "rsplit_once CHR '':'' (h @ CHR '':'' # show_nat n) = Some (h, show_nat n)" for h n
    using digits_plain by (auto simp: rsplit_once_Some)
  then show ?thesis unfolding service_address_def
    by (metis (no_types, lifting) append_Cons append_Nil option.inject prod.inject show_nat_inj word_unat_eq_iff)
qed

lemma hex_plain: "CHR ''&'' \<notin> set (hex b)"
proof -
  have "CHR ''&'' \<noteq> hex_char n" if "n < 16" for n
  proof -
    have "\<not> is_ascii_hexdigit CHR ''&''" by (simp add: is_ascii_hexdigit_def ascii_class_defs byte_def)
    with hex_char(1) [OF that] show ?thesis by metis
  qed
  moreover have "byte x div 16 < 16" for x by (simp add: div_less_iff_less_mult)
  ultimately show ?thesis by (simp add: hex_def)
qed

lemma settings_plain: "keyable s \<Longrightarrow> \<forall>x \<in> set (tls_settings sha s). CHR ''&'' \<notin> set x"
  using hex_plain by (auto simp: tls_settings_def keyable_def split: option.splits)

lemma settings_parts:
  "filter (\<lambda>x. hd x = CHR ''s'') (tls_settings sha s) = (if service_sni s \<noteq> ss_host s then [''sni='' @ service_sni s] else [])"
  "filter (\<lambda>x. hd x = CHR ''c'') (tls_settings sha s) =
     (case service_ca_pem s of Some pem \<Rightarrow> [''ca='' @ hex (take 8 (sha pem))] | None \<Rightarrow> [])"
  "filter (\<lambda>x. hd x = CHR ''i'') (tls_settings sha s) = (if \<not> ss_tls_verify s then [''insecure''] else [])"
  by (simp_all add: tls_settings_def split: option.split)

lemma settings_inj:
  assumes "tls_settings sha s = tls_settings sha t" and "ss_host s = ss_host t"
    and "\<forall>p q. service_ca_pem s = Some p \<and> service_ca_pem t = Some q \<and> take 8 (sha p) = take 8 (sha q) \<longrightarrow> p = q"
  shows "service_sni s = service_sni t" and "service_ca_pem s = service_ca_pem t" and "ss_tls_verify s = ss_tls_verify t"
proof -
  note parts = settings_parts [of sha s, unfolded assms(1) settings_parts]
  show "service_sni s = service_sni t" using parts(1) assms(2) by (simp split: if_splits)
  show "service_ca_pem s = service_ca_pem t" using parts(2) assms(3) by (simp add: hex_inj split: option.splits)
  show "ss_tls_verify s = ss_tls_verify t" using parts(3) by (simp split: if_splits)
qed

lemma key_slash: "keyable s \<Longrightarrow> CHR ''/'' \<in> set (service_cluster_key sha s) \<longleftrightarrow> ss_protocol s = Https"
  using address_plain [of s] by (cases "ss_protocol s") (auto simp: service_cluster_key_def)

lemma cluster_key_inj:
  assumes "service_cluster_key sha s = service_cluster_key sha t" and "keyable s" and "keyable t"
    and "\<forall>p q. service_ca_pem s = Some p \<and> service_ca_pem t = Some q \<and> take 8 (sha p) = take 8 (sha q) \<longrightarrow> p = q"
  shows "service_cluster s = service_cluster t"
proof -
  note plain = address_plain [OF assms(2)] address_plain [OF assms(3)]
  have proto: "ss_protocol s = ss_protocol t"
    using key_slash [OF assms(2), of sha] key_slash [OF assms(3), of sha] assms(1) by (metis protocol.exhaust)
  show ?thesis
  proof (cases "ss_protocol s")
    case Http
    with assms(1) proto show ?thesis by (simp add: service_cluster_key_def service_cluster_def address_inj)
  next
    case Https
    let ?rest = "\<lambda>s. if tls_settings sha s = [] then [] else CHR ''?'' # join ''&'' (tls_settings sha s)"
    have eq: "service_address s @ ?rest s = service_address t @ ?rest t"
      using assms(1) Https proto by (simp add: service_cluster_key_def split: if_splits)
    have cut: "takeWhile (\<lambda>c. c \<noteq> CHR ''?'') (a @ ?rest x) = a" if "CHR ''?'' \<notin> set a" for a x
      using that by (auto simp: takeWhile_append)
    from eq plain cut have addr: "service_address s = service_address t" by metis
    with eq have "?rest s = ?rest t" by simp
    then have "tls_settings sha s = tls_settings sha t"
      using split_on_join [OF _ settings_plain [OF assms(2)], of sha] split_on_join [OF _ settings_plain [OF assms(3)], of sha]
      by (metis list.distinct(1) list.inject)
    with settings_inj [OF this _ assms(4)] addr Https proto show ?thesis
      by (simp add: service_cluster_def address_inj)
  qed
qed

section \<open>A sample store\<close>

text \<open>Two workspaces, each with a service \<open>api\<close> and a route \<open>api\<close>.\<close>

definition sample_service :: "string \<Rightarrow> string \<Rightarrow> store_service" where
  "sample_service ws host =
     \<lparr>ss_workspace = ws, ss_name = ''api'', ss_protocol = Https, ss_host = host, ss_port = 443,
      ss_connect_timeout_ms = None, ss_read_timeout_ms = Some 15000, ss_tls_verify = True,
      ss_tls_ca_pem = Some ''pem'', ss_tls_sni = None\<rparr>"

definition sample_store_route :: "string \<Rightarrow> string \<Rightarrow> int \<Rightarrow> store_route" where
  "sample_store_route ws path priority =
     \<lparr>sr_workspace = ws, sr_name = ''api'', sr_service = ''api'', sr_hosts = [''api.example''],
      sr_paths = [Prefix path], sr_methods = [], sr_headers = [], sr_strip_path = False, sr_priority = priority\<rparr>"

definition sample_limit :: "string option \<Rightarrow> string option \<Rightarrow> u32 \<Rightarrow> store_rate_limit" where
  "sample_limit route consumer n =
     \<lparr>sl_workspace = ''shop'', sl_route = route, sl_service = None, sl_consumer = consumer,
      sl_limit = \<lparr>rl_limit = n, rl_window_ms = 1000, rl_by = ByIp\<rparr>\<rparr>"

definition sample_store :: store_snapshot where
  "sample_store =
     \<lparr>sn_services = [sample_service ''shop'' ''shop.internal'', sample_service ''blog'' ''blog.internal''],
      sn_routes = [sample_store_route ''blog'' ''/'' 0, sample_store_route ''shop'' ''/a%2fb'' 5],
      sn_plugins =
        [\<lparr>sp_workspace = ''shop'', sp_route = None, sp_service = None, sp_plugin = KeyAuth default_key_auth\<rparr>,
         \<lparr>sp_workspace = ''shop'', sp_route = Some ''api'', sp_service = None,
          sp_plugin = KeyAuth \<lparr>ka_header = ''x-shop-key'', ka_workspace = None\<rparr>\<rparr>],
      sn_credentials = [\<lparr>sc_key_hash = ''6b'', sc_consumer = ''mobile'', sc_workspace = ''shop''\<rparr>],
      sn_rate_limits = [sample_limit None None 100, sample_limit None (Some ''mobile'') 7, sample_limit (Some ''api'') None 50],
      sn_consumers = [\<lparr>su_workspace = ''shop'', su_username = ''mobile'', su_groups = [''b'', ''a'']\<rparr>]\<rparr>"

definition sample_store_request :: request_attrs where
  "sample_store_request =
     \<lparr>ra_host = ''api.example'', ra_path = ''/a%2Fb/c'', ra_method = ''GET'', ra_headers = [], ra_query = []\<rparr>"

abbreviation shop_route :: store_route where
  "shop_route \<equiv> sample_store_route ''shop'' ''/a%2fb'' 5"

lemma sample_store_texts: "\<forall>r \<in> set (sn_routes sample_store). \<forall>p \<in> set (sr_paths r). valid_utf8 (path_text p)"
  by (simp add: sample_store_def sample_store_route_def byte_def)

lemma sample_store_compiles: "\<exists>cfg. compile toy_sha sample_store default_store_settings = Returns cfg"
  by (rule compile_total [OF sample_store_texts])

section \<open>The properties\<close>

lemma port_table_found:
  assumes "compile sha snap settings = Returns cfg"
  shows "case map_of (cf_ports cfg) port of
      None \<Rightarrow> port \<notin> set (sg_http_ports settings)
    | Some t \<Rightarrow> \<exists>i < length (cf_listeners cfg). port \<in> set (sg_http_ports settings) \<and>
        t = port_entries (table_from 0 (served_routes snap)) i"
proof (cases "map_of (cf_ports cfg) port")
  case None
  then have "port \<notin> fst ` set (cf_ports cfg)" by (simp add: map_of_eq_None_iff)
  moreover have "fst ` set (cf_ports cfg) \<supseteq> lc_port ` set (cf_listeners cfg)"
    unfolding compile_Returns(2) [OF assms] keys_collect
  proof (rule image_subsetI)
    fix l assume "l \<in> set (cf_listeners cfg)"
    then have "l \<in> set (map snd (enumerate 0 (cf_listeners cfg)))" by (simp only: map_snd_enumerate)
    then obtain i where "(i, l) \<in> set (enumerate 0 (cf_listeners cfg))" by (auto simp del: map_snd_enumerate)
    then show "lc_port l \<in> fst ` set (map (\<lambda>(index, l). (lc_port l, port_entries (table_from 0 (served_routes snap)) index))
        (enumerate 0 (cf_listeners cfg)))" by force
  qed
  ultimately show ?thesis using None by (auto simp: compile_Returns(1) [OF assms] image_image store_listener_def)
next
  case (Some t)
  from map_of_collectD [OF this [unfolded compile_Returns(2) [OF assms]]] show ?thesis
    by (auto simp: Some in_set_enumerate_eq compile_Returns(1) [OF assms] store_listener_def)
qed

text \<open>
  C9: the store's routes are served by priority. Every snapshot of texts compiles, a route that
  names a missing service included: nothing panics. On a bound port the request gets the rule
  of a served route that admits it (any of its hosts, any of its paths, any of its methods, every
  one of its headers), before which no other served route that admits it stands in the order of
  priority, workspace and name; it gets none exactly when the port is not bound or no served
  route admits it.
\<close>

theorem store_serves_requests:
  assumes "\<forall>r \<in> set (sn_routes snap). \<forall>p \<in> set (sr_paths r). valid_utf8 (path_text p)"
  shows "\<exists>cfg. compile sha snap settings = Returns cfg \<and>
    (case match_port_with is_match cfg port req regexes of
       None \<Rightarrow> port \<notin> set (sg_http_ports settings) \<or> (\<forall>r \<in> set (served_routes snap). \<not> route_admits is_match regexes req r)
     | Some pm \<Rightarrow> port \<in> set (sg_http_ports settings) \<and>
         (\<exists>r \<in> set (served_routes snap). route_admits is_match regexes req r \<and> pm_rule pm = compiled_rule sha snap r \<and>
           (\<forall>r' \<in> set (served_routes snap). route_admits is_match regexes req r' \<longrightarrow> route_key r \<le> route_key r')))"
proof -
  from compile_total [OF assms] obtain cfg where cfg: "compile sha snap settings = Returns cfg" by blast
  let ?rs = "served_routes snap"
  let ?win = "find (route_admits is_match regexes req) ?rs"
  have sorted: "sorted (map route_key ?rs)" by (simp add: served_routes_def)
  show ?thesis
  proof (cases "map_of (cf_ports cfg) port")
    case None
    with port_table_found [OF cfg, of port] cfg show ?thesis by (simp add: match_port_with_def)
  next
    case (Some t)
    with port_table_found [OF cfg, of port] obtain i where i: "i < length (cf_listeners cfg)"
        and bound: "port \<in> set (sg_http_ports settings)" and t: "t = port_entries (table_from 0 ?rs) i" by auto
    have rules: "lc_rules (cf_listeners cfg ! i) = map (compiled_rule sha snap) ?rs"
      using i by (simp add: compile_Returns(1) [OF cfg] store_listener_def)
    note found = find_table [where is_match = is_match and req = req and regexes = regexes and n = 0 and rs = ?rs and i = i]
    show ?thesis
    proof (cases "find (entry_admits is_match req regexes) t")
      case None
      with found t have "?win = None" by simp
      then have none: "\<forall>r \<in> set ?rs. \<not> route_admits is_match regexes req r" by (simp add: find_None)
      have "match_port_with is_match cfg port req regexes = None" using None Some by (simp add: match_port_with_def)
      with cfg none show ?thesis by simp
    next
      case e: (Some e)
      with found t obtain j where j: "j < length ?rs" "pe_listener e = i" "pe_rule e = j" "?win = Some (?rs ! j)" by auto
      have "match_port_with is_match cfg port req regexes =
          Some \<lparr>pm_listener_index = i, pm_listener = cf_listeners cfg ! i, pm_entry = e, pm_rule = compiled_rule sha snap (?rs ! j)\<rparr>"
        using Some e i j rules by (simp add: match_port_with_def)
      with cfg bound find_SomeD [OF j(4)] find_sorted_least [OF sorted j(4)] show ?thesis by auto
    qed
  qed
qed

theorem store_serves_requests_witness:
  "\<exists>cfg. compile toy_sha sample_store default_store_settings = Returns cfg \<and>
     (\<exists>pm. match_port_with no_regex cfg 80 sample_store_request [] = Some pm \<and>
        pm_rule pm = compiled_rule toy_sha sample_store shop_route)"
proof -
  have served: "served_routes sample_store = [shop_route, sample_store_route ''blog'' ''/'' 0]" by code_simp
  have admits: "route_admits no_regex [] sample_store_request shop_route" by code_simp
  have before: "\<not> route_key (sample_store_route ''blog'' ''/'' 0) \<le> route_key shop_route" by code_simp
  from store_serves_requests [OF sample_store_texts, where sha = toy_sha and settings = default_store_settings
      and is_match = no_regex and port = 80 and req = sample_store_request and regexes = "[]"]
  show ?thesis using admits before unfolding served
    by (auto simp: default_store_settings_def split: option.splits)
qed

lemma served_service:
  assumes "r \<in> set (served_routes snap)"
  shows "r \<in> set (sn_routes snap) \<and> route_refusal r = None \<and> service_of snap r \<in> set (sn_services snap) \<and>
    ss_workspace (service_of snap r) = sr_workspace r \<and> ss_name (service_of snap r) = sr_service r"
proof -
  from assms have r: "r \<in> set (sn_routes snap)" "route_refusal r = None"
      and "(sr_workspace r, sr_service r) \<in> fst ` set (service_map_of snap)" by (auto simp: served_routes_def)
  then obtain s where s: "map_of (service_map_of snap) (sr_workspace r, sr_service r) = Some s"
    by (metis map_of_in_keys not_None_eq)
  from map_of_collectD [OF this [unfolded service_map_of_def]] s r show ?thesis by (auto simp: service_of_def)
qed

lemma cluster_of_service:
  assumes "compile sha snap settings = Returns cfg" and "r \<in> set (served_routes snap)"
    and "\<forall>s \<in> set (sn_services snap). keyable s"
    and "\<forall>s \<in> set (sn_services snap). \<forall>t \<in> set (sn_services snap). \<forall>p q.
      service_ca_pem s = Some p \<and> service_ca_pem t = Some q \<and> take 8 (sha p) = take 8 (sha q) \<longrightarrow> p = q"
  shows "map_of (cf_clusters cfg) (service_cluster_key sha (service_of snap r)) = Some (service_cluster (service_of snap r))"
proof -
  let ?ss = "map (service_of snap) (served_routes snap)"
  let ?s = "service_of snap r"
  have "find (\<lambda>t. service_cluster_key sha t = service_cluster_key sha ?s) ?ss \<noteq> None"
    using assms(2) by (auto simp: find_None)
  then obtain t where t: "find (\<lambda>t. service_cluster_key sha t = service_cluster_key sha ?s) ?ss = Some t" by blast
  from find_SomeD [OF t] have key: "service_cluster_key sha t = service_cluster_key sha ?s" and "t \<in> set ?ss" by auto
  then have "t \<in> set (sn_services snap)" and "?s \<in> set (sn_services snap)"
    using served_service assms(2) by auto
  then have "service_cluster t = service_cluster ?s" using cluster_key_inj [OF key] assms(3,4) by blast
  then show ?thesis using t map_of_add_clusters [of "[]" sha ?ss] by (simp add: compile_Returns(3) [OF assms(1)])
qed

text \<open>What the workspace of a route makes of a policy: every name it looks up is one of that workspace.\<close>

definition scoped_to :: "store_snapshot \<Rightarrow> string \<Rightarrow> plugin \<Rightarrow> bool" where
  "scoped_to snap ws q \<longleftrightarrow>
     (case q of
        KeyAuth p \<Rightarrow> ws \<noteq> [] \<longrightarrow> ka_workspace p = Some ws
      | Jwt p \<Rightarrow> jp_consumer_claim p \<noteq> None \<and> ws \<noteq> [] \<longrightarrow> jp_workspace p = Some ws
      | Auth p \<Rightarrow> au_workspace p = (if ws = [] then None else Some ws) \<and>
          (case au_anonymous p of
             None \<Rightarrow> True
           | Some name \<Rightarrow> \<exists>c \<in> set (sn_consumers snap). consumer_id (su_workspace c) (su_username c) = consumer_id ws name)
      | _ \<Rightarrow> True)"

lemma has_consumer_stored:
  "has_consumer (consumer_table snap) ws name \<Longrightarrow>
   \<exists>c \<in> set (sn_consumers snap). consumer_id (su_workspace c) (su_username c) = consumer_id ws name"
proof -
  assume "has_consumer (consumer_table snap) ws name"
  then obtain gs where "map_of (consumer_table snap) (consumer_id ws name) = Some gs"
    unfolding has_consumer_def by (metis map_of_in_keys not_None_eq)
  from map_of_collectD [OF this [unfolded consumer_table_def]] show ?thesis by auto
qed

lemma stamp_scoped: "scoped_to snap ws (stamp (consumer_table snap) ws p)"
  by (cases p) (auto simp: scoped_to_def stamp_def dest: has_consumer_stored split: option.split)



lemma map_of_collect_distinct: "distinct (map fst kvs) \<Longrightarrow> map_of (collect_map kvs) k = Some v \<longleftrightarrow> (k, v) \<in> set kvs"
  by (simp add: map_of_collect map_of_eq_Some_iff rev_map [symmetric])

text \<open>
  C11: a key opens the routes of its own workspace and no other's. On a route of a workspace that
  carries an API key policy, the data plane running the compiled configuration identifies a
  caller as a consumer exactly when the store has the digest of the presented key as a credential
  of that consumer in the route's workspace.
\<close>

theorem store_keys_scoped:
  assumes "compile sha snap settings = Returns cfg" and "distinct (map sc_key_hash (sn_credentials snap))"
    and "sr_workspace r \<noteq> []" and "KeyAuth policy \<in> set (rr_plugins (compiled_rule sha snap r))"
  shows "identify sha cfg presented (ka_workspace policy) = Ok consumer \<longleftrightarrow>
    (\<exists>key c. presented_key presented = Some key \<and> c \<in> set (sn_credentials snap) \<and> sc_key_hash c = hex (sha key) \<and>
       sc_workspace c = sr_workspace r \<and> sc_consumer c = consumer)"
proof -
  have "KeyAuth policy \<in> set (plugins_for (sn_plugins snap) r (consumer_table snap))"
    using assms(4) by (simp add: compiled_rule_def route_rule_of_def)
  then obtain p :: store_plugin where p: "KeyAuth policy = stamp (consumer_table snap) (sr_workspace r) (sp_plugin p)"
    unfolding plugins_for_iff by blast
  have ws: "ka_workspace policy = Some (sr_workspace r)" 
    using stamp_scoped [of snap "sr_workspace r" "sp_plugin p"] assms(3) by (simp add: p [symmetric] scoped_to_def)
  have consumer: "map_of (cf_credentials cfg) d = Some consumer \<longleftrightarrow>
      (\<exists>c \<in> set (sn_credentials snap). sc_key_hash c = d \<and> sc_consumer c = consumer)" for d
    unfolding compile_Returns(4) [OF assms(1)] using assms(2) by (subst map_of_collect_distinct) (auto simp: o_def)
  have workspace: "map_of (cf_credential_workspaces cfg) d = Some (sr_workspace r) \<longleftrightarrow>
      (\<exists>c \<in> set (sn_credentials snap). sc_key_hash c = d \<and> sc_workspace c = sr_workspace r)" for d
    unfolding compile_Returns(5) [OF assms(1)] using assms(2,3)
    by (subst map_of_collect_distinct) (auto simp: o_def distinct_map_filter)
  have same: "c = c'" if "c \<in> set (sn_credentials snap)" "c' \<in> set (sn_credentials snap)" "sc_key_hash c = sc_key_hash c'" for c c'
    using assms(2) that by (auto simp: distinct_map dest: inj_onD)
  have "identify sha cfg presented (Some (sr_workspace r)) = Ok consumer \<longleftrightarrow>
      (\<exists>key. presented_key presented = Some key \<and> map_of (cf_credential_workspaces cfg) (hex (sha key)) = Some (sr_workspace r) \<and>
        map_of (cf_credentials cfg) (hex (sha key)) = Some consumer)"
    by (auto simp: identify_def Let_def split: option.splits)
  then show ?thesis unfolding ws consumer workspace using same by metis
qed

theorem store_keys_scoped_witness:
  "\<exists>cfg. compile toy_sha sample_store default_store_settings = Returns cfg \<and>
     identify toy_sha cfg (Some ''k'') (Some ''shop'') = Ok ''mobile''"
proof -
  let ?policy = "\<lparr>ka_header = ''x-shop-key'', ka_workspace = Some ''shop''\<rparr>"
  let ?c = "\<lparr>sc_key_hash = ''6b'', sc_consumer = ''mobile'', sc_workspace = ''shop''\<rparr>"
  obtain cfg where cfg: "compile toy_sha sample_store default_store_settings = Returns cfg"
    using sample_store_compiles by blast
  have d: "distinct (map sc_key_hash (sn_credentials sample_store))" by (simp add: sample_store_def)
  have ws: "sr_workspace shop_route \<noteq> []" by (simp add: sample_store_route_def)
  have p: "KeyAuth ?policy \<in> set (rr_plugins (compiled_rule toy_sha sample_store shop_route))" by code_simp
  have key: "presented_key (Some ''k'') = Some ''k''" "hex (toy_sha ''k'') = ''6b''" by code_simp+
  have "?c \<in> set (sn_credentials sample_store)" "sc_workspace ?c = sr_workspace shop_route"
    by (simp_all add: sample_store_def sample_store_route_def)
  with store_keys_scoped [OF cfg d ws p, of "Some ''k''" "''mobile''"] key cfg show ?thesis by fastforce
qed



lemma route_ids_distinct:
  assumes "distinct (map (\<lambda>r. (sr_workspace r, sr_name r)) (sn_routes snap))"
    and "\<forall>r \<in> set (sn_routes snap). CHR ''/'' \<notin> set (sr_name r)"
  shows "distinct (map route_id (served_routes snap))"
proof -
  have sub: "set (served_routes snap) \<subseteq> set (sn_routes snap)" by (auto simp: served_routes_def)
  have "inj_on route_id (set (served_routes snap))"
  proof (rule inj_onI)
    fix r q assume "r \<in> set (served_routes snap)" "q \<in> set (served_routes snap)" and eq: "route_id r = route_id q"
    then have mem: "r \<in> set (sn_routes snap)" "q \<in> set (sn_routes snap)" using sub by auto
    have "route_id x = consumer_id (sr_workspace x) (sr_name x)" for x by (simp add: route_id_def consumer_id_def)
    with eq assms(2) mem have "(sr_workspace r, sr_name r) = (sr_workspace q, sr_name q)" by (simp add: consumer_id_inj)
    with assms(1) mem show "r = q" by (auto simp: distinct_map dest: inj_onD)
  qed
  moreover have "distinct (served_routes snap)" using assms(1) by (auto simp: served_routes_def distinct_map)
  ultimately show ?thesis by (simp add: distinct_map)
qed

text \<open>
  C12: the limit on a request is the top of Kong's ladder. For a rule of the compiled configuration
  and a consumer of its workspace the data plane applies the consumer's own limit on the route,
  else on its service, else on the workspace, and marks it as the consumer's own; only a consumer
  without any is held to the limit on everyone, on the route, else on its service, else on the
  workspace. Names without a slash, and unique in their workspace, are what the schema keeps.
\<close>

theorem store_limit_ladder:
  assumes "compile sha snap settings = Returns cfg" and "r \<in> set (served_routes snap)"
    and "distinct (map (\<lambda>r. (sr_workspace r, sr_name r)) (sn_routes snap))"
    and "\<forall>r \<in> set (sn_routes snap). CHR ''/'' \<notin> set (sr_name r)"
    and "\<forall>l \<in> set (sn_rate_limits snap). \<forall>v. sl_consumer l = Some v \<longrightarrow> CHR ''/'' \<notin> set v"
    and "CHR ''/'' \<notin> set u"
  shows "rate_limit_for cfg (compiled_rule sha snap r) (Some (consumer_id (sr_workspace r) u)) =
    (case nearest sl_workspace sl_route sl_service r (filter (\<lambda>l. sl_consumer l = Some u) (sn_rate_limits snap)) of
       Some l \<Rightarrow> Some (sl_limit l, True)
     | None \<Rightarrow> map_option (\<lambda>l. (sl_limit l, False))
         (nearest sl_workspace sl_route sl_service r (filter (\<lambda>l. sl_consumer l = None) (sn_rate_limits snap))))"
proof -
  have own: "Option.bind (map_of (cf_consumer_rate_limits cfg) (consumer_id (sr_workspace r) u))
      (\<lambda>e. case map_of (crl_routes e) (route_id r) of Some rl \<Rightarrow> Some rl | None \<Rightarrow> crl_any e) =
    map_option sl_limit (nearest sl_workspace sl_route sl_service r (filter (\<lambda>l. sl_consumer l = Some u) (sn_rate_limits snap)))"
    unfolding compile_Returns(6) [OF assms(1)] limit_nearest [symmetric]
    by (rule own_limit_spec [OF route_ids_distinct [OF assms(3,4)] assms(2,6,5)])
  have fields: "rr_route (compiled_rule sha snap r) = route_id r"
      "rr_rate_limit (compiled_rule sha snap r) = map_option sl_limit (nearest sl_workspace sl_route sl_service r (filter (\<lambda>l. sl_consumer l = None) (sn_rate_limits snap)))"
    by (simp_all add: compiled_rule_def route_rule_of_def limit_on_everyone_spec everyones_rank_def [abs_def] limit_nearest)
  show ?thesis
    by (cases "nearest sl_workspace sl_route sl_service r (filter (\<lambda>l. sl_consumer l = Some u) (sn_rate_limits snap))")
      (simp_all add: rate_limit_for_def own fields option.map_comp o_def)
qed

theorem store_limit_ladder_witness:
  "\<exists>cfg. compile toy_sha sample_store default_store_settings = Returns cfg \<and>
     rate_limit_for cfg (compiled_rule toy_sha sample_store shop_route) (Some ''shop/mobile'') =
       Some (\<lparr>rl_limit = 7, rl_window_ms = 1000, rl_by = ByIp\<rparr>, True) \<and>
     rate_limit_for cfg (compiled_rule toy_sha sample_store shop_route) (Some ''shop/web'') =
       Some (\<lparr>rl_limit = 50, rl_window_ms = 1000, rl_by = ByIp\<rparr>, False)"
proof -
  obtain cfg where cfg: "compile toy_sha sample_store default_store_settings = Returns cfg"
    using sample_store_compiles by blast
  have r: "shop_route \<in> set (served_routes sample_store)" by code_simp
  have d: "distinct (map (\<lambda>r. (sr_workspace r, sr_name r)) (sn_routes sample_store))"
    and n: "\<forall>r \<in> set (sn_routes sample_store). CHR ''/'' \<notin> set (sr_name r)"
    and c: "\<forall>l \<in> set (sn_rate_limits sample_store). \<forall>v. sl_consumer l = Some v \<longrightarrow> CHR ''/'' \<notin> set v"
    by (simp_all add: sample_store_def sample_store_route_def sample_limit_def)
  let ?near = "\<lambda>c. nearest sl_workspace sl_route sl_service shop_route (filter (\<lambda>l. sl_consumer l = c) (sn_rate_limits sample_store))"
  have own: "?near (Some ''mobile'') = Some (sample_limit None (Some ''mobile'') 7)"
    "?near (Some ''web'') = None" "?near None = Some (sample_limit (Some ''api'') None 50)"
    by code_simp+
  have ids: "''shop/mobile'' = consumer_id (sr_workspace shop_route) ''mobile''"
    "''shop/web'' = consumer_id (sr_workspace shop_route) ''web''" by code_simp+
  have "CHR ''/'' \<notin> set ''mobile''" "CHR ''/'' \<notin> set ''web''" by simp_all
  from store_limit_ladder [OF cfg r d n c this(1)] store_limit_ladder [OF cfg r d n c this(2)] cfg show ?thesis
    unfolding ids own by (auto simp: sample_limit_def)
qed

end
