(* ===== verification/Rust_Char.thy ===== *)
theory Rust_Char
  imports Rust_Num
begin

text \<open>
  The characters of a text: \<open>str::chars\<close> over its UTF-8 bytes, as code points, and the
  classes of characters the control plane asks about.
\<close>

fun code_point :: "string \<Rightarrow> nat" where
  "code_point [a] = byte a"
| "code_point [a, b] = (byte a - 0xC0) * 64 + (byte b - 0x80)"
| "code_point [a, b, c] = ((byte a - 0xE0) * 64 + (byte b - 0x80)) * 64 + (byte c - 0x80)"
| "code_point [a, b, c, d] =
     (((byte a - 0xF0) * 64 + (byte b - 0x80)) * 64 + (byte c - 0x80)) * 64 + (byte d - 0x80)"
| "code_point _ = 0"

function chars :: "string \<Rightarrow> nat list" where
  "chars s =
     (if s = [] \<or> utf8_head s = 0 then []
      else code_point (take (utf8_head s) s) # chars (drop (utf8_head s) s))"
  by pat_completeness auto
termination
  by (relation "measure length") auto

declare chars.simps [simp del]

lemma chars_Nil [simp]: "chars [] = []"
  by (simp add: chars.simps)

lemma chars_ascii [simp]: "byte a < 128 \<Longrightarrow> chars (a # s) = byte a # chars s"
  by (subst chars.simps) (simp add: utf8_head_def)

lemma chars_multi: "utf8_multi m \<Longrightarrow> chars (m @ s) = code_point m # chars s"
  by (subst chars.simps) (simp add: utf8_head_multi utf8_multi_nonempty)

lemma length_chars: "valid_utf8 s \<Longrightarrow> length (chars s) \<le> length s"
proof (induction s rule: valid_utf8_induct)
  case (multi m s)
  then have "0 < length m" using utf8_multi_nonempty by simp
  moreover have "length (chars (m @ s)) = Suc (length (chars s))" using multi by (simp add: chars_multi)
  moreover have "length (m @ s) = length m + length s" by simp
  ultimately show ?case using multi.IH by linarith
qed simp_all

text \<open>\<open>char::is_control\<close>: the general category \<open>Cc\<close>.\<close>

definition is_control :: "nat \<Rightarrow> bool" where
  "is_control c \<longleftrightarrow> c < 32 \<or> 127 \<le> c \<and> c < 160"

text \<open>\<open>char::is_whitespace\<close>: the property \<open>White_Space\<close>.\<close>

definition is_whitespace :: "nat \<Rightarrow> bool" where
  "is_whitespace c \<longleftrightarrow> 9 \<le> c \<and> c \<le> 13 \<or> c = 32 \<or> c = 0x85 \<or> c = 0xA0 \<or> c = 0x1680 \<or>
     0x2000 \<le> c \<and> c \<le> 0x200A \<or> c = 0x2028 \<or> c = 0x2029 \<or> c = 0x202F \<or> c = 0x205F \<or> c = 0x3000"

end
