(* ===== verification/Roles.thy ===== *)
theory Roles
  imports Snapshot Rust_Char
begin

text \<open>
  \<^verbatim>\<open>gapura-control/src/access.rs\<close>, \<^verbatim>\<open>grants.rs\<close> and \<^verbatim>\<open>scope.rs\<close>: who holds which role in
  which workspace, who may change that, and what an identity may read. A \<open>Uuid\<close> is its 128
  bits; a refusal carries its sentence as the format string with its arguments. Reading a
  \<open>Uuid\<close> and a JSON body are parameters.
\<close>

section \<open>Roles\<close>

type_synonym uuid = u128

datatype role = Viewer | Editor | Admin

fun role_level :: "role \<Rightarrow> nat" where
  "role_level Viewer = 0"
| "role_level Editor = 1"
| "role_level Admin = 2"

lemma role_level_inj: "role_level a = role_level b \<longleftrightarrow> a = b"
  by (cases a; cases b) simp_all

instantiation role :: linorder
begin

definition less_eq_role :: "role \<Rightarrow> role \<Rightarrow> bool" where
  "less_eq_role a b \<longleftrightarrow> role_level a \<le> role_level b"

definition less_role :: "role \<Rightarrow> role \<Rightarrow> bool" where
  "less_role a b \<longleftrightarrow> role_level a < role_level b"

instance
  by standard (auto simp: less_eq_role_def less_role_def role_level_inj)

end

lemma role_le_Admin [simp]: "r \<le> Admin"
  by (cases r) (simp_all add: less_eq_role_def)

definition role_parse :: "string \<Rightarrow> role option" where
  "role_parse name =
     (if name = ''viewer'' then Some Viewer else if name = ''editor'' then Some Editor
      else if name = ''admin'' then Some Admin else None)"

fun role_as_str :: "role \<Rightarrow> string" where
  "role_as_str Viewer = ''viewer''"
| "role_as_str Editor = ''editor''"
| "role_as_str Admin = ''admin''"

lemma role_roundtrip: "role_parse name = Some r \<longleftrightarrow> name = role_as_str r"
  by (cases r) (auto simp: role_parse_def)

datatype source = FromSuperuser role | FromDirect role | FromGroup string role

fun source_role :: "source \<Rightarrow> role" where
  "source_role (FromSuperuser r) = r"
| "source_role (FromDirect r) = r"
| "source_role (FromGroup _ r) = r"

text \<open>The derived order of \<open>Source\<close>: by variant, then by field.\<close>

fun source_key :: "source \<Rightarrow> nat \<times> string \<times> role" where
  "source_key (FromSuperuser r) = (0, [], r)"
| "source_key (FromDirect r) = (1, [], r)"
| "source_key (FromGroup name r) = (2, name, r)"

datatype sign_in_method = LocalMethod | OidcMethod

fun method_as_str :: "sign_in_method \<Rightarrow> string" where
  "method_as_str LocalMethod = ''local''"
| "method_as_str OidcMethod = ''oidc''"

section \<open>Rows\<close>

record user =
  us_id :: uuid
  us_name :: string
  us_method :: sign_in_method
  us_superuser :: bool
  us_disabled :: bool
  us_groups :: "string list"
  us_last_sign_in :: "int option"
  us_must_change_password :: bool
  us_sessions_valid_after :: "int option"

record workspace =
  wk_id :: uuid
  wk_name :: string

record grant =
  gr_user :: uuid
  gr_workspace :: uuid
  gr_role :: role

record group_grant =
  gg_group :: string
  gg_workspace :: uuid
  gg_role :: role

record rows =
  rw_users :: "user list"
  rw_workspaces :: "workspace list"
  rw_grants :: "grant list"
  rw_group_grants :: "group_grant list"

record access =
  ac_role :: role
  ac_sources :: "source list"

text \<open>\<open>Rows::effective\<close>: every grant that gives the user a role there, and the highest role.\<close>

definition sources_of :: "rows \<Rightarrow> user \<Rightarrow> uuid \<Rightarrow> source list" where
  "sources_of rows u w =
     (if us_superuser u then [FromSuperuser Admin] else []) @
     map (\<lambda>g. FromDirect (gr_role g)) (filter (\<lambda>g. gr_user g = us_id u \<and> gr_workspace g = w) (rw_grants rows)) @
     map (\<lambda>g. FromGroup (gg_group g) (gg_role g))
       (filter (\<lambda>g. gg_workspace g = w \<and> gg_group g \<in> set (us_groups u)) (rw_group_grants rows))"

definition effective :: "rows \<Rightarrow> user \<Rightarrow> uuid \<Rightarrow> access option" where
  "effective rows u w =
     (if us_disabled u then None
      else let sources = sources_of rows u w in
        if sources = [] then None
        else Some \<lparr>ac_role = Max (set (map source_role sources)),
                   ac_sources = remdups_adj (sort_key source_key sources)\<rparr>)"

definition grantable :: "rows \<Rightarrow> user \<Rightarrow> uuid set" where
  "grantable rows caller =
     set (map wk_id (filter (\<lambda>w. case effective rows caller (wk_id w) of
        Some a \<Rightarrow> ac_role a = Admin | None \<Rightarrow> False) (rw_workspaces rows)))"

definition waiting :: "rows \<Rightarrow> user \<Rightarrow> bool" where
  "waiting rows u \<longleftrightarrow> \<not> us_disabled u \<and> \<not> us_superuser u \<and>
     list_all (\<lambda>w. effective rows u (wk_id w) = None) (rw_workspaces rows)"

definition access_in :: "rows \<Rightarrow> user \<Rightarrow> uuid set \<Rightarrow> (workspace \<times> access) list" where
  "access_in rows u within =
     List.map_filter (\<lambda>w. map_option (\<lambda>a. (w, a)) (effective rows u (wk_id w)))
       (filter (\<lambda>w. wk_id w \<in> within) (rw_workspaces rows))"

section \<open>Refusals\<close>

datatype refusal =
    RInvalid (refusal_sentence: message)
  | RForbidden (refusal_sentence: message)
  | RNotFound (refusal_sentence: message)
  | RConflict (refusal_sentence: message)

fun refusal_status :: "refusal \<Rightarrow> nat" where
  "refusal_status (RInvalid _) = 400"
| "refusal_status (RForbidden _) = 403"
| "refusal_status (RNotFound _) = 404"
| "refusal_status (RConflict _) = 409"

definition outside_your_workspaces :: refusal where
  "outside_your_workspaces =
     RForbidden (Msg ''You can only change roles in workspaces you administer, so nothing was changed.'' [])"

definition authorise :: "rows \<Rightarrow> user \<Rightarrow> uuid set \<Rightarrow> refusal + unit" where
  "authorise rows caller workspaces =
     (if us_disabled caller then Err outside_your_workspaces
      else if workspaces \<subseteq> grantable rows caller then Ok ()
      else Err outside_your_workspaces)"

section \<open>Changes\<close>

record change =
  ch_before :: "role option"
  ch_after :: "role option"

definition change_between :: "role option \<Rightarrow> role option \<Rightarrow> change option" where
  "change_between before after = (if before \<noteq> after then Some \<lparr>ch_before = before, ch_after = after\<rparr> else None)"

definition mapping_action :: "change \<Rightarrow> string" where
  "mapping_action ch =
     (case (ch_before ch, ch_after ch) of
        (None, _) \<Rightarrow> ''create'' | (_, None) \<Rightarrow> ''delete'' | _ \<Rightarrow> ''update'')"

text \<open>The changes asked for: by workspace, in the order of their ids.\<close>

type_synonym role_changes = "(uuid \<times> role option) list"

definition direct_changes :: "(uuid \<times> role) list \<Rightarrow> role_changes \<Rightarrow> (uuid \<times> change) list" where
  "direct_changes held wanted =
     List.map_filter (\<lambda>(w, after). map_option (Pair w) (change_between (map_of held w) after)) wanted"

text \<open>\<open>serde_json::Value\<close>; a number by its text, a \<open>Uuid\<close> written as a value of its own.\<close>

datatype json =
    JsonNull | JsonBool bool | JsonNumber string | JsonString string | JsonUuid uuid
  | JsonArray "json list" | JsonObject "(string \<times> json) list"

definition role_json :: "role option \<Rightarrow> json" where
  "role_json r = (case r of Some r \<Rightarrow> JsonString (role_as_str r) | None \<Rightarrow> JsonNull)"

definition direct_audit :: "string \<Rightarrow> uuid \<Rightarrow> string \<Rightarrow> role option \<Rightarrow> json" where
  "direct_audit account account_id workspace r =
     JsonObject [(''account'', JsonString account), (''account_id'', JsonUuid account_id),
       (''workspace'', JsonString workspace), (''role'', role_json r)]"

definition mapping_audit :: "string \<Rightarrow> string \<Rightarrow> role option \<Rightarrow> json option" where
  "mapping_audit grp workspace r0 =
     map_option (\<lambda>r. JsonObject [(''group'', JsonString grp), (''workspace'', JsonString workspace),
       (''role'', role_json (Some r))]) r0"

section \<open>Names\<close>

definition max_group_chars :: nat where
  "max_group_chars = 256"

definition invisible :: "nat \<Rightarrow> bool" where
  "invisible c \<longleftrightarrow> c = 0xAD \<or> c = 0x61C \<or> c = 0x180E \<or> 0x200B \<le> c \<and> c \<le> 0x200F \<or>
     0x2028 \<le> c \<and> c \<le> 0x202E \<or> 0x2060 \<le> c \<and> c \<le> 0x2064 \<or> 0x2066 \<le> c \<and> c \<le> 0x206F \<or>
     c = 0xFEFF \<or> 0xFFF9 \<le> c \<and> c \<le> 0xFFFB"

definition check_group_name :: "string \<Rightarrow> message + unit" where
  "check_group_name name =
     (let cs = chars name; n = length cs in
      if n = 0 then Err (Msg ''A group name cannot be empty.'' [])
      else if max_group_chars < n then
        Err (Msg ''A group name is at most {MAX_GROUP_CHARS} characters; this one has {chars}.'' [Text (show_nat n)])
      else if list_ex is_control cs then Err (Msg ''A group name cannot contain control characters.'' [])
      else if list_ex invisible cs then
        Err (Msg ''A group name cannot contain characters that show nothing or reverse the text around them.'' [])
      else if is_whitespace (hd cs) \<or> is_whitespace (last cs) then
        Err (Msg ''A group name cannot start or end with a space: it has to equal the groups claim exactly.'' [])
      else Ok ())"

definition group_to_remove :: "string \<Rightarrow> refusal + unit" where
  "group_to_remove name =
     (if name = [] \<or> CHR 0x00 \<in> set name
      then Err (RInvalid (Msg ''Name the group of the mapping to remove.'' [])) else Ok ())"

definition workspace_id :: "(string \<Rightarrow> uuid option) \<Rightarrow> string \<Rightarrow> refusal + uuid" where
  "workspace_id parse_uuid text =
     (case parse_uuid text of
        Some w \<Rightarrow> Ok w
      | None \<Rightarrow> Err (RInvalid (Msg ''{text:?} is not a workspace id.'' [Text text])))"

definition role_named :: "string \<Rightarrow> refusal + role" where
  "role_named name =
     (case role_parse name of
        Some r \<Rightarrow> Ok r
      | None \<Rightarrow> Err (RInvalid (Msg ''{name:?} is not a role: a role is viewer, editor or admin.'' [Text name])))"

fun parse_changes_loop ::
  "(string \<Rightarrow> uuid option) \<Rightarrow> (string \<times> json) list \<Rightarrow> role_changes \<Rightarrow> refusal + role_changes" where
  "parse_changes_loop parse_uuid [] changes = Ok changes"
| "parse_changes_loop parse_uuid ((key, val) # rest) changes =
     (case workspace_id parse_uuid key of
        Err e \<Rightarrow> Err e
      | Ok w \<Rightarrow>
          (case (case val of
               JsonNull \<Rightarrow> Ok None
             | JsonString name \<Rightarrow> map_sum id Some (role_named name)
             | _ \<Rightarrow> Err (RInvalid (Msg ''The role for workspace {workspace} must be a role name or null.'' [UuidText w]))) of
             Err e \<Rightarrow> Err e
           | Ok r \<Rightarrow>
               if map_of changes w \<noteq> None
               then Err (RInvalid (Msg ''The request names workspace {workspace} twice.'' [UuidText w]))
               else parse_changes_loop parse_uuid rest (bput w r changes)))"

definition parse_role_changes ::
  "(string \<Rightarrow> (string \<times> json) list option) \<Rightarrow> (string \<Rightarrow> uuid option) \<Rightarrow> string \<Rightarrow> refusal + role_changes" where
  "parse_role_changes read_object parse_uuid body =
     (case read_object body of
        None \<Rightarrow> Err (RInvalid (Msg ''Send a JSON object of workspace ids, each with a role or null.'' []))
      | Some object \<Rightarrow> parse_changes_loop parse_uuid object [])"

record group_mapping =
  gm_workspace :: uuid
  gm_group :: string
  gm_role :: role

definition parse_mapping ::
  "(string \<Rightarrow> (string \<times> string \<times> string) option) \<Rightarrow> (string \<Rightarrow> uuid option) \<Rightarrow> string \<Rightarrow> refusal + group_mapping" where
  "parse_mapping read_body parse_uuid body =
     (case read_body body of
        None \<Rightarrow> Err (RInvalid (Msg ''Send a JSON object with workspace_id, group and role.'' []))
      | Some (ws, grp, r0) \<Rightarrow>
          (case workspace_id parse_uuid ws of
             Err e \<Rightarrow> Err e
           | Ok w \<Rightarrow>
               (case check_group_name grp of
                  Err m \<Rightarrow> Err (RInvalid m)
                | Ok _ \<Rightarrow> map_sum id (\<lambda>r. \<lparr>gm_workspace = w, gm_group = grp, gm_role = r\<rparr>) (role_named r0))))"

section \<open>Namespaces an identity may read\<close>

type_synonym scope_mapping = "(string \<times> string list) list"

datatype scope = AllNamespaces | OnlyNamespaces "string set"

fun visible_loop :: "string list \<Rightarrow> string set \<Rightarrow> scope" where
  "visible_loop [] namespaces = OnlyNamespaces namespaces"
| "visible_loop (granted # rest) namespaces =
     (if granted = ''*'' then AllNamespaces else visible_loop rest (insert granted namespaces))"

definition visible :: "string list \<Rightarrow> scope_mapping \<Rightarrow> scope" where
  "visible groups mapping =
     visible_loop (concat (map (\<lambda>g. case map_of mapping g of Some ns \<Rightarrow> ns | None \<Rightarrow> []) groups)) {}"

end
