(* ===== verification/Accounts.thy ===== *)
theory Accounts
  imports Roles
begin

text \<open>
  \<^verbatim>\<open>gapura-control/src/accounts.rs\<close>, \<^verbatim>\<open>workspaces.rs\<close>, the rules of \<^verbatim>\<open>password.rs\<close> and
  \<^verbatim>\<open>bootstrap.rs\<close>: which usernames and passwords are accepted, who may change an account or a
  workspace, and what a change must keep. Unicode lowercasing is a parameter.
\<close>

section \<open>Usernames and passwords\<close>

definition max_username_chars :: nat where "max_username_chars = 64"
definition min_password_chars :: nat where "min_password_chars = 12"
definition max_password_bytes :: nat where "max_password_bytes = 1024"

definition alphanumeric_point :: "nat \<Rightarrow> bool" where
  "alphanumeric_point c \<longleftrightarrow> c < 128 \<and> is_ascii_alphanumeric (char_of c)"

definition username_point :: "nat \<Rightarrow> bool" where
  "username_point c \<longleftrightarrow> alphanumeric_point c \<or> c = 0x2E \<or> c = 0x5F \<or> c = 0x7E \<or> c = 0x2D"

definition check_username :: "string \<Rightarrow> message + unit" where
  "check_username name =
     (case chars name of
        [] \<Rightarrow> Err (Msg ''a username cannot be empty'' [])
      | first # _ \<Rightarrow>
          if \<not> alphanumeric_point first then Err (Msg ''a username must start with a letter or a digit'' [])
          else if max_username_chars < length (chars name)
          then Err (Msg ''a username has at most {MAX_USERNAME_CHARS} characters'' [])
          else case find (\<lambda>c. \<not> username_point c) (chars name) of
                 Some c \<Rightarrow> Err (Msg ''a username may use letters, digits and . _ ~ -, not {c:?}'' [Text (show_nat c)])
               | None \<Rightarrow> Ok ())"

definition check_password :: "(string \<Rightarrow> string) \<Rightarrow> string \<Rightarrow> string \<Rightarrow> message + unit" where
  "check_password lower name password =
     (if length (chars password) < min_password_chars
      then Err (Msg ''a password needs at least {MIN_PASSWORD_CHARS} characters'' [])
      else if max_password_bytes < length password
      then Err (Msg ''a password has at most {MAX_PASSWORD_BYTES} bytes'' [])
      else if list_ex is_control (chars password)
      then Err (Msg ''a password must not contain a line break or other control character; a value written with `echo` ends in one'' [])
      else if 3 \<le> length (chars name) \<and> str_contains (lower name) (lower password)
      then Err (Msg ''a password must not contain the username'' [])
      else Ok ())"

text \<open>\<open>password.rs\<close>'s fragments as the sentences the API answers in.\<close>

definition to_sentence :: "message \<Rightarrow> message" where
  "to_sentence m =
     Msg ((case msg_format m of [] \<Rightarrow> [] | c # s \<Rightarrow> ascii_upper c # s) @ ''.'') (msg_args m)"

record field_error =
  fe_field :: string
  fe_sentence :: message

record new_account =
  na_username :: string
  na_superuser :: bool

record password_change =
  pc_current :: string
  pc_new :: string

definition current_field :: string where "current_field = ''current''"

definition wrong_current :: field_error where
  "wrong_current = \<lparr>fe_field = current_field, fe_sentence = Msg ''That is not your current password.'' []\<rparr>"

definition account_username :: "new_account \<Rightarrow> field_error + string" where
  "account_username input =
     (case check_username (na_username input) of
        Ok _ \<Rightarrow> Ok (na_username input)
      | Err m \<Rightarrow> Err \<lparr>fe_field = ''username'', fe_sentence = to_sentence m\<rparr>)"

definition new_password :: "(string \<Rightarrow> string) \<Rightarrow> string \<Rightarrow> password_change \<Rightarrow> field_error + unit" where
  "new_password lower name ch =
     (if pc_new ch = pc_current ch
      then Err \<lparr>fe_field = ''new'', fe_sentence = Msg ''Choose a password different from the current one.'' []\<rparr>
      else case check_password lower name (pc_new ch) of
             Ok _ \<Rightarrow> Ok ()
           | Err m \<Rightarrow> Err \<lparr>fe_field = ''new'', fe_sentence = to_sentence m\<rparr>)"

text \<open>\<open>bootstrap::requested\<close>: the pair the two variables ask for.\<close>

definition bootstrap_requested ::
  "(string \<Rightarrow> string) \<Rightarrow> string option \<Rightarrow> string option \<Rightarrow> message + (string \<times> string) option" where
  "bootstrap_requested lower name password =
     (case (name, password) of
        (None, None) \<Rightarrow> Ok None
      | (Some n, Some p) \<Rightarrow>
          (case check_username n of
             Err e \<Rightarrow> Err (Msg (''GAPURA_BOOTSTRAP_USERNAME: '' @ msg_format e) (msg_args e))
           | Ok _ \<Rightarrow>
               (case check_password lower n p of
                  Err e \<Rightarrow> Err (Msg (''GAPURA_BOOTSTRAP_PASSWORD: '' @ msg_format e) (msg_args e))
                | Ok _ \<Rightarrow> Ok (Some (n, p))))
      | _ \<Rightarrow> Err (Msg ''GAPURA_BOOTSTRAP_USERNAME and GAPURA_BOOTSTRAP_PASSWORD must be set together'' []))"

section \<open>Accounts\<close>

definition may_administer :: "user \<Rightarrow> refusal + unit" where
  "may_administer caller =
     (if us_superuser caller \<and> \<not> us_disabled caller then Ok ()
      else Err (RForbidden (Msg ''Accounts are a superuser's to change.'' [])))"

definition may_change_settings :: "user \<Rightarrow> refusal + unit" where
  "may_change_settings caller =
     (if us_superuser caller \<and> \<not> us_disabled caller then Ok ()
      else Err (RForbidden (Msg ''Settings are a superuser's to change.'' [])))"

datatype account_change = Reset | Disable | Enable | SetSuperuser bool | Delete

fun locks_out :: "account_change \<Rightarrow> bool" where
  "locks_out Disable = True"
| "locks_out Delete = True"
| "locks_out (SetSuperuser b) = (\<not> b)"
| "locks_out _ = False"

definition account_guard :: "user \<Rightarrow> user \<Rightarrow> account_change \<Rightarrow> nat \<Rightarrow> refusal + unit" where
  "account_guard caller target ch enabled_superusers =
     (let oidc = (us_method target \<noteq> LocalMethod) in
      if ch = Reset \<and> oidc then
        Err (RConflict (Msg ''{} signs in through the identity provider, so there is no password here to reset.'' [Text (us_name target)]))
      else if ch = Delete \<and> oidc then
        Err (RConflict (Msg ''{} signs in through the identity provider and would be back at their next sign-in. Disable the account instead.'' [Text (us_name target)]))
      else if locks_out ch \<and> us_id caller = us_id target then
        Err (RConflict (Msg ''You cannot disable, delete or demote yourself; another superuser can.'' []))
      else if locks_out ch \<and> us_superuser target \<and> \<not> us_disabled target \<and> enabled_superusers \<le> 1 then
        Err (RConflict (Msg ''{} is the last enabled superuser. Make someone else a superuser first.'' [Text (us_name target)]))
      else Ok ())"

definition session_current :: "u64 \<Rightarrow> int option \<Rightarrow> bool" where
  "session_current issued_at valid_after \<longleftrightarrow>
     (case valid_after of None \<Rightarrow> True | Some cutoff \<Rightarrow> cutoff \<le> uint issued_at)"

section \<open>Workspaces\<close>

definition may_list :: "rows \<Rightarrow> user \<Rightarrow> refusal + uuid set option" where
  "may_list rows caller =
     (if us_superuser caller \<and> \<not> us_disabled caller then Ok None
      else if grantable rows caller = {} then Err (RForbidden (Msg ''You do not administer any workspace.'' []))
      else Ok (Some (grantable rows caller)))"

definition may_write_workspaces :: "user \<Rightarrow> refusal + unit" where
  "may_write_workspaces caller =
     (if us_superuser caller \<and> \<not> us_disabled caller then Ok ()
      else Err (RForbidden (Msg ''Workspaces are a superuser's to change.'' [])))"

record contents =
  cn_services :: nat
  cn_routes :: nat
  cn_consumers :: nat
  cn_policies :: nat
  cn_certificates :: nat

definition counted :: "nat \<Rightarrow> string \<Rightarrow> string \<Rightarrow> string" where
  "counted n one many = show_nat n @ '' '' @ (if n = 1 then one else many)"

definition emptiness :: "string \<Rightarrow> contents \<Rightarrow> refusal + unit" where
  "emptiness name c =
     (let left = map (\<lambda>(n, one, many). counted n one many) (filter (\<lambda>(n, _, _). 0 < n)
            [(cn_services c, ''service'', ''services''), (cn_routes c, ''route'', ''routes''),
             (cn_consumers c, ''consumer'', ''consumers''), (cn_policies c, ''policy'', ''policies''),
             (cn_certificates c, ''certificate'', ''certificates'')])
      in if left = [] then Ok ()
         else let listed = (if butlast left = [] then last left else join '', '' (butlast left) @ '' and '' @ last left);
                  total = cn_services c + cn_routes c + cn_consumers c + cn_policies c + cn_certificates c;
                  them = (if total = 1 then ''it'' else ''them'')
              in Err (RConflict (Msg ''{name} still has {list}. Remove {them} first.'' [Text name, Text listed, Text them])))"

definition not_the_last :: "string \<Rightarrow> nat \<Rightarrow> refusal + unit" where
  "not_the_last name workspaces =
     (if 1 < workspaces then Ok ()
      else Err (RConflict (Msg ''{name} is the only workspace, and the console needs one. Create another first.'' [Text name])))"

end
