(* ===== verification/Authority.thy ===== *)
theory Authority
  imports Accounts
begin

text \<open>
  The console's writes to who holds what: \<^verbatim>\<open>gapura-control/src/store/grants.rs\<close>, \<^verbatim>\<open>accounts.rs\<close>,
  \<^verbatim>\<open>workspaces.rs\<close>, \<^verbatim>\<open>identity.rs\<close> and \<^verbatim>\<open>settings.rs\<close>, and how \<^verbatim>\<open>access_api.rs\<close> reads a caller
  back. The state is the tables these transactions read and write; a row a statement locks cannot
  change until the transaction ends, so a transaction is one step, and one that returns before
  \<open>commit\<close> leaves the state as it was. The clock of the database is in microseconds. A drawn
  id, a password hash and the time are arguments.
\<close>

section \<open>The tables\<close>

record account =
  an_id :: uuid
  an_username :: "string option"
  an_password_hash :: "string option"
  an_superuser :: bool
  an_disabled :: bool
  an_issuer :: "string option"
  an_subject :: "string option"
  an_display_name :: "string option"
  an_groups :: "string list"
  an_last_sign_in :: "int option"
  an_must_change :: bool
  an_valid_after :: "int option"
  an_note :: "string option"
  an_signed_up :: bool

record audit_entry =
  ae_actor :: "uuid option"
  ae_actor_name :: string
  ae_actor_method :: sign_in_method
  ae_action :: string
  ae_kind :: string
  ae_object :: "uuid option"
  ae_workspace :: "uuid option"
  ae_before :: "json option"
  ae_after :: "json option"

record db =
  db_users :: "account list"
  db_workspaces :: "workspace list"
  db_roles :: "grant list"
  db_groups :: "group_grant list"
  db_audit :: "audit_entry list"
  db_sign_up_open :: bool
  db_contents :: "uuid \<Rightarrow> contents"
  db_config_version :: nat

text \<open>Why a write did not happen; an error of the database by its \<open>SQLSTATE\<close>.\<close>

datatype write_error = Refused refusal | FieldRefused field_error | StoreFailed "string option" | Stale

definition attempts :: nat where "attempts = 3"

definition settled_by_retrying :: "string option \<Rightarrow> bool" where
  "settled_by_retrying code \<longleftrightarrow> code = Some ''40P01'' \<or> code = Some ''23505''"

text \<open>\<open>retrying\<close>: the attempts one after another, each answered by the database in its own time.\<close>

fun retry_loop :: "nat \<Rightarrow> nat \<Rightarrow> (nat \<Rightarrow> write_error + 'a) \<Rightarrow> write_error + 'a" where
  "retry_loop 0 tried attempt = attempt tried"
| "retry_loop (Suc left) tried attempt =
     (case attempt tried of
        Err (StoreFailed code) \<Rightarrow>
          if settled_by_retrying code then retry_loop left (Suc tried) attempt else Err (StoreFailed code)
      | done_with \<Rightarrow> done_with)"

definition retrying :: "(nat \<Rightarrow> write_error + 'a) \<Rightarrow> write_error + 'a" where
  "retrying attempt = retry_loop (attempts - 1) 1 attempt"

text \<open>\<open>coalesce(username, display_name, oidc_subject)\<close>; the schema keeps one of them.\<close>

definition account_name :: "account \<Rightarrow> string" where
  "account_name a =
     (case an_username a of Some n \<Rightarrow> n | None \<Rightarrow>
       (case an_display_name a of Some n \<Rightarrow> n | None \<Rightarrow> (case an_subject a of Some n \<Rightarrow> n | None \<Rightarrow> [])))"

definition account_method :: "account \<Rightarrow> sign_in_method" where
  "account_method a = (if an_password_hash a \<noteq> None then LocalMethod else OidcMethod)"

text \<open>The row as a decision inside a transaction reads it.\<close>

definition actor_of :: "account \<Rightarrow> user" where
  "actor_of a =
     \<lparr>us_id = an_id a, us_name = account_name a, us_method = account_method a, us_superuser = an_superuser a,
      us_disabled = an_disabled a, us_groups = an_groups a, us_last_sign_in = None,
      us_must_change_password = False, us_sessions_valid_after = None\<rparr>"

definition find_account :: "db \<Rightarrow> uuid \<Rightarrow> account option" where
  "find_account s i = find (\<lambda>a. an_id a = i) (db_users s)"

definition set_account :: "uuid \<Rightarrow> (account \<Rightarrow> account) \<Rightarrow> db \<Rightarrow> db" where
  "set_account i f s = s\<lparr>db_users := map (\<lambda>a. if an_id a = i then f a else a) (db_users s)\<rparr>"

section \<open>Reading\<close>

text \<open>\<open>access_rows\<close>: the tables as \<open>access\<close> reads them; the times floored as they are.\<close>

definition user_of :: "account \<Rightarrow> user" where
  "user_of a = (actor_of a)
     \<lparr>us_last_sign_in := map_option (\<lambda>t. t div 1000000) (an_last_sign_in a),
      us_must_change_password := an_must_change a,
      us_sessions_valid_after := map_option (\<lambda>t. t div 1000) (an_valid_after a)\<rparr>"

definition access_rows :: "db \<Rightarrow> rows" where
  "access_rows s =
     \<lparr>rw_users = sort_key (\<lambda>u. (to_ascii_lowercase (us_name u), us_id u)) (map user_of (db_users s)),
      rw_workspaces = sort_key wk_name (db_workspaces s),
      rw_grants = db_roles s, rw_group_grants = db_groups s\<rparr>"

text \<open>A session, once its cookie verified: whom it names and when it was issued.\<close>

record session =
  se_subject :: string
  se_groups :: "string list"
  se_expires_at :: u64
  se_issued_at :: u64

datatype caller_error = CallerStatus nat | MustChangePassword

definition signed_in ::
  "(string \<Rightarrow> uuid option) \<Rightarrow> db \<Rightarrow> session option \<Rightarrow> caller_error + rows \<times> user" where
  "signed_in parse_uuid s session0 =
     (case session0 of
        None \<Rightarrow> Err (CallerStatus 401)
      | Some session \<Rightarrow>
          (case parse_uuid (se_subject session) of
             None \<Rightarrow> Err (CallerStatus 401)
           | Some i \<Rightarrow>
               (case find (\<lambda>u. us_id u = i \<and> \<not> us_disabled u \<and>
                        session_current (se_issued_at session) (us_sessions_valid_after u)) (rw_users (access_rows s)) of
                  None \<Rightarrow> Err (CallerStatus 401)
                | Some me \<Rightarrow> Ok (access_rows s, me))))"

definition store_caller ::
  "(string \<Rightarrow> uuid option) \<Rightarrow> db \<Rightarrow> session option \<Rightarrow> caller_error + rows \<times> user" where
  "store_caller parse_uuid s session0 =
     (case signed_in parse_uuid s session0 of
        Err e \<Rightarrow> Err e
      | Ok (rows, me) \<Rightarrow> if us_must_change_password me then Err MustChangePassword else Ok (rows, me))"

definition admin_caller ::
  "(string \<Rightarrow> uuid option) \<Rightarrow> db option \<Rightarrow> session option \<Rightarrow> caller_error + (rows \<times> user) \<times> uuid set" where
  "admin_caller parse_uuid store session0 =
     (case store of
        None \<Rightarrow> Err (CallerStatus 404)
      | Some s \<Rightarrow>
          (case store_caller parse_uuid s session0 of
             Err e \<Rightarrow> Err e
           | Ok (rows, me) \<Rightarrow>
               (let within = grantable rows me in
                if within = {} \<and> \<not> us_superuser me then Err (CallerStatus 403) else Ok ((rows, me), within))))"

section \<open>Deciding inside a transaction\<close>

definition rights :: "db \<Rightarrow> uuid \<Rightarrow> uuid set \<Rightarrow> refusal + user \<times> rows" where
  "rights s caller concerned =
     (case find_account s caller of
        None \<Rightarrow> Err outside_your_workspaces
      | Some a \<Rightarrow>
          (let actor = actor_of a in
           Ok (actor,
             \<lparr>rw_users = [actor],
              rw_workspaces = sort_key wk_id (filter (\<lambda>w. wk_id w \<in> concerned) (db_workspaces s)),
              rw_grants = sort_key gr_workspace
                (filter (\<lambda>g. gr_user g = caller \<and> gr_workspace g \<in> concerned) (db_roles s)),
              rw_group_grants = sort_key (\<lambda>g. (gg_group g, gg_workspace g))
                (filter (\<lambda>g. gg_workspace g \<in> concerned \<and> gg_group g \<in> set (us_groups actor)) (db_groups s))\<rparr>)))"

definition authorise_again :: "db \<Rightarrow> uuid \<Rightarrow> uuid set \<Rightarrow> refusal + user \<times> (uuid \<times> string) list" where
  "authorise_again s caller concerned =
     (case rights s caller concerned of
        Err r \<Rightarrow> Err r
      | Ok (actor, rows) \<Rightarrow>
          (case authorise rows actor concerned of
             Err r \<Rightarrow> Err r
           | Ok _ \<Rightarrow> Ok (actor, map (\<lambda>w. (wk_id w, wk_name w)) (rw_workspaces rows))))"

definition audit :: "user \<Rightarrow> string \<Rightarrow> string \<Rightarrow> uuid option \<Rightarrow> uuid option \<Rightarrow> json option \<Rightarrow> json option \<Rightarrow> db \<Rightarrow> db" where
  "audit actor action kind obj ws before after s =
     s\<lparr>db_audit := db_audit s @
        [\<lparr>ae_actor = Some (us_id actor), ae_actor_name = us_name actor, ae_actor_method = us_method actor,
          ae_action = action, ae_kind = kind, ae_object = obj, ae_workspace = ws,
          ae_before = before, ae_after = after\<rparr>]\<rparr>"

text \<open>\<open>AN_ADMIN_IS_LEFT\<close>.\<close>

definition an_admin_is_left :: "db \<Rightarrow> uuid \<Rightarrow> bool" where
  "an_admin_is_left s w \<longleftrightarrow>
     list_ex (\<lambda>u. \<not> an_disabled u \<and> \<not> an_superuser u \<and>
       (list_ex (\<lambda>b. gr_user b = an_id u \<and> gr_workspace b = w \<and> gr_role b = Admin) (db_roles s) \<or>
        list_ex (\<lambda>g. gg_workspace g = w \<and> gg_role g = Admin \<and> gg_group g \<in> set (an_groups u)) (db_groups s)))
       (db_users s)"

definition keeps_an_admin :: "db \<Rightarrow> user \<Rightarrow> uuid list \<Rightarrow> refusal + unit" where
  "keeps_an_admin s actor workspaces =
     (if us_superuser actor \<or> list_all (an_admin_is_left s) workspaces then Ok ()
      else Err (RConflict (Msg ''This would leave the workspace with no admin, and only a superuser could give it one back. Make someone else an admin first.'' [])))"

section \<open>Grants and group mappings\<close>

definition write_grant :: "uuid \<Rightarrow> uuid \<Rightarrow> change \<Rightarrow> grant list \<Rightarrow> grant list" where
  "write_grant target w ch bs =
     (case ch_after ch of
        Some r \<Rightarrow>
          if ch_before ch \<noteq> None
          then map (\<lambda>b. if gr_user b = target \<and> gr_workspace b = w then b\<lparr>gr_role := r\<rparr> else b) bs
          else bs @ [\<lparr>gr_user = target, gr_workspace = w, gr_role = r\<rparr>]
      | None \<Rightarrow> filter (\<lambda>b. \<not> (gr_user b = target \<and> gr_workspace b = w)) bs)"

definition write_direct ::
  "user \<Rightarrow> uuid \<Rightarrow> string \<Rightarrow> (uuid \<times> string) list \<Rightarrow> uuid \<times> change \<Rightarrow> db \<Rightarrow> db" where
  "write_direct actor target account names = (\<lambda>(w, ch) s.
     let name = the (map_of names w) in
     audit actor ''update'' ''user'' (Some target) (Some w)
       (Some (direct_audit account target name (ch_before ch)))
       (Some (direct_audit account target name (ch_after ch)))
       (s\<lparr>db_roles := write_grant target w ch (db_roles s)\<rparr>))"

definition try_set_direct_roles :: "uuid \<Rightarrow> uuid \<Rightarrow> role_changes \<Rightarrow> db \<Rightarrow> (write_error + unit) \<times> db" where
  "try_set_direct_roles caller target wanted s =
     (case authorise_again s caller (fst ` set wanted) of
        Err r \<Rightarrow> (Err (Refused r), s)
      | Ok (actor, names) \<Rightarrow>
          (case find_account s target of
             None \<Rightarrow> (Err (Refused (RNotFound (Msg ''There is no such account.'' []))), s)
           | Some a \<Rightarrow>
               (let held = map (\<lambda>b. (gr_workspace b, gr_role b))
                      (filter (\<lambda>b. gr_user b = target \<and> gr_workspace b \<in> fst ` set wanted) (db_roles s));
                    s' = fold (write_direct actor target (account_name a) names) (direct_changes held wanted) s
                in case keeps_an_admin s' actor (map fst names) of
                     Err r \<Rightarrow> (Err (Refused r), s)
                   | Ok _ \<Rightarrow> (Ok (), s'))))"

definition write_mapping :: "string \<Rightarrow> uuid \<Rightarrow> change \<Rightarrow> group_grant list \<Rightarrow> group_grant list" where
  "write_mapping grp w ch bs =
     (case (ch_before ch, ch_after ch) of
        (None, Some r) \<Rightarrow> bs @ [\<lparr>gg_group = grp, gg_workspace = w, gg_role = r\<rparr>]
      | (Some _, Some r) \<Rightarrow> map (\<lambda>b. if gg_group b = grp \<and> gg_workspace b = w then b\<lparr>gg_role := r\<rparr> else b) bs
      | (_, None) \<Rightarrow> filter (\<lambda>b. \<not> (gg_group b = grp \<and> gg_workspace b = w)) bs)"

definition try_write_group_mapping ::
  "uuid \<Rightarrow> uuid \<Rightarrow> string \<Rightarrow> role option \<Rightarrow> db \<Rightarrow> (write_error + unit) \<times> db" where
  "try_write_group_mapping caller w grp after s =
     (case authorise_again s caller {w} of
        Err r \<Rightarrow> (Err (Refused r), s)
      | Ok (actor, names) \<Rightarrow>
          (let before = map_option gg_role (find (\<lambda>b. gg_group b = grp \<and> gg_workspace b = w) (db_groups s)) in
           if before = None \<and> after = None
           then (Err (Refused (RNotFound (Msg ''There is no such group mapping.'' []))), s)
           else case change_between before after of
                  None \<Rightarrow> (Ok (), s)
                | Some ch \<Rightarrow>
                    (let name = the (map_of names w);
                         s' = audit actor (mapping_action ch) ''group_mapping'' None (Some w)
                                (mapping_audit grp name (ch_before ch)) (mapping_audit grp name (ch_after ch))
                                (s\<lparr>db_groups := write_mapping grp w ch (db_groups s)\<rparr>)
                     in case keeps_an_admin s' actor [w] of
                          Err r \<Rightarrow> (Err (Refused r), s)
                        | Ok _ \<Rightarrow> (Ok (), s'))))"

section \<open>Accounts\<close>

definition gone :: refusal where
  "gone = RForbidden (Msg ''Your account no longer exists.'' [])"

definition caller_rights :: "db \<Rightarrow> uuid \<Rightarrow> refusal + user" where
  "caller_rights s caller =
     (case rights s caller {} of
        Ok (actor, _) \<Rightarrow> Ok actor
      | Err r \<Rightarrow> if r = outside_your_workspaces then Err gone else Err r)"

text \<open>Steps 1 to 3 of a superuser's change: the count, the caller, the account.\<close>

definition enabled_superusers :: "db \<Rightarrow> account list" where
  "enabled_superusers s = filter (\<lambda>a. an_superuser a \<and> \<not> an_disabled a) (db_users s)"

definition decide :: "db \<Rightarrow> uuid \<Rightarrow> uuid \<Rightarrow> account_change \<Rightarrow> refusal + user \<times> user" where
  "decide s caller target ch =
     (case caller_rights s caller of
        Err r \<Rightarrow> Err r
      | Ok actor \<Rightarrow>
          (case may_administer actor of
             Err r \<Rightarrow> Err r
           | Ok _ \<Rightarrow>
               (case find_account s target of
                  None \<Rightarrow> Err (RNotFound (Msg ''There is no such account.'' []))
                | Some a \<Rightarrow>
                    (let t = (actor_of a)\<lparr>us_groups := []\<rparr> in
                     case account_guard actor t ch (length (enabled_superusers s)) of
                       Err r \<Rightarrow> Err r
                     | Ok _ \<Rightarrow> Ok (actor, t)))))"

definition account_entry :: "user \<Rightarrow> string \<Rightarrow> uuid \<Rightarrow> json option \<Rightarrow> json option \<Rightarrow> db \<Rightarrow> db" where
  "account_entry actor action i before after = audit actor action ''user'' (Some i) None before after"

text \<open>The unique indexes an insert meets: the id, the username ignoring case, the provider's identity.\<close>

definition same_username :: "string \<Rightarrow> account \<Rightarrow> bool" where
  "same_username name a \<longleftrightarrow> map_option to_ascii_lowercase (an_username a) = Some (to_ascii_lowercase name)"

definition username_taken :: "db \<Rightarrow> uuid \<Rightarrow> string \<Rightarrow> bool" where
  "username_taken s new_id name \<longleftrightarrow> list_ex (\<lambda>a. an_id a = new_id \<or> same_username name a) (db_users s)"

definition local_account :: "uuid \<Rightarrow> string \<Rightarrow> string \<Rightarrow> account" where
  "local_account i name hash =
     \<lparr>an_id = i, an_username = Some name, an_password_hash = Some hash, an_superuser = False,
      an_disabled = False, an_issuer = None, an_subject = None, an_display_name = None, an_groups = [],
      an_last_sign_in = None, an_must_change = False, an_valid_after = None, an_note = None, an_signed_up = False\<rparr>"

definition insert_account :: "account \<Rightarrow> db \<Rightarrow> db" where
  "insert_account a s = s\<lparr>db_users := db_users s @ [a]\<rparr>"

definition try_create_account ::
  "uuid \<Rightarrow> string \<Rightarrow> bool \<Rightarrow> string \<Rightarrow> uuid \<Rightarrow> db \<Rightarrow> (write_error + uuid) \<times> db" where
  "try_create_account caller name superuser hash new_id s =
     (case caller_rights s caller of
        Err r \<Rightarrow> (Err (Refused r), s)
      | Ok actor \<Rightarrow>
          (case may_administer actor of
             Err r \<Rightarrow> (Err (Refused r), s)
           | Ok _ \<Rightarrow>
               if username_taken s new_id name
               then (Err (Refused (RConflict (Msg ''An account named {username} already exists.'' [Text name]))), s)
               else (Ok new_id,
                 account_entry actor ''create'' new_id None
                   (Some (JsonObject [(''username'', JsonString name), (''superuser'', JsonBool superuser)]))
                   (insert_account ((local_account new_id name hash)\<lparr>an_superuser := superuser, an_must_change := True\<rparr>) s))))"

definition try_reset_password :: "int \<Rightarrow> uuid \<Rightarrow> uuid \<Rightarrow> string \<Rightarrow> db \<Rightarrow> (write_error + unit) \<times> db" where
  "try_reset_password now caller i hash s =
     (case decide s caller i Reset of
        Err r \<Rightarrow> (Err (Refused r), s)
      | Ok (actor, target) \<Rightarrow>
          (Ok (), account_entry actor ''update'' (us_id target) None
             (Some (JsonObject [(''account'', JsonString (us_name target)), (''password'', JsonString ''reset'')]))
             (set_account (us_id target)
                (\<lambda>a. a\<lparr>an_password_hash := Some hash, an_must_change := True, an_valid_after := Some now\<rparr>) s)))"

definition flag_entry :: "user \<Rightarrow> string \<Rightarrow> bool \<Rightarrow> json option" where
  "flag_entry target flag v = Some (JsonObject [(''account'', JsonString (us_name target)), (flag, JsonBool v)])"

definition try_set_disabled :: "int \<Rightarrow> uuid \<Rightarrow> uuid \<Rightarrow> bool \<Rightarrow> db \<Rightarrow> (write_error + unit) \<times> db" where
  "try_set_disabled now caller i disabled s =
     (case decide s caller i (if disabled then Disable else Enable) of
        Err r \<Rightarrow> (Err (Refused r), s)
      | Ok (actor, target) \<Rightarrow>
          if us_disabled target = disabled then (Ok (), s)
          else (Ok (), account_entry actor ''update'' (us_id target)
                  (flag_entry target ''disabled'' (us_disabled target)) (flag_entry target ''disabled'' disabled)
                  (set_account (us_id target) (\<lambda>a. a\<lparr>an_disabled := disabled, an_valid_after := Some now\<rparr>) s)))"

definition try_set_superuser :: "int \<Rightarrow> uuid \<Rightarrow> uuid \<Rightarrow> bool \<Rightarrow> db \<Rightarrow> (write_error + unit) \<times> db" where
  "try_set_superuser now caller i superuser s =
     (case decide s caller i (SetSuperuser superuser) of
        Err r \<Rightarrow> (Err (Refused r), s)
      | Ok (actor, target) \<Rightarrow>
          if us_superuser target = superuser then (Ok (), s)
          else (Ok (), account_entry actor ''update'' (us_id target)
                  (flag_entry target ''superuser'' (us_superuser target)) (flag_entry target ''superuser'' superuser)
                  (set_account (us_id target)
                     (\<lambda>a. a\<lparr>an_superuser := superuser,
                            an_valid_after := (if superuser then an_valid_after a else Some now)\<rparr>) s)))"

definition try_delete_account :: "uuid \<Rightarrow> uuid \<Rightarrow> db \<Rightarrow> (write_error + unit) \<times> db" where
  "try_delete_account caller i s =
     (case decide s caller i Delete of
        Err r \<Rightarrow> (Err (Refused r), s)
      | Ok (actor, target) \<Rightarrow>
          (Ok (), account_entry actor ''delete'' (us_id target)
             (Some (JsonObject [(''username'', JsonString (us_name target))])) None
             (s\<lparr>db_users := filter (\<lambda>a. an_id a \<noteq> us_id target) (db_users s),
                db_roles := filter (\<lambda>b. gr_user b \<noteq> us_id target) (db_roles s),
                db_audit := map (\<lambda>e. if ae_actor e = Some (us_id target) then e\<lparr>ae_actor := None\<rparr> else e) (db_audit s)\<rparr>)))"

text \<open>The write of a password change; the current password was verified against \<open>verified\<close> before.\<close>

definition try_change_own_password ::
  "int \<Rightarrow> uuid \<Rightarrow> string \<Rightarrow> string \<Rightarrow> db \<Rightarrow> (write_error + int \<times> string option) \<times> db" where
  "try_change_own_password now caller verified hash s =
     (case find_account s caller of
        None \<Rightarrow> (Err (FieldRefused wrong_current), s)
      | Some a \<Rightarrow>
          if an_password_hash a \<noteq> Some verified then (Err (FieldRefused wrong_current), s)
          else
            (let s' = set_account caller
                   (\<lambda>a. a\<lparr>an_password_hash := Some hash, an_must_change := False, an_valid_after := Some now\<rparr>) s
             in case caller_rights s' caller of
                  Err r \<Rightarrow> (Err (Refused r), s)
                | Ok actor \<Rightarrow>
                    if us_disabled actor then (Err (Refused (RForbidden (Msg ''This account is disabled.'' []))), s)
                    else (Ok (now div 1000, an_username a),
                     account_entry actor ''update'' caller None
                       (Some (JsonObject [(''account'', (case an_username a of Some n \<Rightarrow> JsonString n | None \<Rightarrow> JsonNull)),
                          (''password'', JsonString ''changed'')])) s')))"

section \<open>Workspaces and settings\<close>

definition decide_workspaces :: "db \<Rightarrow> uuid \<Rightarrow> refusal + user" where
  "decide_workspaces s caller =
     (case caller_rights s caller of
        Err r \<Rightarrow> Err r
      | Ok actor \<Rightarrow> (case may_write_workspaces actor of Err r \<Rightarrow> Err r | Ok _ \<Rightarrow> Ok actor))"

definition workspace_entry :: "user \<Rightarrow> string \<Rightarrow> uuid \<Rightarrow> json option \<Rightarrow> json option \<Rightarrow> db \<Rightarrow> db" where
  "workspace_entry actor action i before after = audit actor action ''workspace'' (Some i) None before after"

definition find_workspace :: "db \<Rightarrow> string \<Rightarrow> workspace option" where
  "find_workspace s name = find (\<lambda>w. wk_name w = name) (db_workspaces s)"

text \<open>The insert skips a taken name; an id drawn twice would be a unique violation.\<close>

definition try_create_workspace :: "uuid \<Rightarrow> string \<Rightarrow> uuid \<Rightarrow> db \<Rightarrow> (write_error + unit) \<times> db" where
  "try_create_workspace caller name new_id s =
     (case decide_workspaces s caller of
        Err r \<Rightarrow> (Err (Refused r), s)
      | Ok actor \<Rightarrow>
          if find_workspace s name \<noteq> None
          then (Err (Refused (RConflict (Msg ''A workspace named {name} already exists.'' [Text name]))), s)
          else if new_id \<in> wk_id ` set (db_workspaces s) then (Err (StoreFailed (Some ''23505'')), s)
          else (Ok (), workspace_entry actor ''create'' new_id None (Some (JsonObject [(''name'', JsonString name)]))
                  (s\<lparr>db_workspaces := db_workspaces s @ [\<lparr>wk_id = new_id, wk_name = name\<rparr>]\<rparr>)))"

definition try_rename_workspace :: "uuid \<Rightarrow> string \<Rightarrow> string \<Rightarrow> db \<Rightarrow> (write_error + unit) \<times> db" where
  "try_rename_workspace caller from_name to_name s =
     (case decide_workspaces s caller of
        Err r \<Rightarrow> (Err (Refused r), s)
      | Ok actor \<Rightarrow>
          (case find_workspace s from_name of
             None \<Rightarrow> (Err (Refused (RNotFound (Msg ''There is no workspace named {name}.'' [Text from_name]))), s)
           | Some w \<Rightarrow>
               if from_name = to_name then (Ok (), s)
               else if find_workspace s to_name \<noteq> None
               then (Err (Refused (RConflict (Msg ''A workspace named {to} already exists.'' [Text to_name]))), s)
               else (Ok (), workspace_entry actor ''update'' (wk_id w)
                       (Some (JsonObject [(''name'', JsonString from_name)])) (Some (JsonObject [(''name'', JsonString to_name)]))
                       (s\<lparr>db_workspaces := map (\<lambda>x. if wk_id x = wk_id w then x\<lparr>wk_name := to_name\<rparr> else x) (db_workspaces s),
                          db_config_version := db_config_version s + 1\<rparr>))))"

definition grants_json :: "db \<Rightarrow> uuid \<Rightarrow> json" where
  "grants_json s w =
     JsonArray (map (\<lambda>(name, _, r). JsonObject [(''user'', JsonString name), (''role'', JsonString (role_as_str r))])
       (sort_key (\<lambda>(name, i, _). (name, i))
         (concat (map (\<lambda>b. map (\<lambda>u. (account_name u, an_id u, gr_role b))
            (filter (\<lambda>u. an_id u = gr_user b) (db_users s)))
            (filter (\<lambda>b. gr_workspace b = w) (db_roles s))))))"

definition mappings_json :: "db \<Rightarrow> uuid \<Rightarrow> json" where
  "mappings_json s w =
     JsonArray (map (\<lambda>g. JsonObject [(''group'', JsonString (gg_group g)), (''role'', JsonString (role_as_str (gg_role g)))])
       (sort_key gg_group (filter (\<lambda>g. gg_workspace g = w) (db_groups s))))"

text \<open>
  The delete cascades to services, routes, consumers, plugins and certificates; each of these deletes,
  of no rows here, fires the trigger that moves the configuration version.
\<close>

definition try_delete_workspace :: "uuid \<Rightarrow> string \<Rightarrow> db \<Rightarrow> (write_error + unit) \<times> db" where
  "try_delete_workspace caller name s =
     (case decide_workspaces s caller of
        Err r \<Rightarrow> (Err (Refused r), s)
      | Ok actor \<Rightarrow>
          (case find_workspace s name of
             None \<Rightarrow> (Err (Refused (RNotFound (Msg ''There is no workspace named {name}.'' [Text name]))), s)
           | Some w \<Rightarrow>
               (case not_the_last name (length (db_workspaces s)) of
                  Err r \<Rightarrow> (Err (Refused r), s)
                | Ok _ \<Rightarrow>
                    (case emptiness name (db_contents s (wk_id w)) of
                       Err r \<Rightarrow> (Err (Refused r), s)
                     | Ok _ \<Rightarrow>
                         (Ok (), workspace_entry actor ''delete'' (wk_id w)
                            (Some (JsonObject [(''name'', JsonString name), (''role_grants'', grants_json s (wk_id w)),
                               (''group_mappings'', mappings_json s (wk_id w))])) None
                            (s\<lparr>db_workspaces := filter (\<lambda>x. wk_id x \<noteq> wk_id w) (db_workspaces s),
                               db_roles := filter (\<lambda>b. gr_workspace b \<noteq> wk_id w) (db_roles s),
                               db_groups := filter (\<lambda>g. gg_workspace g \<noteq> wk_id w) (db_groups s),
                               db_audit := map (\<lambda>e. if ae_workspace e = Some (wk_id w) then e\<lparr>ae_workspace := None\<rparr> else e)
                                 (db_audit s),
                               db_config_version := db_config_version s + 5\<rparr>))))))"

definition try_set_sign_up_open :: "uuid \<Rightarrow> bool \<Rightarrow> db \<Rightarrow> (write_error + unit) \<times> db" where
  "try_set_sign_up_open caller is_open s =
     (case caller_rights s caller of
        Err r \<Rightarrow> (Err (Refused r), s)
      | Ok actor \<Rightarrow>
          (case may_change_settings actor of
             Err r \<Rightarrow> (Err (Refused r), s)
           | Ok _ \<Rightarrow>
               if db_sign_up_open s = is_open then (Ok (), s)
               else (Ok (), audit actor ''update'' ''setting'' None None
                       (Some (JsonObject [(''sign_up_open'', JsonBool (db_sign_up_open s))]))
                       (Some (JsonObject [(''sign_up_open'', JsonBool is_open)]))
                       (s\<lparr>db_sign_up_open := is_open\<rparr>))))"

section \<open>Signing in and up\<close>

definition max_waiting_sign_ups :: nat where "max_waiting_sign_ups = 500"

datatype sign_up = Created uuid int | Closed | Taken | SignUpFull

definition waiting_sign_ups :: "db \<Rightarrow> nat" where
  "waiting_sign_ups s =
     length (filter (\<lambda>u. an_signed_up u \<and> \<not> an_disabled u \<and> \<not> an_superuser u \<and>
       \<not> list_ex (\<lambda>b. gr_user b = an_id u) (db_roles s)) (db_users s))"

definition try_sign_up :: "int \<Rightarrow> string \<Rightarrow> string \<Rightarrow> string option \<Rightarrow> uuid \<Rightarrow> db \<Rightarrow> sign_up \<times> db" where
  "try_sign_up now name hash note new_id s =
     (if \<not> db_sign_up_open s then (Closed, s)
      else if max_waiting_sign_ups \<le> waiting_sign_ups s then (SignUpFull, s)
      else if username_taken s new_id name then (Taken, s)
      else (let a = (local_account new_id name hash)
                  \<lparr>an_last_sign_in := Some now, an_note := note, an_signed_up := True\<rparr>
            in (Created new_id (now div 1000),
                account_entry (actor_of a) ''create'' new_id None
                  (Some (JsonObject [(''username'', JsonString name), (''signed_up'', JsonBool True),
                     (''note'', JsonBool (note \<noteq> None))]))
                  (insert_account a s))))"

definition local_user :: "db \<Rightarrow> string \<Rightarrow> account option" where
  "local_user s name = find (same_username name) (db_users s)"

definition record_sign_in :: "int \<Rightarrow> uuid \<Rightarrow> string \<Rightarrow> db \<Rightarrow> int option \<times> db" where
  "record_sign_in now i verified s =
     (case find_account s i of
        Some a \<Rightarrow>
          if an_password_hash a = Some verified
          then (Some (now div 1000), set_account i (\<lambda>a. a\<lparr>an_last_sign_in := Some now\<rparr>) s)
          else (None, s)
      | None \<Rightarrow> (None, s))"

definition same_identity :: "string \<Rightarrow> string \<Rightarrow> account \<Rightarrow> bool" where
  "same_identity issuer subject a \<longleftrightarrow> an_issuer a = Some issuer \<and> an_subject a = Some subject"

definition upsert_oidc_user ::
  "int \<Rightarrow> string \<Rightarrow> string \<Rightarrow> string \<Rightarrow> string list \<Rightarrow> uuid \<Rightarrow> db \<Rightarrow> (uuid \<times> bool \<times> int) option \<times> db" where
  "upsert_oidc_user now issuer subject display_name groups new_id s =
     (let shown = (if display_name = [] then None else Some display_name) in
      case find (same_identity issuer subject) (db_users s) of
        Some a \<Rightarrow>
          (Some (an_id a, an_disabled a, now div 1000),
           set_account (an_id a) (\<lambda>a. a\<lparr>an_display_name := shown, an_groups := groups,
             an_last_sign_in := (if an_disabled a then an_last_sign_in a else Some now)\<rparr>) s)
      | None \<Rightarrow>
          if find_account s new_id \<noteq> None then (None, s)
          else (Some (new_id, False, now div 1000),
                insert_account \<lparr>an_id = new_id, an_username = None, an_password_hash = None, an_superuser = False,
                  an_disabled = False, an_issuer = Some issuer, an_subject = Some subject, an_display_name = shown,
                  an_groups = groups, an_last_sign_in = Some now, an_must_change = False, an_valid_after = None,
                  an_note = None, an_signed_up = False\<rparr> s))"

definition bootstrap_superuser :: "string \<Rightarrow> string \<Rightarrow> uuid \<Rightarrow> db \<Rightarrow> bool \<times> db" where
  "bootstrap_superuser name hash new_id s =
     (if db_users s \<noteq> [] then (False, s)
      else (True, insert_account ((local_account new_id name hash)\<lparr>an_superuser := True\<rparr>) s))"

section \<open>Histories\<close>

text \<open>The writes, each with what its request, the clock and the random source supply.\<close>

datatype operation =
    SetDirectRoles uuid uuid role_changes
  | WriteGroupMapping uuid uuid string "role option"
  | CreateAccount uuid string bool string uuid
  | ResetPassword uuid uuid string
  | SetDisabled uuid uuid bool
  | SetSuperuserFlag uuid uuid bool
  | DeleteAccount uuid uuid
  | ChangeOwnPassword uuid string string
  | CreateWorkspace uuid string uuid
  | RenameWorkspace uuid string string
  | DeleteWorkspace uuid string
  | SetSignUpOpen uuid bool
  | SignUp string string "string option" uuid
  | RecordSignIn uuid string
  | UpsertOidc string string string "string list" uuid
  | Bootstrap string string uuid

text \<open>The account a request acts for: none for a sign-in, a sign-up and the bootstrap.\<close>

fun caller_of :: "operation \<Rightarrow> uuid option" where
  "caller_of (SetDirectRoles c _ _) = Some c"
| "caller_of (WriteGroupMapping c _ _ _) = Some c"
| "caller_of (CreateAccount c _ _ _ _) = Some c"
| "caller_of (ResetPassword c _ _) = Some c"
| "caller_of (SetDisabled c _ _) = Some c"
| "caller_of (SetSuperuserFlag c _ _) = Some c"
| "caller_of (DeleteAccount c _) = Some c"
| "caller_of (ChangeOwnPassword c _ _) = Some c"
| "caller_of (CreateWorkspace c _ _) = Some c"
| "caller_of (RenameWorkspace c _ _) = Some c"
| "caller_of (DeleteWorkspace c _) = Some c"
| "caller_of (SetSignUpOpen c _) = Some c"
| "caller_of _ = None"

definition outcome_of :: "(write_error + 'a) \<times> db \<Rightarrow> write_error option \<times> db" where
  "outcome_of r = (case fst r of Err e \<Rightarrow> Some e | Ok _ \<Rightarrow> None, snd r)"

fun perform :: "int \<Rightarrow> operation \<Rightarrow> db \<Rightarrow> write_error option \<times> db" where
  "perform now (SetDirectRoles c t wanted) s = outcome_of (try_set_direct_roles c t wanted s)"
| "perform now (WriteGroupMapping c w grp after) s = outcome_of (try_write_group_mapping c w grp after s)"
| "perform now (CreateAccount c name su hash i) s = outcome_of (try_create_account c name su hash i s)"
| "perform now (ResetPassword c i hash) s = outcome_of (try_reset_password now c i hash s)"
| "perform now (SetDisabled c i b) s = outcome_of (try_set_disabled now c i b s)"
| "perform now (SetSuperuserFlag c i b) s = outcome_of (try_set_superuser now c i b s)"
| "perform now (DeleteAccount c i) s = outcome_of (try_delete_account c i s)"
| "perform now (ChangeOwnPassword c verified hash) s = outcome_of (try_change_own_password now c verified hash s)"
| "perform now (CreateWorkspace c name i) s = outcome_of (try_create_workspace c name i s)"
| "perform now (RenameWorkspace c old new) s = outcome_of (try_rename_workspace c old new s)"
| "perform now (DeleteWorkspace c name) s = outcome_of (try_delete_workspace c name s)"
| "perform now (SetSignUpOpen c b) s = outcome_of (try_set_sign_up_open c b s)"
| "perform now (SignUp name hash note i) s = (None, snd (try_sign_up now name hash note i s))"
| "perform now (RecordSignIn i verified) s = (None, snd (record_sign_in now i verified s))"
| "perform now (UpsertOidc issuer subject name groups i) s =
     (None, snd (upsert_oidc_user now issuer subject name groups i s))"
| "perform now (Bootstrap name hash i) s = (None, snd (bootstrap_superuser name hash i s))"

text \<open>What the types of the arguments rule out: a \<open>BTreeMap\<close> holds a key once.\<close>

fun operation_ok :: "operation \<Rightarrow> bool" where
  "operation_ok (SetDirectRoles _ _ wanted) = distinct (map fst wanted)"
| "operation_ok _ = True"

text \<open>The id an operation draws for an account it makes.\<close>

fun drawn :: "operation \<Rightarrow> uuid option" where
  "drawn (CreateAccount _ _ _ _ i) = Some i"
| "drawn (SignUp _ _ _ i) = Some i"
| "drawn (UpsertOidc _ _ _ _ i) = Some i"
| "drawn (Bootstrap _ _ i) = Some i"
| "drawn _ = None"

text \<open>A history: operations one after the other, each at a time of the clock, which does not go back.\<close>

inductive history :: "db \<Rightarrow> (int \<times> operation) list \<Rightarrow> db \<Rightarrow> bool" where
  empty: "history s [] s"
| step: "history s (es @ [(now, op)]) s''"
    if "history s es s'" and "\<forall>e \<in> set es. fst e \<le> now" and "operation_ok op" and "snd (perform now op s') = s''"

inductive_cases history_snocE: "history s (es @ [(now, op)]) s'"
inductive_cases history_emptyE: "history s [] s'"

end
