(* ===== verification/Authority_Sound.thy ===== *)
theory Authority_Sound
  imports Authority
begin

text \<open>
  Lemmas on the console's writes: every write that succeeds names the change it makes to the
  tables (\<open>effect\<close>), the well-formedness of the tables is kept by each, and the decision a
  transaction makes over the rows it reads is the one the whole tables would give.
\<close>

section \<open>Looking up\<close>

lemma find_account_Some:
  "find_account s i = Some a \<Longrightarrow> a \<in> set (db_users s) \<and> an_id a = i"
  using find_SomeD [of "\<lambda>a. an_id a = i" "db_users s" a] by (simp add: find_account_def)

lemma find_account_None: "find_account s i = None \<longleftrightarrow> i \<notin> an_id ` set (db_users s)"
  by (auto simp: find_account_def find_None)

text \<open>The keys and references of the schema.\<close>

definition db_ok :: "db \<Rightarrow> bool" where
  "db_ok s \<longleftrightarrow>
     distinct (map an_id (db_users s)) \<and>
     distinct (map wk_id (db_workspaces s)) \<and> distinct (map wk_name (db_workspaces s)) \<and>
     distinct (map (\<lambda>b. (gr_user b, gr_workspace b)) (db_roles s)) \<and>
     distinct (map (\<lambda>g. (gg_group g, gg_workspace g)) (db_groups s)) \<and>
     gr_user ` set (db_roles s) \<subseteq> an_id ` set (db_users s) \<and>
     gr_workspace ` set (db_roles s) \<subseteq> wk_id ` set (db_workspaces s) \<and>
     gg_workspace ` set (db_groups s) \<subseteq> wk_id ` set (db_workspaces s)"

lemma find_account_iff: "db_ok s \<Longrightarrow> find_account s i = Some a \<longleftrightarrow> a \<in> set (db_users s) \<and> an_id a = i"
proof
  assume ok: "db_ok s" and a: "a \<in> set (db_users s) \<and> an_id a = i"
  then obtain b where b: "find_account s i = Some b" by (metis find_account_None imageI not_None_eq)
  with find_account_Some [OF b] a ok show "find_account s i = Some a"
    by (auto simp: db_ok_def distinct_map dest: inj_onD)
qed (rule find_account_Some)

section \<open>Effective roles\<close>

lemma effective_role:
  "effective rows u w = (if us_disabled u \<or> sources_of rows u w = [] then None
     else Some \<lparr>ac_role = Max (source_role ` set (sources_of rows u w)),
                ac_sources = remdups_adj (sort_key source_key (sources_of rows u w))\<rparr>)"
  by (simp add: effective_def Let_def)

lemma Max_Admin: "finite A \<Longrightarrow> A \<noteq> {} \<Longrightarrow> Max A = Admin \<longleftrightarrow> Admin \<in> A"
  by (metis Max_in Max_ge antisym role_le_Admin)

definition admin_of :: "rows \<Rightarrow> user \<Rightarrow> uuid \<Rightarrow> bool" where
  "admin_of rows u w \<longleftrightarrow> (\<exists>a. effective rows u w = Some a \<and> ac_role a = Admin)"

lemma admin_of_iff:
  "admin_of rows u w \<longleftrightarrow> \<not> us_disabled u \<and> (us_superuser u \<or>
     (\<exists>g \<in> set (rw_grants rows). gr_user g = us_id u \<and> gr_workspace g = w \<and> gr_role g = Admin) \<or>
     (\<exists>g \<in> set (rw_group_grants rows). gg_workspace g = w \<and> gg_group g \<in> set (us_groups u) \<and> gg_role g = Admin))"
proof -
  have "admin_of rows u w \<longleftrightarrow> \<not> us_disabled u \<and> Admin \<in> source_role ` set (sources_of rows u w)"
    by (auto simp: admin_of_def effective_role Max_Admin)
  also have "Admin \<in> source_role ` set (sources_of rows u w) \<longleftrightarrow> us_superuser u \<or>
     (\<exists>g \<in> set (rw_grants rows). gr_user g = us_id u \<and> gr_workspace g = w \<and> gr_role g = Admin) \<or>
     (\<exists>g \<in> set (rw_group_grants rows). gg_workspace g = w \<and> gg_group g \<in> set (us_groups u) \<and> gg_role g = Admin)"
  proof -
    have "source_role ` set (sources_of rows u w) = (if us_superuser u then {Admin} else {}) \<union>
        gr_role ` {g \<in> set (rw_grants rows). gr_user g = us_id u \<and> gr_workspace g = w} \<union>
        gg_role ` {g \<in> set (rw_group_grants rows). gg_workspace g = w \<and> gg_group g \<in> set (us_groups u)}"
      by (simp add: sources_of_def image_Un image_image Un_assoc)
    then show ?thesis by (auto simp: image_iff)
  qed
  finally show ?thesis .
qed

lemma grantable_iff: "w \<in> grantable rows u \<longleftrightarrow> w \<in> wk_id ` set (rw_workspaces rows) \<and> admin_of rows u w"
  by (auto simp: grantable_def admin_of_def split: option.splits)

section \<open>The decision inside a transaction\<close>

text \<open>An account that may administer a workspace, as the whole tables say.\<close>

definition administers :: "db \<Rightarrow> uuid \<Rightarrow> uuid \<Rightarrow> bool" where
  "administers s i w \<longleftrightarrow> (\<exists>a. find_account s i = Some a \<and> admin_of (access_rows s) (user_of a) w)"

lemma user_of_simps [simp]:
  "us_id (user_of a) = an_id a" "us_superuser (user_of a) = an_superuser a" "us_disabled (user_of a) = an_disabled a"
  "us_groups (user_of a) = an_groups a" "us_must_change_password (user_of a) = an_must_change a"
  "us_sessions_valid_after (user_of a) = map_option (\<lambda>t. t div 1000) (an_valid_after a)"
  by (simp_all add: user_of_def actor_of_def)

lemma actor_of_simps [simp]:
  "us_id (actor_of a) = an_id a" "us_superuser (actor_of a) = an_superuser a" "us_disabled (actor_of a) = an_disabled a"
  "us_groups (actor_of a) = an_groups a" "us_name (actor_of a) = account_name a" "us_method (actor_of a) = account_method a"
  by (simp_all add: actor_of_def)

lemma access_rows_simps [simp]:
  "set (rw_users (access_rows s)) = user_of ` set (db_users s)"
  "set (rw_workspaces (access_rows s)) = set (db_workspaces s)"
  "rw_grants (access_rows s) = db_roles s" "rw_group_grants (access_rows s) = db_groups s"
  by (simp_all add: access_rows_def)

lemma rights_Ok:
  assumes "rights s caller concerned = Ok (actor, rows)"
  obtains a where "find_account s caller = Some a" "actor = actor_of a"
    "set (rw_workspaces rows) = {w \<in> set (db_workspaces s). wk_id w \<in> concerned}"
    "set (rw_grants rows) = {g \<in> set (db_roles s). gr_user g = caller \<and> gr_workspace g \<in> concerned}"
    "set (rw_group_grants rows) = {g \<in> set (db_groups s). gg_workspace g \<in> concerned \<and> gg_group g \<in> set (an_groups a)}"
  using assms by (auto simp: rights_def Let_def split: option.splits)

text \<open>What the transaction decides over the rows it locked is what the whole tables say.\<close>

lemma authorise_again_Ok:
  assumes "authorise_again s caller concerned = Ok (actor, names)"
  obtains a where "find_account s caller = Some a" "actor = actor_of a" "\<not> an_disabled a"
    "\<forall>w \<in> concerned. administers s caller w" "fst ` set names = concerned" "concerned \<subseteq> wk_id ` set (db_workspaces s)"
proof -
  from assms obtain rows where r: "rights s caller concerned = Ok (actor, rows)"
      and auth: "authorise rows actor concerned = Ok ()" and names: "names = map (\<lambda>w. (wk_id w, wk_name w)) (rw_workspaces rows)"
    by (auto simp: authorise_again_def split: sum.splits)
  from rights_Ok [OF r] obtain a where a: "find_account s caller = Some a" "actor = actor_of a"
    and ws: "set (rw_workspaces rows) = {w \<in> set (db_workspaces s). wk_id w \<in> concerned}"
    and gs: "set (rw_grants rows) = {g \<in> set (db_roles s). gr_user g = caller \<and> gr_workspace g \<in> concerned}"
    and mg: "set (rw_group_grants rows) = {g \<in> set (db_groups s). gg_workspace g \<in> concerned \<and> gg_group g \<in> set (an_groups a)}" .
  from auth a(2) have en: "\<not> an_disabled a" and sub: "concerned \<subseteq> grantable rows actor"
    by (auto simp: authorise_def split: if_splits)
  have id: "an_id a = caller" using find_account_Some [OF a(1)] by simp
  have "administers s caller w" if "w \<in> concerned" for w
  proof -
    from that sub have "admin_of rows actor w" by (auto simp: grantable_iff)
    then have "admin_of (access_rows s) (user_of a) w" unfolding admin_of_iff using a(2) gs mg id by auto
    with a(1) show ?thesis by (auto simp: administers_def)
  qed
  moreover have "fst ` set names = concerned"
    using sub ws by (auto simp: names grantable_iff image_iff)
  moreover have "concerned \<subseteq> wk_id ` set (db_workspaces s)"
    using sub ws by (fastforce simp: grantable_iff)
  ultimately show thesis using that a en by blast
qed

lemma caller_rights_Ok: "caller_rights s caller = Ok actor \<Longrightarrow> \<exists>a. find_account s caller = Some a \<and> actor = actor_of a"
  by (auto simp: caller_rights_def rights_def Let_def split: sum.splits option.splits if_splits)

lemma decide_Ok:
  assumes "decide s caller target ch = Ok (actor, t)"
  obtains a b where "find_account s caller = Some a" "actor = actor_of a" "an_superuser a" "\<not> an_disabled a"
    "find_account s target = Some b" "t = (actor_of b)\<lparr>us_groups := []\<rparr>"
    "account_guard actor t ch (length (enabled_superusers s)) = Ok ()"
  using assms caller_rights_Ok [of s caller]
  by (fastforce simp: decide_def may_administer_def Let_def split: sum.splits option.splits if_splits)

lemma decide_workspaces_Ok:
  "decide_workspaces s caller = Ok actor \<Longrightarrow>
     \<exists>a. find_account s caller = Some a \<and> actor = actor_of a \<and> an_superuser a \<and> \<not> an_disabled a"
  using caller_rights_Ok [of s caller]
  by (fastforce simp: decide_workspaces_def may_write_workspaces_def split: sum.splits if_splits)

section \<open>What each write does\<close>

lemma audit_simps [simp]:
  "db_users (audit actor action kind obj ws before after s) = db_users s"
  "db_workspaces (audit actor action kind obj ws before after s) = db_workspaces s"
  "db_roles (audit actor action kind obj ws before after s) = db_roles s"
  "db_groups (audit actor action kind obj ws before after s) = db_groups s"
  "db_sign_up_open (audit actor action kind obj ws before after s) = db_sign_up_open s"
  by (simp_all add: audit_def)

lemma entry_simps [simp]:
  "db_users (account_entry actor action i before after s) = db_users s"
  "db_workspaces (account_entry actor action i before after s) = db_workspaces s"
  "db_roles (account_entry actor action i before after s) = db_roles s"
  "db_groups (account_entry actor action i before after s) = db_groups s"
  "db_users (workspace_entry actor action i before after s) = db_users s"
  "db_workspaces (workspace_entry actor action i before after s) = db_workspaces s"
  "db_roles (workspace_entry actor action i before after s) = db_roles s"
  "db_groups (workspace_entry actor action i before after s) = db_groups s"
  by (simp_all add: account_entry_def workspace_entry_def)

lemma set_account_simps [simp]:
  "db_users (set_account i f s) = map (\<lambda>a. if an_id a = i then f a else a) (db_users s)"
  "db_workspaces (set_account i f s) = db_workspaces s" "db_roles (set_account i f s) = db_roles s"
  "db_groups (set_account i f s) = db_groups s"
  by (simp_all add: set_account_def)

lemma insert_account_simps [simp]:
  "db_users (insert_account a s) = db_users s @ [a]"
  "db_workspaces (insert_account a s) = db_workspaces s" "db_roles (insert_account a s) = db_roles s"
  "db_groups (insert_account a s) = db_groups s"
  by (simp_all add: insert_account_def)

lemma find_set_account_same:
  assumes "find_account s i = Some a" "\<And>a. an_id (f a) = an_id a"
  shows "find_account (set_account i f s) i = Some (f a)"
proof -
  have "find (\<lambda>a. an_id a = i) us = Some a \<Longrightarrow>
      find (\<lambda>a. an_id a = i) (map (\<lambda>a. if an_id a = i then f a else a) us) = Some (f a)" for us
    by (induction us) (auto simp: assms(2))
  with assms(1) show ?thesis by (simp add: find_account_def)
qed

lemma find_set_account_other:
  assumes "j \<noteq> i" "\<And>a. an_id (f a) = an_id a"
  shows "find_account (set_account i f s) j = find_account s j"
proof -
  have "find (\<lambda>a. an_id a = j) (map (\<lambda>a. if an_id a = i then f a else a) us) = find (\<lambda>a. an_id a = j) us" for us
    using assms by (induction us) auto
  then show ?thesis by (simp add: find_account_def)
qed

definition new_roles :: "uuid \<Rightarrow> (uuid \<times> change) list \<Rightarrow> grant list \<Rightarrow> grant list" where
  "new_roles target changes bs = fold (\<lambda>(w, ch). write_grant target w ch) changes bs"

lemma write_direct_fold:
  "db_users (fold (write_direct actor t account names) changes s) = db_users s"
  "db_workspaces (fold (write_direct actor t account names) changes s) = db_workspaces s"
  "db_groups (fold (write_direct actor t account names) changes s) = db_groups s"
  "db_sign_up_open (fold (write_direct actor t account names) changes s) = db_sign_up_open s"
  "db_roles (fold (write_direct actor t account names) changes s) = new_roles t changes (db_roles s)"
  unfolding new_roles_def
  by (induction changes arbitrary: s) (auto simp: write_direct_def Let_def)

text \<open>The roles the target holds in the workspaces a request concerns.\<close>

definition held_roles :: "db \<Rightarrow> uuid \<Rightarrow> uuid set \<Rightarrow> (uuid \<times> role) list" where
  "held_roles s target concerned = map (\<lambda>b. (gr_workspace b, gr_role b))
     (filter (\<lambda>b. gr_user b = target \<and> gr_workspace b \<in> concerned) (db_roles s))"

lemma set_direct_roles_effect:
  assumes "try_set_direct_roles caller target wanted s = (r, s')"
  obtains (same) e where "s' = s" "r = Err e"
    | (written) a b names where "find_account s caller = Some a" "\<not> an_disabled a" "find_account s target = Some b"
        "\<forall>w \<in> fst ` set wanted. administers s caller w" "fst ` set names = fst ` set wanted" "r = Ok ()"
        "fst ` set wanted \<subseteq> wk_id ` set (db_workspaces s)"
        "s' = fold (write_direct (actor_of a) target (account_name b) names)
           (direct_changes (held_roles s target (fst ` set wanted)) wanted) s"
        "keeps_an_admin s' (actor_of a) (map fst names) = Ok ()"
proof (cases "authorise_again s caller (fst ` set wanted)")
  case (Inl r0)
  with assms same show thesis by (auto simp: try_set_direct_roles_def)
next
  case (Inr an)
  obtain actor names where an: "an = (actor, names)" by fastforce
  from authorise_again_Ok [OF Inr [unfolded an]] obtain a where a: "find_account s caller = Some a" "actor = actor_of a"
      "\<not> an_disabled a" "\<forall>w \<in> fst ` set wanted. administers s caller w" "fst ` set names = fst ` set wanted"
      "fst ` set wanted \<subseteq> wk_id ` set (db_workspaces s)" .
  show thesis
  proof (cases "find_account s target")
    case None
    with assms Inr an same show thesis by (auto simp: try_set_direct_roles_def)
  next
    case (Some b)
    let ?s = "fold (write_direct actor target (account_name b) names)
           (direct_changes (held_roles s target (fst ` set wanted)) wanted) s"
    have "(r, s') = (case keeps_an_admin ?s actor (map fst names) of Err r \<Rightarrow> (Err (Refused r), s) | Ok _ \<Rightarrow> (Ok (), ?s))"
      using assms Inr an Some
      by (cases "keeps_an_admin ?s actor (map fst names)") (auto simp: try_set_direct_roles_def held_roles_def Let_def)
    then consider e where "s' = s" "r = Err e" | "keeps_an_admin ?s actor (map fst names) = Ok ()" "r = Ok ()" "s' = ?s"
      by (cases "keeps_an_admin ?s actor (map fst names)") auto
    then show thesis using same written a Some by cases simp_all
  qed
qed

lemma group_mapping_effect:
  assumes "try_write_group_mapping caller w grp after s = (r, s')"
  obtains (same) "s' = s"
    | (written) a ch name where "find_account s caller = Some a" "\<not> an_disabled a" "administers s caller w" "r = Ok ()"
        "change_between (map_option gg_role (find (\<lambda>b. gg_group b = grp \<and> gg_workspace b = w) (db_groups s))) after = Some ch"
        "w \<in> wk_id ` set (db_workspaces s)"
        "s' = audit (actor_of a) (mapping_action ch) ''group_mapping'' None (Some w)
           (mapping_audit grp name (ch_before ch)) (mapping_audit grp name (ch_after ch))
           (s\<lparr>db_groups := write_mapping grp w ch (db_groups s)\<rparr>)"
        "keeps_an_admin s' (actor_of a) [w] = Ok ()"
proof (cases "authorise_again s caller {w}")
  case (Inl r0)
  with assms same show thesis by (simp add: try_write_group_mapping_def)
next
  case (Inr an)
  obtain actor names where an: "an = (actor, names)" by fastforce
  from authorise_again_Ok [OF Inr [unfolded an]] obtain a where a: "find_account s caller = Some a" "actor = actor_of a"
      "\<not> an_disabled a" "administers s caller w" "fst ` set names = {w}"
      and w: "w \<in> wk_id ` set (db_workspaces s)" by auto
  let ?before = "map_option gg_role (find (\<lambda>b. gg_group b = grp \<and> gg_workspace b = w) (db_groups s))"
  show thesis
  proof (cases "?before = None \<and> after = None")
    case True
    with assms Inr an same show thesis by (simp add: try_write_group_mapping_def Let_def)
  next
    case False
    show thesis
    proof (cases "change_between ?before after")
      case None
      with False assms Inr an same show thesis by (auto simp: try_write_group_mapping_def Let_def split: if_splits)
    next
      case (Some ch)
      let ?name = "the (map_of names w)"
      let ?s = "audit actor (mapping_action ch) ''group_mapping'' None (Some w)
           (mapping_audit grp ?name (ch_before ch)) (mapping_audit grp ?name (ch_after ch))
           (s\<lparr>db_groups := write_mapping grp w ch (db_groups s)\<rparr>)"
      have "(r, s') = (case keeps_an_admin ?s actor [w] of Err r \<Rightarrow> (Err (Refused r), s) | Ok _ \<Rightarrow> (Ok (), ?s))"
          using assms Inr an Some False
        by (cases "keeps_an_admin ?s actor [w]") (auto simp: try_write_group_mapping_def Let_def)
      then consider "s' = s" | "keeps_an_admin ?s actor [w] = Ok ()" "r = Ok ()" "s' = ?s"
        by (cases "keeps_an_admin ?s actor [w]") auto
      then show thesis using same written a Some w by cases simp_all
    qed
  qed
qed

text \<open>A superuser's writes: either nothing changed, or the caller is an enabled superuser.\<close>

definition superuser_in :: "db \<Rightarrow> uuid \<Rightarrow> account \<Rightarrow> bool" where
  "superuser_in s i a \<longleftrightarrow> find_account s i = Some a \<and> an_superuser a \<and> \<not> an_disabled a"

lemma superuser_administers: "superuser_in s i a \<Longrightarrow> administers s i w"
  by (auto simp: superuser_in_def administers_def admin_of_iff)

lemma create_account_effect:
  assumes "try_create_account caller name su hash new_id s = (r, s')"
  obtains (same) "s' = s"
    | (written) a where "superuser_in s caller a" "r = Ok new_id" "\<not> username_taken s new_id name"
        "s' = account_entry (actor_of a) ''create'' new_id None
           (Some (JsonObject [(''username'', JsonString name), (''superuser'', JsonBool su)]))
           (insert_account ((local_account new_id name hash)\<lparr>an_superuser := su, an_must_change := True\<rparr>) s)"
  using assms caller_rights_Ok [of s caller]
  by (fastforce simp: try_create_account_def may_administer_def superuser_in_def split: sum.splits if_splits)

lemma reset_password_effect:
  assumes "try_reset_password now caller i hash s = (r, s')"
  obtains (same) e where "s' = s" "r = Err e"
    | (written) a b where "superuser_in s caller a" "r = Ok ()" "find_account s i = Some b"
        "s' = account_entry (actor_of a) ''update'' i None
           (Some (JsonObject [(''account'', JsonString (account_name b)), (''password'', JsonString ''reset'')]))
           (set_account i (\<lambda>a. a\<lparr>an_password_hash := Some hash, an_must_change := True, an_valid_after := Some now\<rparr>) s)"
proof (cases "decide s caller i Reset")
  case (Inl e)
  with assms same show thesis by (auto simp: try_reset_password_def)
next
  case (Inr p)
  obtain actor t where p: "p = (actor, t)" by fastforce
  from decide_Ok [OF Inr [unfolded p]] obtain a b where "find_account s caller = Some a" "actor = actor_of a" "an_superuser a"
      "\<not> an_disabled a" "find_account s i = Some b" "t = (actor_of b)\<lparr>us_groups := []\<rparr>" .
  with assms written [of a b] Inr p find_account_Some [of s i b] show thesis
    by (simp add: try_reset_password_def superuser_in_def)
qed

lemma set_disabled_effect:
  assumes "try_set_disabled now caller i disabled s = (r, s')"
  obtains (same) "s' = s" "\<And>b. r = Ok () \<Longrightarrow> find_account s i = Some b \<Longrightarrow> an_disabled b = disabled"
    | (written) a b before after where "superuser_in s caller a" "r = Ok ()" "find_account s i = Some b"
        "an_disabled b \<noteq> disabled" "disabled \<Longrightarrow> caller \<noteq> i"
        "disabled \<Longrightarrow> an_superuser b \<Longrightarrow> \<not> an_disabled b \<Longrightarrow> 1 < length (enabled_superusers s)"
        "s' = account_entry (actor_of a) ''update'' i before after
           (set_account i (\<lambda>a. a\<lparr>an_disabled := disabled, an_valid_after := Some now\<rparr>) s)"
proof (cases "decide s caller i (if disabled then Disable else Enable)")
  case (Inl e)
  with assms same show thesis by (auto simp: try_set_disabled_def)
next
  case (Inr p)
  obtain actor t where p: "p = (actor, t)" by fastforce
  from decide_Ok [OF Inr [unfolded p]] obtain a b where d: "find_account s caller = Some a" "actor = actor_of a" "an_superuser a"
      "\<not> an_disabled a" "find_account s i = Some b" "t = (actor_of b)\<lparr>us_groups := []\<rparr>"
      "account_guard actor t (if disabled then Disable else Enable) (length (enabled_superusers s)) = Ok ()" .
  show thesis
  proof (cases "an_disabled b = disabled")
    case True
    with assms Inr p d same show thesis by (simp add: try_set_disabled_def)
  next
    case False
    with assms Inr p d find_account_Some [of s i b] find_account_Some [of s caller a] show thesis
      by (intro written [of a b "flag_entry t ''disabled'' (us_disabled t)" "flag_entry t ''disabled'' disabled"])
         (auto simp: try_set_disabled_def superuser_in_def account_guard_def Let_def split: if_splits)
  qed
qed

lemma set_superuser_effect:
  assumes "try_set_superuser now caller i su s = (r, s')"
  obtains (same) "s' = s" "\<And>b. r = Ok () \<Longrightarrow> find_account s i = Some b \<Longrightarrow> an_superuser b = su"
    | (written) a b before after where "superuser_in s caller a" "r = Ok ()" "find_account s i = Some b"
        "an_superuser b \<noteq> su" "\<not> su \<Longrightarrow> caller \<noteq> i"
        "s' = account_entry (actor_of a) ''update'' i before after
           (set_account i (\<lambda>a. a\<lparr>an_superuser := su, an_valid_after := (if su then an_valid_after a else Some now)\<rparr>) s)"
proof (cases "decide s caller i (SetSuperuser su)")
  case (Inl e)
  with assms same show thesis by (auto simp: try_set_superuser_def)
next
  case (Inr p)
  obtain actor t where p: "p = (actor, t)" by fastforce
  from decide_Ok [OF Inr [unfolded p]] obtain a b where d: "find_account s caller = Some a" "actor = actor_of a" "an_superuser a"
      "\<not> an_disabled a" "find_account s i = Some b" "t = (actor_of b)\<lparr>us_groups := []\<rparr>"
      "account_guard actor t (SetSuperuser su) (length (enabled_superusers s)) = Ok ()" .
  show thesis
  proof (cases "an_superuser b = su")
    case True
    with assms Inr p d same show thesis by (simp add: try_set_superuser_def)
  next
    case False
    with assms Inr p d find_account_Some [of s i b] find_account_Some [of s caller a] show thesis
      by (intro written [of a b "flag_entry t ''superuser'' (us_superuser t)" "flag_entry t ''superuser'' su"])
         (auto simp: try_set_superuser_def superuser_in_def account_guard_def Let_def split: if_splits)
  qed
qed

lemma delete_account_effect:
  assumes "try_delete_account caller i s = (r, s')"
  obtains (same) e where "s' = s" "r = Err e"
    | (written) a b before where "superuser_in s caller a" "r = Ok ()" "find_account s i = Some b" "caller \<noteq> i"
        "s' = account_entry (actor_of a) ''delete'' i before None
           (s\<lparr>db_users := filter (\<lambda>a. an_id a \<noteq> i) (db_users s), db_roles := filter (\<lambda>b. gr_user b \<noteq> i) (db_roles s),
              db_audit := map (\<lambda>e. if ae_actor e = Some i then e\<lparr>ae_actor := None\<rparr> else e) (db_audit s)\<rparr>)"
proof (cases "decide s caller i Delete")
  case (Inl e)
  with assms same show thesis by (auto simp: try_delete_account_def)
next
  case (Inr p)
  obtain actor t where p: "p = (actor, t)" by fastforce
  from decide_Ok [OF Inr [unfolded p]] obtain a b where "find_account s caller = Some a" "actor = actor_of a" "an_superuser a"
      "\<not> an_disabled a" "find_account s i = Some b" "t = (actor_of b)\<lparr>us_groups := []\<rparr>"
      "account_guard actor t Delete (length (enabled_superusers s)) = Ok ()" .
  with assms written [of a b] Inr p find_account_Some [of s i b] find_account_Some [of s caller a] show thesis
    by (auto simp: try_delete_account_def superuser_in_def account_guard_def Let_def split: if_splits)
qed

lemma change_own_effect:
  assumes "try_change_own_password now caller verified hash s = (r, s')"
  obtains (same) e where "s' = s" "r = Err e"
    | (written) a b v after where "find_account s caller = Some a" "\<not> an_disabled b" "r = Ok v"
        "b = a\<lparr>an_password_hash := Some hash, an_must_change := False, an_valid_after := Some now\<rparr>"
        "s' = account_entry (actor_of b) ''update'' caller None after
           (set_account caller (\<lambda>a. a\<lparr>an_password_hash := Some hash, an_must_change := False, an_valid_after := Some now\<rparr>) s)"
proof (cases "find_account s caller")
  case None
  with assms same show thesis by (auto simp: try_change_own_password_def)
next
  case (Some a)
  let ?s = "set_account caller (\<lambda>a. a\<lparr>an_password_hash := Some hash, an_must_change := False, an_valid_after := Some now\<rparr>) s"
  let ?b = "a\<lparr>an_password_hash := Some hash, an_must_change := False, an_valid_after := Some now\<rparr>"
  have f: "find_account ?s caller = Some ?b" using Some by (rule find_set_account_same) simp
  show thesis
  proof (cases "caller_rights ?s caller")
    case (Inl e)
    with assms Some same show thesis by (auto simp: try_change_own_password_def Let_def split: if_splits)
  next
    case (Inr actor)
    with f caller_rights_Ok [OF Inr] have "actor = actor_of ?b" by simp
    with assms Some Inr same written [of a ?b] show thesis
      by (auto simp: try_change_own_password_def Let_def split: if_splits)
  qed
qed

lemma create_workspace_effect:
  assumes "try_create_workspace caller name i s = (r, s')"
  obtains (same) "s' = s"
    | (written) a after where "superuser_in s caller a" "r = Ok ()" "find_workspace s name = None"
        "i \<notin> wk_id ` set (db_workspaces s)"
        "s' = workspace_entry (actor_of a) ''create'' i None after
           (s\<lparr>db_workspaces := db_workspaces s @ [\<lparr>wk_id = i, wk_name = name\<rparr>]\<rparr>)"
  using assms decide_workspaces_Ok [of s caller]
  by (fastforce simp: try_create_workspace_def superuser_in_def split: sum.splits if_splits)

lemma rename_workspace_effect:
  assumes "try_rename_workspace caller old_name new_name s = (r, s')"
  obtains (same) "s' = s"
    | (written) a w before after where "superuser_in s caller a" "r = Ok ()" "find_workspace s old_name = Some w"
        "find_workspace s new_name = None"
        "s' = workspace_entry (actor_of a) ''update'' (wk_id w) before after
           (s\<lparr>db_workspaces := map (\<lambda>x. if wk_id x = wk_id w then x\<lparr>wk_name := new_name\<rparr> else x) (db_workspaces s),
              db_config_version := db_config_version s + 1\<rparr>)"
  using assms decide_workspaces_Ok [of s caller]
  by (fastforce simp: try_rename_workspace_def superuser_in_def split: sum.splits if_splits option.splits)

lemma delete_workspace_effect:
  assumes "try_delete_workspace caller name s = (r, s')"
  obtains (same) "s' = s"
    | (written) a w before where "superuser_in s caller a" "r = Ok ()" "find_workspace s name = Some w"
        "1 < length (db_workspaces s)" "emptiness name (db_contents s (wk_id w)) = Ok ()"
        "s' = workspace_entry (actor_of a) ''delete'' (wk_id w) before None
           (s\<lparr>db_workspaces := filter (\<lambda>x. wk_id x \<noteq> wk_id w) (db_workspaces s),
              db_roles := filter (\<lambda>b. gr_workspace b \<noteq> wk_id w) (db_roles s),
              db_groups := filter (\<lambda>g. gg_workspace g \<noteq> wk_id w) (db_groups s),
              db_audit := map (\<lambda>e. if ae_workspace e = Some (wk_id w) then e\<lparr>ae_workspace := None\<rparr> else e)
                (db_audit s),
              db_config_version := db_config_version s + 5\<rparr>)"
  using assms decide_workspaces_Ok [of s caller]
  by (fastforce simp: try_delete_workspace_def superuser_in_def not_the_last_def split: sum.splits if_splits option.splits)

lemma set_sign_up_open_effect:
  assumes "try_set_sign_up_open caller is_open s = (r, s')"
  obtains (same) "s' = s"
    | (written) a before after where "superuser_in s caller a" "r = Ok ()"
        "s' = audit (actor_of a) ''update'' ''setting'' None None before after (s\<lparr>db_sign_up_open := is_open\<rparr>)"
  using assms caller_rights_Ok [of s caller]
  by (fastforce simp: try_set_sign_up_open_def may_change_settings_def superuser_in_def split: sum.splits if_splits)

lemma sign_up_effect:
  assumes "try_sign_up now name hash note i s = (r, s')"
  obtains (same) "s' = s"
    | (written) a after where "\<not> username_taken s i name" "db_sign_up_open s" "waiting_sign_ups s < max_waiting_sign_ups"
        "a = (local_account i name hash)\<lparr>an_last_sign_in := Some now, an_note := note, an_signed_up := True\<rparr>"
        "s' = account_entry (actor_of a) ''create'' i None after (insert_account a s)"
  using assms by (fastforce simp: try_sign_up_def Let_def split: if_splits)

lemma record_sign_in_effect:
  assumes "record_sign_in now i verified s = (r, s')"
  obtains (same) "s' = s" | (written) "s' = set_account i (\<lambda>a. a\<lparr>an_last_sign_in := Some now\<rparr>) s"
  using assms by (fastforce simp: record_sign_in_def split: if_splits option.splits)

definition oidc_account :: "int \<Rightarrow> string \<Rightarrow> string \<Rightarrow> string option \<Rightarrow> string list \<Rightarrow> uuid \<Rightarrow> account" where
  "oidc_account now issuer subject shown groups i =
     \<lparr>an_id = i, an_username = None, an_password_hash = None, an_superuser = False,
      an_disabled = False, an_issuer = Some issuer, an_subject = Some subject, an_display_name = shown,
      an_groups = groups, an_last_sign_in = Some now, an_must_change = False, an_valid_after = None,
      an_note = None, an_signed_up = False\<rparr>"

lemma upsert_effect:
  assumes "upsert_oidc_user now issuer subject display_name groups i s = (r, s')"
  obtains (same) "s' = s"
    | (updated) a shown where "find (same_identity issuer subject) (db_users s) = Some a"
        "s' = set_account (an_id a) (\<lambda>a. a\<lparr>an_display_name := shown, an_groups := groups,
             an_last_sign_in := (if an_disabled a then an_last_sign_in a else Some now)\<rparr>) s"
    | (inserted) shown where "find (same_identity issuer subject) (db_users s) = None" "find_account s i = None"
        "s' = insert_account (oidc_account now issuer subject shown groups i) s"
  using assms
  by (cases "find (same_identity issuer subject) (db_users s)")
     (auto simp: upsert_oidc_user_def oidc_account_def Let_def split: if_splits)

lemma bootstrap_effect:
  assumes "bootstrap_superuser name hash i s = (r, s')"
  obtains (same) "s' = s"
    | (written) "db_users s = []" "s' = insert_account ((local_account i name hash)\<lparr>an_superuser := True\<rparr>) s"
  using assms by (auto simp: bootstrap_superuser_def split: if_splits)

section \<open>Refusals\<close>

lemma outcome_Some: "outcome_of p = (Some e, s') \<longleftrightarrow> p = (Err e, s')"
  by (cases p) (auto simp: outcome_of_def split: sum.splits)

lemma outcome_None: "outcome_of p = (None, s') \<longleftrightarrow> (\<exists>v. p = (Ok v, s'))"
  by (cases p) (auto simp: outcome_of_def split: sum.splits)

lemma snd_outcome: "snd (outcome_of p) = snd p" by (simp add: outcome_of_def)

end
