(* ===== verification/Bindings.thy ===== *)
theory Bindings
  imports Authority_Sound
begin

text \<open>
  Rows that give a role under a key: a user's role in a workspace, a group's role in a workspace. A
  write reads the row's role first and inserts, updates or deletes by what it read; the locale
  \<open>bindings\<close> says what such a write leaves, for both tables.
\<close>

section \<open>Keyed rows\<close>

locale bindings =
  fixes key :: "'b \<Rightarrow> 'k" and role_of :: "'b \<Rightarrow> role" and put :: "role \<Rightarrow> 'b \<Rightarrow> 'b" and mk :: "'k \<Rightarrow> role \<Rightarrow> 'b"
  assumes key_put: "key (put r b) = key b" and role_put: "role_of (put r b) = r"
    and key_mk: "key (mk k r) = k" and role_mk: "role_of (mk k r) = r"
begin

definition look :: "'b list \<Rightarrow> 'k \<Rightarrow> role option" where
  "look bs k = map_option role_of (find (\<lambda>b. key b = k) bs)"

definition apply_change :: "'k \<Rightarrow> change \<Rightarrow> 'b list \<Rightarrow> 'b list" where
  "apply_change k ch bs =
     (case ch_after ch of
        Some r \<Rightarrow> if ch_before ch \<noteq> None then map (\<lambda>b. if key b = k then put r b else b) bs else bs @ [mk k r]
      | None \<Rightarrow> filter (\<lambda>b. key b \<noteq> k) bs)"

lemma look_None: "look bs k = None \<longleftrightarrow> k \<notin> key ` set bs"
  by (auto simp: look_def find_None_iff)

lemma look_Some: "distinct (map key bs) \<Longrightarrow> b \<in> set bs \<Longrightarrow> look bs (key b) = Some (role_of b)"
  by (induction bs) (auto simp: look_def)

lemma look_update: "look (map (\<lambda>b. if key b = k then put r b else b) bs) j =
    (if j = k then map_option (\<lambda>_. r) (look bs j) else look bs j)"
  by (induction bs) (auto simp: look_def key_put role_put)

lemma look_insert: "look (bs @ [mk k r]) j = (case look bs j of Some x \<Rightarrow> Some x | None \<Rightarrow> if j = k then Some r else None)"
  by (auto simp: look_def find_append key_mk role_mk split: option.splits)

lemma look_delete: "look (filter (\<lambda>b. key b \<noteq> k) bs) j = (if j = k then None else look bs j)"
  by (induction bs) (auto simp: look_def)

lemma look_apply:
  assumes "ch_before ch = look bs k"
  shows "look (apply_change k ch bs) j = (if j = k then ch_after ch else look bs j)"
  using assms by (auto simp: apply_change_def look_update look_insert look_delete split: option.splits)

lemma keys_apply: "key ` set (apply_change k ch bs) \<subseteq> insert k (key ` set bs)"
  by (auto simp: apply_change_def key_put key_mk split: option.splits)

lemma distinct_apply:
  assumes "distinct (map key bs)" "ch_before ch = look bs k"
  shows "distinct (map key (apply_change k ch bs))"
proof -
  have "key \<circ> (\<lambda>b. if key b = k then put r b else b) = key" for r
    by (auto simp: key_put)
  with assms show ?thesis
    by (auto simp: apply_change_def key_mk distinct_map_filter look_None split: option.splits)
qed

lemma later_before:
  assumes "distinct (map fst ((k, ch) # changes))" "\<forall>(i, h) \<in> set ((k, ch) # changes). ch_before h = look bs i"
  shows "\<forall>(i, h) \<in> set changes. ch_before h = look (apply_change k ch bs) i"
proof clarify
  fix i h assume "(i, h) \<in> set changes"
  with assms show "ch_before h = look (apply_change k ch bs) i"
    by (subst look_apply) (auto simp: image_iff)
qed

lemma look_fold:
  assumes "distinct (map fst changes)" "\<forall>(k, ch) \<in> set changes. ch_before ch = look bs k"
  shows "look (fold (\<lambda>(k, ch). apply_change k ch) changes bs) j =
    (case map_of changes j of Some ch \<Rightarrow> ch_after ch | None \<Rightarrow> look bs j)"
  using assms
proof (induction changes arbitrary: bs)
  case (Cons c changes)
  obtain k ch where c: "c = (k, ch)" by fastforce
  have first: "look (apply_change k ch bs) i = (if i = k then ch_after ch else look bs i)" for i
    using Cons.prems c by (intro look_apply) simp
  have "\<forall>(i, h) \<in> set changes. ch_before h = look (apply_change k ch bs) i"
    using Cons.prems c by (intro later_before) simp_all
  moreover have "map_of changes k = None" using Cons.prems c by (simp add: map_of_eq_None_iff)
  ultimately show ?case
    using Cons.IH [of "apply_change k ch bs"] Cons.prems(1) c by (auto simp: first split: option.splits)
qed simp

lemma distinct_fold:
  assumes "distinct (map fst changes)" "\<forall>(k, ch) \<in> set changes. ch_before ch = look bs k" "distinct (map key bs)"
  shows "distinct (map key (fold (\<lambda>(k, ch). apply_change k ch) changes bs))"
  using assms
proof (induction changes arbitrary: bs)
  case (Cons c changes)
  obtain k ch where c: "c = (k, ch)" by fastforce
  from Cons.prems c have "\<forall>(i, h) \<in> set changes. ch_before h = look (apply_change k ch bs) i"
    by (intro later_before) simp_all
  with Cons.IH [of "apply_change k ch bs"] Cons.prems c show ?case by (simp add: distinct_apply)
qed simp

lemma keys_fold: "key ` set (fold (\<lambda>(k, ch). apply_change k ch) changes bs) \<subseteq> fst ` set changes \<union> key ` set bs"
proof (induction changes arbitrary: bs)
  case (Cons c changes)
  obtain k ch where c: "c = (k, ch)" by fastforce
  from Cons.IH [of "apply_change k ch bs"] keys_apply [of k ch bs] show ?case by (simp add: c) blast
qed simp

end

section \<open>The two tables\<close>

definition grant_key :: "grant \<Rightarrow> uuid \<times> uuid" where "grant_key b = (gr_user b, gr_workspace b)"

definition mapping_key :: "group_grant \<Rightarrow> string \<times> uuid" where "mapping_key g = (gg_group g, gg_workspace g)"

interpretation grants: bindings grant_key gr_role "\<lambda>r b. b\<lparr>gr_role := r\<rparr>"
    "\<lambda>k r. \<lparr>gr_user = fst k, gr_workspace = snd k, gr_role = r\<rparr>"
  by unfold_locales (simp_all add: grant_key_def)

interpretation mappings: bindings mapping_key gg_role "\<lambda>r b. b\<lparr>gg_role := r\<rparr>"
    "\<lambda>k r. \<lparr>gg_group = fst k, gg_workspace = snd k, gg_role = r\<rparr>"
  by unfold_locales (simp_all add: mapping_key_def)

lemma write_grant_apply: "write_grant t w ch = grants.apply_change (t, w) ch"
  by (rule ext) (auto simp: write_grant_def grants.apply_change_def grant_key_def split: option.splits)

lemma write_mapping_apply: "write_mapping grp w ch = mappings.apply_change (grp, w) ch"
  by (rule ext) (auto simp: write_mapping_def mappings.apply_change_def mapping_key_def split: option.splits)

text \<open>A user's own role in a workspace and a group's, as the tables say.\<close>

definition direct_role :: "db \<Rightarrow> uuid \<Rightarrow> uuid \<Rightarrow> role option" where
  "direct_role s u w = grants.look (db_roles s) (u, w)"

definition group_role :: "db \<Rightarrow> string \<Rightarrow> uuid \<Rightarrow> role option" where
  "group_role s grp w = mappings.look (db_groups s) (grp, w)"

section \<open>The changes a request asks for\<close>

lemma held_roles_lookup:
  assumes "w \<in> concerned"
  shows "map_of (held_roles s t concerned) w = direct_role s t w"
proof -
  have "map_of (map (\<lambda>b. (gr_workspace b, gr_role b)) (filter (\<lambda>b. gr_user b = t \<and> gr_workspace b \<in> concerned) bs)) w =
      grants.look bs (t, w)" for bs
    using assms by (induction bs) (auto simp: grants.look_def grant_key_def)
  then show ?thesis by (simp add: held_roles_def direct_role_def)
qed

lemma direct_changes_Cons:
  "direct_changes held ((w, after) # wanted) =
     (if map_of held w \<noteq> after then [(w, \<lparr>ch_before = map_of held w, ch_after = after\<rparr>)] else []) @ direct_changes held wanted"
  by (simp add: direct_changes_def List.map_filter_simps change_between_def)

lemma direct_changes_Nil [simp]: "direct_changes held [] = []"
  by (simp add: direct_changes_def List.map_filter_simps)

lemma direct_changes_key: "c \<in> set (direct_changes held wanted) \<Longrightarrow> fst c \<in> fst ` set wanted"
  by (induction wanted) (auto simp: direct_changes_Cons split: if_splits)

lemma direct_changes_keys: "fst ` set (direct_changes held wanted) \<subseteq> fst ` set wanted"
  by (auto dest: direct_changes_key)

lemma direct_changes_before: "(w, ch) \<in> set (direct_changes held wanted) \<Longrightarrow> ch_before ch = map_of held w"
  by (induction wanted) (auto simp: direct_changes_Cons split: if_splits)

lemma direct_changes_distinct: "distinct (map fst wanted) \<Longrightarrow> distinct (map fst (direct_changes held wanted))"
proof (induction wanted)
  case (Cons c wanted)
  then show ?case using direct_changes_keys [of held wanted] by (cases c) (auto simp: direct_changes_Cons)
qed simp

lemma direct_changes_lookup:
  assumes "distinct (map fst wanted)"
  shows "(case map_of (direct_changes held wanted) w of Some ch \<Rightarrow> ch_after ch | None \<Rightarrow> map_of held w) =
     (case map_of wanted w of Some after \<Rightarrow> after | None \<Rightarrow> map_of held w)"
  using assms
proof (induction wanted)
  case (Cons c wanted)
  obtain v after where c: "c = (v, after)" by fastforce
  have none: "map_of (direct_changes held wanted) v = None" "map_of wanted v = None"
    using Cons.prems c direct_changes_keys [of held wanted] by (auto simp: map_of_eq_None_iff)
  show ?case
  proof (cases "w = v")
    case True
    then show ?thesis using none by (simp add: c direct_changes_Cons)
  next
    case False
    then show ?thesis using Cons by (simp add: c direct_changes_Cons)
  qed
qed simp

text \<open>The bindings after a request's changes were written.\<close>

lemma new_roles_fold:
  "new_roles t changes bs = fold (\<lambda>(k, ch). grants.apply_change k ch) (map (\<lambda>(w, ch). ((t, w), ch)) changes) bs"
  unfolding new_roles_def by (induction changes arbitrary: bs) (auto simp: write_grant_apply)

lemma map_of_tagged: "map_of (map (\<lambda>(w, ch). ((t, w), ch)) changes) (u, v) = (if u = t then map_of changes v else None)"
  by (induction changes) auto

definition asked_changes :: "db \<Rightarrow> uuid \<Rightarrow> role_changes \<Rightarrow> (uuid \<times> change) list" where
  "asked_changes s t wanted = direct_changes (held_roles s t (fst ` set wanted)) wanted"

lemma asked_changes_ready:
  assumes "distinct (map fst wanted)"
  shows "distinct (map fst (map (\<lambda>(w, ch). ((t, w), ch)) (asked_changes s t wanted)))"
    and "\<forall>(k, ch) \<in> set (map (\<lambda>(w, ch). ((t, w), ch)) (asked_changes s t wanted)). ch_before ch = grants.look (db_roles s) k"
proof -
  have "map fst (map (\<lambda>(w, ch). ((t, w), ch)) xs) = map (Pair t) (map fst xs)" for xs :: "(uuid \<times> change) list" by auto
  then show "distinct (map fst (map (\<lambda>(w, ch). ((t, w), ch)) (asked_changes s t wanted)))"
    using direct_changes_distinct [OF assms] by (simp add: asked_changes_def distinct_map inj_on_def)
  have "ch_before ch = grants.look (db_roles s) (t, w)" if "(w, ch) \<in> set (asked_changes s t wanted)" for w ch
  proof -
    have "w \<in> fst ` set wanted" using direct_changes_key [of "(w, ch)"] that by (simp add: asked_changes_def)
    with that show ?thesis
      using direct_changes_before [of w ch] held_roles_lookup [of w "fst ` set wanted" s t]
      by (simp add: asked_changes_def direct_role_def)
  qed
  then show "\<forall>(k, ch) \<in> set (map (\<lambda>(w, ch). ((t, w), ch)) (asked_changes s t wanted)). ch_before ch = grants.look (db_roles s) k"
    by auto
qed

lemma asked_changes_written:
  assumes "distinct (map fst wanted)"
  shows "grants.look (new_roles t (asked_changes s t wanted) (db_roles s)) (u, w) =
    (if u = t then (case map_of wanted w of Some after \<Rightarrow> after | None \<Rightarrow> direct_role s u w) else direct_role s u w)"
proof -
  let ?held = "held_roles s t (fst ` set wanted)"
  have "(case map_of (asked_changes s t wanted) w of Some ch \<Rightarrow> ch_after ch | None \<Rightarrow> direct_role s t w) =
     (case map_of wanted w of Some after \<Rightarrow> after | None \<Rightarrow> direct_role s t w)"
  proof (cases "w \<in> fst ` set wanted")
    case True
    show ?thesis
      using direct_changes_lookup [OF assms, of ?held w] unfolding asked_changes_def held_roles_lookup [OF True] .
  next
    case False
    with direct_changes_keys [of ?held wanted] have "map_of (asked_changes s t wanted) w = None" "map_of wanted w = None"
      by (auto simp: map_of_eq_None_iff asked_changes_def)
    then show ?thesis by simp
  qed
  then show ?thesis
    unfolding new_roles_fold grants.look_fold [OF asked_changes_ready [OF assms]] map_of_tagged direct_role_def [symmetric]
    by (cases "u = t") (simp_all cong: option.case_cong)
qed

end
