(* ===== verification/Authority_Steps.thy ===== *)
theory Authority_Steps
  imports Bindings
begin

text \<open>
  The console's writes as one relation, \<open>effect\<close>: what an operation that changes the tables did, and
  under which rights. Every write is one of its rules or leaves the tables alone (\<open>perform_effect\<close>), so
  a property of all writes is a case analysis over the rules.
\<close>

section \<open>The relation\<close>

inductive effect :: "int \<Rightarrow> operation \<Rightarrow> db \<Rightarrow> db \<Rightarrow> bool" where
  same: "effect now op s s"
| direct_roles: "effect now (SetDirectRoles c t wanted) s s'"
    if "find_account s c = Some a" "\<not> an_disabled a" "find_account s t = Some b"
      "\<forall>w \<in> fst ` set wanted. administers s c w" "fst ` set names = fst ` set wanted"
      "fst ` set wanted \<subseteq> wk_id ` set (db_workspaces s)"
      "s' = fold (write_direct (actor_of a) t (account_name b) names)
         (direct_changes (held_roles s t (fst ` set wanted)) wanted) s"
      "keeps_an_admin s' (actor_of a) (map fst names) = Ok ()"
| group_mapping: "effect now (WriteGroupMapping c w grp after) s s'"
    if "find_account s c = Some a" "\<not> an_disabled a" "administers s c w" "w \<in> wk_id ` set (db_workspaces s)"
      "change_between (map_option gg_role (find (\<lambda>b. gg_group b = grp \<and> gg_workspace b = w) (db_groups s))) after = Some ch"
      "s' = audit (actor_of a) (mapping_action ch) ''group_mapping'' None (Some w)
         (mapping_audit grp name (ch_before ch)) (mapping_audit grp name (ch_after ch))
         (s\<lparr>db_groups := write_mapping grp w ch (db_groups s)\<rparr>)"
      "keeps_an_admin s' (actor_of a) [w] = Ok ()"
| create_account: "effect now (CreateAccount c name su hash i) s
      (account_entry (actor_of a) ''create'' i None after
        (insert_account ((local_account i name hash)\<lparr>an_superuser := su, an_must_change := True\<rparr>) s))"
    if "superuser_in s c a" "\<not> username_taken s i name"
| reset_password: "effect now (ResetPassword c i hash) s
      (account_entry (actor_of a) ''update'' i None after
        (set_account i (\<lambda>a. a\<lparr>an_password_hash := Some hash, an_must_change := True, an_valid_after := Some now\<rparr>) s))"
    if "superuser_in s c a" "find_account s i = Some b"
| set_disabled: "effect now (SetDisabled c i disabled) s
      (account_entry (actor_of a) ''update'' i before after
        (set_account i (\<lambda>a. a\<lparr>an_disabled := disabled, an_valid_after := Some now\<rparr>) s))"
    if "superuser_in s c a" "find_account s i = Some b" "an_disabled b \<noteq> disabled" "disabled \<Longrightarrow> c \<noteq> i"
| set_superuser: "effect now (SetSuperuserFlag c i su) s
      (account_entry (actor_of a) ''update'' i before after
        (set_account i (\<lambda>a. a\<lparr>an_superuser := su, an_valid_after := (if su then an_valid_after a else Some now)\<rparr>) s))"
    if "superuser_in s c a" "find_account s i = Some b" "an_superuser b \<noteq> su" "\<not> su \<Longrightarrow> c \<noteq> i"
| delete_account: "effect now (DeleteAccount c i) s
      (account_entry (actor_of a) ''delete'' i before None
         (s\<lparr>db_users := filter (\<lambda>a. an_id a \<noteq> i) (db_users s), db_roles := filter (\<lambda>b. gr_user b \<noteq> i) (db_roles s),
            db_audit := map (\<lambda>e. if ae_actor e = Some i then e\<lparr>ae_actor := None\<rparr> else e) (db_audit s)\<rparr>))"
    if "superuser_in s c a" "find_account s i = Some b" "c \<noteq> i"
| change_own: "effect now (ChangeOwnPassword c verified hash) s
      (account_entry (actor_of b) ''update'' c None after
        (set_account c (\<lambda>a. a\<lparr>an_password_hash := Some hash, an_must_change := False, an_valid_after := Some now\<rparr>) s))"
    if "find_account s c = Some a" "\<not> an_disabled b"
      "b = a\<lparr>an_password_hash := Some hash, an_must_change := False, an_valid_after := Some now\<rparr>"
| create_workspace: "effect now (CreateWorkspace c name i) s
      (workspace_entry (actor_of a) ''create'' i None after
        (s\<lparr>db_workspaces := db_workspaces s @ [\<lparr>wk_id = i, wk_name = name\<rparr>]\<rparr>))"
    if "superuser_in s c a" "find_workspace s name = None" "i \<notin> wk_id ` set (db_workspaces s)"
| rename_workspace: "effect now (RenameWorkspace c old_name new_name) s
      (workspace_entry (actor_of a) ''update'' (wk_id w) before after
        (s\<lparr>db_workspaces := map (\<lambda>x. if wk_id x = wk_id w then x\<lparr>wk_name := new_name\<rparr> else x) (db_workspaces s),
           db_config_version := Suc (db_config_version s)\<rparr>))"
    if "superuser_in s c a" "find_workspace s old_name = Some w" "find_workspace s new_name = None"
| delete_workspace: "effect now (DeleteWorkspace c name) s
      (workspace_entry (actor_of a) ''delete'' (wk_id w) before None
        (s\<lparr>db_workspaces := filter (\<lambda>x. wk_id x \<noteq> wk_id w) (db_workspaces s),
           db_roles := filter (\<lambda>b. gr_workspace b \<noteq> wk_id w) (db_roles s),
           db_groups := filter (\<lambda>g. gg_workspace g \<noteq> wk_id w) (db_groups s),
           db_audit := map (\<lambda>e. if ae_workspace e = Some (wk_id w) then e\<lparr>ae_workspace := None\<rparr> else e) (db_audit s),
           db_config_version := db_config_version s + 5\<rparr>))"
    if "superuser_in s c a" "find_workspace s name = Some w" "1 < length (db_workspaces s)"
      "emptiness name (db_contents s (wk_id w)) = Ok ()"
| sign_up_setting: "effect now (SetSignUpOpen c is_open) s
      (audit (actor_of a) ''update'' ''setting'' None None before after (s\<lparr>db_sign_up_open := is_open\<rparr>))"
    if "superuser_in s c a"
| sign_up: "effect now (SignUp name hash note i) s (account_entry (actor_of a) ''create'' i None after (insert_account a s))"
    if "\<not> username_taken s i name" "db_sign_up_open s" "waiting_sign_ups s < max_waiting_sign_ups"
      "a = (local_account i name hash)\<lparr>an_last_sign_in := Some now, an_note := note, an_signed_up := True\<rparr>"
| sign_in: "effect now (RecordSignIn i verified) s (set_account i (\<lambda>a. a\<lparr>an_last_sign_in := Some now\<rparr>) s)"
| oidc_known: "effect now (UpsertOidc issuer subject name groups i) s
      (set_account (an_id a) (\<lambda>a. a\<lparr>an_display_name := shown, an_groups := groups,
             an_last_sign_in := (if an_disabled a then an_last_sign_in a else Some now)\<rparr>) s)"
    if "find (same_identity issuer subject) (db_users s) = Some a"
| oidc_new: "effect now (UpsertOidc issuer subject name groups i) s
      (insert_account (oidc_account now issuer subject shown groups i) s)"
    if "find (same_identity issuer subject) (db_users s) = None" "find_account s i = None"
| bootstrap: "effect now (Bootstrap name hash i) s (insert_account ((local_account i name hash)\<lparr>an_superuser := True\<rparr>) s)"
    if "db_users s = []"

text \<open>Each write is one of the rules.\<close>

lemma direct_roles_step: "try_set_direct_roles c t wanted s = (r, s') \<Longrightarrow> effect now (SetDirectRoles c t wanted) s s'"
  by (erule set_direct_roles_effect) (simp add: effect.same, rule effect.direct_roles)

lemma group_mapping_step: "try_write_group_mapping c w grp after s = (r, s') \<Longrightarrow> effect now (WriteGroupMapping c w grp after) s s'"
  by (erule group_mapping_effect) (simp add: effect.same, rule effect.group_mapping)

lemma create_account_step: "try_create_account c name su hash i s = (r, s') \<Longrightarrow> effect now (CreateAccount c name su hash i) s s'"
  by (erule create_account_effect) (auto intro: effect.same effect.create_account)

lemma reset_password_step: "try_reset_password now c i hash s = (r, s') \<Longrightarrow> effect now (ResetPassword c i hash) s s'"
  by (erule reset_password_effect) (auto intro: effect.same effect.reset_password)

lemma set_disabled_step: "try_set_disabled now c i b s = (r, s') \<Longrightarrow> effect now (SetDisabled c i b) s s'"
  by (erule set_disabled_effect) (auto intro: effect.same effect.set_disabled)

lemma set_superuser_step: "try_set_superuser now c i b s = (r, s') \<Longrightarrow> effect now (SetSuperuserFlag c i b) s s'"
  by (erule set_superuser_effect) (auto intro: effect.same effect.set_superuser)

lemma delete_account_step: "try_delete_account c i s = (r, s') \<Longrightarrow> effect now (DeleteAccount c i) s s'"
  by (erule delete_account_effect) (auto intro: effect.same effect.delete_account)

lemma change_own_step: "try_change_own_password now c verified hash s = (r, s') \<Longrightarrow> effect now (ChangeOwnPassword c verified hash) s s'"
  by (erule change_own_effect) (auto intro: effect.same effect.change_own)

lemma create_workspace_step: "try_create_workspace c name i s = (r, s') \<Longrightarrow> effect now (CreateWorkspace c name i) s s'"
  by (erule create_workspace_effect) (auto intro: effect.same effect.create_workspace)

lemma rename_workspace_step: "try_rename_workspace c old_name new_name s = (r, s') \<Longrightarrow> effect now (RenameWorkspace c old_name new_name) s s'"
  by (erule rename_workspace_effect) (auto intro: effect.same effect.rename_workspace)

lemma delete_workspace_step: "try_delete_workspace c name s = (r, s') \<Longrightarrow> effect now (DeleteWorkspace c name) s s'"
  by (erule delete_workspace_effect) (auto intro: effect.same effect.delete_workspace)

lemma sign_up_setting_step: "try_set_sign_up_open c is_open s = (r, s') \<Longrightarrow> effect now (SetSignUpOpen c is_open) s s'"
  by (erule set_sign_up_open_effect) (auto intro: effect.same effect.sign_up_setting)

lemma sign_up_step: "try_sign_up now name hash note i s = (r, s') \<Longrightarrow> effect now (SignUp name hash note i) s s'"
  by (erule sign_up_effect) (auto intro: effect.same effect.sign_up)

lemma sign_in_step: "record_sign_in now i verified s = (r, s') \<Longrightarrow> effect now (RecordSignIn i verified) s s'"
  by (erule record_sign_in_effect) (auto intro: effect.same effect.sign_in)

lemma oidc_step: "upsert_oidc_user now issuer subject name groups i s = (r, s') \<Longrightarrow> effect now (UpsertOidc issuer subject name groups i) s s'"
  by (erule upsert_effect) (auto intro: effect.same effect.oidc_known effect.oidc_new)

lemma bootstrap_step: "bootstrap_superuser name hash i s = (r, s') \<Longrightarrow> effect now (Bootstrap name hash i) s s'"
  by (erule bootstrap_effect) (auto intro: effect.same effect.bootstrap)

lemmas effect_steps =
  direct_roles_step [OF surjective_pairing] group_mapping_step [OF surjective_pairing]
  create_account_step [OF surjective_pairing] reset_password_step [OF surjective_pairing]
  set_disabled_step [OF surjective_pairing] set_superuser_step [OF surjective_pairing]
  delete_account_step [OF surjective_pairing] change_own_step [OF surjective_pairing]
  create_workspace_step [OF surjective_pairing] rename_workspace_step [OF surjective_pairing]
  delete_workspace_step [OF surjective_pairing] sign_up_setting_step [OF surjective_pairing]
  sign_up_step [OF surjective_pairing] sign_in_step [OF surjective_pairing]
  oidc_step [OF surjective_pairing] bootstrap_step [OF surjective_pairing]

lemma perform_effect: "effect now op s (snd (perform now op s))"
  by (cases op) (simp_all add: snd_outcome effect_steps)

section \<open>The tables stay well formed\<close>

text \<open>What an account keeps: its identifiers.\<close>

lemma set_account_ids: "(\<And>a. an_id (f a) = an_id a) \<Longrightarrow> map an_id (db_users (set_account i f s)) = map an_id (db_users s)"
  by auto

lemma db_ok_cong:
  assumes "db_ok s" "map an_id (db_users s') = map an_id (db_users s)" "db_workspaces s' = db_workspaces s"
    "db_roles s' = db_roles s" "db_groups s' = db_groups s"
  shows "db_ok s'"
  using assms unfolding db_ok_def by (metis list.set_map)

lemma db_ok_insert:
  assumes "db_ok s" "an_id a \<notin> an_id ` set (db_users s)" "db_users s' = db_users s @ [a]" "db_workspaces s' = db_workspaces s"
    "db_roles s' = db_roles s" "db_groups s' = db_groups s"
  shows "db_ok s'"
  using assms by (auto simp: db_ok_def)

lemma db_ok_account_added [simp]: "db_ok s \<Longrightarrow> an_id a \<notin> an_id ` set (db_users s) \<Longrightarrow> db_ok (insert_account a s)"
  by (rule db_ok_insert [of s a]) simp_all

lemma local_account_id [simp]: "an_id (local_account i name hash) = i"
  by (simp add: local_account_def)

lemma oidc_account_id [simp]: "an_id (oidc_account now issuer subject shown groups i) = i"
  by (simp add: oidc_account_def)

lemma username_free: "\<not> username_taken s i name \<Longrightarrow> i \<notin> an_id ` set (db_users s)"
  by (auto simp: username_taken_def list_ex_iff)

lemma new_roles_keys:
  assumes "b \<in> set (new_roles t (asked_changes s t wanted) bs)" "w = gr_workspace b"
  shows "grant_key b = (t, w) \<and> w \<in> fst ` set wanted \<or> grant_key b \<in> grant_key ` set bs"
proof -
  have "grant_key b \<in> fst ` set (map (\<lambda>(w, ch). ((t, w), ch)) (asked_changes s t wanted)) \<union> grant_key ` set bs"
    using grants.keys_fold [of "map (\<lambda>(w, ch). ((t, w), ch)) (asked_changes s t wanted)" bs] assms(1)
    unfolding new_roles_fold by blast
  then consider v ch where "(v, ch) \<in> set (asked_changes s t wanted)" "grant_key b = (t, v)" | "grant_key b \<in> grant_key ` set bs"
    by auto
  then show ?thesis
  proof cases
    case (1 v ch)
    with direct_changes_key [of "(v, ch)"] assms(2) show ?thesis by (auto simp: asked_changes_def grant_key_def)
  qed simp
qed

lemma db_ok_direct:
  assumes ok: "db_ok s" and d: "distinct (map fst wanted)" and t: "find_account s t = Some b"
    and sub: "fst ` set wanted \<subseteq> wk_id ` set (db_workspaces s)"
    and s': "s' = fold (write_direct actor t account names) (asked_changes s t wanted) s"
  shows "db_ok s'"
proof -
  let ?r = "new_roles t (asked_changes s t wanted) (db_roles s)"
  have keys: "grant_key b = (t, w) \<and> w \<in> fst ` set wanted \<or> grant_key b \<in> grant_key ` set (db_roles s)"
    if "b \<in> set ?r" "w = gr_workspace b" for b w
    by (rule new_roles_keys) (use that in simp_all)
  have refs: "gr_user ` set (db_roles s) \<subseteq> an_id ` set (db_users s)"
    "gr_workspace ` set (db_roles s) \<subseteq> wk_id ` set (db_workspaces s)" using ok by (simp_all add: db_ok_def)
  have "distinct (map grant_key ?r)"
    using grants.distinct_fold [OF asked_changes_ready [OF d]] ok by (simp add: new_roles_fold db_ok_def grant_key_def [abs_def])
  moreover have "gr_user ` set ?r \<subseteq> an_id ` set (db_users s)"
  proof clarify
    fix b assume "b \<in> set ?r"
    from keys [OF this refl] refs(1) find_account_Some [OF t] show "gr_user b \<in> an_id ` set (db_users s)"
      by (auto simp: grant_key_def)
  qed
  moreover have "gr_workspace ` set ?r \<subseteq> wk_id ` set (db_workspaces s)"
  proof clarify
    fix b assume "b \<in> set ?r"
    from keys [OF this refl] refs(2) sub show "gr_workspace b \<in> wk_id ` set (db_workspaces s)"
      by (auto simp: grant_key_def)
  qed
  ultimately show ?thesis using ok by (simp add: db_ok_def s' write_direct_fold grant_key_def [abs_def])
qed

lemma db_ok_mapping:
  assumes ok: "db_ok s" and w: "w \<in> wk_id ` set (db_workspaces s)"
    and before: "ch_before ch = group_role s grp w"
  shows "db_ok (s\<lparr>db_groups := write_mapping grp w ch (db_groups s)\<rparr>)"
proof -
  let ?g = "mappings.apply_change (grp, w) ch (db_groups s)"
  have "distinct (map mapping_key ?g)"
    using ok before by (intro mappings.distinct_apply) (simp_all add: db_ok_def mapping_key_def [abs_def] group_role_def)
  moreover have "gg_workspace ` set ?g \<subseteq> wk_id ` set (db_workspaces s)"
  proof clarify
    fix g assume "g \<in> set ?g"
    then have "mapping_key g \<in> insert (grp, w) (mapping_key ` set (db_groups s))"
      using mappings.keys_apply [of "(grp, w)" ch "db_groups s"] by blast
    moreover have "gg_workspace ` set (db_groups s) \<subseteq> wk_id ` set (db_workspaces s)" using ok by (simp add: db_ok_def)
    ultimately show "gg_workspace g \<in> wk_id ` set (db_workspaces s)" using w by (auto simp: mapping_key_def)
  qed
  ultimately show ?thesis using ok by (simp add: db_ok_def write_mapping_apply mapping_key_def [abs_def])
qed

lemma db_ok_audit [simp]: "db_ok (audit actor action kind obj ws before after s) = db_ok s"
  by (simp add: db_ok_def)

lemma db_ok_entries [simp]:
  "db_ok (account_entry actor action i before after s) = db_ok s"
  "db_ok (workspace_entry actor action i before after s) = db_ok s"
  by (simp_all add: account_entry_def workspace_entry_def)

lemma db_ok_set_account [simp]: "(\<And>a. an_id (f a) = an_id a) \<Longrightarrow> db_ok (set_account i f s) = db_ok s"
proof -
  assume f: "\<And>a. an_id (f a) = an_id a"
  have "map an_id (db_users (set_account i f s)) = map an_id (db_users s)" by (rule set_account_ids) (rule f)
  then show ?thesis using db_ok_cong [of s "set_account i f s"] db_ok_cong [of "set_account i f s" s] by auto
qed

lemma find_workspace_None: "find_workspace s name = None \<longleftrightarrow> name \<notin> wk_name ` set (db_workspaces s)"
  by (auto simp: find_workspace_def find_None_iff)

lemma renamed_ok:
  assumes "db_ok s" "find_workspace s new_name = None"
  shows "distinct (map wk_name (map (\<lambda>x. if wk_id x = i then x\<lparr>wk_name := new_name\<rparr> else x) (db_workspaces s)))"
proof -
  have gen: "distinct (map wk_id ws) \<Longrightarrow> distinct (map wk_name ws) \<Longrightarrow> new_name \<notin> wk_name ` set ws \<Longrightarrow>
      distinct (map wk_name (map (\<lambda>x. if wk_id x = i then x\<lparr>wk_name := new_name\<rparr> else x) ws))" for ws
  proof (induction ws)
    case (Cons x ws)
    have "wk_id x = i \<Longrightarrow> map (\<lambda>x. if wk_id x = i then x\<lparr>wk_name := new_name\<rparr> else x) ws = ws"
      using Cons.prems by (intro map_idI) (auto simp: image_iff)
    with Cons show ?case by (fastforce split: if_splits)
  qed simp
  show ?thesis by (rule gen) (use assms in \<open>simp_all add: db_ok_def find_workspace_None\<close>)
qed

lemma refs_filtered:
  assumes "f ` set xs \<subseteq> g ` set ys"
  shows "f ` set (filter (\<lambda>x. f x \<noteq> i) xs) \<subseteq> g ` set (filter (\<lambda>y. g y \<noteq> i) ys)"
proof clarify
  fix x assume "x \<in> set (filter (\<lambda>x. f x \<noteq> i) xs)"
  then have "f x \<in> g ` set ys" "f x \<noteq> i" using assms by auto
  then show "f x \<in> g ` set (filter (\<lambda>y. g y \<noteq> i) ys)" by force
qed

lemma refs_fewer: "f ` set xs \<subseteq> A \<Longrightarrow> f ` set (filter P xs) \<subseteq> A"
  by auto

lemma db_ok_account_deleted:
  assumes "db_ok s"
  shows "db_ok (s\<lparr>db_users := filter (\<lambda>a. an_id a \<noteq> i) (db_users s),
    db_roles := filter (\<lambda>b. gr_user b \<noteq> i) (db_roles s), db_audit := es\<rparr>)"
  using assms unfolding db_ok_def
  by (intro conjI; elim conjE; simp add: distinct_map_filter refs_filtered refs_fewer del: set_filter)

lemma db_ok_workspace_deleted:
  assumes "db_ok s"
  shows "db_ok (s\<lparr>db_workspaces := filter (\<lambda>x. wk_id x \<noteq> w) (db_workspaces s),
    db_roles := filter (\<lambda>b. gr_workspace b \<noteq> w) (db_roles s),
    db_groups := filter (\<lambda>g. gg_workspace g \<noteq> w) (db_groups s), db_audit := es,
    db_config_version := v\<rparr>)"
  using assms unfolding db_ok_def
  by (intro conjI; elim conjE; simp add: distinct_map_filter refs_filtered refs_fewer del: set_filter)

lemma db_ok_workspace_added:
  assumes "db_ok s" "find_workspace s name = None" "i \<notin> wk_id ` set (db_workspaces s)"
  shows "db_ok (s\<lparr>db_workspaces := db_workspaces s @ [\<lparr>wk_id = i, wk_name = name\<rparr>]\<rparr>)"
  using assms by (simp add: db_ok_def find_workspace_None subset_insertI2)

lemma db_ok_workspace_renamed:
  assumes "db_ok s" "find_workspace s name = None"
  shows "db_ok (s\<lparr>db_workspaces := map (\<lambda>x. if wk_id x = i then x\<lparr>wk_name := name\<rparr> else x) (db_workspaces s),
    db_config_version := v\<rparr>)"
proof -
  have ids: "map wk_id (map (\<lambda>x. if wk_id x = i then x\<lparr>wk_name := name\<rparr> else x) (db_workspaces s)) =
      map wk_id (db_workspaces s)" by simp
  have "wk_id ` set (map (\<lambda>x. if wk_id x = i then x\<lparr>wk_name := name\<rparr> else x) (db_workspaces s)) = wk_id ` set (db_workspaces s)"
    unfolding set_map [symmetric] ids ..
  with assms(1) renamed_ok [OF assms] ids show ?thesis by (simp add: db_ok_def del: map_map set_map)
qed

lemma effect_db_ok:
  assumes "effect now op s s'" "db_ok s" "operation_ok op"
  shows "db_ok s'"
  using assms
proof cases
  case (direct_roles c a t b wanted names)
  show ?thesis
    by (rule db_ok_direct [OF assms(2) _ direct_roles(4,7) direct_roles(8) [folded asked_changes_def]])
       (use assms(3) direct_roles(1) in simp)
next
  case (group_mapping c a w grp after ch name)
  have "ch_before ch = group_role s grp w"
    using group_mapping(6) by (auto simp: change_between_def group_role_def mappings.look_def mapping_key_def split: if_splits)
  with group_mapping assms(2) show ?thesis by (simp add: db_ok_mapping)
next
  case (create_account c a i name su hash after)
  from username_free [OF create_account(4)] assms(2) show ?thesis unfolding create_account(2) by simp
next
  case (delete_account c a i b before)
  with assms(2) show ?thesis by (simp add: db_ok_account_deleted)
next
  case (create_workspace c a name i after)
  with assms(2) show ?thesis by (simp add: db_ok_workspace_added)
next
  case (rename_workspace c a old_name w new_name before after)
  with assms(2) show ?thesis by (simp add: db_ok_workspace_renamed)
next
  case (delete_workspace c a name w before)
  with assms(2) show ?thesis by (simp add: db_ok_workspace_deleted)
next
  case (sign_up i name a hash n after)
  from username_free [OF sign_up(3)] assms(2) show ?thesis unfolding sign_up(2) by (simp add: sign_up(6))
next
  case (oidc_new issuer subject i name groups shown)
  with assms(2) show ?thesis by (simp add: find_account_None)
next
  case (bootstrap name hash i)
  with assms(2) show ?thesis by simp
next
  case (sign_up_setting c a is_open before after)
  with assms(2) show ?thesis by (simp add: db_ok_def)
qed (use assms(2) in simp_all)

lemma history_db_ok: "history s es s' \<Longrightarrow> db_ok s \<Longrightarrow> db_ok s'"
  by (induction rule: history.induct) (use effect_db_ok perform_effect in blast)+

section \<open>A superuser is left\<close>

lemma enabled_superusers_iff: "enabled_superusers s \<noteq> [] \<longleftrightarrow> (\<exists>a \<in> set (db_users s). an_superuser a \<and> \<not> an_disabled a)"
  by (auto simp: enabled_superusers_def filter_empty_conv)

text \<open>An account other than the one a write is about keeps its flags.\<close>

lemma set_account_others: "a \<in> set (db_users s) \<Longrightarrow> an_id a \<noteq> i \<Longrightarrow> a \<in> set (db_users (set_account i f s))"
  by (auto simp: image_iff intro!: bexI [of _ a])

lemma set_account_member: "a \<in> set (db_users s) \<Longrightarrow> (if an_id a = i then f a else a) \<in> set (db_users (set_account i f s))"
  unfolding set_account_simps set_map by (rule imageI)

lemma set_account_flags:
  assumes "enabled_superusers s \<noteq> []" "\<And>a. an_superuser a \<Longrightarrow> an_superuser (f a)" "\<And>a. \<not> an_disabled a \<Longrightarrow> \<not> an_disabled (f a)"
  shows "enabled_superusers (set_account i f s) \<noteq> []"
proof -
  from assms(1) obtain a where a: "a \<in> set (db_users s)" "an_superuser a" "\<not> an_disabled a" by (auto simp: enabled_superusers_iff)
  show ?thesis unfolding enabled_superusers_iff
    using set_account_member [OF a(1), of i f] a assms(2,3) by (intro bexI) auto
qed

lemma superuser_stays:
  assumes "superuser_in s c a" "c \<noteq> i"
  shows "enabled_superusers (set_account i f s) \<noteq> []"
  using assms set_account_others [of a s i f] find_account_Some [of s c a]
  by (auto simp: enabled_superusers_iff superuser_in_def simp del: set_account_simps)

lemma enabled_superusers_entry [simp]:
  "enabled_superusers (account_entry actor action i before after s) = enabled_superusers s"
  "enabled_superusers (workspace_entry actor action i before after s) = enabled_superusers s"
  "enabled_superusers (audit actor action kind obj ws before after s) = enabled_superusers s"
  by (simp_all add: enabled_superusers_def)

lemma effect_superuser_left:
  assumes "effect now op s s'" "enabled_superusers s \<noteq> []"
  shows "enabled_superusers s' \<noteq> []"
  using assms
proof cases
  case (set_disabled c a i b disabled before after)
  then show ?thesis
    by (cases disabled) (use assms(2) in \<open>simp_all add: superuser_stays set_account_flags\<close>)
next
  case (set_superuser c a i b su before after)
  then show ?thesis
    by (cases su) (use assms(2) in \<open>simp_all add: superuser_stays set_account_flags\<close>)
next
  case (delete_account c a i b before)
  with find_account_Some [of s c a] show ?thesis by (auto simp: enabled_superusers_iff superuser_in_def)
next
  case (direct_roles c a t b wanted names)
  with assms(2) show ?thesis by (simp add: enabled_superusers_def write_direct_fold)
next
  case (bootstrap name hash i)
  with assms(2) show ?thesis by (simp add: enabled_superusers_def)
qed (use assms(2) in \<open>simp_all add: set_account_flags\<close>, use assms(2) in \<open>simp_all add: enabled_superusers_def\<close>)

lemma history_superuser_left: "history s es s' \<Longrightarrow> enabled_superusers s \<noteq> [] \<Longrightarrow> enabled_superusers s' \<noteq> []"
  by (induction rule: history.induct) (use effect_superuser_left perform_effect in blast)+

section \<open>Who may change a role\<close>

text \<open>The role an account has in a workspace, by every way it may have one.\<close>

definition role_in :: "db \<Rightarrow> uuid \<Rightarrow> uuid \<Rightarrow> role option" where
  "role_in s i w =
     (case find_account s i of None \<Rightarrow> None | Some a \<Rightarrow> map_option ac_role (effective (access_rows s) (user_of a) w))"

lemma role_in_cong:
  assumes "rel_option (\<lambda>a b. an_id a = an_id b \<and> an_superuser a = an_superuser b \<and> an_disabled a = an_disabled b \<and>
      an_groups a = an_groups b) (find_account s' i) (find_account s i)"
    "filter (\<lambda>g. gr_workspace g = w) (db_roles s') = filter (\<lambda>g. gr_workspace g = w) (db_roles s)"
    "filter (\<lambda>g. gg_workspace g = w) (db_groups s') = filter (\<lambda>g. gg_workspace g = w) (db_groups s)"
  shows "role_in s' i w = role_in s i w"
proof -
  have two: "filter (\<lambda>g. P g \<and> gr_workspace g = w) xs = filter P (filter (\<lambda>g. gr_workspace g = w) xs)"
    "filter (\<lambda>g. gg_workspace g = w \<and> Q g) ys = filter Q (filter (\<lambda>g. gg_workspace g = w) ys)" for P Q xs ys
    by (simp_all add: conj_commute)
  show ?thesis
    using assms(1) unfolding role_in_def
    by (cases "find_account s' i"; cases "find_account s i")
       (simp_all add: effective_role sources_of_def two assms(2,3) del: filter_filter)
qed

text \<open>The account a write names, in a table where only that account changed.\<close>

lemma find_insert_account: "find_account (insert_account a s) i =
    (case find_account s i of Some b \<Rightarrow> Some b | None \<Rightarrow> if an_id a = i then Some a else None)"
  by (simp add: find_account_def find_append split: option.split)

lemma same_users: "db_users s' = db_users s \<Longrightarrow> find_account s' i = find_account s i"
  by (simp add: find_account_def)

lemma set_account_kept:
  assumes "\<And>a. an_id (f a) = an_id a" "\<And>a. an_superuser (f a) = an_superuser a" "\<And>a. an_disabled (f a) = an_disabled a"
    "j = i \<Longrightarrow> (\<And>a. an_groups (f a) = an_groups a)"
  shows "role_in (set_account i f s) j w = role_in s j w"
proof (rule role_in_cong)
  show "rel_option (\<lambda>a b. an_id a = an_id b \<and> an_superuser a = an_superuser b \<and> an_disabled a = an_disabled b \<and>
      an_groups a = an_groups b) (find_account (set_account i f s) j) (find_account s j)"
  proof (cases "j = i")
    case False
    with assms(1) show ?thesis by (simp add: find_set_account_other option.rel_refl)
  next
    case True
    then show ?thesis
    proof (cases "find_account s i")
      case None
      then have "find_account (set_account i f s) i = None" using set_account_ids [of f i s] assms(1)
        by (metis find_account_None list.set_map)
      with None True show ?thesis by simp
    next
      case (Some a)
      with True assms find_set_account_same [OF Some, of f] show ?thesis by simp
    qed
  qed
qed simp_all

lemma new_roles_elsewhere:
  assumes "w \<notin> fst ` set wanted"
  shows "filter (\<lambda>b. gr_workspace b = w) (new_roles t (asked_changes s t wanted) bs) = filter (\<lambda>b. gr_workspace b = w) bs"
proof -
  have one: "v \<noteq> w \<Longrightarrow> filter (\<lambda>b. gr_workspace b = w) (write_grant t v ch bs) = filter (\<lambda>b. gr_workspace b = w) bs" for v ch bs
  proof -
    have "v \<noteq> w \<Longrightarrow> filter (\<lambda>b. gr_workspace b = w) (map (\<lambda>b. if gr_user b = t \<and> gr_workspace b = v then b\<lparr>gr_role := r\<rparr> else b) bs) =
        filter (\<lambda>b. gr_workspace b = w) bs" for r
      by (induction bs) auto
    moreover have "v \<noteq> w \<Longrightarrow> filter (\<lambda>b. gr_workspace b = w) (filter (\<lambda>b. \<not> (gr_user b = t \<and> gr_workspace b = v)) bs) =
        filter (\<lambda>b. gr_workspace b = w) bs"
      by (induction bs) auto
    ultimately show "v \<noteq> w \<Longrightarrow> filter (\<lambda>b. gr_workspace b = w) (write_grant t v ch bs) = filter (\<lambda>b. gr_workspace b = w) bs"
      by (auto simp: write_grant_def split: option.splits)
  qed
  have "w \<notin> fst ` set changes \<Longrightarrow> filter (\<lambda>b. gr_workspace b = w) (new_roles t changes bs) = filter (\<lambda>b. gr_workspace b = w) bs" for changes bs
    unfolding new_roles_def by (induction changes arbitrary: bs) (auto simp: one)
  moreover have "w \<notin> fst ` set (asked_changes s t wanted)"
    using assms direct_changes_keys [of "held_roles s t (fst ` set wanted)" wanted] unfolding asked_changes_def by blast
  ultimately show ?thesis by simp
qed

end
