(* ===== verification/Authority_Rights.thy ===== *)
theory Authority_Rights
  imports Authority_Steps
begin

text \<open>
  What a write may do to others: a role changes only by those who may change it, a write leaves its
  entry in the log, a session that was cut off stays cut off, and a workspace keeps an admin.
\<close>

section \<open>Roles\<close>

lemma role_in_same:
  assumes "find_account s' i = find_account s i"
    "filter (\<lambda>g. gr_workspace g = w) (db_roles s') = filter (\<lambda>g. gr_workspace g = w) (db_roles s)"
    "filter (\<lambda>g. gg_workspace g = w) (db_groups s') = filter (\<lambda>g. gg_workspace g = w) (db_groups s)"
  shows "role_in s' i w = role_in s i w"
  by (rule role_in_cong) (use assms in \<open>auto intro: option.rel_refl\<close>)

lemma role_in_entries [simp]:
  "role_in (account_entry actor action i before after s) j w = role_in s j w"
  "role_in (workspace_entry actor action i before after s) j w = role_in s j w"
  "role_in (audit actor action kind obj ws before after s) j w = role_in s j w"
  by (rule role_in_same; simp add: find_account_def)+

lemma role_in_new:
  assumes "db_ok s" "find_account s i = None" "an_id a = i" "\<not> an_superuser a" "an_groups a = []"
  shows "role_in (insert_account a s) j w = role_in s j w"
proof (cases "j = i")
  case True
  have "b \<notin> set (db_roles s)" if "gr_user b = i" for b
    using assms(1,2) that unfolding find_account_None db_ok_def by blast
  then have "sources_of (access_rows (insert_account a s)) (user_of a) w = []"
    using assms by (auto simp: sources_of_def filter_empty_conv)
  with True assms show ?thesis by (simp add: role_in_def find_insert_account effective_role)
next
  case False
  with assms(3) show ?thesis
    by (intro role_in_same) (simp_all add: find_insert_account split: option.split)
qed

lemma write_mapping_elsewhere:
  assumes "v \<noteq> w"
  shows "filter (\<lambda>g. gg_workspace g = w) (write_mapping grp v ch gs) = filter (\<lambda>g. gg_workspace g = w) gs"
proof -
  have "filter (\<lambda>g. gg_workspace g = w) (map (\<lambda>b. if gg_group b = grp \<and> gg_workspace b = v then b\<lparr>gg_role := r\<rparr> else b) gs) =
      filter (\<lambda>g. gg_workspace g = w) gs" for r
    using assms by (induction gs) auto
  moreover have "filter (\<lambda>g. gg_workspace g = w) (filter (\<lambda>b. \<not> (gg_group b = grp \<and> gg_workspace b = v)) gs) =
      filter (\<lambda>g. gg_workspace g = w) gs"
    using assms by (induction gs) auto
  ultimately show ?thesis using assms by (auto simp: write_mapping_def split: option.splits)
qed

text \<open>An identity provider's sign-in changes the account of that identity and no binding.\<close>

definition own_sign_in :: "operation \<Rightarrow> db \<Rightarrow> db \<Rightarrow> uuid \<Rightarrow> bool" where
  "own_sign_in op s s' i \<longleftrightarrow> db_roles s' = db_roles s \<and> db_groups s' = db_groups s \<and>
     (\<exists>issuer subject name groups k a. op = UpsertOidc issuer subject name groups k \<and>
        find_account s' i = Some a \<and> same_identity issuer subject a \<and> an_groups a = groups)"

lemma effect_role:
  assumes "effect now op s s'" "db_ok s" "role_in s' i w \<noteq> role_in s i w"
  shows "(\<exists>c. caller_of op = Some c \<and> administers s c w) \<or> own_sign_in op s s' i \<or> db_users s = []"
  using assms
proof cases
  case (direct_roles c a t b wanted names)
  have "w \<in> fst ` set wanted"
  proof (rule ccontr)
    assume "w \<notin> fst ` set wanted"
    from new_roles_elsewhere [OF this, of t s "db_roles s"] have "role_in s' i w = role_in s i w"
      unfolding direct_roles(8) by (intro role_in_same) (simp_all add: find_account_def write_direct_fold asked_changes_def)
    with assms(3) show False by simp
  qed
  with direct_roles(1,5) show ?thesis by auto
next
  case (group_mapping c a v grp after ch name)
  have "v = w"
  proof (rule ccontr)
    assume "v \<noteq> w"
    from write_mapping_elsewhere [OF this, of grp ch "db_groups s"] have "role_in s' i w = role_in s i w"
      unfolding group_mapping(7) by (intro role_in_same) (simp_all add: find_account_def)
    with assms(3) show False by simp
  qed
  with group_mapping show ?thesis by simp
next
  case (change_own c a b hash verified after)
  then have "role_in s' i w = role_in s i w" by (simp add: set_account_kept)
  with assms(3) show ?thesis by simp
next
  case (sign_up k name a hash n after)
  have "find_account s k = None" using username_free [OF sign_up(3)] by (simp add: find_account_None)
  then have "role_in s' i w = role_in s i w"
    unfolding sign_up(2,6) using assms(2) by (simp add: role_in_new local_account_def)
  with assms(3) show ?thesis by simp
next
  case (sign_in k verified)
  then have "role_in s' i w = role_in s i w" by (simp add: set_account_kept)
  with assms(3) show ?thesis by simp
next
  case (oidc_known issuer subject a name groups k shown)
  let ?f = "\<lambda>a. a\<lparr>an_display_name := shown, an_groups := groups,
    an_last_sign_in := (if an_disabled a then an_last_sign_in a else Some now)\<rparr>"
  have i: "i = an_id a"
  proof (rule ccontr)
    assume "i \<noteq> an_id a"
    then have "role_in s' i w = role_in s i w" unfolding oidc_known(2) by (intro set_account_kept) simp_all
    with assms(3) show False by simp
  qed
  have a: "a \<in> set (db_users s)" "same_identity issuer subject a" using find_SomeD [OF oidc_known(3)] by simp_all
  then have "find_account s i = Some a" using find_account_iff [OF assms(2)] i by simp
  from find_set_account_same [OF this, of ?f] have "find_account s' i = Some (?f a)" unfolding oidc_known(2) i by simp
  then have "own_sign_in op s s' i"
    unfolding own_sign_in_def oidc_known(1) using a(2) by (auto simp: oidc_known(2) same_identity_def)
  then show ?thesis by simp
next
  case (oidc_new issuer subject k name groups shown)
  have "i = k"
  proof (rule ccontr)
    assume "i \<noteq> k"
    then have "role_in s' i w = role_in s i w" unfolding oidc_new(2)
      by (intro role_in_same) (simp_all add: find_insert_account split: option.split)
    with assms(3) show False by simp
  qed
  then have "own_sign_in op s s' i" unfolding own_sign_in_def oidc_new(1,2) using oidc_new(4)
    by (simp add: find_insert_account same_identity_def oidc_account_def)
  then show ?thesis by simp
qed (use assms(3) superuser_administers in \<open>auto\<close>)

section \<open>The log\<close>

text \<open>An entry but for the references a deletion sets to null.\<close>

definition ae_core :: "audit_entry \<Rightarrow> audit_entry" where
  "ae_core e = e\<lparr>ae_actor := None, ae_workspace := None\<rparr>"

lemma ae_core_nulled [simp]:
  "ae_core \<circ> (\<lambda>e. if P e then e\<lparr>ae_actor := None\<rparr> else e) = ae_core"
  "ae_core \<circ> (\<lambda>e. if P e then e\<lparr>ae_workspace := None\<rparr> else e) = ae_core"
  by (auto simp: ae_core_def)

lemma account_audit [simp]: "db_audit (set_account i f s) = db_audit s" "db_audit (insert_account a s) = db_audit s"
  by (simp_all add: set_account_def insert_account_def)

definition logged :: "(audit_entry \<Rightarrow> bool) \<Rightarrow> db \<Rightarrow> db \<Rightarrow> bool" where
  "logged P s s' \<longleftrightarrow> (\<exists>old new. db_audit s' = old @ new \<and> map ae_core old = map ae_core (db_audit s) \<and> new \<noteq> [] \<and> list_all P new)"

lemma logged_audit:
  "map ae_core (db_audit s1) = map ae_core (db_audit s) \<Longrightarrow>
   P \<lparr>ae_actor = Some (us_id actor), ae_actor_name = us_name actor, ae_actor_method = us_method actor,
          ae_action = action, ae_kind = kind, ae_object = obj, ae_workspace = ws, ae_before = before, ae_after = after\<rparr> \<Longrightarrow>
   logged P s (audit actor action kind obj ws before after s1)"
  unfolding logged_def audit_def by (rule exI [of _ "db_audit s1"]) simp

lemma logged_fold:
  assumes "\<And>e. ae_actor e = Some (us_id actor) \<Longrightarrow> ae_actor_name e = us_name actor \<Longrightarrow> P e"
  shows "changes \<noteq> [] \<Longrightarrow> logged P s (fold (write_direct actor t account names) changes s)"
proof -
  have "\<exists>new. db_audit (fold (write_direct actor t account names) changes s) = db_audit s @ new \<and>
      length new = length changes \<and> list_all P new" for s changes
  proof (induction changes arbitrary: s)
    case (Cons c changes)
    obtain e where e: "db_audit (write_direct actor t account names c s) = db_audit s @ [e]" "P e"
      by (cases c) (simp add: write_direct_def audit_def Let_def assms)
    from Cons.IH [of "write_direct actor t account names c s"] e show ?case by auto
  qed simp
  then show "changes \<noteq> [] \<Longrightarrow> ?thesis" unfolding logged_def by (metis length_0_conv)
qed

definition entry_of :: "uuid \<Rightarrow> account \<Rightarrow> audit_entry \<Rightarrow> bool" where
  "entry_of c a e \<longleftrightarrow> ae_actor e = Some c \<and> ae_actor_name e = account_name a"

lemma entry_ofI:
  "find_account s c = Some a \<Longrightarrow> ae_actor e = Some (us_id (actor_of a)) \<Longrightarrow> ae_actor_name e = us_name (actor_of a) \<Longrightarrow> entry_of c a e"
  using find_account_Some [of s c a] by (simp add: entry_of_def)

lemma effect_logged:
  assumes "effect now op s s'" "caller_of op = Some c" "s' \<noteq> s"
  shows "\<exists>a. find_account s c = Some a \<and> logged (entry_of c a) s s'"
  using assms
proof cases
  case (direct_roles c' a t b wanted names)
  have "an_id a = c" using find_account_Some [OF direct_roles(2)] direct_roles(1) assms(2) by simp
  then have "logged (entry_of c a) s s'"
    unfolding direct_roles(8) using assms(3) direct_roles(8)
    by (intro logged_fold) (auto simp: entry_of_def)
  with direct_roles assms(2) show ?thesis by auto
next
  case (change_own c' a b hash verified after)
  have "account_name b = account_name a" "an_id b = an_id a"
    unfolding change_own(5) by (simp_all add: account_name_def cong: option.case_cong)
  with change_own assms(2) find_account_Some [of s c a] show ?thesis
    by (auto simp: account_entry_def entry_of_def intro!: logged_audit)
qed (use assms(2,3) in \<open>auto simp: account_entry_def workspace_entry_def superuser_in_def intro!: logged_audit entry_ofI\<close>)

text \<open>Whatever happens, the log keeps what it held.\<close>

lemma effect_log_kept: "effect now op s s' \<Longrightarrow> \<exists>new. map ae_core (db_audit s') = map ae_core (db_audit s) @ new"
proof (cases "caller_of op")
  case (Some c)
  assume e: "effect now op s s'"
  show ?thesis
  proof (cases "s' = s")
    case False
    with effect_logged [OF e Some] obtain P where "logged P s s'" by blast
    then obtain old new where "db_audit s' = old @ new" "map ae_core old = map ae_core (db_audit s)" by (auto simp: logged_def)
    then show ?thesis by simp
  qed simp
next
  case None
  assume "effect now op s s'"
  then show ?thesis by cases (use None in \<open>auto simp: account_entry_def audit_def\<close>)
qed

lemma history_log_kept: "history s es s' \<Longrightarrow> \<exists>new. map ae_core (db_audit s') = map ae_core (db_audit s) @ new"
proof (induction rule: history.induct)
  case (step s es s' now op s'')
  with effect_log_kept [OF perform_effect [of now op s']] show ?case by auto
qed simp

section \<open>Sessions\<close>

text \<open>An account every session of which issued before a time is refused; a deleted account is one.\<close>

definition cut_off :: "db \<Rightarrow> uuid \<Rightarrow> int \<Rightarrow> bool" where
  "cut_off s i t \<longleftrightarrow> (\<forall>a \<in> set (db_users s). an_id a = i \<longrightarrow> (\<exists>v. an_valid_after a = Some v \<and> t \<le> v))"

lemma cut_off_refuses:
  assumes "cut_off s i t" "parse_uuid (se_subject ses) = Some i" "uint (se_issued_at ses) < t div 1000"
  shows "signed_in parse_uuid s (Some ses) = Err (CallerStatus 401)"
proof -
  have "\<not> session_current (se_issued_at ses) (us_sessions_valid_after u)"
    if u: "u \<in> set (rw_users (access_rows s))" "us_id u = i" for u
  proof -
    obtain a where a: "a \<in> set (db_users s)" "u = user_of a" using u by auto
    with u assms(1) obtain v where v: "an_valid_after a = Some v" "t \<le> v" by (auto simp: cut_off_def)
    have "t div 1000 \<le> v div 1000" using v(2) by (rule zdiv_mono1) simp
    with a v assms(3) show ?thesis by (simp add: session_current_def)
  qed
  then have "find (\<lambda>u. us_id u = i \<and> \<not> us_disabled u \<and> session_current (se_issued_at ses) (us_sessions_valid_after u))
      (rw_users (access_rows s)) = None"
    unfolding find_None_iff by blast
  with assms(2) show ?thesis by (simp add: signed_in_def)
qed

lemma cut_off_set_account:
  assumes "cut_off s i t" "\<And>a. an_id (f a) = an_id a" "\<And>a. an_valid_after (f a) = an_valid_after a \<or> (\<exists>v. an_valid_after (f a) = Some v \<and> t \<le> v)"
  shows "cut_off (set_account j f s) i t"
  unfolding cut_off_def
proof clarify
  fix a assume "a \<in> set (db_users (set_account j f s))" "i = an_id a"
  then obtain b where b: "b \<in> set (db_users s)" "a = (if an_id b = j then f b else b)" by (auto split: if_splits)
  with assms(1) \<open>i = an_id a\<close> assms(2) obtain v where "an_valid_after b = Some v" "t \<le> v" by (auto simp: cut_off_def split: if_splits)
  with b assms(3) [of b] show "\<exists>v. an_valid_after a = Some v \<and> t \<le> v" by auto
qed

lemma cut_off_users: "cut_off s i t \<Longrightarrow> set (db_users s') \<subseteq> set (db_users s) \<Longrightarrow> cut_off s' i t"
  by (auto simp: cut_off_def)

lemma cut_off_entries [simp]:
  "cut_off (account_entry actor action j before after s) i t = cut_off s i t"
  "cut_off (workspace_entry actor action j before after s) i t = cut_off s i t"
  "cut_off (audit actor action kind obj ws before after s) i t = cut_off s i t"
  by (simp_all add: cut_off_def)

lemma cut_off_insert [simp]: "an_id a \<noteq> i \<Longrightarrow> cut_off (insert_account a s) i t = cut_off s i t"
  by (simp add: cut_off_def)

lemma effect_cut_off:
  assumes "effect now op s s'" "cut_off s i t" "t \<le> now" "drawn op \<noteq> Some i"
  shows "cut_off s' i t"
  using assms
proof cases
  case (direct_roles c a k b wanted names)
  show ?thesis by (rule cut_off_users [OF assms(2)]) (simp add: direct_roles(8) write_direct_fold)
next
  case (delete_account c a k b before)
  with assms(2) show ?thesis by (auto simp: cut_off_def)
qed (use assms(2-4) in \<open>simp_all add: cut_off_set_account\<close>, use assms(2) in \<open>simp_all add: cut_off_def\<close>)

lemma history_cut_off:
  "history s es s' \<Longrightarrow> cut_off s i t \<Longrightarrow> \<forall>(now, op) \<in> set es. t \<le> now \<and> drawn op \<noteq> Some i \<Longrightarrow> cut_off s' i t"
proof (induction rule: history.induct)
  case (step s es s' now op s'')
  then show ?case using effect_cut_off [OF perform_effect [of now op s'], of i t] by auto
qed simp

text \<open>The writes that cut an account's sessions off: what they did, when they changed something.\<close>

fun cuts_off :: "operation \<Rightarrow> db \<Rightarrow> uuid \<Rightarrow> bool" where
  "cuts_off (ResetPassword _ i _) s j = (i = j)"
| "cuts_off (SetDisabled _ i b) s j = (i = j \<and> (\<exists>a. find_account s i = Some a \<and> an_disabled a \<noteq> b))"
| "cuts_off (SetSuperuserFlag _ i b) s j = (i = j \<and> \<not> b \<and> (\<exists>a. find_account s i = Some a \<and> an_superuser a))"
| "cuts_off (DeleteAccount _ i) s j = (i = j)"
| "cuts_off (ChangeOwnPassword i _ _) s j = (i = j)"
| "cuts_off _ s j = False"

lemma cut_off_now: "(\<And>a. an_id (f a) = an_id a) \<Longrightarrow> (\<And>a. an_valid_after (f a) = Some t) \<Longrightarrow> cut_off (set_account i f s) i t"
  by (auto simp: cut_off_def)

lemma perform_cuts_off:
  assumes "perform now op s = (None, s')" "cuts_off op s i"
  shows "cut_off s' i now"
proof (cases op)
  case (ResetPassword c j hash)
  with assms obtain v where "try_reset_password now c i hash s = (Ok v, s')" by (auto simp: outcome_None)
  then show ?thesis by (rule reset_password_effect) (simp_all add: cut_off_now)
next
  case (SetDisabled c j b)
  with assms obtain v where "try_set_disabled now c i b s = (Ok v, s')" by (auto simp: outcome_None)
  then show ?thesis by (rule set_disabled_effect) (use assms(2) SetDisabled in \<open>auto simp: cut_off_now\<close>)
next
  case (SetSuperuserFlag c j b)
  with assms obtain v where "try_set_superuser now c i b s = (Ok v, s')" by (auto simp: outcome_None)
  then show ?thesis by (rule set_superuser_effect) (use assms(2) SetSuperuserFlag in \<open>auto simp: cut_off_now\<close>)
next
  case (DeleteAccount c j)
  with assms obtain v where "try_delete_account c i s = (Ok v, s')" by (auto simp: outcome_None)
  then show ?thesis by (rule delete_account_effect) (simp_all add: cut_off_def)
next
  case (ChangeOwnPassword c verified hash)
  with assms obtain v where "try_change_own_password now i verified hash s = (Ok v, s')" by (auto simp: outcome_None)
  then show ?thesis by (rule change_own_effect) (simp_all add: cut_off_now)
qed (use assms(2) in simp_all)

section \<open>A workspace keeps an admin\<close>

text \<open>The workspaces whose bindings a request writes.\<close>

fun workspaces_written :: "operation \<Rightarrow> uuid set" where
  "workspaces_written (SetDirectRoles _ _ wanted) = fst ` set wanted"
| "workspaces_written (WriteGroupMapping _ w _ _) = {w}"
| "workspaces_written _ = {}"

lemma administers_left:
  assumes "administers s c w" "find_account s c = Some a" "\<not> an_superuser a"
  shows "an_admin_is_left s w"
proof -
  have "a \<in> set (db_users s)" "an_id a = c" using find_account_Some [OF assms(2)] by simp_all
  moreover have "admin_of (access_rows s) (user_of a) w" using assms(1,2) by (simp add: administers_def)
  ultimately show ?thesis using assms(3) unfolding admin_of_iff an_admin_is_left_def list_ex_iff by auto
qed

lemma keeps_an_admin_left: "keeps_an_admin s actor ws = Ok () \<Longrightarrow> \<not> us_superuser actor \<Longrightarrow> w \<in> set ws \<Longrightarrow> an_admin_is_left s w"
  by (auto simp: keeps_an_admin_def list_all_iff split: if_splits)

lemma group_mapping_left:
  assumes "try_write_group_mapping c w grp after s = (Ok v, s')" "find_account s c = Some a" "\<not> an_superuser a"
  shows "an_admin_is_left s' w"
  using assms(1)
proof (rule group_mapping_effect)
  assume s': "s' = s"
  obtain actor names where "authorise_again s c {w} = Ok (actor, names)"
    using assms(1) by (auto simp: try_write_group_mapping_def split: sum.splits)
  from authorise_again_Ok [OF this] have "administers s c w" by auto
  from this assms(2,3) show ?thesis unfolding s' by (rule administers_left)
next
  fix b ch name
  assume "find_account s c = Some b" "keeps_an_admin s' (actor_of b) [w] = Ok ()"
  with assms(2,3) show ?thesis using keeps_an_admin_left [of s' "actor_of b" "[w]" w] by simp
qed

lemma direct_roles_left:
  assumes "try_set_direct_roles c t wanted s = (Ok v, s')" "find_account s c = Some a" "\<not> an_superuser a" "w \<in> fst ` set wanted"
  shows "an_admin_is_left s' w"
  using assms(1)
proof (rule set_direct_roles_effect)
  fix b d names
  assume "find_account s c = Some b" "keeps_an_admin s' (actor_of b) (map fst names) = Ok ()" "fst ` set names = fst ` set wanted"
  with assms(2-4) show ?thesis using keeps_an_admin_left [of s' "actor_of b" "map fst names" w] by simp
qed simp

lemma perform_admin_left:
  assumes "perform now op s = (None, s')" "caller_of op = Some c" "find_account s c = Some a" "\<not> an_superuser a"
    "w \<in> workspaces_written op"
  shows "an_admin_is_left s' w"
proof (cases op)
  case (SetDirectRoles c' t wanted)
  with assms show ?thesis by (auto simp: outcome_None intro: direct_roles_left)
next
  case (WriteGroupMapping c' v grp after)
  with assms show ?thesis by (auto simp: outcome_None intro: group_mapping_left)
qed (use assms(5) in simp_all)

text \<open>An admin that is left is one by the role the console computes.\<close>

lemma admin_left_role:
  assumes "db_ok s" "an_admin_is_left s w"
  shows "\<exists>u b. find_account s u = Some b \<and> \<not> an_disabled b \<and> \<not> an_superuser b \<and> role_in s u w = Some Admin"
proof -
  from assms(2) obtain b where b: "b \<in> set (db_users s)" "\<not> an_disabled b" "\<not> an_superuser b"
    and "admin_of (access_rows s) (user_of b) w"
    unfolding an_admin_is_left_def admin_of_iff list_ex_iff by auto
  moreover from b(1) have "find_account s (an_id b) = Some b" using find_account_iff [OF assms(1)] by simp
  ultimately show ?thesis by (intro exI [of _ "an_id b"] exI [of _ b]) (auto simp: role_in_def admin_of_def)
qed

end
