(* ===== verification/Authority_Props.thy ===== *)
theory Authority_Props
  imports Authority_Rights
begin

text \<open>
  What the console's writes guarantee: the tables keep their keys and references, an enabled superuser is left whatever is done, a role changes only through those who
  administer the workspace, a workspace a non-superuser writes keeps an admin, a write is in the log,
  and a session cut off stays cut off. Each property has an instance on the tables \<open>demo\<close>.
\<close>

section \<open>Tables to try the properties on\<close>

definition demo_account :: "uuid \<Rightarrow> string \<Rightarrow> bool \<Rightarrow> account" where
  "demo_account i name su = (local_account i name ''hash'')\<lparr>an_superuser := su\<rparr>"

definition demo :: db where
  "demo = \<lparr>db_users = [demo_account 1 ''root'' True, demo_account 2 ''ana'' False, demo_account 3 ''bo'' False],
     db_workspaces = [\<lparr>wk_id = 10, wk_name = ''main''\<rparr>, \<lparr>wk_id = 11, wk_name = ''edge''\<rparr>],
     db_roles = [\<lparr>gr_user = 2, gr_workspace = 10, gr_role = Admin\<rparr>],
     db_groups = [], db_audit = [], db_sign_up_open = False,
     db_contents = (\<lambda>_. \<lparr>cn_services = 0, cn_routes = 0, cn_consumers = 0, cn_policies = 0, cn_certificates = 0\<rparr>),
     db_config_version = 1\<rparr>"

lemma demo_ok: "db_ok demo"
  by (simp add: demo_def db_ok_def demo_account_def)

lemma history_one: "operation_ok op \<Longrightarrow> history s [(now, op)] (snd (perform now op s))"
  using history.step [OF history.empty, of now op s "snd (perform now op s)"] by simp

text \<open>Ana, who administers \<open>main\<close>, makes Bo a viewer there; root disables Ana.\<close>

definition ana_grants :: operation where "ana_grants = SetDirectRoles 2 3 [(10, Some Viewer)]"

definition root_disables :: operation where "root_disables = SetDisabled 1 2 True"

lemma ana_grants_ok: "perform 5000000 ana_grants demo = (None, snd (perform 5000000 ana_grants demo))"
proof -
  have "fst (perform 5000000 ana_grants demo) = None"
    by (simp add: ana_grants_def demo_def demo_account_def local_account_def outcome_of_def try_set_direct_roles_def
          authorise_again_def rights_def find_account_def actor_of_def authorise_def grantable_def effective_def
          sources_of_def direct_changes_def List.map_filter_simps change_between_def write_direct_def audit_def
          write_grant_def keeps_an_admin_def an_admin_is_left_def account_name_def account_method_def Let_def)
       (rule image_eqI [where x = "\<lparr>wk_id = 10, wk_name = ''main''\<rparr>"], simp_all)
  then show ?thesis by (metis prod.collapse)
qed

lemma root_disables_ok: "perform 9000000 root_disables demo = (None, snd (perform 9000000 root_disables demo))"
proof -
  have "fst (perform 9000000 root_disables demo) = None" by code_simp
  then show ?thesis by (metis prod.collapse)
qed

section \<open>The tables\<close>

text \<open>C18: Through any sequence of writes, sign-ins and sign-ups the tables keep their keys and references:
  one row per id, one workspace per name, one binding per user and workspace, one mapping per group and
  workspace, and no binding of an account or a workspace that is not there.\<close>

theorem tables_well_formed:
  assumes "db_ok s" "history s es s'"
  shows "db_ok s'"
  using assms(2,1) by (rule history_db_ok)

theorem tables_well_formed_witness:
  "db_ok demo \<and> db_ok (snd (perform 5000000 ana_grants demo))"
  using tables_well_formed [OF demo_ok history_one [of ana_grants]] demo_ok by (simp add: ana_grants_def)

text \<open>C15: The console cannot be locked out: once an enabled superuser exists, one exists after any sequence
  of writes, in whatever order superusers disable, demote and delete each other.\<close>

theorem superuser_kept:
  assumes "enabled_superusers s \<noteq> []" "history s es s'"
  shows "enabled_superusers s' \<noteq> []"
  using assms(2,1) by (rule history_superuser_left)

theorem superuser_kept_witness:
  "enabled_superusers demo \<noteq> [] \<and> enabled_superusers (snd (perform 9000000 root_disables demo)) \<noteq> []"
proof -
  have "enabled_superusers demo \<noteq> []" by (simp add: enabled_superusers_def demo_def demo_account_def local_account_def)
  with superuser_kept [OF this history_one [of root_disables]] show ?thesis by (simp add: root_disables_def)
qed

section \<open>Rights\<close>

text \<open>C14: No one raises their own rights: when a write changes the role some account has in some workspace,
  by a binding, a group mapping, the superuser flag or the account's state, the caller administered that
  workspace in the tables as they were; or the account itself signed in through the identity provider,
  which only sets its groups and touches no binding; or there was no account at all, and the operator's
  bootstrap made the first.\<close>

theorem roles_change_by_admins:
  assumes "db_ok s" "role_in (snd (perform now op s)) i w \<noteq> role_in s i w"
  shows "(\<exists>c. caller_of op = Some c \<and> administers s c w) \<or> own_sign_in op s (snd (perform now op s)) i \<or> db_users s = []"
  using perform_effect assms by (rule effect_role)

theorem roles_change_by_admins_witness:
  "role_in demo 2 10 = Some Admin \<and> role_in (snd (perform 9000000 root_disables demo)) 2 10 = None \<and> administers demo 1 10"
proof -
  have r: "role_in demo 2 10 = Some Admin" "role_in (snd (perform 9000000 root_disables demo)) 2 10 = None" by code_simp+
  then have "role_in (snd (perform 9000000 root_disables demo)) 2 10 \<noteq> role_in demo 2 10" by simp
  from roles_change_by_admins [OF demo_ok this] r show ?thesis by (simp add: root_disables_def own_sign_in_def demo_def)
qed

text \<open>C17: A write of roles or of a group mapping by someone who is not a superuser leaves every workspace it
  names with an admin: an account that is enabled and no superuser either, and whose effective role there,
  as the console computes it for that account, is admin. An admin cannot take the last admin away,
  themselves included.\<close>

theorem admin_kept:
  assumes "db_ok s" "operation_ok op" "perform now op s = (None, s')" "caller_of op = Some c" "find_account s c = Some a"
    "\<not> an_superuser a" "w \<in> workspaces_written op"
  shows "\<exists>u b. find_account s' u = Some b \<and> \<not> an_disabled b \<and> \<not> an_superuser b \<and> role_in s' u w = Some Admin"
proof (rule admin_left_role)
  show "db_ok s'" using effect_db_ok [OF perform_effect [of now op s]] assms(1-3) by simp
  show "an_admin_is_left s' w" by (rule perform_admin_left [OF assms(3-7)])
qed

theorem admin_kept_witness:
  "\<exists>u b. find_account (snd (perform 5000000 ana_grants demo)) u = Some b \<and> \<not> an_disabled b \<and> \<not> an_superuser b \<and>
     role_in (snd (perform 5000000 ana_grants demo)) u 10 = Some Admin"
  by (rule admin_kept [OF demo_ok _ ana_grants_ok, of 2 "demo_account 2 ''ana'' False"])
     (simp_all add: ana_grants_def find_account_def demo_def demo_account_def local_account_def)

text \<open>A role request writes what it asked for: afterwards the account's own role in each workspace the
  request names is the one asked for, and every other binding of anyone is what it was.\<close>

theorem direct_roles_written:
  assumes "perform now (SetDirectRoles c t wanted) s = (None, s')" "distinct (map fst wanted)"
  shows "direct_role s' u w = (if u = t then (case map_of wanted w of Some after \<Rightarrow> after | None \<Rightarrow> direct_role s u w)
    else direct_role s u w)"
proof -
  obtain v where "try_set_direct_roles c t wanted s = (Ok v, s')" using assms(1) by (auto simp: outcome_None)
  then show ?thesis
  proof (rule set_direct_roles_effect)
    fix a b names
    assume "s' = fold (write_direct (actor_of a) t (account_name b) names)
      (direct_changes (held_roles s t (fst ` set wanted)) wanted) s"
    then have "db_roles s' = new_roles t (asked_changes s t wanted) (db_roles s)"
      by (simp add: write_direct_fold asked_changes_def)
    then show ?thesis by (simp add: direct_role_def [of s'] asked_changes_written [OF assms(2)])
  qed simp
qed

theorem direct_roles_written_witness:
  "direct_role (snd (perform 5000000 ana_grants demo)) 3 10 = Some Viewer \<and>
   direct_role (snd (perform 5000000 ana_grants demo)) 2 10 = direct_role demo 2 10"
  using direct_roles_written [OF ana_grants_ok [unfolded ana_grants_def], of 3 10]
    direct_roles_written [OF ana_grants_ok [unfolded ana_grants_def], of 2 10]
  by (simp add: ana_grants_def)

text \<open>C19: A write on behalf of an account that changes anything appends at least one entry to the log, each
  naming that account and its name; whatever is written, the entries of before stay, but for the
  references a deletion sets to null.\<close>

theorem writes_audited:
  assumes "caller_of op = Some c" "snd (perform now op s) \<noteq> s"
  shows "\<exists>a. find_account s c = Some a \<and> logged (entry_of c a) s (snd (perform now op s))"
  using perform_effect assms by (rule effect_logged)

theorem writes_audited_witness:
  "\<exists>a. find_account demo 1 = Some a \<and> logged (entry_of 1 a) demo (snd (perform 9000000 root_disables demo))"
proof (rule writes_audited)
  have "length (db_audit (snd (perform 9000000 root_disables demo))) = 1" by code_simp
  then show "snd (perform 9000000 root_disables demo) \<noteq> demo" by (auto simp: demo_def)
qed (simp add: root_disables_def)

section \<open>Sessions\<close>

text \<open>C16: Cutting an account off ends its sessions for good: after its password was reset or changed, it was
  disabled, enabled again or demoted, or it was deleted, a session issued in an earlier millisecond is
  answered 401 after any later writes, as long as no later account draws its id.\<close>

theorem sessions_cut_off:
  assumes "perform now op s = (None, s1)" "cuts_off op s i" "history s1 es s2"
    "\<forall>(t, later) \<in> set es. now \<le> t \<and> drawn later \<noteq> Some i"
    "parse_uuid (se_subject ses) = Some i" "uint (se_issued_at ses) < now div 1000"
  shows "signed_in parse_uuid s2 (Some ses) = Err (CallerStatus 401)"
  using history_cut_off [OF assms(3) perform_cuts_off [OF assms(1,2)] assms(4)] assms(5,6) by (rule cut_off_refuses)

text \<open>Root disables Ana and enables her again; the session she had is still refused.\<close>

theorem sessions_cut_off_witness:
  "signed_in (\<lambda>_. Some 2) (snd (perform 9500000 (SetDisabled 1 2 False) (snd (perform 9000000 root_disables demo))))
     (Some \<lparr>se_subject = ''ana'', se_groups = [], se_expires_at = 0, se_issued_at = 8999\<rparr>) = Err (CallerStatus 401)"
proof (rule sessions_cut_off [OF root_disables_ok, of 2 "[(9500000, SetDisabled 1 2 False)]"])
  show "history (snd (perform 9000000 root_disables demo)) [(9500000, SetDisabled 1 2 False)]
      (snd (perform 9500000 (SetDisabled 1 2 False) (snd (perform 9000000 root_disables demo))))"
    by (rule history_one) simp
qed (simp_all add: root_disables_def find_account_def demo_def demo_account_def local_account_def)

end
