(* ===== verification/Configuration.thy ===== *)
theory Configuration
  imports Accounts Store Hostname
begin

text \<open>
  \<^verbatim>\<open>gapura-control/src/configuration.rs\<close>: what a request for a service or a route may contain,
  and who may make it. One record per type, one function per rule, \<open>service_checked\<close> and
  \<open>route_checked\<close> for \<open>service\<close> and \<open>route\<close>. The regular expressions, the text of
  their errors and the reading of PEM certificates are parameters.
\<close>

section \<open>Limits\<close>

definition max_name_chars :: nat where "max_name_chars = 63"
definition max_hosts :: nat where "max_hosts = 32"
definition max_paths :: nat where "max_paths = 32"
definition max_combinations :: nat where "max_combinations = 1024"
definition max_path_chars :: nat where "max_path_chars = 1024"
definition max_headers :: nat where "max_headers = 16"
definition max_header_name_chars :: nat where "max_header_name_chars = 64"
definition max_header_value_chars :: nat where "max_header_value_chars = 1024"
definition max_timeout_ms :: int where "max_timeout_ms = 3600000"
definition max_ca_pem_bytes :: nat where "max_ca_pem_bytes = 64 * 1024"

definition http_methods :: "string list" where
  "http_methods = [''GET'', ''HEAD'', ''POST'', ''PUT'', ''PATCH'', ''DELETE'', ''OPTIONS'', ''CONNECT'', ''TRACE'']"

definition path_types :: "string list" where
  "path_types = [''prefix'', ''exact'', ''regex'']"

section \<open>Who may\<close>

datatype action = ReadAction | WriteAction | DeleteAction

fun needs :: "action \<Rightarrow> role" where
  "needs ReadAction = Viewer"
| "needs WriteAction = Editor"
| "needs DeleteAction = Admin"

definition no_role :: refusal where
  "no_role = RForbidden (Msg ''You hold no role in that workspace.'' [])"

fun action_verb :: "action \<Rightarrow> string" where
  "action_verb ReadAction = ''Reading''"
| "action_verb WriteAction = ''Making changes''"
| "action_verb DeleteAction = ''Deleting things''"

definition allowed :: "rows \<Rightarrow> user \<Rightarrow> uuid \<Rightarrow> action \<Rightarrow> refusal + role" where
  "allowed rows caller workspace act =
     (case effective rows caller workspace of
        None \<Rightarrow> Err no_role
      | Some acc \<Rightarrow>
          if needs act \<le> ac_role acc then Ok (ac_role acc)
          else Err (RForbidden (Msg ''{verb} in this workspace needs the {needs} role.''
                      [Text (action_verb act), Text (role_as_str (needs act))])))"

definition may_claim_wildcard :: "user \<Rightarrow> string \<Rightarrow> refusal + unit" where
  "may_claim_wildcard caller host =
     (case strip_prefix ''*.'' host of
        None \<Rightarrow> Ok ()
      | Some rest \<Rightarrow>
          if us_superuser caller \<or> CHR ''.'' \<in> set rest then Ok ()
          else Err (RForbidden (Msg ''{host} would claim every name under one label for this workspace; only a superuser may route it.'' [Text host])))"

definition may_route_any_host :: "user \<Rightarrow> refusal + unit" where
  "may_route_any_host caller =
     (if us_superuser caller then Ok ()
      else Err (RForbidden (Msg ''Only a superuser may create a route for any host: it would take other workspaces' traffic. Name at least one host.'' [])))"

definition hosts_overlap :: "string \<Rightarrow> string \<Rightarrow> bool" where
  "hosts_overlap a b \<longleftrightarrow> a = b \<or> host_matches a b \<or> host_matches b a"

section \<open>Requests and what they become\<close>

record tls_input =
  ti_verify :: bool
  ti_ca_pem :: "string option"
  ti_sni :: "string option"

record service_input =
  si_name :: string
  si_protocol :: string
  si_host :: string
  si_port :: int
  si_connect_timeout_ms :: "int option"
  si_read_timeout_ms :: "int option"
  si_tls :: "tls_input option"
  si_updated_at :: "string option"

record upstream_tls =
  ut_verify :: bool
  ut_ca_pem :: "string option"
  ut_sni :: "string option"

definition tls_default :: upstream_tls where
  "tls_default = \<lparr>ut_verify = True, ut_ca_pem = None, ut_sni = None\<rparr>"

datatype tls_on_replace = AsSent | KeptTls

record service_row =
  sv_name :: string
  sv_protocol :: protocol
  sv_host :: string
  sv_port :: int
  sv_connect_timeout_ms :: "int option"
  sv_read_timeout_ms :: "int option"
  sv_tls :: upstream_tls

text \<open>\<open>PathInput\<close> and \<open>PathMatch\<close>, and \<open>HeaderMatch\<close>.\<close>

record path_entry =
  pa_kind :: string
  pa_value :: string

record header_match =
  hm_name :: string
  hm_value :: string

record route_input =
  ri_name :: string
  ri_service :: string
  ri_hosts :: "string list"
  ri_paths :: "path_entry list"
  ri_methods :: "string list"
  ri_headers :: "header_match list option"
  ri_strip_path :: "bool option"
  ri_priority :: int
  ri_updated_at :: "string option"
  ri_service_updated_at :: "string option"

record route_row =
  ro_name :: string
  ro_service :: string
  ro_hosts :: "string list"
  ro_paths :: "path_entry list"
  ro_methods :: "string list"
  ro_headers :: "header_match list"
  ro_strip_path :: bool
  ro_priority :: int

record kept_on_replace =
  kr_headers :: bool
  kr_strip_path :: bool

definition kept_of :: "route_input \<Rightarrow> kept_on_replace" where
  "kept_of input = \<lparr>kr_headers = (ri_headers input = None), kr_strip_path = (ri_strip_path input = None)\<rparr>"

definition field_refused :: "string \<Rightarrow> string \<Rightarrow> field_error" where
  "field_refused at sentence = \<lparr>fe_field = at, fe_sentence = Msg sentence []\<rparr>"

definition strip_path_fits :: "route_row \<Rightarrow> field_error + unit" where
  "strip_path_fits r =
     (if ro_strip_path r \<and> list_ex (\<lambda>p. pa_kind p = ''regex'') (ro_paths r)
      then Err (field_refused ''strip_path'' ''Strip path works with prefix and exact paths; a regular expression has no prefix to strip.'')
      else Ok ())"

datatype write_kind = Creating | Replacing

definition unseen :: string where
  "unseen = ''Send the updated_at you last read, so a change made meanwhile is not overwritten.''"

fun updated_at :: "write_kind \<Rightarrow> string option \<Rightarrow> field_error + string option" where
  "updated_at Creating None = Ok None"
| "updated_at Creating (Some _) = Err (field_refused ''updated_at'' ''A new row has no updated_at to send.'')"
| "updated_at Replacing (Some v) = Ok (Some v)"
| "updated_at Replacing None = Err (field_refused ''updated_at'' unseen)"

section \<open>Names and hosts\<close>

definition config_name :: "string \<Rightarrow> string \<Rightarrow> field_error + string" where
  "config_name v at =
     (if (case chars v of c # _ \<Rightarrow> alphanumeric_point c | [] \<Rightarrow> False) \<and> length (chars v) \<le> max_name_chars \<and>
         list_all username_point (chars v)
      then Ok v
      else Err (field_refused at ''Use 1 to {MAX_NAME_CHARS} letters, digits, dots, underscores, tildes or hyphens, starting with a letter or a digit.''))"

definition alphabetic_byte :: "char \<Rightarrow> bool" where
  "alphabetic_byte c \<longleftrightarrow> is_ascii_uppercase c \<or> is_ascii_lowercase c"

definition dns_label :: "string \<Rightarrow> bool" where
  "dns_label label \<longleftrightarrow> label \<noteq> [] \<and> length label \<le> 63 \<and> \<not> prefix ''-'' label \<and> \<not> suffix ''-'' label \<and>
     list_all (\<lambda>c. is_ascii_alphanumeric c \<or> c = CHR ''-'') label"

definition dns_name :: "string \<Rightarrow> bool" where
  "dns_name v \<longleftrightarrow> length v \<le> 253 \<and> list_all dns_label (split_on CHR ''.'' v) \<and>
     (case last (split_on CHR ''.'' v) of c # _ \<Rightarrow> alphabetic_byte c | [] \<Rightarrow> False)"

definition ipv4_text :: "string \<Rightarrow> bool" where
  "ipv4_text v \<longleftrightarrow> (case read_ipv4 v of Some (_, r) \<Rightarrow> r = [] | None \<Rightarrow> False)"

definition upstream_host :: "string \<Rightarrow> field_error + string" where
  "upstream_host v =
     (if ipv4_text v \<or> dns_name (to_ascii_lowercase v) then Ok (to_ascii_lowercase v)
      else Err (field_refused ''host'' ''Use a host name or an IPv4 address, without a scheme, port or path.''))"

section \<open>TLS and timeouts\<close>

text \<open>\<open>str::lines\<close>.\<close>

definition text_lines :: "string \<Rightarrow> string list" where
  "text_lines s =
     (let parts = split_on (CHR 0x0A) s;
          whole = (if last parts = [] then butlast parts else parts)
      in map (\<lambda>l. case strip_suffix [CHR 0x0D] l of Some t \<Rightarrow> t | None \<Rightarrow> l) whole)"

definition trim_end_dashes :: "string \<Rightarrow> string" where
  "trim_end_dashes s = rev (dropWhile (\<lambda>c. c = CHR ''-'') (rev s))"

definition other_block :: "string \<Rightarrow> bool" where
  "other_block pem \<longleftrightarrow>
     list_ex (\<lambda>line. case strip_prefix ''-----BEGIN '' (trim line) of
        Some label \<Rightarrow> trim_end_dashes label \<noteq> ''CERTIFICATE'' | None \<Rightarrow> False) (text_lines pem)"

text \<open>The reader of PEM certificates gives each it finds or an error; \<open>anchor\<close> takes one as a trust anchor.\<close>

record pem_reader =
  pem_certs :: "string \<Rightarrow> string option list"
  pem_anchor :: "string \<Rightarrow> bool"

definition not_pem :: string where
  "not_pem = ''Paste PEM certificates, each between BEGIN CERTIFICATE and END CERTIFICATE lines.''"

definition ca_pem :: "pem_reader \<Rightarrow> string option \<Rightarrow> string \<Rightarrow> field_error + string option" where
  "ca_pem reader v at =
     (case v of
        None \<Rightarrow> Ok None
      | Some pem \<Rightarrow>
          if max_ca_pem_bytes < length pem then Err (field_refused at ''Paste at most 64 KiB of certificates.'')
          else if other_block pem then Err (field_refused at ''Paste CA certificates only.'')
          else if list_ex (\<lambda>cert. case cert of None \<Rightarrow> True | Some der \<Rightarrow> \<not> pem_anchor reader der) (pem_certs reader pem)
          then Err (field_refused at not_pem)
          else if pem_certs reader pem = [] then Err (field_refused at not_pem)
          else Ok (Some pem))"

definition tls_checked :: "pem_reader \<Rightarrow> protocol \<Rightarrow> tls_input option \<Rightarrow> field_error + upstream_tls" where
  "tls_checked reader proto input0 =
     (case input0 of
        None \<Rightarrow> Ok tls_default
      | Some input \<Rightarrow>
          (let pem = (case ti_ca_pem input of Some p \<Rightarrow> if trim p \<noteq> [] then Some p else None | None \<Rightarrow> None);
               sni = (case ti_sni input of Some n \<Rightarrow> if n \<noteq> [] then Some n else None | None \<Rightarrow> None)
           in if proto = Http then
                (if ti_verify input \<and> pem = None \<and> sni = None then Ok tls_default
                 else Err (field_refused ''tls'' ''TLS settings apply to an https service.''))
              else if (case sni of Some n \<Rightarrow> \<not> dns_name (to_ascii_lowercase n) | None \<Rightarrow> False)
              then Err (field_refused ''tls.sni'' ''Use a host name, without a scheme, port or wildcard.'')
              else case ca_pem reader pem ''tls.ca_pem'' of
                     Err e \<Rightarrow> Err e
                   | Ok p \<Rightarrow> Ok \<lparr>ut_verify = ti_verify input, ut_ca_pem = p, ut_sni = map_option (map ascii_lower) sni\<rparr>))"

definition timeout_checked :: "int option \<Rightarrow> string \<Rightarrow> field_error + int option" where
  "timeout_checked v at =
     (case v of
        None \<Rightarrow> Ok None
      | Some ms \<Rightarrow>
          if 1 \<le> ms \<and> ms \<le> max_timeout_ms then Ok (Some ms)
          else Err (field_refused at ''Use a number of milliseconds from 1 to {MAX_TIMEOUT_MS}, or leave it empty.''))"

section \<open>Services\<close>

definition protocol_named :: "string \<Rightarrow> field_error + protocol" where
  "protocol_named p =
     (if p = ''http'' then Ok Http else if p = ''https'' then Ok Https
      else Err (field_refused ''protocol'' ''Use http or https.''))"

definition service_checked ::
  "pem_reader \<Rightarrow> service_input \<Rightarrow> write_kind \<Rightarrow> field_error + service_row \<times> string option" where
  "service_checked reader input kind =
     (case config_name (si_name input) ''name'' of Err e \<Rightarrow> Err e | Ok n \<Rightarrow>
      (case protocol_named (si_protocol input) of Err e \<Rightarrow> Err e | Ok proto \<Rightarrow>
       if \<not> (1 \<le> si_port input \<and> si_port input \<le> 65535) then Err (field_refused ''port'' ''Use a port from 1 to {}.'')
       else
        (case upstream_host (si_host input) of Err e \<Rightarrow> Err e | Ok host \<Rightarrow>
         if proto = Https \<and> parse_ip host \<noteq> None
         then Err (field_refused ''host'' ''An https service needs a host name: its certificate is checked against names, not addresses.'')
         else
          (case timeout_checked (si_connect_timeout_ms input) ''connect_timeout_ms'' of Err e \<Rightarrow> Err e | Ok connect \<Rightarrow>
           (case timeout_checked (si_read_timeout_ms input) ''read_timeout_ms'' of Err e \<Rightarrow> Err e | Ok rd \<Rightarrow>
            (case tls_checked reader proto (si_tls input) of Err e \<Rightarrow> Err e | Ok t \<Rightarrow>
             (case updated_at kind (si_updated_at input) of Err e \<Rightarrow> Err e | Ok seen \<Rightarrow>
                Ok (\<lparr>sv_name = n, sv_protocol = proto, sv_host = host, sv_port = si_port input,
                     sv_connect_timeout_ms = connect, sv_read_timeout_ms = rd, sv_tls = t\<rparr>, seen))))))))"

section \<open>Paths\<close>

definition visible_point :: "nat \<Rightarrow> bool" where
  "visible_point c \<longleftrightarrow> 0x21 \<le> c \<and> c \<le> 0x7E"

text \<open>\<open>u8::from_str_radix\<close> on two bytes in base 16: a leading \<open>+\<close> is a sign.\<close>

definition radix16_pair :: "char \<Rightarrow> char \<Rightarrow> nat option" where
  "radix16_pair a b =
     (if a = CHR ''+'' then (if is_ascii_hexdigit b then Some (hex_from 0 [b]) else None)
      else if is_ascii_hexdigit a \<and> is_ascii_hexdigit b then Some (hex_from 0 [a, b]) else None)"

text \<open>The loop over the \<open>%\<close> of a path: what the first that is refused gets.\<close>

definition bad_escape :: string where
  "bad_escape = ''A % starts an escape of two hexadecimal digits.''"

definition plain_escape :: string where
  "plain_escape = ''Write letters, digits and - . _ ~ as they are: the gateway decodes them before matching.''"

fun escapes_checked :: "string \<Rightarrow> string option" where
  "escapes_checked [] = None"
| "escapes_checked (c # s) =
     (if c = CHR ''%'' then
        (case s of
           a # b # _ \<Rightarrow>
             (case radix16_pair a b of
                None \<Rightarrow> Some bad_escape
              | Some v \<Rightarrow> if unreserved (char_of v) then Some plain_escape else escapes_checked s)
         | _ \<Rightarrow> Some bad_escape)
      else escapes_checked s)"

definition no_parameters :: string where
  "no_parameters = ''A path may not contain ; '' @ [CHR 0xE2, CHR 0x80, CHR 0x94] @
     '' servlet backends read it as path parameters, so the gateway cannot match it safely.''"

text \<open>What a prefix or exact path is refused for, first to last, and what is kept of one that is not.\<close>

definition path_refusal :: "string \<Rightarrow> string option" where
  "path_refusal v =
     (if \<not> prefix ''/'' v then Some ''A prefix or exact path starts with /.''
      else if \<not> list_all visible_point (chars v)
      then Some ''Percent-encode characters outside visible ASCII, as clients send them.''
      else if CHR ''?'' \<in> set v \<or> CHR ''#'' \<in> set v then Some ''A path has no query string or fragment.''
      else if CHR '';'' \<in> set v then Some no_parameters
      else if str_contains ''//'' v then Some ''A path has no empty segments: the gateway collapses // in requests.''
      else if list_ex (\<lambda>seg. seg = ''.'' \<or> seg = ''..'') (split_on CHR ''/'' v)
      then Some ''A path has no . or .. segments: the gateway refuses requests that do.''
      else escapes_checked v)"

definition plain_path :: "string \<Rightarrow> string \<Rightarrow> string \<Rightarrow> (field_error + string) run" where
  "plain_path kind v at =
     (case path_refusal v of
        Some sentence \<Rightarrow> Returns (Err (field_refused at sentence))
      | None \<Rightarrow> run_bind (uppercase_escapes v) (\<lambda>u.
          Returns (Ok (if kind = ''prefix'' then pop_slashes u else u))))"

text \<open>\<open>regex_reason\<close>: the last line of the error that is not blank, one line of at most 200 characters.\<close>

definition take_chars :: "nat \<Rightarrow> string \<Rightarrow> string" where
  "take_chars n s = fst (((\<lambda>(out, rest). (out @ take (utf8_head rest) rest, drop (utf8_head rest) rest)) ^^ n) ([], s))"

definition regex_reason :: "string \<Rightarrow> string" where
  "regex_reason text =
     (let l = (case find (\<lambda>l. trim l \<noteq> []) (rev (text_lines text)) of Some l \<Rightarrow> l | None \<Rightarrow> []);
          reason = (case strip_prefix ''error: '' l of Some r \<Rightarrow> r | None \<Rightarrow> l)
      in take_chars 200 (trim reason))"

definition console_regex :: "'re builder \<Rightarrow> (regex_error \<Rightarrow> string) \<Rightarrow> string \<Rightarrow> string + unit" where
  "console_regex build show_error v =
     (case compile_path_regex build v of Ok _ \<Rightarrow> Ok () | Err e \<Rightarrow> Err (regex_reason (show_error e)))"

definition indexed :: "string \<Rightarrow> nat \<Rightarrow> string \<Rightarrow> string" where
  "indexed name i part = name @ ''['' @ show_nat i @ '']'' @ part"

definition path_value_checked ::
  "'re builder \<Rightarrow> (regex_error \<Rightarrow> string) \<Rightarrow> path_entry \<Rightarrow> string \<Rightarrow> (field_error + string) run" where
  "path_value_checked build show_error p at =
     (if pa_kind p = ''regex'' then
        (case console_regex build show_error (pa_value p) of
           Err reason \<Rightarrow> Returns (Err \<lparr>fe_field = at, fe_sentence = Msg ''This regular expression does not compile: {reason}'' [Text reason]\<rparr>)
         | Ok _ \<Rightarrow> run_bind (uppercase_escapes (pa_value p)) (\<lambda>u.
             Returns (if u \<noteq> pa_value p
               then Err (field_refused at ''Write percent-escapes in uppercase (%2F): the gateway matches the path that way.'')
               else Ok (pa_value p))))
      else plain_path (pa_kind p) (pa_value p) at)"

fun paths_loop ::
  "'re builder \<Rightarrow> (regex_error \<Rightarrow> string) \<Rightarrow> nat \<Rightarrow> path_entry list \<Rightarrow> path_entry list \<Rightarrow> (field_error + path_entry list) run" where
  "paths_loop build show_error i [] out = Returns (Ok out)"
| "paths_loop build show_error i (p # ps) out =
     (if pa_kind p \<notin> set path_types
      then Returns (Err (field_refused (indexed ''paths'' i ''.type'') ''Use prefix, exact or regex.''))
      else if pa_value p = [] \<or> max_path_chars < length (chars (pa_value p))
      then Returns (Err (field_refused (indexed ''paths'' i ''.value'') ''Use a path of 1 to {MAX_PATH_CHARS} characters.''))
      else run_bind (path_value_checked build show_error p (indexed ''paths'' i ''.value'')) (\<lambda>r.
             case r of
               Err e \<Rightarrow> Returns (Err e)
             | Ok v \<Rightarrow>
                 (let entry = \<lparr>pa_kind = pa_kind p, pa_value = v\<rparr> in
                  paths_loop build show_error (i + 1) ps (if entry \<in> set out then out else out @ [entry]))))"

section \<open>Headers, hosts and methods\<close>

definition header_token :: "string \<Rightarrow> bool" where
  "header_token v \<longleftrightarrow> v \<noteq> [] \<and>
     list_all (\<lambda>c. alphanumeric_point c \<or> c \<in> byte ` set ''!#$%&*+-.^_`|~'' \<or> c = 39) (chars v)"

definition header_value_ok :: "string \<Rightarrow> bool" where
  "header_value_ok v \<longleftrightarrow> v \<noteq> [] \<and> length (chars v) \<le> max_header_value_chars \<and>
     list_all (\<lambda>c. visible_point c \<or> c = 32 \<or> c = 9) (chars v) \<and>
     visible_point (hd (chars v)) \<and> visible_point (last (chars v))"

fun headers_loop :: "nat \<Rightarrow> header_match list \<Rightarrow> header_match list \<Rightarrow> field_error + header_match list" where
  "headers_loop i [] out = Ok out"
| "headers_loop i (h # hs) out =
     (let at = indexed ''headers'' i ''.name''; name = to_ascii_lowercase (hm_name h) in
      if max_header_name_chars < length (hm_name h) \<or> \<not> header_token (hm_name h)
      then Err (field_refused at ''Use a header name of 1 to {MAX_HEADER_NAME_CHARS} letters, digits and - _ . ! # $ % & ' * + ^ ` | ~, with no spaces or colons.'')
      else if name = ''host'' then Err (field_refused at ''A route matches the host through its hosts; list it there.'')
      else if name \<in> set gateway_headers
      then Err \<lparr>fe_field = at, fe_sentence = Msg ''The gateway sets {name} after a route is matched, so a route cannot match on it.'' [Text name]\<rparr>
      else if list_ex (\<lambda>o'. hm_name o' = name) out
      then Err (field_refused at ''Each header is matched once; this one is already listed.'')
      else if \<not> header_value_ok (hm_value h)
      then Err (field_refused (indexed ''headers'' i ''.value'') ''Use a value of 1 to {MAX_HEADER_VALUE_CHARS} visible ASCII characters; spaces and tabs only between them.'')
      else headers_loop (i + 1) hs (out @ [\<lparr>hm_name = name, hm_value = hm_value h\<rparr>]))"

definition headers_checked :: "header_match list \<Rightarrow> field_error + header_match list" where
  "headers_checked input =
     (if max_headers < length input then Err (field_refused ''headers'' ''A route matches at most {MAX_HEADERS} headers.'')
      else headers_loop 0 input [])"

definition bare_host :: "string \<Rightarrow> string" where
  "bare_host lowered = (case strip_prefix ''*.'' lowered of Some r \<Rightarrow> r | None \<Rightarrow> lowered)"

fun hosts_loop :: "nat \<Rightarrow> string list \<Rightarrow> string list \<Rightarrow> field_error + string list" where
  "hosts_loop i [] out = Ok out"
| "hosts_loop i (h # hs) out =
     (let lowered = to_ascii_lowercase h in
      if \<not> dns_name (bare_host lowered)
      then Err (field_refused (indexed ''hosts'' i []) ''Use a host name, optionally starting with *. for its subdomains.'')
      else hosts_loop (i + 1) hs (if lowered \<in> set out then out else out @ [lowered]))"

fun methods_loop :: "nat \<Rightarrow> string list \<Rightarrow> string list \<Rightarrow> field_error + string list" where
  "methods_loop i [] out = Ok out"
| "methods_loop i (m # ms) out =
     (let upper = to_ascii_uppercase m in
      if upper \<notin> set http_methods
      then Err (field_refused (indexed ''methods'' i []) ''Use an HTTP method such as GET or POST.'')
      else methods_loop (i + 1) ms (if upper \<in> set out then out else out @ [upper]))"

section \<open>Routes\<close>

definition combinations :: "string list \<Rightarrow> path_entry list \<Rightarrow> string list \<Rightarrow> nat" where
  "combinations hosts paths methods = max (length hosts) 1 * max (length paths) 1 * max (length methods) 1"

text \<open>The checks after the paths, and the row.\<close>

definition route_finished ::
  "route_input \<Rightarrow> write_kind \<Rightarrow> string \<Rightarrow> string \<Rightarrow> string list \<Rightarrow> path_entry list \<Rightarrow> field_error + route_row \<times> string option" where
  "route_finished input kind n svc hosts paths =
     (case methods_loop 0 (ri_methods input) [] of Err e \<Rightarrow> Err e | Ok methods \<Rightarrow>
      (case headers_checked (case ri_headers input of Some hs \<Rightarrow> hs | None \<Rightarrow> []) of Err e \<Rightarrow> Err e | Ok hdrs \<Rightarrow>
       if max_combinations < combinations hosts paths methods
       then Err (field_refused ''paths'' ''This route expands to more than {MAX_COMBINATIONS} host, path and method combinations; split it into several routes.'')
       else
        (let r = \<lparr>ro_name = n, ro_service = svc, ro_hosts = hosts, ro_paths = paths, ro_methods = methods,
                  ro_headers = hdrs, ro_strip_path = (case ri_strip_path input of Some b \<Rightarrow> b | None \<Rightarrow> False),
                  ro_priority = ri_priority input\<rparr> in
         case strip_path_fits r of Err e \<Rightarrow> Err e | Ok _ \<Rightarrow>
         (case updated_at kind (ri_updated_at input) of Err e \<Rightarrow> Err e | Ok seen \<Rightarrow> Ok (r, seen)))))"

definition route_checked ::
  "'re builder \<Rightarrow> (regex_error \<Rightarrow> string) \<Rightarrow> route_input \<Rightarrow> write_kind \<Rightarrow> (field_error + route_row \<times> string option) run" where
  "route_checked build show_error input kind =
     (case config_name (ri_name input) ''name'' of Err e \<Rightarrow> Returns (Err e) | Ok n \<Rightarrow>
      (case config_name (ri_service input) ''service'' of Err e \<Rightarrow> Returns (Err e) | Ok svc \<Rightarrow>
       if max_hosts < length (ri_hosts input)
       then Returns (Err (field_refused ''hosts'' ''A route takes at most {MAX_HOSTS} hosts.''))
       else
        (case hosts_loop 0 (ri_hosts input) [] of Err e \<Rightarrow> Returns (Err e) | Ok hosts \<Rightarrow>
         if max_paths < length (ri_paths input)
         then Returns (Err (field_refused ''paths'' ''A route takes at most {MAX_PATHS} paths.''))
         else run_bind (paths_loop build show_error 0 (ri_paths input) []) (\<lambda>checked.
           Returns (case checked of Err e \<Rightarrow> Err e | Ok paths \<Rightarrow> route_finished input kind n svc hosts paths)))))"

section \<open>Refused deletes\<close>

definition named_consumers :: nat where "named_consumers = 3"

definition listed_names :: "string list \<Rightarrow> string" where
  "listed_names listed =
     (if butlast listed = [] then last listed else join '', '' (butlast listed) @ '' and '' @ last listed)"

definition own_limits :: "string list \<Rightarrow> string \<Rightarrow> string" where
  "own_limits names kind =
     (let more = drop (min (length names) named_consumers) names;
          listed = take (min (length names) named_consumers) names @
            (if more \<noteq> [] then [show_nat (length more) @ '' more''] else [])
      in if listed = [] then []
         else if length names = 1
         then '' '' @ listed_names listed @ '' has a limit of its own here, which is removed from that consumer, not from the '' @ kind @ ''.''
         else '' '' @ listed_names listed @ '' have limits of their own here, which are removed from those consumers, not from the '' @ kind @ ''.'')"

end
