(* ===== verification/Config_Store.thy ===== *)
theory Config_Store
  imports Configuration Authority
begin

text \<open>
  Services and routes in the database: \<^verbatim>\<open>gapura-control/src/store/configuration.rs\<close>, the tables it
  writes and how \<^verbatim>\<open>store/mod.rs\<close> reads them back into the snapshot the compiler takes. A
  transaction is one step, as in the authority store, and the trigger on each table moves the
  configuration's version. A time is in microseconds and \<open>show_time\<close> is the text Postgres gives it.
\<close>

section \<open>The tables\<close>

record service_record =
  sd_id :: uuid
  sd_workspace :: uuid
  sd_row :: service_row
  sd_updated :: int

record route_record =
  rd_id :: uuid
  rd_workspace :: uuid
  rd_service :: "uuid option"
  rd_name :: string
  rd_hosts :: "string list"
  rd_paths :: json
  rd_methods :: "string list"
  rd_headers :: json
  rd_strip_path :: bool
  rd_priority :: int
  rd_updated :: int

record policy_record =
  po_id :: uuid
  po_workspace :: uuid
  po_name :: string
  po_config :: json
  po_enabled :: bool
  po_route :: "uuid option"
  po_service :: "uuid option"
  po_consumer :: "uuid option"
  po_updated :: int

record consumer_record =
  cr_id :: uuid
  cr_workspace :: uuid
  cr_username :: string

record cdb =
  cd_db :: db
  cd_services :: "service_record list"
  cd_routes :: "route_record list"
  cd_policies :: "policy_record list"
  cd_consumers :: "consumer_record list"

text \<open>\<open>bump_config_version\<close> and one audit entry.\<close>

definition bumped :: "cdb \<Rightarrow> cdb" where
  "bumped s = s\<lparr>cd_db := (cd_db s)\<lparr>db_config_version := db_config_version (cd_db s) + 1\<rparr>\<rparr>"

definition config_audit ::
  "user \<Rightarrow> string \<Rightarrow> string \<Rightarrow> uuid \<Rightarrow> uuid \<Rightarrow> json option \<Rightarrow> json option \<Rightarrow> cdb \<Rightarrow> cdb" where
  "config_audit actor act kind i ws before after s =
     s\<lparr>cd_db := audit actor act kind (Some i) (Some ws) before after (cd_db s)\<rparr>"

section \<open>Rows as JSON\<close>

definition show_int :: "int \<Rightarrow> string" where
  "show_int i = (if i < 0 then ''-'' @ show_nat (nat (- i)) else show_nat (nat i))"

definition optional_json :: "('a \<Rightarrow> json) \<Rightarrow> 'a option \<Rightarrow> json" where
  "optional_json f v = (case v of Some x \<Rightarrow> f x | None \<Rightarrow> JsonNull)"

fun protocol_as_str :: "protocol \<Rightarrow> string" where
  "protocol_as_str Http = ''http''"
| "protocol_as_str Https = ''https''"

definition tls_json :: "upstream_tls \<Rightarrow> json" where
  "tls_json t = JsonObject [(''verify'', JsonBool (ut_verify t)), (''ca_pem'', optional_json JsonString (ut_ca_pem t)),
     (''sni'', optional_json JsonString (ut_sni t))]"

definition service_json :: "service_row \<Rightarrow> json" where
  "service_json v = JsonObject
     [(''name'', JsonString (sv_name v)), (''protocol'', JsonString (protocol_as_str (sv_protocol v))),
      (''host'', JsonString (sv_host v)), (''port'', JsonNumber (show_int (sv_port v))),
      (''connect_timeout_ms'', optional_json (\<lambda>n. JsonNumber (show_int n)) (sv_connect_timeout_ms v)),
      (''read_timeout_ms'', optional_json (\<lambda>n. JsonNumber (show_int n)) (sv_read_timeout_ms v)),
      (''tls'', tls_json (sv_tls v))]"

definition path_json :: "path_entry \<Rightarrow> json" where
  "path_json p = JsonObject [(''type'', JsonString (pa_kind p)), (''value'', JsonString (pa_value p))]"

definition header_json :: "header_match \<Rightarrow> json" where
  "header_json h = JsonObject [(''name'', JsonString (hm_name h)), (''value'', JsonString (hm_value h))]"

definition route_json :: "route_row \<Rightarrow> json" where
  "route_json r = JsonObject
     [(''name'', JsonString (ro_name r)), (''service'', JsonString (ro_service r)),
      (''hosts'', JsonArray (map JsonString (ro_hosts r))), (''paths'', JsonArray (map path_json (ro_paths r))),
      (''methods'', JsonArray (map JsonString (ro_methods r))),
      (''headers'', JsonArray (map header_json (ro_headers r))), (''strip_path'', JsonBool (ro_strip_path r)),
      (''priority'', JsonNumber (show_int (ro_priority r)))]"

text \<open>The derived reader of a struct of two texts: an object with both, or an array of the two.\<close>

fun two_texts :: "string \<Rightarrow> string \<Rightarrow> bool \<Rightarrow> json \<Rightarrow> (string \<times> string) option" where
  "two_texts a b strict (JsonObject kvs) =
     (case (map_of kvs a, map_of kvs b) of
        (Some (JsonString x), Some (JsonString y)) \<Rightarrow>
          if strict \<and> \<not> fst ` set kvs \<subseteq> {a, b} then None else Some (x, y)
      | _ \<Rightarrow> None)"
| "two_texts a b strict (JsonArray [JsonString x, JsonString y]) = Some (x, y)"
| "two_texts a b strict _ = None"

fun read_each :: "('a \<Rightarrow> 'b option) \<Rightarrow> 'a list \<Rightarrow> 'b list option" where
  "read_each f [] = Some []"
| "read_each f (x # xs) = (case f x of None \<Rightarrow> None | Some y \<Rightarrow> map_option ((#) y) (read_each f xs))"

definition read_paths :: "json \<Rightarrow> path_entry list option" where
  "read_paths v = (case v of
     JsonArray es \<Rightarrow> read_each (\<lambda>e. map_option (\<lambda>(k, v). \<lparr>pa_kind = k, pa_value = v\<rparr>) (two_texts ''type'' ''value'' False e)) es
   | _ \<Rightarrow> None)"

definition read_headers :: "json \<Rightarrow> header_match list option" where
  "read_headers v = (case v of
     JsonArray es \<Rightarrow> read_each (\<lambda>e. map_option (\<lambda>(n, v). \<lparr>hm_name = n, hm_value = v\<rparr>) (two_texts ''name'' ''value'' True e)) es
   | _ \<Rightarrow> None)"

section \<open>Deciding\<close>

definition decide_config :: "cdb \<Rightarrow> uuid \<Rightarrow> uuid \<Rightarrow> action \<Rightarrow> refusal + user" where
  "decide_config s caller ws act =
     (case rights (cd_db s) caller {ws} of
        Err r \<Rightarrow> Err r
      | Ok (actor, rows) \<Rightarrow>
          if \<not> list_ex (\<lambda>w. wk_id w = ws) (rw_workspaces rows) then Err no_role
          else case allowed rows actor ws act of Err r \<Rightarrow> Err r | Ok _ \<Rightarrow> Ok actor)"

fun claims_checked :: "user \<Rightarrow> string list \<Rightarrow> refusal + unit" where
  "claims_checked actor [] = Ok ()"
| "claims_checked actor (h # hs) =
     (case may_claim_wildcard actor h of Err r \<Rightarrow> Err r | Ok _ \<Rightarrow> claims_checked actor hs)"

definition taken_hosts :: "cdb \<Rightarrow> uuid \<Rightarrow> string list" where
  "taken_hosts s ws = concat (map rd_hosts (filter (\<lambda>r. rd_workspace r \<noteq> ws) (cd_routes s)))"

definition may_route :: "cdb \<Rightarrow> user \<Rightarrow> uuid \<Rightarrow> string list \<Rightarrow> refusal + unit" where
  "may_route s actor ws hosts =
     (case (if hosts = [] then may_route_any_host actor else Ok ()) of
        Err r \<Rightarrow> Err r
      | Ok _ \<Rightarrow>
          (case claims_checked actor hosts of
             Err r \<Rightarrow> Err r
           | Ok _ \<Rightarrow>
               (case find (\<lambda>h. list_ex (hosts_overlap h) (taken_hosts s ws)) hosts of
                  Some h \<Rightarrow> Err (RConflict (Msg ''{host} is already routed by another workspace.'' [Text h]))
                | None \<Rightarrow> Ok ())))"

definition no_policies :: "cdb \<Rightarrow> (policy_record \<Rightarrow> bool) \<Rightarrow> string \<Rightarrow> refusal + unit" where
  "no_policies s on kind =
     (let attached = filter on (cd_policies s);
          names = remdups_adj (sort (concat (map (\<lambda>p. map cr_username (filter
            (\<lambda>c. po_consumer p = Some (cr_id c) \<and> cr_workspace c = po_workspace p) (cd_consumers s))) attached)));
          whose = own_limits names kind
      in if length attached = 0 then Ok ()
         else if length attached = 1
         then Err (RConflict (Msg ''1 policy is attached to this {kind}. Remove it first.{whose}'' [Text kind, Text whose]))
         else Err (RConflict (Msg ''{n} policies are attached to this {kind}. Remove them first.{whose}''
                [Text (show_nat (length attached)), Text kind, Text whose])))"

definition stale :: refusal where
  "stale = RConflict (Msg ''Someone changed this since you opened it, so your change was not saved. Reload to see theirs.'' [])"

section \<open>Services\<close>

definition find_service :: "cdb \<Rightarrow> uuid \<Rightarrow> string \<Rightarrow> service_record option" where
  "find_service s ws name = find (\<lambda>v. sd_workspace v = ws \<and> sv_name (sd_row v) = name) (cd_services s)"

definition service_exists :: "string \<Rightarrow> refusal" where
  "service_exists name = RConflict (Msg ''A service named {} already exists in this workspace.'' [Text name])"

definition no_service :: "string \<Rightarrow> refusal" where
  "no_service name = RNotFound (Msg ''There is no service named {name} in this workspace.'' [Text name])"

definition try_create_service ::
  "int \<Rightarrow> uuid \<Rightarrow> uuid \<Rightarrow> service_row \<Rightarrow> uuid \<Rightarrow> cdb \<Rightarrow> (write_error + unit) \<times> cdb" where
  "try_create_service now caller ws v new_id s =
     (case decide_config s caller ws WriteAction of
        Err r \<Rightarrow> (Err (Refused r), s)
      | Ok actor \<Rightarrow>
          if find_service s ws (sv_name v) \<noteq> None then (Err (Refused (service_exists (sv_name v))), s)
          else if new_id \<in> sd_id ` set (cd_services s) then (Err (StoreFailed (Some ''23505'')), s)
          else (Ok (), config_audit actor ''create'' ''service'' new_id ws None (Some (service_json v))
                 (bumped (s\<lparr>cd_services := cd_services s @
                    [\<lparr>sd_id = new_id, sd_workspace = ws, sd_row = v, sd_updated = now\<rparr>]\<rparr>))))"

definition try_replace_service ::
  "(int \<Rightarrow> string) \<Rightarrow> int \<Rightarrow> uuid \<Rightarrow> uuid \<Rightarrow> string \<Rightarrow> service_row \<Rightarrow> string \<Rightarrow> tls_on_replace \<Rightarrow> cdb \<Rightarrow>
   (write_error + unit) \<times> cdb" where
  "try_replace_service show_time now caller ws current v seen tls s =
     (case decide_config s caller ws WriteAction of
        Err r \<Rightarrow> (Err (Refused r), s)
      | Ok actor \<Rightarrow>
          (case find_service s ws current of
             None \<Rightarrow> (Err (Refused (no_service current)), s)
           | Some old \<Rightarrow>
               if show_time (sd_updated old) \<noteq> seen then (Err (Refused stale), s)
               else if sv_name v \<noteq> current \<and> find_service s ws (sv_name v) \<noteq> None
               then (Err (Refused (service_exists (sv_name v))), s)
               else
                 (let v' = (if tls = KeptTls \<and> sv_protocol v = Https then v\<lparr>sv_tls := sv_tls (sd_row old)\<rparr> else v) in
                  if sd_row old = v' then (Ok (), s)
                  else (Ok (), config_audit actor ''update'' ''service'' (sd_id old) ws
                          (Some (service_json (sd_row old))) (Some (service_json v'))
                          (bumped (s\<lparr>cd_services := map (\<lambda>x. if sd_id x = sd_id old then x\<lparr>sd_row := v', sd_updated := now\<rparr> else x)
                             (cd_services s)\<rparr>))))))"

definition try_delete_service :: "uuid \<Rightarrow> uuid \<Rightarrow> string \<Rightarrow> cdb \<Rightarrow> (write_error + unit) \<times> cdb" where
  "try_delete_service caller ws name s =
     (case decide_config s caller ws DeleteAction of
        Err r \<Rightarrow> (Err (Refused r), s)
      | Ok actor \<Rightarrow>
          (case find_service s ws name of
             None \<Rightarrow> (Err (Refused (no_service name)), s)
           | Some old \<Rightarrow>
               (let used = length (filter (\<lambda>r. rd_service r = Some (sd_id old)) (cd_routes s)) in
                if 0 < used then
                  (Err (Refused (RConflict (Msg ''{routes} this service. Point them at another service or delete them first.''
                     [Text (if used = 1 then ''1 route uses'' else show_nat used @ '' routes use'')]))), s)
                else case no_policies s (\<lambda>p. po_service p = Some (sd_id old)) ''service'' of
                       Err r \<Rightarrow> (Err (Refused r), s)
                     | Ok _ \<Rightarrow>
                         (Ok (), config_audit actor ''delete'' ''service'' (sd_id old) ws (Some (service_json (sd_row old))) None
                            (bumped (bumped (s\<lparr>cd_services := filter (\<lambda>x. sd_id x \<noteq> sd_id old) (cd_services s)\<rparr>)))))))"

section \<open>Routes\<close>

definition service_of_route :: "cdb \<Rightarrow> route_record \<Rightarrow> service_record option" where
  "service_of_route s r = Option.bind (rd_service r) (\<lambda>i. find (\<lambda>v. sd_id v = i) (cd_services s))"

text \<open>A route joined with its service; one with none is not found.\<close>

definition find_route :: "cdb \<Rightarrow> uuid \<Rightarrow> string \<Rightarrow> (route_record \<times> service_record) option" where
  "find_route s ws name =
     (case find (\<lambda>r. rd_workspace r = ws \<and> rd_name r = name \<and> service_of_route s r \<noteq> None) (cd_routes s) of
        None \<Rightarrow> None
      | Some r \<Rightarrow> map_option (Pair r) (service_of_route s r))"

definition route_from :: "route_record \<Rightarrow> service_record \<Rightarrow> route_row option" where
  "route_from r v =
     (case (read_paths (rd_paths r), read_headers (rd_headers r)) of
        (Some paths, Some headers) \<Rightarrow>
          Some \<lparr>ro_name = rd_name r, ro_service = sv_name (sd_row v), ro_hosts = rd_hosts r, ro_paths = paths,
                ro_methods = rd_methods r, ro_headers = headers, ro_strip_path = rd_strip_path r,
                ro_priority = rd_priority r\<rparr>
      | _ \<Rightarrow> None)"

definition route_exists :: "string \<Rightarrow> refusal" where
  "route_exists name = RConflict (Msg ''A route named {} already exists in this workspace.'' [Text name])"

definition no_route :: "string \<Rightarrow> refusal" where
  "no_route name = RNotFound (Msg ''There is no route named {name} in this workspace.'' [Text name])"

record replaced =
  rp_current :: string
  rp_seen :: string
  rp_service_seen :: "string option"
  rp_kept :: kept_on_replace

definition existing_route ::
  "(int \<Rightarrow> string) \<Rightarrow> cdb \<Rightarrow> uuid \<Rightarrow> replaced \<Rightarrow> write_error + route_record \<times> route_row" where
  "existing_route show_time s ws p =
     (case find_route s ws (rp_current p) of
        None \<Rightarrow> Err (Refused (no_route (rp_current p)))
      | Some (r, v) \<Rightarrow>
          if show_time (rd_updated r) \<noteq> rp_seen p then Err (Refused stale)
          else if (case rp_service_seen p of Some t \<Rightarrow> show_time (sd_updated v) \<noteq> t | None \<Rightarrow> False) then Err (Refused stale)
          else case route_from r v of None \<Rightarrow> Err (StoreFailed None) | Some before \<Rightarrow> Ok (r, before))"

definition kept_route :: "route_row \<Rightarrow> kept_on_replace \<Rightarrow> route_row \<Rightarrow> route_row" where
  "kept_route before kept r =
     r\<lparr>ro_headers := (if kr_headers kept then ro_headers before else ro_headers r),
       ro_strip_path := (if kr_strip_path kept then ro_strip_path before else ro_strip_path r)\<rparr>"

definition stored_route :: "uuid \<Rightarrow> uuid \<Rightarrow> uuid \<Rightarrow> int \<Rightarrow> route_row \<Rightarrow> route_record" where
  "stored_route i ws service now r =
     \<lparr>rd_id = i, rd_workspace = ws, rd_service = Some service, rd_name = ro_name r, rd_hosts = ro_hosts r,
      rd_paths = JsonArray (map path_json (ro_paths r)), rd_methods = ro_methods r,
      rd_headers = JsonArray (map header_json (ro_headers r)), rd_strip_path = ro_strip_path r,
      rd_priority = ro_priority r, rd_updated = now\<rparr>"

definition route_named :: "cdb \<Rightarrow> uuid \<Rightarrow> string \<Rightarrow> bool" where
  "route_named s ws name \<longleftrightarrow> list_ex (\<lambda>r. rd_workspace r = ws \<and> rd_name r = name) (cd_routes s)"

definition try_write_route ::
  "(int \<Rightarrow> string) \<Rightarrow> int \<Rightarrow> uuid \<Rightarrow> uuid \<Rightarrow> replaced option \<Rightarrow> route_row \<Rightarrow> uuid \<Rightarrow> cdb \<Rightarrow> (write_error + unit) \<times> cdb" where
  "try_write_route show_time now caller ws replacing r0 new_id s =
     (case decide_config s caller ws WriteAction of
        Err e \<Rightarrow> (Err (Refused e), s)
      | Ok actor \<Rightarrow>
          (case (case replacing of None \<Rightarrow> Ok None | Some p \<Rightarrow> map_sum id Some (existing_route show_time s ws p)) of
             Err e \<Rightarrow> (Err e, s)
           | Ok existing \<Rightarrow>
               (let r = (case (existing, replacing) of
                           (Some (_, before), Some p) \<Rightarrow> kept_route before (rp_kept p) r0 | _ \<Rightarrow> r0) in
                case strip_path_fits r of
                  Err e \<Rightarrow> (Err (FieldRefused e), s)
                | Ok _ \<Rightarrow>
                    (case may_route s actor ws (ro_hosts r) of
                       Err e \<Rightarrow> (Err (Refused e), s)
                     | Ok _ \<Rightarrow>
                         (case find_service s ws (ro_service r) of
                            None \<Rightarrow> (Err (Refused (RInvalid (Msg ''There is no service named {} in this workspace.''
                                        [Text (ro_service r)]))), s)
                          | Some v \<Rightarrow>
                              (case existing of
                                 None \<Rightarrow>
                                   if route_named s ws (ro_name r) then (Err (Refused (route_exists (ro_name r))), s)
                                   else if new_id \<in> rd_id ` set (cd_routes s) then (Err (StoreFailed (Some ''23505'')), s)
                                   else (Ok (), config_audit actor ''create'' ''route'' new_id ws None (Some (route_json r))
                                          (bumped (s\<lparr>cd_routes := cd_routes s @ [stored_route new_id ws (sd_id v) now r]\<rparr>)))
                               | Some (old, before) \<Rightarrow>
                                   if ro_name r \<noteq> ro_name before \<and> route_named s ws (ro_name r)
                                   then (Err (Refused (route_exists (ro_name r))), s)
                                   else if before = r then (Ok (), s)
                                   else (Ok (), config_audit actor ''update'' ''route'' (rd_id old) ws
                                          (Some (route_json before)) (Some (route_json r))
                                          (bumped (s\<lparr>cd_routes := map (\<lambda>x. if rd_id x = rd_id old
                                             then stored_route (rd_id old) (rd_workspace x) (sd_id v) now r else x) (cd_routes s)\<rparr>)))))))))"

definition try_delete_route :: "uuid \<Rightarrow> uuid \<Rightarrow> string \<Rightarrow> cdb \<Rightarrow> (write_error + unit) \<times> cdb" where
  "try_delete_route caller ws name s =
     (case decide_config s caller ws DeleteAction of
        Err r \<Rightarrow> (Err (Refused r), s)
      | Ok actor \<Rightarrow>
          (case find_route s ws name of
             None \<Rightarrow> (Err (Refused (no_route name)), s)
           | Some (r, v) \<Rightarrow>
               (case no_policies s (\<lambda>p. po_route p = Some (rd_id r)) ''route'' of
                  Err e \<Rightarrow> (Err (Refused e), s)
                | Ok _ \<Rightarrow>
                    (case route_from r v of
                       None \<Rightarrow> (Err (StoreFailed None), s)
                     | Some before \<Rightarrow>
                         (Ok (), config_audit actor ''delete'' ''route'' (rd_id r) ws (Some (route_json before)) None
                            (bumped (bumped (s\<lparr>cd_routes := filter (\<lambda>x. rd_id x \<noteq> rd_id r) (cd_routes s)\<rparr>))))))))"

section \<open>The snapshot\<close>

definition json_get :: "string \<Rightarrow> json \<Rightarrow> json option" where
  "json_get k v = (case v of JsonObject kvs \<Rightarrow> map_of kvs k | _ \<Rightarrow> None)"

definition json_str :: "json option \<Rightarrow> string option" where
  "json_str v = (case v of Some (JsonString t) \<Rightarrow> Some t | _ \<Rightarrow> None)"

text \<open>Why a snapshot failed: the row it could not read.\<close>

datatype row_error =
    NotAList string | NoText string | NotAbsolute string | BadRegex string string | UnknownPathType "string option"
  | ForeignService string string

text \<open>The verdicts on patterns, kept from one snapshot to the next.\<close>

type_synonym regex_cache = "string \<rightharpoonup> string + unit"

definition regex_verdict ::
  "'re builder \<Rightarrow> (regex_error \<Rightarrow> string) \<Rightarrow> string \<Rightarrow> regex_cache \<Rightarrow> (string + unit) \<times> regex_cache" where
  "regex_verdict build show_error pattern cache =
     (case cache pattern of
        Some v \<Rightarrow> (v, cache)
      | None \<Rightarrow>
          (let v = map_sum show_error (\<lambda>_. ()) (compile_path_regex build pattern) in (v, cache(pattern \<mapsto> v))))"

definition parse_path ::
  "'re builder \<Rightarrow> (regex_error \<Rightarrow> string) \<Rightarrow> json \<Rightarrow> regex_cache \<Rightarrow> (row_error + path_match) \<times> regex_cache" where
  "parse_path build show_error e cache =
     (case json_str (json_get ''value'' e) of
        None \<Rightarrow> (Err (NoText ''value''), cache)
      | Some v \<Rightarrow>
          (let kind = json_str (json_get ''type'' e) in
           if \<not> prefix ''/'' v \<and> kind \<noteq> Some ''regex'' then (Err (NotAbsolute v), cache)
           else if kind = Some ''exact'' then (Ok (Exact v), cache)
           else if kind = Some ''prefix'' then (Ok (Prefix v), cache)
           else if kind = Some ''regex'' then
             (case regex_verdict build show_error v cache of
                (Ok _, cache') \<Rightarrow> (Ok (Regex v), cache')
              | (Err why, cache') \<Rightarrow> (Err (BadRegex v why), cache'))
           else (Err (UnknownPathType kind), cache)))"

fun parse_path_list ::
  "'re builder \<Rightarrow> (regex_error \<Rightarrow> string) \<Rightarrow> json list \<Rightarrow> regex_cache \<Rightarrow> (row_error + path_match list) \<times> regex_cache" where
  "parse_path_list build show_error [] cache = (Ok [], cache)"
| "parse_path_list build show_error (e # es) cache =
     (case parse_path build show_error e cache of
        (Err x, cache1) \<Rightarrow> (Err x, cache1)
      | (Ok p, cache1) \<Rightarrow>
          (case parse_path_list build show_error es cache1 of
             (Err x, cache2) \<Rightarrow> (Err x, cache2)
           | (Ok ps, cache2) \<Rightarrow> (Ok (p # ps), cache2)))"

definition parse_paths ::
  "'re builder \<Rightarrow> (regex_error \<Rightarrow> string) \<Rightarrow> json \<Rightarrow> regex_cache \<Rightarrow> (row_error + path_match list) \<times> regex_cache" where
  "parse_paths build show_error v cache =
     (case v of JsonArray es \<Rightarrow> parse_path_list build show_error es cache | _ \<Rightarrow> (Err (NotAList ''paths''), cache))"

definition header_text :: "string \<Rightarrow> json \<Rightarrow> row_error + string" where
  "header_text k e =
     (case json_str (json_get k e) of Some t \<Rightarrow> if t \<noteq> [] then Ok t else Err (NoText k) | None \<Rightarrow> Err (NoText k))"

definition parse_header :: "json \<Rightarrow> row_error + kv_match" where
  "parse_header e =
     (case header_text ''name'' e of
        Err x \<Rightarrow> Err x
      | Ok n \<Rightarrow> (case header_text ''value'' e of Err x \<Rightarrow> Err x | Ok v \<Rightarrow> Ok \<lparr>kv_name = n, kv_value = v\<rparr>))"

fun parse_header_list :: "json list \<Rightarrow> row_error + kv_match list" where
  "parse_header_list [] = Ok []"
| "parse_header_list (e # es) =
     (case parse_header e of
        Err x \<Rightarrow> Err x
      | Ok h \<Rightarrow> (case parse_header_list es of Err x \<Rightarrow> Err x | Ok hs \<Rightarrow> Ok (h # hs)))"

definition parse_headers :: "json \<Rightarrow> row_error + kv_match list" where
  "parse_headers v = (case v of JsonArray es \<Rightarrow> parse_header_list es | _ \<Rightarrow> Err (NotAList ''headers''))"

text \<open>The services, joined with their workspaces and sorted by both names.\<close>

definition workspace_named :: "cdb \<Rightarrow> uuid \<Rightarrow> string option" where
  "workspace_named s i = map_option wk_name (find (\<lambda>w. wk_id w = i) (db_workspaces (cd_db s)))"

definition u32_of :: "int \<Rightarrow> u32 option" where
  "u32_of ms = (if 0 \<le> ms \<and> ms < 2 ^ 32 then Some (word_of_int ms) else None)"

definition snapshot_service :: "string \<Rightarrow> service_row \<Rightarrow> store_service" where
  "snapshot_service w v =
     \<lparr>ss_workspace = w, ss_name = sv_name v, ss_protocol = sv_protocol v, ss_host = sv_host v,
      ss_port = word_of_int (sv_port v),
      ss_connect_timeout_ms = Option.bind (sv_connect_timeout_ms v) u32_of,
      ss_read_timeout_ms = Option.bind (sv_read_timeout_ms v) u32_of,
      ss_tls_verify = ut_verify (sv_tls v), ss_tls_ca_pem = ut_ca_pem (sv_tls v), ss_tls_sni = ut_sni (sv_tls v)\<rparr>"

definition snapshot_services :: "cdb \<Rightarrow> store_service list" where
  "snapshot_services s =
     sort_key (\<lambda>v. (ss_workspace v, ss_name v))
       (List.map_filter (\<lambda>v. map_option (\<lambda>w. snapshot_service w (sd_row v)) (workspace_named s (sd_workspace v)))
          (cd_services s))"

definition snapshot_route ::
  "'re builder \<Rightarrow> (regex_error \<Rightarrow> string) \<Rightarrow> string \<times> route_record \<times> service_record \<Rightarrow> regex_cache \<Rightarrow>
   (row_error + store_route) \<times> regex_cache" where
  "snapshot_route build show_error = (\<lambda>(w, r, v) cache.
     if rd_workspace r \<noteq> sd_workspace v then (Err (ForeignService (rd_name r) w), cache)
     else case parse_paths build show_error (rd_paths r) cache of
            (Err x, cache1) \<Rightarrow> (Err x, cache1)
          | (Ok paths, cache1) \<Rightarrow>
              (case parse_headers (rd_headers r) of
                 Err x \<Rightarrow> (Err x, cache1)
               | Ok headers \<Rightarrow>
                   (Ok \<lparr>sr_workspace = w, sr_name = rd_name r, sr_service = sv_name (sd_row v), sr_hosts = rd_hosts r,
                        sr_paths = paths, sr_methods = rd_methods r, sr_headers = headers,
                        sr_strip_path = rd_strip_path r, sr_priority = rd_priority r\<rparr>, cache1)))"

fun snapshot_route_list ::
  "'re builder \<Rightarrow> (regex_error \<Rightarrow> string) \<Rightarrow> (string \<times> route_record \<times> service_record) list \<Rightarrow> regex_cache \<Rightarrow>
   (row_error + store_route list) \<times> regex_cache" where
  "snapshot_route_list build show_error [] cache = (Ok [], cache)"
| "snapshot_route_list build show_error (e # es) cache =
     (case snapshot_route build show_error e cache of
        (Err x, cache1) \<Rightarrow> (Err x, cache1)
      | (Ok r, cache1) \<Rightarrow>
          (case snapshot_route_list build show_error es cache1 of
             (Err x, cache2) \<Rightarrow> (Err x, cache2)
           | (Ok rs, cache2) \<Rightarrow> (Ok (r # rs), cache2)))"

definition joined_routes :: "cdb \<Rightarrow> (string \<times> route_record \<times> service_record) list" where
  "joined_routes s =
     sort_key (\<lambda>(w, r, _). (w, rd_name r))
       (List.map_filter (\<lambda>r. Option.bind (service_of_route s r) (\<lambda>v.
          map_option (\<lambda>w. (w, r, v)) (workspace_named s (rd_workspace r)))) (cd_routes s))"

definition snapshot_routes ::
  "'re builder \<Rightarrow> (regex_error \<Rightarrow> string) \<Rightarrow> cdb \<Rightarrow> regex_cache \<Rightarrow> (row_error + store_route list) \<times> regex_cache" where
  "snapshot_routes build show_error s cache = snapshot_route_list build show_error (joined_routes s) cache"

section \<open>Histories\<close>

datatype config_operation =
    CreateService uuid uuid service_input uuid
  | ReplaceService uuid uuid string service_input
  | DeleteService uuid uuid string
  | CreateRoute uuid uuid route_input uuid
  | ReplaceRoute uuid uuid string route_input
  | DeleteRoute uuid uuid string

text \<open>The third-party code the console calls, and how Postgres shows a time.\<close>

record 're console_env =
  ce_build :: "'re builder"
  ce_show_error :: "regex_error \<Rightarrow> string"
  ce_pem :: pem_reader
  ce_show_time :: "int \<Rightarrow> string"

definition written :: "(write_error + unit) \<times> cdb \<Rightarrow> (write_error option \<times> cdb) run" where
  "written p = Returns (case fst p of Err e \<Rightarrow> Some e | Ok _ \<Rightarrow> None, snd p)"

text \<open>A name in the path of a request that no row can have is answered without a query.\<close>

definition refuse_name :: "string \<Rightarrow> string \<Rightarrow> refusal option" where
  "refuse_name kind name =
     (case config_name name ''name'' of
        Ok _ \<Rightarrow> None
      | Err _ \<Rightarrow> Some (if kind = ''service'' then no_service name else no_route name))"

definition unless_refused ::
  "string \<Rightarrow> string \<Rightarrow> cdb \<Rightarrow> (write_error option \<times> cdb) run \<Rightarrow> (write_error option \<times> cdb) run" where
  "unless_refused kind name s rest =
     (case refuse_name kind name of Some r \<Rightarrow> Returns (Some (Refused r), s) | None \<Rightarrow> rest)"

text \<open>
  A request as its handler in \<^verbatim>\<open>configuration_api.rs\<close> takes it, once its workspace was found by name:
  checked, then written. The handler's own check of the caller's role, before, is made again inside.
\<close>

fun configure :: "'re console_env \<Rightarrow> int \<Rightarrow> config_operation \<Rightarrow> cdb \<Rightarrow> (write_error option \<times> cdb) run" where
  "configure env now (CreateService c ws input i) s =
     (case service_checked (ce_pem env) input Creating of
        Err e \<Rightarrow> Returns (Some (FieldRefused e), s)
      | Ok (v, _) \<Rightarrow> written (try_create_service now c ws v i s))"
| "configure env now (ReplaceService c ws current input) s = unless_refused ''service'' current s
     (case service_checked (ce_pem env) input Replacing of
        Err e \<Rightarrow> Returns (Some (FieldRefused e), s)
      | Ok (_, None) \<Rightarrow> Returns (Some (FieldRefused (field_refused ''updated_at'' unseen)), s)
      | Ok (v, Some seen) \<Rightarrow>
          written (try_replace_service (ce_show_time env) now c ws current v seen
            (if si_tls input = None then KeptTls else AsSent) s))"
| "configure env now (DeleteService c ws name) s =
     unless_refused ''service'' name s (written (try_delete_service c ws name s))"
| "configure env now (CreateRoute c ws input i) s =
     run_bind (route_checked (ce_build env) (ce_show_error env) input Creating) (\<lambda>checked.
       case checked of
         Err e \<Rightarrow> Returns (Some (FieldRefused e), s)
       | Ok (r, _) \<Rightarrow> written (try_write_route (ce_show_time env) now c ws None r i s))"
| "configure env now (ReplaceRoute c ws current input) s = unless_refused ''route'' current s
     (run_bind (route_checked (ce_build env) (ce_show_error env) input Replacing) (\<lambda>checked.
       case checked of
         Err e \<Rightarrow> Returns (Some (FieldRefused e), s)
       | Ok (_, None) \<Rightarrow> Returns (Some (FieldRefused (field_refused ''updated_at'' unseen)), s)
       | Ok (r, Some seen) \<Rightarrow>
           written (try_write_route (ce_show_time env) now c ws
             (Some \<lparr>rp_current = current, rp_seen = seen,
                    rp_service_seen = ri_service_updated_at input, rp_kept = kept_of input\<rparr>) r 0 s)))"
| "configure env now (DeleteRoute c ws name) s =
     unless_refused ''route'' name s (written (try_delete_route c ws name s))"

end
