(* ===== verification/Config_Paths.thy ===== *)
theory Config_Paths
  imports Configuration Store_Sound Rules_Sound
begin

text \<open>
  The paths the console accepts are in the normal form the data plane compares requests in: an
  accepted prefix or exact path is its own normal form, with the one exception of an escape that
  starts with a plus sign.
\<close>

section \<open>Characters of ASCII texts\<close>

lemma code_point_multi: "utf8_multi m \<Longrightarrow> 128 \<le> code_point m"
  by (auto simp: utf8_multi_def utf8_two_def utf8_three_def utf8_four_def is_continuation_def)

lemma chars_ascii_only:
  assumes "valid_utf8 v" "\<forall>c \<in> set (chars v). c < 128"
  shows "chars v = map byte v" "\<forall>c \<in> set v. byte c < 128"
proof -
  have "chars v = map byte v \<and> (\<forall>c \<in> set v. byte c < 128)"
    using assms
  proof (induction v rule: valid_utf8_induct)
    case (multi m s)
    have "code_point m < 128" using multi.prems multi.hyps by (simp add: chars_multi)
    with code_point_multi multi.hyps show ?case by fastforce
  qed simp_all
  then show "chars v = map byte v" "\<forall>c \<in> set v. byte c < 128" by simp_all
qed

section \<open>Uppercased escapes\<close>

lemma upcase_upper: "to_ascii_uppercase (upcase_escapes v) = to_ascii_uppercase v"
  by (induction v rule: upcase_escapes.induct) simp_all

lemma ascii_upper_eq:
  assumes "c \<in> {CHR ''/'', CHR ''.'', CHR '';'', CHR ''%''}"
  shows "ascii_upper x = c \<longleftrightarrow> x = c"
proof -
  have "byte c \<in> {47, 46, 59, 37}" using assms by auto
  moreover have "byte (ascii_upper x) = (if is_ascii_lowercase x then byte x - 32 else byte x)"
    by (rule byte_ascii_upper)
  ultimately show ?thesis by (cases "is_ascii_lowercase x") (auto simp: ascii_upper_def is_ascii_lowercase_def)
qed

lemmas upper_marks [simp] = ascii_upper_eq [of "CHR ''/''", simplified] ascii_upper_eq [of "CHR ''.''", simplified]
  ascii_upper_eq [of "CHR '';''", simplified] ascii_upper_eq [of "CHR ''%''", simplified]

lemma upper_member: "c \<in> {CHR ''/'', CHR ''.'', CHR '';'', CHR ''%''} \<Longrightarrow> c \<in> set (to_ascii_uppercase s) \<longleftrightarrow> c \<in> set s"
  by (induction s) (auto simp: eq_commute [of _ "ascii_upper _"])

lemma upcase_member: "c \<in> {CHR ''/'', CHR ''.'', CHR '';'', CHR ''%''} \<Longrightarrow> c \<in> set (upcase_escapes v) \<longleftrightarrow> c \<in> set v"
  using upper_member [of c "upcase_escapes v"] upper_member [of c v] by (simp only: upcase_upper)

lemma split_on_map:
  assumes "\<And>c. f c = d \<longleftrightarrow> c = d"
  shows "split_on d (map f s) = map (map f) (split_on d s)"
proof (induction s)
  case (Cons c s)
  then show ?case using assms [of c] split_on_nonempty [of d s] by (auto split: list.splits)
qed simp

lemma upper_dots: "map ascii_upper seg = ''.'' \<longleftrightarrow> seg = ''.''" "map ascii_upper seg = ''..'' \<longleftrightarrow> seg = ''..''"
  by (cases seg; cases "tl seg"; simp)+

lemma upper_segments: "list_ex (\<lambda>seg. seg = ''.'' \<or> seg = ''..'') (split_on CHR ''/'' (to_ascii_uppercase s)) =
    list_ex (\<lambda>seg. seg = ''.'' \<or> seg = ''..'') (split_on CHR ''/'' s)"
  by (simp add: split_on_map list_ex_iff upper_dots)

lemma upcase_segments: "list_ex (\<lambda>seg. seg = ''.'' \<or> seg = ''..'') (split_on CHR ''/'' (upcase_escapes v)) =
    list_ex (\<lambda>seg. seg = ''.'' \<or> seg = ''..'') (split_on CHR ''/'' v)"
  using upper_segments [of "upcase_escapes v"] upper_segments [of v] by (simp only: upcase_upper)

lemma upper_double_slash: "str_contains ''//'' (to_ascii_uppercase s) = str_contains ''//'' s"
proof (induction s)
  case (Cons c s)
  then show ?case by (cases s) (simp_all add: eq_commute [of "CHR ''/''"])
qed simp

lemma upcase_double_slash: "str_contains ''//'' (upcase_escapes v) = str_contains ''//'' v"
  using upper_double_slash [of "upcase_escapes v"] upper_double_slash [of v] by (simp only: upcase_upper)

lemma upcase_starts: "prefix ''/'' v \<Longrightarrow> prefix ''/'' (upcase_escapes v)"
  by (cases v rule: upcase_escapes.cases) auto

lemma upcase_ascii: "\<forall>c \<in> set v. byte c < 128 \<Longrightarrow> \<forall>c \<in> set (upcase_escapes v). byte c < 128"
  by (induction v rule: upcase_escapes.induct) (auto simp: hexdigit_upper hex_byte_ascii)

lemma squeeze_fixed: "\<not> str_contains ''//'' v \<Longrightarrow> (b \<longrightarrow> \<not> prefix ''/'' v) \<Longrightarrow> squeeze b v = v"
proof (induction v arbitrary: b)
  case (Cons c v)
  then show ?case by (cases v) auto
qed simp

text \<open>An escape the console takes with a plus sign, which no request carries.\<close>

definition plus_escape :: "string \<Rightarrow> bool" where
  "plus_escape v \<longleftrightarrow> str_contains ''%+'' v"

lemma escapes_canonical:
  assumes "escapes_checked v = None" "\<forall>c \<in> set v. byte c < 128" "\<not> plus_escape v"
  shows "canonical (upcase_escapes v)"
  using assms
proof (induction v rule: upcase_escapes.induct)
  case (1 c a b s)
  show ?case
  proof (cases "c = CHR ''%''")
    case True
    with "1.prems"(3) have "a \<noteq> CHR ''+''" by (auto simp: plus_escape_def)
    with "1.prems" True have hex: "is_ascii_hexdigit a" "is_ascii_hexdigit b"
        and u: "\<not> unreserved (escaped_byte a b)" and rest: "escapes_checked (a # b # s) = None"
      by (auto simp: radix16_pair_def escaped_byte_def split: option.splits if_splits)
    have "a \<noteq> CHR ''%''" "b \<noteq> CHR ''%''" using hex hex_byte_ascii by blast+
    with rest have "escapes_checked s = None" by simp
    moreover have "\<not> plus_escape s" using "1.prems"(3) by (auto simp: plus_escape_def)
    ultimately have "canonical (upcase_escapes s)" using 1(1) True hex "1.prems"(2) by simp
    moreover have "upcase_escapes s = [] \<or> \<not> is_continuation (hd (upcase_escapes s))"
      using upcase_ascii [of s] "1.prems"(2) by (cases "upcase_escapes s") (auto simp: is_continuation_def)
    ultimately show ?thesis using True hex u by (simp add: hexdigit_upper escaped_byte_upper)
  next
    case False
    with "1.prems" have "escapes_checked (a # b # s) = None" "\<not> plus_escape (a # b # s)" by (auto simp: plus_escape_def)
    with 1(2) False "1.prems"(2) show ?thesis by simp
  qed
qed (auto split: if_splits list.splits)

section \<open>Accepted paths\<close>

lemma path_refusal_None:
  assumes "path_refusal v = None"
  shows "prefix ''/'' v" "list_all visible_point (chars v)" "CHR '';'' \<notin> set v" "\<not> str_contains ''//'' v"
    "\<not> list_ex (\<lambda>seg. seg = ''.'' \<or> seg = ''..'') (split_on CHR ''/'' v)" "escapes_checked v = None"
  using assms by (simp_all add: path_refusal_def split: if_split_asm)

lemma plain_path_Ok:
  assumes "plain_path kind v at = Returns (Ok u)" "valid_utf8 v"
  shows "path_refusal v = None" "u = (if kind = ''prefix'' then pop_slashes (upcase_escapes v) else upcase_escapes v)"
  using assms by (auto simp: plain_path_def uppercase_escapes_total split: option.splits)

lemma visible_ascii:
  assumes "valid_utf8 v" "list_all visible_point (chars v)"
  shows "\<forall>c \<in> set v. byte c < 128"
proof (rule chars_ascii_only(2) [OF assms(1)])
  show "\<forall>c \<in> set (chars v). c < 128" using assms(2) by (auto simp: list_all_iff visible_point_def)
qed

lemma plain_path_normal:
  assumes "plain_path kind v at = Returns (Ok u)" "valid_utf8 v" "\<not> plus_escape v"
  shows "normal u"
proof -
  define w where w: "w = upcase_escapes v"
  note v = path_refusal_None [OF plain_path_Ok(1) [OF assms(1,2)]]
  have "valid_utf8 w" using uppercase_escapes_total [OF assms(2)] w by (auto simp: uppercase_escapes_def split: if_splits)
  have "\<not> has_dot_segment w"
  proof -
    have "CHR '';'' \<notin> set w" using v(3) w upcase_member by simp
    then have "\<forall>seg \<in> set (split_on CHR ''/'' w). without_params seg = seg"
      by (auto simp: without_params_takeWhile takeWhile_eq_all_conv dest: split_on_subset)
    then show ?thesis using v(5) upcase_segments [of v] w by (simp add: has_dot_segment_def list_ex_iff)
  qed
  moreover have "canonical w" using escapes_canonical [OF v(6) visible_ascii [OF assms(2) v(2)] assms(3)] w by simp
  ultimately have "normal w"
    using upcase_starts [OF v(1)] w v(4) upcase_double_slash \<open>valid_utf8 w\<close> by (simp add: normal_iff squeeze_fixed)
  then show ?thesis using plain_path_Ok(2) [OF assms(1,2)] normal_pop_slashes w by simp
qed

section \<open>Accepted rows\<close>

text \<open>What a row that passed the checks is like, as far as the compiler and the snapshot care.\<close>

definition path_ok :: "'re builder \<Rightarrow> path_entry \<Rightarrow> bool" where
  "path_ok build p \<longleftrightarrow>
     (if pa_kind p = ''regex'' then \<exists>re. compile_path_regex build (pa_value p) = Ok re
      else pa_kind p \<in> {''prefix'', ''exact''} \<and> prefix ''/'' (pa_value p) \<and> CHR '';'' \<notin> set (pa_value p))"

definition header_ok :: "header_match \<Rightarrow> bool" where
  "header_ok h \<longleftrightarrow> hm_name h \<noteq> [] \<and> to_ascii_lowercase (hm_name h) = hm_name h \<and> hm_name h \<notin> set gateway_headers \<and> hm_value h \<noteq> []"

definition host_ok :: "string \<Rightarrow> bool" where
  "host_ok h \<longleftrightarrow> to_ascii_lowercase h = h \<and> dns_name (bare_host h)"

definition strip_ok :: "bool \<Rightarrow> path_entry list \<Rightarrow> bool" where
  "strip_ok strip paths \<longleftrightarrow> \<not> (strip \<and> list_ex (\<lambda>p. pa_kind p = ''regex'') paths)"

definition route_row_ok :: "'re builder \<Rightarrow> route_row \<Rightarrow> bool" where
  "route_row_ok build r \<longleftrightarrow> list_all (path_ok build) (ro_paths r) \<and> list_all header_ok (ro_headers r) \<and>
     list_all host_ok (ro_hosts r) \<and> strip_ok (ro_strip_path r) (ro_paths r)"

lemma pop_slashes_prefix: "prefix ''/'' p \<Longrightarrow> prefix ''/'' (pop_slashes p)"
proof (induction p rule: pop_slashes.induct)
  case (1 p)
  show ?case
  proof (cases "1 < length p \<and> last p = CHR ''/''")
    case True
    then have "prefix ''/'' (butlast p)" using "1.prems" by (cases p; cases "tl p") auto
    with 1(1) True show ?thesis by (subst pop_slashes.simps) simp
  next
    case False
    with "1.prems" show ?thesis by (subst pop_slashes.simps) auto
  qed
qed

lemma pop_slashes_set: "set (pop_slashes p) \<subseteq> set p"
proof (induction p rule: pop_slashes.induct)
  case (1 p)
  then show ?case by (subst pop_slashes.simps) (auto dest: in_set_butlastD)
qed

lemma plain_path_shape:
  assumes "plain_path kind v at = Returns (Ok u)" "valid_utf8 v"
  shows "prefix ''/'' u" "CHR '';'' \<notin> set u"
proof -
  note v = path_refusal_None [OF plain_path_Ok(1) [OF assms]]
  have "prefix ''/'' (upcase_escapes v)" "CHR '';'' \<notin> set (upcase_escapes v)"
    using upcase_starts [OF v(1)] v(3) upcase_member by simp_all
  then show "prefix ''/'' u" "CHR '';'' \<notin> set u"
    using plain_path_Ok(2) [OF assms] pop_slashes_prefix pop_slashes_set [of "upcase_escapes v"] by auto
qed

lemma path_value_ok:
  assumes "path_value_checked build se p at = Returns (Ok v)" "valid_utf8 (pa_value p)" "pa_kind p \<in> set path_types"
  shows "path_ok build \<lparr>pa_kind = pa_kind p, pa_value = v\<rparr>"
proof (cases "pa_kind p = ''regex''")
  case True
  with assms show ?thesis
    by (auto simp: path_value_checked_def path_ok_def console_regex_def run_bind_Returns split: sum.splits if_splits)
next
  case False
  with assms(1) have "plain_path (pa_kind p) (pa_value p) at = Returns (Ok v)" by (simp add: path_value_checked_def)
  from plain_path_shape [OF this assms(2)] False assms(3) show ?thesis by (auto simp: path_ok_def path_types_def)
qed

lemma paths_loop_all:
  "paths_loop build se i ps out = Returns (Ok qs) \<Longrightarrow> list_all Q out \<Longrightarrow>
   (\<And>p at v. p \<in> set ps \<Longrightarrow> pa_kind p \<in> set path_types \<Longrightarrow> path_value_checked build se p at = Returns (Ok v) \<Longrightarrow>
      Q \<lparr>pa_kind = pa_kind p, pa_value = v\<rparr>) \<Longrightarrow> list_all Q qs"
proof (induction ps arbitrary: i out)
  case (Cons p ps)
  let ?entry = "\<lambda>v. \<lparr>pa_kind = pa_kind p, pa_value = v\<rparr>"
  from Cons.prems(1) have k: "pa_kind p \<in> set path_types"
      and "run_bind (path_value_checked build se p (indexed ''paths'' i ''.value'')) (\<lambda>r. case r of Err e \<Rightarrow> Returns (Err e)
        | Ok v \<Rightarrow> paths_loop build se (Suc i) ps (if ?entry v \<in> set out then out else out @ [?entry v])) = Returns (Ok qs)"
    by (simp_all add: Let_def split: if_split_asm)
  then obtain x where x: "path_value_checked build se p (indexed ''paths'' i ''.value'') = Returns x"
      "(case x of Err e \<Rightarrow> Returns (Err e)
        | Ok v \<Rightarrow> paths_loop build se (Suc i) ps (if ?entry v \<in> set out then out else out @ [?entry v])) = Returns (Ok qs)"
    unfolding run_bind_Returns by blast
  then obtain v where v: "path_value_checked build se p (indexed ''paths'' i ''.value'') = Returns (Ok v)"
      and rest: "paths_loop build se (Suc i) ps (if ?entry v \<in> set out then out else out @ [?entry v]) = Returns (Ok qs)"
    by (cases x) simp_all
  have "Q (?entry v)" using Cons.prems(3) [OF _ k v] by simp
  with Cons.prems(2) have "list_all Q (if ?entry v \<in> set out then out else out @ [?entry v])" by simp
  then show ?case by (rule Cons.IH [OF rest]) (use Cons.prems(3) in simp)
qed simp

lemma paths_loop_ok:
  assumes "paths_loop build se i ps [] = Returns (Ok qs)" "\<forall>p \<in> set ps. valid_utf8 (pa_value p)"
  shows "list_all (path_ok build) qs"
  using assms(1) by (rule paths_loop_all) (simp_all add: path_value_ok assms(2))

text \<open>Without an escape that starts with a plus sign, an accepted path is its own normal form.\<close>

definition path_normal :: "path_entry \<Rightarrow> bool" where
  "path_normal p \<longleftrightarrow> pa_kind p = ''regex'' \<or> normal (pa_value p)"

lemma paths_loop_normal:
  assumes "paths_loop build se i ps [] = Returns (Ok qs)" "\<forall>p \<in> set ps. valid_utf8 (pa_value p) \<and> \<not> plus_escape (pa_value p)"
  shows "list_all path_normal qs"
  using assms(1)
proof (rule paths_loop_all)
  fix p at v assume "p \<in> set ps" "path_value_checked build se p at = Returns (Ok v)"
  with assms(2) show "path_normal \<lparr>pa_kind = pa_kind p, pa_value = v\<rparr>"
    using plain_path_normal [of "pa_kind p" "pa_value p" at v]
    by (cases "pa_kind p = ''regex''") (simp_all add: path_normal_def path_value_checked_def)
qed simp

lemma headers_loop_ok:
  "headers_loop i hs out = Ok qs \<Longrightarrow> list_all header_ok out \<Longrightarrow> list_all header_ok qs"
proof (induction hs arbitrary: i out)
  case (Cons h hs)
  let ?h = "\<lparr>hm_name = to_ascii_lowercase (hm_name h), hm_value = hm_value h\<rparr>"
  from Cons.prems(1) have ok: "header_token (hm_name h)" "to_ascii_lowercase (hm_name h) \<notin> set gateway_headers" "header_value_ok (hm_value h)"
      and rest: "headers_loop (i + 1) hs (out @ [?h]) = Ok qs"
    by (simp_all add: Let_def split: if_split_asm)
  have "header_ok ?h" using ok by (simp add: header_ok_def header_token_def header_value_ok_def comp_def)
  with Cons.IH [OF rest] Cons.prems(2) show ?case by simp
qed simp

lemma hosts_loop_ok: "hosts_loop i hs out = Ok qs \<Longrightarrow> list_all host_ok out \<Longrightarrow> list_all host_ok qs"
proof (induction hs arbitrary: i out)
  case (Cons h hs)
  let ?l = "to_ascii_lowercase h"
  have ok: "dns_name (bare_host ?l)"
    using Cons.prems(1) by (rule contrapos_pp) (simp add: Let_def)
  from Cons.prems(1) have rest: "hosts_loop (i + 1) hs (if ?l \<in> set out then out else out @ [?l]) = Ok qs"
    unfolding hosts_loop.simps Let_def if_not_P [OF not_not [THEN iffD2, OF ok]] .
  have "host_ok ?l" using ok by (simp add: host_ok_def comp_def)
  with Cons.prems(2) show ?case by (intro Cons.IH [OF rest]) simp_all
qed simp

text \<open>A request that passes gives such a row.\<close>

lemma route_finished_ok:
  assumes "route_finished input kind n svc hosts paths = Ok (r, seen)"
  shows "ro_hosts r = hosts" "ro_paths r = paths" "list_all header_ok (ro_headers r)" "strip_ok (ro_strip_path r) paths"
proof -
  from assms obtain methods hdrs where hd: "headers_checked (case ri_headers input of Some hs \<Rightarrow> hs | None \<Rightarrow> []) = Ok hdrs"
      and r: "r = \<lparr>ro_name = n, ro_service = svc, ro_hosts = hosts, ro_paths = paths, ro_methods = methods,
           ro_headers = hdrs, ro_strip_path = (case ri_strip_path input of Some b \<Rightarrow> b | None \<Rightarrow> False), ro_priority = ri_priority input\<rparr>"
      and fits: "strip_path_fits r = Ok ()"
    by (auto simp: route_finished_def Let_def split: sum.splits if_split_asm)
  show "ro_hosts r = hosts" "ro_paths r = paths" by (simp_all add: r)
  show "list_all header_ok (ro_headers r)"
    using hd headers_loop_ok [of 0 _ "[]" hdrs] by (auto simp: r headers_checked_def split: if_split_asm)
  show "strip_ok (ro_strip_path r) paths" using fits by (auto simp: r strip_path_fits_def strip_ok_def split: if_split_asm)
qed

lemma route_checked_Ok:
  assumes "route_checked build se input kind = Returns (Ok (r, seen))"
  obtains n svc hosts paths where "hosts_loop 0 (ri_hosts input) [] = Ok hosts"
    "paths_loop build se 0 (ri_paths input) [] = Returns (Ok paths)" "route_finished input kind n svc hosts paths = Ok (r, seen)"
  using assms that
  by (cases "config_name (ri_name input) ''name''"; cases "config_name (ri_service input) ''service''";
      cases "hosts_loop 0 (ri_hosts input) []"; cases "paths_loop build se 0 (ri_paths input) []")
     (auto simp: route_checked_def split: if_split_asm sum.split_asm)

lemma route_checked_ok:
  assumes "route_checked build se input kind = Returns (Ok (r, seen))" "\<forall>p \<in> set (ri_paths input). valid_utf8 (pa_value p)"
  shows "route_row_ok build r"
proof -
  from route_checked_Ok [OF assms(1)] obtain n svc hosts paths where h: "hosts_loop 0 (ri_hosts input) [] = Ok hosts"
      and p: "paths_loop build se 0 (ri_paths input) [] = Returns (Ok paths)"
      and f: "route_finished input kind n svc hosts paths = Ok (r, seen)" .
  have "list_all host_ok hosts" using hosts_loop_ok [OF h] by simp
  moreover have "list_all (path_ok build) paths" using paths_loop_ok [OF p assms(2)] by simp
  ultimately show ?thesis using route_finished_ok [OF f] by (simp add: route_row_ok_def)
qed

text \<open>A request of texts is answered: the one \<open>expect\<close> on the way never fires.\<close>

lemma path_value_total: "valid_utf8 (pa_value p) \<Longrightarrow> \<exists>x. path_value_checked build se p at = Returns x"
  by (auto simp: path_value_checked_def plain_path_def uppercase_escapes_total split: sum.splits option.splits)

lemma paths_loop_total: "\<forall>p \<in> set ps. valid_utf8 (pa_value p) \<Longrightarrow> \<exists>x. paths_loop build se i ps out = Returns x"
proof (induction ps arbitrary: i out)
  case (Cons p ps)
  obtain x where x: "path_value_checked build se p (indexed ''paths'' i ''.value'') = Returns x"
    using path_value_total Cons.prems by (meson list.set_intros(1))
  have "\<exists>y. paths_loop build se (Suc i) ps out' = Returns y" for out' using Cons by simp
  with x show ?case by (cases x) (simp_all add: Let_def)
qed simp

lemma route_checked_total:
  assumes "\<forall>p \<in> set (ri_paths input). valid_utf8 (pa_value p)"
  shows "\<exists>x. route_checked build se input kind = Returns x"
  using paths_loop_total [OF assms, of build se 0 "[]"]
  by (auto simp: route_checked_def split: sum.split)

end
