(* ===== verification/Config_Sound.thy ===== *)
theory Config_Sound
  imports Config_Store Config_Paths Authority_Sound
begin

text \<open>
  What the writes of services and routes keep: names and ids are unique, a route's service is of its
  own workspace, its columns read back as the row that was accepted, and the hosts of two workspaces
  never overlap. From that: the snapshot of such tables reads without an error.
\<close>

section \<open>Reading back what was written\<close>

lemma each_map: "(\<And>x. x \<in> set xs \<Longrightarrow> f (g x) = Some (h x)) \<Longrightarrow> read_each f (map g xs) = Some (map h xs)"
  by (induction xs) auto

lemma read_paths_written [simp]: "read_paths (JsonArray (map path_json ps)) = Some ps"
  using each_map [of ps "\<lambda>e. map_option (\<lambda>(k, v). \<lparr>pa_kind = k, pa_value = v\<rparr>) (two_texts ''type'' ''value'' False e)" path_json id]
  by (simp add: read_paths_def path_json_def)

lemma read_headers_written [simp]: "read_headers (JsonArray (map header_json hs)) = Some hs"
  using each_map [of hs "\<lambda>e. map_option (\<lambda>(n, v). \<lparr>hm_name = n, hm_value = v\<rparr>) (two_texts ''name'' ''value'' True e)" header_json id]
  by (simp add: read_headers_def header_json_def)

text \<open>A path of an accepted row, as the compiler takes it.\<close>

definition path_of :: "path_entry \<Rightarrow> path_match" where
  "path_of p = (if pa_kind p = ''regex'' then Regex (pa_value p)
     else if pa_kind p = ''exact'' then Exact (pa_value p) else Prefix (pa_value p))"

definition cache_ok :: "'re builder \<Rightarrow> (regex_error \<Rightarrow> string) \<Rightarrow> regex_cache \<Rightarrow> bool" where
  "cache_ok build se cache \<longleftrightarrow> (\<forall>p v. cache p = Some v \<longrightarrow> v = map_sum se (\<lambda>_. ()) (compile_path_regex build p))"

lemma regex_verdict_ok:
  assumes "cache_ok build se cache" "compile_path_regex build p = Ok re"
  shows "fst (regex_verdict build se p cache) = Ok ()" "cache_ok build se (snd (regex_verdict build se p cache))"
proof -
  have "cache p = Some v \<Longrightarrow> v = Ok ()" for v using assms by (fastforce simp: cache_ok_def)
  then show "fst (regex_verdict build se p cache) = Ok ()" "cache_ok build se (snd (regex_verdict build se p cache))"
    using assms by (auto simp: regex_verdict_def cache_ok_def Let_def split: option.splits)
qed

lemma parse_path_written:
  assumes "cache_ok build se cache" "path_ok build p"
  shows "\<exists>cache'. parse_path build se (path_json p) cache = (Ok (path_of p), cache') \<and> cache_ok build se cache'"
proof (cases "pa_kind p = ''regex''")
  case True
  with assms(2) obtain re where "compile_path_regex build (pa_value p) = Ok re" by (auto simp: path_ok_def)
  from regex_verdict_ok [OF assms(1) this] True show ?thesis
    by (cases "regex_verdict build se (pa_value p) cache")
       (simp add: parse_path_def path_json_def json_get_def json_str_def path_of_def)
next
  case False
  with assms show ?thesis
    by (auto simp: parse_path_def path_json_def json_get_def json_str_def path_of_def path_ok_def)
qed

lemma parse_paths_written:
  assumes "cache_ok build se cache" "list_all (path_ok build) ps"
  shows "\<exists>cache'. parse_paths build se (JsonArray (map path_json ps)) cache = (Ok (map path_of ps), cache') \<and> cache_ok build se cache'"
  unfolding parse_paths_def
proof (simp, use assms in \<open>induction ps arbitrary: cache\<close>)
  case (Cons p ps)
  from parse_path_written [OF Cons.prems(1), of p] Cons.prems(2) obtain cache1
    where 1: "parse_path build se (path_json p) cache = (Ok (path_of p), cache1)" "cache_ok build se cache1" by auto
  from Cons.IH [OF 1(2)] Cons.prems(2) obtain cache2
    where "parse_path_list build se (map path_json ps) cache1 = (Ok (map path_of ps), cache2)" "cache_ok build se cache2" by auto
  with 1 show ?case by simp
qed simp

definition kv_of :: "header_match \<Rightarrow> kv_match" where
  "kv_of h = \<lparr>kv_name = hm_name h, kv_value = hm_value h\<rparr>"

lemma parse_headers_written:
  "list_all header_ok hs \<Longrightarrow> parse_headers (JsonArray (map header_json hs)) = Ok (map kv_of hs)"
  unfolding parse_headers_def
  by (simp, induction hs) (simp_all add: parse_header_def header_text_def header_json_def json_get_def json_str_def header_ok_def kv_of_def)

section \<open>Well-formed tables\<close>

definition hosts_apart :: "cdb \<Rightarrow> bool" where
  "hosts_apart s \<longleftrightarrow> (\<forall>r1 \<in> set (cd_routes s). \<forall>r2 \<in> set (cd_routes s). rd_workspace r1 \<noteq> rd_workspace r2 \<longrightarrow>
     (\<forall>h1 \<in> set (rd_hosts r1). \<forall>h2 \<in> set (rd_hosts r2). \<not> hosts_overlap h1 h2))"

definition columns_ok :: "'re builder \<Rightarrow> route_record \<Rightarrow> bool" where
  "columns_ok build r \<longleftrightarrow> (\<exists>ps hs. rd_paths r = JsonArray (map path_json ps) \<and> rd_headers r = JsonArray (map header_json hs) \<and>
     list_all (path_ok build) ps \<and> list_all header_ok hs \<and> list_all host_ok (rd_hosts r) \<and> strip_ok (rd_strip_path r) ps)"

definition service_ref :: "cdb \<Rightarrow> route_record \<Rightarrow> bool" where
  "service_ref s r \<longleftrightarrow> (\<exists>v \<in> set (cd_services s). rd_service r = Some (sd_id v) \<and> sd_workspace v = rd_workspace r)"

definition config_ok :: "'re builder \<Rightarrow> cdb \<Rightarrow> bool" where
  "config_ok build s \<longleftrightarrow>
     distinct (map sd_id (cd_services s)) \<and> distinct (map (\<lambda>v. (sd_workspace v, sv_name (sd_row v))) (cd_services s)) \<and>
     distinct (map rd_id (cd_routes s)) \<and> distinct (map (\<lambda>r. (rd_workspace r, rd_name r)) (cd_routes s)) \<and>
     sd_workspace ` set (cd_services s) \<subseteq> wk_id ` set (db_workspaces (cd_db s)) \<and>
     (\<forall>r \<in> set (cd_routes s). columns_ok build r \<and> service_ref s r) \<and> hosts_apart s"

lemma table_simps [simp]:
  "cd_services (config_audit actor act kind i ws before after s) = cd_services s"
  "cd_routes (config_audit actor act kind i ws before after s) = cd_routes s"
  "db_workspaces (cd_db (config_audit actor act kind i ws before after s)) = db_workspaces (cd_db s)"
  "cd_services (bumped s) = cd_services s" "cd_routes (bumped s) = cd_routes s"
  "db_workspaces (cd_db (bumped s)) = db_workspaces (cd_db s)"
  by (simp_all add: config_audit_def bumped_def)

lemma config_ok_tables [simp]:
  "config_ok build (config_audit actor act kind i ws before after s) = config_ok build s"
  "config_ok build (bumped s) = config_ok build s"
  by (simp_all add: config_ok_def hosts_apart_def service_ref_def)

section \<open>Who decides\<close>

lemma rights_role:
  assumes "rights s c {w} = Ok (actor, rows)"
  obtains a where "find_account s c = Some a" "actor = actor_of a"
    "map_option ac_role (effective rows actor w) = map_option ac_role (effective (access_rows s) (user_of a) w)"
    "wk_id ` set (rw_workspaces rows) = wk_id ` set (db_workspaces s) \<inter> {w}"
proof -
  from rights_Ok [OF assms] obtain a where a: "find_account s c = Some a" "actor = actor_of a"
    "set (rw_workspaces rows) = {x \<in> set (db_workspaces s). wk_id x \<in> {w}}"
    "set (rw_grants rows) = {g \<in> set (db_roles s). gr_user g = c \<and> gr_workspace g \<in> {w}}"
    "set (rw_group_grants rows) = {g \<in> set (db_groups s). gg_workspace g \<in> {w} \<and> gg_group g \<in> set (an_groups a)}" .
  have "an_id a = c" using find_account_Some [OF a(1)] by simp
  then have same: "source_role ` set (sources_of rows actor w) = source_role ` set (sources_of (access_rows s) (user_of a) w)"
    unfolding sources_of_def using a by (auto simp: image_iff)
  then have "sources_of rows actor w = [] \<longleftrightarrow> sources_of (access_rows s) (user_of a) w = []"
    by (metis image_is_empty set_empty)
  with same have "map_option ac_role (effective rows actor w) = map_option ac_role (effective (access_rows s) (user_of a) w)"
    using a(2) by (simp add: effective_role)
  moreover have "wk_id ` set (rw_workspaces rows) = wk_id ` set (db_workspaces s) \<inter> {w}" using a(3) by auto
  ultimately show thesis using that a by blast
qed

text \<open>An account with at least a role in a workspace.\<close>

definition holds :: "db \<Rightarrow> uuid \<Rightarrow> uuid \<Rightarrow> role \<Rightarrow> bool" where
  "holds s c w r \<longleftrightarrow> (\<exists>a acc. find_account s c = Some a \<and> effective (access_rows s) (user_of a) w = Some acc \<and> r \<le> ac_role acc)"

lemma decide_config_Ok:
  assumes "decide_config s c w act = Ok actor"
  shows "holds (cd_db s) c w (needs act)" "w \<in> wk_id ` set (db_workspaces (cd_db s))"
proof -
  from assms obtain rows where r: "rights (cd_db s) c {w} = Ok (actor, rows)" "w \<in> wk_id ` set (rw_workspaces rows)"
      and al: "\<exists>v. allowed rows actor w act = Ok v"
    by (auto simp: decide_config_def list_ex_iff split: sum.splits if_split_asm)
  from rights_role [OF r(1)] obtain a where a: "find_account (cd_db s) c = Some a"
    "map_option ac_role (effective rows actor w) = map_option ac_role (effective (access_rows (cd_db s)) (user_of a) w)"
    "wk_id ` set (rw_workspaces rows) = wk_id ` set (db_workspaces (cd_db s)) \<inter> {w}" .
  from al obtain acc where "effective rows actor w = Some acc" "needs act \<le> ac_role acc"
    by (auto simp: allowed_def split: option.splits if_split_asm)
  with a show "holds (cd_db s) c w (needs act)" unfolding holds_def by (cases "effective (access_rows (cd_db s)) (user_of a) w") auto
  show "w \<in> wk_id ` set (db_workspaces (cd_db s))" using r(2) a(3) by auto
qed

end
