(* ===== verification/Config_Steps.thy ===== *)
theory Config_Steps
  imports Config_Sound Authority_Rights
begin

text \<open>
  The writes of services and routes as a relation, \<open>changes\<close>, with one rule per way the tables
  can change; every request that is answered leaves them as they are or follows one of the rules. The
  tables stay well formed under each, also when roles, accounts and workspaces change in between.
\<close>

section \<open>The relation\<close>

text \<open>What no write of a service or a route touches.\<close>

definition frame :: "cdb \<Rightarrow> cdb \<Rightarrow> bool" where
  "frame s s' \<longleftrightarrow> (\<exists>log v. cd_db s' = (cd_db s)\<lparr>db_audit := log, db_config_version := v\<rparr>) \<and>
     cd_policies s' = cd_policies s \<and> cd_consumers s' = cd_consumers s"

definition hosts_free :: "cdb \<Rightarrow> uuid \<Rightarrow> string list \<Rightarrow> bool" where
  "hosts_free s w hosts \<longleftrightarrow> (\<forall>h \<in> set hosts. \<forall>h' \<in> set (taken_hosts s w). \<not> hosts_overlap h h')"

inductive changes :: "'re builder \<Rightarrow> int \<Rightarrow> action \<Rightarrow> uuid \<Rightarrow> cdb \<Rightarrow> cdb \<Rightarrow> bool" where
  service_added: "changes build now WriteAction w s s'"
    if "find_service s w (sv_name v) = None" "i \<notin> sd_id ` set (cd_services s)" "frame s s'" "cd_routes s' = cd_routes s"
      "w \<in> wk_id ` set (db_workspaces (cd_db s))" "cd_services s' = cd_services s @ [\<lparr>sd_id = i, sd_workspace = w, sd_row = v, sd_updated = now\<rparr>]"
| service_replaced: "changes build now WriteAction w s s'"
    if "find_service s w current = Some old" "sv_name v = current \<or> find_service s w (sv_name v) = None"
      "frame s s'" "cd_routes s' = cd_routes s"
      "cd_services s' = map (\<lambda>x. if sd_id x = sd_id old then x\<lparr>sd_row := v, sd_updated := now\<rparr> else x) (cd_services s)"
| service_deleted: "changes build now DeleteAction w s s'"
    if "find_service s w current = Some old" "\<forall>r \<in> set (cd_routes s). rd_service r \<noteq> Some (sd_id old)"
      "frame s s'" "cd_routes s' = cd_routes s" "cd_services s' = filter (\<lambda>x. sd_id x \<noteq> sd_id old) (cd_services s)"
      "\<forall>p \<in> set (cd_policies s). po_service p \<noteq> Some (sd_id old)"
| route_added: "changes build now WriteAction w s s'"
    if "\<not> route_named s w (ro_name r)" "i \<notin> rd_id ` set (cd_routes s)" "find_service s w (ro_service r) = Some v"
      "hosts_free s w (ro_hosts r)" "route_row_ok build r" "frame s s'" "cd_services s' = cd_services s"
      "cd_routes s' = cd_routes s @ [stored_route i w (sd_id v) now r]"
| route_replaced: "changes build now WriteAction w s s'"
    if "find_route s w current = Some (old, v0)" "ro_name r = current \<or> \<not> route_named s w (ro_name r)"
      "find_service s w (ro_service r) = Some v" "hosts_free s w (ro_hosts r)" "route_row_ok build r" "frame s s'" "cd_services s' = cd_services s"
      "cd_routes s' = map (\<lambda>x. if rd_id x = rd_id old then stored_route (rd_id old) (rd_workspace x) (sd_id v) now r else x)
         (cd_routes s)"
| route_deleted: "changes build now DeleteAction w s s'"
    if "find_route s w current = Some (old, v)" "frame s s'" "cd_services s' = cd_services s"
      "cd_routes s' = filter (\<lambda>x. rd_id x \<noteq> rd_id old) (cd_routes s)"
      "\<forall>p \<in> set (cd_policies s). po_route p \<noteq> Some (rd_id old)"

section \<open>What is found\<close>

lemma find_service_Some:
  "find_service s w n = Some v \<Longrightarrow> v \<in> set (cd_services s) \<and> sd_workspace v = w \<and> sv_name (sd_row v) = n"
  by (auto simp: find_service_def find_Some_iff)

lemma find_service_None:
  "find_service s w n = None \<longleftrightarrow> (\<forall>v \<in> set (cd_services s). sd_workspace v = w \<longrightarrow> sv_name (sd_row v) \<noteq> n)"
  by (auto simp: find_service_def find_None_iff)

lemma service_of_route_Some: "service_of_route s r = Some v \<Longrightarrow> v \<in> set (cd_services s) \<and> rd_service r = Some (sd_id v)"
  by (auto simp: service_of_route_def find_Some_iff split: bind_splits)

lemma find_route_Some:
  assumes "find_route s w n = Some (r, v)"
  shows "r \<in> set (cd_routes s)" "rd_workspace r = w" "rd_name r = n" "service_of_route s r = Some v"
  using assms by (auto simp: find_route_def find_Some_iff split: option.splits)

lemma route_from_Some:
  assumes "route_from r v = Some row"
  shows "ro_name row = rd_name r" "ro_hosts row = rd_hosts r" "ro_strip_path row = rd_strip_path r"
    "read_headers (rd_headers r) = Some (ro_headers row)"
  using assms by (auto simp: route_from_def split: option.splits)

section \<open>Every write follows a rule\<close>

lemma frame_audit [simp]: "frame s (config_audit actor act kind i ws before after (bumped (s\<lparr>cd_services := x\<rparr>)))"
  "frame s (config_audit actor act kind i ws before after (bumped (s\<lparr>cd_routes := y\<rparr>)))"
  "frame s (config_audit actor act kind i ws before after (bumped (bumped (s\<lparr>cd_services := x\<rparr>))))"
  "frame s (config_audit actor act kind i ws before after (bumped (bumped (s\<lparr>cd_routes := y\<rparr>))))"
  by (simp_all add: frame_def config_audit_def bumped_def audit_def) (cases "cd_db s"; force)+

lemma create_service_change:
  assumes "try_create_service now c w v i s = (r, s')"
  obtains "s' = s" | "r = Ok ()" "holds (cd_db s) c w Editor" "changes build now WriteAction w s s'"
proof (cases "s' = s")
  case False
  with assms obtain actor where d: "decide_config s c w WriteAction = Ok actor" "find_service s w (sv_name v) = None"
      "i \<notin> sd_id ` set (cd_services s)" and w: "r = Ok ()"
      "s' = config_audit actor ''create'' ''service'' i w None (Some (service_json v))
         (bumped (s\<lparr>cd_services := cd_services s @ [\<lparr>sd_id = i, sd_workspace = w, sd_row = v, sd_updated = now\<rparr>]\<rparr>))"
    by (auto simp: try_create_service_def split: sum.splits if_split_asm)
  from d(2,3) have "changes build now WriteAction w s s'" using decide_config_Ok(2) [OF d(1)] by - (rule changes.service_added; simp add: w(2))
  with decide_config_Ok [OF d(1)] w(1) that(2) show ?thesis by simp
qed (rule that(1))

lemma replace_service_change:
  assumes "try_replace_service show_time now c w current v seen tls s = (r, s')"
  obtains "s' = s" | "r = Ok ()" "holds (cd_db s) c w Editor" "changes build now WriteAction w s s'"
proof (cases "s' = s")
  case False
  with assms obtain actor old where d: "decide_config s c w WriteAction = Ok actor" and f: "find_service s w current = Some old"
    by (auto simp: try_replace_service_def split: sum.splits option.splits)
  define v' where v': "v' = (if tls = KeptTls \<and> sv_protocol v = Https then v\<lparr>sv_tls := sv_tls (sd_row old)\<rparr> else v)"
  have same: "sv_name v' = sv_name v" by (simp add: v')
  let ?written = "config_audit actor ''update'' ''service'' (sd_id old) w (Some (service_json (sd_row old))) (Some (service_json v'))
         (bumped (s\<lparr>cd_services := map (\<lambda>x. if sd_id x = sd_id old then x\<lparr>sd_row := v', sd_updated := now\<rparr> else x) (cd_services s)\<rparr>))"
  have "try_replace_service show_time now c w current v seen tls s =
     (if show_time (sd_updated old) \<noteq> seen then (Err (Refused stale), s)
      else if sv_name v \<noteq> current \<and> find_service s w (sv_name v) \<noteq> None then (Err (Refused (service_exists (sv_name v))), s)
      else if sd_row old = v' then (Ok (), s) else (Ok (), ?written))"
    unfolding try_replace_service_def d f Let_def v' by simp
  with False assms have n: "sv_name v = current \<or> find_service s w (sv_name v) = None" and w: "r = Ok ()" "s' = ?written"
    by (simp_all split: if_split_asm)
  from f n [folded same] have "changes build now WriteAction w s s'" by (rule changes.service_replaced [where now = now]) (simp_all add: w(2))
  with decide_config_Ok [OF d] w(1) that(2) show ?thesis by simp
qed (rule that(1))

lemma no_policies_Ok: "no_policies s on kind = Ok u \<Longrightarrow> p \<in> set (cd_policies s) \<Longrightarrow> \<not> on p"
  by (auto simp: no_policies_def Let_def filter_empty_conv split: if_split_asm)

lemma delete_service_change:
  assumes "try_delete_service c w current s = (r, s')"
  obtains "s' = s" | "r = Ok ()" "holds (cd_db s) c w Admin" "changes build now DeleteAction w s s'"
proof (cases "s' = s")
  case False
  with assms obtain actor old before where d: "decide_config s c w DeleteAction = Ok actor" and f: "find_service s w current = Some old"
      and n: "filter (\<lambda>r. rd_service r = Some (sd_id old)) (cd_routes s) = []"
      and p: "no_policies s (\<lambda>p. po_service p = Some (sd_id old)) ''service'' = Ok ()" and w: "r = Ok ()"
      "s' = config_audit actor ''delete'' ''service'' (sd_id old) w before None
         (bumped (bumped (s\<lparr>cd_services := filter (\<lambda>x. sd_id x \<noteq> sd_id old) (cd_services s)\<rparr>)))"
    by (auto simp: try_delete_service_def Let_def split: sum.splits if_split_asm option.splits)
  from n have "\<forall>r \<in> set (cd_routes s). rd_service r \<noteq> Some (sd_id old)" by (auto simp: filter_empty_conv)
  with f have "changes build now DeleteAction w s s'" by (rule changes.service_deleted) (use no_policies_Ok [OF p] in \<open>auto simp: w(2)\<close>)
  with decide_config_Ok [OF d] w(1) that(2) show ?thesis by simp
qed (rule that(1))

lemma delete_route_change:
  assumes "try_delete_route c w current s = (r, s')"
  obtains "s' = s" | "r = Ok ()" "holds (cd_db s) c w Admin" "changes build now DeleteAction w s s'"
proof (cases "s' = s")
  case False
  with assms obtain actor old v before where d: "decide_config s c w DeleteAction = Ok actor"
      and f: "find_route s w current = Some (old, v)" and p: "no_policies s (\<lambda>p. po_route p = Some (rd_id old)) ''route'' = Ok ()" and w: "r = Ok ()"
      "s' = config_audit actor ''delete'' ''route'' (rd_id old) w before None
         (bumped (bumped (s\<lparr>cd_routes := filter (\<lambda>x. rd_id x \<noteq> rd_id old) (cd_routes s)\<rparr>)))"
    by (auto simp: try_delete_route_def Let_def split: sum.splits if_split_asm option.splits)
  from f have "changes build now DeleteAction w s s'" by (rule changes.route_deleted) (use no_policies_Ok [OF p] in \<open>auto simp: w(2)\<close>)
  with decide_config_Ok [OF d] w(1) that(2) show ?thesis by simp
qed (rule that(1))

lemma may_route_free: "may_route s actor w hosts = Ok u \<Longrightarrow> hosts_free s w hosts"
  by (auto simp: may_route_def hosts_free_def find_None_iff list_ex_iff split: sum.splits option.splits)

lemma existing_route_Ok:
  assumes "existing_route show_time s w p = Ok (old, before)"
  obtains v where "find_route s w (rp_current p) = Some (old, v)" "route_from old v = Some before"
    "show_time (rd_updated old) = rp_seen p"
  using assms by (auto simp: existing_route_def split: option.splits if_split_asm)

text \<open>A header list that is kept is one that was accepted before.\<close>

lemma kept_route_ok:
  assumes "config_ok build s" "old \<in> set (cd_routes s)" "route_from old v = Some before" "route_row_ok build r"
    "strip_path_fits (kept_route before kept r) = Ok u"
  shows "route_row_ok build (kept_route before kept r)"
proof -
  from assms(1,2) obtain hs where "rd_headers old = JsonArray (map header_json hs)" "list_all header_ok hs"
    by (auto simp: config_ok_def columns_ok_def)
  then have "list_all header_ok (ro_headers before)" using route_from_Some(4) [OF assms(3)] by simp
  moreover have "strip_ok (ro_strip_path (kept_route before kept r)) (ro_paths (kept_route before kept r))"
    using assms(5) by (auto simp: strip_path_fits_def strip_ok_def split: if_split_asm)
  ultimately show ?thesis using assms(4) by (simp add: route_row_ok_def kept_route_def)
qed

lemma create_route_change:
  assumes "try_write_route show_time now c w None row i s = (r, s')" "route_row_ok build row"
  obtains "s' = s" | "r = Ok ()" "holds (cd_db s) c w Editor" "changes build now WriteAction w s s'"
proof (cases "s' = s")
  case False
  with assms(1) obtain actor v where d: "decide_config s c w WriteAction = Ok actor" "may_route s actor w (ro_hosts row) = Ok ()"
      and f: "\<not> route_named s w (ro_name row)" "i \<notin> rd_id ` set (cd_routes s)" "find_service s w (ro_service row) = Some v"
      and w: "r = Ok ()" "s' = config_audit actor ''create'' ''route'' i w None (Some (route_json row))
         (bumped (s\<lparr>cd_routes := cd_routes s @ [stored_route i w (sd_id v) now row]\<rparr>))"
    by (auto simp: try_write_route_def Let_def split: sum.splits if_split_asm option.splits)
  from f may_route_free [OF d(2)] assms(2) have "changes build now WriteAction w s s'"
    by (rule changes.route_added) (simp_all add: w(2))
  with decide_config_Ok [OF d(1)] w(1) that(2) show ?thesis by simp
qed (rule that(1))

lemma replace_route_change:
  assumes "try_write_route show_time now c w (Some p) row i s = (r, s')" "route_row_ok build row" "config_ok build s"
  obtains "s' = s" | "r = Ok ()" "holds (cd_db s) c w Editor" "changes build now WriteAction w s s'"
proof (cases "s' = s")
  case False
  with assms(1) obtain actor old before where d: "decide_config s c w WriteAction = Ok actor"
      and e: "existing_route show_time s w p = Ok (old, before)"
    by (auto simp: try_write_route_def Let_def split: sum.splits)
  let ?row = "kept_route before (rp_kept p) row"
  from False assms(1) d e obtain v u where ok: "strip_path_fits ?row = Ok u" "may_route s actor w (ro_hosts ?row) = Ok ()"
      "find_service s w (ro_service ?row) = Some v" "ro_name ?row = ro_name before \<or> \<not> route_named s w (ro_name ?row)"
      and w: "r = Ok ()" "s' = config_audit actor ''update'' ''route'' (rd_id old) w (Some (route_json before)) (Some (route_json ?row))
         (bumped (s\<lparr>cd_routes := map (\<lambda>x. if rd_id x = rd_id old
            then stored_route (rd_id old) (rd_workspace x) (sd_id v) now ?row else x) (cd_routes s)\<rparr>))"
    by (auto simp: try_write_route_def Let_def split: sum.splits if_split_asm option.splits)
  from existing_route_Ok [OF e] obtain v0 where f: "find_route s w (rp_current p) = Some (old, v0)" and b: "route_from old v0 = Some before" .
  have n: "ro_name ?row = rp_current p \<or> \<not> route_named s w (ro_name ?row)"
    using ok(4) route_from_Some(1) [OF b] find_route_Some(3) [OF f] by simp
  have "route_row_ok build ?row" using kept_route_ok [OF assms(3) find_route_Some(1) [OF f] b assms(2) ok(1)] .
  with f n ok(3) may_route_free [OF ok(2)] have "changes build now WriteAction w s s'"
    by (rule changes.route_replaced [where now = now]) (simp_all add: w(2))
  with decide_config_Ok [OF d] w(1) that(2) show ?thesis by simp
qed (rule that(1))

section \<open>Well-formed tables stay well formed\<close>

lemma distinct_map_update:
  assumes "distinct (map f xs)" "distinct (map k xs)" "x0 \<in> set xs" "k0 = k x0 \<or> k0 \<notin> k ` set xs"
  shows "distinct (map (\<lambda>x. if f x = f x0 then k0 else k x) xs)"
proof -
  have inj: "x \<in> set xs \<Longrightarrow> y \<in> set xs \<Longrightarrow> f x = f y \<longleftrightarrow> x = y" for x y
    using assms(1) by (auto simp: distinct_map inj_on_def)
  have kinj: "x \<in> set xs \<Longrightarrow> y \<in> set xs \<Longrightarrow> k x = k y \<longleftrightarrow> x = y" for x y
    using assms(2) by (auto simp: distinct_map inj_on_def)
  have "inj_on (\<lambda>x. if f x = f x0 then k0 else k x) (set xs)"
    using assms(3,4) by (intro inj_onI) (auto simp: inj kinj image_iff split: if_split_asm)
  then show ?thesis using assms(1) by (simp add: distinct_map)
qed

lemma hosts_overlap_sym: "hosts_overlap a b = hosts_overlap b a"
  by (auto simp: hosts_overlap_def)

lemma taken_hosts_iff: "h \<in> set (taken_hosts s w) \<longleftrightarrow> (\<exists>r \<in> set (cd_routes s). rd_workspace r \<noteq> w \<and> h \<in> set (rd_hosts r))"
  by (auto simp: taken_hosts_def)

text \<open>Each route's own part of the invariant.\<close>

lemma stored_route_simps [simp]:
  "rd_id (stored_route i w v now r) = i" "rd_workspace (stored_route i w v now r) = w"
  "rd_name (stored_route i w v now r) = ro_name r" "rd_hosts (stored_route i w v now r) = ro_hosts r"
  by (simp_all add: stored_route_def)

lemma route_from_stored: "route_from (stored_route i w x t r) v = Some (r\<lparr>ro_service := sv_name (sd_row v)\<rparr>)"
  by (simp add: route_from_def stored_route_def)

lemma stored_route_ok: "route_row_ok build r \<Longrightarrow> columns_ok build (stored_route i w v now r)"
  by (auto simp: columns_ok_def route_row_ok_def stored_route_def)

lemma stored_route_ref:
  "find_service s w n = Some v \<Longrightarrow> cd_services s' = cd_services s \<Longrightarrow> service_ref s' (stored_route i w (sd_id v) now r)"
  using find_service_Some [of s w n v] by (auto simp: service_ref_def stored_route_def)

lemma frame_workspaces: "frame s s' \<Longrightarrow> db_workspaces (cd_db s') = db_workspaces (cd_db s)"
  by (auto simp: frame_def)

text \<open>A stored route whose hosts are free stays apart from the routes of the others.\<close>

lemma apart_with:
  assumes "hosts_apart s" "hosts_free s w hosts"
    "\<forall>r \<in> set (cd_routes s'). r \<in> set (cd_routes s) \<or> rd_workspace r = w \<and> rd_hosts r = hosts"
  shows "hosts_apart s'"
  unfolding hosts_apart_def
proof (intro ballI impI)
  fix r1 r2 h1 h2
  assume r: "r1 \<in> set (cd_routes s')" "r2 \<in> set (cd_routes s')" "rd_workspace r1 \<noteq> rd_workspace r2"
    "h1 \<in> set (rd_hosts r1)" "h2 \<in> set (rd_hosts r2)"
  have free: "\<not> hosts_overlap h h'" if "h \<in> set hosts" "r \<in> set (cd_routes s)" "rd_workspace r \<noteq> w" "h' \<in> set (rd_hosts r)" for h h' r
    using assms(2) that unfolding hosts_free_def Ball_def taken_hosts_iff by blast
  show "\<not> hosts_overlap h1 h2"
    using r assms(1,3) free hosts_overlap_sym by (metis hosts_apart_def)
qed

lemma config_ok_parts:
  assumes "config_ok build s"
  shows "distinct (map sd_id (cd_services s))" "distinct (map (\<lambda>v. (sd_workspace v, sv_name (sd_row v))) (cd_services s))"
    "distinct (map rd_id (cd_routes s))" "distinct (map (\<lambda>r. (rd_workspace r, rd_name r)) (cd_routes s))"
    "sd_workspace ` set (cd_services s) \<subseteq> wk_id ` set (db_workspaces (cd_db s))"
    "\<forall>r \<in> set (cd_routes s). columns_ok build r \<and> service_ref s r" "hosts_apart s"
  using assms by (simp_all add: config_ok_def)

text \<open>The services' part and the routes' part, when the others stay.\<close>

lemma config_ok_services:
  assumes "config_ok build s" "cd_routes s' = cd_routes s" "frame s s'" "distinct (map sd_id (cd_services s'))"
    "distinct (map (\<lambda>v. (sd_workspace v, sv_name (sd_row v))) (cd_services s'))"
    "sd_workspace ` set (cd_services s') \<subseteq> wk_id ` set (db_workspaces (cd_db s))" "\<forall>r \<in> set (cd_routes s). service_ref s' r"
  shows "config_ok build s'"
  using config_ok_parts [OF assms(1)] assms(2-) frame_workspaces [OF assms(3)] by (simp add: config_ok_def hosts_apart_def)

lemma config_ok_routes:
  assumes "config_ok build s" "cd_services s' = cd_services s" "frame s s'" "distinct (map rd_id (cd_routes s'))"
    "distinct (map (\<lambda>r. (rd_workspace r, rd_name r)) (cd_routes s'))" "hosts_free s w hosts"
    "\<forall>r \<in> set (cd_routes s'). r \<in> set (cd_routes s) \<or> rd_workspace r = w \<and> rd_hosts r = hosts \<and> columns_ok build r \<and> service_ref s' r"
  shows "config_ok build s'"
proof -
  have "hosts_apart s'" using assms(7) by (intro apart_with [OF config_ok_parts(7) [OF assms(1)] assms(6)]) auto
  moreover have "service_ref s' r = service_ref s r" for r by (simp add: service_ref_def assms(2))
  ultimately show ?thesis
    using config_ok_parts [OF assms(1)] assms(2,4,5,7) frame_workspaces [OF assms(3)] by (auto simp: config_ok_def)
qed

lemma by_id: "distinct (map f xs) \<Longrightarrow> x \<in> set xs \<Longrightarrow> y \<in> set xs \<Longrightarrow> f x = f y \<Longrightarrow> x = y"
  by (auto simp: distinct_map inj_on_def)

lemma changes_ok: "changes build now act w s s' \<Longrightarrow> config_ok build s \<Longrightarrow> config_ok build s'"
proof (induction rule: changes.induct)
  case (service_added s w v i s' now build)
  note ok = config_ok_parts [OF service_added.prems]
  show ?case
  proof (rule config_ok_services [OF service_added.prems])
    show "\<forall>r \<in> set (cd_routes s). service_ref s' r" using ok(6) service_added.hyps(6) by (auto simp: service_ref_def)
  qed (use ok service_added.hyps in \<open>auto simp: find_service_None\<close>)
next
  case (service_replaced s w current old v s' now build)
  note ok = config_ok_parts [OF service_replaced.prems] and old = find_service_Some [OF service_replaced.hyps(1)]
  let ?f = "\<lambda>x. if sd_id x = sd_id old then x\<lparr>sd_row := v, sd_updated := now\<rparr> else x"
  have keep [simp]: "sd_id (?f x) = sd_id x" "sd_workspace (?f x) = sd_workspace x" for x by simp_all
  show ?case
  proof (rule config_ok_services [OF service_replaced.prems])
    show "\<forall>r \<in> set (cd_routes s). service_ref s' r"
      unfolding service_ref_def service_replaced.hyps(5)
    proof
      fix r assume "r \<in> set (cd_routes s)"
      with ok(6) obtain x where "x \<in> set (cd_services s)" "rd_service r = Some (sd_id (?f x)) \<and> sd_workspace (?f x) = rd_workspace r"
        unfolding keep service_ref_def by blast
      then show "\<exists>x \<in> set (map ?f (cd_services s)). rd_service r = Some (sd_id x) \<and> sd_workspace x = rd_workspace r"
        unfolding set_map by blast
    qed
    have "sd_id x = sd_id old \<Longrightarrow> x \<in> set (cd_services s) \<Longrightarrow> sd_workspace x = w" for x
      using by_id [OF ok(1), of x old] old by simp
    then have "map (\<lambda>v. (sd_workspace v, sv_name (sd_row v))) (cd_services s') =
        map (\<lambda>x. if sd_id x = sd_id old then (w, sv_name v) else (sd_workspace x, sv_name (sd_row x))) (cd_services s)"
      by (simp add: service_replaced.hyps(5))
    moreover have "distinct \<dots>"
      using service_replaced.hyps(2) old
      by (intro distinct_map_update [OF ok(1,2)]) (auto simp: find_service_None)
    ultimately show "distinct (map (\<lambda>v. (sd_workspace v, sv_name (sd_row v))) (cd_services s'))" by simp
  qed (use ok service_replaced.hyps in \<open>auto simp: comp_def if_distrib cong: if_cong\<close>)
next
  case (service_deleted s w current old s' build now)
  note ok = config_ok_parts [OF service_deleted.prems]
  show ?case
  proof (rule config_ok_services [OF service_deleted.prems])
    show "\<forall>r \<in> set (cd_routes s). service_ref s' r" using ok(6) service_deleted.hyps(2,5) by (fastforce simp: service_ref_def)
  qed (use ok service_deleted.hyps in \<open>auto simp: distinct_map_filter\<close>)
next
  case (route_added s w r i v build s' now)
  note ok = config_ok_parts [OF route_added.prems]
  show ?case
    using ok route_added.hyps
    by (intro config_ok_routes [OF route_added.prems route_added.hyps(7) route_added.hyps(6) _ _ route_added.hyps(4)])
       (auto simp: stored_route_ok stored_route_ref route_named_def list_ex_iff)
next
  case (route_replaced s w current old v0 r v build s' now)
  note ok = config_ok_parts [OF route_replaced.prems] and old = find_route_Some [OF route_replaced.hyps(1)]
  have w: "rd_id x = rd_id old \<Longrightarrow> x \<in> set (cd_routes s) \<Longrightarrow> rd_workspace x = w" for x
    using by_id [OF ok(3), of x old] old by simp
  show ?case
  proof (rule config_ok_routes [OF route_replaced.prems route_replaced.hyps(7) route_replaced.hyps(6) _ _ route_replaced.hyps(4)])
    show "distinct (map rd_id (cd_routes s'))"
      using ok(3) by (simp add: route_replaced.hyps(8) comp_def if_distrib cong: if_cong)
    have "map (\<lambda>r. (rd_workspace r, rd_name r)) (cd_routes s') =
        map (\<lambda>x. if rd_id x = rd_id old then (w, ro_name r) else (rd_workspace x, rd_name x)) (cd_routes s)"
      using w by (simp add: route_replaced.hyps(8))
    moreover have "distinct \<dots>"
      using route_replaced.hyps(2) old
      by (intro distinct_map_update [OF ok(3,4)]) (auto simp: route_named_def list_ex_iff)
    ultimately show "distinct (map (\<lambda>r. (rd_workspace r, rd_name r)) (cd_routes s'))" by simp
    show "\<forall>x \<in> set (cd_routes s'). x \<in> set (cd_routes s) \<or> rd_workspace x = w \<and> rd_hosts x = ro_hosts r \<and> columns_ok build x \<and> service_ref s' x"
      using w stored_route_ok [OF route_replaced.hyps(5)] stored_route_ref [OF route_replaced.hyps(3,7)]
      by (auto simp: route_replaced.hyps(8))
  qed
next
  case (route_deleted s w current old v s' build now)
  note ok = config_ok_parts [OF route_deleted.prems]
  have "hosts_free s w []" by (simp add: hosts_free_def)
  then show ?case
    using ok route_deleted.hyps
    by (intro config_ok_routes [OF route_deleted.prems route_deleted.hyps(3) route_deleted.hyps(2)]) (auto simp: distinct_map_filter)
qed

section \<open>Requests\<close>

fun config_caller :: "config_operation \<Rightarrow> uuid" where
  "config_caller (CreateService c _ _ _) = c"
| "config_caller (ReplaceService c _ _ _) = c"
| "config_caller (DeleteService c _ _) = c"
| "config_caller (CreateRoute c _ _ _) = c"
| "config_caller (ReplaceRoute c _ _ _) = c"
| "config_caller (DeleteRoute c _ _) = c"

fun config_workspace :: "config_operation \<Rightarrow> uuid" where
  "config_workspace (CreateService _ w _ _) = w"
| "config_workspace (ReplaceService _ w _ _) = w"
| "config_workspace (DeleteService _ w _) = w"
| "config_workspace (CreateRoute _ w _ _) = w"
| "config_workspace (ReplaceRoute _ w _ _) = w"
| "config_workspace (DeleteRoute _ w _) = w"

fun config_action :: "config_operation \<Rightarrow> action" where
  "config_action (DeleteService _ _ _) = DeleteAction"
| "config_action (DeleteRoute _ _ _) = DeleteAction"
| "config_action _ = WriteAction"

text \<open>The paths of a request are texts, as every Rust string is.\<close>

fun config_texts :: "config_operation \<Rightarrow> bool" where
  "config_texts (CreateRoute _ _ input _) \<longleftrightarrow> list_all (\<lambda>p. valid_utf8 (pa_value p)) (ri_paths input)"
| "config_texts (ReplaceRoute _ _ _ input) \<longleftrightarrow> list_all (\<lambda>p. valid_utf8 (pa_value p)) (ri_paths input)"
| "config_texts _ \<longleftrightarrow> True"

lemma written_Returns: "written p = Returns (e, s') \<longleftrightarrow> (\<exists>r. p = (r, s') \<and> e = (case r of Err x \<Rightarrow> Some x | Ok _ \<Rightarrow> None))"
  by (cases p) (auto simp: written_def)

definition as_asked :: "'re console_env \<Rightarrow> int \<Rightarrow> config_operation \<Rightarrow> cdb \<Rightarrow> write_error option \<Rightarrow> cdb \<Rightarrow> bool" where
  "as_asked env now op s e s' \<longleftrightarrow> s' = s \<or>
     e = None \<and> holds (cd_db s) (config_caller op) (config_workspace op) (needs (config_action op)) \<and>
     changes (ce_build env) now (config_action op) (config_workspace op) s s'"

lemma unless_refused_Returns:
  "unless_refused kind name s rest = Returns (e, s') \<Longrightarrow> s' = s \<and> e \<noteq> None \<or> rest = Returns (e, s')"
  by (auto simp: unless_refused_def split: option.splits)

lemma create_service_follows:
  assumes "configure env now (CreateService c w input i) s = Returns (e, s')"
  shows "as_asked env now (CreateService c w input i) s e s'"
proof (cases "service_checked (ce_pem env) input Creating")
  case (Inr x)
  obtain v seen where "x = (v, seen)" by force
  with Inr assms obtain r where "try_create_service now c w v i s = (r, s')" "e = (case r of Err x \<Rightarrow> Some x | Ok _ \<Rightarrow> None)"
    by (auto simp: written_Returns)
  then show ?thesis by - (erule create_service_change [where build = "ce_build env"], simp_all add: as_asked_def)
qed (use assms in \<open>simp add: as_asked_def\<close>)

lemma same_follows: "as_asked env now op s e s"
  by (simp add: as_asked_def)

lemma replace_service_follows:
  assumes "configure env now (ReplaceService c w current input) s = Returns (e, s')"
  shows "as_asked env now (ReplaceService c w current input) s e s'"
proof -
  from unless_refused_Returns [OF assms [unfolded configure.simps]] consider "s' = s"
    | (tried) "(case service_checked (ce_pem env) input Replacing of
        Err e \<Rightarrow> Returns (Some (FieldRefused e), s)
      | Ok (_, None) \<Rightarrow> Returns (Some (FieldRefused (field_refused ''updated_at'' unseen)), s)
      | Ok (v, Some seen) \<Rightarrow>
          written (try_replace_service (ce_show_time env) now c w current v seen
            (if si_tls input = None then KeptTls else AsSent) s)) = Returns (e, s')" by blast
  then show ?thesis
  proof cases
    case tried
    then consider "s' = s" | v t where "written (try_replace_service (ce_show_time env) now c w current v t
        (if si_tls input = None then KeptTls else AsSent) s) = Returns (e, s')"
      by (auto split: sum.splits option.splits)
    then show ?thesis
    proof cases
      case (2 v t)
      then obtain r where "try_replace_service (ce_show_time env) now c w current v t
        (if si_tls input = None then KeptTls else AsSent) s = (r, s')" "e = (case r of Err x \<Rightarrow> Some x | Ok _ \<Rightarrow> None)"
        unfolding written_Returns by blast
      then show ?thesis by - (erule replace_service_change [where build = "ce_build env"], simp_all add: as_asked_def)
    qed (simp add: same_follows)
  qed (simp add: same_follows)
qed

lemma delete_follows:
  "configure env now (DeleteService c w current) s = Returns (e, s') \<Longrightarrow> as_asked env now (DeleteService c w current) s e s'"
  "configure env now (DeleteRoute c w current) s = Returns (e, s') \<Longrightarrow> as_asked env now (DeleteRoute c w current) s e s'"
  by (auto simp: written_Returns as_asked_def dest!: unless_refused_Returns
      elim!: delete_service_change [where build = "ce_build env" and now = now] delete_route_change [where build = "ce_build env" and now = now])

lemma create_route_follows:
  assumes "configure env now (CreateRoute c w input i) s = Returns (e, s')" "config_texts (CreateRoute c w input i)"
  shows "as_asked env now (CreateRoute c w input i) s e s'"
proof -
  from assms(1) obtain x where x: "route_checked (ce_build env) (ce_show_error env) input Creating = Returns x"
      "(case x of Err e \<Rightarrow> Returns (Some (FieldRefused e), s)
        | Ok (r, _) \<Rightarrow> written (try_write_route (ce_show_time env) now c w None r i s)) = Returns (e, s')"
    unfolding configure.simps run_bind_Returns by blast
  show ?thesis
  proof (cases x)
    case (Inr y)
    obtain row seen where y: "y = (row, seen)" by force
    with Inr x(2) obtain r where r: "try_write_route (ce_show_time env) now c w None row i s = (r, s')"
      "e = (case r of Err x \<Rightarrow> Some x | Ok _ \<Rightarrow> None)" by (auto simp: written_Returns)
    have ok: "route_row_ok (ce_build env) row" using route_checked_ok [OF x(1) [unfolded Inr y]] assms(2) by (simp add: list_all_iff)
    show ?thesis by (rule create_route_change [OF r(1) ok]) (simp_all add: as_asked_def r(2))
  qed (use x(2) in \<open>simp add: as_asked_def\<close>)
qed

lemma replace_route_asked:
  assumes "configure env now (ReplaceRoute c w current input) s = Returns (e, s')" "s' \<noteq> s"
  obtains row t p r where "route_checked (ce_build env) (ce_show_error env) input Replacing = Returns (Ok (row, Some t))"
    "rp_current p = current" "rp_seen p = t" "try_write_route (ce_show_time env) now c w (Some p) row 0 s = (r, s')"
    "e = (case r of Err x \<Rightarrow> Some x | Ok _ \<Rightarrow> None)"
proof -
  define p where "p seen = \<lparr>rp_current = current, rp_seen = seen, rp_service_seen = ri_service_updated_at input, rp_kept = kept_of input\<rparr>" for seen
  from unless_refused_Returns [OF assms(1) [unfolded configure.simps]] assms(2)
  obtain x where x: "route_checked (ce_build env) (ce_show_error env) input Replacing = Returns x"
      "(case x of Err e \<Rightarrow> Returns (Some (FieldRefused e), s)
        | Ok (_, None) \<Rightarrow> Returns (Some (FieldRefused (field_refused ''updated_at'' unseen)), s)
        | Ok (r, Some seen) \<Rightarrow> written (try_write_route (ce_show_time env) now c w (Some (p seen)) r 0 s)) = Returns (e, s')"
    unfolding run_bind_Returns p_def by blast
  from x(2) assms(2) obtain row t where y: "x = Ok (row, Some t)" "written (try_write_route (ce_show_time env) now c w (Some (p t)) row 0 s) = Returns (e, s')"
    by (auto split: sum.splits option.splits)
  from y(2) obtain r where "try_write_route (ce_show_time env) now c w (Some (p t)) row 0 s = (r, s')" "e = (case r of Err x \<Rightarrow> Some x | Ok _ \<Rightarrow> None)"
    unfolding written_Returns by blast
  with x(1) y(1) show thesis by (intro that [of row t "p t" r]) (simp_all add: p_def)
qed

lemma replace_route_follows:
  assumes "configure env now (ReplaceRoute c w current input) s = Returns (e, s')" "config_texts (ReplaceRoute c w current input)"
    "config_ok (ce_build env) s"
  shows "as_asked env now (ReplaceRoute c w current input) s e s'"
proof (cases "s' = s")
  case False
  with assms(1) obtain row t p r where a: "route_checked (ce_build env) (ce_show_error env) input Replacing = Returns (Ok (row, Some t))"
      "try_write_route (ce_show_time env) now c w (Some p) row 0 s = (r, s')" "e = (case r of Err x \<Rightarrow> Some x | Ok _ \<Rightarrow> None)"
    by (rule replace_route_asked)
  have ok: "route_row_ok (ce_build env) row" using route_checked_ok [OF a(1)] assms(2) by (simp add: list_all_iff)
  show ?thesis by (rule replace_route_change [OF a(2) ok assms(3)]) (simp_all add: as_asked_def a(3))
qed (simp add: same_follows)

lemma configure_follows:
  assumes "configure env now op s = Returns (e, s')" "config_ok (ce_build env) s" "config_texts op"
  shows "as_asked env now op s e s'"
  using assms by (cases op) (auto dest: create_service_follows replace_service_follows delete_follows
      create_route_follows replace_route_follows simp del: configure.simps)

lemma configure_ok:
  assumes "configure env now op s = Returns (e, s')" "config_ok (ce_build env) s" "config_texts op"
  shows "config_ok (ce_build env) s'"
  using configure_follows [OF assms] assms(2) by (auto simp: as_asked_def changes_ok)

text \<open>Every request is answered.\<close>

lemma configure_total:
  assumes "config_texts op"
  shows "\<exists>p. configure env now op s = Returns p"
proof (cases op)
  case (CreateRoute c w input i)
  with assms obtain x where "route_checked (ce_build env) (ce_show_error env) input Creating = Returns x"
    using route_checked_total [of input "ce_build env" "ce_show_error env" Creating] by (auto simp: list_all_iff)
  with CreateRoute show ?thesis by (auto simp: written_def split: sum.split)
next
  case (ReplaceRoute c w current input)
  with assms obtain x where "route_checked (ce_build env) (ce_show_error env) input Replacing = Returns x"
    using route_checked_total [of input "ce_build env" "ce_show_error env" Replacing] by (auto simp: list_all_iff)
  with ReplaceRoute show ?thesis by (auto simp: written_def unless_refused_def split: sum.split option.split)
qed (auto simp: written_def unless_refused_def split: sum.split option.split)

section \<open>What a write touches\<close>

text \<open>A row after a write was there before or carries the time of the write; rows of another workspace stay.\<close>

lemma changes_rows:
  "changes build now act w s s' \<Longrightarrow> v \<in> set (cd_services s') \<Longrightarrow> v \<in> set (cd_services s) \<or> sd_updated v = now"
  "changes build now act w s s' \<Longrightarrow> r \<in> set (cd_routes s') \<Longrightarrow> r \<in> set (cd_routes s) \<or> rd_updated r = now"
  by (induction rule: changes.induct) (auto simp: stored_route_def split: if_split_asm)

definition rows_of :: "cdb \<Rightarrow> uuid \<Rightarrow> service_record list \<times> route_record list" where
  "rows_of s w = (filter (\<lambda>v. sd_workspace v = w) (cd_services s), filter (\<lambda>r. rd_workspace r = w) (cd_routes s))"

lemma filter_map_other: "(\<And>x. x \<in> set xs \<Longrightarrow> c x \<Longrightarrow> \<not> P x \<and> \<not> P (f x)) \<Longrightarrow>
   filter P (map (\<lambda>x. if c x then f x else x) xs) = filter P xs"
  by (induction xs) auto

lemma filter_filter_other: "(\<And>x. x \<in> set xs \<Longrightarrow> \<not> c x \<Longrightarrow> \<not> P x) \<Longrightarrow> filter P (filter c xs) = filter P xs"
  by (induction xs) auto

lemma changes_rows_of:
  assumes "changes build now act w s s'" "config_ok build s" "w' \<noteq> w"
  shows "rows_of s' w' = rows_of s w'"
  using assms
proof (induction rule: changes.induct)
  case (service_replaced s w current old v s' now build)
  have "sd_id x = sd_id old \<Longrightarrow> x \<in> set (cd_services s) \<Longrightarrow> sd_workspace x = w" for x
    using by_id [OF config_ok_parts(1) [OF service_replaced.prems(1)], of x old] find_service_Some [OF service_replaced.hyps(1)] by simp
  with service_replaced.prems(2) show ?case
    unfolding rows_of_def service_replaced.hyps(4,5) by (subst filter_map_other) auto
next
  case (service_deleted s w current old s' build now)
  have "sd_id x = sd_id old \<Longrightarrow> x \<in> set (cd_services s) \<Longrightarrow> sd_workspace x = w" for x
    using by_id [OF config_ok_parts(1) [OF service_deleted.prems(1)], of x old] find_service_Some [OF service_deleted.hyps(1)] by simp
  with service_deleted.prems(2) show ?case
    unfolding rows_of_def service_deleted.hyps(4,5) by (subst filter_filter_other) auto
next
  case (route_replaced s w current old v0 r v build s' now)
  have "rd_id x = rd_id old \<Longrightarrow> x \<in> set (cd_routes s) \<Longrightarrow> rd_workspace x = w" for x
    using by_id [OF config_ok_parts(3) [OF route_replaced.prems(1)], of x old] find_route_Some [OF route_replaced.hyps(1)] by simp
  with route_replaced.prems(2) show ?case
    unfolding rows_of_def route_replaced.hyps(7,8) by (subst filter_map_other) auto
next
  case (route_deleted s w current old v s' build now)
  have "rd_id x = rd_id old \<Longrightarrow> x \<in> set (cd_routes s) \<Longrightarrow> rd_workspace x = w" for x
    using by_id [OF config_ok_parts(3) [OF route_deleted.prems(1)], of x old] find_route_Some [OF route_deleted.hyps(1)] by simp
  with route_deleted.prems(2) show ?case
    unfolding rows_of_def route_deleted.hyps(3,4) by (subst filter_filter_other) auto
qed (simp_all add: rows_of_def)

end
