(* ===== verification/Rust_Ip6.thy ===== *)
theory Rust_Ip6
  imports Rust_Net
begin

text \<open>
  An IPv6 address is read back from its text: the longest run of zero segments may be left out, and an
  IPv4-mapped address ends in the IPv4 form.
\<close>

section \<open>One group\<close>

lemma show_hex_digits: "c \<in> set (show_hex n) \<Longrightarrow> is_ascii_hexdigit c"
proof (induction n rule: show_hex.induct)
  case (1 n)
  then show ?case by (subst (asm) show_hex.simps) (auto split: if_split_asm)
qed

lemma show_hex_nonempty [simp]: "show_hex n \<noteq> []"
  by (subst show_hex.simps) simp

lemma hex_from_append: "hex_from acc (xs @ ys) = hex_from (hex_from acc xs) ys"
  by (induction xs arbitrary: acc) auto

lemma hex_from_show: "hex_from 0 (show_hex n) = n"
proof (induction n rule: show_hex.induct)
  case (1 n)
  then show ?case by (subst show_hex.simps) (auto simp: hex_from_append)
qed

lemma length_show_hex: "n < 16 ^ Suc k \<Longrightarrow> length (show_hex n) \<le> Suc k"
proof (induction n arbitrary: k rule: show_hex.induct)
  case (1 n)
  show ?case
  proof (cases "n < 16")
    case True
    then show ?thesis by (simp add: show_hex.simps [of n])
  next
    case False
    then obtain k' where k': "k = Suc k'" using 1(2) by (cases k) auto
    with 1(2) have "n div 16 < 16 ^ Suc k'" by (simp add: less_mult_imp_div_less)
    with 1(1) [OF False, of k'] False show ?thesis by (simp add: show_hex.simps [of n] k')
  qed
qed

definition apart :: "string \<Rightarrow> bool" where
  "apart t \<longleftrightarrow> t = [] \<or> \<not> is_ascii_hexdigit (hd t)"

lemma read_group_show:
  assumes "n < 65536" "apart t"
  shows "read_group (show_hex n @ t) = Some (n, t)"
proof -
  have "\<forall>c \<in> set (show_hex n). is_ascii_hexdigit c" using show_hex_digits by blast
  with assms(2) have "takeWhile is_ascii_hexdigit (show_hex n @ t) = show_hex n"
    and "dropWhile is_ascii_hexdigit (show_hex n @ t) = t"
    unfolding apart_def by (cases t; simp)+
  moreover have "length (show_hex n) \<le> 4" using length_show_hex [of n 3] assms(1) by simp
  ultimately show ?thesis by (simp add: read_group_def hex_from_show)
qed

lemma read_group_none: "apart t \<Longrightarrow> read_group t = None"
  by (cases t) (auto simp: read_group_def apart_def)

section \<open>No IPv4 address\<close>

lemma read_octet_rest: "read_octet s = Some (n, r) \<Longrightarrow> set r \<subseteq> set s"
  by (auto simp: read_octet_def Let_def split: if_splits dest: set_dropWhileD)

lemma read_ipv4_dot: "CHR ''.'' \<notin> set s \<Longrightarrow> read_ipv4 s = None"
proof -
  assume no: "CHR ''.'' \<notin> set s"
  have "read_separator CHR ''.'' 1 read_octet r = None" if "read_octet s = Some (n, r)" for n r
    using read_octet_rest [OF that] no by (auto simp: read_separator_def split: list.split)
  then show ?thesis by (auto simp: read_ipv4_def read_separator_def split: option.split)
qed

text \<open>A text whose digits are followed by something other than a dot is none either.\<close>

lemma read_ipv4_hex:
  assumes "\<forall>c \<in> set h. is_ascii_hexdigit c" "t = [] \<or> hd t = CHR '':''"
  shows "read_ipv4 (h @ t) = None"
proof -
  have nodot: "\<not> is_ascii_hexdigit CHR ''.''" "\<not> is_ascii_digit CHR '':''" by code_simp+
  have "read_separator CHR ''.'' 1 read_octet r = None" if "read_octet (h @ t) = Some (n, r)" for n r
  proof -
    from that have r: "r = dropWhile is_ascii_digit (h @ t)" by (auto simp: read_octet_def Let_def split: if_splits)
    have "r = [] \<or> hd r \<noteq> CHR ''.''"
    proof (cases "\<forall>c \<in> set h. is_ascii_digit c")
      case True
      then have "r = dropWhile is_ascii_digit t" by (simp add: r)
      with assms(2) nodot(2) show ?thesis by (cases t) auto
    next
      case False
      then have "r = dropWhile is_ascii_digit h @ t" "dropWhile is_ascii_digit h \<noteq> []"
        by (auto simp: r dropWhile_append1 dropWhile_eq_Nil_conv)
      moreover have "hd (dropWhile is_ascii_digit h) \<in> set h" using calculation(2) by (meson hd_in_set set_dropWhileD)
      ultimately show ?thesis using assms(1) nodot(1) by (metis hd_append2)
    qed
    then show ?thesis by (cases r) (auto simp: read_separator_def)
  qed
  then show ?thesis by (auto simp: read_ipv4_def read_separator_def split: option.split)
qed

section \<open>Groups\<close>

definition hex_text :: "nat list \<Rightarrow> string" where
  "hex_text gs = join '':'' (map show_hex gs)"

fun colon_text :: "nat list \<Rightarrow> string" where
  "colon_text [] = []"
| "colon_text (g # gs) = CHR '':'' # show_hex g @ colon_text gs"

lemma hex_text_Cons: "hex_text (g # gs) = show_hex g @ colon_text gs"
  by (induction gs arbitrary: g) (simp_all add: hex_text_def)

lemma colon_apart: "apart t \<Longrightarrow> (t = [] \<or> hd t = CHR '':'') \<Longrightarrow> apart (colon_text gs @ t) \<and> (colon_text gs @ t = [] \<or> hd (colon_text gs @ t) = CHR '':'')"
proof -
  have "\<not> is_ascii_hexdigit CHR '':''" by code_simp
  then show "apart t \<Longrightarrow> (t = [] \<or> hd t = CHR '':'') \<Longrightarrow> apart (colon_text gs @ t) \<and> (colon_text gs @ t = [] \<or> hd (colon_text gs @ t) = CHR '':'')"
    by (cases gs) (auto simp: apart_def)
qed

text \<open>What stops the reading: the end, or the two colons.\<close>

definition stops :: "string \<Rightarrow> bool" where
  "stops t \<longleftrightarrow> t = [] \<or> (\<exists>u. t = '':'' @ '':'' @ u)"

lemma stops_apart: "stops t \<Longrightarrow> apart t \<and> (t = [] \<or> hd t = CHR '':'')"
proof -
  have "\<not> is_ascii_hexdigit CHR '':''" by code_simp
  then show "stops t \<Longrightarrow> apart t \<and> (t = [] \<or> hd t = CHR '':'')" by (auto simp: stops_def apart_def)
qed

lemma stopped: "stops t \<Longrightarrow> 0 < i \<Longrightarrow> read_groups i n t = ([], False, t)"
proof -
  assume t: "stops t" and i: "0 < i"
  have colon: "\<not> is_ascii_hexdigit CHR '':''" "\<not> is_ascii_digit CHR '':''" by code_simp+
  have "read_separator CHR '':'' i read_ipv4 t = None" "read_separator CHR '':'' i read_group t = None"
    using t i colon by (auto simp: stops_def read_separator_def read_group_def read_ipv4_def read_octet_def)
  then show ?thesis by (cases n) auto
qed

lemma read_groups_colon:
  assumes "stops t" "0 < i" "length gs \<le> n" "\<forall>g \<in> set gs. g < 65536"
  shows "read_groups i n (colon_text gs @ t) = (gs, False, t)"
  using assms(2-)
proof (induction gs arbitrary: i n)
  case Nil
  with stopped [OF assms(1)] show ?case by simp
next
  case (Cons g gs)
  from Cons.prems(2) obtain n' where n: "n = Suc n'" "length gs \<le> n'" by (cases n) auto
  let ?rest = "colon_text gs @ t"
  have rest: "apart ?rest" "?rest = [] \<or> hd ?rest = CHR '':''" using colon_apart stops_apart [OF assms(1)] by blast+
  have "read_ipv4 (show_hex g @ ?rest) = None" using show_hex_digits rest(2) by (intro read_ipv4_hex) auto
  moreover have "read_group (show_hex g @ ?rest) = Some (g, ?rest)" using Cons.prems(3) rest(1) by (intro read_group_show) auto
  ultimately show ?case using Cons.IH [of "Suc i" n'] Cons.prems n by (auto simp: read_separator_def)
qed

lemma read_groups_text:
  assumes "stops t" "gs \<noteq> []" "length gs \<le> n" "\<forall>g \<in> set gs. g < 65536"
  shows "read_groups 0 n (hex_text gs @ t) = (gs, False, t)"
proof -
  obtain g hs where gs: "gs = g # hs" using assms(2) by (cases gs) auto
  then obtain n' where n: "n = Suc n'" "length hs \<le> n'" using assms(3) by (cases n) auto
  let ?rest = "colon_text hs @ t"
  have rest: "apart ?rest" "?rest = [] \<or> hd ?rest = CHR '':''" using colon_apart stops_apart [OF assms(1)] by blast+
  have "read_ipv4 (show_hex g @ ?rest) = None" using show_hex_digits rest(2) by (intro read_ipv4_hex) auto
  moreover have "read_group (show_hex g @ ?rest) = Some (g, ?rest)" using assms(4) rest(1) by (intro read_group_show) (auto simp: gs)
  ultimately show ?thesis
    using read_groups_colon [OF assms(1), of 1 hs n'] assms(4) n by (auto simp: gs hex_text_Cons read_separator_def)
qed

section \<open>The run that is left out\<close>

text \<open>A run names zeros of the list that starts at index \<open>i\<close>, or is empty.\<close>

definition zeros_at :: "nat list \<Rightarrow> nat \<times> nat \<Rightarrow> bool" where
  "zeros_at gs run \<longleftrightarrow> fst run + snd run \<le> length gs \<and> (\<forall>j < snd run. gs ! (fst run + j) = 0)"

lemma longest_zeros_at:
  assumes "zeros_at all best" "snd cur = 0 \<or> zeros_at all cur \<and> fst cur + snd cur = i" "drop i all = gs" "i \<le> length all"
  shows "zeros_at all (longest_zeros i gs cur best)"
  using assms
proof (induction gs arbitrary: i cur best)
  case (Cons g gs)
  have i: "i < length all" "all ! i = g" "drop (Suc i) all = gs"
    using Cons.prems(3) Cons_nth_drop_Suc [of i all] by (cases "i < length all"; simp)+
  show ?case
  proof (cases "g = 0")
    case True
    define cur' where "cur' = (if snd cur = 0 then i else fst cur, snd cur + 1)"
    have cur: "zeros_at all cur'" "fst cur' + snd cur' = Suc i"
      using Cons.prems(2) i True by (auto simp: zeros_at_def less_Suc_eq cur'_def)
    then have best: "zeros_at all (if snd best < snd cur' then cur' else best)" using Cons.prems(1) by simp
    have "longest_zeros i (g # gs) cur best = longest_zeros (Suc i) gs cur' (if snd best < snd cur' then cur' else best)"
      using True by (simp add: cur'_def Let_def)
    with Cons.IH [OF best, of cur' "Suc i"] cur i show ?thesis by simp
  next
    case False
    with Cons.IH [OF Cons.prems(1), of "(0, 0)" "Suc i"] i show ?thesis by simp
  qed
qed simp

lemma run_of_zeros:
  assumes "zeros_at gs (start, len)"
  shows "take start gs @ replicate len 0 @ drop (start + len) gs = gs"
proof (rule nth_equalityI)
  fix j assume "j < length (take start gs @ replicate len 0 @ drop (start + len) gs)"
  with assms show "(take start gs @ replicate len 0 @ drop (start + len) gs) ! j = gs ! j"
    by (auto simp: nth_append zeros_at_def min_def)
qed (use assms in \<open>simp add: zeros_at_def\<close>)

section \<open>Words and their segments\<close>

lemma horner_digits:
  assumes "x < B ^ k" "0 < B"
  shows "foldl (\<lambda>n g. B * n + g) (0 :: nat) (map (\<lambda>i. x div B ^ (k - Suc i) mod B) [0..<k]) = x"
  using assms
proof (induction k arbitrary: x)
  case (Suc k)
  have "x div B < B ^ k" using Suc.prems by (simp add: less_mult_imp_div_less mult.commute)
  have "map (\<lambda>i. x div B ^ (k - i) mod B) [0..<k] = map (\<lambda>i. x div B div B ^ (k - Suc i) mod B) [0..<k]"
    by (auto simp: div_mult2_eq [symmetric] Suc_diff_Suc power_Suc [symmetric] simp del: power_Suc)
  with Suc.IH [OF \<open>x div B < B ^ k\<close> Suc.prems(2)] show ?case by (simp del: map_eq_conv)
qed simp

lemma segments_of_upt: "segments_of a = map (\<lambda>i. unat a div 65536 ^ (8 - Suc i) mod 65536) [0..<8]"
proof -
  have "[0..<8] = [0, 1, 2, 3, 4, 5, 6, 7 :: nat]" by (simp add: upt_rec)
  then show ?thesis by (simp add: segments_of_def)
qed

lemma groups_to_u128_segments: "groups_to_u128 (segments_of a) = a"
proof -
  have "unat a < 65536 ^ 8" using unsigned_less [of a] by simp
  from horner_digits [OF this] show ?thesis unfolding groups_to_u128_def segments_of_upt by simp
qed

lemma segments_of_bounds: "length (segments_of a) = 8" "\<forall>g \<in> set (segments_of a). g < 65536"
  by (auto simp: segments_of_def)

section \<open>The text reads back\<close>

lemma hex_text_no_dot: "CHR ''.'' \<notin> set (hex_text gs)"
proof -
  have "\<not> is_ascii_hexdigit CHR ''.''" by code_simp
  then have "CHR ''.'' \<notin> set (show_hex g)" for g using show_hex_digits by blast
  moreover have "CHR ''.'' \<notin> set (colon_text hs)" for hs using calculation by (induction hs) auto
  ultimately show ?thesis by (cases gs) (simp_all add: hex_text_Cons, simp add: hex_text_def)
qed

lemma read_text_before: "gs \<noteq> [] \<or> t = [] \<or> stops t \<Longrightarrow> stops t \<Longrightarrow> length gs \<le> n \<Longrightarrow> \<forall>g \<in> set gs. g < 65536 \<Longrightarrow>
   read_groups 0 n (hex_text gs @ t) = (gs, False, t)"
proof (cases gs)
  case Nil
  have colon: "\<not> is_ascii_hexdigit CHR '':''" "\<not> is_ascii_digit CHR '':''" by code_simp+
  assume "stops t"
  then have "read_separator CHR '':'' 0 read_ipv4 t = None" "read_separator CHR '':'' 0 read_group t = None"
    using colon by (auto simp: stops_def read_separator_def read_group_def read_ipv4_def read_octet_def)
  with Nil show ?thesis by (cases n) (auto simp: hex_text_def)
qed (use read_groups_text in auto)

lemma read_ipv6_whole:
  assumes "length gs = 8" "\<forall>g \<in> set gs. g < 65536"
  shows "read_ipv6 (hex_text gs) = Some (gs, [])"
  using read_text_before [of gs "[]" 8] assms by (simp add: read_ipv6_def stops_def)

lemma read_ipv6_short:
  assumes "length hs + length ts + len = 8" "1 < len" "\<forall>g \<in> set hs. g < 65536" "\<forall>g \<in> set ts. g < 65536"
  shows "read_ipv6 (hex_text hs @ ''::'' @ hex_text ts) = Some (hs @ replicate len 0 @ ts, [])"
proof -
  have "read_groups 0 8 (hex_text hs @ ''::'' @ hex_text ts) = (hs, False, ''::'' @ hex_text ts)"
    using assms by (intro read_text_before) (auto simp: stops_def)
  moreover have "read_groups 0 (8 - (length hs + 1)) (hex_text ts) = (ts, False, [])"
    using read_text_before [of ts "[]" "8 - (length hs + 1)"] assms by (simp add: stops_def)
  moreover have "8 - length hs - length ts = len" using assms(1) by simp
  ultimately show ?thesis using assms(1,2) by (simp add: read_ipv6_def strip_prefix_def)
qed

lemma parse_ip_ipv6: "read_ipv4 s = None \<Longrightarrow> read_ipv6 s = Some (gs, []) \<Longrightarrow> parse_ip s = Some (V6 (groups_to_u128 gs))"
  by (simp add: parse_ip_def)

lemma mapped_value: "to_ipv4_mapped a = Some b \<Longrightarrow> unat a = 0xFFFF * 2 ^ 32 + unat b"
proof -
  assume "to_ipv4_mapped a = Some b"
  then have hi: "drop_bit 32 a = 0xFFFF" and b: "b = ucast a" by (auto simp: to_ipv4_mapped_def split: if_splits)
  have "unat (drop_bit 32 a) = unat a div 2 ^ 32" by (simp add: drop_bit_eq_div unat_div)
  then have "unat a div 2 ^ 32 = 0xFFFF" using hi by simp
  moreover have "unat b = unat a mod 2 ^ 32" by (simp add: b unsigned_ucast_eq take_bit_eq_mod)
  ultimately show ?thesis using div_mult_mod_eq [of "unat a" "2 ^ 32"] by simp
qed

lemma octets_value: "unat b = 256 * (256 * (256 * octet_of b 0 + octet_of b 1) + octet_of b 2) + octet_of b 3"
proof -
  have "unat b < 256 ^ 4" using unsigned_less [of b] by simp
  moreover have "[0..<4] = [0, 1, 2, 3 :: nat]" by (simp add: upt_rec)
  ultimately show ?thesis using horner_digits [of "unat b" 256 4] by (simp add: octet_of_def)
qed

lemma mapped_groups:
  assumes "to_ipv4_mapped a = Some b"
  shows "groups_to_u128 [0, 0, 0, 0, 0, 0xFFFF, 256 * octet_of b 0 + octet_of b 1, 256 * octet_of b 2 + octet_of b 3] = a"
proof -
  have "foldl (\<lambda>n g. 65536 * n + g) 0 [0, 0, 0, 0, 0, 0xFFFF, 256 * octet_of b 0 + octet_of b 1, 256 * octet_of b 2 + octet_of b 3] = unat a"
    using mapped_value [OF assms] octets_value [of b] by simp
  then show ?thesis unfolding groups_to_u128_def by (simp only:) simp
qed

lemma read_ipv4_show: "read_ipv4 (show_ipv4 b) = Some (map (octet_of b) [0, 1, 2, 3], [])"
proof -
  have "\<not> is_ascii_digit CHR ''.''" by (simp add: is_ascii_digit_def byte_def)
  then show ?thesis
    using read_octet_show [of "octet_of b 3" "[]"]
    by (simp add: read_ipv4_def show_ipv4_def read_separator_def read_octet_show)
qed

lemma parse_ip_mapped:
  assumes "to_ipv4_mapped a = Some b"
  shows "parse_ip (''::ffff:'' @ show_ipv4 b) = Some (V6 a)"
proof -
  let ?s = "''::ffff:'' @ show_ipv4 b"
  have colon: "\<not> is_ascii_hexdigit CHR '':''" "\<not> is_ascii_digit CHR '':''" "\<not> is_ascii_digit CHR ''f''" "is_ascii_hexdigit CHR ''f''" by code_simp+
  have "read_ipv4 ?s = None" using colon by (simp add: read_ipv4_def read_separator_def read_octet_def)
  moreover have "read_groups 0 8 ?s = ([], False, ?s)"
  proof -
    have "read_separator CHR '':'' 0 read_ipv4 ?s = None" "read_separator CHR '':'' 0 read_group ?s = None"
      using colon by (simp_all add: read_separator_def read_ipv4_def read_octet_def read_group_def)
    then have "read_groups 0 (Suc 7) ?s = ([], False, ?s)" by (simp only: read_groups.simps) simp
    then show ?thesis by simp
  qed
  moreover have "read_groups 0 7 (''ffff:'' @ show_ipv4 b) = ([0xFFFF, 256 * octet_of b 0 + octet_of b 1, 256 * octet_of b 2 + octet_of b 3], True, [])"
  proof -
    have "read_ipv4 (''ffff:'' @ show_ipv4 b) = None" using colon by (simp add: read_ipv4_def read_separator_def read_octet_def)
    moreover have "read_group (''ffff:'' @ show_ipv4 b) = Some (0xFFFF, '':'' @ show_ipv4 b)"
      using colon by (simp add: read_group_def hex_val_def is_ascii_digit_def byte_def)
    ultimately have "read_groups 0 (Suc (Suc 5)) (''ffff:'' @ show_ipv4 b) =
        ([0xFFFF, 256 * octet_of b 0 + octet_of b 1, 256 * octet_of b 2 + octet_of b 3], True, [])"
      by (simp only: read_groups.simps) (simp add: read_separator_def read_ipv4_show)
    then show ?thesis by simp
  qed
  moreover have "replicate 5 (0 :: nat) = [0, 0, 0, 0, 0]" by (simp add: numeral_eq_Suc)
  ultimately have "parse_ip ?s = Some (V6 (groups_to_u128 [0, 0, 0, 0, 0, 0xFFFF, 256 * octet_of b 0 + octet_of b 1, 256 * octet_of b 2 + octet_of b 3]))"
    by (simp add: parse_ip_def read_ipv6_def strip_prefix_def)
  then show ?thesis by (simp only: mapped_groups [OF assms])
qed

lemma parse_ip_show_ipv6: "parse_ip (show_ipv6 a) = Some (V6 a)"
proof (cases "to_ipv4_mapped a")
  case (Some b)
  then show ?thesis by (simp add: show_ipv6_def parse_ip_mapped [OF Some] del: append.simps)
next
  case None
  let ?gs = "segments_of a"
  obtain start len where run: "longest_zeros 0 ?gs (0, 0) (0, 0) = (start, len)" by force
  have at: "zeros_at ?gs (start, len)"
    using longest_zeros_at [of ?gs "(0, 0)" "(0, 0)" 0 ?gs] run by (simp add: zeros_at_def)
  have v4: "read_ipv4 (hex_text hs @ ''::'' @ hex_text ts) = None" "read_ipv4 (hex_text hs) = None" for hs ts
    using hex_text_no_dot by (auto intro!: read_ipv4_dot)
  show ?thesis
  proof (cases "1 < len")
    case True
    let ?hs = "take start ?gs" and ?ts = "drop (start + len) ?gs"
    have "length ?hs + length ?ts + len = 8" using at segments_of_bounds(1) [of a] by (simp add: zeros_at_def)
    moreover have "\<forall>g \<in> set ?hs. g < 65536" "\<forall>g \<in> set ?ts. g < 65536"
      using segments_of_bounds(2) [of a] by (meson in_set_takeD in_set_dropD)+
    ultimately have "read_ipv6 (hex_text ?hs @ ''::'' @ hex_text ?ts) = Some (?gs, [])"
      using read_ipv6_short [of ?hs ?ts len] True run_of_zeros [OF at] by simp
    from parse_ip_ipv6 [OF v4(1) this] show ?thesis using None True run
      by (simp add: show_ipv6_def hex_text_def Let_def groups_to_u128_segments)
  next
    case False
    from parse_ip_ipv6 [OF v4(2) read_ipv6_whole [OF segments_of_bounds]] show ?thesis using None False run
      by (simp add: show_ipv6_def hex_text_def Let_def groups_to_u128_segments)
  qed
qed

end
