(* ===== verification/Networks.thy ===== *)
theory Networks
  imports Client_Ip Rust_Ip6
begin

text \<open>A network of either kind is read back from the text it is stored as.\<close>

lemma show_ipv6_no_slash: "CHR ''/'' \<notin> set (show_ipv6 a)"
proof -
  have "\<not> is_ascii_hexdigit CHR ''/''" by code_simp
  then have "CHR ''/'' \<notin> set (show_hex g)" for g using show_hex_digits by blast
  then have "CHR ''/'' \<notin> set (hex_text gs)" for gs
  proof -
    have "CHR ''/'' \<notin> set (colon_text hs)" for hs using \<open>\<And>g. CHR ''/'' \<notin> set (show_hex g)\<close> by (induction hs) auto
    then show ?thesis using \<open>\<And>g. CHR ''/'' \<notin> set (show_hex g)\<close> by (cases gs) (simp_all add: hex_text_Cons, simp add: hex_text_def)
  qed
  then show ?thesis using show_ipv4_no_slash
    by (auto simp: show_ipv6_def hex_text_def Let_def split: option.splits prod.splits if_split_asm)
qed

lemma parse_ip_show: "parse_ip (show_ip a) = Some a" "CHR ''/'' \<notin> set (show_ip a)"
  using parse_ip_show_ipv4 parse_ip_show_ipv6 show_ipv4_no_slash show_ipv6_no_slash by (cases a; simp)+

lemma cidr_reads_back: "cidr_wf c \<Longrightarrow> cidr_from_str (show_cidr c) = Ok c"
  by (cases c) (simp add: cidr_from_str_def show_cidr_def parse_ip_show Let_def cidr_wf_def)

end
