(* ===== verification/Policies.thy ===== *)
theory Policies
  imports Configuration Networks
begin

text \<open>
  \<^verbatim>\<open>gapura-control/src/policies.rs\<close>: the policies whose stored configuration is the policy itself.
  \<open>parse_policy\<close> is \<open>parse\<close>, which reads both a request's body and a stored row; \<open>policy_config\<close> is
  \<open>config\<close>, the JSON that is stored. A derived reader takes an object, or an array by position.
\<close>

section \<open>Limits\<close>

definition policy_kinds :: "string list" where
  "policy_kinds = [''ip_restriction'', ''request_size_limit'', ''request_transformer'', ''response_transformer'',
     ''cors'', ''auth'', ''acl'']"

definition max_networks :: nat where "max_networks = 1000"
definition max_body_bytes :: nat where "max_body_bytes = 2 ^ 30"
definition max_edits :: nat where "max_edits = 64"
definition max_value_chars :: nat where "max_value_chars = 4096"
definition max_edit_name_chars :: nat where "max_edit_name_chars = 256"
definition max_origins :: nat where "max_origins = 100"
definition max_cors_headers :: nat where "max_cors_headers = 64"
definition max_age_secs :: nat where "max_age_secs = 86400"
definition max_acl_groups :: nat where "max_acl_groups = 100"
definition max_consumer_group_chars :: nat where "max_consumer_group_chars = 64"

definition cors_methods :: "string list" where
  "cors_methods = [''GET'', ''HEAD'', ''PUT'', ''PATCH'', ''POST'', ''DELETE'']"

definition framing :: "string list" where
  "framing = [''host'', ''content-length'', ''transfer-encoding'', ''connection'', ''keep-alive'', ''te'',
     ''trailer'', ''upgrade'', ''proxy-connection'']"

section \<open>Reading JSON\<close>

text \<open>\<open>collect\<close> into a \<open>Result\<close>: the first error wins.\<close>

fun try_all :: "('a \<Rightarrow> 'e + 'b) \<Rightarrow> 'a list \<Rightarrow> 'e + 'b list" where
  "try_all f [] = Ok []"
| "try_all f (x # xs) =
     (case f x of Err e \<Rightarrow> Err e | Ok y \<Rightarrow> (case try_all f xs of Err e \<Rightarrow> Err e | Ok ys \<Rightarrow> Ok (y # ys)))"

fun read_options :: "('a \<Rightarrow> 'b option) \<Rightarrow> 'a list \<Rightarrow> 'b list option" where
  "read_options f [] = Some []"
| "read_options f (x # xs) = (case f x of None \<Rightarrow> None | Some y \<Rightarrow> map_option ((#) y) (read_options f xs))"

fun json_text :: "json \<Rightarrow> string option" where
  "json_text (JsonString t) = Some t"
| "json_text _ = None"

fun json_pair :: "json \<Rightarrow> (string \<times> string) option" where
  "json_pair (JsonArray [JsonString a, JsonString b]) = Some (a, b)"
| "json_pair _ = None"

fun json_list :: "(json \<Rightarrow> 'a option) \<Rightarrow> json \<Rightarrow> 'a list option" where
  "json_list f (JsonArray es) = read_options f es"
| "json_list f _ = None"

definition as_u64 :: "json \<Rightarrow> nat option" where
  "as_u64 v =
     (case v of
        JsonNumber t \<Rightarrow> if t \<noteq> [] \<and> list_all is_ascii_digit t \<and> digits_val t < 2 ^ 64 then Some (digits_val t) else None
      | _ \<Rightarrow> None)"

text \<open>A struct that denies unknown fields.\<close>

fun struct_fields :: "string list \<Rightarrow> json \<Rightarrow> (string \<times> json) list option" where
  "struct_fields names (JsonObject kvs) = (if fst ` set kvs \<subseteq> set names then Some kvs else None)"
| "struct_fields names (JsonArray es) = (if length es \<le> length names then Some (zip names es) else None)"
| "struct_fields names _ = None"

text \<open>A field with a default: an empty list, or null.\<close>

definition texts_field :: "string \<Rightarrow> (string \<times> json) list \<Rightarrow> string list option" where
  "texts_field k kvs = (case map_of kvs k of None \<Rightarrow> Some [] | Some v \<Rightarrow> json_list json_text v)"

definition value_field :: "string \<Rightarrow> (string \<times> json) list \<Rightarrow> json" where
  "value_field k kvs = (case map_of kvs k of None \<Rightarrow> JsonNull | Some v \<Rightarrow> v)"

definition object_fields :: "string \<Rightarrow> string \<Rightarrow> string list \<Rightarrow> json \<Rightarrow> field_error + (string \<times> json) list" where
  "object_fields at sentence names v =
     (case v of
        JsonObject _ \<Rightarrow> (case struct_fields names v of Some kvs \<Rightarrow> Ok kvs | None \<Rightarrow> Err (field_refused at sentence))
      | _ \<Rightarrow> Err (field_refused at sentence))"

definition bracketed :: "string list \<Rightarrow> string" where
  "bracketed ts = ''['' @ join '', '' (map (\<lambda>t. CHR 0x22 # t @ [CHR 0x22]) ts) @ '']''"

definition texts :: "string \<Rightarrow> json \<Rightarrow> string \<Rightarrow> field_error + string list" where
  "texts at v example =
     (if v = JsonNull then Ok []
      else case json_list json_text v of
             Some ts \<Rightarrow> Ok ts
           | None \<Rightarrow> Err \<lparr>fe_field = at, fe_sentence = Msg ''List text, such as {example}.'' [Text example]\<rparr>)"

definition flag :: "string \<Rightarrow> json \<Rightarrow> field_error + bool" where
  "flag at v =
     (case v of JsonNull \<Rightarrow> Ok False | JsonBool b \<Rightarrow> Ok b | _ \<Rightarrow> Err (field_refused at ''Use true or false.''))"

section \<open>Addresses, groups, callers and sizes\<close>

fun show_cidr_error :: "cidr_error \<Rightarrow> message" where
  "show_cidr_error (NotAnAddress t) = Msg ''{addr:?} is not an IP address'' [Text t]"
| "show_cidr_error (NotAPrefixLength b a) =
     Msg ''{bits:?} is not a prefix length for {addr}'' [Text b, Text (show_ip a)]"

definition network :: "string \<Rightarrow> string \<Rightarrow> field_error + cidr" where
  "network at t =
     (case cidr_from_str t of
        Ok c \<Rightarrow> Ok c
      | Err e \<Rightarrow> Err \<lparr>fe_field = at, fe_sentence =
          Msg (msg_format (show_cidr_error e) @ ''. Write an address such as 203.0.113.7 or a network such as 10.0.0.0/8.'')
            (msg_args (show_cidr_error e))\<rparr>)"

definition ip_restriction :: "json \<Rightarrow> field_error + ip_restriction_policy" where
  "ip_restriction config =
     (let shape = field_refused ''config'' ''Send allow and deny, each a list of addresses or networks such as 10.0.0.0/8.'' in
      case Option.bind (struct_fields [''allow'', ''deny''] config) (\<lambda>kvs.
             Option.bind (texts_field ''allow'' kvs) (\<lambda>a. map_option (Pair a) (texts_field ''deny'' kvs))) of
        None \<Rightarrow> Err shape
      | Some (allow, deny) \<Rightarrow>
          if allow = [] \<and> deny = []
          then Err (field_refused ''allow'' ''List at least one address or network to allow or to deny.'')
          else if max_networks < length allow + length deny
          then Err (field_refused ''allow'' ''List at most {MAX_NETWORKS} addresses and networks, allow and deny together.'')
          else case try_all (network ''allow'') allow of
                 Err e \<Rightarrow> Err e
               | Ok a \<Rightarrow> (case try_all (network ''deny'') deny of
                   Err e \<Rightarrow> Err e | Ok d \<Rightarrow> Ok \<lparr>ir_allow = a, ir_deny = d\<rparr>))"

text \<open>\<open>consumers::group\<close>.\<close>

definition consumer_group :: "string \<Rightarrow> string \<Rightarrow> field_error + string" where
  "consumer_group at name =
     (if 1 \<le> length name \<and> length name \<le> max_consumer_group_chars \<and>
         list_all (\<lambda>c. is_ascii_alphanumeric c \<or> c \<in> set ''.-_:'') name
      then Ok name
      else Err (field_refused at ''Name a group in 1 to {MAX_GROUP_CHARS} letters, digits, dots, dashes, underscores or colons.''))"

definition acl_groups :: "string \<Rightarrow> string list \<Rightarrow> field_error + string list" where
  "acl_groups at list =
     (if max_acl_groups < length list then Err (field_refused at ''List at most {MAX_ACL_GROUPS} groups.'')
      else try_all (consumer_group at) list)"

definition acl :: "json \<Rightarrow> field_error + acl_policy" where
  "acl config =
     (case Option.bind (struct_fields [''allow'', ''deny''] config) (\<lambda>kvs.
             Option.bind (texts_field ''allow'' kvs) (\<lambda>a. map_option (Pair a) (texts_field ''deny'' kvs))) of
        None \<Rightarrow> Err (field_refused ''config'' ''Send allow and deny, each a list of group names.'')
      | Some (allow, deny) \<Rightarrow>
          if allow = [] \<and> deny = [] then Err (field_refused ''allow'' ''List at least one group to allow or to deny.'')
          else case acl_groups ''allow'' allow of
                 Err e \<Rightarrow> Err e
               | Ok a \<Rightarrow> (case acl_groups ''deny'' deny of
                   Err e \<Rightarrow> Err e | Ok d \<Rightarrow> Ok \<lparr>acl_allow = a, acl_deny = d\<rparr>))"

definition optional_text :: "string \<Rightarrow> (string \<times> json) list \<Rightarrow> string option option" where
  "optional_text k kvs =
     (case map_of kvs k of
        None \<Rightarrow> Some None | Some JsonNull \<Rightarrow> Some None | Some (JsonString t) \<Rightarrow> Some (Some t) | Some _ \<Rightarrow> None)"

definition auth :: "json \<Rightarrow> field_error + auth_policy" where
  "auth config =
     (case Option.bind (struct_fields [''anonymous''] config) (optional_text ''anonymous'') of
        None \<Rightarrow> Err (field_refused ''config'' ''Send anonymous, a consumer's name, or nothing.'')
      | Some name \<Rightarrow>
          (case (case name of Some n \<Rightarrow> if trim n \<noteq> [] then Some n else None | None \<Rightarrow> None) of
             None \<Rightarrow> Ok \<lparr>au_anonymous = None, au_workspace = None\<rparr>
           | Some n \<Rightarrow>
               (case config_name n ''anonymous'' of
                  Err e \<Rightarrow> Err e
                | Ok n \<Rightarrow> Ok \<lparr>au_anonymous = Some n, au_workspace = None\<rparr>)))"

definition request_size_limit :: "json \<Rightarrow> field_error + request_size_limit_policy" where
  "request_size_limit config =
     (case Option.bind (struct_fields [''max_bytes''] config) (\<lambda>kvs. map_of kvs ''max_bytes'') of
        None \<Rightarrow> Err (field_refused ''config'' ''Send max_bytes, the largest body in bytes.'')
      | Some v \<Rightarrow>
          (case Option.bind (as_u64 v) (\<lambda>n. if 1 \<le> n \<and> n \<le> max_body_bytes then Some n else None) of
             Some n \<Rightarrow> Ok \<lparr>max_bytes = of_nat n\<rparr>
           | None \<Rightarrow> Err (field_refused ''max_bytes'' ''Use a whole number of bytes from 1 to {MAX_BODY_BYTES}.'')))"

section \<open>Transformers\<close>

definition is_token :: "char \<Rightarrow> bool" where
  "is_token c \<longleftrightarrow> is_ascii_alphanumeric c \<or> c \<in> set ''!#$%&*+-.^_`|~'' \<or> byte c = 39"

definition reserved_refusal :: "string \<Rightarrow> message" where
  "reserved_refusal name =
     (if name = consumer_header then Msg ''{CONSUMER_HEADER} is set by the gateway from the consumer a key names, so a transform cannot write it.'' []
      else if name = groups_header then Msg ''{GROUPS_HEADER} is set by the gateway from the groups of the consumer a credential names, so a transform cannot write it.'' []
      else if name = anonymous_header then Msg ''{ANONYMOUS_HEADER} is set by the gateway when a caller without a credential is an auth policy's anonymous consumer, so a transform cannot write it.'' []
      else Msg ''{name} says how HTTP frames, routes or carries a message, which the gateway keeps for itself, so a transform cannot write it.'' [Text name])"

definition dotted :: "string \<Rightarrow> string \<Rightarrow> string" where
  "dotted section op = section @ ''.'' @ op"

definition edit_name :: "string \<Rightarrow> bool \<Rightarrow> string list \<Rightarrow> string \<Rightarrow> string \<Rightarrow> field_error + string" where
  "edit_name section header refused op name =
     (let at = dotted section op; count = length (chars name) in
      if header \<and> \<not> (1 \<le> count \<and> count \<le> max_edit_name_chars)
      then Err (field_refused at ''Use header names of 1 to {MAX_NAME_CHARS} characters.'')
      else if header \<and> \<not> list_all is_token name
      then Err (field_refused at ''Use header names made of letters, digits and !#$%&'*+-.^_`|~.'')
      else if \<not> header \<and> \<not> (1 \<le> count \<and> count \<le> max_edit_name_chars)
      then Err (field_refused at ''Use parameter names of 1 to {MAX_NAME_CHARS} characters.'')
      else let n = (if header then to_ascii_lowercase name else name) in
        if n \<in> set refused then Err \<lparr>fe_field = at, fe_sentence = reserved_refusal n\<rparr> else Ok n)"

definition value_byte :: "char \<Rightarrow> bool" where
  "value_byte c \<longleftrightarrow> byte c = 9 \<or> 32 \<le> byte c \<and> byte c \<le> 126"

definition edit_value :: "string \<Rightarrow> bool \<Rightarrow> string \<Rightarrow> string \<Rightarrow> field_error + string" where
  "edit_value section header op v =
     (if max_value_chars < length (chars v)
      then Err (field_refused (dotted section op) ''Use values of at most {MAX_VALUE_CHARS} characters.'')
      else if header \<and> \<not> list_all value_byte v
      then Err (field_refused (dotted section op) ''Use header values of visible ASCII, spaces and tabs: no line breaks, other control characters or characters past ASCII.'')
      else Ok v)"

definition edit_list ::
  "(json \<Rightarrow> 'a option) \<Rightarrow> string \<Rightarrow> string \<Rightarrow> string \<Rightarrow> json \<Rightarrow> field_error + 'a list" where
  "edit_list one shape example at v =
     (if v = JsonNull then Ok []
      else case json_list one v of
             Some xs \<Rightarrow> Ok xs
           | None \<Rightarrow> Err \<lparr>fe_field = at, fe_sentence = Msg shape [Text example]\<rparr>)"

definition pair_example :: "string \<Rightarrow> string \<Rightarrow> string" where
  "pair_example a b = ''['' @ bracketed [a, b] @ '']''"

definition removed_list :: "string \<Rightarrow> bool \<Rightarrow> string list \<Rightarrow> json \<Rightarrow> field_error + string list" where
  "removed_list section header refused v =
     (case edit_list json_text ''List names, such as {removed}.''
             (if header then bracketed [''x-debug''] else bracketed [''debug'']) (dotted section ''remove'') v of
        Err e \<Rightarrow> Err e | Ok ns \<Rightarrow> try_all (edit_name section header refused ''remove'') ns)"

fun renamed_pair :: "string \<Rightarrow> bool \<Rightarrow> string list \<Rightarrow> string \<times> string \<Rightarrow> field_error + string \<times> string" where
  "renamed_pair section header refused (a, b) =
     (case edit_name section header refused ''rename'' a of Err e \<Rightarrow> Err e | Ok a' \<Rightarrow>
      (case edit_name section header refused ''rename'' b of Err e \<Rightarrow> Err e | Ok b' \<Rightarrow> Ok (a', b')))"

fun written_pair :: "string \<Rightarrow> bool \<Rightarrow> string list \<Rightarrow> string \<Rightarrow> string \<times> string \<Rightarrow> field_error + string \<times> string" where
  "written_pair section header refused op (n, x) =
     (case edit_name section header refused op n of Err e \<Rightarrow> Err e | Ok n' \<Rightarrow>
      (case edit_value section header op x of Err e \<Rightarrow> Err e | Ok x' \<Rightarrow> Ok (n', x')))"

definition renamed_list :: "string \<Rightarrow> bool \<Rightarrow> string list \<Rightarrow> json \<Rightarrow> field_error + (string \<times> string) list" where
  "renamed_list section header refused v =
     (case edit_list json_pair ''List pairs of the old name and the new, such as {renamed}.''
             (if header then pair_example ''x-old'' ''x-new'' else pair_example ''old'' ''new'') (dotted section ''rename'') v of
        Err e \<Rightarrow> Err e
      | Ok ps \<Rightarrow> try_all (renamed_pair section header refused) ps)"

definition written_list :: "string \<Rightarrow> bool \<Rightarrow> string list \<Rightarrow> string \<Rightarrow> json \<Rightarrow> field_error + (string \<times> string) list" where
  "written_list section header refused op v =
     (case edit_list json_pair ''List pairs of a name and its value, such as {set}.''
             (if header then pair_example ''x-team'' ''core'' else pair_example ''version'' ''2'') (dotted section op) v of
        Err e \<Rightarrow> Err e
      | Ok ps \<Rightarrow> try_all (written_pair section header refused op) ps)"

definition no_edits :: header_edits where
  "no_edits = \<lparr>he_remove = [], he_rename = [], he_replace = [], he_add = [], he_append = []\<rparr>"

definition edit_ops :: "string list" where
  "edit_ops = [''remove'', ''rename'', ''replace'', ''add'', ''append'']"

definition edits :: "string \<Rightarrow> json \<Rightarrow> bool \<Rightarrow> string list \<Rightarrow> field_error + header_edits" where
  "edits section config header refused =
     (if config = JsonNull then Ok no_edits
      else case object_fields section ''Send any of remove, rename, replace, add and append.'' edit_ops config of Err e \<Rightarrow> Err e | Ok kvs \<Rightarrow>
       (case removed_list section header refused (value_field ''remove'' kvs) of Err e \<Rightarrow> Err e | Ok rm \<Rightarrow>
        (case renamed_list section header refused (value_field ''rename'' kvs) of Err e \<Rightarrow> Err e | Ok rn \<Rightarrow>
         (case written_list section header refused ''replace'' (value_field ''replace'' kvs) of Err e \<Rightarrow> Err e | Ok rp \<Rightarrow>
          (case written_list section header refused ''add'' (value_field ''add'' kvs) of Err e \<Rightarrow> Err e | Ok ad \<Rightarrow>
           (case written_list section header refused ''append'' (value_field ''append'' kvs) of Err e \<Rightarrow> Err e | Ok ap \<Rightarrow>
              Ok \<lparr>he_remove = rm, he_rename = rn, he_replace = rp, he_add = ad, he_append = ap\<rparr>))))))"

definition counted_edits :: "(string \<times> header_edits) list \<Rightarrow> field_error + unit" where
  "counted_edits sections =
     (let total = sum_list (map (\<lambda>(_, e). edits_len e) sections) in
      if total = 0 then Err (field_refused ''headers'' ''List at least one edit.'')
      else case find (\<lambda>(_, e). max_edits < edits_len e) sections of
             Some (section, _) \<Rightarrow> Err (field_refused section ''List at most {MAX_EDITS} edits in one policy.'')
           | None \<Rightarrow>
               if max_edits < total
               then Err (field_refused ''config'' ''List at most {MAX_EDITS} edits in one policy, headers and query together.'')
               else Ok ())"

definition request_transformer :: "json \<Rightarrow> field_error + request_transformer_policy" where
  "request_transformer config =
     (case object_fields ''config'' ''Send headers and query, each with any of remove, rename, replace, add and append.''
             [''headers'', ''query''] config of Err e \<Rightarrow> Err e | Ok kvs \<Rightarrow>
      (case edits ''headers'' (value_field ''headers'' kvs) True (framing @ [consumer_header]) of Err e \<Rightarrow> Err e | Ok h \<Rightarrow>
       (case edits ''query'' (value_field ''query'' kvs) False [] of Err e \<Rightarrow> Err e | Ok q \<Rightarrow>
        (case counted_edits [(''headers'', h), (''query'', q)] of Err e \<Rightarrow> Err e | Ok _ \<Rightarrow>
           Ok \<lparr>rq_headers = h, rq_query = q\<rparr>))))"

definition response_transformer :: "json \<Rightarrow> field_error + response_transformer_policy" where
  "response_transformer config =
     (case object_fields ''config'' ''Send headers, with any of remove, rename, replace, add and append.'' [''headers''] config of
        Err e \<Rightarrow> Err e
      | Ok kvs \<Rightarrow>
          (case edits ''headers'' (value_field ''headers'' kvs) True framing of Err e \<Rightarrow> Err e | Ok h \<Rightarrow>
           (case counted_edits [(''headers'', h)] of Err e \<Rightarrow> Err e | Ok _ \<Rightarrow> Ok \<lparr>rs_headers = h\<rparr>)))"

text \<open>The headers the gateway came to set later, refused on a write only.\<close>

definition edited_names :: "header_edits \<Rightarrow> (string \<times> string list) list" where
  "edited_names e =
     [(''remove'', he_remove e), (''rename'', concat (map (\<lambda>(a, b). [a, b]) (he_rename e))),
      (''replace'', map fst (he_replace e)), (''add'', map fst (he_add e)), (''append'', map fst (he_append e))]"

definition newly_reserved :: "plugin \<Rightarrow> field_error + unit" where
  "newly_reserved p =
     (case p of
        RequestTransformer t \<Rightarrow>
          (case List.map_filter (\<lambda>(op, name). map_option (Pair op)
                  (find (\<lambda>r. eq_ignore_ascii_case r name) [groups_header, anonymous_header]))
                  (concat (map (\<lambda>(op, names). map (Pair op) names) (edited_names (rq_headers t)))) of
             [] \<Rightarrow> Ok ()
           | (op, r) # _ \<Rightarrow> Err \<lparr>fe_field = dotted ''headers'' op, fe_sentence = reserved_refusal r\<rparr>)
      | _ \<Rightarrow> Ok ())"

section \<open>Cross-origin policies\<close>

definition origin_shape :: "string \<Rightarrow> field_error" where
  "origin_shape text = \<lparr>fe_field = ''origins'', fe_sentence =
     Msg ''{text} is not an origin. Write scheme://host or scheme://host:port, such as https://app.example.com or https://*.example.com, with no path.'' [Text text]\<rparr>"

definition host_label :: "string \<Rightarrow> bool" where
  "host_label l \<longleftrightarrow> 1 \<le> length l \<and> length l \<le> 63 \<and>
     list_all (\<lambda>b. is_ascii_lowercase b \<or> is_ascii_digit b \<or> b = CHR ''-'') l"

definition port_number :: "string \<Rightarrow> u16 option" where
  "port_number port =
     (if list_all is_ascii_digit port
      then Option.bind (parse_uint port) (\<lambda>n. if 0 < n then Some n else None) else None)"

definition host_port :: "string \<Rightarrow> (string \<times> u16 option) option" where
  "host_port rest =
     (case split_once CHR '':'' rest of
        Some (host, port) \<Rightarrow> map_option (\<lambda>n. (host, Some n)) (port_number port)
      | None \<Rightarrow> Some (rest, None))"

definition port_text :: "string \<Rightarrow> u16 option \<Rightarrow> string" where
  "port_text scheme port =
     (case port of
        None \<Rightarrow> []
      | Some n \<Rightarrow>
          if scheme = ''http'' \<and> n = 80 \<or> scheme = ''https'' \<and> n = 443 then [] else CHR '':'' # show_nat (unat n))"

definition origin :: "string \<Rightarrow> field_error + string" where
  "origin text =
     (let lower = to_ascii_lowercase text in
      if lower = ''*'' then Ok lower
      else if lower = ''null''
      then Err (field_refused ''origins'' ''null is the origin of a sandboxed page or a local file, which any page can claim, so it cannot be allowed.'')
      else case split_once_str ''://'' lower of
             None \<Rightarrow> Err (origin_shape text)
           | Some (scheme, rest) \<Rightarrow>
               if scheme \<noteq> ''http'' \<and> scheme \<noteq> ''https'' then Err (origin_shape text)
               else case host_port rest of
                      None \<Rightarrow> Err (origin_shape text)
                    | Some (host, port) \<Rightarrow>
                        (let (wildcard, name) =
                               (case strip_prefix ''*.'' host of Some name \<Rightarrow> (True, name) | None \<Rightarrow> (False, host)) in
                         if 253 < length name \<or> \<not> list_all host_label (split_on CHR ''.'' name) then Err (origin_shape text)
                         else if wildcard \<and> CHR ''.'' \<notin> set name
                         then Err \<lparr>fe_field = ''origins'', fe_sentence =
                                Msg ''{text} would allow every name under {name}. Put *. before a name with a dot in it, such as https://*.example.com.'' [Text text, Text name]\<rparr>
                         else Ok (scheme @ ''://'' @ host @ port_text scheme port)))"

definition header_name :: "string \<Rightarrow> string \<Rightarrow> field_error + string" where
  "header_name at name =
     (if list_all is_token name \<and> 1 \<le> length name \<and> length name \<le> max_edit_name_chars
      then Ok (to_ascii_lowercase name)
      else Err (field_refused at ''Use header names of 1 to {MAX_NAME_CHARS} letters, digits and !#$%&'*+-.^_`|~.''))"

definition header_names :: "string \<Rightarrow> json \<Rightarrow> field_error + string list" where
  "header_names at v =
     (case texts at v (bracketed [''x-request-id'']) of
        Err e \<Rightarrow> Err e
      | Ok names \<Rightarrow>
          if max_cors_headers < length names then Err (field_refused at ''List at most {MAX_CORS_HEADERS} header names.'')
          else try_all (header_name at) names)"

definition allowed_origins :: "bool \<Rightarrow> json \<Rightarrow> field_error + string list" where
  "allowed_origins credentials v =
     (case texts ''origins'' v (bracketed [''https://app.example.com'']) of
        Err e \<Rightarrow> Err e
      | Ok os \<Rightarrow>
          if os = [] then Err (field_refused ''origins'' ''List at least one origin, such as https://app.example.com.'')
          else if max_origins < length os then Err (field_refused ''origins'' ''List at most {MAX_ORIGINS} origins.'')
          else case try_all origin os of
                 Err e \<Rightarrow> Err e
               | Ok os \<Rightarrow>
                   if ''*'' \<in> set os \<and> credentials
                   then Err (field_refused ''origins'' ''An origin of * cannot be sent with credentials: list the origins instead.'')
                   else if ''*'' \<in> set os \<and> 1 < length os
                   then Err (field_refused ''origins'' ''List * alone: it already allows every origin.'')
                   else Ok os)"

definition cors_method :: "string \<Rightarrow> field_error + string" where
  "cors_method t =
     (if to_ascii_uppercase t \<in> set http_methods then Ok (to_ascii_uppercase t)
      else Err \<lparr>fe_field = ''methods'', fe_sentence = Msg ''Use methods from {}.'' [Text (join '', '' http_methods)]\<rparr>)"

definition allowed_methods :: "json \<Rightarrow> field_error + string list" where
  "allowed_methods v =
     (case texts ''methods'' v (bracketed [''GET'', ''POST'']) of
        Err e \<Rightarrow> Err e
      | Ok ms \<Rightarrow> if ms = [] then Ok cors_methods else try_all cors_method ms)"

definition preflight_age :: "json \<Rightarrow> field_error + u32 option" where
  "preflight_age v =
     (if v = JsonNull then Ok None
      else case Option.bind (as_u64 v) (\<lambda>n. if n \<le> max_age_secs then Some n else None) of
             Some secs \<Rightarrow> Ok (Some (of_nat secs))
           | None \<Rightarrow> Err (field_refused ''max_age'' ''Use a whole number of seconds from 0 to {MAX_AGE_SECS}.''))"

definition cors_fields :: "string list" where
  "cors_fields = [''origins'', ''methods'', ''headers'', ''expose_headers'', ''credentials'', ''max_age'', ''preflight_continue'']"

definition cors :: "json \<Rightarrow> field_error + cors_policy" where
  "cors config =
     (case object_fields ''config'' ''Send origins, and any of methods, headers, expose_headers, credentials, max_age and preflight_continue.''
             cors_fields config of Err e \<Rightarrow> Err e | Ok kvs \<Rightarrow>
      (case flag ''credentials'' (value_field ''credentials'' kvs) of Err e \<Rightarrow> Err e | Ok credentials \<Rightarrow>
       (case allowed_origins credentials (value_field ''origins'' kvs) of Err e \<Rightarrow> Err e | Ok os \<Rightarrow>
        (case allowed_methods (value_field ''methods'' kvs) of Err e \<Rightarrow> Err e | Ok ms \<Rightarrow>
         (case preflight_age (value_field ''max_age'' kvs) of Err e \<Rightarrow> Err e | Ok age \<Rightarrow>
          (case header_names ''headers'' (value_field ''headers'' kvs) of Err e \<Rightarrow> Err e | Ok hs \<Rightarrow>
           (case header_names ''expose_headers'' (value_field ''expose_headers'' kvs) of Err e \<Rightarrow> Err e | Ok es \<Rightarrow>
            (case flag ''preflight_continue'' (value_field ''preflight_continue'' kvs) of Err e \<Rightarrow> Err e | Ok pc \<Rightarrow>
               Ok \<lparr>co_origins = os, co_methods = ms, co_headers = hs, co_expose_headers = es,
                    co_credentials = credentials, co_max_age = age, co_preflight_continue = pc\<rparr>))))))))"

section \<open>A policy of a kind, and what is stored of it\<close>

definition parse_policy :: "string \<Rightarrow> json \<Rightarrow> field_error + plugin" where
  "parse_policy kind config =
     (if kind = ''ip_restriction'' then map_sum id IpRestriction (ip_restriction config)
      else if kind = ''request_size_limit'' then map_sum id RequestSizeLimit (request_size_limit config)
      else if kind = ''request_transformer'' then map_sum id RequestTransformer (request_transformer config)
      else if kind = ''response_transformer'' then map_sum id ResponseTransformer (response_transformer config)
      else if kind = ''cors'' then map_sum id Cors (cors config)
      else if kind = ''auth'' then map_sum id Auth (auth config)
      else if kind = ''acl'' then map_sum id Acl (acl config)
      else Err (field_refused ''kind'' ''There is no such policy kind.''))"

text \<open>The derived writers: a field with a default is left out when it has its default.\<close>

definition list_json :: "string \<Rightarrow> ('a \<Rightarrow> json) \<Rightarrow> 'a list \<Rightarrow> (string \<times> json) list" where
  "list_json k f xs = (if xs = [] then [] else [(k, JsonArray (map f xs))])"

definition option_json :: "string \<Rightarrow> ('a \<Rightarrow> json) \<Rightarrow> 'a option \<Rightarrow> (string \<times> json) list" where
  "option_json k f v = (case v of None \<Rightarrow> [] | Some x \<Rightarrow> [(k, f x)])"

definition flag_json :: "string \<Rightarrow> bool \<Rightarrow> (string \<times> json) list" where
  "flag_json k b = (if b then [(k, JsonBool True)] else [])"

fun pair_json :: "string \<times> string \<Rightarrow> json" where
  "pair_json (a, b) = JsonArray [JsonString a, JsonString b]"

definition edits_json :: "header_edits \<Rightarrow> json" where
  "edits_json e = JsonObject
     (list_json ''remove'' JsonString (he_remove e) @ list_json ''rename'' pair_json (he_rename e) @
      list_json ''replace'' pair_json (he_replace e) @ list_json ''add'' pair_json (he_add e) @
      list_json ''append'' pair_json (he_append e))"

definition section_json :: "(header_edits \<Rightarrow> json) \<Rightarrow> string \<Rightarrow> header_edits \<Rightarrow> (string \<times> json) list" where
  "section_json f k e = (if edits_is_empty e then [] else [(k, f e)])"

definition cors_json :: "cors_policy \<Rightarrow> json" where
  "cors_json p = JsonObject
     ((''origins'', JsonArray (map JsonString (co_origins p))) # list_json ''methods'' JsonString (co_methods p) @
      list_json ''headers'' JsonString (co_headers p) @ list_json ''expose_headers'' JsonString (co_expose_headers p) @
      flag_json ''credentials'' (co_credentials p) @
      option_json ''max_age'' (\<lambda>n. JsonNumber (show_nat (unat n))) (co_max_age p) @
      flag_json ''preflight_continue'' (co_preflight_continue p))"

text \<open>\<open>config\<close>: the serialised policy without its \<open>kind\<close> tag.\<close>

fun policy_config :: "plugin \<Rightarrow> json" where
  "policy_config (IpRestriction p) = JsonObject
     (list_json ''allow'' (\<lambda>c. JsonString (show_cidr c)) (ir_allow p) @ list_json ''deny'' (\<lambda>c. JsonString (show_cidr c)) (ir_deny p))"
| "policy_config (RequestSizeLimit p) = JsonObject [(''max_bytes'', JsonNumber (show_nat (unat (max_bytes p))))]"
| "policy_config (RequestTransformer p) = JsonObject
     (section_json edits_json ''headers'' (rq_headers p) @ section_json edits_json ''query'' (rq_query p))"
| "policy_config (ResponseTransformer p) = JsonObject (section_json edits_json ''headers'' (rs_headers p))"
| "policy_config (Cors p) = cors_json p"
| "policy_config (Auth p) = JsonObject
     (option_json ''anonymous'' JsonString (au_anonymous p) @ option_json ''workspace'' JsonString (au_workspace p))"
| "policy_config (Acl p) = JsonObject
     (list_json ''allow'' JsonString (acl_allow p) @ list_json ''deny'' JsonString (acl_deny p))"
| "policy_config (KeyAuth p) = JsonObject ((''header'', JsonString (ka_header p)) # option_json ''workspace'' JsonString (ka_workspace p))"
| "policy_config (Jwt p) = JsonObject
     (option_json ''issuer'' JsonString (jp_issuer p) @ option_json ''audience'' JsonString (jp_audience p) @
      (''jwks'', JsonString (jp_jwks p)) # option_json ''jwks_uri'' JsonString (jp_jwks_uri p) @
      option_json ''jwks_ca_pem'' JsonString (jp_jwks_ca_pem p) @ option_json ''consumer_claim'' JsonString (jp_consumer_claim p) @
      option_json ''workspace'' JsonString (jp_workspace p))"

text \<open>\<open>audited\<close>: a transformer keeps the names it edits and none of the values it writes.\<close>

definition edits_named :: "header_edits \<Rightarrow> json" where
  "edits_named e = JsonObject
     (list_json ''remove'' JsonString (he_remove e) @ list_json ''rename'' pair_json (he_rename e) @
      list_json ''replace'' JsonString (map fst (he_replace e)) @ list_json ''add'' JsonString (map fst (he_add e)) @
      list_json ''append'' JsonString (map fst (he_append e)))"

definition audited :: "plugin \<Rightarrow> json" where
  "audited p =
     (case p of
        RequestTransformer t \<Rightarrow> JsonObject
          (section_json edits_named ''headers'' (rq_headers t) @ section_json edits_named ''query'' (rq_query t))
      | ResponseTransformer t \<Rightarrow> JsonObject (section_json edits_named ''headers'' (rs_headers t))
      | other \<Rightarrow> policy_config other)"

end
