(* ===== verification/Policy_Store.thy ===== *)
theory Policy_Store
  imports Config_Store Policies
begin

text \<open>
  \<^verbatim>\<open>gapura-control/src/store/policies.rs\<close>, the rows it shares with \<^verbatim>\<open>store/consumers.rs\<close>, the handlers
  of \<^verbatim>\<open>policies_api.rs\<close> and the policies of the snapshot of \<^verbatim>\<open>store/mod.rs\<close>, with the readers of the
  kinds that are kept elsewhere. Each write is one step on the tables.
\<close>

section \<open>Targets\<close>

datatype policy_target = OnWorkspace | OnService string | OnRoute string

definition parse_target :: "string \<Rightarrow> field_error + policy_target" where
  "parse_target text =
     (let bad = Err (field_refused ''target'' ''Name workspace, service:<name> or route:<name>.'') in
      case split_once CHR '':'' text of
        None \<Rightarrow> if text = ''workspace'' then Ok OnWorkspace else bad
      | Some (kind, name) \<Rightarrow>
          if kind = ''service'' then (case config_name name ''target'' of Ok n \<Rightarrow> Ok (OnService n) | Err _ \<Rightarrow> bad)
          else if kind = ''route'' then (case config_name name ''target'' of Ok n \<Rightarrow> Ok (OnRoute n) | Err _ \<Rightarrow> bad)
          else bad)"

fun target_text :: "policy_target \<Rightarrow> string" where
  "target_text OnWorkspace = ''workspace''"
| "target_text (OnService n) = ''service:'' @ n"
| "target_text (OnRoute n) = ''route:'' @ n"

text \<open>The column of the policy table that points at the target, and the id it holds.\<close>

definition target_row :: "cdb \<Rightarrow> uuid \<Rightarrow> policy_target \<Rightarrow> refusal + (string \<times> uuid) option" where
  "target_row s ws t =
     (case t of
        OnWorkspace \<Rightarrow> Ok None
      | OnService name \<Rightarrow>
          (case find_service s ws name of
             None \<Rightarrow> Err (no_service name)
           | Some v \<Rightarrow> Ok (Some (''service_id'', sd_id v)))
      | OnRoute name \<Rightarrow>
          (case find (\<lambda>r. rd_workspace r = ws \<and> rd_name r = name) (cd_routes s) of
             None \<Rightarrow> Err (no_route name)
           | Some r \<Rightarrow> Ok (Some (''route_id'', rd_id r))))"

definition plugin_row ::
  "cdb \<Rightarrow> uuid \<Rightarrow> (string \<times> uuid) option \<Rightarrow> uuid option \<Rightarrow> string \<Rightarrow> policy_record option" where
  "plugin_row s ws resolved consumer name =
     (case resolved of
        None \<Rightarrow> find (\<lambda>p. po_workspace p = ws \<and> po_name p = name \<and> po_service p = None \<and> po_route p = None \<and>
                  po_consumer p = consumer) (cd_policies s)
      | Some (column, i) \<Rightarrow> find (\<lambda>p. (if column = ''service_id'' then po_service p else po_route p) = Some i \<and>
                  po_name p = name \<and> po_consumer p = consumer) (cd_policies s))"

definition fresh :: "string option \<Rightarrow> string option \<Rightarrow> write_error + unit" where
  "fresh shown seen = (if shown = seen then Ok () else Err Stale)"

section \<open>Writes\<close>

definition recorded :: "policy_target \<Rightarrow> plugin \<Rightarrow> json" where
  "recorded target p = JsonObject [(''target'', JsonString (target_text target)), (''kind'', JsonString (plugin_kind p)),
     (''config'', audited p)]"

definition anonymous_known :: "cdb \<Rightarrow> uuid \<Rightarrow> plugin \<Rightarrow> write_error + unit" where
  "anonymous_known s ws p =
     (case p of
        Auth a \<Rightarrow>
          (case au_anonymous a of
             None \<Rightarrow> Ok ()
           | Some name \<Rightarrow>
               if list_ex (\<lambda>c. cr_workspace c = ws \<and> cr_username c = name) (cd_consumers s) then Ok ()
               else Err (FieldRefused \<lparr>fe_field = ''anonymous'', fe_sentence =
                      Msg ''There is no consumer named {name} in this workspace. Create it first, or name another.'' [Text name]\<rparr>))
      | _ \<Rightarrow> Ok ())"

definition ok_of :: "'e + 'a \<Rightarrow> 'a option" where
  "ok_of r = (case r of Ok x \<Rightarrow> Some x | Err _ \<Rightarrow> None)"

text \<open>What a read shows of the row: an enabled one that the kind reads.\<close>

definition current_policy :: "string \<Rightarrow> policy_record option \<Rightarrow> plugin option" where
  "current_policy kind row =
     Option.bind row (\<lambda>p. if po_enabled p then ok_of (parse_policy kind (po_config p)) else None)"

definition shown_stamp :: "(int \<Rightarrow> string) \<Rightarrow> plugin option \<Rightarrow> policy_record option \<Rightarrow> string option" where
  "shown_stamp show_time current row = (if current \<noteq> None then map_option (\<lambda>p. show_time (po_updated p)) row else None)"

definition attached_policy :: "uuid \<Rightarrow> uuid \<Rightarrow> plugin \<Rightarrow> (string \<times> uuid) option \<Rightarrow> int \<Rightarrow> policy_record" where
  "attached_policy i ws p resolved now =
     \<lparr>po_id = i, po_workspace = ws, po_name = plugin_kind p, po_config = policy_config p, po_enabled = True,
      po_route = (case resolved of Some (column, t) \<Rightarrow> if column = ''service_id'' then None else Some t | None \<Rightarrow> None),
      po_service = (case resolved of Some (column, t) \<Rightarrow> if column = ''service_id'' then Some t else None | None \<Rightarrow> None),
      po_consumer = None, po_updated = now\<rparr>"

definition rewritten :: "plugin \<Rightarrow> int \<Rightarrow> policy_record \<Rightarrow> policy_record" where
  "rewritten p now x = x\<lparr>po_config := policy_config p, po_enabled := True, po_updated := now\<rparr>"

definition try_put_policy ::
  "(int \<Rightarrow> string) \<Rightarrow> int \<Rightarrow> uuid \<Rightarrow> uuid \<Rightarrow> policy_target \<Rightarrow> plugin \<Rightarrow> string option \<Rightarrow> uuid \<Rightarrow> cdb \<Rightarrow>
   (write_error + unit) \<times> cdb" where
  "try_put_policy show_time now caller ws target p seen new_id s =
     (case decide_config s caller ws WriteAction of Err r \<Rightarrow> (Err (Refused r), s) | Ok actor \<Rightarrow>
      (case target_row s ws target of Err r \<Rightarrow> (Err (Refused r), s) | Ok resolved \<Rightarrow>
       (case anonymous_known s ws p of Err e \<Rightarrow> (Err e, s) | Ok _ \<Rightarrow>
        (let row = plugin_row s ws resolved None (plugin_kind p); current = current_policy (plugin_kind p) row in
         case fresh (shown_stamp show_time current row) seen of Err e \<Rightarrow> (Err e, s) | Ok _ \<Rightarrow>
          (case row of
             Some old \<Rightarrow>
               if current = Some p then (Ok (), s)
               else (Ok (), config_audit actor (if po_enabled old then ''update'' else ''create'') ''policy'' (po_id old) ws
                      (map_option (recorded target) current) (Some (recorded target p))
                      (bumped (s\<lparr>cd_policies := map (\<lambda>x. if po_id x = po_id old then rewritten p now x else x) (cd_policies s)\<rparr>)))
           | None \<Rightarrow>
               if new_id \<in> po_id ` set (cd_policies s) then (Err (StoreFailed (Some ''23505'')), s)
               else (Ok (), config_audit actor ''create'' ''policy'' new_id ws None (Some (recorded target p))
                      (bumped (s\<lparr>cd_policies := cd_policies s @ [attached_policy new_id ws p resolved now]\<rparr>))))))))"

definition try_delete_policy :: "uuid \<Rightarrow> uuid \<Rightarrow> policy_target \<Rightarrow> string \<Rightarrow> cdb \<Rightarrow> (write_error + unit) \<times> cdb" where
  "try_delete_policy caller ws target kind s =
     (case decide_config s caller ws WriteAction of Err r \<Rightarrow> (Err (Refused r), s) | Ok actor \<Rightarrow>
      (case target_row s ws target of Err r \<Rightarrow> (Err (Refused r), s) | Ok resolved \<Rightarrow>
       (let none = (Err (Refused (RNotFound (Msg ''{} has no {kind} policy.'' [Text (target_text target), Text kind]))), s) in
        case plugin_row s ws resolved None kind of
          None \<Rightarrow> none
        | Some p \<Rightarrow>
            if \<not> po_enabled p then none
            else (let before = (case parse_policy kind (po_config p) of
                        Ok q \<Rightarrow> recorded target q
                      | Err _ \<Rightarrow> JsonObject [(''target'', JsonString (target_text target)), (''kind'', JsonString kind)])
                  in (Ok (), config_audit actor ''delete'' ''policy'' (po_id p) ws (Some before) None
                        (bumped (s\<lparr>cd_policies := filter (\<lambda>x. po_id x \<noteq> po_id p) (cd_policies s)\<rparr>)))))))"

section \<open>Requests\<close>

text \<open>
  A request as the handlers of \<^verbatim>\<open>policies_api.rs\<close> have it once the caller and the workspace are known
  (\<^verbatim>\<open>workspace_in\<close>, whose decision the transaction makes again); the last id of a write is the one a
  new row gets.
\<close>

record policy_input =
  pi_target :: string
  pi_config :: json
  pi_seen :: "string option"

datatype policy_operation =
    PutPolicy uuid uuid string policy_input uuid
  | DeletePolicy uuid uuid string string

definition kind_in :: "string \<Rightarrow> refusal + string" where
  "kind_in kind = (if kind \<in> set policy_kinds then Ok kind else Err (RNotFound (Msg ''There is no such policy kind.'' [])))"

fun police :: "(int \<Rightarrow> string) \<Rightarrow> int \<Rightarrow> policy_operation \<Rightarrow> cdb \<Rightarrow> (write_error option \<times> cdb) run" where
  "police show_time now (PutPolicy c ws kind input i) s =
     (case kind_in kind of Err r \<Rightarrow> Returns (Some (Refused r), s) | Ok kind \<Rightarrow>
      (case parse_target (pi_target input) of Err e \<Rightarrow> Returns (Some (FieldRefused e), s) | Ok target \<Rightarrow>
       (case parse_policy kind (pi_config input) of Err e \<Rightarrow> Returns (Some (FieldRefused e), s) | Ok p \<Rightarrow>
        (case newly_reserved p of Err e \<Rightarrow> Returns (Some (FieldRefused e), s) | Ok _ \<Rightarrow>
           written (try_put_policy show_time now c ws target p (pi_seen input) i s)))))"
| "police show_time now (DeletePolicy c ws kind text) s =
     (case kind_in kind of Err r \<Rightarrow> Returns (Some (Refused r), s) | Ok kind \<Rightarrow>
      (case parse_target text of Err e \<Rightarrow> Returns (Some (FieldRefused e), s) | Ok target \<Rightarrow>
         written (try_delete_policy c ws target kind s)))"

section \<open>Policies kept elsewhere\<close>

text \<open>A struct that ignores unknown fields.\<close>

fun open_fields :: "string list \<Rightarrow> json \<Rightarrow> (string \<times> json) list option" where
  "open_fields names (JsonObject kvs) = Some kvs"
| "open_fields names (JsonArray es) = (if length es \<le> length names then Some (zip names es) else None)"
| "open_fields names _ = None"

definition plain_text :: "string \<Rightarrow> (string \<times> json) list \<Rightarrow> string option" where
  "plain_text k kvs = (case map_of kvs k of None \<Rightarrow> Some [] | Some v \<Rightarrow> json_text v)"

definition jwt_names :: "string list" where
  "jwt_names = [''issuer'', ''audience'', ''jwks'', ''jwks_uri'', ''jwks_ca_pem'', ''consumer_claim'', ''workspace'']"

definition read_jwt :: "json \<Rightarrow> jwt_policy option" where
  "read_jwt v =
     Option.bind (open_fields jwt_names v) (\<lambda>kvs.
     Option.bind (optional_text ''issuer'' kvs) (\<lambda>iss.
     Option.bind (optional_text ''audience'' kvs) (\<lambda>aud.
     Option.bind (plain_text ''jwks'' kvs) (\<lambda>jwks.
     Option.bind (optional_text ''jwks_uri'' kvs) (\<lambda>uri.
     Option.bind (optional_text ''jwks_ca_pem'' kvs) (\<lambda>pem.
     Option.bind (optional_text ''consumer_claim'' kvs) (\<lambda>claim.
     Option.bind (optional_text ''workspace'' kvs) (\<lambda>w.
       Some \<lparr>jp_issuer = iss, jp_audience = aud, jp_jwks = jwks, jp_jwks_uri = uri, jp_jwks_ca_pem = pem,
             jp_consumer_claim = claim, jp_workspace = w\<rparr>))))))))"

definition read_key_auth :: "json \<Rightarrow> key_auth_policy option" where
  "read_key_auth v =
     Option.bind (open_fields [''header'', ''workspace''] v) (\<lambda>kvs.
     Option.bind (Option.bind (map_of kvs ''header'') json_text) (\<lambda>h.
     Option.bind (optional_text ''workspace'' kvs) (\<lambda>w. Some \<lparr>ka_header = h, ka_workspace = w\<rparr>)))"

text \<open>Request limits: \<open>Limit::from_config\<close> and \<open>rate_limit\<close>.\<close>

definition max_rate_limit :: nat where "max_rate_limit = 1000000"
definition max_key_header_chars :: nat where "max_key_header_chars = 64"
definition default_key_header :: string where "default_key_header = ''x-api-key''"

definition key_reserved_headers :: "string list" where
  "key_reserved_headers = [consumer_header, ''host'', ''content-length'', ''transfer-encoding'', ''connection'', ''te'', ''upgrade'']"

definition key_header :: "string option \<Rightarrow> field_error + string" where
  "key_header value =
     (let v = (case value of Some t \<Rightarrow> if trim t \<noteq> [] then trim t else default_key_header | None \<Rightarrow> default_key_header) in
      if max_key_header_chars < length v \<or> \<not> header_token v
      then Err (field_refused ''header'' ''Use a header name of 1 to {MAX_HEADER_CHARS} letters, digits and - _ . ! # $ % & ' * + ^ ` | ~, with no spaces or colons.'')
      else let low = to_ascii_lowercase v in
        if low \<in> set key_reserved_headers
        then Err \<lparr>fe_field = ''header'', fe_sentence = Msg ''The {value} header is set by the connection or the gateway. Pick another name.'' [Text low]\<rparr>
        else Ok low)"

fun read_limit_by :: "json \<Rightarrow> limit_by option" where
  "read_limit_by (JsonString t) = (if t = ''ip'' then Some ByIp else if t = ''consumer'' then Some ByConsumer else None)"
| "read_limit_by (JsonObject [(k, v)]) =
     (if k = ''ip'' \<and> v = JsonNull then Some ByIp
      else if k = ''consumer'' \<and> v = JsonNull then Some ByConsumer
      else if k = ''header'' then map_option ByHeader (json_text v)
      else None)"
| "read_limit_by _ = None"

definition limit_windows :: "nat list" where
  "limit_windows = [1000, 60000, 3600000]"

definition stored_rate_limit :: "json \<Rightarrow> rate_limit option" where
  "stored_rate_limit v =
     Option.bind (struct_fields [''limit'', ''window_ms'', ''by''] v) (\<lambda>kvs.
     Option.bind (Option.bind (map_of kvs ''limit'') as_u64) (\<lambda>n.
     Option.bind (Option.bind (map_of kvs ''window_ms'') as_u64) (\<lambda>ms.
     Option.bind (case map_of kvs ''by'' of None \<Rightarrow> Some ByIp | Some b \<Rightarrow> read_limit_by b) (\<lambda>by_what.
       if 1 \<le> n \<and> n \<le> max_rate_limit \<and>
          (case by_what of ByHeader h \<Rightarrow> ok_of (key_header (Some h)) = Some h | _ \<Rightarrow> True) \<and> ms \<in> set limit_windows
       then Some \<lparr>rl_limit = of_nat n, rl_window_ms = of_nat ms, rl_by = by_what\<rparr> else None))))"

section \<open>The policies of the snapshot\<close>

datatype policy_row_error =
    ForeignTarget string string | NotALimit string | NotAJwt | JwtKeys | NotAKeyAuth
  | NotOfKind string field_error | UnknownPolicy string

definition parse_plugin :: "string \<Rightarrow> json \<Rightarrow> policy_row_error + plugin" where
  "parse_plugin name config =
     (if name = ''jwt'' then
        (case read_jwt config of
           None \<Rightarrow> Err NotAJwt
         | Some p \<Rightarrow> if (jp_jwks p = []) \<noteq> (jp_jwks_uri p = None) then Ok (Jwt p) else Err JwtKeys)
      else if name = ''key_auth'' then (case read_key_auth config of Some p \<Rightarrow> Ok (KeyAuth p) | None \<Rightarrow> Err NotAKeyAuth)
      else if name \<in> set policy_kinds then map_sum (NotOfKind name) id (parse_policy name config)
      else Err (UnknownPolicy name))"

definition rate_limit_name :: string where "rate_limit_name = ''rate_limit''"

text \<open>A policy with its workspace's name and the route, the service and the consumer it points at.\<close>

record joined_policy =
  jo_workspace :: string
  jo_policy :: policy_record
  jo_route :: "route_record option"
  jo_service :: "service_record option"
  jo_consumer :: "consumer_record option"

definition join_policy :: "cdb \<Rightarrow> policy_record \<Rightarrow> joined_policy option" where
  "join_policy s p =
     map_option (\<lambda>w. \<lparr>jo_workspace = w, jo_policy = p,
        jo_route = Option.bind (po_route p) (\<lambda>i. find (\<lambda>r. rd_id r = i) (cd_routes s)),
        jo_service = Option.bind (po_service p) (\<lambda>i. find (\<lambda>v. sd_id v = i) (cd_services s)),
        jo_consumer = Option.bind (po_consumer p) (\<lambda>i. find (\<lambda>c. cr_id c = i) (cd_consumers s))\<rparr>)
       (workspace_named s (po_workspace p))"

definition selected_policy :: "policy_record \<Rightarrow> bool" where
  "selected_policy p \<longleftrightarrow> po_enabled p \<and> (po_consumer p = None \<or> po_name p = rate_limit_name)"

definition joined_policies :: "cdb \<Rightarrow> joined_policy list" where
  "joined_policies s =
     sort_key (\<lambda>j. (jo_workspace j, po_name (jo_policy j), po_id (jo_policy j)))
       (List.map_filter (join_policy s) (filter selected_policy (cd_policies s)))"

definition foreign_target :: "joined_policy \<Rightarrow> bool" where
  "foreign_target j \<longleftrightarrow>
     (case jo_route j of Some r \<Rightarrow> rd_workspace r \<noteq> po_workspace (jo_policy j) | None \<Rightarrow> False) \<or>
     (case jo_service j of Some v \<Rightarrow> sd_workspace v \<noteq> po_workspace (jo_policy j) | None \<Rightarrow> False) \<or>
     (case jo_consumer j of Some c \<Rightarrow> cr_workspace c \<noteq> po_workspace (jo_policy j) | None \<Rightarrow> False)"

definition snapshot_policy :: "joined_policy \<Rightarrow> policy_row_error + (store_plugin list \<times> store_rate_limit list)" where
  "snapshot_policy j =
     (let p = jo_policy j; route = map_option rd_name (jo_route j); service = map_option (\<lambda>v. sv_name (sd_row v)) (jo_service j) in
      if foreign_target j then Err (ForeignTarget (po_name p) (jo_workspace j))
      else if po_name p = rate_limit_name
      then (case stored_rate_limit (po_config p) of
              None \<Rightarrow> Err (NotALimit (po_name p))
            | Some l \<Rightarrow> Ok ([], [\<lparr>sl_workspace = jo_workspace j, sl_route = route, sl_service = service,
                 sl_consumer = map_option cr_username (jo_consumer j), sl_limit = l\<rparr>]))
      else (case parse_plugin (po_name p) (po_config p) of
              Err e \<Rightarrow> Err e
            | Ok q \<Rightarrow> Ok ([\<lparr>sp_workspace = jo_workspace j, sp_route = route, sp_service = service, sp_plugin = q\<rparr>], [])))"

fun snapshot_policy_list :: "joined_policy list \<Rightarrow> policy_row_error + (store_plugin list \<times> store_rate_limit list)" where
  "snapshot_policy_list [] = Ok ([], [])"
| "snapshot_policy_list (j # js) =
     (case snapshot_policy j of Err e \<Rightarrow> Err e | Ok (ps, ls) \<Rightarrow>
      (case snapshot_policy_list js of Err e \<Rightarrow> Err e | Ok (ps', ls') \<Rightarrow> Ok (ps @ ps', ls @ ls')))"

definition snapshot_policies :: "cdb \<Rightarrow> policy_row_error + (store_plugin list \<times> store_rate_limit list)" where
  "snapshot_policies s = snapshot_policy_list (joined_policies s)"

end
