(* ===== verification/Policy_Forms.thy ===== *)
theory Policy_Forms
  imports Policies
begin

text \<open>
  The stored form of a policy: each reader of \<open>Policies\<close> gives back what it accepted when it reads
  what is written of it. One lemma per list and per kind.
\<close>

section \<open>Lists\<close>

text \<open>The \<open>?\<close> operator: the result is \<open>Ok\<close> exactly when both steps are.\<close>

lemma question_mark [simp]: "(case r of Err e \<Rightarrow> Err e | Ok x \<Rightarrow> f x) = Ok y \<longleftrightarrow> (\<exists>x. r = Ok x \<and> f x = Ok y)"
  by (cases r) auto

lemma chars_of_ascii: "\<forall>c \<in> set s. byte c < 128 \<Longrightarrow> chars s = map byte s"
  by (induction s) auto

lemma try_all_back:
  assumes "try_all f xs = Ok ys" and "\<And>x y. f x = Ok y \<Longrightarrow> f (g y) = Ok y"
  shows "try_all f (map g ys) = Ok ys" and "length ys = length xs"
proof -
  have "try_all f (map g ys) = Ok ys \<and> length ys = length xs" using assms(1)
    by (induction xs arbitrary: ys) (auto simp: assms(2) split: sum.splits)
  then show "try_all f (map g ys) = Ok ys" and "length ys = length xs" by auto
qed

lemma try_all_stable:
  assumes "try_all f xs = Ok ys" and "\<And>x y. f x = Ok y \<Longrightarrow> f y = Ok y"
  shows "try_all f ys = Ok ys" and "length ys = length xs"
  using try_all_back [OF assms(1), of "\<lambda>y. y"] assms(2) by auto

lemma try_all_each: "try_all f xs = Ok ys \<Longrightarrow> y \<in> set ys \<Longrightarrow> \<exists>x \<in> set xs. f x = Ok y"
  by (induction xs arbitrary: ys) (auto split: sum.splits)

lemma read_texts [simp]: "read_options json_text (map (\<lambda>x. JsonString (g x)) xs) = Some (map g xs)"
  by (induction xs) auto

lemma read_strings [simp]: "read_options json_text (map JsonString xs) = Some xs"
  by (induction xs) auto

lemma read_pairs [simp]: "read_options json_pair (map pair_json xs) = Some xs"
  by (induction xs) auto

section \<open>Fields\<close>

lemma written_fields [simp]:
  "map_of (list_json k f xs) k' = (if k' = k \<and> xs \<noteq> [] then Some (JsonArray (map f xs)) else None)"
  "map_of (option_json k g v) k' = (if k' = k then map_option g v else None)"
  "map_of (flag_json k b) k' = (if k' = k \<and> b then Some (JsonBool True) else None)"
  "map_of (section_json h k e) k' = (if k' = k \<and> \<not> edits_is_empty e then Some (h e) else None)"
  by (auto simp: list_json_def option_json_def flag_json_def section_json_def split: option.splits)

lemma written_keys:
  "fst ` set (list_json k f xs) \<subseteq> {k}" "fst ` set (option_json k g v) \<subseteq> {k}"
  "fst ` set (flag_json k b) \<subseteq> {k}" "fst ` set (section_json h k e) \<subseteq> {k}"
  by (auto simp: list_json_def option_json_def flag_json_def section_json_def split: option.splits)

lemma as_u64_shown [simp]: "as_u64 (JsonNumber (show_nat n)) = (if n < 2 ^ 64 then Some n else None)"
  using show_nat_digits by (auto simp: as_u64_def list_all_iff)

section \<open>Addresses, groups, callers and sizes\<close>

lemma network_back: "network at t = Ok c \<Longrightarrow> network at (show_cidr c) = Ok c"
  by (auto simp: network_def cidr_reads_back dest: cidr_from_str_wf split: sum.splits)

lemma networks_back:
  "try_all (network at) ts = Ok cs \<Longrightarrow> try_all (network at) (map show_cidr cs) = Ok cs \<and> length cs = length ts"
  using try_all_back [of "network at" ts cs show_cidr] network_back by blast

lemma lists_written:
  fixes a :: "'a list" and d :: "'a list" and g :: "'a \<Rightarrow> string"
  defines "kvs \<equiv> list_json ''allow'' (\<lambda>x. JsonString (g x)) a @ list_json ''deny'' (\<lambda>x. JsonString (g x)) d"
  shows "Option.bind (struct_fields [''allow'', ''deny''] (JsonObject kvs)) (\<lambda>kvs.
    Option.bind (texts_field ''allow'' kvs) (\<lambda>a. map_option (Pair a) (texts_field ''deny'' kvs))) = Some (map g a, map g d)"
proof -
  have "struct_fields [''allow'', ''deny''] (JsonObject kvs) = Some kvs" by (auto simp: kvs_def list_json_def)
  moreover have "texts_field ''allow'' kvs = Some (map g a)" by (simp add: texts_field_def kvs_def map_add_def)
  moreover have "texts_field ''deny'' kvs = Some (map g d)" by (simp add: texts_field_def kvs_def map_add_def)
  ultimately show ?thesis by simp
qed

lemma ip_restriction_Ok:
  assumes "ip_restriction config = Ok p"
  obtains allow deny where "try_all (network ''allow'') allow = Ok (ir_allow p)"
    "try_all (network ''deny'') deny = Ok (ir_deny p)" "allow \<noteq> [] \<or> deny \<noteq> []" "length allow + length deny \<le> max_networks"
  using assms by (auto simp: ip_restriction_def Let_def split: option.splits if_splits sum.splits)

lemma ip_restriction_back:
  assumes "ip_restriction config = Ok p"
  shows "ip_restriction (policy_config (IpRestriction p)) = Ok p"
proof (rule ip_restriction_Ok [OF assms])
  fix allow deny
  assume a: "try_all (network ''allow'') allow = Ok (ir_allow p)" and d: "try_all (network ''deny'') deny = Ok (ir_deny p)"
    and some: "allow \<noteq> [] \<or> deny \<noteq> []" and few: "length allow + length deny \<le> max_networks"
  note ab = networks_back [OF a] and db = networks_back [OF d]
  then have "ir_allow p \<noteq> [] \<or> ir_deny p \<noteq> []" using some by auto
  then show ?thesis using ab db few
    unfolding ip_restriction_def Let_def policy_config.simps lists_written by simp
qed

lemma consumer_group_stable: "consumer_group at g = Ok h \<Longrightarrow> consumer_group at h = Ok h"
  by (auto simp: consumer_group_def split: if_splits)

lemma acl_groups_back: "acl_groups at gs = Ok hs \<Longrightarrow> acl_groups at hs = Ok hs \<and> length hs = length gs"
  using try_all_stable [of "consumer_group at" gs hs, OF _ consumer_group_stable]
  by (auto simp: acl_groups_def split: if_splits)

lemma acl_Ok:
  assumes "acl config = Ok p"
  obtains allow deny where "acl_groups ''allow'' allow = Ok (acl_allow p)" "acl_groups ''deny'' deny = Ok (acl_deny p)"
    "allow \<noteq> [] \<or> deny \<noteq> []"
  using assms by (auto simp: acl_def split: option.splits if_splits sum.splits)

lemma acl_back:
  assumes "acl config = Ok p"
  shows "acl (policy_config (Acl p)) = Ok p"
proof (rule acl_Ok [OF assms])
  fix allow deny
  assume a: "acl_groups ''allow'' allow = Ok (acl_allow p)" and d: "acl_groups ''deny'' deny = Ok (acl_deny p)"
    and "allow \<noteq> [] \<or> deny \<noteq> []"
  with acl_groups_back [OF a] acl_groups_back [OF d] show ?thesis
    using lists_written [of "\<lambda>x. x" "acl_allow p" "acl_deny p"] by (auto simp: acl_def)
qed

lemma config_name_kept: "config_name n at = Ok n' \<Longrightarrow> n' = n"
  by (auto simp: config_name_def split: if_splits)

lemma auth_Ok:
  assumes "auth config = Ok p"
  shows "au_workspace p = None \<and> (case au_anonymous p of None \<Rightarrow> True | Some n \<Rightarrow> trim n \<noteq> [] \<and> config_name n ''anonymous'' = Ok n)"
proof -
  obtain name where "Option.bind (struct_fields [''anonymous''] config) (optional_text ''anonymous'') = Some name"
    using assms unfolding auth_def by (auto split: option.splits)
  then show ?thesis using assms config_name_kept [of "the name" "''anonymous''"] unfolding auth_def
    by (cases name) (auto split: sum.splits if_splits)
qed

lemma auth_back:
  assumes "auth config = Ok p"
  shows "auth (policy_config (Auth p)) = Ok p"
  using auth_Ok [OF assms] by (cases "au_anonymous p") (simp_all add: auth_def optional_text_def option_json_def)

lemma request_size_limit_Ok:
  assumes "request_size_limit config = Ok p"
  obtains n where "p = \<lparr>max_bytes = of_nat n\<rparr>" "1 \<le> n" "n \<le> max_body_bytes"
proof -
  let ?fits = "\<lambda>n. if 1 \<le> n \<and> n \<le> max_body_bytes then Some n else None"
  obtain v where v: "Option.bind (struct_fields [''max_bytes''] config) (\<lambda>kvs. map_of kvs ''max_bytes'') = Some v"
    using assms unfolding request_size_limit_def by (cases "Option.bind (struct_fields [''max_bytes''] config) (\<lambda>kvs. map_of kvs ''max_bytes'')") simp_all
  then obtain n where n: "Option.bind (as_u64 v) ?fits = Some n"
    using assms unfolding request_size_limit_def v by (cases "Option.bind (as_u64 v) ?fits") simp_all
  then have "p = \<lparr>max_bytes = of_nat n\<rparr>" using assms unfolding request_size_limit_def v by simp
  with n show thesis using that [of n] by (cases "as_u64 v") (simp_all split: if_split_asm)
qed

lemma request_size_limit_back:
  assumes "request_size_limit config = Ok p"
  shows "request_size_limit (policy_config (RequestSizeLimit p)) = Ok p"
proof (rule request_size_limit_Ok [OF assms])
  fix n assume p: "p = \<lparr>max_bytes = of_nat n\<rparr>" and n: "1 \<le> n" "n \<le> max_body_bytes"
  then have "n < 2 ^ 64" by (simp add: max_body_bytes_def)
  then have "unat (of_nat n :: u64) = n" by (simp add: unat_of_nat take_bit_nat_eq_self_iff)
  then show ?thesis using p n \<open>n < 2 ^ 64\<close> by (simp add: request_size_limit_def)
qed

section \<open>Transformers\<close>

lemma token_ascii: "is_token c \<Longrightarrow> byte c < 128"
  by (auto simp: is_token_def ascii_class_defs byte_def)

lemma token_lower: "is_token c \<Longrightarrow> is_token (ascii_lower c)"
  by (auto simp: is_token_def ascii_lower_def ascii_class_defs)

lemma edit_name_stable:
  assumes "edit_name section header refused op n = Ok n'"
  shows "edit_name section header refused op n' = Ok n'"
proof (cases header)
  case True
  with assms have n: "list_all is_token n" "1 \<le> length (chars n)" "length (chars n) \<le> max_edit_name_chars"
    "n' = to_ascii_lowercase n" "n' \<notin> set refused"
    by (auto simp: edit_name_def Let_def split: if_splits)
  then have "list_all is_token n'" by (auto simp: list_all_iff token_lower)
  moreover have "length (chars n') = length (chars n)"
    using n(1) \<open>list_all is_token n'\<close> n(4) by (simp add: chars_of_ascii list_all_iff token_ascii)
  ultimately show ?thesis using n True unfolding edit_name_def Let_def by (simp add: comp_def)
next
  case False
  then show ?thesis using assms by (auto simp: edit_name_def Let_def split: if_splits)
qed

lemma edit_value_kept: "edit_value section header op v = Ok v' \<Longrightarrow> v' = v \<and> edit_value section header op v' = Ok v'"
  by (auto simp: edit_value_def split: if_splits)

lemma edit_list_written [simp]:
  "edit_list json_text shape ex at (JsonArray (map JsonString xs)) = Ok xs"
  "edit_list json_pair shape ex at (JsonArray (map pair_json ps)) = Ok ps"
  "edit_list one shape ex at JsonNull = Ok []"
  by (simp_all add: edit_list_def)

definition stored_list :: "('a \<Rightarrow> json) \<Rightarrow> 'a list \<Rightarrow> json" where
  "stored_list f xs = (if xs = [] then JsonNull else JsonArray (map f xs))"

lemma removed_list_back:
  assumes "removed_list section header refused v = Ok ns"
  shows "removed_list section header refused (stored_list JsonString ns) = Ok ns"
proof -
  obtain os where "try_all (edit_name section header refused ''remove'') os = Ok ns"
    using assms by (auto simp: removed_list_def split: sum.splits)
  from try_all_stable(1) [OF this edit_name_stable] show ?thesis by (auto simp: removed_list_def stored_list_def)
qed

lemma renamed_list_back:
  assumes "renamed_list section header refused v = Ok ps"
  shows "renamed_list section header refused (stored_list pair_json ps) = Ok ps"
proof -
  obtain os where "try_all (renamed_pair section header refused) os = Ok ps" using assms by (auto simp: renamed_list_def)
  moreover have "renamed_pair section header refused y = Ok y" if "renamed_pair section header refused x = Ok y" for x y
    using that by (cases x) (auto dest: edit_name_stable)
  ultimately have "try_all (renamed_pair section header refused) ps = Ok ps" by (rule try_all_stable(1))
  then show ?thesis by (auto simp: renamed_list_def stored_list_def)
qed

lemma written_list_back:
  assumes "written_list section header refused op v = Ok ps"
  shows "written_list section header refused op (stored_list pair_json ps) = Ok ps"
proof -
  obtain os where "try_all (written_pair section header refused op) os = Ok ps" using assms by (auto simp: written_list_def)
  moreover have "written_pair section header refused op y = Ok y" if "written_pair section header refused op x = Ok y" for x y
    using that edit_name_stable edit_value_kept by (cases x) fastforce
  ultimately have "try_all (written_pair section header refused op) ps = Ok ps" by (rule try_all_stable(1))
  then show ?thesis by (auto simp: written_list_def stored_list_def)
qed

lemma lists_absent [simp]:
  "removed_list section header refused JsonNull = Ok []" "renamed_list section header refused JsonNull = Ok []"
  "written_list section header refused op JsonNull = Ok []"
  by (simp_all add: removed_list_def renamed_list_def written_list_def)

lemma edits_Ok:
  assumes "edits section config header refused = Ok e"
  shows "\<exists>v. removed_list section header refused v = Ok (he_remove e)" "\<exists>v. renamed_list section header refused v = Ok (he_rename e)"
    "\<exists>v. written_list section header refused ''replace'' v = Ok (he_replace e)"
    "\<exists>v. written_list section header refused ''add'' v = Ok (he_add e)"
    "\<exists>v. written_list section header refused ''append'' v = Ok (he_append e)"
proof -
  consider "e = no_edits" | kvs where "removed_list section header refused (value_field ''remove'' kvs) = Ok (he_remove e)"
      "renamed_list section header refused (value_field ''rename'' kvs) = Ok (he_rename e)"
      "written_list section header refused ''replace'' (value_field ''replace'' kvs) = Ok (he_replace e)"
      "written_list section header refused ''add'' (value_field ''add'' kvs) = Ok (he_add e)"
      "written_list section header refused ''append'' (value_field ''append'' kvs) = Ok (he_append e)"
    using assms by (cases "config = JsonNull") (auto simp: edits_def)
  then show "\<exists>v. removed_list section header refused v = Ok (he_remove e)" "\<exists>v. renamed_list section header refused v = Ok (he_rename e)"
    "\<exists>v. written_list section header refused ''replace'' v = Ok (he_replace e)"
    "\<exists>v. written_list section header refused ''add'' v = Ok (he_add e)"
    "\<exists>v. written_list section header refused ''append'' v = Ok (he_append e)"
    by (cases; auto simp: no_edits_def intro: exI [of _ JsonNull])+
qed

lemma edits_written:
  fixes e :: header_edits
  defines "kvs \<equiv> list_json ''remove'' JsonString (he_remove e) @ list_json ''rename'' pair_json (he_rename e) @
      list_json ''replace'' pair_json (he_replace e) @ list_json ''add'' pair_json (he_add e) @
      list_json ''append'' pair_json (he_append e)"
  shows "object_fields section sentence edit_ops (edits_json e) = Ok kvs"
    "value_field ''remove'' kvs = stored_list JsonString (he_remove e)" "value_field ''rename'' kvs = stored_list pair_json (he_rename e)"
    "value_field ''replace'' kvs = stored_list pair_json (he_replace e)" "value_field ''add'' kvs = stored_list pair_json (he_add e)"
    "value_field ''append'' kvs = stored_list pair_json (he_append e)"
  by (auto simp: object_fields_def edits_json_def edit_ops_def list_json_def kvs_def)
     (simp_all add: value_field_def kvs_def map_add_def stored_list_def)

lemma edits_back:
  assumes "edits section config header refused = Ok e"
  shows "edits section (edits_json e) header refused = Ok e"
proof -
  have "edits_json e \<noteq> JsonNull" by (simp add: edits_json_def)
  moreover have "removed_list section header refused (stored_list JsonString (he_remove e)) = Ok (he_remove e)"
    "renamed_list section header refused (stored_list pair_json (he_rename e)) = Ok (he_rename e)"
    "written_list section header refused ''replace'' (stored_list pair_json (he_replace e)) = Ok (he_replace e)"
    "written_list section header refused ''add'' (stored_list pair_json (he_add e)) = Ok (he_add e)"
    "written_list section header refused ''append'' (stored_list pair_json (he_append e)) = Ok (he_append e)"
    using edits_Ok [OF assms] removed_list_back renamed_list_back written_list_back by blast+
  ultimately show ?thesis unfolding edits_def by (simp add: edits_written)
qed

lemma empty_edits: "edits_is_empty e \<Longrightarrow> e = no_edits"
  by (cases e) (simp add: edits_is_empty_def edits_len_def no_edits_def)

lemma section_back:
  assumes "edits section config header refused = Ok e"
  shows "edits section (if edits_is_empty e then JsonNull else edits_json e) header refused = Ok e"
proof (cases "edits_is_empty e")
  case True
  then show ?thesis using empty_edits [OF True] by (simp add: edits_def)
next
  case False
  then show ?thesis using edits_back [OF assms] by simp
qed

lemma request_transformer_back:
  assumes "request_transformer config = Ok p"
  shows "request_transformer (policy_config (RequestTransformer p)) = Ok p"
proof -
  let ?kvs = "section_json edits_json ''headers'' (rq_headers p) @ section_json edits_json ''query'' (rq_query p)"
  obtain c d where h: "edits ''headers'' c True (framing @ [consumer_header]) = Ok (rq_headers p)"
    and q: "edits ''query'' d False [] = Ok (rq_query p)"
    and n: "counted_edits [(''headers'', rq_headers p), (''query'', rq_query p)] = Ok ()"
    using assms by (auto simp: request_transformer_def)
  have "object_fields ''config'' sentence [''headers'', ''query''] (JsonObject ?kvs) = Ok ?kvs" for sentence
    using written_keys(4) by (auto simp: object_fields_def section_json_def)
  moreover have "value_field ''headers'' ?kvs = (if edits_is_empty (rq_headers p) then JsonNull else edits_json (rq_headers p))"
    "value_field ''query'' ?kvs = (if edits_is_empty (rq_query p) then JsonNull else edits_json (rq_query p))"
    by (simp_all add: value_field_def map_add_def)
  ultimately show ?thesis using section_back [OF h] section_back [OF q] n
    by (simp add: request_transformer_def del: if_split)
qed

lemma response_transformer_back:
  assumes "response_transformer config = Ok p"
  shows "response_transformer (policy_config (ResponseTransformer p)) = Ok p"
proof -
  let ?kvs = "section_json edits_json ''headers'' (rs_headers p)"
  obtain c where h: "edits ''headers'' c True framing = Ok (rs_headers p)" and n: "counted_edits [(''headers'', rs_headers p)] = Ok ()"
    using assms by (auto simp: response_transformer_def)
  have "object_fields ''config'' sentence [''headers''] (JsonObject ?kvs) = Ok ?kvs" for sentence
    by (auto simp: object_fields_def section_json_def)
  moreover have "value_field ''headers'' ?kvs = (if edits_is_empty (rs_headers p) then JsonNull else edits_json (rs_headers p))"
    by (simp add: value_field_def)
  ultimately show ?thesis using section_back [OF h] n by (simp add: response_transformer_def del: if_split)
qed

section \<open>Cross-origin policies\<close>

lemma lower_literal: "ascii_lower CHR ''h'' = CHR ''h''" "ascii_lower CHR ''t'' = CHR ''t''" "ascii_lower CHR ''p'' = CHR ''p''"
  "ascii_lower CHR ''s'' = CHR ''s''" "ascii_lower CHR '':'' = CHR '':''" "ascii_lower CHR ''/'' = CHR ''/''"
  by (simp_all add: ascii_lower_def ascii_class_defs byte_def)

lemma lower_digits: "\<forall>c \<in> set s. is_ascii_digit c \<Longrightarrow> to_ascii_lowercase s = s"
  by (rule map_idI) (auto simp: ascii_lower_def ascii_class_defs)

lemma port_number_shown: "0 < n \<Longrightarrow> port_number (show_nat (unat n)) = Some n"
  using show_nat_digits [of _ "unat n"] by (simp add: port_number_def list_all_iff)

lemma port_number_positive: "port_number t = Some n \<Longrightarrow> 0 < n"
  by (auto simp: port_number_def bind_eq_Some_conv split: if_splits)

lemma host_port_Some:
  assumes "host_port rest = Some (host, port)"
  shows "CHR '':'' \<notin> set host" "set host \<subseteq> set rest" "\<And>n. port = Some n \<Longrightarrow> 0 < n"
  using assms port_number_positive
  by (auto simp: host_port_def dest!: split_once_SomeD split: option.splits)

lemma port_text_back:
  assumes "CHR '':'' \<notin> set host" "\<And>n. port = Some n \<Longrightarrow> 0 < n"
  shows "\<exists>port'. host_port (host @ port_text scheme port) = Some (host, port') \<and> port_text scheme port' = port_text scheme port"
proof (cases "port_text scheme port = []")
  case True
  then show ?thesis using assms by (auto simp: host_port_def port_text_def simp flip: split_once_None)
next
  case False
  then obtain n where "port = Some n" "port_text scheme port = CHR '':'' # show_nat (unat n)"
    by (auto simp: port_text_def split: option.splits if_splits)
  then show ?thesis using assms port_number_shown by (simp add: host_port_def)
qed

lemma origin_Ok:
  assumes "origin text = Ok u"
  obtains "u = ''*''" | scheme host port where "scheme = ''http'' \<or> scheme = ''https''"
    "u = scheme @ ''://'' @ host @ port_text scheme port" "to_ascii_lowercase host = host" "CHR '':'' \<notin> set host"
    "\<And>n. port = Some n \<Longrightarrow> 0 < n"
    "(case strip_prefix ''*.'' host of
        None \<Rightarrow> length host \<le> 253 \<and> list_all host_label (split_on CHR ''.'' host)
      | Some name \<Rightarrow> length name \<le> 253 \<and> list_all host_label (split_on CHR ''.'' name) \<and> CHR ''.'' \<in> set name)"
proof (cases "to_ascii_lowercase text = ''*''")
  case True
  then show thesis using assms that(1) by (simp add: origin_def)
next
  case False
  then obtain scheme rest where s: "split_once_str ''://'' (to_ascii_lowercase text) = Some (scheme, rest)"
    and sch: "scheme = ''http'' \<or> scheme = ''https''"
    using assms unfolding origin_def Let_def by (auto split: if_split_asm option.split_asm)
  then obtain host port where hp: "host_port rest = Some (host, port)"
    using assms False unfolding origin_def Let_def by (auto split: if_split_asm option.split_asm)
  have "set host \<subseteq> set (to_ascii_lowercase text)" using host_port_Some(2) [OF hp] split_once_str_SomeD [OF s] by auto
  then have "\<forall>c \<in> set host. ascii_lower c = c" by auto
  then have lower: "to_ascii_lowercase host = host" by (simp add: map_idI)
  show thesis
    by (rule that(2) [OF sch _ lower host_port_Some(1,3) [OF hp]])
      (use assms False s sch hp in \<open>cases "strip_prefix ''*.'' host";
        auto simp: origin_def Let_def simp del: strip_prefix_Some split: if_split_asm\<close>)+
qed

lemma origin_stable:
  assumes "origin text = Ok u"
  shows "origin u = Ok u"
proof (rule origin_Ok [OF assms])
  assume "u = ''*''"
  then show ?thesis by (simp add: origin_def)
next
  fix scheme host port
  assume sch: "scheme = ''http'' \<or> scheme = ''https''" and u: "u = scheme @ ''://'' @ host @ port_text scheme port"
    and low: "to_ascii_lowercase host = host" and host: "CHR '':'' \<notin> set host" and port: "\<And>n. port = Some n \<Longrightarrow> 0 < n"
    and name: "(case strip_prefix ''*.'' host of
        None \<Rightarrow> length host \<le> 253 \<and> list_all host_label (split_on CHR ''.'' host)
      | Some name \<Rightarrow> length name \<le> 253 \<and> list_all host_label (split_on CHR ''.'' name) \<and> CHR ''.'' \<in> set name)"
  obtain port' where p': "host_port (host @ port_text scheme port) = Some (host, port')" "port_text scheme port' = port_text scheme port"
    using port_text_back [OF host port] by blast
  have "to_ascii_lowercase (port_text scheme port) = port_text scheme port"
  proof -
    have "to_ascii_lowercase (show_nat n) = show_nat n" for n using lower_digits show_nat_digits by blast
    then show ?thesis by (auto simp: port_text_def ascii_lower_def ascii_class_defs byte_def split: option.splits)
  qed
  then have lu: "to_ascii_lowercase u = u" using sch low u by (auto simp: lower_literal)
  have "split_once_str ''://'' u = Some (scheme, host @ port_text scheme port)"
    unfolding u using sch by auto
  moreover have "u \<noteq> ''*''" "u \<noteq> ''null''" using sch u by auto
  ultimately show ?thesis using sch p' name u lu unfolding origin_def Let_def
    by (cases "strip_prefix ''*.'' host") (auto simp del: strip_prefix_Some)
qed

lemma texts_written [simp]:
  "texts at (stored_list JsonString ts) ex = Ok ts" "texts at (JsonArray (map JsonString ts)) ex = Ok ts"
  by (simp_all add: texts_def stored_list_def)

lemma allowed_origins_back:
  assumes "allowed_origins c v = Ok os"
  shows "allowed_origins c (JsonArray (map JsonString os)) = Ok os" "os \<noteq> []" "''*'' \<in> set os \<Longrightarrow> \<not> c \<and> os = [''*'']"
proof -
  obtain ts where t: "try_all origin ts = Ok os" "ts \<noteq> []" "length ts \<le> max_origins"
    and star: "''*'' \<in> set os \<longrightarrow> \<not> c \<and> length os \<le> 1"
    using assms by (auto simp: allowed_origins_def not_less split: if_split_asm)
  note same = try_all_stable [OF t(1) origin_stable]
  then show "os \<noteq> []" using t(2) by auto
  show "allowed_origins c (JsonArray (map JsonString os)) = Ok os"
    using same t star by (auto simp: allowed_origins_def)
  show "''*'' \<in> set os \<Longrightarrow> \<not> c \<and> os = [''*'']" using star by (cases os) auto
qed

lemma cors_method_stable: "cors_method t = Ok u \<Longrightarrow> cors_method u = Ok u"
  by (auto simp: cors_method_def comp_def split: if_split_asm)

lemma default_methods: "try_all cors_method cors_methods = Ok cors_methods"
  by code_simp

lemma allowed_methods_back:
  assumes "allowed_methods v = Ok ms"
  shows "allowed_methods (stored_list JsonString ms) = Ok ms"
proof -
  have "ms \<noteq> [] \<and> try_all cors_method ms = Ok ms"
  proof (cases "ms = cors_methods")
    case True
    then show ?thesis using default_methods by (simp add: cors_methods_def)
  next
    case False
    then obtain ts where "ts \<noteq> []" "try_all cors_method ts = Ok ms" using assms by (auto simp: allowed_methods_def split: if_split_asm)
    then show ?thesis using try_all_stable [of cors_method ts ms, OF _ cors_method_stable] by auto
  qed
  then show ?thesis by (simp add: allowed_methods_def)
qed

lemma preflight_age_back:
  assumes "preflight_age v = Ok a"
  shows "preflight_age (case a of None \<Rightarrow> JsonNull | Some n \<Rightarrow> JsonNumber (show_nat (unat n))) = Ok a"
proof (cases a)
  case (Some w)
  then obtain n where n: "w = of_nat n" "n \<le> max_age_secs"
    using assms by (auto simp: preflight_age_def bind_eq_Some_conv split: if_split_asm option.split_asm)
  then have "n < 2 ^ 32" "n < 2 ^ 64" by (simp_all add: max_age_secs_def)
  then have "unat (of_nat n :: u32) = n" by (simp add: unat_of_nat take_bit_nat_eq_self_iff)
  then show ?thesis using Some n \<open>n < 2 ^ 64\<close> by (simp add: preflight_age_def)
qed (simp add: preflight_age_def)

lemma header_name_stable: "header_name at t = Ok u \<Longrightarrow> header_name at u = Ok u"
  by (auto simp: header_name_def list_all_iff token_lower comp_def split: if_split_asm)

lemma header_names_back:
  assumes "header_names at v = Ok ns"
  shows "header_names at (stored_list JsonString ns) = Ok ns"
proof -
  obtain ts where "try_all (header_name at) ts = Ok ns" "length ts \<le> max_cors_headers"
    using assms by (auto simp: header_names_def split: if_split_asm)
  then show ?thesis using try_all_stable [of "header_name at" ts ns, OF _ header_name_stable] by (simp add: header_names_def)
qed

definition cors_written :: "cors_policy \<Rightarrow> (string \<times> json) list" where
  "cors_written p = (case cors_json p of JsonObject kvs \<Rightarrow> kvs)"

lemmas cors_written_defs = cors_written_def cors_json_def json.case value_field_def

lemma cors_object: "object_fields at sentence cors_fields (cors_json p) = Ok (cors_written p)"
proof -
  have "fst ` set (cors_written p) \<subseteq> set cors_fields"
    unfolding cors_written_def cors_json_def json.case list_json_def option_json_def flag_json_def cors_fields_def
    by (cases "co_max_age p") (simp_all, auto)
  moreover have "cors_json p = JsonObject (cors_written p)" by (simp add: cors_written_def cors_json_def)
  ultimately show ?thesis by (simp add: object_fields_def)
qed

lemma cors_fields_written:
  "value_field ''origins'' (cors_written p) = JsonArray (map JsonString (co_origins p))"
  "value_field ''methods'' (cors_written p) = stored_list JsonString (co_methods p)"
  "value_field ''headers'' (cors_written p) = stored_list JsonString (co_headers p)"
  "value_field ''expose_headers'' (cors_written p) = stored_list JsonString (co_expose_headers p)"
  "value_field ''max_age'' (cors_written p) = (case co_max_age p of None \<Rightarrow> JsonNull | Some n \<Rightarrow> JsonNumber (show_nat (unat n)))"
  by (simp_all add: cors_written_defs map_add_def stored_list_def split: option.splits)

lemma cors_flags_written:
  "flag k (value_field ''credentials'' (cors_written p)) = Ok (co_credentials p)"
  "flag k (value_field ''preflight_continue'' (cors_written p)) = Ok (co_preflight_continue p)"
  by (simp_all add: cors_written_defs map_add_def flag_def)

lemma cors_back:
  assumes "cors config = Ok p"
  shows "cors (cors_json p) = Ok p"
proof -
  obtain kvs where "allowed_origins (co_credentials p) (value_field ''origins'' kvs) = Ok (co_origins p)"
    "allowed_methods (value_field ''methods'' kvs) = Ok (co_methods p)" "preflight_age (value_field ''max_age'' kvs) = Ok (co_max_age p)"
    "header_names ''headers'' (value_field ''headers'' kvs) = Ok (co_headers p)"
    "header_names ''expose_headers'' (value_field ''expose_headers'' kvs) = Ok (co_expose_headers p)"
    using assms by (auto simp: cors_def)
  then show ?thesis unfolding cors_def
    by (simp add: cors_object cors_fields_written cors_flags_written allowed_origins_back(1) allowed_methods_back preflight_age_back header_names_back)
qed

section \<open>Every kind\<close>

lemma policy_back:
  assumes "parse_policy kind config = Ok p"
  shows "plugin_kind p = kind" "parse_policy kind (policy_config p) = Ok p"
proof -
  have Ok_map: "map_sum id f r = Ok p \<longleftrightarrow> (\<exists>q. r = Ok q \<and> p = f q)" for f :: "'x \<Rightarrow> plugin" and r :: "field_error + 'x"
    by (cases r) auto
  show "plugin_kind p = kind" using assms unfolding parse_policy_def Ok_map by (auto split: if_split_asm)
  show "parse_policy kind (policy_config p) = Ok p"
    using assms ip_restriction_back request_size_limit_back request_transformer_back response_transformer_back cors_back auth_back acl_back
    unfolding parse_policy_def Ok_map by (auto split: if_split_asm)
qed

end
