(* ===== verification/Policy_Steps.thy ===== *)
theory Policy_Steps
  imports Policy_Store Policy_Forms Config_Steps
begin

text \<open>
  The writes of policies as a relation, \<open>policy_change\<close>, with one rule per way the table can change,
  and the invariant \<open>policies_ok\<close>: keys are unique, every policy points into its own workspace, and
  every row that a snapshot selects can be read. All writes of the console keep it.
\<close>

section \<open>The relation\<close>

definition policy_frame :: "cdb \<Rightarrow> cdb \<Rightarrow> bool" where
  "policy_frame s s' \<longleftrightarrow> (\<exists>log v. cd_db s' = (cd_db s)\<lparr>db_audit := log, db_config_version := v\<rparr>) \<and>
     cd_services s' = cd_services s \<and> cd_routes s' = cd_routes s \<and> cd_consumers s' = cd_consumers s"

definition storable :: "plugin \<Rightarrow> bool" where
  "storable p \<longleftrightarrow> plugin_kind p \<in> set policy_kinds \<and> parse_policy (plugin_kind p) (policy_config p) = Ok p"

inductive policy_change :: "int \<Rightarrow> uuid \<Rightarrow> cdb \<Rightarrow> cdb \<Rightarrow> bool" where
  policy_added: "policy_change now w s s'"
    if "target_row s w t = Ok resolved" "plugin_row s w resolved None (plugin_kind p) = None" "i \<notin> po_id ` set (cd_policies s)"
      "storable p" "w \<in> wk_id ` set (db_workspaces (cd_db s))" "policy_frame s s'"
      "cd_policies s' = cd_policies s @ [attached_policy i w p resolved now]"
| policy_replaced: "policy_change now w s s'"
    if "target_row s w t = Ok resolved" "plugin_row s w resolved None (plugin_kind p) = Some old" "storable p" "policy_frame s s'"
      "cd_policies s' = map (\<lambda>x. if po_id x = po_id old then rewritten p now x else x) (cd_policies s)"
| policy_removed: "policy_change now w s s'"
    if "target_row s w t = Ok resolved" "plugin_row s w resolved None kind = Some old" "policy_frame s s'"
      "cd_policies s' = filter (\<lambda>x. po_id x \<noteq> po_id old) (cd_policies s)"

lemma frame_policies [simp]: "policy_frame s (config_audit actor act kind i ws before after (bumped (s\<lparr>cd_policies := x\<rparr>)))"
  by (simp add: policy_frame_def config_audit_def bumped_def audit_def) (cases "cd_db s"; force)

lemma policies_audit [simp]:
  "cd_policies (config_audit actor act kind i ws before after s) = cd_policies s" "cd_policies (bumped s) = cd_policies s"
  by (simp_all add: config_audit_def bumped_def)

section \<open>Every write follows a rule\<close>

lemma put_policy_change:
  assumes "try_put_policy show_time now c w target p seen i s = (r, s')" "storable p"
  obtains "s' = s" | "r = Ok ()" "holds (cd_db s) c w Editor" "policy_change now w s s'"
proof (cases "s' = s")
  case False
  with assms(1) obtain actor resolved where d: "decide_config s c w WriteAction = Ok actor" and t: "target_row s w target = Ok resolved"
    by (auto simp: try_put_policy_def split: sum.splits)
  let ?row = "plugin_row s w resolved None (plugin_kind p)"
  from False assms(1) d t have written: "r = Ok () \<and> (case ?row of
      Some old \<Rightarrow> \<exists>act before after. s' = config_audit actor act ''policy'' (po_id old) w before after
        (bumped (s\<lparr>cd_policies := map (\<lambda>x. if po_id x = po_id old then rewritten p now x else x) (cd_policies s)\<rparr>))
    | None \<Rightarrow> i \<notin> po_id ` set (cd_policies s) \<and> (\<exists>after. s' = config_audit actor ''create'' ''policy'' i w None after
        (bumped (s\<lparr>cd_policies := cd_policies s @ [attached_policy i w p resolved now]\<rparr>))))"
    unfolding try_put_policy_def Let_def
    by (cases "anonymous_known s w p"; cases "fresh (shown_stamp show_time (current_policy (plugin_kind p) ?row) ?row) seen"; cases ?row)
      (simp_all split: if_split_asm, blast+)
  have "policy_change now w s s'"
  proof (cases ?row)
    case None
    with written obtain after where i: "i \<notin> po_id ` set (cd_policies s)" and s': "s' = config_audit actor ''create'' ''policy'' i w None after
        (bumped (s\<lparr>cd_policies := cd_policies s @ [attached_policy i w p resolved now]\<rparr>))" by auto
    show ?thesis using t None i assms(2) decide_config_Ok(2) [OF d] by (rule policy_added) (simp_all add: s')
  next
    case (Some old)
    with written obtain act before after where s': "s' = config_audit actor act ''policy'' (po_id old) w before after
        (bumped (s\<lparr>cd_policies := map (\<lambda>x. if po_id x = po_id old then rewritten p now x else x) (cd_policies s)\<rparr>))" by auto
    show ?thesis using t Some assms(2) by (rule policy_replaced) (simp_all add: s')
  qed
  with written decide_config_Ok(1) [OF d] that(2) show ?thesis by simp
qed (rule that(1))

lemma delete_policy_change:
  assumes "try_delete_policy c w target kind s = (r, s')"
  obtains "s' = s" | "r = Ok ()" "holds (cd_db s) c w Editor" "policy_change now w s s'"
proof (cases "s' = s")
  case False
  with assms obtain actor resolved where d: "decide_config s c w WriteAction = Ok actor" and t: "target_row s w target = Ok resolved"
    by (auto simp: try_delete_policy_def split: sum.splits)
  from False assms d t obtain old before where o: "plugin_row s w resolved None kind = Some old" and w: "r = Ok ()"
      "s' = config_audit actor ''delete'' ''policy'' (po_id old) w before None
         (bumped (s\<lparr>cd_policies := filter (\<lambda>x. po_id x \<noteq> po_id old) (cd_policies s)\<rparr>))"
    unfolding try_delete_policy_def Let_def
    by (cases "plugin_row s w resolved None kind") (auto split: if_split_asm)
  have "policy_change now w s s'" using t o by (rule policy_removed) (simp_all add: w)
  with decide_config_Ok(1) [OF d] w(1) that(2) show ?thesis by simp
qed (rule that(1))

fun police_caller :: "policy_operation \<Rightarrow> uuid" where
  "police_caller (PutPolicy c _ _ _ _) = c"
| "police_caller (DeletePolicy c _ _ _) = c"

fun police_workspace :: "policy_operation \<Rightarrow> uuid" where
  "police_workspace (PutPolicy _ w _ _ _) = w"
| "police_workspace (DeletePolicy _ w _ _) = w"

lemma written_Ok: "written (r, s') = Returns (e, s'') \<longleftrightarrow> s'' = s' \<and> e = (case r of Err x \<Rightarrow> Some x | Ok _ \<Rightarrow> None)"
  by (auto simp: written_def)

lemma police_put:
  assumes "police show_time now (PutPolicy c w kind input i) s = Returns (e, s')" "s' \<noteq> s \<or> e = None"
  obtains target p r where "kind \<in> set policy_kinds" "parse_target (pi_target input) = Ok target" "parse_policy kind (pi_config input) = Ok p"
    "newly_reserved p = Ok ()" "try_put_policy show_time now c w target p (pi_seen input) i s = (r, s')" "e = (case r of Err x \<Rightarrow> Some x | Ok _ \<Rightarrow> None)"
proof -
  from assms have k: "kind \<in> set policy_kinds" by (cases "kind \<in> set policy_kinds") (auto simp: kind_in_def)
  from assms k obtain target where t: "parse_target (pi_target input) = Ok target"
    by (cases "parse_target (pi_target input)") (auto simp: kind_in_def)
  from assms k t obtain p where p: "parse_policy kind (pi_config input) = Ok p"
    by (cases "parse_policy kind (pi_config input)") (auto simp: kind_in_def)
  from assms k t p have n: "newly_reserved p = Ok ()" by (cases "newly_reserved p") (auto simp: kind_in_def)
  from assms(1) k t p n that [OF k t p n] show thesis
    by (cases "try_put_policy show_time now c w target p (pi_seen input) i s") (auto simp: kind_in_def written_Ok)
qed

lemma police_follows:
  assumes "police show_time now op s = Returns (e, s')"
  shows "s' = s \<or> e = None \<and> holds (cd_db s) (police_caller op) (police_workspace op) Editor \<and> policy_change now (police_workspace op) s s'"
proof (cases op)
  case (PutPolicy c w kind input i)
  show ?thesis
  proof (cases "s' = s")
    case False
    with assms PutPolicy obtain target p r where p: "kind \<in> set policy_kinds" "parse_policy kind (pi_config input) = Ok p"
      "try_put_policy show_time now c w target p (pi_seen input) i s = (r, s')" "e = (case r of Err x \<Rightarrow> Some x | Ok _ \<Rightarrow> None)"
      by (metis police_put)
    have "storable p" using policy_back [OF p(2)] p(1) by (simp add: storable_def)
    from put_policy_change [OF p(3) this] show ?thesis using p(4) PutPolicy by fastforce
  qed simp
next
  case (DeletePolicy c w kind at)
  show ?thesis
  proof (cases "s' = s")
    case False
    with assms DeletePolicy obtain target where w: "written (try_delete_policy c w target kind s) = Returns (e, s')"
      by (auto simp: kind_in_def split: sum.splits if_split_asm)
    obtain r where d: "try_delete_policy c w target kind s = (r, s')" "e = (case r of Err x \<Rightarrow> Some x | Ok _ \<Rightarrow> None)"
      using w by (cases "try_delete_policy c w target kind s") (auto simp: written_Ok)
    from delete_policy_change [OF d(1), where now = now] show ?thesis using d(2) DeletePolicy by fastforce
  qed simp
qed

lemma police_total: "\<exists>p. police show_time now op s = Returns p"
  by (cases op) (auto simp: written_def split: sum.split)

section \<open>The invariant\<close>

definition service_at :: "cdb \<Rightarrow> uuid \<Rightarrow> uuid \<Rightarrow> bool" where
  "service_at s i w \<longleftrightarrow> (\<exists>v \<in> set (cd_services s). sd_id v = i \<and> sd_workspace v = w)"

definition route_at :: "cdb \<Rightarrow> uuid \<Rightarrow> uuid \<Rightarrow> bool" where
  "route_at s i w \<longleftrightarrow> (\<exists>r \<in> set (cd_routes s). rd_id r = i \<and> rd_workspace r = w)"

definition points_home :: "cdb \<Rightarrow> policy_record \<Rightarrow> bool" where
  "points_home s p \<longleftrightarrow> (po_service p = None \<or> po_route p = None) \<and> (\<forall>i. po_service p = Some i \<longrightarrow> service_at s i (po_workspace p)) \<and>
     (\<forall>i. po_route p = Some i \<longrightarrow> route_at s i (po_workspace p)) \<and>
     (\<forall>i. po_consumer p = Some i \<longrightarrow> (\<exists>c \<in> set (cd_consumers s). cr_id c = i \<and> cr_workspace c = po_workspace p))"

definition readable :: "policy_record \<Rightarrow> bool" where
  "readable p \<longleftrightarrow> (if po_name p = rate_limit_name then stored_rate_limit (po_config p) \<noteq> None
     else \<exists>q. parse_plugin (po_name p) (po_config p) = Ok q)"

definition policy_key :: "policy_record \<Rightarrow> uuid \<times> uuid option \<times> uuid option \<times> uuid option \<times> string" where
  "policy_key p = (po_workspace p, po_service p, po_route p, po_consumer p, po_name p)"

definition policies_ok :: "cdb \<Rightarrow> bool" where
  "policies_ok s \<longleftrightarrow> distinct (map po_id (cd_policies s)) \<and> distinct (map policy_key (cd_policies s)) \<and>
     distinct (map cr_id (cd_consumers s)) \<and> po_workspace ` set (cd_policies s) \<subseteq> wk_id ` set (db_workspaces (cd_db s)) \<and>
     (\<forall>p \<in> set (cd_policies s). points_home s p \<and> (selected_policy p \<longrightarrow> readable p))"

lemma policies_ok_parts:
  assumes "policies_ok s"
  shows "distinct (map po_id (cd_policies s))" "distinct (map policy_key (cd_policies s))" "distinct (map cr_id (cd_consumers s))"
    "po_workspace ` set (cd_policies s) \<subseteq> wk_id ` set (db_workspaces (cd_db s))"
    "\<forall>p \<in> set (cd_policies s). points_home s p \<and> (selected_policy p \<longrightarrow> readable p)"
  using assms by (simp_all add: policies_ok_def)

lemma kinds_apart: "kind \<in> set policy_kinds \<Longrightarrow> kind \<noteq> ''jwt'' \<and> kind \<noteq> ''key_auth'' \<and> kind \<noteq> rate_limit_name"
  by (auto simp: policy_kinds_def rate_limit_name_def)

lemma storable_read: "storable p \<Longrightarrow> parse_plugin (plugin_kind p) (policy_config p) = Ok p"
  using kinds_apart by (auto simp: storable_def parse_plugin_def)

lemma storable_readable: "storable p \<Longrightarrow> po_name x = plugin_kind p \<Longrightarrow> po_config x = policy_config p \<Longrightarrow> readable x"
  using kinds_apart storable_read by (auto simp: readable_def storable_def)

text \<open>What a target resolves to, and the row that is found there.\<close>

lemma target_row_Ok:
  assumes "target_row s w t = Ok resolved"
  shows "(t = OnWorkspace \<and> resolved = None) \<or>
    (\<exists>n v. t = OnService n \<and> resolved = Some (''service_id'', sd_id v) \<and> v \<in> set (cd_services s) \<and> sd_workspace v = w \<and> sv_name (sd_row v) = n) \<or>
    (\<exists>n r. t = OnRoute n \<and> resolved = Some (''route_id'', rd_id r) \<and> r \<in> set (cd_routes s) \<and> rd_workspace r = w \<and> rd_name r = n)"
  using assms by (cases t) (auto simp: target_row_def find_service_def find_Some_iff split: option.splits)

lemma attached_simps [simp]:
  "po_id (attached_policy i w p resolved now) = i" "po_workspace (attached_policy i w p resolved now) = w"
  "po_name (attached_policy i w p resolved now) = plugin_kind p" "po_config (attached_policy i w p resolved now) = policy_config p"
  "po_consumer (attached_policy i w p resolved now) = None" "po_enabled (attached_policy i w p resolved now)"
  by (simp_all add: attached_policy_def)

lemma rewritten_simps [simp]:
  "po_id (rewritten p now x) = po_id x" "po_workspace (rewritten p now x) = po_workspace x" "po_name (rewritten p now x) = po_name x"
  "po_config (rewritten p now x) = policy_config p" "po_service (rewritten p now x) = po_service x" "po_route (rewritten p now x) = po_route x"
  "po_consumer (rewritten p now x) = po_consumer x" "po_enabled (rewritten p now x)" "policy_key (rewritten p now x) = policy_key x"
  by (simp_all add: rewritten_def policy_key_def)

lemma attached_home:
  assumes "target_row s w t = Ok resolved"
  shows "points_home s (attached_policy i w p resolved now)"
  using target_row_Ok [OF assms] by (auto simp: points_home_def attached_policy_def service_at_def route_at_def)

lemma plugin_row_Some:
  "plugin_row s w resolved c name = Some p \<Longrightarrow> p \<in> set (cd_policies s) \<and> po_name p = name \<and> po_consumer p = c"
  by (auto simp: plugin_row_def find_Some_iff split: option.splits prod.splits if_split_asm)

lemma plugin_row_None:
  assumes "plugin_row s w resolved None (plugin_kind p) = None"
  shows "policy_key (attached_policy i w p resolved now) \<notin> policy_key ` set (cd_policies s)"
proof
  assume "policy_key (attached_policy i w p resolved now) \<in> policy_key ` set (cd_policies s)"
  then obtain x where "x \<in> set (cd_policies s)" "policy_key x = policy_key (attached_policy i w p resolved now)" by auto
  with assms show False
    by (auto simp: plugin_row_def policy_key_def attached_policy_def find_None_iff split: option.split_asm prod.split_asm if_split_asm)
qed

text \<open>The row a write finds is of the workspace it asks for.\<close>

lemma plugin_row_workspace:
  assumes "target_row s w t = Ok resolved" "plugin_row s w resolved c name = Some p" "config_ok build s" "policies_ok s"
  shows "po_workspace p = w"
proof -
  have home: "points_home s p" using policies_ok_parts(5) [OF assms(4)] plugin_row_Some [OF assms(2)] by blast
  consider "resolved = None" | v where "resolved = Some (''service_id'', sd_id v)" "v \<in> set (cd_services s)" "sd_workspace v = w"
    | r where "resolved = Some (''route_id'', rd_id r)" "r \<in> set (cd_routes s)" "rd_workspace r = w"
    using target_row_Ok [OF assms(1)] by blast
  then show ?thesis
  proof cases
    case 1
    with assms(2) show ?thesis by (auto simp: plugin_row_def find_Some_iff)
  next
    case (2 v)
    with assms(2) have "po_service p = Some (sd_id v)" by (auto simp: plugin_row_def find_Some_iff)
    with home obtain v' where "v' \<in> set (cd_services s)" "sd_id v' = sd_id v" "sd_workspace v' = po_workspace p"
      by (auto simp: points_home_def service_at_def)
    with by_id [OF config_ok_parts(1) [OF assms(3)], of v' v] 2 show ?thesis by simp
  next
    case (3 r)
    with assms(2) have "po_route p = Some (rd_id r)" by (auto simp: plugin_row_def find_Some_iff)
    with home obtain r' where "r' \<in> set (cd_routes s)" "rd_id r' = rd_id r" "rd_workspace r' = po_workspace p"
      by (auto simp: points_home_def route_at_def)
    with by_id [OF config_ok_parts(3) [OF assms(3)], of r' r] 3 show ?thesis by simp
  qed
qed

definition policies_in :: "cdb \<Rightarrow> uuid \<Rightarrow> policy_record list" where
  "policies_in s w = filter (\<lambda>p. po_workspace p = w) (cd_policies s)"

lemma policy_change_elsewhere:
  assumes "policy_change now w s s'" "config_ok build s" "policies_ok s" "w' \<noteq> w"
  shows "policies_in s' w' = policies_in s w'"
  using assms
proof (induction rule: policy_change.induct)
  case (policy_added s w t resolved p i s' now)
  then show ?case by (simp add: policies_in_def)
next
  case (policy_replaced s w t resolved p old s' now)
  from plugin_row_workspace [OF policy_replaced.hyps(1,2) policy_replaced.prems(1,2)] plugin_row_Some [OF policy_replaced.hyps(2)]
    by_id [OF policies_ok_parts(1) [OF policy_replaced.prems(2)], of _ old] policy_replaced.prems(3)
  show ?case unfolding policies_in_def policy_replaced.hyps(5) by (subst filter_map_other) auto
next
  case (policy_removed s w t resolved kind old s' now)
  from plugin_row_workspace [OF policy_removed.hyps(1,2) policy_removed.prems(1,2)] plugin_row_Some [OF policy_removed.hyps(2)]
    by_id [OF policies_ok_parts(1) [OF policy_removed.prems(2)], of _ old] policy_removed.prems(3)
  show ?case unfolding policies_in_def policy_removed.hyps(4) by (subst filter_filter_other) auto
qed

section \<open>The invariant is kept\<close>

lemma policy_frame_home: "policy_frame s s' \<Longrightarrow> points_home s' p = points_home s p"
  by (simp add: policy_frame_def points_home_def service_at_def route_at_def)

lemma policy_frame_parts:
  "policy_frame s s' \<Longrightarrow> cd_consumers s' = cd_consumers s \<and> db_workspaces (cd_db s') = db_workspaces (cd_db s)"
  by (auto simp: policy_frame_def)

lemma policies_okI:
  assumes "policy_frame s s'" "policies_ok s" "distinct (map po_id (cd_policies s'))" "distinct (map policy_key (cd_policies s'))"
    "po_workspace ` set (cd_policies s') \<subseteq> wk_id ` set (db_workspaces (cd_db s))"
    "\<And>p. p \<in> set (cd_policies s') \<Longrightarrow> points_home s p \<and> (selected_policy p \<longrightarrow> readable p)"
  shows "policies_ok s'"
  unfolding policies_ok_def
  using assms(3-6) policies_ok_parts(3) [OF assms(2)] policy_frame_parts [OF assms(1)] policy_frame_home [OF assms(1)] by simp

lemma policy_change_policies_ok: "policy_change now w s s' \<Longrightarrow> policies_ok s \<Longrightarrow> policies_ok s'"
proof (induction rule: policy_change.induct)
  case (policy_added s w t resolved p i s' now)
  note ok = policies_ok_parts [OF policy_added.prems] and new = policy_added.hyps(7)
  show ?case
  proof (rule policies_okI [OF policy_added.hyps(6) policy_added.prems])
    show "distinct (map po_id (cd_policies s'))" using ok(1) policy_added.hyps(3) by (simp add: new)
    show "distinct (map policy_key (cd_policies s'))" using ok(2) plugin_row_None [OF policy_added.hyps(2)] by (simp add: new)
    show "po_workspace ` set (cd_policies s') \<subseteq> wk_id ` set (db_workspaces (cd_db s))" using ok(4) policy_added.hyps(5) by (simp add: new)
    fix q assume "q \<in> set (cd_policies s')"
    then consider "q \<in> set (cd_policies s)" | "q = attached_policy i w p resolved now" by (auto simp: new)
    then show "points_home s q \<and> (selected_policy q \<longrightarrow> readable q)"
      by cases (use ok(5) attached_home [OF policy_added.hyps(1)] storable_readable [OF policy_added.hyps(4)] in simp_all)
  qed
next
  case (policy_replaced s w t resolved p old s' now)
  let ?f = "\<lambda>x. if po_id x = po_id old then rewritten p now x else x"
  note ok = policies_ok_parts [OF policy_replaced.prems] and old = plugin_row_Some [OF policy_replaced.hyps(2)]
  have same: "map po_id (cd_policies s') = map po_id (cd_policies s)" "map policy_key (cd_policies s') = map policy_key (cd_policies s)"
    "map po_workspace (cd_policies s') = map po_workspace (cd_policies s)"
    unfolding policy_replaced.hyps(5) by simp_all
  show ?case
  proof (rule policies_okI [OF policy_replaced.hyps(4) policy_replaced.prems])
    show "po_workspace ` set (cd_policies s') \<subseteq> wk_id ` set (db_workspaces (cd_db s))"
      using ok(4) arg_cong [OF same(3), of set] by simp
    fix q assume "q \<in> set (cd_policies s')"
    then obtain x where x: "x \<in> set (cd_policies s)" "q = ?f x" unfolding policy_replaced.hyps(5) set_map by (rule imageE) simp
    have "points_home s (rewritten p now x) = points_home s x" by (simp add: points_home_def)
    moreover have "readable (rewritten p now x)" if "po_id x = po_id old"
      using by_id [OF ok(1) x(1), of old] that old storable_readable [OF policy_replaced.hyps(3), of "rewritten p now x"] by simp
    moreover have "points_home s x \<and> (selected_policy x \<longrightarrow> readable x)" using ok(5) x(1) by blast
    ultimately show "points_home s q \<and> (selected_policy q \<longrightarrow> readable q)" by (cases "po_id x = po_id old") (simp_all add: x(2))
  qed (simp_all add: same ok)
next
  case (policy_removed s w t resolved kind old s' now)
  note ok = policies_ok_parts [OF policy_removed.prems]
  show ?case by (rule policies_okI [OF policy_removed.hyps(3) policy_removed.prems])
    (use ok in \<open>auto simp: policy_removed.hyps(4) distinct_map_filter\<close>)
qed

text \<open>Services and routes change, but what a policy points at stays.\<close>

lemma changes_frame: "changes build now act w s s' \<Longrightarrow> frame s s'"
  by (induction rule: changes.induct)

lemma map_keeps_pair:
  assumes "\<And>x. f (g x) = f x" "\<And>x. k (g x) = k x"
  shows "(\<exists>y \<in> set (map g xs). f y = i \<and> k y = w) \<longleftrightarrow> (\<exists>x \<in> set xs. f x = i \<and> k x = w)"
  by (simp add: assms)

lemma changes_keeps_services:
  "changes build now act w s s' \<Longrightarrow> service_at s i v \<Longrightarrow> p \<in> set (cd_policies s) \<Longrightarrow> po_service p = Some i \<Longrightarrow> service_at s' i v"
proof (induction rule: changes.induct)
  case (service_replaced s w current old new s' now build)
  from service_replaced.prems(1) show ?case unfolding service_at_def service_replaced.hyps(5)
    by (subst map_keeps_pair [of sd_id _ sd_workspace]) simp_all
qed (auto simp: service_at_def)

lemma changes_keeps_routes:
  "changes build now act w s s' \<Longrightarrow> route_at s i v \<Longrightarrow> p \<in> set (cd_policies s) \<Longrightarrow> po_route p = Some i \<Longrightarrow> route_at s' i v"
proof (induction rule: changes.induct)
  case (route_replaced s w current old v0 r v' s' build now)
  from route_replaced.prems(1) show ?case unfolding route_at_def route_replaced.hyps(8)
    by (subst map_keeps_pair [of rd_id _ rd_workspace]) simp_all
qed (auto simp: route_at_def)

lemma changes_policies_ok:
  assumes "changes build now act w s s'" "policies_ok s"
  shows "policies_ok s'"
proof -
  note ok = policies_ok_parts [OF assms(2)]
  have same: "cd_policies s' = cd_policies s" "cd_consumers s' = cd_consumers s" "db_workspaces (cd_db s') = db_workspaces (cd_db s)"
    using changes_frame [OF assms(1)] frame_workspaces [OF changes_frame [OF assms(1)]] by (simp_all add: frame_def)
  have "points_home s' p" if p: "p \<in> set (cd_policies s)" for p
    unfolding points_home_def same(2)
  proof (intro conjI allI impI)
    have home: "points_home s p" using ok(5) p by blast
    then show "po_service p = None \<or> po_route p = None" by (simp add: points_home_def)
    show "service_at s' i (po_workspace p)" if "po_service p = Some i" for i
      using changes_keeps_services [OF assms(1) _ p that] home that by (simp add: points_home_def)
    show "route_at s' i (po_workspace p)" if "po_route p = Some i" for i
      using changes_keeps_routes [OF assms(1) _ p that] home that by (simp add: points_home_def)
    show "\<exists>c \<in> set (cd_consumers s). cr_id c = i \<and> cr_workspace c = po_workspace p" if "po_consumer p = Some i" for i
      using home that by (simp add: points_home_def)
  qed
  with ok show ?thesis unfolding policies_ok_def same by blast
qed

end
