(* ===== verification/Console.thy ===== *)
theory Console
  imports Config_Steps Policy_Steps
begin

text \<open>
  The console's writes together: services, routes and policies between changes of accounts, roles and workspaces,
  and the snapshot that is compiled from what they leave. A workspace is only deleted when the tables
  hold nothing of it, counted as \<^verbatim>\<open>store/workspaces.rs\<close> counts.
\<close>

section \<open>Histories\<close>

definition contents_of :: "cdb \<Rightarrow> uuid \<Rightarrow> contents" where
  "contents_of s w =
     \<lparr>cn_services = length (filter (\<lambda>v. sd_workspace v = w) (cd_services s)),
      cn_routes = length (filter (\<lambda>r. rd_workspace r = w) (cd_routes s)),
      cn_consumers = length (filter (\<lambda>c. cr_workspace c = w) (cd_consumers s)),
      cn_policies = length (filter (\<lambda>p. po_workspace p = w) (cd_policies s)),
      cn_certificates = cn_certificates (db_contents (cd_db s) w)\<rparr>"

datatype console_operation = Configure config_operation | Police policy_operation | Govern operation

fun console :: "'re console_env \<Rightarrow> int \<Rightarrow> console_operation \<Rightarrow> cdb \<Rightarrow> (write_error option \<times> cdb) run" where
  "console env now (Configure op) s = configure env now op s"
| "console env now (Police op) s = police (ce_show_time env) now op s"
| "console env now (Govern op) s =
     (case perform now op ((cd_db s)\<lparr>db_contents := contents_of s\<rparr>) of (e, d) \<Rightarrow> Returns (e, s\<lparr>cd_db := d\<rparr>))"

fun console_texts :: "console_operation \<Rightarrow> bool" where
  "console_texts (Configure op) \<longleftrightarrow> config_texts op"
| "console_texts (Police op) \<longleftrightarrow> True"
| "console_texts (Govern op) \<longleftrightarrow> operation_ok op"

text \<open>A history: each operation is answered before the next is taken.\<close>

inductive console_history :: "'re console_env \<Rightarrow> cdb \<Rightarrow> (int \<times> console_operation) list \<Rightarrow> cdb \<Rightarrow> bool" for env where
  started: "console_history env s [] s"
| answered: "console_history env s (es @ [(now, op)]) s''"
    if "console_history env s es s'" and "console_texts op" and "console env now op s' = Returns (e, s'')"

text \<open>Accounts and workspaces change under the services and routes.\<close>

lemma emptiness_Ok: "emptiness name c = Ok u \<Longrightarrow> cn_services c = 0 \<and> cn_policies c = 0"
  by (auto simp: emptiness_def Let_def split: if_split_asm)

lemma effect_workspaces:
  "effect now op s s' \<Longrightarrow> w \<in> wk_id ` set (db_workspaces s) \<Longrightarrow>
   w \<in> wk_id ` set (db_workspaces s') \<or> cn_services (db_contents s w) = 0 \<and> cn_policies (db_contents s w) = 0"
proof (induction rule: effect.induct)
  case (direct_roles s c a t b wanted names s' now)
  then show ?case by (simp add: write_direct_fold)
next
  case rename_workspace
  then show ?case by (auto simp: image_Un image_image)
next
  case (delete_workspace s c a name x now before)
  then show ?case using emptiness_Ok [of name "db_contents s (wk_id x)"] by (auto simp: image_iff)
qed (auto simp: image_iff)

lemma govern_ok:
  assumes "console env now (Govern op) s = Returns (e, s')" "config_ok build s"
  shows "config_ok build s'"
proof -
  let ?d = "(cd_db s)\<lparr>db_contents := contents_of s\<rparr>"
  from assms(1) have s': "s' = s\<lparr>cd_db := snd (perform now op ?d)\<rparr>" by (auto split: prod.splits)
  have "sd_workspace v \<in> wk_id ` set (db_workspaces (cd_db s'))" if v: "v \<in> set (cd_services s)" for v
  proof -
    have "sd_workspace v \<in> wk_id ` set (db_workspaces ?d)" using config_ok_parts(5) [OF assms(2)] v by auto
    from effect_workspaces [OF perform_effect this, of now op] show ?thesis
      using v by (auto simp: s' contents_of_def filter_empty_conv)
  qed
  then have "sd_workspace ` set (cd_services s') \<subseteq> wk_id ` set (db_workspaces (cd_db s'))" by (auto simp: s')
  with config_ok_parts [OF assms(2)] show ?thesis by (simp add: config_ok_def s' hosts_apart_def service_ref_def)
qed

lemma police_ok:
  assumes "police show_time now op s = Returns (e, s')" "config_ok build s"
  shows "config_ok build s'"
proof (cases "s' = s")
  case False
  then have "policy_frame s s'" using police_follows [OF assms(1)] by (auto elim: policy_change.cases)
  then show ?thesis using config_ok_parts [OF assms(2)]
    by (auto simp: policy_frame_def config_ok_def hosts_apart_def service_ref_def)
qed (simp add: assms(2))

lemma console_ok:
  assumes "console env now op s = Returns (e, s')" "config_ok (ce_build env) s" "console_texts op"
  shows "config_ok (ce_build env) s'"
  using assms by (cases op) (auto intro: configure_ok govern_ok police_ok simp del: console.simps(3))

text \<open>The policies stay well formed too.\<close>

lemma govern_policies_ok:
  assumes "console env now (Govern op) s = Returns (e, s')" "policies_ok s"
  shows "policies_ok s'"
proof -
  let ?d = "(cd_db s)\<lparr>db_contents := contents_of s\<rparr>"
  note ok = policies_ok_parts [OF assms(2)]
  from assms(1) have s': "s' = s\<lparr>cd_db := snd (perform now op ?d)\<rparr>" by (auto split: prod.splits)
  have "po_workspace p \<in> wk_id ` set (db_workspaces (cd_db s'))" if p: "p \<in> set (cd_policies s)" for p
  proof -
    have "po_workspace p \<in> wk_id ` set (db_workspaces ?d)" using ok(4) p by auto
    from effect_workspaces [OF perform_effect this, of now op] show ?thesis
      using p by (auto simp: s' contents_of_def filter_empty_conv)
  qed
  moreover have "points_home s' = points_home s" by (simp add: fun_eq_iff points_home_def service_at_def route_at_def s')
  ultimately show ?thesis using ok unfolding policies_ok_def by (auto simp: s')
qed

lemma console_policies_ok:
  assumes "console env now op s = Returns (e, s')" "config_ok (ce_build env) s" "console_texts op" "policies_ok s"
  shows "policies_ok s'"
proof (cases op)
  case (Configure x)
  with configure_follows [of env now x s e s'] assms changes_policies_ok show ?thesis by (auto simp: as_asked_def)
next
  case (Police x)
  with police_follows [of "ce_show_time env" now x s e s'] assms policy_change_policies_ok show ?thesis by auto
next
  case (Govern x)
  with govern_policies_ok assms show ?thesis by blast
qed

lemma history_config_ok:
  "console_history env s es s' \<Longrightarrow> config_ok (ce_build env) s \<Longrightarrow> config_ok (ce_build env) s'"
  by (induction rule: console_history.induct) (auto intro: console_ok)

lemma history_policies_ok:
  "console_history env s es s' \<Longrightarrow> config_ok (ce_build env) s \<Longrightarrow> policies_ok s \<Longrightarrow> policies_ok s'"
  by (induction rule: console_history.induct) (auto intro: console_policies_ok history_config_ok)

section \<open>The snapshot\<close>

lemma eq_lower_lower: "to_ascii_lowercase a = a \<Longrightarrow> to_ascii_lowercase b = b \<Longrightarrow> eq_ignore_ascii_case a b \<longleftrightarrow> a = b"
  by (simp add: eq_ignore_ascii_case_def)

lemma gateway_headers_lower: "\<forall>g \<in> set gateway_headers. to_ascii_lowercase g = g"
  by code_simp

lemma columns_served:
  assumes "list_all (path_ok build) ps" "list_all header_ok hs" "strip_ok strip ps"
    "sr_paths row = map path_of ps" "sr_headers row = map kv_of hs" "sr_strip_path row = strip"
  shows "route_refusal row = None"
proof -
  have "\<not> matches_gateway_header row"
    using assms(2,5) gateway_headers_lower
    by (fastforce simp: matches_gateway_header_def list_ex_iff list_all_iff kv_of_def header_ok_def eq_lower_lower)
  moreover have "\<not> names_path_parameters row"
    using assms(1,4) by (auto simp: names_path_parameters_def list_ex_iff list_all_iff path_of_def path_ok_def split: if_split_asm)
  moreover have "\<not> strips_a_regex row"
    using assms(3,4,6) by (auto simp: strips_a_regex_def strip_ok_def list_ex_iff path_of_def split: if_split_asm)
  ultimately show ?thesis by (simp add: route_refusal_def)
qed

lemma snapshot_route_served:
  assumes "cache_ok build se cache" "columns_ok build r" "rd_workspace r = sd_workspace v"
  shows "\<exists>row cache'. snapshot_route build se (w, r, v) cache = (Ok row, cache') \<and> cache_ok build se cache' \<and>
    route_refusal row = None \<and> sr_workspace row = w \<and> sr_name row = rd_name r \<and> sr_service row = sv_name (sd_row v) \<and>
    sr_hosts row = rd_hosts r"
proof -
  from assms(2) obtain ps hs where c: "rd_paths r = JsonArray (map path_json ps)" "rd_headers r = JsonArray (map header_json hs)"
      "list_all (path_ok build) ps" "list_all header_ok hs" "strip_ok (rd_strip_path r) ps" by (auto simp: columns_ok_def)
  from parse_paths_written [OF assms(1) c(3)] obtain cache'
    where "parse_paths build se (rd_paths r) cache = (Ok (map path_of ps), cache')" "cache_ok build se cache'" by (auto simp: c(1))
  with parse_headers_written [OF c(4)] columns_served [OF c(3-5)] assms(3) show ?thesis
    by (simp add: snapshot_route_def c(2))
qed

definition shows_route :: "string \<times> route_record \<times> service_record \<Rightarrow> store_route \<Rightarrow> bool" where
  "shows_route = (\<lambda>(w, r, v) row. route_refusal row = None \<and> sr_workspace row = w \<and> sr_name row = rd_name r \<and>
     sr_service row = sv_name (sd_row v) \<and> sr_hosts row = rd_hosts r)"

lemma snapshot_list_served:
  assumes "cache_ok build se cache" "\<forall>(w, r, v) \<in> set es. columns_ok build r \<and> rd_workspace r = sd_workspace v"
  shows "\<exists>rows cache'. snapshot_route_list build se es cache = (Ok rows, cache') \<and> cache_ok build se cache' \<and> list_all2 shows_route es rows"
  using assms
proof (induction es arbitrary: cache)
  case (Cons e es)
  obtain w r v where e: "e = (w, r, v)" by (cases e)
  with snapshot_route_served [OF Cons.prems(1), of r v w] Cons.prems(2) obtain row cache1
    where 1: "snapshot_route build se e cache = (Ok row, cache1)" "cache_ok build se cache1" "shows_route e row"
    by (auto simp: shows_route_def)
  from Cons.IH [OF 1(2)] Cons.prems(2) obtain rows cache2
    where "snapshot_route_list build se es cache1 = (Ok rows, cache2)" "cache_ok build se cache2" "list_all2 shows_route es rows" by auto
  with 1 show ?case by simp
qed simp

text \<open>The route and the service that a reference joins, and the names of their workspaces.\<close>

lemma service_of_ref:
  assumes "config_ok build s" "r \<in> set (cd_routes s)"
  shows "\<exists>v \<in> set (cd_services s). service_of_route s r = Some v \<and> sd_workspace v = rd_workspace r"
proof -
  from config_ok_parts(6) [OF assms(1)] assms(2) obtain v where v: "v \<in> set (cd_services s)"
      "rd_service r = Some (sd_id v)" "sd_workspace v = rd_workspace r" by (auto simp: service_ref_def)
  then obtain x where x: "find (\<lambda>x. sd_id x = sd_id v) (cd_services s) = Some x" by (cases "find (\<lambda>x. sd_id x = sd_id v) (cd_services s)") (auto simp: find_None_iff)
  then have "x = v" using by_id [OF config_ok_parts(1) [OF assms(1)]] v(1) by (auto simp: find_Some_iff)
  with x v show ?thesis by (auto simp: service_of_route_def)
qed

lemma workspace_named_Some: "i \<in> wk_id ` set (db_workspaces (cd_db s)) \<Longrightarrow> \<exists>w. workspace_named s i = Some w"
  by (cases "find (\<lambda>w. wk_id w = i) (db_workspaces (cd_db s))") (auto simp: workspace_named_def find_None_iff)

lemma joined_of:
  assumes "config_ok build s" "r \<in> set (cd_routes s)"
  shows "\<exists>v \<in> set (cd_services s). \<exists>w. service_of_route s r = Some v \<and> sd_workspace v = rd_workspace r \<and> workspace_named s (rd_workspace r) = Some w"
proof -
  from service_of_ref [OF assms] obtain v where v: "v \<in> set (cd_services s)" "service_of_route s r = Some v" "sd_workspace v = rd_workspace r" by blast
  with config_ok_parts(5) [OF assms(1)] have "rd_workspace r \<in> wk_id ` set (db_workspaces (cd_db s))" by (metis image_subset_iff)
  with v workspace_named_Some show ?thesis by blast
qed

definition joined :: "cdb \<Rightarrow> route_record \<Rightarrow> string \<times> route_record \<times> service_record" where
  "joined s r = (the (workspace_named s (rd_workspace r)), r, the (service_of_route s r))"

lemma joined_routes_all:
  assumes "config_ok build s"
  shows "mset (joined_routes s) = mset (map (joined s) (cd_routes s))"
proof -
  have "List.map_filter (\<lambda>r. Option.bind (service_of_route s r) (\<lambda>v. map_option (\<lambda>w. (w, r, v)) (workspace_named s (rd_workspace r)))) rs = map (joined s) rs"
    if "set rs \<subseteq> set (cd_routes s)" for rs
    using that
  proof (induction rs)
    case (Cons r rs)
    with joined_of [OF assms, of r] show ?case by (auto simp: List.map_filter_simps joined_def)
  qed (simp add: List.map_filter_simps)
  then show ?thesis by (simp add: joined_routes_def)
qed

end
