(* ===== verification/Config_Props.thy ===== *)
theory Config_Props
  imports Console
begin

text \<open>
  What the console's services and routes guarantee, through any sequence of its writes: every stored
  route reads back and is served, the hosts of two workspaces stay apart, a row is only overwritten by
  one who saw it as it is, and only those with a role in a workspace change what is in it. Each property
  has an instance on the tables \<open>shop_db\<close>.
\<close>

section \<open>Tables to try the properties on\<close>

definition clock_text :: "int \<Rightarrow> string" where
  "clock_text t = (if t < 0 then CHR ''-'' # replicate (nat (- t)) CHR ''1'' else replicate (nat t) CHR ''1'')"

lemma inj_tally: "inj clock_text"
proof (rule injI)
  fix x y assume "clock_text x = clock_text y"
  then show "x = y" by (cases "nat x"; cases "nat y") (auto simp: clock_text_def replicate_eq_replicate split: if_split_asm)
qed

definition shop_env :: "unit console_env" where
  "shop_env = \<lparr>ce_build = (\<lambda>_ _ _. Ok ()), ce_show_error = (\<lambda>_. ''bad''),
     ce_pem = \<lparr>pem_certs = (\<lambda>_. []), pem_anchor = (\<lambda>_. True)\<rparr>, ce_show_time = clock_text\<rparr>"

definition shop_accounts :: db where
  "shop_accounts = \<lparr>db_users = [(local_account 1 ''root'' ''hash'')\<lparr>an_superuser := True\<rparr>, local_account 2 ''ana'' ''hash''],
     db_workspaces = [\<lparr>wk_id = 10, wk_name = ''main''\<rparr>, \<lparr>wk_id = 11, wk_name = ''edge''\<rparr>],
     db_roles = [\<lparr>gr_user = 2, gr_workspace = 10, gr_role = Editor\<rparr>],
     db_groups = [], db_audit = [], db_sign_up_open = False,
     db_contents = (\<lambda>_. \<lparr>cn_services = 0, cn_routes = 0, cn_consumers = 0, cn_policies = 0, cn_certificates = 0\<rparr>),
     db_config_version = 1\<rparr>"

definition shop_db :: cdb where
  "shop_db = \<lparr>cd_db = shop_accounts, cd_services = [], cd_routes = [], cd_policies = [], cd_consumers = []\<rparr>"

definition cart_service :: service_input where
  "cart_service = \<lparr>si_name = ''cart'', si_protocol = ''http'', si_host = ''cart.svc'', si_port = 8080,
     si_connect_timeout_ms = None, si_read_timeout_ms = None, si_tls = None, si_updated_at = None\<rparr>"

definition cart_route :: route_input where
  "cart_route = \<lparr>ri_name = ''cart'', ri_service = ''cart'', ri_hosts = [''Shop.example.com''],
     ri_paths = [\<lparr>pa_kind = ''prefix'', pa_value = ''/cart%2f/''\<rparr>], ri_methods = [''get''], ri_headers = None,
     ri_strip_path = None, ri_priority = 0, ri_updated_at = None, ri_service_updated_at = None\<rparr>"

definition ana_adds :: "(int \<times> console_operation) list" where
  "ana_adds = [(1, Configure (CreateService 2 10 cart_service 100)), (2, Configure (CreateRoute 2 10 cart_route 200))]"

definition state_after :: "(write_error option \<times> cdb) run \<Rightarrow> cdb" where
  "state_after x = (case x of Returns p \<Rightarrow> snd p | Panics \<Rightarrow> shop_db)"

definition shop_with_service :: cdb where
  "shop_with_service = state_after (configure shop_env 1 (CreateService 2 10 cart_service 100) shop_db)"

definition shop_with_route :: cdb where
  "shop_with_route = state_after (configure shop_env 2 (CreateRoute 2 10 cart_route 200) shop_with_service)"

lemma shop_db_ok: "config_ok build shop_db"
  by (simp add: config_ok_def shop_db_def hosts_apart_def)

lemma answered_state: "config_texts op \<Longrightarrow> \<exists>e. configure env now op s = Returns (e, state_after (configure env now op s))"
  using configure_total [of op env now s] by (auto simp: state_after_def)

lemma cart_texts: "config_texts (CreateRoute 2 10 cart_route 200)"
  by code_simp

lemma ana_history: "console_history shop_env shop_db ana_adds shop_with_route"
proof -
  obtain e1 where 1: "configure shop_env 1 (CreateService 2 10 cart_service 100) shop_db = Returns (e1, shop_with_service)"
    using answered_state [of "CreateService 2 10 cart_service 100"] unfolding shop_with_service_def by (metis config_texts.simps(3))
  obtain e2 where 2: "configure shop_env 2 (CreateRoute 2 10 cart_route 200) shop_with_service = Returns (e2, shop_with_route)"
    using answered_state [OF cart_texts] unfolding shop_with_route_def by blast
  have "console_history shop_env shop_db ([] @ [(1, Configure (CreateService 2 10 cart_service 100))]) shop_with_service"
    by (rule console_history.answered [OF console_history.started]) (simp_all add: 1 del: configure.simps)
  from console_history.answered [OF this, of "Configure (CreateRoute 2 10 cart_route 200)" 2 e2 shop_with_route] 2 cart_texts
  show ?thesis by (simp add: ana_adds_def del: configure.simps config_texts.simps)
qed

definition cart_row :: service_row where
  "cart_row = \<lparr>sv_name = ''cart'', sv_protocol = Http, sv_host = ''cart.svc'', sv_port = 8080,
     sv_connect_timeout_ms = None, sv_read_timeout_ms = None, sv_tls = tls_default\<rparr>"

definition cart_route_row :: route_row where
  "cart_route_row = \<lparr>ro_name = ''cart'', ro_service = ''cart'', ro_hosts = [''shop.example.com''],
     ro_paths = [\<lparr>pa_kind = ''prefix'', pa_value = ''/cart%2F''\<rparr>], ro_methods = [''GET''], ro_headers = [],
     ro_strip_path = False, ro_priority = 0\<rparr>"

lemma cart_checked: "service_checked (ce_pem shop_env) cart_service Creating = Ok (cart_row, None)"
  by code_simp

lemma cart_route_checked:
  "route_checked (ce_build shop_env) (ce_show_error shop_env) cart_route Creating = Returns (Ok (cart_route_row, None))"
  by code_simp

abbreviation ana :: user where "ana \<equiv> actor_of (local_account 2 ''ana'' ''hash'')"

lemma ana_decides: "decide_config shop_db 2 10 WriteAction = Ok ana"
  by code_simp

lemma decide_config_frame: "frame s s' \<Longrightarrow> decide_config s' c w act = decide_config s c w act"
proof -
  assume "frame s s'"
  then have same: "db_users (cd_db s') = db_users (cd_db s)" "db_workspaces (cd_db s') = db_workspaces (cd_db s)"
    "db_roles (cd_db s') = db_roles (cd_db s)" "db_groups (cd_db s') = db_groups (cd_db s)" by (auto simp: frame_def)
  show ?thesis unfolding decide_config_def rights_def find_account_def same ..
qed

lemma shop_db_tables: "cd_services shop_db = []" "cd_routes shop_db = []"
  by (simp_all add: shop_db_def)

lemma shop_service_tables:
  "cd_services shop_with_service = [\<lparr>sd_id = 100, sd_workspace = 10, sd_row = cart_row, sd_updated = 1\<rparr>]"
  "cd_routes shop_with_service = []" "frame shop_db shop_with_service"
  by (simp_all add: shop_with_service_def state_after_def cart_checked try_create_service_def ana_decides written_def
      find_service_def shop_db_tables)

lemma shop_route_tables:
  "cd_services shop_with_route = [\<lparr>sd_id = 100, sd_workspace = 10, sd_row = cart_row, sd_updated = 1\<rparr>]"
  "cd_routes shop_with_route = [stored_route 200 10 100 2 cart_route_row]" "frame shop_with_service shop_with_route"
proof -
  have decides: "decide_config shop_with_service 2 10 WriteAction = Ok ana"
    using decide_config_frame [OF shop_service_tables(3)] ana_decides by simp
  have fits: "strip_path_fits cart_route_row = Ok ()" "may_route shop_with_service ana 10 (ro_hosts cart_route_row) = Ok ()"
    by (simp_all add: strip_path_fits_def cart_route_row_def may_route_def may_claim_wildcard_def strip_prefix_def taken_hosts_def
        shop_service_tables)
  have found: "find_service shop_with_service 10 (ro_service cart_route_row) = Some \<lparr>sd_id = 100, sd_workspace = 10, sd_row = cart_row, sd_updated = 1\<rparr>"
    by (simp add: find_service_def shop_service_tables cart_route_row_def cart_row_def)
  show "cd_services shop_with_route = [\<lparr>sd_id = 100, sd_workspace = 10, sd_row = cart_row, sd_updated = 1\<rparr>]"
    "cd_routes shop_with_route = [stored_route 200 10 100 2 cart_route_row]" "frame shop_with_service shop_with_route"
    by (simp_all add: shop_with_route_def state_after_def cart_route_checked try_write_route_def decides fits found written_def
        route_named_def shop_service_tables)
qed

section \<open>Every stored route is served\<close>

lemma snapshot_services_has:
  "v \<in> set (cd_services s) \<Longrightarrow> workspace_named s (sd_workspace v) = Some w \<Longrightarrow> snapshot_service w (sd_row v) \<in> set (snapshot_services s)"
  by (auto simp: snapshot_services_def List.map_filter_def intro!: image_eqI [of _ _ v])

lemma rows_have_services:
  assumes "config_ok build s" "list_all2 shows_route (joined_routes s) rows" "r \<in> set rows"
  shows "route_refusal r = None \<and>
    (sn_services snap = snapshot_services s \<longrightarrow> (sr_workspace r, sr_service r) \<in> fst ` set (service_map_of snap))"
proof -
  from assms(2,3) obtain e where e: "e \<in> set (joined_routes s)" "shows_route e r"
    by (metis in_set_conv_nth list_all2_conv_all_nth nth_mem)
  then obtain x where x: "x \<in> set (cd_routes s)" "e = joined s x" using mset_eq_setD [OF joined_routes_all [OF assms(1)]] by auto
  from joined_of [OF assms(1) x(1)] obtain v w where v: "v \<in> set (cd_services s)" "service_of_route s x = Some v"
      "sd_workspace v = rd_workspace x" "workspace_named s (rd_workspace x) = Some w" by blast
  with e(2) x(2) have r: "route_refusal r = None" "sr_workspace r = w" "sr_service r = sv_name (sd_row v)"
    by (simp_all add: shows_route_def joined_def)
  moreover have "snapshot_service w (sd_row v) \<in> set (snapshot_services s)" using snapshot_services_has v by simp
  ultimately show ?thesis by (force simp: service_map_of_def snapshot_service_def image_image)
qed

text \<open>C20: Through any sequence of the console's writes, the snapshot of the tables reads without an
  error, whatever was read before it; it holds each stored route once, under its workspace's name, and
  the compiler serves all of them: none is refused and none is without its service.\<close>

theorem stored_routes_served:
  assumes "console_history env s es s'" "config_ok (ce_build env) s" "cache_ok (ce_build env) (ce_show_error env) cache"
  shows "\<exists>rows cache'. snapshot_routes (ce_build env) (ce_show_error env) s' cache = (Ok rows, cache') \<and>
    cache_ok (ce_build env) (ce_show_error env) cache' \<and>
    mset (map (\<lambda>r. (Some (sr_workspace r), sr_name r, sr_hosts r)) rows) =
      mset (map (\<lambda>r. (workspace_named s' (rd_workspace r), rd_name r, rd_hosts r)) (cd_routes s')) \<and>
    (\<forall>snap. sn_services snap = snapshot_services s' \<and> sn_routes snap = rows \<longrightarrow> mset (served_routes snap) = mset rows)"
proof -
  have ok: "config_ok (ce_build env) s'" by (rule history_config_ok [OF assms(1,2)])
  have "\<forall>(w, r, v) \<in> set (joined_routes s'). columns_ok (ce_build env) r \<and> rd_workspace r = sd_workspace v"
    using config_ok_parts(6) [OF ok] joined_of [OF ok] mset_eq_setD [OF joined_routes_all [OF ok]] by (fastforce simp: joined_def)
  from snapshot_list_served [OF assms(3) this] obtain rows cache' where snap: "snapshot_routes (ce_build env) (ce_show_error env) s' cache = (Ok rows, cache')"
      "cache_ok (ce_build env) (ce_show_error env) cache'" and shown: "list_all2 shows_route (joined_routes s') rows"
    by (auto simp: snapshot_routes_def)
  have m: "map (\<lambda>r. (Some (sr_workspace r), sr_name r, sr_hosts r)) rows = map (\<lambda>(w, r, v). (Some w, rd_name r, rd_hosts r)) (joined_routes s')"
    using shown by (induction rule: list_all2_induct) (auto simp: shows_route_def)
  have j: "mset (map (\<lambda>(w, r, v). (Some w, rd_name r, rd_hosts r)) (joined_routes s')) =
      mset (map (\<lambda>r. (workspace_named s' (rd_workspace r), rd_name r, rd_hosts r)) (cd_routes s'))"
    using joined_of [OF ok] by (fastforce simp: joined_routes_all [OF ok] joined_def image_mset.compositionality comp_def intro!: image_mset_cong)
  have "mset (served_routes snap) = mset rows"
    if "sn_services snap = snapshot_services s'" "sn_routes snap = rows" for snap
    using that rows_have_services [OF ok shown] by (simp add: served_routes_def)
  with snap j [folded m] show ?thesis by blast
qed

text \<open>Ana's cart route, with its path uppercased and its trailing slash dropped.\<close>

theorem stored_routes_served_witness:
  "\<exists>rows. fst (snapshot_routes (ce_build shop_env) (ce_show_error shop_env) shop_with_route Map.empty) = Ok rows \<and>
     map sr_hosts rows = [[''shop.example.com'']]"
proof -
  have cache: "cache_ok (ce_build shop_env) (ce_show_error shop_env) Map.empty" by (simp add: cache_ok_def)
  from stored_routes_served [OF ana_history shop_db_ok cache] obtain rows cache'
    where rows: "snapshot_routes (ce_build shop_env) (ce_show_error shop_env) shop_with_route Map.empty = (Ok rows, cache')"
      and same: "mset (map (\<lambda>r. (Some (sr_workspace r), sr_name r, sr_hosts r)) rows) =
        mset (map (\<lambda>r. (workspace_named shop_with_route (rd_workspace r), rd_name r, rd_hosts r)) (cd_routes shop_with_route))"
    by blast
  have "map (\<lambda>r. (Some (sr_workspace r), sr_name r, sr_hosts r)) rows =
      [(workspace_named shop_with_route 10, ''cart'', [''shop.example.com''])]"
    using same unfolding shop_route_tables by (simp add: cart_route_row_def mset_single_iff del: mset_map)
  then show ?thesis using rows by (cases rows) auto
qed

section \<open>Hosts\<close>

text \<open>C21: Through any sequence of the console's writes, two routes that name hosts and are of different
  workspaces never both admit a request's host, not even through wildcards: the traffic of a host is one
  workspace's.\<close>

theorem hosts_of_one_workspace:
  assumes "console_history env s es s'" "config_ok (ce_build env) s" "r \<in> set (cd_routes s')" "r' \<in> set (cd_routes s')"
    "p \<in> set (rd_hosts r)" "p' \<in> set (rd_hosts r')" "host_matches p host" "host_matches p' host"
  shows "rd_workspace r = rd_workspace r'"
proof (rule ccontr)
  assume "rd_workspace r \<noteq> rd_workspace r'"
  with config_ok_parts(7) [OF history_config_ok [OF assms(1,2)]] assms(3-6) have "\<not> hosts_overlap p p'"
    by (auto simp: hosts_apart_def)
  with matches_comparable [OF assms(7,8)] show False by (auto simp: hosts_overlap_def)
qed

theorem hosts_of_one_workspace_witness:
  "rd_workspace (stored_route 200 10 100 2 cart_route_row) = (10 :: uuid) \<and> host_matches ''shop.example.com'' ''SHOP.example.com''"
proof -
  let ?r = "stored_route 200 10 100 2 cart_route_row"
  have m: "host_matches ''shop.example.com'' ''SHOP.example.com''" by code_simp
  have r: "?r \<in> set (cd_routes shop_with_route)" "''shop.example.com'' \<in> set (rd_hosts ?r)"
    by (simp_all add: shop_route_tables cart_route_row_def)
  from hosts_of_one_workspace [OF ana_history shop_db_ok r(1) r(1) r(2) r(2) m m] m show ?thesis by simp
qed

section \<open>Overwriting\<close>

lemma console_rows:
  assumes "console env now op s = Returns (e, s')" "config_ok (ce_build env) s" "console_texts op"
  shows "v \<in> set (cd_services s') \<Longrightarrow> v \<in> set (cd_services s) \<or> sd_updated v = now"
    "r \<in> set (cd_routes s') \<Longrightarrow> r \<in> set (cd_routes s) \<or> rd_updated r = now"
proof -
  have "s' = s \<or> (\<exists>act w. changes (ce_build env) now act w s s') \<or> cd_services s' = cd_services s \<and> cd_routes s' = cd_routes s"
  proof (cases op)
    case (Configure x)
    with assms configure_follows [of env now x s e s'] have "as_asked env now x s e s'" by simp
    then show ?thesis by (auto simp: as_asked_def)
  next
    case (Police x)
    with assms(1) police_follows [of "ce_show_time env" now x s e s'] show ?thesis
      by (auto simp: policy_frame_def elim: policy_change.cases)
  next
    case (Govern x)
    with assms(1) show ?thesis by (auto split: prod.splits)
  qed
  then show "v \<in> set (cd_services s') \<Longrightarrow> v \<in> set (cd_services s) \<or> sd_updated v = now"
    "r \<in> set (cd_routes s') \<Longrightarrow> r \<in> set (cd_routes s) \<or> rd_updated r = now"
    using changes_rows by metis+
qed

lemma history_rows:
  assumes "console_history env s es s'" "config_ok (ce_build env) s" "\<forall>e \<in> set es. t < fst e"
  shows "(\<forall>v \<in> set (cd_services s'). sd_updated v \<le> t \<longrightarrow> v \<in> set (cd_services s)) \<and>
    (\<forall>r \<in> set (cd_routes s'). rd_updated r \<le> t \<longrightarrow> r \<in> set (cd_routes s))"
  using assms
proof (induction rule: console_history.induct)
  case (answered s es s' op now e s'')
  have "config_ok (ce_build env) s'" by (rule history_config_ok [OF answered.hyps(1) answered.prems(1)])
  from console_rows [OF answered.hyps(3) this answered.hyps(2)] answered.IH answered.prems show ?case by force
qed simp

lemma route_finished_seen: "route_finished input Replacing n svc hosts paths = Ok (r, seen) \<Longrightarrow> seen = ri_updated_at input"
  by (cases "ri_updated_at input") (auto simp: route_finished_def Let_def split: sum.splits if_split_asm)

lemma replace_route_seen:
  assumes "configure env now (ReplaceRoute c w current input) s = Returns (None, s')" "s' \<noteq> s"
  shows "\<exists>r v. find_route s w current = Some (r, v) \<and> Some (ce_show_time env (rd_updated r)) = ri_updated_at input"
proof -
  from assms obtain row t p r where a: "route_checked (ce_build env) (ce_show_error env) input Replacing = Returns (Ok (row, Some t))"
      "rp_current p = current" "rp_seen p = t" "try_write_route (ce_show_time env) now c w (Some p) row 0 s = (r, s')"
    by (rule replace_route_asked)
  from a(4) assms(2) obtain old before where e: "existing_route (ce_show_time env) s w p = Ok (old, before)"
    by (auto simp: try_write_route_def Let_def split: sum.splits)
  have "ri_updated_at input = Some t" using route_checked_Ok [OF a(1)] route_finished_seen by metis
  moreover obtain v where "find_route s w current = Some (old, v)" "ce_show_time env (rd_updated old) = t"
    using existing_route_Ok [OF e] a(2,3) by auto
  ultimately show ?thesis by auto
qed

text \<open>C22: No update is lost. A caller who read a route, and whose replacement of it is then written after
  any writes of others in between, overwrote exactly the row that was read: had anyone changed it since,
  the replacement would have been refused. (Times are distinct texts, and the later writes are later.)\<close>

theorem no_lost_update:
  assumes "config_ok (ce_build env) s" "find_route s w name = Some (r, v)" "console_history env s es s'"
    "\<forall>e \<in> set es. rd_updated r < fst e" "inj (ce_show_time env)" "ri_updated_at input = Some (ce_show_time env (rd_updated r))"
    "configure env now (ReplaceRoute c w name input) s' = Returns (None, s'')" "s'' \<noteq> s'"
  shows "\<exists>v'. find_route s' w name = Some (r, v')"
proof -
  from replace_route_seen [OF assms(7,8)] assms(5,6) obtain x v' where x: "find_route s' w name = Some (x, v')" "rd_updated x = rd_updated r"
    by (auto dest: injD)
  have "x \<in> set (cd_routes s)"
    using history_rows [OF assms(3,1,4)] find_route_Some(1) [OF x(1)] x(2) by simp
  moreover have "r \<in> set (cd_routes s)" "(rd_workspace x, rd_name x) = (rd_workspace r, rd_name r)"
    using find_route_Some [OF assms(2)] find_route_Some [OF x(1)] by simp_all
  ultimately have "x = r" using by_id [OF config_ok_parts(4) [OF assms(1)], of x r] by simp
  with x(1) show ?thesis by blast
qed

text \<open>Ana raises the priority of the cart route she created at time 2.\<close>

definition raised_route :: route_input where
  "raised_route = cart_route\<lparr>ri_priority := 5, ri_updated_at := Some (clock_text 2)\<rparr>"

lemma raised_checked: "route_checked (ce_build shop_env) (ce_show_error shop_env) raised_route Replacing =
    Returns (Ok (cart_route_row\<lparr>ro_priority := 5\<rparr>, Some (clock_text 2)))"
  by code_simp

abbreviation cart_record :: service_record where
  "cart_record \<equiv> \<lparr>sd_id = 100, sd_workspace = 10, sd_row = cart_row, sd_updated = 1\<rparr>"

lemma cart_found: "find_route shop_with_route 10 ''cart'' = Some (stored_route 200 10 100 2 cart_route_row, cart_record)"
  "find_service shop_with_route 10 ''cart'' = Some cart_record"
  by (simp_all add: find_route_def find_service_def service_of_route_def shop_route_tables stored_route_def cart_route_row_def cart_row_def)

lemma raised_written:
  "\<exists>s''. configure shop_env 3 (ReplaceRoute 2 10 ''cart'' raised_route) shop_with_route = Returns (None, s'') \<and> s'' \<noteq> shop_with_route"
proof -
  have decides: "decide_config shop_with_route 2 10 WriteAction = Ok ana"
    using decide_config_frame [OF shop_route_tables(3)] decide_config_frame [OF shop_service_tables(3)] ana_decides by simp
  have taken: "taken_hosts shop_with_route 10 = []" by (simp add: taken_hosts_def shop_route_tables)
  have version: "config_audit a b k i w x y (bumped t) \<noteq> u" if "cd_db t = cd_db u" for a b k i w x y t u
  proof
    assume "config_audit a b k i w x y (bumped t) = u"
    from arg_cong [OF this, of "\<lambda>z. db_config_version (cd_db z)"] that show False
      by (simp add: config_audit_def bumped_def audit_def)
  qed
  let ?p = "\<lparr>rp_current = ''cart'', rp_seen = clock_text 2, rp_service_seen = None, rp_kept = \<lparr>kr_headers = True, kr_strip_path = True\<rparr>\<rparr>"
    and ?row = "cart_route_row\<lparr>ro_priority := 5\<rparr>"
  have "route_from (stored_route 200 10 100 2 cart_route_row) cart_record = Some cart_route_row"
    by (simp add: route_from_stored) (simp add: cart_route_row_def cart_row_def)
  then have existing: "existing_route clock_text shop_with_route 10 ?p = Ok (stored_route 200 10 100 2 cart_route_row, cart_route_row)"
    by (simp add: existing_route_def cart_found) (simp add: stored_route_def)
  have kept: "kept_route cart_route_row \<lparr>kr_headers = True, kr_strip_path = True\<rparr> ?row = ?row"
    by (simp add: kept_route_def cart_route_row_def)
  have fits: "strip_path_fits ?row = Ok ()" "may_route shop_with_route ana 10 (ro_hosts ?row) = Ok ()"
      "find_service shop_with_route 10 (ro_service ?row) = Some cart_record" "ro_name ?row = ro_name cart_route_row" "cart_route_row \<noteq> ?row"
    using cart_found(2) by (simp_all add: strip_path_fits_def cart_route_row_def may_route_def may_claim_wildcard_def strip_prefix_def taken)
  have replacing: "ce_show_time shop_env = clock_text" "kept_of raised_route = \<lparr>kr_headers = True, kr_strip_path = True\<rparr>"
      "ri_service_updated_at raised_route = None"
    by (simp_all add: shop_env_def kept_of_def raised_route_def cart_route_def)
  have named: "refuse_name ''route'' ''cart'' = None" by code_simp
  show ?thesis
    by (simp add: raised_checked unless_refused_def named replacing try_write_route_def decides existing kept fits fits(2,3) [simplified] written_def version Let_def)
qed

theorem no_lost_update_witness:
  "\<exists>s'' v'. configure shop_env 3 (ReplaceRoute 2 10 ''cart'' raised_route) shop_with_route = Returns (None, s'') \<and> s'' \<noteq> shop_with_route \<and>
     find_route shop_with_route 10 ''cart'' = Some (stored_route 200 10 100 2 cart_route_row, v')"
proof -
  obtain s'' where s'': "configure shop_env 3 (ReplaceRoute 2 10 ''cart'' raised_route) shop_with_route = Returns (None, s'')"
    "s'' \<noteq> shop_with_route" using raised_written by blast
  have ok: "config_ok (ce_build shop_env) shop_with_route" by (rule history_config_ok [OF ana_history shop_db_ok])
  have t: "ri_updated_at raised_route = Some (ce_show_time shop_env (rd_updated (stored_route 200 10 100 2 cart_route_row)))"
    "inj (ce_show_time shop_env)" using inj_tally by (simp_all add: raised_route_def shop_env_def stored_route_def)
  from no_lost_update [OF ok cart_found(1) console_history.started _ t(2,1) s''] s'' show ?thesis by auto
qed

section \<open>Who changes what\<close>

text \<open>Whose request an operation is, for which workspace, and the role it needs.\<close>

fun asked_by :: "console_operation \<Rightarrow> (uuid \<times> uuid \<times> role) option" where
  "asked_by (Configure x) = Some (config_caller x, config_workspace x, needs (config_action x))"
| "asked_by (Police x) = Some (police_caller x, police_workspace x, Editor)"
| "asked_by (Govern _) = None"

definition all_rows :: "cdb \<Rightarrow> uuid \<Rightarrow> (service_record list \<times> route_record list) \<times> policy_record list" where
  "all_rows s w = (rows_of s w, policies_in s w)"

lemma console_rows_of:
  assumes "console env now op s = Returns (e, s')" "config_ok (ce_build env) s" "policies_ok s" "console_texts op" "all_rows s' w \<noteq> all_rows s w"
  shows "\<exists>c r. asked_by op = Some (c, w, r) \<and> holds (cd_db s) c w r"
proof (cases op)
  case (Configure x)
  with assms configure_follows [of env now x s e s'] have f: "as_asked env now x s e s'" by simp
  then have c: "changes (ce_build env) now (config_action x) (config_workspace x) s s'" using assms(5) by (auto simp: as_asked_def)
  have "policies_in s' w = policies_in s w" using changes_frame [OF c] by (simp add: policies_in_def frame_def)
  then have "config_workspace x = w" using changes_rows_of [OF c assms(2), of w] assms(5) by (auto simp: all_rows_def)
  with f assms(5) Configure show ?thesis by (auto simp: as_asked_def)
next
  case (Police x)
  with assms police_follows [of "ce_show_time env" now x s e s'] have h: "holds (cd_db s) (police_caller x) (police_workspace x) Editor"
    and c: "policy_change now (police_workspace x) s s'" by auto
  from c have "rows_of s' w = rows_of s w" by (auto simp: rows_of_def policy_frame_def elim: policy_change.cases)
  then have "police_workspace x = w" using policy_change_elsewhere [OF c assms(2,3), of w] assms(5) by (auto simp: all_rows_def)
  with h Police show ?thesis by simp
next
  case (Govern x)
  with assms(1,5) show ?thesis by (auto simp: all_rows_def rows_of_def policies_in_def split: prod.splits)
qed


lemma shop_db_policies_ok: "policies_ok shop_db"
  by (simp add: policies_ok_def shop_db_def)


section \<open>Paths\<close>

text \<open>C24: A prefix or exact path of an accepted route is its own normal form, so a request whose path
  normalises to it is compared with exactly the path that was written; only the plus sign that a
  hexadecimal number may start with is an exception (and no request's path normalises to such a path).\<close>

theorem accepted_paths_normal:
  assumes "route_checked build se input kind = Returns (Ok (r, seen))"
    "\<forall>p \<in> set (ri_paths input). valid_utf8 (pa_value p) \<and> \<not> plus_escape (pa_value p)"
    "p \<in> set (ro_paths r)" "pa_kind p \<noteq> ''regex''"
  shows "normalize_path (pa_value p) = Returns (Ok (pa_value p))"
proof -
  from route_checked_Ok [OF assms(1)] obtain n svc hosts paths
    where ps: "paths_loop build se 0 (ri_paths input) [] = Returns (Ok paths)" and f: "route_finished input kind n svc hosts paths = Ok (r, seen)" .
  from paths_loop_normal [OF ps assms(2)] route_finished_ok(2) [OF f] assms(3,4) show ?thesis
    by (auto simp: list_all_iff path_normal_def normal_def)
qed

theorem accepted_paths_normal_witness:
  "normalize_path ''/cart%2F'' = Returns (Ok ''/cart%2F'')"
proof -
  have texts: "\<forall>p \<in> set (ri_paths cart_route). valid_utf8 (pa_value p) \<and> \<not> plus_escape (pa_value p)"
    by (simp add: cart_route_def plus_escape_def) code_simp
  from accepted_paths_normal [OF cart_route_checked texts, of "\<lparr>pa_kind = ''prefix'', pa_value = ''/cart%2F''\<rparr>"]
  show ?thesis by (simp add: cart_route_row_def)
qed

text \<open>The exception: the console accepts an exact path whose escape is \<open>%+f\<close>, and no request ever
  normalises to it, so the route is stored, compiled and never matched.\<close>

theorem plus_escape_accepted_unmatched:
  "plain_path ''exact'' ''/%+f'' at = Returns (Ok ''/%+f'') \<and> normalize_path raw \<noteq> Returns (Ok ''/%+f'')"
proof
  have "path_refusal ''/%+f'' = None" "uppercase_escapes ''/%+f'' = Returns ''/%+f''" by code_simp+
  then show "plain_path ''exact'' ''/%+f'' at = Returns (Ok ''/%+f'')" by (simp add: plain_path_def)
  have "\<not> canonical ''/%+f''" by code_simp
  then show "normalize_path raw \<noteq> Returns (Ok ''/%+f'')" using normalized_shape by blast
qed

end
