(* ===== verification/Policy_Safe.thy ===== *)
theory Policy_Safe
  imports Policy_Forms Headers
begin

text \<open>
  What an accepted policy cannot do on the data plane: the names and the values its edits have,
  and what edits with such names leave of a head; the entries of an origin list.
\<close>

section \<open>The names and values of accepted edits\<close>

definition clean_name :: "string list \<Rightarrow> string \<Rightarrow> bool" where
  "clean_name refused n \<longleftrightarrow> n \<noteq> [] \<and> length n \<le> max_edit_name_chars \<and> list_all is_token n \<and> to_ascii_lowercase n = n \<and> n \<notin> set refused"

definition clean_value :: "string \<Rightarrow> bool" where
  "clean_value v \<longleftrightarrow> list_all value_byte v"

definition all_names :: "header_edits \<Rightarrow> string set" where
  "all_names e = set (he_remove e) \<union> fst ` set (he_rename e) \<union> snd ` set (he_rename e) \<union>
     fst ` set (he_replace e) \<union> fst ` set (he_add e) \<union> fst ` set (he_append e)"

definition all_values :: "header_edits \<Rightarrow> string set" where
  "all_values e = snd ` set (he_replace e @ he_add e @ he_append e)"

lemma named:
  "x \<in> set (he_remove e) \<Longrightarrow> x \<in> all_names e" "(x, y) \<in> set (he_rename e) \<Longrightarrow> x \<in> all_names e"
  "(x, y) \<in> set (he_rename e) \<Longrightarrow> y \<in> all_names e" "(x, y) \<in> set (he_replace e) \<Longrightarrow> x \<in> all_names e"
  "(x, y) \<in> set (he_add e) \<Longrightarrow> x \<in> all_names e" "(x, y) \<in> set (he_append e) \<Longrightarrow> x \<in> all_names e"
  using image_eqI [of x fst "(x, y)"] image_eqI [of y snd "(x, y)"] unfolding all_names_def by simp_all

lemma edited_names_all: "snd ` set (concat (map (\<lambda>(op, names). map (Pair op) names) (edited_names e))) = all_names e"
proof -
  have "set (concat (map (\<lambda>(a, b). [a, b]) ps)) = fst ` set ps \<union> snd ` set ps" for ps :: "(string \<times> string) list"
    by (induction ps) auto
  then show ?thesis unfolding edited_names_def all_names_def by (simp add: image_Un image_image Un_assoc del: set_concat)
qed

lemma edit_name_clean: "edit_name section True refused op n = Ok n' \<Longrightarrow> clean_name refused n'"
  by (auto simp: edit_name_def clean_name_def Let_def chars_of_ascii list_all_iff token_ascii token_lower comp_def split: if_split_asm)

lemma edit_value_clean: "edit_value section True op v = Ok v' \<Longrightarrow> clean_value v'"
  by (auto simp: edit_value_def clean_value_def split: if_split_asm)

lemma removed_clean: "removed_list section True refused v = Ok ns \<Longrightarrow> n \<in> set ns \<Longrightarrow> clean_name refused n"
  by (auto simp: removed_list_def dest!: try_all_each edit_name_clean)

lemma renamed_clean:
  assumes "renamed_list section True refused v = Ok ps" "(a, b) \<in> set ps"
  shows "clean_name refused a \<and> clean_name refused b"
proof -
  obtain x where "renamed_pair section True refused x = Ok (a, b)"
    using assms by (auto simp: renamed_list_def dest!: try_all_each)
  then show ?thesis by (cases x) (auto dest: edit_name_clean)
qed

lemma written_clean:
  assumes "written_list section True refused op v = Ok ps" "(n, w) \<in> set ps"
  shows "clean_name refused n \<and> clean_value w"
proof -
  obtain x where "written_pair section True refused op x = Ok (n, w)"
    using assms by (auto simp: written_list_def dest!: try_all_each)
  then show ?thesis by (cases x) (auto dest: edit_name_clean edit_value_clean)
qed

lemma edits_clean:
  assumes "edits section config True refused = Ok e"
  shows "\<forall>n \<in> all_names e. clean_name refused n" "\<forall>v \<in> all_values e. clean_value v"
proof -
  from edits_Ok [OF assms] obtain v1 v2 v3 v4 v5 where
    l: "removed_list section True refused v1 = Ok (he_remove e)" "renamed_list section True refused v2 = Ok (he_rename e)"
      "written_list section True refused ''replace'' v3 = Ok (he_replace e)"
      "written_list section True refused ''add'' v4 = Ok (he_add e)"
      "written_list section True refused ''append'' v5 = Ok (he_append e)" by blast
  show "\<forall>n \<in> all_names e. clean_name refused n" unfolding all_names_def
    using removed_clean [OF l(1)] renamed_clean [OF l(2)] written_clean [OF l(3)] written_clean [OF l(4)] written_clean [OF l(5)]
    by auto
  show "\<forall>v \<in> all_values e. clean_value v" unfolding all_values_def
    using written_clean [OF l(3)] written_clean [OF l(4)] written_clean [OF l(5)] by auto
qed

lemma clean_name_apart:
  assumes "clean_name refused n" "r \<in> set refused" "to_ascii_lowercase r = r"
  shows "\<not> eq_ignore_ascii_case n r"
  using assms by (auto simp: clean_name_def eq_ignore_ascii_case_def)

section \<open>What edits leave of a head\<close>

lemma fold_keeps: "(\<And>x f. x \<in> set xs \<Longrightarrow> g x f n = f n) \<Longrightarrow> fold g xs f n = f n"
  by (induction xs arbitrary: f) auto

lemma edit_view_spares:
  assumes "\<forall>x \<in> all_names e. \<not> eq_ignore_ascii_case n x"
  shows "edit_view e f n = f n"
proof -
  have spared: "x \<in> set (he_remove e) \<Longrightarrow> \<not> eq_ignore_ascii_case n x"
    "(x, y) \<in> set (he_rename e) \<Longrightarrow> \<not> eq_ignore_ascii_case n x" "(x, y) \<in> set (he_rename e) \<Longrightarrow> \<not> eq_ignore_ascii_case n y"
    "(x, y) \<in> set (he_replace e) \<Longrightarrow> \<not> eq_ignore_ascii_case n x" "(x, y) \<in> set (he_add e) \<Longrightarrow> \<not> eq_ignore_ascii_case n x"
    "(x, y) \<in> set (he_append e) \<Longrightarrow> \<not> eq_ignore_ascii_case n x" for x y
    using assms named by blast+
  have "fold view_del (he_remove e) f n = f n" for f by (rule fold_keeps) (simp add: view_del_def spared(1))
  moreover have "fold view_rename (he_rename e) f n = f n" for f
    by (rule fold_keeps) (auto simp: view_rename_def spared(2,3) split: prod.splits)
  moreover have "fold (\<lambda>(n, v) f. if f n \<noteq> [] then view_set n v f else f) (he_replace e) f n = f n" for f
    by (rule fold_keeps) (auto simp: view_set_def spared(4))
  moreover have "fold (\<lambda>(n, v) f. if f n = [] then view_set n v f else f) (he_add e) f n = f n" for f
    by (rule fold_keeps) (auto simp: view_set_def spared(5))
  moreover have "fold (\<lambda>(n, v). view_append n v) (he_append e) f n = f n" for f
    by (rule fold_keeps) (auto simp: view_append_def spared(6))
  ultimately show ?thesis by (simp add: edit_view_def)
qed

text \<open>Every line afterwards was there before under some name, or is a value of the edits.\<close>

definition lines_in :: "string set \<Rightarrow> header_view \<Rightarrow> bool" where
  "lines_in A f \<longleftrightarrow> (\<forall>k. set (f k) \<subseteq> A)"

lemma lines_in_steps:
  "lines_in A f \<Longrightarrow> lines_in A (view_del n f)" "lines_in A f \<Longrightarrow> lines_in A (view_rename p f)"
  "lines_in A f \<Longrightarrow> v \<in> A \<Longrightarrow> lines_in A (view_set n v f)" "lines_in A f \<Longrightarrow> v \<in> A \<Longrightarrow> lines_in A (view_append n v f)"
  by (auto simp: lines_in_def view_del_def view_rename_def view_set_def view_append_def split: prod.splits)

lemma fold_lines:
  "(\<And>x f. x \<in> set xs \<Longrightarrow> lines_in A f \<Longrightarrow> lines_in A (g x f)) \<Longrightarrow> lines_in A f \<Longrightarrow> lines_in A (fold g xs f)"
  by (induction xs arbitrary: f) auto

lemma edit_view_lines:
  assumes "lines_in A f" "all_values e \<subseteq> A"
  shows "lines_in A (edit_view e f)"
proof -
  have vals: "(n, v) \<in> set (he_replace e) \<Longrightarrow> v \<in> A" "(n, v) \<in> set (he_add e) \<Longrightarrow> v \<in> A"
    "(n, v) \<in> set (he_append e) \<Longrightarrow> v \<in> A" for n v
    using assms(2) image_eqI [of v snd "(n, v)"] by (auto simp: all_values_def)
  show ?thesis unfolding edit_view_def
    by (intro fold_lines assms(1)) (auto intro!: lines_in_steps intro: vals)
qed

section \<open>The edits of an accepted policy\<close>

text \<open>The header edits of a transformer and the names it may not touch.\<close>

definition guarded :: "plugin \<Rightarrow> (header_edits \<times> string list) option" where
  "guarded p =
     (case p of
        RequestTransformer t \<Rightarrow> Some (rq_headers t, framing @ gateway_headers)
      | ResponseTransformer t \<Rightarrow> Some (rs_headers t, framing)
      | _ \<Rightarrow> None)"

lemma reserved_lower: "\<forall>r \<in> set (framing @ gateway_headers). to_ascii_lowercase r = r"
  by code_simp

lemma map_filter_Nil: "List.map_filter f xs = [] \<Longrightarrow> x \<in> set xs \<Longrightarrow> f x = None"
  by (induction xs) (auto simp: List.map_filter_simps split: option.split_asm)

lemma newly_reserved_Ok:
  assumes "newly_reserved (RequestTransformer t) = Ok ()" "n \<in> all_names (rq_headers t)"
  shows "\<not> eq_ignore_ascii_case groups_header n \<and> \<not> eq_ignore_ascii_case anonymous_header n"
proof -
  let ?one = "\<lambda>name. find (\<lambda>r. eq_ignore_ascii_case r name) [groups_header, anonymous_header]"
  let ?names = "concat (map (\<lambda>(op, names). map (Pair op) names) (edited_names (rq_headers t)))"
  obtain x where x: "x \<in> set ?names" "n = snd x" using assms(2) unfolding edited_names_all [symmetric] by (rule imageE)
  have none: "(case xs of [] \<Rightarrow> Ok () | (a, b) # _ \<Rightarrow> Err (f a b)) = Ok () \<Longrightarrow> xs = []"
    for xs :: "(string \<times> string) list" and f :: "string \<Rightarrow> string \<Rightarrow> field_error" by (cases xs) auto
  have "List.map_filter (\<lambda>(op, name). map_option (Pair op) (?one name)) ?names = []"
    by (rule none [OF assms(1) [unfolded newly_reserved_def plugin.case]])
  from map_filter_Nil [OF this x(1)] have "?one n = None" unfolding x(2) by (cases x) simp
  then show ?thesis unfolding find_None_iff by auto
qed

lemma parse_policy_transformers:
  "parse_policy kind config = Ok (RequestTransformer t) \<Longrightarrow> request_transformer config = Ok t"
  "parse_policy kind config = Ok (ResponseTransformer u) \<Longrightarrow> response_transformer config = Ok u"
  "parse_policy kind config = Ok (Cors c) \<Longrightarrow> cors config = Ok c"
proof -
  have Ok_map: "map_sum id f r = Ok p \<longleftrightarrow> (\<exists>q. r = Ok q \<and> p = f q)" for f :: "'x \<Rightarrow> plugin" and r :: "field_error + 'x" and p
    by (cases r) auto
  show "parse_policy kind config = Ok (RequestTransformer t) \<Longrightarrow> request_transformer config = Ok t"
    "parse_policy kind config = Ok (ResponseTransformer u) \<Longrightarrow> response_transformer config = Ok u"
    "parse_policy kind config = Ok (Cors c) \<Longrightarrow> cors config = Ok c"
    unfolding parse_policy_def Ok_map by (auto split: if_split_asm)
qed

lemma accepted_edits:
  assumes "parse_policy kind config = Ok p" "newly_reserved p = Ok ()" "guarded p = Some (e, reserved)"
  shows "\<forall>n \<in> all_names e. clean_name [] n \<and> (\<forall>r \<in> set reserved. \<not> eq_ignore_ascii_case n r)"
    "\<forall>v \<in> all_values e. clean_value v"
proof -
  have weaker: "clean_name refused n \<Longrightarrow> clean_name [] n" for refused n by (simp add: clean_name_def)
  consider t where "p = RequestTransformer t" | u where "p = ResponseTransformer u"
    using assms(3) by (cases p) (auto simp: guarded_def)
  then have "(\<forall>n \<in> all_names e. clean_name [] n \<and> (\<forall>r \<in> set reserved. \<not> eq_ignore_ascii_case n r)) \<and>
      (\<forall>v \<in> all_values e. clean_value v)"
  proof cases
    case (1 t)
    then have e: "e = rq_headers t" "reserved = framing @ gateway_headers" using assms(3) by (simp_all add: guarded_def)
    obtain c where "edits ''headers'' c True (framing @ [consumer_header]) = Ok e"
      using parse_policy_transformers(1) assms(1) 1 e by (force simp: request_transformer_def)
    note ok = edits_clean [OF this]
    have "\<not> eq_ignore_ascii_case n r" if "n \<in> all_names e" "r \<in> set reserved" for n r
      using that clean_name_apart [of "framing @ [consumer_header]" n r] ok(1) reserved_lower newly_reserved_Ok [of t n] assms(2) 1 e
      by (auto simp: gateway_headers_def eq_ignore_ascii_case_sym)
    then show ?thesis using ok weaker by blast
  next
    case (2 u)
    then have e: "e = rs_headers u" "reserved = framing" using assms(3) by (simp_all add: guarded_def)
    obtain c where "edits ''headers'' c True framing = Ok e"
      using parse_policy_transformers(2) assms(1) 2 e by (force simp: response_transformer_def)
    note ok = edits_clean [OF this]
    then show ?thesis using weaker clean_name_apart reserved_lower e(2) by (metis Un_iff set_append)
  qed
  then show "\<forall>n \<in> all_names e. clean_name [] n \<and> (\<forall>r \<in> set reserved. \<not> eq_ignore_ascii_case n r)"
    "\<forall>v \<in> all_values e. clean_value v" by blast+
qed

lemma clean_writable:
  assumes "\<forall>n \<in> all_names e. valid_name n" "\<forall>v \<in> all_values e. valid_value v"
  shows "writable valid_name valid_value e"
proof -
  have "(n, v) \<in> set (he_replace e @ he_add e @ he_append e) \<Longrightarrow> v \<in> all_values e" for n v
    using image_eqI [of v snd "(n, v)"] unfolding all_values_def by simp
  then show ?thesis using assms named [where e = e] by (auto simp: writable_def list_all_iff)
qed

section \<open>Allowed origins\<close>

lemma split_on_holds:
  assumes "c \<noteq> d" "c \<in> set s"
  shows "\<exists>w \<in> set (split_on d s). c \<in> set w"
  using assms(2)
proof (induction s)
  case (Cons a s)
  obtain w ws where "split_on d s = w # ws" by (cases "split_on d s") simp_all
  with Cons assms(1) show ?case by (cases "a = c"; cases "a = d") auto
qed simp

lemma labels_no_star:
  assumes "list_all host_label (split_on CHR ''.'' name)"
  shows "CHR ''*'' \<notin> set name"
proof -
  have "host_label w \<Longrightarrow> CHR ''*'' \<notin> set w" for w by (auto simp: host_label_def list_all_iff ascii_class_defs byte_def)
  then show ?thesis using assms split_on_holds [of "CHR ''*''" "CHR ''.''" name] unfolding list_all_iff by auto
qed

lemma port_no_star: "CHR ''*'' \<notin> set (port_text scheme port)"
  by (auto simp: port_text_def ascii_class_defs byte_def dest: show_nat_digits split: option.splits)

text \<open>A star is alone, or stands before a name with a dot in it.\<close>

lemma entry_shape:
  assumes "origin text = Ok u"
  shows "u = ''*'' \<or> (\<exists>scheme \<in> {''http'', ''https''}.
    (\<exists>tail. u = scheme @ ''://'' @ tail \<and> CHR ''*'' \<notin> set tail) \<or>
    (\<exists>name port. u = scheme @ ''://*.'' @ name @ port_text scheme port \<and> CHR ''*'' \<notin> set (name @ port_text scheme port) \<and> CHR ''.'' \<in> set name))"
proof (rule origin_Ok [OF assms])
  fix scheme host port
  assume sch: "scheme = ''http'' \<or> scheme = ''https''" and u: "u = scheme @ ''://'' @ host @ port_text scheme port"
    and name: "(case strip_prefix ''*.'' host of
        None \<Rightarrow> length host \<le> 253 \<and> list_all host_label (split_on CHR ''.'' host)
      | Some name \<Rightarrow> length name \<le> 253 \<and> list_all host_label (split_on CHR ''.'' name) \<and> CHR ''.'' \<in> set name)"
  show ?thesis
  proof (cases "strip_prefix ''*.'' host")
    case None
    then have "CHR ''*'' \<notin> set (host @ port_text scheme port)" using name labels_no_star port_no_star by auto
    then show ?thesis using sch u by blast
  next
    case (Some n)
    then have "host = ''*.'' @ n" by simp
    moreover have "CHR ''*'' \<notin> set (n @ port_text scheme port)" "CHR ''.'' \<in> set n"
      using name labels_no_star port_no_star unfolding Some by auto
    ultimately have "u = scheme @ ''://*.'' @ n @ port_text scheme port" using u by simp
    then show ?thesis using sch \<open>CHR ''*'' \<notin> set (n @ port_text scheme port)\<close> \<open>CHR ''.'' \<in> set n\<close> by blast
  qed
qed simp

lemma entry_matches:
  assumes "origin text = Ok u" "u \<noteq> ''*''" "origin_matches asked u"
  shows "\<exists>scheme \<in> {''http'', ''https''}. (\<exists>tail. asked = scheme @ ''://'' @ tail) \<and>
    (asked = u \<or> (\<exists>label name port. origin_label label \<and> CHR ''.'' \<in> set name \<and>
       u = scheme @ ''://*.'' @ name @ port_text scheme port \<and> asked = scheme @ ''://'' @ label @ ''.'' @ name @ port_text scheme port))"
proof -
  from entry_shape [OF assms(1)] assms(2) obtain scheme where sch: "scheme \<in> {''http'', ''https''}"
    and shape: "(\<exists>tail. u = scheme @ ''://'' @ tail \<and> CHR ''*'' \<notin> set tail) \<or>
      (\<exists>name port. u = scheme @ ''://*.'' @ name @ port_text scheme port \<and> CHR ''*'' \<notin> set (name @ port_text scheme port) \<and> CHR ''.'' \<in> set name)"
    by blast
  have start: "CHR ''*'' \<notin> set (scheme @ ''://'')" using sch by auto
  from shape show ?thesis
  proof (elim disjE exE conjE)
    fix tail assume t: "u = scheme @ ''://'' @ tail" "CHR ''*'' \<notin> set tail"
    then have "CHR ''*'' \<notin> set u" using start by simp
    then have "\<not> sublist ''*.'' u" using set_mono_sublist [of "''*.''" u] by auto
    then have "asked = u" using assms(3) origin_matches_exact by metis
    then have "\<exists>tail. asked = scheme @ ''://'' @ tail" using t(1) by simp
    with \<open>asked = u\<close> show ?thesis using sch by (intro bexI [of _ scheme] conjI disjI1)
  next
    fix name port
    assume n: "u = scheme @ ''://*.'' @ name @ port_text scheme port" "CHR ''*'' \<notin> set (name @ port_text scheme port)" "CHR ''.'' \<in> set name"
    then have "u = (scheme @ ''://'') @ ''*.'' @ (name @ port_text scheme port)" by simp
    then have "sublist ''*.'' u" using sublist_appendI by metis
    then obtain x y label where m: "u = x @ ''*.'' @ y" "origin_label label" "asked = x @ label @ ''.'' @ y"
      using assms(3) unfolding origin_matches_cases by blast
    have "(scheme @ ''://'') @ CHR ''*'' # CHR ''.'' # name @ port_text scheme port = x @ CHR ''*'' # CHR ''.'' # y"
      using m(1) n(1) by simp
    then have "x = scheme @ ''://''" "y = name @ port_text scheme port"
      using append_Cons_eq_iff [of "CHR ''*''" "scheme @ ''://''" "CHR ''.'' # name @ port_text scheme port" x "CHR ''.'' # y"] start n(2)
      by simp_all
    then have a: "asked = scheme @ ''://'' @ label @ ''.'' @ name @ port_text scheme port" using m(3) by simp
    then have "\<exists>tail. asked = scheme @ ''://'' @ tail" by simp
    then show ?thesis by (intro bexI [OF _ sch] conjI disjI2 exI) (rule m(2) n(3) n(1) a)+
  qed
qed

end
