(* ===== verification/Policy_Props.thy ===== *)
theory Policy_Props
  imports Policy_Safe
begin

text \<open>The properties of the stored policies, each with an instance.\<close>

section \<open>Instances\<close>

definition sample_transformer :: json where
  "sample_transformer = JsonObject [(''headers'', JsonObject
     [(''add'', JsonArray [JsonArray [JsonString ''X-Team'', JsonString ''core'']]),
      (''remove'', JsonArray [JsonString ''X-Debug''])])]"

definition sample_edits :: header_edits where
  "sample_edits = \<lparr>he_remove = [''x-debug''], he_rename = [], he_replace = [], he_add = [(''x-team'', ''core'')], he_append = []\<rparr>"

lemma sample_transformer_accepted:
  "parse_policy ''request_transformer'' sample_transformer = Ok (RequestTransformer \<lparr>rq_headers = sample_edits, rq_query = no_edits\<rparr>)"
  by code_simp

definition sample_cors :: json where
  "sample_cors = JsonObject [(''origins'', JsonArray [JsonString ''HTTPS://*.Example.com:443'']), (''credentials'', JsonBool True)]"

definition sample_cors_policy :: cors_policy where
  "sample_cors_policy = \<lparr>co_origins = [''https://*.example.com''], co_methods = cors_methods, co_headers = [],
     co_expose_headers = [], co_credentials = True, co_max_age = None, co_preflight_continue = False\<rparr>"

lemma sample_cors_accepted: "parse_policy ''cors'' sample_cors = Ok (Cors sample_cors_policy)"
  by code_simp

section \<open>Properties\<close>

text \<open>
  C25: a policy is stored in a form that reads back as itself. Whatever a request sends for a policy
  of a kind, when it is accepted the policy is of that kind, what is stored of it is read again
  without an error, and it is the same policy: networks of both address families, origins with
  their default ports dropped, header names in lower case, and every default left out included.
\<close>

theorem stored_policy_reads_back:
  assumes "parse_policy kind config = Ok p"
  shows "plugin_kind p = kind \<and> parse_policy kind (policy_config p) = Ok p"
  using policy_back [OF assms] by blast

theorem stored_policy_reads_back_witness:
  "policy_config (Cors sample_cors_policy) \<noteq> sample_cors \<and> parse_policy ''cors'' (policy_config (Cors sample_cors_policy)) = Ok (Cors sample_cors_policy)"
proof -
  have "policy_config (Cors sample_cors_policy) \<noteq> sample_cors" by code_simp
  then show ?thesis using stored_policy_reads_back [OF sample_cors_accepted] by blast
qed

text \<open>
  C26: no stored transformer can change how a message is framed or routed, or who the caller is said
  to be. On any header map of the HTTP library, the edits of a transformer that a write accepts
  leave the lines of every framing header as they were, of a request also those of the headers the
  gateway sets about the caller, in whatever case these names are written; and every line of the
  edited head was in it before or consists of visible ASCII, spaces and tabs, so no edit ends a
  header line and begins another.
\<close>

theorem transformer_spares_reserved:
  assumes "header_target tg valid_name valid_value"
    and "\<And>n. n \<noteq> [] \<Longrightarrow> length n \<le> max_edit_name_chars \<Longrightarrow> list_all is_token n \<Longrightarrow> valid_name n"
    and "\<And>v. list_all value_byte v \<Longrightarrow> valid_value v"
    and "parse_policy kind config = Ok p" "newly_reserved p = Ok ()" "guarded p = Some (e, reserved)"
  shows "(\<forall>r n. r \<in> set reserved \<and> eq_ignore_ascii_case n r \<longrightarrow>
      h_get_all tg (edit_headers tg e h) n = h_get_all tg h n) \<and>
    (\<forall>n v. v \<in> set (h_get_all tg (edit_headers tg e h) n) \<longrightarrow>
      (\<exists>k. v \<in> set (h_get_all tg h k)) \<or> list_all value_byte v)"
proof -
  note ok = accepted_edits [OF assms(4-6)]
  have "writable valid_name valid_value e"
    by (rule clean_writable) (use ok assms(2,3) in \<open>auto simp: clean_name_def clean_value_def\<close>)
  then have view: "h_get_all tg (edit_headers tg e h) = edit_view e (h_get_all tg h)"
    by (rule header_target.view_edit_headers [OF assms(1)])
  have "edit_view e f n = f n" if "r \<in> set reserved" "eq_ignore_ascii_case n r" for f n r
    using ok(1) that by (intro edit_view_spares) (metis eq_ignore_ascii_case_sym ieq_trans)
  moreover have "lines_in ({v. \<exists>k. v \<in> set (h_get_all tg h k)} \<union> {v. list_all value_byte v}) (edit_view e (h_get_all tg h))"
    by (rule edit_view_lines) (use ok(2) in \<open>auto simp: lines_in_def clean_value_def\<close>)
  ultimately show ?thesis unfolding view lines_in_def by blast
qed

theorem transformer_spares_reserved_witness:
  "h_get_all lines_ops (edit_headers lines_ops sample_edits [(''Host'', ''a''), (''x-debug'', ''1'')]) ''HOST'' = [''a'']"
proof -
  have r: "''host'' \<in> set (framing @ gateway_headers)" "eq_ignore_ascii_case ''HOST'' ''host''" by code_simp+
  have "newly_reserved (RequestTransformer \<lparr>rq_headers = sample_edits, rq_query = no_edits\<rparr>) = Ok ()" by code_simp
  from transformer_spares_reserved [OF header_lines.header_target_axioms _ _ sample_transformer_accepted this,
      of sample_edits "framing @ gateway_headers"] r
  have "h_get_all lines_ops (edit_headers lines_ops sample_edits [(''Host'', ''a''), (''x-debug'', ''1'')]) ''HOST'' =
      h_get_all lines_ops [(''Host'', ''a''), (''x-debug'', ''1'')] ''HOST''" by (auto simp: guarded_def)
  moreover have "h_get_all lines_ops [(''Host'', ''a''), (''x-debug'', ''1'')] ''HOST'' = [''a'']" by code_simp
  ultimately show ?thesis by simp
qed

text \<open>
  C27: a page is let in with credentials only when a stored policy names it. When an accepted policy
  that sends credentials allows an origin, it answers with that origin itself, never with a star;
  the origin is not null, its scheme is http or https, and it is an entry of the policy verbatim or
  one label before a name that has a dot in it, under an entry that has a star there: no policy
  lets in every name under a top-level domain.
\<close>

theorem credentialed_origin_listed:
  assumes "parse_policy kind config = Ok (Cors p)" "co_credentials p" "cors_allowed p asked = Some answer"
  shows "answer = asked \<and> asked \<noteq> ''null'' \<and> (\<exists>u \<in> set (co_origins p). \<exists>scheme \<in> {''http'', ''https''}.
    (\<exists>tail. asked = scheme @ ''://'' @ tail) \<and>
    (asked = u \<or> (\<exists>label name port. origin_label label \<and> CHR ''.'' \<in> set name \<and>
       u = scheme @ ''://*.'' @ name @ port_text scheme port \<and> asked = scheme @ ''://'' @ label @ ''.'' @ name @ port_text scheme port)))"
proof -
  have c: "cors config = Ok p" by (rule parse_policy_transformers(3) [OF assms(1)])
  then obtain v where v: "allowed_origins True v = Ok (co_origins p)" using assms(2) by (auto simp: cors_def)
  then have star: "''*'' \<notin> set (co_origins p)" using allowed_origins_back(3) by blast
  obtain ts where ts: "try_all origin ts = Ok (co_origins p)" using v by (auto simp: allowed_origins_def split: if_split_asm)
  have each: "u \<in> set (co_origins p) \<Longrightarrow> \<exists>t. origin t = Ok u" for u using try_all_each [OF ts, of u] by blast
  from assms(3) star have a: "answer = asked" "asked \<noteq> ''null''" "list_ex (origin_matches asked) (co_origins p)"
    by (auto simp: cors_allowed_def list_ex_iff split: if_split_asm)
  then obtain u where "u \<in> set (co_origins p)" "origin_matches asked u" by (auto simp: list_ex_iff)
  moreover obtain t where "origin t = Ok u" using each [OF \<open>u \<in> set (co_origins p)\<close>] by blast
  ultimately have u: "u \<in> set (co_origins p)" "origin_matches asked u" "origin t = Ok u" by auto
  have "u \<noteq> ''*''" using star u(1) by auto
  note m = entry_matches [OF u(3) this u(2)]
  show ?thesis by (rule conjI [OF a(1) conjI [OF a(2)]], rule bexI [of _ u], rule m, rule u(1))
qed

theorem credentialed_origin_listed_witness:
  "cors_allowed sample_cors_policy ''https://app.example.com'' = Some ''https://app.example.com'' \<and>
   ''https://app.example.com'' \<noteq> ''null''"
proof -
  have "cors_allowed sample_cors_policy ''https://app.example.com'' = Some ''https://app.example.com''" by code_simp
  then show ?thesis using credentialed_origin_listed [OF sample_cors_accepted, of "''https://app.example.com''" "''https://app.example.com''"]
    by (simp add: sample_cors_policy_def)
qed

end
