(* ===== verification/Policy_Served.thy ===== *)
theory Policy_Served
  imports Config_Props
begin

text \<open>
  The policies of the snapshot: each selected row is read and joined with what it points at; what a
  request that was written leaves of its policy in the snapshot.
\<close>

section \<open>Rows joined with their targets\<close>

definition route_name_of :: "cdb \<Rightarrow> policy_record \<Rightarrow> string option" where
  "route_name_of s p = map_option rd_name (Option.bind (po_route p) (\<lambda>i. find (\<lambda>r. rd_id r = i) (cd_routes s)))"

definition service_name_of :: "cdb \<Rightarrow> policy_record \<Rightarrow> string option" where
  "service_name_of s p = map_option (\<lambda>v. sv_name (sd_row v)) (Option.bind (po_service p) (\<lambda>i. find (\<lambda>v. sd_id v = i) (cd_services s)))"

definition consumer_name_of :: "cdb \<Rightarrow> policy_record \<Rightarrow> string option" where
  "consumer_name_of s p = map_option cr_username (Option.bind (po_consumer p) (\<lambda>i. find (\<lambda>c. cr_id c = i) (cd_consumers s)))"

lemma find_by_id:
  assumes "distinct (map f xs)" "x \<in> set xs"
  shows "find (\<lambda>y. f y = f x) xs = Some x"
  using assms by (induction xs) (auto simp: image_iff)

lemma home_route:
  assumes "config_ok build s" "points_home s p" "po_route p = Some i"
  shows "\<exists>r \<in> set (cd_routes s). find (\<lambda>r. rd_id r = i) (cd_routes s) = Some r \<and> rd_id r = i \<and> rd_workspace r = po_workspace p"
proof -
  from assms(2,3) obtain r where "r \<in> set (cd_routes s)" "rd_id r = i" "rd_workspace r = po_workspace p"
    by (auto simp: points_home_def route_at_def)
  with find_by_id [OF config_ok_parts(3) [OF assms(1)]] show ?thesis by blast
qed

lemma home_service:
  assumes "config_ok build s" "points_home s p" "po_service p = Some i"
  shows "\<exists>v \<in> set (cd_services s). find (\<lambda>v. sd_id v = i) (cd_services s) = Some v \<and> sd_id v = i \<and> sd_workspace v = po_workspace p"
proof -
  from assms(2,3) obtain v where "v \<in> set (cd_services s)" "sd_id v = i" "sd_workspace v = po_workspace p"
    by (auto simp: points_home_def service_at_def)
  with find_by_id [OF config_ok_parts(1) [OF assms(1)]] show ?thesis by blast
qed

lemma home_consumer:
  assumes "policies_ok s" "points_home s p" "po_consumer p = Some i"
  shows "\<exists>c. find (\<lambda>c. cr_id c = i) (cd_consumers s) = Some c \<and> cr_workspace c = po_workspace p"
proof -
  from assms(2,3) obtain c where "c \<in> set (cd_consumers s)" "cr_id c = i" "cr_workspace c = po_workspace p"
    by (auto simp: points_home_def)
  with find_by_id [OF policies_ok_parts(3) [OF assms(1)]] show ?thesis by blast
qed

lemma join_policy_home:
  assumes "config_ok build s" "policies_ok s" "p \<in> set (cd_policies s)"
  shows "\<exists>j. join_policy s p = Some j \<and> jo_policy j = p \<and> workspace_named s (po_workspace p) = Some (jo_workspace j) \<and>
    map_option rd_name (jo_route j) = route_name_of s p \<and> map_option (\<lambda>v. sv_name (sd_row v)) (jo_service j) = service_name_of s p \<and>
    map_option cr_username (jo_consumer j) = consumer_name_of s p \<and> \<not> foreign_target j"
proof -
  have home: "points_home s p" using policies_ok_parts(5) [OF assms(2)] assms(3) by blast
  have "po_workspace p \<in> wk_id ` set (db_workspaces (cd_db s))" using policies_ok_parts(4) [OF assms(2)] assms(3) by auto
  then obtain w where w: "workspace_named s (po_workspace p) = Some w" using workspace_named_Some by blast
  have "(case Option.bind (po_route p) (\<lambda>i. find (\<lambda>r. rd_id r = i) (cd_routes s)) of Some r \<Rightarrow> rd_workspace r \<noteq> po_workspace p | None \<Rightarrow> False) = False"
    using home_route [OF assms(1) home] by (cases "po_route p") auto
  moreover have "(case Option.bind (po_service p) (\<lambda>i. find (\<lambda>v. sd_id v = i) (cd_services s)) of Some v \<Rightarrow> sd_workspace v \<noteq> po_workspace p | None \<Rightarrow> False) = False"
    using home_service [OF assms(1) home] by (cases "po_service p") auto
  moreover have "(case Option.bind (po_consumer p) (\<lambda>i. find (\<lambda>c. cr_id c = i) (cd_consumers s)) of Some c \<Rightarrow> cr_workspace c \<noteq> po_workspace p | None \<Rightarrow> False) = False"
    using home_consumer [OF assms(2) home] by (cases "po_consumer p") auto
  ultimately show ?thesis using w
    by (simp add: join_policy_def foreign_target_def route_name_of_def service_name_of_def consumer_name_of_def cong: option.case_cong)
qed

section \<open>Every selected row is read\<close>

definition plugin_view :: "store_plugin \<Rightarrow> string option \<times> string option \<times> string option \<times> (policy_row_error + plugin)" where
  "plugin_view x = (Some (sp_workspace x), sp_route x, sp_service x, Ok (sp_plugin x))"

definition policy_view :: "cdb \<Rightarrow> policy_record \<Rightarrow> string option \<times> string option \<times> string option \<times> (policy_row_error + plugin)" where
  "policy_view s p = (workspace_named s (po_workspace p), route_name_of s p, service_name_of s p, parse_plugin (po_name p) (po_config p))"

definition joined_view :: "joined_policy \<Rightarrow> string option \<times> string option \<times> string option \<times> (policy_row_error + plugin)" where
  "joined_view j = (Some (jo_workspace j), map_option rd_name (jo_route j), map_option (\<lambda>v. sv_name (sd_row v)) (jo_service j),
     parse_plugin (po_name (jo_policy j)) (po_config (jo_policy j)))"

type_synonym limit_view = "string option \<times> string option \<times> string option \<times> string option \<times> rate_limit option"

definition served_limit :: "store_rate_limit \<Rightarrow> limit_view" where
  "served_limit l = (Some (sl_workspace l), sl_route l, sl_service l, sl_consumer l, Some (sl_limit l))"

definition stored_limit :: "cdb \<Rightarrow> policy_record \<Rightarrow> limit_view" where
  "stored_limit s p = (workspace_named s (po_workspace p), route_name_of s p, service_name_of s p, consumer_name_of s p,
     stored_rate_limit (po_config p))"

definition joined_limit :: "joined_policy \<Rightarrow> limit_view" where
  "joined_limit j = (Some (jo_workspace j), map_option rd_name (jo_route j), map_option (\<lambda>v. sv_name (sd_row v)) (jo_service j),
     map_option cr_username (jo_consumer j), stored_rate_limit (po_config (jo_policy j)))"

abbreviation is_limit :: "policy_record \<Rightarrow> bool" where
  "is_limit p \<equiv> po_name p = rate_limit_name"

lemma snapshot_policy_list_ok:
  "\<forall>j \<in> set js. \<not> foreign_target j \<and> readable (jo_policy j) \<Longrightarrow>
   \<exists>ps ls. snapshot_policy_list js = Ok (ps, ls) \<and>
     map plugin_view ps = map joined_view (filter (\<lambda>j. \<not> is_limit (jo_policy j)) js) \<and>
     map served_limit ls = map joined_limit (filter (\<lambda>j. is_limit (jo_policy j)) js)"
proof (induction js)
  case (Cons j js)
  then obtain ps ls where rest: "snapshot_policy_list js = Ok (ps, ls)"
    "map plugin_view ps = map joined_view (filter (\<lambda>j. \<not> is_limit (jo_policy j)) js)"
    "map served_limit ls = map joined_limit (filter (\<lambda>j. is_limit (jo_policy j)) js)" by auto
  have j: "\<not> foreign_target j" "readable (jo_policy j)" using Cons.prems by auto
  show ?case
  proof (cases "is_limit (jo_policy j)")
    case True
    with j obtain l where "stored_rate_limit (po_config (jo_policy j)) = Some l" by (auto simp: readable_def)
    moreover from this have "served_limit \<lparr>sl_workspace = jo_workspace j, sl_route = map_option rd_name (jo_route j),
        sl_service = map_option (\<lambda>v. sv_name (sd_row v)) (jo_service j), sl_consumer = map_option cr_username (jo_consumer j),
        sl_limit = l\<rparr> = joined_limit j"
      by (simp add: served_limit_def joined_limit_def)
    ultimately show ?thesis using True j rest by (simp add: snapshot_policy_def Let_def)
  next
    case False
    with j obtain q where "parse_plugin (po_name (jo_policy j)) (po_config (jo_policy j)) = Ok q" by (auto simp: readable_def)
    moreover from this have "plugin_view \<lparr>sp_workspace = jo_workspace j, sp_route = map_option rd_name (jo_route j),
        sp_service = map_option (\<lambda>v. sv_name (sd_row v)) (jo_service j), sp_plugin = q\<rparr> = joined_view j"
      by (simp add: plugin_view_def joined_view_def)
    ultimately show ?thesis using False j rest by (simp add: snapshot_policy_def Let_def)
  qed
qed simp

definition everyones :: "policy_record \<Rightarrow> bool" where
  "everyones p \<longleftrightarrow> po_enabled p \<and> po_consumer p = None \<and> po_name p \<noteq> rate_limit_name"

lemma mset_joined:
  assumes "mset js = mset (map g xs)" "\<And>x. x \<in> set xs \<Longrightarrow> P (g x) = Q x \<and> f (g x) = h x"
  shows "mset (map f (filter P js)) = mset (map h (filter Q xs))"
proof -
  have "mset (map f (filter P js)) = image_mset f (filter_mset P (mset (map g xs)))" unfolding assms(1) [symmetric] by simp
  also have "\<dots> = mset (map f (filter P (map g xs)))" by simp
  also have "map f (filter P (map g xs)) = map h (filter Q xs)" using assms(2) by (induction xs) auto
  finally show ?thesis .
qed

lemma snapshot_policies_read:
  assumes "config_ok build s" "policies_ok s"
  shows "\<exists>ps ls. snapshot_policies s = Ok (ps, ls) \<and>
    mset (map plugin_view ps) = mset (map (policy_view s) (filter everyones (cd_policies s))) \<and>
    mset (map served_limit ls) = mset (map (stored_limit s) (filter (\<lambda>p. po_enabled p \<and> is_limit p) (cd_policies s)))"
proof -
  let ?sel = "filter selected_policy (cd_policies s)" and ?join = "\<lambda>p. the (join_policy s p)"
  have joined: "List.map_filter (join_policy s) xs = map ?join xs" if "set xs \<subseteq> set (cd_policies s)" for xs
    using that
  proof (induction xs)
    case (Cons x xs)
    with join_policy_home [OF assms, of x] show ?case by (auto simp: List.map_filter_simps)
  qed (simp add: List.map_filter_simps)
  have m: "mset (joined_policies s) = mset (map ?join ?sel)"
    unfolding joined_policies_def mset_sort by (subst joined) auto
  have the_join: "jo_policy (?join p) = p" "joined_view (?join p) = policy_view s p" "joined_limit (?join p) = stored_limit s p"
      "\<not> foreign_target (?join p)" if "p \<in> set (cd_policies s)" for p
    using join_policy_home [OF assms that] by (auto simp: joined_view_def policy_view_def joined_limit_def stored_limit_def)
  have "\<not> foreign_target j \<and> readable (jo_policy j)" if "j \<in> set (joined_policies s)" for j
  proof -
    from that obtain p where p: "p \<in> set ?sel" "j = ?join p" using mset_eq_setD [OF m] by auto
    with the_join [of p] policies_ok_parts(5) [OF assms(2)] show ?thesis by simp
  qed
  then obtain ps ls where ps: "snapshot_policies s = Ok (ps, ls)"
    "map plugin_view ps = map joined_view (filter (\<lambda>j. \<not> is_limit (jo_policy j)) (joined_policies s))"
    "map served_limit ls = map joined_limit (filter (\<lambda>j. is_limit (jo_policy j)) (joined_policies s))"
    using snapshot_policy_list_ok [of "joined_policies s"] by (auto simp: snapshot_policies_def)
  have "mset (map plugin_view ps) = mset (map (policy_view s) (filter (\<lambda>p. \<not> is_limit p) ?sel))"
    unfolding ps(2) by (rule mset_joined [OF m]) (use the_join in auto)
  moreover have "mset (map served_limit ls) = mset (map (stored_limit s) (filter is_limit ?sel))"
    unfolding ps(3) by (rule mset_joined [OF m]) (use the_join in auto)
  moreover have "filter (\<lambda>p. \<not> is_limit p) ?sel = filter everyones (cd_policies s)"
      "filter is_limit ?sel = filter (\<lambda>p. po_enabled p \<and> is_limit p) (cd_policies s)"
    by (auto simp: everyones_def selected_policy_def intro: filter_cong)
  ultimately show ?thesis using ps(1) by (intro exI [of _ ps] exI [of _ ls] conjI) metis+
qed

section \<open>What a write leaves\<close>

fun target_names :: "policy_target \<Rightarrow> string option \<times> string option" where
  "target_names OnWorkspace = (None, None)"
| "target_names (OnService n) = (None, Some n)"
| "target_names (OnRoute n) = (Some n, None)"

lemma parse_plugin_kind: "parse_plugin name config = Ok q \<Longrightarrow> plugin_kind q = name"
proof -
  assume a: "parse_plugin name config = Ok q"
  consider "name = ''jwt''" | "name = ''key_auth''" | "name \<noteq> ''jwt''" "name \<noteq> ''key_auth''" by blast
  then show ?thesis
  proof cases
    case 3
    with a have "parse_policy name config = Ok q"
      by (cases "parse_policy name config") (auto simp: parse_plugin_def split: if_split_asm)
    then show ?thesis by (rule policy_back(1))
  qed (use a in \<open>auto simp: parse_plugin_def split: option.splits if_split_asm\<close>)
qed

lemma plugin_row_place:
  assumes "plugin_row s w resolved None kind = Some p" "points_home s p"
    "resolved = None \<or> (\<exists>i. resolved = Some (''service_id'', i)) \<or> (\<exists>i. resolved = Some (''route_id'', i))"
  shows "po_service p = po_service (attached_policy i w q resolved now) \<and> po_route p = po_route (attached_policy i w q resolved now)"
  using assms by (auto simp: plugin_row_def find_Some_iff points_home_def attached_policy_def)

text \<open>The row a written policy is in, and where it points.\<close>

lemma put_policy_row:
  assumes "try_put_policy show_time now c w target p seen i s = (Ok (), s')" "parse_policy (plugin_kind p) (policy_config p) = Ok p" "policies_ok s"
  obtains resolved x where "target_row s w target = Ok resolved" "x \<in> set (cd_policies s')" "po_enabled x" "po_consumer x = None"
    "po_name x = plugin_kind p" "parse_policy (plugin_kind p) (po_config x) = Ok p"
    "po_service x = po_service (attached_policy i w p resolved now)" "po_route x = po_route (attached_policy i w p resolved now)"
    "\<And>build. config_ok build s \<Longrightarrow> po_workspace x = w"
proof -
  from assms(1) obtain actor resolved where d: "decide_config s c w WriteAction = Ok actor" and t: "target_row s w target = Ok resolved"
    by (cases "decide_config s c w WriteAction"; cases "target_row s w target") (auto simp: try_put_policy_def)
  let ?row = "plugin_row s w resolved None (plugin_kind p)"
  have shape: "resolved = None \<or> (\<exists>i. resolved = Some (''service_id'', i)) \<or> (\<exists>i. resolved = Some (''route_id'', i))"
    using target_row_Ok [OF t] by blast
  have kept: "anonymous_known s w p = Ok ()" "fresh (shown_stamp show_time (current_policy (plugin_kind p) ?row) ?row) seen = Ok ()"
    using assms(1) d t unfolding try_put_policy_def Let_def
    by (cases "anonymous_known s w p"; cases "fresh (shown_stamp show_time (current_policy (plugin_kind p) ?row) ?row) seen"; simp)+
  note body = assms(1) [unfolded try_put_policy_def d t kept Let_def sum.case kept]
  show thesis
  proof (cases ?row)
    case None
    with body have "attached_policy i w p resolved now \<in> set (cd_policies s')" by (auto split: if_split_asm)
    then show thesis using assms(2) by (intro that [OF t, of "attached_policy i w p resolved now"]) auto
  next
    case (Some old)
    note o = plugin_row_Some [OF Some]
    have "points_home s old" using policies_ok_parts(5) [OF assms(3)] o by blast
    note place = plugin_row_place [OF Some this shape, of i p now]
    show thesis
    proof (cases "current_policy (plugin_kind p) ?row = Some p")
      case True
      with body Some have "s' = s" by simp
      moreover have "po_enabled old" "parse_policy (plugin_kind p) (po_config old) = Ok p"
        using True Some by (auto simp: current_policy_def ok_of_def split: if_split_asm sum.split_asm)
      ultimately show thesis using o place plugin_row_workspace [OF t Some _ assms(3)] by (intro that [OF t, of old]) auto
    next
      case False
      with body Some have "cd_policies s' = map (\<lambda>x. if po_id x = po_id old then rewritten p now x else x) (cd_policies s)" by auto
      then have "rewritten p now old \<in> set (cd_policies s')" using o by force
      then show thesis using o place assms(2) plugin_row_workspace [OF t Some _ assms(3)] by (intro that [OF t, of "rewritten p now old"]) auto
    qed
  qed
qed

lemma placed_names:
  assumes "target_row s w target = Ok resolved" "config_ok build s" "cd_services s' = cd_services s" "cd_routes s' = cd_routes s"
    "po_service x = po_service (attached_policy i w p resolved now)" "po_route x = po_route (attached_policy i w p resolved now)"
  shows "(route_name_of s' x, service_name_of s' x) = target_names target"
  using target_row_Ok [OF assms(1)]
proof (elim disjE exE conjE)
  fix n v assume "target = OnService n" "resolved = Some (''service_id'', sd_id v)" "v \<in> set (cd_services s)" "sv_name (sd_row v) = n"
  with find_by_id [OF config_ok_parts(1) [OF assms(2)], of v] assms(3-) show ?thesis
    by (simp add: route_name_of_def service_name_of_def attached_policy_def)
next
  fix n r assume "target = OnRoute n" "resolved = Some (''route_id'', rd_id r)" "r \<in> set (cd_routes s)" "rd_name r = n"
  with find_by_id [OF config_ok_parts(3) [OF assms(2)], of r] assms(3-) show ?thesis
    by (simp add: route_name_of_def service_name_of_def attached_policy_def)
qed (use assms(3-) in \<open>simp add: route_name_of_def service_name_of_def attached_policy_def\<close>)

text \<open>A row is known by the names of its workspace and its target, and its kind.\<close>

lemma same_service:
  assumes "config_ok build s" "points_home s x" "points_home s y" "po_workspace x = po_workspace y" "service_name_of s x = service_name_of s y"
  shows "po_service x = po_service y"
proof (cases "po_service x"; cases "po_service y")
  fix i k assume i: "po_service x = Some i" and k: "po_service y = Some k"
  from home_service [OF assms(1,2) i] obtain v where v: "v \<in> set (cd_services s)" "find (\<lambda>v. sd_id v = i) (cd_services s) = Some v" "sd_id v = i" "sd_workspace v = po_workspace x" by blast
  from home_service [OF assms(1,3) k] obtain u where u: "u \<in> set (cd_services s)" "find (\<lambda>v. sd_id v = k) (cd_services s) = Some u" "sd_id u = k" "sd_workspace u = po_workspace y" by blast
  have "sv_name (sd_row v) = sv_name (sd_row u)" using assms(5) i k v(2) u(2) by (simp add: service_name_of_def)
  then have "v = u" using by_id [OF config_ok_parts(2) [OF assms(1)] v(1) u(1)] v(4) u(4) assms(4) by simp
  then show ?thesis using i k v(3) u(3) by simp
next
  fix i assume "po_service x = Some i" "po_service y = None"
  with home_service [OF assms(1,2)] assms(5) show ?thesis by (fastforce simp: service_name_of_def)
next
  fix i assume "po_service x = None" "po_service y = Some i"
  with home_service [OF assms(1,3)] assms(5) show ?thesis by (fastforce simp: service_name_of_def)
qed simp

lemma same_route:
  assumes "config_ok build s" "points_home s x" "points_home s y" "po_workspace x = po_workspace y" "route_name_of s x = route_name_of s y"
  shows "po_route x = po_route y"
proof (cases "po_route x"; cases "po_route y")
  fix i k assume i: "po_route x = Some i" and k: "po_route y = Some k"
  from home_route [OF assms(1,2) i] obtain v where v: "v \<in> set (cd_routes s)" "find (\<lambda>v. rd_id v = i) (cd_routes s) = Some v" "rd_id v = i" "rd_workspace v = po_workspace x" by blast
  from home_route [OF assms(1,3) k] obtain u where u: "u \<in> set (cd_routes s)" "find (\<lambda>v. rd_id v = k) (cd_routes s) = Some u" "rd_id u = k" "rd_workspace u = po_workspace y" by blast
  have "rd_name v = rd_name u" using assms(5) i k v(2) u(2) by (simp add: route_name_of_def)
  then have "v = u" using by_id [OF config_ok_parts(4) [OF assms(1)] v(1) u(1)] v(4) u(4) assms(4) by simp
  then show ?thesis using i k v(3) u(3) by simp
next
  fix i assume "po_route x = Some i" "po_route y = None"
  with home_route [OF assms(1,2)] assms(5) show ?thesis by (fastforce simp: route_name_of_def)
next
  fix i assume "po_route x = None" "po_route y = Some i"
  with home_route [OF assms(1,3)] assms(5) show ?thesis by (fastforce simp: route_name_of_def)
qed simp

lemma workspace_by_name:
  assumes "distinct (map wk_name (db_workspaces (cd_db s)))" "workspace_named s a = Some n" "workspace_named s b = Some n"
  shows "a = b"
proof -
  have found: "\<exists>x \<in> set (db_workspaces (cd_db s)). wk_id x = c \<and> wk_name x = n" if "workspace_named s c = Some n" for c
    using that by (auto simp: workspace_named_def dest: find_SomeD)
  from found [OF assms(2)] found [OF assms(3)] obtain x y where "x \<in> set (db_workspaces (cd_db s))" "wk_id x = a" "wk_name x = n"
      "y \<in> set (db_workspaces (cd_db s))" "wk_id y = b" "wk_name y = n" by blast
  with by_id [OF assms(1), of x y] show ?thesis by simp
qed

lemma policy_by_names:
  assumes "config_ok build s" "policies_ok s" "distinct (map wk_name (db_workspaces (cd_db s)))"
    "x \<in> set (cd_policies s)" "y \<in> set (cd_policies s)" "everyones x" "everyones y" "po_name x = po_name y"
    "workspace_named s (po_workspace x) = workspace_named s (po_workspace y)" "route_name_of s x = route_name_of s y" "service_name_of s x = service_name_of s y"
  shows "x = y"
proof -
  have home: "points_home s x" "points_home s y" using policies_ok_parts(5) [OF assms(2)] assms(4,5) by blast+
  have "po_workspace x \<in> wk_id ` set (db_workspaces (cd_db s))" using policies_ok_parts(4) [OF assms(2)] assms(4) by auto
  then obtain n where "workspace_named s (po_workspace x) = Some n" using workspace_named_Some by blast
  with workspace_by_name [OF assms(3)] assms(9) have w: "po_workspace x = po_workspace y" by metis
  have "policy_key x = policy_key y"
    using w same_service [OF assms(1) home w assms(11)] same_route [OF assms(1) home w assms(10)] assms(6-8)
    by (simp add: policy_key_def everyones_def)
  with by_id [OF policies_ok_parts(2) [OF assms(2)] assms(4,5)] show ?thesis by blast
qed

lemma distinct_singleton: "distinct ys \<Longrightarrow> set ys = {x} \<Longrightarrow> ys = [x]"
  by (cases ys) (auto simp: subset_singleton_iff)

lemma single_filter:
  assumes "distinct xs" "x \<in> set xs" "P x" "\<And>y. y \<in> set xs \<Longrightarrow> P y \<Longrightarrow> y = x"
  shows "filter P xs = [x]"
proof (rule distinct_singleton)
  show "set (filter P xs) = {x}"
  proof
    show "set (filter P xs) \<subseteq> {x}" using assms(4) by (simp add: subset_iff)
  qed (simp add: assms(2,3))
qed (simp add: assms(1))

lemma mset_one: "mset xs = mset [v] \<Longrightarrow> xs = [v]"
  by simp

lemma only_policy:
  assumes "config_ok build s" "policies_ok s" "distinct (map wk_name (db_workspaces (cd_db s)))" "x \<in> set (cd_policies s)" "everyones x"
    "parse_plugin (po_name x) (po_config x) = Ok p" "workspace_named s (po_workspace x) = Some wn" "snapshot_policies s = Ok (ps, ls)"
  shows "filter (\<lambda>y. sp_workspace y = wn \<and> (sp_route y, sp_service y) = (route_name_of s x, service_name_of s x) \<and> plugin_kind (sp_plugin y) = po_name x) ps =
    [\<lparr>sp_workspace = wn, sp_route = route_name_of s x, sp_service = service_name_of s x, sp_plugin = p\<rparr>]"
proof -
  let ?P = "\<lambda>(w, r, v, q). w = Some wn \<and> (r, v) = (route_name_of s x, service_name_of s x) \<and> (case q of Ok q \<Rightarrow> plugin_kind q = po_name x | Err _ \<Rightarrow> False)"
  let ?rows = "filter everyones (cd_policies s)"
  from snapshot_policies_read [OF assms(1,2)] assms(8) have m: "mset (map plugin_view ps) = mset (map (policy_view s) ?rows)" by auto
  have "distinct (cd_policies s)" using policies_ok_parts(1) [OF assms(2)] by (simp add: distinct_map)
  moreover have "?P (policy_view s x)" using assms(6,7) parse_plugin_kind [OF assms(6)] by (simp add: policy_view_def)
  moreover have "y = x" if "y \<in> set ?rows" "?P (policy_view s y)" for y
  proof -
    from that(2) obtain q where y: "workspace_named s (po_workspace y) = Some wn" "route_name_of s y = route_name_of s x"
        "service_name_of s y = service_name_of s x" "parse_plugin (po_name y) (po_config y) = Ok q" "plugin_kind q = po_name x"
      by (auto simp: policy_view_def split: sum.split_asm)
    show ?thesis using that(1) assms(4,5,7) y parse_plugin_kind [OF y(4)] by (intro policy_by_names [OF assms(1-3)]) simp_all
  qed
  ultimately have "filter (\<lambda>y. ?P (policy_view s y)) ?rows = [x]" using assms(4,5) by (intro single_filter) auto
  then have rows: "filter ?P (map (policy_view s) ?rows) = [policy_view s x]" by (simp add: filter_map comp_def)
  have "mset (filter ?P (map plugin_view ps)) = mset (filter ?P (map (policy_view s) ?rows))"
    using m by (metis mset_filter)
  then have "filter ?P (map plugin_view ps) = [policy_view s x]" unfolding rows by (rule mset_one)
  then have one: "map plugin_view (filter (\<lambda>y. ?P (plugin_view y)) ps) = [policy_view s x]" by (simp add: filter_map comp_def)
  have same: "?P (plugin_view y) \<longleftrightarrow> sp_workspace y = wn \<and> (sp_route y, sp_service y) = (route_name_of s x, service_name_of s x) \<and> plugin_kind (sp_plugin y) = po_name x" for y
    by (simp add: plugin_view_def)
  from one obtain y where y: "filter (\<lambda>y. ?P (plugin_view y)) ps = [y]" "plugin_view y = policy_view s x"
    by (cases "filter (\<lambda>y. ?P (plugin_view y)) ps") auto
  have "y = \<lparr>sp_workspace = wn, sp_route = route_name_of s x, sp_service = service_name_of s x, sp_plugin = p\<rparr>"
    using y(2) assms(6,7) by (cases y) (simp add: plugin_view_def policy_view_def)
  with y(1) show ?thesis unfolding same by simp
qed

end
