(* ===== verification/Served_Props.thy ===== *)
theory Served_Props
  imports Policy_Served
begin

text \<open>What the console's policies guarantee, through any sequence of its writes, with instances on \<open>shop_db\<close>.\<close>

section \<open>A policy to try the properties on\<close>

definition gold_input :: policy_input where
  "gold_input = \<lparr>pi_target = ''route:cart'', pi_config = JsonObject [(''allow'', JsonArray [JsonString ''gold''])], pi_seen = None\<rparr>"

definition gold_policy :: plugin where
  "gold_policy = Acl \<lparr>acl_allow = [''gold''], acl_deny = []\<rparr>"

definition shop_with_policy :: cdb where
  "shop_with_policy = state_after (console shop_env 3 (Police (PutPolicy 2 10 ''acl'' gold_input 300)) shop_with_route)"

lemma gold_read: "parse_target (pi_target gold_input) = Ok (OnRoute ''cart'')" "parse_policy ''acl'' (pi_config gold_input) = Ok gold_policy"
  "newly_reserved gold_policy = Ok ()" "kind_in ''acl'' = Ok ''acl''" "pi_seen gold_input = None"
  by code_simp+

lemma shop_policies_empty: "cd_policies shop_with_route = []"
  using shop_service_tables(3) shop_route_tables(3) by (simp add: frame_def shop_db_def)

lemma gold_put:
  "\<exists>s. try_put_policy (ce_show_time shop_env) 3 2 10 (OnRoute ''cart'') gold_policy None 300 shop_with_route = (Ok (), s) \<and>
     cd_policies s = [attached_policy 300 10 gold_policy (Some (''route_id'', 200)) 3]"
proof -
  have decides: "decide_config shop_with_route 2 10 WriteAction = Ok ana"
    using decide_config_frame [OF shop_route_tables(3)] decide_config_frame [OF shop_service_tables(3)] ana_decides by simp
  have "target_row shop_with_route 10 (OnRoute ''cart'') = Ok (Some (''route_id'', 200))"
    by (simp add: target_row_def shop_route_tables) (simp add: stored_route_def cart_route_row_def)
  moreover have "anonymous_known shop_with_route 10 gold_policy = Ok ()" by (simp add: anonymous_known_def gold_policy_def)
  moreover have "plugin_row shop_with_route 10 r None k = None" for r k
    by (auto simp: plugin_row_def shop_policies_empty split: option.split)
  ultimately show ?thesis
    by (simp add: try_put_policy_def decides fresh_def shown_stamp_def current_policy_def shop_policies_empty
        config_audit_def bumped_def)
qed

lemma gold_written:
  "console shop_env 3 (Police (PutPolicy 2 10 ''acl'' gold_input 300)) shop_with_route = Returns (None, shop_with_policy)"
  "cd_policies shop_with_policy = [attached_policy 300 10 gold_policy (Some (''route_id'', 200)) 3]"
  using gold_put by (auto simp: shop_with_policy_def gold_read written_def state_after_def)

lemma gold_history: "console_history shop_env shop_db (ana_adds @ [(3, Police (PutPolicy 2 10 ''acl'' gold_input 300))]) shop_with_policy"
  by (rule console_history.answered [OF ana_history _ gold_written(1)]) simp

section \<open>Properties\<close>

text \<open>
  C28: through any sequence of the console's writes of services, routes, policies of the seven kinds,
  accounts and workspaces, no policy row makes the snapshot fail: every row it selects is read. It holds,
  once each and under the names of its workspace and its target, exactly the policies of the enabled rows
  that are for everyone, as their configurations read, and, with the names of their consumers, exactly the
  request limits of the enabled \<open>rate_limit\<close> rows. The rows of \<open>key_auth\<close>, \<open>jwt\<close> and \<open>rate_limit\<close> policies
  are those the store had at first or what is left of them.
\<close>

theorem stored_policies_served:
  assumes "console_history env s es s'" "config_ok (ce_build env) s" "policies_ok s"
  shows "\<exists>ps ls. snapshot_policies s' = Ok (ps, ls) \<and>
    mset (map (\<lambda>x. (Some (sp_workspace x), sp_route x, sp_service x, Ok (sp_plugin x))) ps) =
      mset (map (\<lambda>p. (workspace_named s' (po_workspace p), route_name_of s' p, service_name_of s' p, parse_plugin (po_name p) (po_config p)))
        (filter (\<lambda>p. po_enabled p \<and> po_consumer p = None \<and> po_name p \<noteq> ''rate_limit'') (cd_policies s'))) \<and>
    mset (map (\<lambda>l. (Some (sl_workspace l), sl_route l, sl_service l, sl_consumer l, Some (sl_limit l))) ls) =
      mset (map (\<lambda>p. (workspace_named s' (po_workspace p), route_name_of s' p, service_name_of s' p, consumer_name_of s' p,
          stored_rate_limit (po_config p)))
        (filter (\<lambda>p. po_enabled p \<and> po_name p = ''rate_limit'') (cd_policies s')))"
  using snapshot_policies_read [OF history_config_ok [OF assms(1,2)] history_policies_ok [OF assms]]
  unfolding plugin_view_def policy_view_def served_limit_def stored_limit_def everyones_def rate_limit_name_def .

theorem stored_policies_served_witness:
  "\<exists>y. snapshot_policies shop_with_policy = Ok ([y], []) \<and> sp_plugin y = gold_policy"
proof -
  have read: "parse_plugin (plugin_kind gold_policy) (policy_config gold_policy) = Ok gold_policy"
    "plugin_kind gold_policy \<noteq> ''rate_limit''" by code_simp+
  from stored_policies_served [OF gold_history shop_db_ok shop_db_policies_ok] obtain ps ls
    where "snapshot_policies shop_with_policy = Ok (ps, ls)"
      "\<exists>wn rn sn. map (\<lambda>x. (Some (sp_workspace x), sp_route x, sp_service x, Ok (sp_plugin x))) ps =
         [(wn, rn, sn, parse_plugin (plugin_kind gold_policy) (policy_config gold_policy))]" "ls = []"
    using read(2) by (auto simp: gold_written(2) attached_policy_def simp del: mset_map)
  with read(1) show ?thesis by auto
qed

text \<open>
  C29: a policy that was written is the one that is served. Once a request to set a policy is answered
  without an error, whatever was written before, the snapshot holds on the target the request names
  exactly one policy of its kind, and it is the policy the request sent.
\<close>

theorem put_policy_takes_effect:
  assumes "console_history env s0 es s" "config_ok (ce_build env) s0" "policies_ok s0"
    "distinct (map wk_name (db_workspaces (cd_db s)))"
    "console env now (Police (PutPolicy c w kind input i)) s = Returns (None, s')"
  shows "\<exists>target p wn ps ls. parse_target (pi_target input) = Ok target \<and> parse_policy kind (pi_config input) = Ok p \<and>
    workspace_named s' w = Some wn \<and> snapshot_policies s' = Ok (ps, ls) \<and>
    filter (\<lambda>y. sp_workspace y = wn \<and> (sp_route y, sp_service y) = target_names target \<and> plugin_kind (sp_plugin y) = kind) ps =
      [\<lparr>sp_workspace = wn, sp_route = fst (target_names target), sp_service = snd (target_names target), sp_plugin = p\<rparr>]"
proof -
  have ok: "config_ok (ce_build env) s" "policies_ok s"
    using history_config_ok [OF assms(1,2)] history_policies_ok [OF assms(1-3)] by auto
  have ok': "config_ok (ce_build env) s'" "policies_ok s'"
    using console_ok [OF assms(5) ok(1)] console_policies_ok [OF assms(5) ok(1) _ ok(2)] by auto
  have put: "police (ce_show_time env) now (PutPolicy c w kind input i) s = Returns (None, s')" using assms(5) by simp
  then obtain target p r where t: "parse_target (pi_target input) = Ok target" and p: "parse_policy kind (pi_config input) = Ok p"
      and k: "kind \<in> set policy_kinds" and w: "try_put_policy (ce_show_time env) now c w target p (pi_seen input) i s = (r, s')" "None = (case r of Err x \<Rightarrow> Some x | Ok _ \<Rightarrow> None)"
    by (rule police_put) auto
  have kind: "plugin_kind p = kind" "parse_policy (plugin_kind p) (policy_config p) = Ok p" using policy_back [OF p] by auto
  have r: "r = Ok ()" using w(2) by (cases r) auto
  have same: "cd_services s' = cd_services s" "cd_routes s' = cd_routes s" "db_workspaces (cd_db s') = db_workspaces (cd_db s)"
    using police_follows [OF put] by (auto simp: policy_frame_def elim!: policy_change.cases)
  obtain resolved x where row: "target_row s w target = Ok resolved" "x \<in> set (cd_policies s')" "po_enabled x" "po_consumer x = None"
      "po_name x = kind" "parse_policy kind (po_config x) = Ok p" "po_service x = po_service (attached_policy i w p resolved now)"
      "po_route x = po_route (attached_policy i w p resolved now)" "po_workspace x = w"
    by (rule put_policy_row [OF w(1) [unfolded r] kind(2) ok(2)]) (use kind(1) ok(1) in blast)
  have names: "(route_name_of s' x, service_name_of s' x) = target_names target"
    by (rule placed_names [OF row(1) ok(1) same(1,2) row(7,8)])
  have "w \<in> wk_id ` set (db_workspaces (cd_db s'))" using policies_ok_parts(4) [OF ok'(2)] row(2,9) by auto
  then obtain wn where wn: "workspace_named s' (po_workspace x) = Some wn" using workspace_named_Some row(9) by blast
  obtain ps ls where snap: "snapshot_policies s' = Ok (ps, ls)" using snapshot_policies_read [OF ok'] by blast
  have x: "everyones x" "parse_plugin (po_name x) (po_config x) = Ok p"
    using row(3-6) kinds_apart [OF k] k by (auto simp: everyones_def parse_plugin_def)
  have d: "distinct (map wk_name (db_workspaces (cd_db s')))" using assms(4) same(3) by simp
  from only_policy [OF ok' d row(2) x wn snap] t p wn row(5,9) snap show ?thesis
    unfolding names by (auto simp flip: names)
qed

theorem put_policy_takes_effect_witness:
  "\<exists>ps ls y. snapshot_policies shop_with_policy = Ok (ps, ls) \<and> y \<in> set ps \<and> sp_route y = Some ''cart'' \<and> sp_plugin y = gold_policy"
proof -
  have "db_workspaces (cd_db shop_with_route) = db_workspaces (cd_db shop_db)"
    using frame_workspaces [OF shop_service_tables(3)] frame_workspaces [OF shop_route_tables(3)] by simp
  then have d: "distinct (map wk_name (db_workspaces (cd_db shop_with_route)))" by (simp add: shop_db_def shop_accounts_def)
  from put_policy_takes_effect [OF ana_history shop_db_ok shop_db_policies_ok d gold_written(1)] obtain wn ps ls
    where "snapshot_policies shop_with_policy = Ok (ps, ls)"
      "filter (\<lambda>y. sp_workspace y = wn \<and> (sp_route y, sp_service y) = (Some ''cart'', None) \<and> plugin_kind (sp_plugin y) = ''acl'') ps =
        [\<lparr>sp_workspace = wn, sp_route = Some ''cart'', sp_service = None, sp_plugin = gold_policy\<rparr>]"
    by (auto simp: gold_read)
  moreover from arg_cong [OF this(2), where f = set] have "\<lparr>sp_workspace = wn, sp_route = Some ''cart'', sp_service = None, sp_plugin = gold_policy\<rparr> \<in> set ps"
    by (auto simp: set_eq_iff)
  ultimately show ?thesis by force
qed

end
