(* ===== verification/Spec2Isabelle.thy ===== *)
theory Spec2Isabelle
  imports Duration Outlier Plugin_Safety Attrs Translate_Props Throttle_Props Store_Props Authority_Props
    Config_Props Policy_Props Served_Props
begin

text \<open>
  Gapura is an API gateway in Rust: a data plane that answers requests, a translator and a compiler
  that give it its configuration, and a control plane with a console and a database. This development
  models the parts of it that decide, as executable definitions on the same data, and proves what makes
  them correct. Paths below are relative to \<^verbatim>\<open>src/crates/\<close>; each theory names its source again.

  \<^bold>\<open>The program.\<close> A configuration (\<^verbatim>\<open>gapura-core/src/config.rs\<close>) holds listeners, per-port tables of
  matches, rules and clusters. Two front ends produce one: the translator
  (\<^verbatim>\<open>gapura-core/src/translate\<close>) from the Gateway API objects of a cluster, and the store compiler
  (\<^verbatim>\<open>gapura-core/src/store.rs\<close>) from the rows of the control plane's database. The data plane
  (\<^verbatim>\<open>gapura/src/proxy\<close>) normalises a request, finds its rule, runs the rule's policies in their
  phases and picks an endpoint. The console (\<^verbatim>\<open>gapura-control/src\<close>) writes the database: accounts,
  roles and workspaces, services, routes and policies, each write one transaction that reads the
  caller's rights again, and limits sign-in attempts.

  \<^bold>\<open>The shared layer.\<close> \<open>Gapura_Prelude\<close> has the machine types, the results (\<open>Ok\<close>, \<open>Err\<close>), the
  outcomes of code that may panic (\<open>run\<close>: \<open>Returns\<close>, \<open>Panics\<close>), wrapping and checked arithmetic and
  \<open>Reverse\<close>. \<open>Rust_Str\<close>, \<open>Rust_Num\<close>, \<open>Rust_Char\<close>, \<open>Rust_Net\<close> and \<open>Rust_Coll\<close> are what the sources
  use of the standard library: strings are bytes, and \<open>valid_utf8\<close> says which of them are texts.
  \<open>Rust_Ip6\<close> and \<open>Networks\<close> show that addresses and networks of both families read back.
  \<open>Machine\<close> runs state machines on lists of events, with the locale \<open>machine\<close> for invariants and
  monotone measures.

  \<^bold>\<open>Data plane.\<close> \<open>Duration\<close> (\<^verbatim>\<open>duration.rs\<close>), \<open>Hostname\<close>, \<open>Path\<close>, \<open>Client_Ip\<close>, \<open>Config\<close>, \<open>Precedence\<close>
  (\<^verbatim>\<open>translate/precedence.rs\<close>), \<open>Matcher\<close>, \<open>Credentials\<close>, \<open>Jwt\<close>, \<open>Failure\<close>, \<open>Select\<close>, \<open>Outlier\<close>,
  \<open>Rate_Limit\<close>, \<open>Query\<close> and \<open>Headers\<close> (\<^verbatim>\<open>proxy/transform.rs\<close>, \<^verbatim>\<open>proxy/mod.rs\<close>), \<open>Attrs\<close> and
  \<open>Plugin_Chain\<close> (\<^verbatim>\<open>proxy/plugin.rs\<close>) model one source file each. Shown: the duration parser against
  its grammar; normalised paths are absolute, without empty or dot segments, and stable; the client
  address is the rightmost untrusted hop; the table is searched for the most specific match; a window
  admits exactly its limit; ejection, probation and recovery of an endpoint; a token is accepted only
  with a valid signature, issuer, audience and time. \<open>Plugin_Safety\<close> composes the chain: a request that
  goes on was admitted by every policy of its rule and has the consumer its credential names, a refused
  one spends nothing, a body is cut at its limit, a checked key is not
  forwarded, the caller headers are the gateway's.

  \<^bold>\<open>Translator.\<close> \<open>Input\<close>, \<open>Snapshot\<close>, \<open>Admission\<close> (grants, allowed routes, class acceptance),
  \<open>Listeners\<close>, \<open>Backends\<close>, \<open>Rules\<close>, \<open>Remap\<close>, \<open>Routes\<close> and \<open>Translate\<close> follow the files of
  \<^verbatim>\<open>translate/\<close>; \<open>Rules_Sound\<close>, \<open>Attach_Sound\<close>, \<open>Served\<close>, \<open>Assemble\<close> and \<open>Translate_Sound\<close> hold the
  lemmas on each stage and \<open>Translate_Props\<close> the properties of the whole: it never panics, its output
  is well formed, and nothing is routed, no certificate served and no backend reached that the
  Gateways, the routes and the reference grants do not permit.

  \<^bold>\<open>Store compiler.\<close> \<open>Store\<close>, with \<open>Store_Sound\<close>, \<open>Store_Policies\<close> and \<open>Store_Props\<close>: a request gets
  the admitting route of the highest priority; a rule reaches the service of its own workspace with the
  policies and limits on the route, else on its service, else on the workspace.

  \<^bold>\<open>Console.\<close> \<open>Roles\<close> and \<open>Accounts\<close> are the rules (\<^verbatim>\<open>access.rs\<close>, \<^verbatim>\<open>grants.rs\<close>, \<^verbatim>\<open>accounts.rs\<close>,
  \<^verbatim>\<open>password.rs\<close>, \<^verbatim>\<open>workspaces.rs\<close>), \<open>Authority\<close> the transactions of \<^verbatim>\<open>store/grants.rs\<close>,
  \<^verbatim>\<open>store/accounts.rs\<close>, \<^verbatim>\<open>store/workspaces.rs\<close>, \<^verbatim>\<open>store/settings.rs\<close> and \<^verbatim>\<open>store/identity.rs\<close> on a
  record of tables, with \<open>perform\<close> for one request and \<open>history\<close> for any sequence. \<open>Authority_Sound\<close>,
  \<open>Bindings\<close>, \<open>Authority_Steps\<close> (the step relation \<open>effect\<close>), \<open>Authority_Rights\<close> and \<open>Authority_Props\<close>
  show that a superuser and an admin of a workspace remain, that the log names who wrote, that only
  those who administer a workspace change roles there, and that a session once cut off stays
  cut off. \<open>Configuration\<close> (\<^verbatim>\<open>configuration.rs\<close>) and \<open>Config_Store\<close> (\<^verbatim>\<open>store/configuration.rs\<close>, the
  snapshot of \<^verbatim>\<open>store/mod.rs\<close>, the handlers of \<^verbatim>\<open>configuration_api.rs\<close>) are the services and routes;
  \<open>Config_Paths\<close>, \<open>Config_Sound\<close>, \<open>Config_Steps\<close> (the relation \<open>changes\<close>), \<open>Console\<close> (the writes to
  accounts, configuration and policies interleaved) and \<open>Config_Props\<close> show that every stored route
  reads back and is served, that the hosts of two workspaces stay apart, that no update is lost and
  that only editors change the services, routes and policies of a workspace. \<open>Policies\<close>
  (\<^verbatim>\<open>policies.rs\<close>) reads and writes the stored policies of seven kinds; \<open>Policy_Forms\<close>, \<open>Policy_Safe\<close>
  and \<open>Policy_Props\<close> show that each is stored in a form that reads back as itself, that no accepted
  transformer touches a framing header or the caller's headers, and that credentials go only to listed
  origins. \<open>Policy_Store\<close> has the rows of policies: the transactions of \<^verbatim>\<open>store/policies.rs\<close>, the
  handlers of \<^verbatim>\<open>policies_api.rs\<close>, and the policies of the snapshot of \<^verbatim>\<open>store/mod.rs\<close> with the readers of
  the rows of \<^verbatim>\<open>jwt\<close>, \<^verbatim>\<open>key_auth\<close> and \<^verbatim>\<open>rate_limit\<close> policies. \<open>Policy_Steps\<close> gives its writes as the
  relation \<open>policy_change\<close> and shows that they keep the invariant \<open>policies_ok\<close>; \<open>Policy_Served\<close> and
  \<open>Served_Props\<close> show that every stored policy is read by the snapshot and that a policy that was
  written is the one that is served. \<open>Throttle\<close>, \<open>Throttle_Sound\<close> and \<open>Throttle_Props\<close> are the attempt
  limits of \<^verbatim>\<open>throttle.rs\<close>.

  \<^bold>\<open>Interfaces.\<close> Each contract one part relies on is a locale, interpreted on the model's own
  operations: \<open>access_list\<close> (address and group lists), \<open>routing_table\<close> (the sorted table the matcher
  walks), \<open>header_target\<close> (the header map the edits run on), \<open>machine\<close> (endpoint record, limiter,
  memo of path patterns, throttle, sign-ups), \<open>counter_property\<close> (what every operation keeps of each
  counter), \<open>attached\<close> (policies and limits attached to routes) and \<open>bindings\<close> (roles under a key).

  \<^bold>\<open>Parameters and hypotheses.\<close> Third-party code is an argument: the regex builder and its matching,
  the text of its errors, SHA-256 and password hashing, base64, signature verification, the PEM reader,
  the JSON and UUID readers, the lowercase of Unicode. A property that needs something of one says so as
  a hypothesis, and its witness instantiates it. A Postgres transaction is one step, which is what its
  locks and serialisable retries are for, and one that is refused leaves the tables as they were; \<open>now()\<close> is the time of the step. Texts are ordered by bytes,
  where Postgres may use a collation: this decides the order of lists only. The clock of a history does
  not go back.

  \<^bold>\<open>Termination.\<close> Loops are structural recursions or have a termination proof; the only bound is the
  three attempts of \<open>retry_loop\<close>, which is the source's own.

  \<^bold>\<open>Not modelled\<close>, with the reasons in the manifest: the callbacks of the HTTP framework around the
  modelled steps, TLS and DNS, the watching and polling of configuration sources, telemetry, command
  lines, the OIDC exchange and the pages of the console, the writes to consumers and data planes in the
  store, and the joined view of a cluster. They are input and output, third-party protocols or display, or repeat
  the pattern of the transactions that are modelled.
\<close>

end
